(* ===== verification/Prelude.thy ===== *)
theory Prelude
  imports Main
begin

text \<open>
  What the components share: the exceptions of the server code as one
  datatype, Python functions that may raise as sums, database actions as
  state-exception functions with their combinators, invariants of actions
  (\<open>ensures\<close>) with the rules that carry them through the combinators,
  database tables as lists of rows addressed by primary key, and small string
  helpers of the Python standard library.
\<close>

section \<open>Exceptions\<close>

datatype exn =
    ContextConsistencyError string
  | PermissionDenied string
  | ValidationError string
  | ValueError string
  | KeyError string
  | IndexError
  | TypeError string
  | LookupError string
  | TaskConfigError string
  | AssertionError string
  | ImproperlyConfigured string
  | NotImplementedError string
  | DoesNotExist string
  | MultipleObjectsReturned string
  | IntegrityError string
  | DataError string
  | ProtectedError string
  | RuntimeError string
  | FileNotFoundError string
  | NotSupportedError string
  | AttributeError string
  | CannotRetry string
  | CannotAbort string
  | CannotUnblock string
  | InternalTaskError string
  | SkipWorkRequest
  | ItemAdditionError string
  | ItemRemovalError string
  | AssignToWorkerError string string
  | WorkflowRunError string string
  | WorkflowValidationError string
  | ArtifactHasNoArchitecture
  | ArtifactHasNoBinaryPackageName
  | DebusineAPIException nat string
  | APIException nat string \<comment> \<open>an exception of the REST framework, with its status code\<close>
  | OutOfFuel \<comment> \<open>not an exception of the code: the recursion bound was too small\<close>

type_synonym 'a res = "exn + 'a"

definition bind_res :: "'a res \<Rightarrow> ('a \<Rightarrow> 'b res) \<Rightarrow> 'b res" where
  "bind_res r f = (case r of Inl e \<Rightarrow> Inl e | Inr x \<Rightarrow> f x)"

lemma bind_res_simps [simp]:
  "bind_res (Inl e) f = Inl e"
  "bind_res (Inr x) f = f x"
  by (simp_all add: bind_res_def)

lemma bind_res_eq_Inr: "bind_res r f = Inr y \<longleftrightarrow> (\<exists>x. r = Inr x \<and> f x = Inr y)"
  by (cases r) simp_all

section \<open>Database actions\<close>

text \<open>
  An operation that reads and writes the database returns its result, or the
  exception it raised, together with the database it left behind: an exception
  does not undo the writes made before it, which matters wherever the code
  catches it.
\<close>

type_synonym ('s, 'a) act = "'s \<Rightarrow> 'a res \<times> 's"

definition ret :: "'a \<Rightarrow> ('s, 'a) act" where
  "ret x s = (Inr x, s)"

definition raise :: "exn \<Rightarrow> ('s, 'a) act" where
  "raise e s = (Inl e, s)"

definition bind_act :: "('s, 'a) act \<Rightarrow> ('a \<Rightarrow> ('s, 'b) act) \<Rightarrow> ('s, 'b) act" where
  "bind_act m f s = (case m s of (Inl e, s') \<Rightarrow> (Inl e, s') | (Inr x, s') \<Rightarrow> f x s')"

definition seq_act :: "('s, 'a) act \<Rightarrow> ('s, 'b) act \<Rightarrow> ('s, 'b) act" where
  "seq_act m k = bind_act m (\<lambda>_. k)"

definition with_db :: "('s \<Rightarrow> ('s, 'a) act) \<Rightarrow> ('s, 'a) act" where
  "with_db f s = f s s"

definition modify_db :: "('s \<Rightarrow> 's) \<Rightarrow> ('s, unit) act" where
  "modify_db f s = (Inr (), f s)"

definition when_act :: "bool \<Rightarrow> ('s, unit) act \<Rightarrow> ('s, unit) act" where
  "when_act b m = (if b then m else ret ())"

definition catch_act :: "('s, 'a) act \<Rightarrow> (exn \<Rightarrow> ('s, 'a) act) \<Rightarrow> ('s, 'a) act" where
  "catch_act m h s = (case m s of (Inl e, s') \<Rightarrow> h e s' | (Inr x, s') \<Rightarrow> (Inr x, s'))"

primrec for_each :: "'a list \<Rightarrow> ('a \<Rightarrow> ('s, unit) act) \<Rightarrow> ('s, unit) act" where
  "for_each [] f = ret ()"
| "for_each (x # xs) f = seq_act (f x) (for_each xs f)"

definition lift_res :: "'a res \<Rightarrow> ('s, 'a) act" where
  "lift_res r s = (r, s)"

text \<open>\<open>transaction.atomic\<close>: an exception that leaves the block undoes its writes.\<close>

definition atomic :: "('s, 'a) act \<Rightarrow> ('s, 'a) act" where
  "atomic m s = (case m s of (Inl x, _) \<Rightarrow> (Inl x, s) | (Inr y, t) \<Rightarrow> (Inr y, t))"

lemmas act_defs = ret_def raise_def bind_act_def seq_act_def with_db_def modify_db_def
  when_act_def catch_act_def lift_res_def

section \<open>Invariants through the combinators\<close>

text \<open>
  \<open>ensures I Q m\<close>: started in a database that satisfies \<open>I\<close>, the action \<open>m\<close> leaves
  one that does, whether it returns or raises, and what it returns satisfies \<open>Q\<close>.
\<close>

definition ensures :: "('s \<Rightarrow> bool) \<Rightarrow> ('a \<Rightarrow> bool) \<Rightarrow> ('s, 'a) act \<Rightarrow> bool" where
  "ensures I Q m \<longleftrightarrow> (\<forall>s. I s \<longrightarrow> I (snd (m s)) \<and> (\<forall>x. fst (m s) = Inr x \<longrightarrow> Q x))"

named_theorems ensures_intros

lemma ensures_ret: "Q x \<Longrightarrow> ensures I Q (ret x)"
  by (simp add: ensures_def ret_def)

lemma ensures_raise [ensures_intros]: "ensures I Q (raise e)"
  by (simp add: ensures_def raise_def)

lemma ensures_bind:
  assumes "ensures I Q m" and "\<And>x. Q x \<Longrightarrow> ensures I P (f x)"
  shows "ensures I P (bind_act m f)"
  using assms unfolding ensures_def bind_act_def by (fastforce split: sum.splits prod.splits)

lemma ensures_seq:
  assumes "ensures I Q m" and "ensures I P k"
  shows "ensures I P (seq_act m k)"
  unfolding seq_act_def by (rule ensures_bind [OF assms(1)]) (rule assms(2))

lemma ensures_with_db:
  "(\<And>s. I s \<Longrightarrow> ensures I Q (f s)) \<Longrightarrow> ensures I Q (with_db f)"
  by (simp add: ensures_def with_db_def)

lemma ensures_modify: "(\<And>s. I s \<Longrightarrow> I (f s)) \<Longrightarrow> ensures I (\<lambda>_. True) (modify_db f)"
  by (simp add: ensures_def modify_db_def)

lemma ensures_lift: "(\<And>x. r = Inr x \<Longrightarrow> Q x) \<Longrightarrow> ensures I Q (lift_res r)"
  by (simp add: ensures_def lift_res_def)

lemma ensures_when: "(b \<Longrightarrow> ensures I (\<lambda>_. True) m) \<Longrightarrow> ensures I (\<lambda>_. True) (when_act b m)"
  by (simp add: when_act_def ensures_ret)

lemma ensures_catch:
  assumes "ensures I Q m" and "\<And>e. ensures I Q (h e)"
  shows "ensures I Q (catch_act m h)"
  using assms unfolding ensures_def catch_act_def by (fastforce split: sum.splits prod.splits)

lemma ensures_atomic: "ensures I Q m \<Longrightarrow> ensures I Q (atomic m)"
  unfolding ensures_def atomic_def by (fastforce split: sum.splits prod.splits)

lemma ensures_for_each:
  "(\<And>x. x \<in> set xs \<Longrightarrow> ensures I (\<lambda>_. True) (f x)) \<Longrightarrow>
     ensures I (\<lambda>_. True) (for_each xs f)"
  by (induction xs) (auto intro: ensures_ret ensures_seq)

lemma ensures_if:
  "(b \<Longrightarrow> ensures I Q m) \<Longrightarrow> (\<not> b \<Longrightarrow> ensures I Q k) \<Longrightarrow> ensures I Q (if b then m else k)"
  by simp

lemma ensures_prod:
  "(\<And>a b. x = (a, b) \<Longrightarrow> ensures I Q (f a b)) \<Longrightarrow> ensures I Q (case x of (a, b) \<Rightarrow> f a b)"
  by (cases x) simp

lemma ensures_option:
  "(x = None \<Longrightarrow> ensures I Q m) \<Longrightarrow> (\<And>y. x = Some y \<Longrightarrow> ensures I Q (f y)) \<Longrightarrow>
     ensures I Q (case x of None \<Rightarrow> m | Some y \<Rightarrow> f y)"
  by (cases x) simp_all

lemma ensures_weaken: "ensures I Q m \<Longrightarrow> (\<And>x. Q x \<Longrightarrow> P x) \<Longrightarrow> ensures I P m"
  by (simp add: ensures_def)

lemma ensures_run: "ensures I Q m \<Longrightarrow> I s \<Longrightarrow> m s = (r, t) \<Longrightarrow> I t"
  by (metis ensures_def snd_conv)

lemmas ensures_rules = ensures_with_db ensures_when ensures_for_each ensures_if
  ensures_prod ensures_option

text \<open>
  \<open>preserves I m\<close>: when the action \<open>m\<close> succeeds it keeps \<open>I\<close>; when it raises, the
  transaction around it is undone.
\<close>

definition preserves :: "('s \<Rightarrow> bool) \<Rightarrow> ('s, 'a) act \<Rightarrow> bool" where
  "preserves I m \<longleftrightarrow> (\<forall>s x t. I s \<longrightarrow> m s = (Inr x, t) \<longrightarrow> I t)"

lemma preservesI: "(\<And>s x t. I s \<Longrightarrow> m s = (Inr x, t) \<Longrightarrow> I t) \<Longrightarrow> preserves I m"
  by (simp add: preserves_def)

lemma preservesD: "preserves I m \<Longrightarrow> I s \<Longrightarrow> m s = (Inr x, t) \<Longrightarrow> I t"
  by (auto simp: preserves_def)

lemma preserves_ret: "preserves I (ret x)"
  by (simp add: preserves_def ret_def)

lemma preserves_raise: "preserves I (raise e)"
  by (simp add: preserves_def raise_def)

lemma preserves_lift: "preserves I (lift_res r)"
  by (simp add: preserves_def lift_res_def)

lemma preserves_bind:
  assumes "preserves I m" and "\<And>x. preserves I (f x)"
  shows "preserves I (bind_act m f)"
proof (rule preservesI)
  fix s x t
  assume I: "I s" and run: "bind_act m f s = (Inr x, t)"
  obtain r s' where m: "m s = (r, s')" by (rule prod.exhaust)
  show "I t"
  proof (cases r)
    case (Inl e)
    with m run show ?thesis by (simp add: bind_act_def)
  next
    case (Inr y)
    with m have "m s = (Inr y, s')" by simp
    then have "I s'" by (rule preservesD [OF assms(1) I])
    moreover have "f y s' = (Inr x, t)" using m run Inr by (simp add: bind_act_def)
    ultimately show ?thesis by (rule preservesD [OF assms(2)])
  qed
qed

lemma preserves_seq: "preserves I m \<Longrightarrow> preserves I k \<Longrightarrow> preserves I (seq_act m k)"
  unfolding seq_act_def by (rule preserves_bind)

lemma preserves_with_db: "(\<And>s. I s \<Longrightarrow> preserves I (f s)) \<Longrightarrow> preserves I (with_db f)"
  unfolding preserves_def with_db_def by blast

lemma preserves_modify: "(\<And>s. I s \<Longrightarrow> I (f s)) \<Longrightarrow> preserves I (modify_db f)"
  by (simp add: preserves_def modify_db_def)

lemma preserves_when: "(b \<Longrightarrow> preserves I m) \<Longrightarrow> preserves I (when_act b m)"
  by (simp add: when_act_def preserves_ret)

lemma preserves_for_each:
  "(\<And>x. x \<in> set xs \<Longrightarrow> preserves I (f x)) \<Longrightarrow> preserves I (for_each xs f)"
  by (induction xs) (simp_all add: preserves_ret preserves_seq)

lemma preserves_if:
  "(b \<Longrightarrow> preserves I m) \<Longrightarrow> (\<not> b \<Longrightarrow> preserves I k) \<Longrightarrow> preserves I (if b then m else k)"
  by simp

lemma preserves_option:
  "(x = None \<Longrightarrow> preserves I m) \<Longrightarrow> (\<And>y. x = Some y \<Longrightarrow> preserves I (f y)) \<Longrightarrow>
     preserves I (case x of None \<Rightarrow> m | Some y \<Rightarrow> f y)"
  by (cases x) simp_all

lemma preserves_prod:
  "(\<And>a b. x = (a, b) \<Longrightarrow> preserves I (f a b)) \<Longrightarrow> preserves I (case x of (a, b) \<Rightarrow> f a b)"
  by (cases x) simp

lemmas preserves_rules = preserves_ret preserves_raise preserves_lift preserves_bind preserves_seq
  preserves_when preserves_if preserves_option preserves_prod

section \<open>Tables\<close>

text \<open>
  A table is the list of its rows. \<open>tbl_get\<close> is Django's \<open>get(pk=...)\<close>,
  \<open>tbl_upd\<close> an \<open>UPDATE ... WHERE pk = i\<close>, \<open>tbl_next\<close> the next primary key.
\<close>

definition tbl_get :: "('r \<Rightarrow> nat) \<Rightarrow> nat \<Rightarrow> 'r list \<Rightarrow> 'r option" where
  "tbl_get key i t = find (\<lambda>r. key r = i) t"

definition tbl_upd :: "('r \<Rightarrow> nat) \<Rightarrow> nat \<Rightarrow> ('r \<Rightarrow> 'r) \<Rightarrow> 'r list \<Rightarrow> 'r list" where
  "tbl_upd key i f t = map (\<lambda>r. if key r = i then f r else r) t"

definition tbl_next :: "('r \<Rightarrow> nat) \<Rightarrow> 'r list \<Rightarrow> nat" where
  "tbl_next key t = Suc (fold (\<lambda>r m. max (key r) m) t 0)"

lemma tbl_get_Nil [simp]: "tbl_get key i [] = None"
  by (simp add: tbl_get_def)

lemma tbl_get_Cons [simp]:
  "tbl_get key i (r # t) = (if key r = i then Some r else tbl_get key i t)"
  by (simp add: tbl_get_def)

lemma tbl_get_key: "tbl_get key i t = Some r \<Longrightarrow> key r = i"
  by (induction t) (auto split: if_splits)

lemma tbl_get_mem: "tbl_get key i t = Some r \<Longrightarrow> r \<in> set t"
  by (induction t) (auto split: if_splits)

lemma tbl_get_None: "tbl_get key i t = None \<longleftrightarrow> (\<forall>r\<in>set t. key r \<noteq> i)"
  by (induction t) auto

lemma tbl_get_iff:
  "distinct (map key t) \<Longrightarrow> tbl_get key i t = Some r \<longleftrightarrow> r \<in> set t \<and> key r = i"
  by (induction t) auto

lemma same_id:
  assumes "distinct (map key t)" and "x \<in> set t" and "y \<in> set t" and "key x = key y"
  shows "x = y"
  using assms by (auto simp: distinct_map dest: inj_onD)

lemma tbl_upd_Nil [simp]: "tbl_upd key i f [] = []"
  by (simp add: tbl_upd_def)

lemma tbl_upd_Cons [simp]:
  "tbl_upd key i f (r # t) = (if key r = i then f r else r) # tbl_upd key i f t"
  by (simp add: tbl_upd_def)

lemma tbl_get_upd:
  assumes "\<And>r. key (f r) = key r"
  shows "tbl_get key j (tbl_upd key i f t) =
    (if j = i then map_option f (tbl_get key i t) else tbl_get key j t)"
  by (induction t) (auto simp: assms)

lemma map_key_upd:
  assumes "\<And>r. key (f r) = key r"
  shows "map key (tbl_upd key i f t) = map key t"
  by (induction t) (auto simp: assms)

lemma tbl_get_append:
  "tbl_get key i (t @ u) = (case tbl_get key i t of Some r \<Rightarrow> Some r | None \<Rightarrow> tbl_get key i u)"
  by (induction t) auto

lemma fold_max_ge: "m \<le> fold (\<lambda>r m. max (key r) m) t (m :: nat)"
  by (induction t arbitrary: m) (auto intro: order_trans [OF max.cobounded2])

lemma fold_max_mem: "r \<in> set t \<Longrightarrow> key r \<le> fold (\<lambda>r m. max (key r) m) t (m :: nat)"
proof (induction t arbitrary: m)
  case Nil
  then show ?case by simp
next
  case (Cons x t)
  show ?case
  proof (cases "r = x")
    case True
    have "max (key r) m \<le> fold (\<lambda>r m. max (key r) m) t (max (key r) m)" by (rule fold_max_ge)
    with True show ?thesis by simp
  next
    case False
    with Cons show ?thesis by simp
  qed
qed

lemma tbl_next_fresh: "r \<in> set t \<Longrightarrow> key r < tbl_next key t"
  using fold_max_mem [of r t key 0] by (simp add: tbl_next_def)

lemma tbl_get_next: "tbl_get key (tbl_next key t) t = None"
  by (auto simp: tbl_get_None dest: tbl_next_fresh [where key = key])

text \<open>\<open>qs.filter(P).filter(pk=row.pk).exists()\<close> tests the row itself.\<close>

lemma filter_pk_exists:
  assumes "distinct (map key t)" and "w \<in> set t"
  shows "filter (\<lambda>r. key r = key w) (filter P t) \<noteq> [] \<longleftrightarrow> P w"
proof -
  have "r = w" if "r \<in> set t" "key r = key w" for r
    using assms that by (auto simp: distinct_map dest: inj_onD)
  with assms(2) show ?thesis by (auto simp: filter_empty_conv)
qed

lemma distinct_const_length:
  assumes "distinct (map f xs)" and "\<forall>x\<in>set xs. f x = v"
  shows "length xs \<le> 1"
  using assms by (cases xs rule: remdups_adj.cases) auto

lemma find_last: "filter P xs = [] \<Longrightarrow> P x \<Longrightarrow> find P (xs @ [x]) = Some x"
  by (induction xs) (auto split: if_splits)

section \<open>Dictionaries\<close>

text \<open>
  A Python \<open>dict\<close> as the list of its items in insertion order: assignment keeps
  the place of a key that is there and appends a new one; \<open>update\<close> assigns the
  items of the other dictionary one by one.
\<close>

primrec dict_set :: "'k \<Rightarrow> 'v \<Rightarrow> ('k \<times> 'v) list \<Rightarrow> ('k \<times> 'v) list" where
  "dict_set k v [] = [(k, v)]"
| "dict_set k v (p # ps) = (if fst p = k then (k, v) # ps else p # dict_set k v ps)"

definition dict_update :: "('k \<times> 'v) list \<Rightarrow> ('k \<times> 'v) list \<Rightarrow> ('k \<times> 'v) list" where
  "dict_update d other = fold (\<lambda>(k, v) acc. dict_set k v acc) other d"

lemma map_of_dict_set [simp]: "map_of (dict_set k v d) = (map_of d)(k \<mapsto> v)"
  by (induction d) (auto simp: fun_eq_iff)

lemma keys_dict_set: "fst ` set (dict_set k v d) = insert k (fst ` set d)"
  by (induction d) auto

lemma distinct_dict_set: "distinct (map fst d) \<Longrightarrow> distinct (map fst (dict_set k v d))"
proof (induction d)
  case (Cons p d)
  moreover have "set (map fst (dict_set k v d)) = insert k (fst ` set d)"
    using keys_dict_set [of k v d] by simp
  ultimately show ?case by auto
qed simp

lemma map_of_dict_update:
  "distinct (map fst other) \<Longrightarrow> map_of (dict_update d other) = map_of d ++ map_of other"
proof (induction other arbitrary: d)
  case Nil
  then show ?case by (simp add: dict_update_def)
next
  case (Cons p other)
  obtain k v where p: "p = (k, v)" by fastforce
  with Cons.prems have "k \<notin> dom (map_of other)" by (simp add: dom_map_of_conv_image_fst)
  then have *: "(map_of d)(k \<mapsto> v) ++ map_of other = (map_of d ++ map_of other)(k \<mapsto> v)"
    by (rule map_add_upd_left)
  have "map_of (dict_update d (p # other)) = map_of (dict_update (dict_set k v d) other)"
    by (simp add: dict_update_def p)
  also have "\<dots> = (map_of d)(k \<mapsto> v) ++ map_of other"
    using Cons by simp
  also have "\<dots> = map_of d ++ map_of (p # other)"
    by (simp add: p *)
  finally show ?case .
qed

section \<open>Strings\<close>

definition starts_with :: "string \<Rightarrow> string \<Rightarrow> bool" where
  "starts_with p s = (take (length p) s = p)"

text \<open>
  Python's \<open>re\<close>: a final \<open>$\<close> without \<open>MULTILINE\<close> matches at the end of the string
  and also just before a newline that ends it.
\<close>

definition at_dollar :: "string \<Rightarrow> bool" where
  "at_dollar rest \<longleftrightarrow> rest = [] \<or> rest = [CHR 0x0A]"

definition is_ascii_alpha :: "char \<Rightarrow> bool" where
  "is_ascii_alpha c = (let n = of_char c :: nat in (65 \<le> n \<and> n \<le> 90) \<or> (97 \<le> n \<and> n \<le> 122))"

text \<open>Python's \<open>str(n)\<close> for a natural number, and \<open>f"{n:03}"\<close>.\<close>

fun decimal :: "nat \<Rightarrow> string" where
  "decimal n = (if n < 10 then [char_of (48 + n)] else decimal (n div 10) @ [char_of (48 + n mod 10)])"

declare decimal.simps [simp del]

definition padded3 :: "nat \<Rightarrow> string" where
  "padded3 n = replicate (3 - length (decimal n)) (CHR ''0'') @ decimal n"

text \<open>\<open>bytes.hex()\<close>: two digits per byte.\<close>

definition hex_digit :: "nat \<Rightarrow> char" where
  "hex_digit n = char_of (if n < 10 then 48 + n else 87 + n)"

definition hex :: "string \<Rightarrow> string" where
  "hex bs = concat (map (\<lambda>b. let n = of_char b :: nat in [hex_digit (n div 16), hex_digit (n mod 16)]) bs)"

lemma byte_digits: "(of_char c :: nat) div 16 < 16" "(of_char c :: nat) mod 16 < 16"
  using nat_of_char_less_256 [of c] by (simp_all only: less_mult_imp_div_less)

definition is_ascii_digit :: "char \<Rightarrow> bool" where
  "is_ascii_digit c = (let n = of_char c :: nat in 48 \<le> n \<and> n \<le> 57)"

end
