(* ===== verification/Database.thy ===== *)
theory Database
  imports Prelude
begin

text \<open>
  The data model: the rows of the Django models the components work on
  (debusine/db/models/*.py) as records, their choices as datatypes, and the
  database as one record of tables. Foreign keys are primary keys of the other
  table (\<open>option\<close> when nullable), the many-to-many field \<open>dependencies\<close> is a table
  of pairs (who depends, on what), times and durations are integers. Two further fields record what a transaction leaves for later:
  the hooks registered with \<open>transaction.on_commit\<close> and the messages sent.
\<close>

section \<open>Values\<close>

type_synonym pk = nat
type_synonym time = int
type_synonym duration = int

datatype json =
    JNull
  | JBool bool
  | JInt int
  | JStr string
  | JList "json list"
  | JObj "(string \<times> json) list"

text \<open>Who asks: no user in the context, the anonymous user, or an authenticated one.\<close>

datatype permission_user = NoUser | AnonymousUser | AuthUser pk

primrec is_authenticated :: "permission_user \<Rightarrow> bool" where
  "is_authenticated NoUser = False"
| "is_authenticated AnonymousUser = False"
| "is_authenticated (AuthUser u) = True"

section \<open>Scopes, groups, workspaces\<close>

datatype scope_role = ScopeOwner

datatype workspace_role = WsOwner | WsContributor | WsViewer

record scope =
  sc_id :: pk
  sc_name :: string

record scope_role_row =
  sr_resource :: pk
  sr_group :: pk
  sr_role :: scope_role

datatype group_role = GroupAdmin | GroupMember

record group_row =
  gp_id :: pk
  gp_name :: string
  gp_scope :: pk
  gp_ephemeral :: bool

record group_membership =
  gm_group :: pk
  gm_user :: pk
  gm_role :: group_role

record user_row =
  us_id :: pk
  us_username :: string

datatype group_change =
    GroupCreated string bool
  | GroupUpdated "(string \<times> bool) \<times> (string \<times> bool)"
  | MemberAdded string group_role
  | MemberRoleChanged string group_role
  | MemberRemoved string

record group_audit_log =
  gl_group :: pk
  gl_actor :: pk
  gl_changes :: group_change

record workspace =
  ws_id :: pk
  ws_name :: string
  ws_public :: bool
  ws_default_expiration_delay :: duration
  ws_scope :: pk
  ws_created_at :: time
  ws_expiration_delay :: "duration option"

record workspace_chain =
  wc_child :: pk
  wc_parent :: pk
  wc_order :: int

record workspace_role_row =
  wr_resource :: pk
  wr_group :: pk
  wr_role :: workspace_role

section \<open>Collections\<close>

datatype retains_artifacts = RetainsNever | RetainsWorkflow | RetainsAlways

record collection =
  co_id :: pk
  co_name :: string
  co_category :: string
  co_full_history_retention_period :: "duration option"
  co_metadata_only_retention_period :: "duration option"
  co_workspace :: pk
  co_retains_artifacts :: retains_artifacts
  co_data :: json

datatype child_type = BARE | ARTIFACT | COLLECTION

record collection_item =
  ci_id :: pk
  ci_name :: string
  ci_child_type :: child_type
  ci_category :: string
  ci_parent_collection :: pk
  ci_parent_category :: string
  ci_collection :: "pk option"
  ci_artifact :: "pk option"
  ci_data :: "(string \<times> json) list"
  ci_created_at :: time
  ci_created_by_user :: pk
  ci_created_by_workflow :: "pk option"
  ci_removed_at :: "time option"
  ci_removed_by_user :: "pk option"
  ci_removed_by_workflow :: "pk option"

section \<open>Work requests\<close>

datatype task_type = WORKER | SERVER | INTERNAL | WORKFLOW | SIGNING | WAIT

datatype status = PENDING | RUNNING | COMPLETED | ABORTED | BLOCKED

datatype runtime_status =
    RtNeedsInput | RtRunning | RtWaiting | RtPending | RtAborted | RtCompleted | RtBlocked

datatype result = NONE | SUCCESS | FAILURE | ERROR | SKIPPED

datatype unblock_strategy = DEPS | MANUAL

datatype unblock_action = ACCEPT | REJECT

record unblock_log =
  ul_user_id :: pk
  ul_timestamp :: time
  ul_notes :: "string option"
  ul_action :: "unblock_action option"

text \<open>
  \<open>workflow_data_json\<close> leaves unset fields out; \<open>wd_retry_counted\<close> says whether the count of
  retries is there. The other fields are set together or have another value when they are.
\<close>

record workflow_data =
  wd_allow_failure :: bool
  wd_display_name :: "string option"
  wd_step :: "string option"
  wd_group :: "string option"
  wd_workflow_template_name :: "string option"
  wd_manual_unblock :: "unblock_log list option"
  wd_needs_input :: "bool option"
  wd_retry_count :: int
  wd_retry_counted :: bool
  wd_visible :: bool

definition default_workflow_data :: workflow_data where
  "default_workflow_data = \<lparr>wd_allow_failure = False, wd_display_name = None, wd_step = None,
     wd_group = None, wd_workflow_template_name = None, wd_manual_unblock = None,
     wd_needs_input = None, wd_retry_count = 0, wd_retry_counted = False, wd_visible = True\<rparr>"

datatype event_reaction =
    ActionSkipIfLookupResultChanged string "pk option" "string option"
  | ActionSendNotification string
  | ActionUpdateCollectionWithArtifacts string "string option" "(string \<times> json) list"
      "(string \<times> json) list" "time option"
  | ActionUpdateCollectionWithData string string "string option" "(string \<times> json) list"
      "time option"
  | ActionRetryWithDelays "string list"
  | ActionRecordInTaskHistory "string option" "string option"

datatype event_name = On_creation | On_unblock | On_assignment | On_success | On_failure

record event_reactions =
  er_on_creation :: "event_reaction list"
  er_on_unblock :: "event_reaction list"
  er_on_assignment :: "event_reaction list"
  er_on_success :: "event_reaction list"
  er_on_failure :: "event_reaction list"

definition no_event_reactions :: event_reactions where
  "no_event_reactions = \<lparr>er_on_creation = [], er_on_unblock = [], er_on_assignment = [],
     er_on_success = [], er_on_failure = []\<rparr>"

text \<open>
  A field of \<open>OutputData\<close> is unset (\<open>None\<close>) or was set explicitly, possibly to
  Python's \<open>None\<close> (\<open>Some None\<close>): merging looks at \<open>__fields_set__\<close>.
\<close>

record runtime_statistics =
  rs_duration :: "int option"
  rs_cpu_time :: "int option"
  rs_disk_space :: "int option"
  rs_memory :: "int option"
  rs_available_disk_space :: "int option"
  rs_available_memory :: "int option"
  rs_cpu_count :: "int option"

record output_data =
  od_runtime_statistics :: "runtime_statistics option option"
  od_errors :: "(string \<times> string) list option option"
  od_skip_reason :: "string option option"
  od_regression_analysis :: "json option option"

definition empty_output_data :: output_data where
  "empty_output_data = \<lparr>od_runtime_statistics = None, od_errors = None,
     od_skip_reason = None, od_regression_analysis = None\<rparr>"

record work_request =
  wr_id :: pk
  wr_workspace :: pk
  wr_created_at :: time
  wr_started_at :: "time option"
  wr_completed_at :: "time option"
  wr_workflow_last_activity_at :: "time option"
  wr_created_by :: pk
  wr_aborted_by :: "pk option"
  wr_status :: status
  wr_workflow_runtime_status :: "runtime_status option"
  wr_workflows_need_update :: bool
  wr_result :: result
  wr_worker :: "pk option"
  wr_task_type :: task_type
  wr_task_name :: string
  wr_task_data :: "(string \<times> json) list"
  wr_dynamic_task_data :: "(string \<times> json) list option"
  wr_priority_base :: int
  wr_priority_adjustment :: int
  wr_output_data :: "output_data option"
  wr_unblock_strategy :: unblock_strategy
  wr_parent :: "pk option"
  wr_workflow_template :: "pk option"
  wr_workflow_data :: workflow_data
  wr_event_reactions :: event_reactions
  wr_internal_collection :: "pk option"
  wr_expiration_delay :: "duration option"
  wr_supersedes :: "pk option"
  wr_configured_task_data :: "(string \<times> json) list option"
  wr_version :: int

record workflow_template =
  wt_id :: pk
  wt_name :: string
  wt_workspace :: pk
  wt_task_name :: string
  wt_task_data :: "(string \<times> json) list"
  wt_priority :: int

section \<open>Workers\<close>

datatype worker_type = EXTERNAL | CELERY | SIGNING_WORKER

record worker =
  wk_id :: pk
  wk_name :: string
  wk_registered_at :: time
  wk_connected_at :: "time option"
  wk_instance_created_at :: "time option"
  wk_token :: "pk option"
  wk_activation_token :: "pk option"
  wk_static_metadata :: "(string \<times> json) list"
  wk_dynamic_metadata :: "(string \<times> json) list"
  wk_dynamic_metadata_updated_at :: "time option"
  wk_worker_type :: worker_type
  wk_concurrency :: nat
  wk_worker_pool :: "pk option"
  wk_worker_pool_data :: "(string \<times> json) list option"

record token =
  tk_id :: pk
  tk_hash :: string
  tk_user :: "pk option"
  tk_enabled :: bool
  tk_last_seen_at :: "time option"
  tk_expire_at :: "time option"

text \<open>The limits of a pool are those of its \<open>limits_model\<close>.\<close>

record worker_pool =
  wp_id :: pk
  wp_name :: string
  wp_enabled :: bool
  wp_instance_wide :: bool
  wp_ephemeral :: bool
  wp_max_active_instances :: "int option"
  wp_target_max_seconds_per_month :: "int option"
  wp_max_idle_seconds :: int
  wp_provider_account :: pk \<comment> \<open>an asset\<close>

record scope_worker_pool =
  swp_worker_pool :: pk
  swp_scope :: pk
  swp_priority :: int
  swp_target_max_seconds_per_month :: "int option"

record pool_statistics =
  ps_worker_pool :: pk
  ps_worker :: "pk option"
  ps_timestamp :: time
  ps_runtime :: int

section \<open>Artifacts and files\<close>

text \<open>Bytes are lists of characters, the 256 values of a byte.\<close>

type_synonym bytes = string

record artifact =
  ar_id :: pk
  ar_category :: string
  ar_workspace :: pk
  ar_data :: "(string \<times> json) list"
  ar_created_at :: time
  ar_expiration_delay :: "duration option"
  ar_created_by :: "pk option"
  ar_created_by_work_request :: "pk option"
  ar_original_artifact :: "pk option"

datatype relation_type = EXTENDS | RELATES_TO | BUILT_USING

record artifact_relation =
  rl_artifact :: pk
  rl_target :: pk
  rl_type :: relation_type

record file_row =
  fi_id :: pk
  fi_sha256 :: bytes
  fi_size :: nat

record file_in_artifact =
  fa_id :: pk
  fa_artifact :: pk
  fa_path :: string
  fa_file :: pk
  fa_complete :: bool
  fa_content_type :: "string option"

record file_upload =
  fu_id :: pk
  fu_file_in_artifact :: pk
  fu_path :: string

datatype backend_choice = LocalBackend | ExternalDebianSuite | MemoryBackend | S3

record file_store =
  fs_id :: pk
  fs_name :: string
  fs_backend :: backend_choice
  fs_configuration :: "(string \<times> json) list"
  fs_instance_wide :: bool
  fs_total_size :: int
  fs_soft_max_size :: "int option"
  fs_max_size :: "int option"
  fs_provider_account :: "pk option" \<comment> \<open>an asset\<close>

record file_in_store =
  fx_store :: pk
  fx_file :: pk
  fx_data :: "(string \<times> json) list"

record file_store_in_scope =
  sx_scope :: pk
  sx_file_store :: pk
  sx_upload_priority :: "int option"
  sx_download_priority :: "int option"
  sx_populate :: bool
  sx_drain :: bool
  sx_drain_to :: "string option"
  sx_read_only :: bool
  sx_write_only :: bool
  sx_soft_max_size :: "int option"

text \<open>
  Where a backend keeps the contents of a file: a path on the local disk, or a
  key of a dictionary in memory. What is kept there is not part of a database
  transaction.
\<close>

datatype location = LocalPath string | MemoryKey string string

record asset =
  as_id :: pk
  as_category :: string
  as_workspace :: "pk option"

record asset_role_row =
  ao_resource :: pk
  ao_group :: pk

record asset_usage =
  au_id :: pk
  au_asset :: pk
  au_workspace :: pk

record match_constraint =
  mc_collection :: pk
  mc_collection_item_id :: pk
  mc_constraint_name :: string
  mc_key :: string
  mc_value :: string

section \<open>The database\<close>

datatype hook = ScheduleTask | UpdateWorkflows | RunWorkflowTask pk | RunServerTask pk | Unlink string

datatype message =
    WorkRequestAssigned pk
  | WorkRequestCompleted pk
  | NotificationEmail pk string
  | WorkerDisabled pk

record execution_statistics =
  es_worker_pool :: pk
  es_worker :: "pk option"
  es_scope :: pk
  es_timestamp :: time
  es_runtime :: int

record db =
  db_scopes :: "scope list"
  db_scope_roles :: "scope_role_row list"
  db_groups :: "group_row list"
  db_memberships :: "group_membership list"
  db_users :: "user_row list"
  db_group_audit_log :: "group_audit_log list"
  db_workspaces :: "workspace list"
  db_workspace_chain :: "workspace_chain list"
  db_workspace_roles :: "workspace_role_row list"
  db_collections :: "collection list"
  db_items :: "collection_item list"
  db_work_requests :: "work_request list"
  db_dependencies :: "(pk \<times> pk) list"
  db_workflow_templates :: "workflow_template list"
  db_workers :: "worker list"
  db_tokens :: "token list"
  db_worker_pools :: "worker_pool list"
  db_scope_worker_pools :: "scope_worker_pool list"
  db_execution_statistics :: "execution_statistics list"
  db_pool_statistics :: "pool_statistics list"
  db_artifacts :: "artifact list"
  db_artifact_relations :: "artifact_relation list"
  db_files :: "file_row list"
  db_file_in_artifacts :: "file_in_artifact list"
  db_file_uploads :: "file_upload list"
  db_file_stores :: "file_store list"
  db_file_in_stores :: "file_in_store list"
  db_file_stores_in_scope :: "file_store_in_scope list"
  db_storage :: "(location \<times> bytes) list"
  db_assets :: "asset list"
  db_asset_roles :: "asset_role_row list"
  db_asset_usages :: "asset_usage list"
  db_asset_usage_roles :: "asset_role_row list"
  db_match_constraints :: "match_constraint list"
  db_on_commit :: "hook list"
  db_messages :: "message list"

definition empty_db :: db where
  "empty_db = \<lparr>db_scopes = [], db_scope_roles = [], db_groups = [], db_memberships = [],
     db_users = [], db_group_audit_log = [], db_workspaces = [],
     db_workspace_chain = [], db_workspace_roles = [], db_collections = [], db_items = [],
     db_work_requests = [], db_dependencies = [], db_workflow_templates = [], db_workers = [],
     db_tokens = [], db_worker_pools = [], db_scope_worker_pools = [],
     db_execution_statistics = [], db_pool_statistics = [],
     db_artifacts = [], db_artifact_relations = [], db_files = [], db_file_in_artifacts = [],
     db_file_uploads = [], db_file_stores = [], db_file_in_stores = [],
     db_file_stores_in_scope = [], db_storage = [], db_assets = [], db_asset_roles = [],
     db_asset_usages = [], db_asset_usage_roles = [], db_match_constraints = [],
     db_on_commit = [], db_messages = []\<rparr>"

type_synonym 'a dbact = "(db, 'a) act"

definition get_scope :: "db \<Rightarrow> pk \<Rightarrow> scope option" where
  "get_scope d i = tbl_get sc_id i (db_scopes d)"

definition get_workspace :: "db \<Rightarrow> pk \<Rightarrow> workspace option" where
  "get_workspace d i = tbl_get ws_id i (db_workspaces d)"

definition get_wr :: "db \<Rightarrow> pk \<Rightarrow> work_request option" where
  "get_wr d i = tbl_get wr_id i (db_work_requests d)"

definition get_worker :: "db \<Rightarrow> pk \<Rightarrow> worker option" where
  "get_worker d i = tbl_get wk_id i (db_workers d)"

definition get_token :: "db \<Rightarrow> pk \<Rightarrow> token option" where
  "get_token d i = tbl_get tk_id i (db_tokens d)"

text \<open>\<open>group__users=user\<close>: the groups a user belongs to.\<close>

definition in_group :: "db \<Rightarrow> pk \<Rightarrow> pk \<Rightarrow> bool" where
  "in_group d g u = list_ex (\<lambda>m. gm_group m = g \<and> gm_user m = u) (db_memberships d)"

lemma in_group_iff:
  "in_group d g u \<longleftrightarrow> (\<exists>m\<in>set (db_memberships d). gm_group m = g \<and> gm_user m = u)"
  by (simp add: in_group_def list_ex_iff)

end
