(* ===== verification/Permissions.thy ===== *)
theory Permissions
  imports Database
begin

text \<open>
  debusine/db/models/permissions.py and the application context of
  debusine/db/context.py: the decorators \<open>permission_check\<close> and
  \<open>permission_filter\<close>, \<open>enforce\<close>, the reduction of a collection of roles to a
  minimal one, the role enumerations of scopes, workspaces and work requests
  with the implications their \<open>_setup\<close> computes, and the context with its
  setters. The interface \<open>predicate_pair\<close> states what makes the check of one
  row and the filter of a query set two views of the same predicate.
\<close>

section \<open>The application context\<close>

record app_context =
  cx_permission_checks_disabled :: bool
  cx_scope :: "pk option"
  cx_scope_roles :: "scope_role set option"
  cx_user :: permission_user
  cx_worker_token :: "pk option"
  cx_workspace :: "pk option"
  cx_workspace_roles :: "workspace_role set option"

definition initial_context :: app_context where
  "initial_context = \<lparr>cx_permission_checks_disabled = False, cx_scope = None,
     cx_scope_roles = None, cx_user = NoUser, cx_worker_token = None, cx_workspace = None,
     cx_workspace_roles = None\<rparr>"

definition require_scope :: "app_context \<Rightarrow> pk res" where
  "require_scope cx = (case cx_scope cx of
     None \<Rightarrow> Inl (ContextConsistencyError ''scope is not set in context'') | Some s \<Rightarrow> Inr s)"

definition require_user :: "app_context \<Rightarrow> permission_user res" where
  "require_user cx = (if cx_user cx = NoUser
     then Inl (ContextConsistencyError ''user is not set in context'') else Inr (cx_user cx))"

definition require_workspace :: "app_context \<Rightarrow> pk res" where
  "require_workspace cx = (case cx_workspace cx of
     None \<Rightarrow> Inl (ContextConsistencyError ''workspace is not set in context'') | Some w \<Rightarrow> Inr w)"

definition context_scope_roles :: "app_context \<Rightarrow> scope_role set res" where
  "context_scope_roles cx = (case cx_scope_roles cx of
     None \<Rightarrow> Inl (ContextConsistencyError ''user is not set'') | Some r \<Rightarrow> Inr r)"

definition context_workspace_roles :: "app_context \<Rightarrow> workspace_role set res" where
  "context_workspace_roles cx = (case cx_workspace_roles cx of
     None \<Rightarrow> Inl (ContextConsistencyError ''workspace is not set'') | Some r \<Rightarrow> Inr r)"

definition set_scope :: "pk \<Rightarrow> app_context \<Rightarrow> app_context res" where
  "set_scope new_scope cx =
     (if cx_scope cx \<noteq> None then Inl (ContextConsistencyError ''Scope was already set'')
      else Inr (cx\<lparr>cx_scope := Some new_scope, cx_user := NoUser, cx_workspace := None\<rparr>))"

definition set_worker_token :: "token \<Rightarrow> app_context \<Rightarrow> app_context res" where
  "set_worker_token new_token cx =
     (if \<not> tk_enabled new_token then Inl (ContextConsistencyError ''Token is disabled'')
      else if cx_worker_token cx \<noteq> None
      then Inl (ContextConsistencyError ''Token was already set'')
      else Inr (cx\<lparr>cx_worker_token := Some (tk_id new_token)\<rparr>))"

definition reset_context :: "app_context \<Rightarrow> app_context" where
  "reset_context cx = cx\<lparr>cx_user := NoUser, cx_worker_token := None, cx_scope := None,
     cx_scope_roles := None, cx_workspace := None, cx_workspace_roles := None,
     cx_permission_checks_disabled := False\<rparr>"

section \<open>Checks, filters, enforcement\<close>

datatype allow = ALWAYS | NEVER | PASS

definition permission_check ::
  "allow \<Rightarrow> allow \<Rightarrow> ('r \<Rightarrow> permission_user \<Rightarrow> bool res) \<Rightarrow> app_context \<Rightarrow> 'r \<Rightarrow> permission_user \<Rightarrow> bool res"
where
  "permission_check workers anonymous f cx self user =
     (if cx_permission_checks_disabled cx then Inr True
      else if cx_worker_token cx \<noteq> None \<and> user = NoUser then
        (case workers of ALWAYS \<Rightarrow> Inr True | NEVER \<Rightarrow> Inr False | PASS \<Rightarrow> f self user)
      else if user = NoUser then Inl (ContextConsistencyError ''user was not set in context'')
      else if \<not> is_authenticated user then
        (case anonymous of ALWAYS \<Rightarrow> Inr True | NEVER \<Rightarrow> Inr False | PASS \<Rightarrow> f self user)
      else f self user)"

definition permission_filter ::
  "allow \<Rightarrow> allow \<Rightarrow> ('r list \<Rightarrow> permission_user \<Rightarrow> 'r list res) \<Rightarrow> app_context \<Rightarrow> 'r list \<Rightarrow>
     permission_user \<Rightarrow> 'r list res"
where
  "permission_filter workers anonymous f cx self user =
     (if cx_permission_checks_disabled cx then Inr self
      else if cx_worker_token cx \<noteq> None \<and> user = NoUser then
        (case workers of ALWAYS \<Rightarrow> Inr self | NEVER \<Rightarrow> Inr [] | PASS \<Rightarrow> f self user)
      else if user = NoUser then Inl (ContextConsistencyError ''user was not set in context'')
      else if \<not> is_authenticated user then
        (case anonymous of ALWAYS \<Rightarrow> Inr self | NEVER \<Rightarrow> Inr [] | PASS \<Rightarrow> f self user)
      else f self user)"

definition enforce :: "string \<Rightarrow> app_context \<Rightarrow> (permission_user \<Rightarrow> bool res) \<Rightarrow> unit res" where
  "enforce error_message cx predicate =
     bind_res (predicate (cx_user cx))
       (\<lambda>b. if b then Inr () else Inl (PermissionDenied error_message))"

text \<open>
  The interface between a model's predicates: in a consistent request \<open>c\<close> of a
  user, the body of the check of one row answers, and the body of the filter
  keeps, of the rows of the table, exactly those the check accepts.
\<close>

locale predicate_pair =
  fixes valid :: "'c \<Rightarrow> permission_user \<Rightarrow> bool"
    and rows :: "'c \<Rightarrow> 'r list"
    and check :: "'c \<Rightarrow> 'r \<Rightarrow> permission_user \<Rightarrow> bool res"
    and filt :: "'c \<Rightarrow> 'r list \<Rightarrow> permission_user \<Rightarrow> 'r list res"
  assumes check_filt: "valid c u \<Longrightarrow> u \<noteq> NoUser \<Longrightarrow>
    \<exists>kept. filt c (rows c) u = Inr kept \<and> set kept \<subseteq> set (rows c) \<and>
      (\<forall>r\<in>set (rows c). check c r u = Inr (r \<in> set kept))"
begin

text \<open>Decorated, the two still agree, or both raise the same exception.\<close>

lemma check_filter_cases:
  assumes "valid c u" and "workers \<noteq> PASS"
  shows "(\<exists>kept. permission_filter workers anonymous (filt c) cx (rows c) u = Inr kept
        \<and> set kept \<subseteq> set (rows c)
        \<and> (\<forall>r\<in>set (rows c). permission_check workers anonymous (check c) cx r u
             = Inr (r \<in> set kept)))
    \<or> (\<exists>e. permission_filter workers anonymous (filt c) cx (rows c) u = Inl e
        \<and> (\<forall>r. permission_check workers anonymous (check c) cx r u = Inl e))"
proof (cases "u = NoUser")
  case True
  with assms(2) show ?thesis
    by (cases workers) (auto simp: permission_check_def permission_filter_def)
next
  case False
  then obtain kept where "filt c (rows c) u = Inr kept" "set kept \<subseteq> set (rows c)"
    "\<forall>r\<in>set (rows c). check c r u = Inr (r \<in> set kept)"
    using check_filt assms(1) by blast
  with False show ?thesis
    by (cases anonymous) (auto simp: permission_check_def permission_filter_def)
qed

lemma check_iff_filter:
  assumes "valid c u" and "r \<in> set (rows c)" and "workers \<noteq> PASS"
  shows "permission_check workers anonymous (check c) cx r u = Inr True \<longleftrightarrow>
    (\<exists>kept. permission_filter workers anonymous (filt c) cx (rows c) u = Inr kept \<and> r \<in> set kept)"
  using check_filter_cases [OF assms(1,3), of anonymous cx] assms(2) by fastforce

end

section \<open>Minimal sets of roles\<close>

definition from_iterable :: "('r \<Rightarrow> 'r \<Rightarrow> bool) \<Rightarrow> 'r list \<Rightarrow> 'r set" where
  "from_iterable impl roles =
     (let all_roles = set roles in
      if card all_roles = 1 then all_roles
      else all_roles - Set.filter (\<lambda>b. \<exists>a\<in>all_roles. a \<noteq> b \<and> impl a b) all_roles)"

lemma from_iterable_eq:
  "from_iterable imp rs = {b \<in> set rs. \<forall>a\<in>set rs. imp a b \<longrightarrow> a = b}"
proof (cases "card (set rs) = 1")
  case True
  then obtain r where "set rs = {r}" by (auto simp: card_1_singleton_iff)
  then show ?thesis by (auto simp: from_iterable_def)
next
  case False
  then show ?thesis by (auto simp: from_iterable_def Let_def)
qed

text \<open>
  The interface of an implication between the roles of one resource: a partial
  order. The reduction then loses nothing: whoever holds a role still holds
  one that implies it, and no role that is kept is implied by another.
\<close>

locale role_order =
  fixes impl :: "'r \<Rightarrow> 'r \<Rightarrow> bool"
  assumes implies_refl: "impl r r"
    and implies_trans: "impl a b \<Longrightarrow> impl b c \<Longrightarrow> impl a c"
    and implies_antisym: "impl a b \<Longrightarrow> impl b a \<Longrightarrow> a = b"
begin

lemma maximal_above:
  assumes "finite A" and "r \<in> A"
  shows "\<exists>m\<in>A. impl m r \<and> (\<forall>a\<in>A. impl a m \<longrightarrow> a = m)"
  using assms
proof (induction "card {a \<in> A. impl a r}" arbitrary: r rule: less_induct)
  case less
  show ?case
  proof (cases "\<exists>a\<in>A. impl a r \<and> a \<noteq> r")
    case False
    with less.prems show ?thesis using implies_refl by blast
  next
    case True
    then obtain a where a: "a \<in> A" "impl a r" "a \<noteq> r" by blast
    have "{b \<in> A. impl b a} \<subset> {b \<in> A. impl b r}"
      using a implies_trans implies_antisym implies_refl less.prems(2) by blast
    then have "card {b \<in> A. impl b a} < card {b \<in> A. impl b r}"
      using less.prems(1) by (intro psubset_card_mono) auto
    from less.hyps [OF this less.prems(1) a(1)] a(2) show ?thesis
      using implies_trans by blast
  qed
qed

lemma from_iterable_implies:
  "(\<exists>a\<in>from_iterable impl rs. impl a r) \<longleftrightarrow> (\<exists>a\<in>set rs. impl a r)"
proof
  assume "\<exists>a\<in>set rs. impl a r"
  then obtain a where "a \<in> set rs" "impl a r" by blast
  then show "\<exists>a\<in>from_iterable impl rs. impl a r"
    using maximal_above [of "set rs" a] implies_trans
    by (auto simp: from_iterable_eq)
qed (auto simp: from_iterable_eq)

lemma from_iterable_antichain:
  "a \<in> from_iterable impl rs \<Longrightarrow> b \<in> from_iterable impl rs \<Longrightarrow> impl a b \<Longrightarrow> a = b"
  by (auto simp: from_iterable_eq)

end

end
