(* ===== verification/Roles.thy ===== *)
theory Roles
  imports Permissions
begin

text \<open>
  The role enumerations: \<open>ScopeRoles\<close> (debusine/db/models/scopes.py),
  \<open>WorkspaceRoles\<close> (workspaces.py) and \<open>WorkRequestRoles\<close> (work_requests.py).
  Each is declared by the list of what implies each role, in the order of the
  class body; \<open>Roles.setup\<close> runs \<open>_setup\<close> over it, which resolves the
  declarations to the sets the predicates look at. The roles of each resource
  form a partial order (interpretations of \<open>role_order\<close>).
\<close>

section \<open>Scope roles\<close>

definition scope_implied_by :: "scope_role \<Rightarrow> scope_role set" where
  "scope_implied_by r = {r}"

definition scope_implies :: "scope_role \<Rightarrow> scope_role \<Rightarrow> bool" where
  "scope_implies self role = (self \<in> scope_implied_by role)"

interpretation scope_roles: role_order scope_implies
  by unfold_locales (auto simp: scope_implies_def scope_implied_by_def)

section \<open>Workspace roles\<close>

datatype ws_implication = WsByScope scope_role | WsByRole workspace_role | WsByPublic | WsByOther

type_synonym ws_roles_table =
  "workspace_role \<rightharpoonup> scope_role set \<times> workspace_role set \<times> bool"

primrec ws_setup_role ::
  "ws_roles_table \<Rightarrow> ws_implication list \<Rightarrow> scope_role set \<times> workspace_role set \<times> bool \<Rightarrow>
     (scope_role set \<times> workspace_role set \<times> bool) res" where
  "ws_setup_role t [] acc = Inr acc"
| "ws_setup_role t (i # is) acc =
     (case acc of (scopes, workspaces, public) \<Rightarrow>
      (case i of
         WsByScope s \<Rightarrow> ws_setup_role t is (scopes \<union> scope_implied_by s, workspaces, public)
       | WsByRole w \<Rightarrow>
           (case t w of
              None \<Rightarrow> Inl (AttributeError ''implied_by_scope_roles'')
            | Some (s, ws, p) \<Rightarrow> ws_setup_role t is (scopes \<union> s, workspaces \<union> ws, public))
       | WsByPublic \<Rightarrow> ws_setup_role t is (scopes, workspaces, True)
       | WsByOther \<Rightarrow>
           Inl (ImproperlyConfigured ''Workspace roles do not support implications by'')))"

primrec ws_setup ::
  "(workspace_role \<times> ws_implication list) list \<Rightarrow> ws_roles_table \<Rightarrow> ws_roles_table res" where
  "ws_setup [] t = Inr t"
| "ws_setup (m # ms) t =
     bind_res (ws_setup_role t (snd m) ({}, {fst m}, False))
       (\<lambda>entry. ws_setup ms (t(fst m \<mapsto> entry)))"

definition ws_declared :: "(workspace_role \<times> ws_implication list) list" where
  "ws_declared =
     [(WsOwner, [WsByScope ScopeOwner]),
      (WsContributor, [WsByRole WsOwner]),
      (WsViewer, [WsByRole WsContributor, WsByPublic])]"

definition ws_roles_table :: ws_roles_table where
  "ws_roles_table = (case ws_setup ws_declared Map.empty of Inr t \<Rightarrow> t | Inl e \<Rightarrow> Map.empty)"

definition ws_implied_by_scope_roles :: "workspace_role \<Rightarrow> scope_role set" where
  "ws_implied_by_scope_roles r = (case ws_roles_table r of Some (s, w, p) \<Rightarrow> s | None \<Rightarrow> {})"

definition ws_implied_by_workspace_roles :: "workspace_role \<Rightarrow> workspace_role set" where
  "ws_implied_by_workspace_roles r = (case ws_roles_table r of Some (s, w, p) \<Rightarrow> w | None \<Rightarrow> {})"

definition ws_implied_by_public :: "workspace_role \<Rightarrow> bool" where
  "ws_implied_by_public r = (case ws_roles_table r of Some (s, w, p) \<Rightarrow> p | None \<Rightarrow> False)"

definition ws_implies :: "workspace_role \<Rightarrow> workspace_role \<Rightarrow> bool" where
  "ws_implies self role = (self \<in> ws_implied_by_workspace_roles role)"

lemma ws_setup_declared:
  "ws_setup ws_declared Map.empty =
     Inr [WsOwner \<mapsto> ({ScopeOwner}, {WsOwner}, False),
          WsContributor \<mapsto> ({ScopeOwner}, {WsContributor, WsOwner}, False),
          WsViewer \<mapsto> ({ScopeOwner}, {WsViewer, WsContributor, WsOwner}, True)]"
  by (simp add: ws_declared_def scope_implied_by_def)

lemma ws_roles_table_simps [simp]:
  "ws_roles_table WsOwner = Some ({ScopeOwner}, {WsOwner}, False)"
  "ws_roles_table WsContributor = Some ({ScopeOwner}, {WsContributor, WsOwner}, False)"
  "ws_roles_table WsViewer = Some ({ScopeOwner}, {WsViewer, WsContributor, WsOwner}, True)"
  by (simp_all add: ws_roles_table_def ws_setup_declared)

lemma ws_implied_scope [simp]: "ws_implied_by_scope_roles r = {ScopeOwner}"
  by (cases r) (simp_all add: ws_implied_by_scope_roles_def)

lemma ws_implied_public [simp]: "ws_implied_by_public r \<longleftrightarrow> r = WsViewer"
  by (cases r) (simp_all add: ws_implied_by_public_def)

lemma ws_implied_workspace [simp]:
  "ws_implied_by_workspace_roles WsOwner = {WsOwner}"
  "ws_implied_by_workspace_roles WsContributor = {WsContributor, WsOwner}"
  "ws_implied_by_workspace_roles WsViewer = {WsViewer, WsContributor, WsOwner}"
  by (simp_all add: ws_implied_by_workspace_roles_def)

interpretation ws_roles: role_order ws_implies
proof
  fix a b c
  show "ws_implies a a" by (cases a) (simp_all add: ws_implies_def)
  show "ws_implies a b \<Longrightarrow> ws_implies b c \<Longrightarrow> ws_implies a c"
    by (cases b; cases c) (auto simp: ws_implies_def)
  show "ws_implies a b \<Longrightarrow> ws_implies b a \<Longrightarrow> a = b"
    by (cases a; cases b) (auto simp: ws_implies_def)
qed

section \<open>Work request roles\<close>

datatype wr_role = WrOwner | WrCreator | WrContributor | WrViewer

datatype wr_implication =
  WrByWorkspace workspace_role | WrByRole wr_role | WrByCreator | WrByOther

record wr_implied =
  by_scope_roles :: "scope_role set"
  by_workspace_roles :: "workspace_role set"
  by_public :: bool
  by_creator :: bool

type_synonym wr_roles_table = "wr_role \<rightharpoonup> wr_implied"

primrec wr_setup_role ::
  "wr_roles_table \<Rightarrow> wr_implication list \<Rightarrow> wr_implied \<Rightarrow> wr_implied res" where
  "wr_setup_role t [] acc = Inr acc"
| "wr_setup_role t (i # is) acc =
     (case i of
        WrByWorkspace w \<Rightarrow>
          wr_setup_role t is
            (acc\<lparr>by_scope_roles := by_scope_roles acc \<union> ws_implied_by_scope_roles w,
                 by_workspace_roles := by_workspace_roles acc \<union> ws_implied_by_workspace_roles w,
                 by_public := by_public acc \<or> ws_implied_by_public w\<rparr>)
      | WrByRole r \<Rightarrow>
          (case t r of
             None \<Rightarrow> Inl (AttributeError ''implied_by_scope_roles'')
           | Some wr \<Rightarrow>
               wr_setup_role t is
                 (acc\<lparr>by_scope_roles := by_scope_roles acc \<union> by_scope_roles wr,
                      by_workspace_roles := by_workspace_roles acc \<union> by_workspace_roles wr,
                      by_public := by_public acc \<or> by_public wr,
                      by_creator := by_creator acc \<or> by_creator wr\<rparr>))
      | WrByCreator \<Rightarrow> wr_setup_role t is (acc\<lparr>by_creator := True\<rparr>)
      | WrByOther \<Rightarrow>
          Inl (ImproperlyConfigured ''WorkRequest roles do not support implications by''))"

definition wr_nothing_implied :: wr_implied where
  "wr_nothing_implied =
     \<lparr>by_scope_roles = {}, by_workspace_roles = {}, by_public = False, by_creator = False\<rparr>"

primrec wr_setup ::
  "(wr_role \<times> wr_implication list) list \<Rightarrow> wr_roles_table \<Rightarrow> wr_roles_table res" where
  "wr_setup [] t = Inr t"
| "wr_setup (m # ms) t =
     bind_res (wr_setup_role t (snd m) wr_nothing_implied)
       (\<lambda>entry. wr_setup ms (t(fst m \<mapsto> entry)))"

definition wr_declared :: "(wr_role \<times> wr_implication list) list" where
  "wr_declared =
     [(WrOwner, [WrByWorkspace WsOwner]),
      (WrCreator, [WrByRole WrOwner, WrByCreator]),
      (WrContributor, [WrByRole WrOwner, WrByWorkspace WsContributor]),
      (WrViewer, [WrByRole WrContributor, WrByWorkspace WsViewer])]"

definition wr_implied_by :: "wr_role \<Rightarrow> wr_implied" where
  "wr_implied_by r =
     (case wr_setup wr_declared Map.empty of
        Inl e \<Rightarrow> wr_nothing_implied
      | Inr t \<Rightarrow> (case t r of None \<Rightarrow> wr_nothing_implied | Some i \<Rightarrow> i))"

definition wr_implies :: "wr_role \<Rightarrow> wr_role \<Rightarrow> bool" where
  "wr_implies self role =
     (by_scope_roles (wr_implied_by self) \<subseteq> by_scope_roles (wr_implied_by role)
      \<and> by_workspace_roles (wr_implied_by self) \<subseteq> by_workspace_roles (wr_implied_by role)
      \<and> (by_public (wr_implied_by self) \<longrightarrow> by_public (wr_implied_by role))
      \<and> (by_creator (wr_implied_by self) \<longrightarrow> by_creator (wr_implied_by role)))"

lemma wr_implied_by_simps [simp]:
  "wr_implied_by WrOwner = \<lparr>by_scope_roles = {ScopeOwner}, by_workspace_roles = {WsOwner},
     by_public = False, by_creator = False\<rparr>"
  "wr_implied_by WrCreator = \<lparr>by_scope_roles = {ScopeOwner}, by_workspace_roles = {WsOwner},
     by_public = False, by_creator = True\<rparr>"
  "wr_implied_by WrContributor = \<lparr>by_scope_roles = {ScopeOwner},
     by_workspace_roles = {WsOwner, WsContributor}, by_public = False, by_creator = False\<rparr>"
  "wr_implied_by WrViewer = \<lparr>by_scope_roles = {ScopeOwner},
     by_workspace_roles = {WsOwner, WsContributor, WsViewer}, by_public = True,
     by_creator = False\<rparr>"
  by (auto simp: wr_implied_by_def wr_declared_def wr_nothing_implied_def)

interpretation wr_roles: role_order wr_implies
proof
  fix a b c
  show "wr_implies a a" by (simp add: wr_implies_def)
  show "wr_implies a b \<Longrightarrow> wr_implies b c \<Longrightarrow> wr_implies a c"
    by (auto simp: wr_implies_def)
  show "wr_implies a b \<Longrightarrow> wr_implies b a \<Longrightarrow> a = b"
    by (cases a; cases b) (auto simp: wr_implies_def)
qed

text \<open>
  What a holder of a workspace role holds of a work request: the sets that
  imply a work request role are closed under implication between workspace
  roles, so a reduced set of workspace roles decides it as the full one does.
\<close>

lemma by_workspace_roles_closed:
  "a \<in> by_workspace_roles (wr_implied_by r) \<Longrightarrow> ws_implies b a \<Longrightarrow>
     b \<in> by_workspace_roles (wr_implied_by r)"
  by (cases r; cases a; cases b) (simp_all add: ws_implies_def)

lemma by_public_viewer:
  "by_public (wr_implied_by r) \<longleftrightarrow> WsViewer \<in> by_workspace_roles (wr_implied_by r)"
  by (cases r) simp_all

end
