(* ===== verification/Workspaces.thy ===== *)
theory Workspaces
  imports Roles
begin

text \<open>
  Who holds which role: \<open>has_role\<close> and \<open>with_role\<close> of scopes
  (debusine/db/models/scopes.py) and workspaces (workspaces.py), their
  permission predicates, the setters \<open>Context.set_user\<close> and
  \<open>Workspace.set_current\<close>, and the contexts these setters can build. The
  lemmas show that the shortcut through the roles cached in the context and
  the query on the database agree.
\<close>

section \<open>Scopes\<close>

text \<open>
  The join of \<open>Q(roles__group__users=user, roles__role__in=...)\<close> has one row per
  role assignment and membership, and \<open>with_role\<close> of scopes is not \<open>distinct\<close>.
\<close>

definition scope_q_rows :: "db \<Rightarrow> pk \<Rightarrow> scope_role \<Rightarrow> scope \<Rightarrow> nat" where
  "scope_q_rows d u role s =
     length (filter (\<lambda>(sr, gm). sr_resource sr = sc_id s \<and> sr_role sr \<in> scope_implied_by role
                       \<and> gm_group gm = sr_group sr \<and> gm_user gm = u)
               (List.product (db_scope_roles d) (db_memberships d)))"

definition scope_with_role :: "db \<Rightarrow> scope list \<Rightarrow> permission_user \<Rightarrow> scope_role \<Rightarrow> scope list" where
  "scope_with_role d self user role =
     (case user of
        AuthUser u \<Rightarrow> concat (map (\<lambda>s. replicate (scope_q_rows d u role s) s) self)
      | _ \<Rightarrow> [])"

definition scope_has_role :: "db \<Rightarrow> app_context \<Rightarrow> permission_user \<Rightarrow> scope_role \<Rightarrow> scope \<Rightarrow> bool res" where
  "scope_has_role d cx user role self =
     (if \<not> is_authenticated user then Inr False
      else if cx_user cx = user \<and> cx_scope cx = Some (sc_id self) then
        bind_res (context_scope_roles cx) (\<lambda>roles. Inr (\<exists>r\<in>roles. scope_implies r role))
      else Inr (filter (\<lambda>s. sc_id s = sc_id self)
                  (scope_with_role d (db_scopes d) user role) \<noteq> []))"

definition scope_get_group_roles :: "db \<Rightarrow> pk \<Rightarrow> permission_user \<Rightarrow> scope_role list" where
  "scope_get_group_roles d self user =
     (case user of
        AuthUser u \<Rightarrow> remdups (map sr_role
          (filter (\<lambda>sr. sr_resource sr = self \<and> in_group d (sr_group sr) u) (db_scope_roles d)))
      | _ \<Rightarrow> [])"

definition set_user :: "db \<Rightarrow> permission_user \<Rightarrow> app_context \<Rightarrow> app_context res" where
  "set_user d new_user cx =
     (case cx_scope cx of
        None \<Rightarrow> Inl (ContextConsistencyError ''Cannot set user before scope'')
      | Some scope \<Rightarrow>
          if cx_user cx \<noteq> NoUser then Inl (ContextConsistencyError ''User was already set'')
          else Inr (cx\<lparr>cx_user := new_user,
                       cx_scope_roles := Some (from_iterable scope_implies
                         (scope_get_group_roles d scope new_user))\<rparr>))"

definition scope_can_display :: "app_context \<Rightarrow> scope \<Rightarrow> permission_user \<Rightarrow> bool res" where
  "scope_can_display cx = permission_check ALWAYS ALWAYS (\<lambda>self user. Inr True) cx"

definition scope_can_display_qs ::
  "app_context \<Rightarrow> scope list \<Rightarrow> permission_user \<Rightarrow> scope list res" where
  "scope_can_display_qs cx = permission_filter ALWAYS ALWAYS
     (\<lambda>self user. if user = NoUser then Inl (AssertionError []) else Inr self) cx"

definition scope_can_create_workspace ::
  "db \<Rightarrow> app_context \<Rightarrow> scope \<Rightarrow> permission_user \<Rightarrow> bool res" where
  "scope_can_create_workspace d cx = permission_check NEVER NEVER
     (\<lambda>self user. scope_has_role d cx user ScopeOwner self) cx"

definition scope_can_create_workspace_qs ::
  "db \<Rightarrow> app_context \<Rightarrow> scope list \<Rightarrow> permission_user \<Rightarrow> scope list res" where
  "scope_can_create_workspace_qs d cx = permission_filter NEVER NEVER
     (\<lambda>self user. Inr (scope_with_role d self user ScopeOwner)) cx"

section \<open>Workspaces\<close>

definition has_scope_roles :: "db \<Rightarrow> pk \<Rightarrow> scope_role set \<Rightarrow> pk \<Rightarrow> bool" where
  "has_scope_roles d u roles scope = list_ex
     (\<lambda>sr. sr_resource sr = scope \<and> sr_role sr \<in> roles \<and> in_group d (sr_group sr) u)
     (db_scope_roles d)"

definition has_workspace_roles :: "db \<Rightarrow> pk \<Rightarrow> workspace_role set \<Rightarrow> pk \<Rightarrow> bool" where
  "has_workspace_roles d u roles workspace = list_ex
     (\<lambda>wr. wr_resource wr = workspace \<and> wr_role wr \<in> roles \<and> in_group d (wr_group wr) u)
     (db_workspace_roles d)"

text \<open>\<open>WorkspaceRoleBase.q\<close>: the condition on a workspace row.\<close>

definition ws_q :: "db \<Rightarrow> workspace_role \<Rightarrow> permission_user \<Rightarrow> workspace \<Rightarrow> bool res" where
  "ws_q d role user w =
     (case user of
        NoUser \<Rightarrow> Inl (AssertionError [])
      | AnonymousUser \<Rightarrow> Inr (ws_implied_by_public role \<and> ws_public w)
      | AuthUser u \<Rightarrow>
          Inr (has_workspace_roles d u (ws_implied_by_workspace_roles role) (ws_id w)
               \<or> (ws_implied_by_scope_roles role \<noteq> {}
                  \<and> has_scope_roles d u (ws_implied_by_scope_roles role) (ws_scope w))
               \<or> (ws_implied_by_public role \<and> ws_public w)))"

definition ws_with_role ::
  "db \<Rightarrow> workspace list \<Rightarrow> permission_user \<Rightarrow> workspace_role \<Rightarrow> workspace list res" where
  "ws_with_role d self user role =
     (if user = NoUser then Inl (AssertionError [])
      else Inr (filter (\<lambda>w. ws_q d role user w = Inr True) self))"

definition ws_has_role ::
  "db \<Rightarrow> app_context \<Rightarrow> permission_user \<Rightarrow> workspace_role \<Rightarrow> workspace \<Rightarrow> bool res" where
  "ws_has_role d cx user role self =
     (if ws_implied_by_public role \<and> ws_public self then Inr True
      else if \<not> is_authenticated user then Inr False
      else if cx_user cx = user \<and> cx_workspace cx = Some (ws_id self) then
        bind_res (context_scope_roles cx) (\<lambda>scope_roles.
          if scope_roles \<inter> ws_implied_by_scope_roles role \<noteq> {} then Inr True
          else bind_res (context_workspace_roles cx) (\<lambda>workspace_roles.
            Inr (\<exists>r\<in>workspace_roles. ws_implies r role)))
      else bind_res (ws_with_role d (db_workspaces d) user role)
             (\<lambda>kept. Inr (filter (\<lambda>w. ws_id w = ws_id self) kept \<noteq> [])))"

definition ws_get_group_roles :: "db \<Rightarrow> permission_user \<Rightarrow> workspace \<Rightarrow> workspace_role list" where
  "ws_get_group_roles d user self =
     (case user of
        AuthUser u \<Rightarrow> remdups (map wr_role
          (filter (\<lambda>wr. wr_resource wr = ws_id self \<and> in_group d (wr_group wr) u)
             (db_workspace_roles d)))
      | _ \<Rightarrow> [])"

definition ws_get_roles :: "db \<Rightarrow> app_context \<Rightarrow> permission_user \<Rightarrow> workspace \<Rightarrow> workspace_role set" where
  "ws_get_roles d cx user self = from_iterable ws_implies
     (filter (\<lambda>r. ws_has_role d cx user r self = Inr True) [WsOwner, WsContributor, WsViewer])"

text \<open>
  \<open>Workspace.set_current\<close>; \<open>user_roles\<close> is the annotation that
  \<open>WorkspaceQuerySet.get_for_context\<close> leaves on the workspace, if any.
\<close>

definition set_current ::
  "db \<Rightarrow> workspace_role list option \<Rightarrow> workspace \<Rightarrow> app_context \<Rightarrow> app_context res" where
  "set_current d user_roles self cx =
     (if cx_workspace cx \<noteq> None
      then Inl (ContextConsistencyError ''Workspace was already set'')
      else (case cx_scope cx of
        None \<Rightarrow> Inl (ContextConsistencyError ''Cannot set workspace before scope'')
      | Some scope \<Rightarrow>
          if ws_scope self \<noteq> scope
          then Inl (ContextConsistencyError ''workspace scope does not match current scope'')
          else if cx_user cx = NoUser \<and> cx_worker_token cx = None
          then Inl (ContextConsistencyError ''Cannot set workspace before user'')
          else
            let user = (if cx_user cx = NoUser then AnonymousUser else cx_user cx) in
            if cx_worker_token cx \<noteq> None
            then Inr (cx\<lparr>cx_workspace := Some (ws_id self), cx_workspace_roles := Some {}\<rparr>)
            else
              let public_roles = (if ws_public self then [WsViewer] else []);
                  group_roles = (if \<not> is_authenticated user then []
                                 else (case user_roles of
                                         Some rs \<Rightarrow> rs
                                       | None \<Rightarrow> ws_get_group_roles d user self));
                  workspace_roles = from_iterable ws_implies (public_roles @ group_roles)
              in bind_res (context_scope_roles cx) (\<lambda>scope_roles.
                   if ws_implied_by_scope_roles WsViewer \<inter> scope_roles \<noteq> {}
                      \<or> (\<exists>a\<in>workspace_roles. ws_implies a WsViewer)
                   then Inr (cx\<lparr>cx_workspace := Some (ws_id self),
                                cx_workspace_roles := Some workspace_roles\<rparr>)
                   else Inl (ContextConsistencyError ''User cannot access workspace''))))"

section \<open>Predicates of workspaces\<close>

definition ws_predicate ::
  "allow \<Rightarrow> allow \<Rightarrow> workspace_role \<Rightarrow> db \<Rightarrow> app_context \<Rightarrow> workspace \<Rightarrow> permission_user \<Rightarrow> bool res" where
  "ws_predicate workers anonymous role d cx = permission_check workers anonymous
     (\<lambda>self user. ws_has_role d cx user role self) cx"

definition ws_filter ::
  "allow \<Rightarrow> allow \<Rightarrow> workspace_role \<Rightarrow> db \<Rightarrow> app_context \<Rightarrow> workspace list \<Rightarrow> permission_user \<Rightarrow>
     workspace list res" where
  "ws_filter workers anonymous role d cx = permission_filter workers anonymous
     (\<lambda>self user. ws_with_role d self user role) cx"

definition ws_can_display where
  "ws_can_display = ws_predicate ALWAYS PASS WsViewer"

definition ws_can_display_qs where
  "ws_can_display_qs = ws_filter ALWAYS PASS WsViewer"

definition ws_can_configure where
  "ws_can_configure = ws_predicate NEVER NEVER WsOwner"

definition ws_can_configure_qs where
  "ws_can_configure_qs = ws_filter NEVER NEVER WsOwner"

definition ws_can_create_artifacts where
  "ws_can_create_artifacts = ws_predicate ALWAYS NEVER WsContributor"

definition ws_can_create_artifacts_qs where
  "ws_can_create_artifacts_qs = ws_filter ALWAYS NEVER WsContributor"

definition ws_can_create_work_requests where
  "ws_can_create_work_requests = ws_predicate NEVER NEVER WsContributor"

definition ws_can_create_work_requests_qs where
  "ws_can_create_work_requests_qs = ws_filter NEVER NEVER WsContributor"

definition ws_can_create_experiment_workspace where
  "ws_can_create_experiment_workspace = ws_predicate NEVER NEVER WsContributor"

definition ws_can_create_experiment_workspace_qs where
  "ws_can_create_experiment_workspace_qs = ws_filter NEVER NEVER WsContributor"

definition ws_can_edit_task_configuration where
  "ws_can_edit_task_configuration = ws_predicate NEVER NEVER WsOwner"

definition ws_can_edit_task_configuration_qs where
  "ws_can_edit_task_configuration_qs = ws_filter NEVER NEVER WsOwner"

section \<open>The contexts the setters build\<close>

inductive ctx_reachable :: "db \<Rightarrow> app_context \<Rightarrow> bool" for d where
  initial: "ctx_reachable d initial_context"
| reset: "ctx_reachable d cx \<Longrightarrow> ctx_reachable d (reset_context cx)"
| scope: "ctx_reachable d cx \<Longrightarrow> set_scope s cx = Inr cx' \<Longrightarrow> ctx_reachable d cx'"
| user: "ctx_reachable d cx \<Longrightarrow> u \<noteq> NoUser \<Longrightarrow> set_user d u cx = Inr cx' \<Longrightarrow> ctx_reachable d cx'"
| token: "ctx_reachable d cx \<Longrightarrow> set_worker_token t cx = Inr cx' \<Longrightarrow> ctx_reachable d cx'"
| workspace: "ctx_reachable d cx \<Longrightarrow> w \<in> set (db_workspaces d) \<Longrightarrow>
    user_roles \<in> {None, Some (ws_get_group_roles d (cx_user cx) w)} \<Longrightarrow>
    set_current d user_roles w cx = Inr cx' \<Longrightarrow> ctx_reachable d cx'"
| disable: "ctx_reachable d cx \<Longrightarrow> ctx_reachable d (cx\<lparr>cx_permission_checks_disabled := b\<rparr>)"

definition current_roles :: "db \<Rightarrow> permission_user \<Rightarrow> workspace \<Rightarrow> workspace_role list" where
  "current_roles d user w =
     (if ws_public w then [WsViewer] else []) @ ws_get_group_roles d user w"

text \<open>What every reachable context satisfies.\<close>

definition ctx_ok :: "db \<Rightarrow> app_context \<Rightarrow> bool" where
  "ctx_ok d cx \<longleftrightarrow>
     (cx_user cx \<noteq> NoUser \<longrightarrow>
        (\<exists>s. cx_scope cx = Some s \<and> cx_scope_roles cx =
           Some (from_iterable scope_implies (scope_get_group_roles d s (cx_user cx)))))
     \<and> (cx_worker_token cx = None \<longrightarrow>
        (\<forall>i. cx_workspace cx = Some i \<longrightarrow> cx_user cx \<noteq> NoUser \<and>
           (\<exists>w\<in>set (db_workspaces d). ws_id w = i \<and> cx_scope cx = Some (ws_scope w) \<and>
              cx_workspace_roles cx =
                Some (from_iterable ws_implies (current_roles d (cx_user cx) w)))))"

lemma set_current_InrD:
  assumes "set_current d ur w cx = Inr cx'"
    and "ur \<in> {None, Some (ws_get_group_roles d (cx_user cx) w)}"
  shows "cx_scope cx = Some (ws_scope w) \<and>
    (if cx_worker_token cx \<noteq> None
     then cx' = cx\<lparr>cx_workspace := Some (ws_id w), cx_workspace_roles := Some {}\<rparr>
     else cx_user cx \<noteq> NoUser \<and> cx' = cx\<lparr>cx_workspace := Some (ws_id w),
       cx_workspace_roles := Some (from_iterable ws_implies (current_roles d (cx_user cx) w))\<rparr>)"
  using assms
  by (cases "cx_user cx")
     (auto simp: set_current_def Let_def current_roles_def ws_get_group_roles_def bind_res_eq_Inr
       split: option.splits if_splits)

lemma ctx_reachable_ok: "ctx_reachable d cx \<Longrightarrow> ctx_ok d cx"
proof (induction rule: ctx_reachable.induct)
  case initial
  show ?case by (simp add: ctx_ok_def initial_context_def)
next
  case (reset cx)
  show ?case by (simp add: ctx_ok_def reset_context_def)
next
  case (scope cx s cx')
  then show ?case by (auto simp: ctx_ok_def set_scope_def split: if_splits)
next
  case (user cx u cx')
  then show ?case by (auto simp: ctx_ok_def set_user_def split: if_splits option.splits)
next
  case (token cx t cx')
  then show ?case by (auto simp: ctx_ok_def set_worker_token_def split: if_splits)
next
  case (workspace cx w ur cx')
  from set_current_InrD [OF workspace(4,3)] workspace(2,5) show ?case
    by (auto simp: ctx_ok_def split: if_splits)
next
  case (disable cx b)
  then show ?case by (simp add: ctx_ok_def)
qed

section \<open>The context and the query agree\<close>

text \<open>A request whose context was built by the setters, asked about the user \<open>u\<close>.\<close>

definition request_ok :: "db \<Rightarrow> app_context \<Rightarrow> permission_user \<Rightarrow> bool" where
  "request_ok d cx u \<longleftrightarrow> ctx_reachable d cx \<and> distinct (map ws_id (db_workspaces d))
     \<and> (u = NoUser \<or> cx_worker_token cx = None)"

lemma has_workspace_roles_iff:
  "has_workspace_roles d u R (ws_id w) \<longleftrightarrow>
     (\<exists>r\<in>set (ws_get_group_roles d (AuthUser u) w). r \<in> R)"
  by (auto simp: ws_get_group_roles_def has_workspace_roles_def list_ex_iff)

lemma has_scope_roles_iff:
  "has_scope_roles d u R s \<longleftrightarrow> (\<exists>r\<in>set (scope_get_group_roles d s (AuthUser u)). r \<in> R)"
  by (auto simp: scope_get_group_roles_def has_scope_roles_def list_ex_iff)

lemma scope_owner_reduced:
  "ScopeOwner \<in> from_iterable scope_implies rs \<longleftrightarrow> ScopeOwner \<in> set rs"
  using scope_roles.from_iterable_implies [of rs ScopeOwner]
  by (auto simp: scope_implies_def scope_implied_by_def)

lemma current_roles_imply:
  "(\<exists>r\<in>set (current_roles d (AuthUser u) w). ws_implies r role) \<longleftrightarrow>
     (ws_public w \<and> role = WsViewer) \<or>
     has_workspace_roles d u (ws_implied_by_workspace_roles role) (ws_id w)"
  by (cases role) (auto simp: current_roles_def has_workspace_roles_iff ws_implies_def)

lemma current_roles_anonymous:
  "(\<exists>r\<in>set (current_roles d AnonymousUser w). ws_implies r role) \<longleftrightarrow>
     ws_public w \<and> role = WsViewer"
  by (cases role) (auto simp: current_roles_def ws_get_group_roles_def ws_implies_def)

text \<open>In a context that holds the user and the workspace, what it caches decides every role.\<close>

lemma cached_roles:
  assumes ok: "ctx_ok d cx" and token: "cx_worker_token cx = None"
    and u: "cx_user cx = AuthUser u" and i: "cx_workspace cx = Some (ws_id w)"
    and dist: "distinct (map ws_id (db_workspaces d))" and w: "w \<in> set (db_workspaces d)"
  shows "\<exists>S W. cx_scope_roles cx = Some S \<and> cx_workspace_roles cx = Some W \<and>
    (ScopeOwner \<in> S \<longleftrightarrow> has_scope_roles d u {ScopeOwner} (ws_scope w)) \<and>
    (\<forall>role. (\<exists>r\<in>W. ws_implies r role) \<longleftrightarrow>
       (ws_public w \<and> role = WsViewer) \<or>
       has_workspace_roles d u (ws_implied_by_workspace_roles role) (ws_id w)) \<and>
    W = from_iterable ws_implies (current_roles d (AuthUser u) w)"
proof -
  from ok token i u obtain w' where w': "w' \<in> set (db_workspaces d)" "ws_id w' = ws_id w"
    "cx_scope cx = Some (ws_scope w')"
    "cx_workspace_roles cx = Some (from_iterable ws_implies (current_roles d (AuthUser u) w'))"
    by (auto simp: ctx_ok_def)
  with dist w have [simp]: "w' = w" by (metis tbl_get_iff option.inject)
  from ok u w'(3) have S: "cx_scope_roles cx =
      Some (from_iterable scope_implies (scope_get_group_roles d (ws_scope w) (AuthUser u)))"
    by (auto simp: ctx_ok_def)
  with w'(4) show ?thesis
    by (simp add: scope_owner_reduced has_scope_roles_iff ws_roles.from_iterable_implies
        current_roles_imply)
qed

lemma ws_has_role_eq_q:
  assumes "request_ok d cx user" and "user \<noteq> NoUser" and w: "w \<in> set (db_workspaces d)"
  shows "ws_has_role d cx user role w = ws_q d role user w"
proof (cases "\<exists>u. user = AuthUser u \<and> cx_user cx = user \<and> cx_workspace cx = Some (ws_id w)
    \<and> \<not> (ws_implied_by_public role \<and> ws_public w)")
  case True
  then obtain u where u: "user = AuthUser u" "cx_user cx = AuthUser u"
    "cx_workspace cx = Some (ws_id w)" "\<not> (role = WsViewer \<and> ws_public w)" by auto
  from assms(1,2) have ok: "ctx_ok d cx" "cx_worker_token cx = None"
    "distinct (map ws_id (db_workspaces d))"
    by (auto simp: request_ok_def ctx_reachable_ok)
  from cached_roles [OF ok(1,2) u(2,3) ok(3) w] obtain S W
    where SW: "cx_scope_roles cx = Some S" "cx_workspace_roles cx = Some W"
      "ScopeOwner \<in> S \<longleftrightarrow> has_scope_roles d u {ScopeOwner} (ws_scope w)"
      "\<forall>role. (\<exists>r\<in>W. ws_implies r role) \<longleftrightarrow> (ws_public w \<and> role = WsViewer) \<or>
         has_workspace_roles d u (ws_implied_by_workspace_roles role) (ws_id w)"
    by blast
  from u SW show ?thesis
    by (auto simp: ws_has_role_def ws_q_def context_scope_roles_def context_workspace_roles_def)
next
  case False
  from assms(1) have "distinct (map ws_id (db_workspaces d))" by (simp add: request_ok_def)
  with w False assms(2) show ?thesis
    by (cases user) (auto simp: ws_has_role_def ws_q_def ws_with_role_def filter_pk_exists
        simp del: filter_filter)
qed

interpretation ws_pair: predicate_pair "\<lambda>(d, cx). request_ok d cx" "\<lambda>(d, cx). db_workspaces d"
    "\<lambda>(d, cx) w u. ws_has_role d cx u role w" "\<lambda>(d, cx) ws u. ws_with_role d ws u role" for role
proof
  fix c u
  assume ok: "(case c of (d, cx) \<Rightarrow> request_ok d cx) u" and u: "u \<noteq> NoUser"
  obtain d cx where c: "c = (d, cx)" by fastforce
  have *: "ws_has_role d cx u role w =
      Inr (w \<in> set (filter (\<lambda>w. ws_q d role u w = Inr True) (db_workspaces d)))"
    if "w \<in> set (db_workspaces d)" for w
    using ok c u that by (cases u) (auto simp: ws_has_role_eq_q ws_q_def)
  show "\<exists>kept. (case c of (d, cx) \<Rightarrow> \<lambda>ws u. ws_with_role d ws u role) (case c of (d, cx) \<Rightarrow> db_workspaces d) u
      = Inr kept \<and> set kept \<subseteq> set (case c of (d, cx) \<Rightarrow> db_workspaces d) \<and>
      (\<forall>r\<in>set (case c of (d, cx) \<Rightarrow> db_workspaces d).
         (case c of (d, cx) \<Rightarrow> \<lambda>w u. ws_has_role d cx u role w) r u = Inr (r \<in> set kept))"
    using u by (auto simp: c ws_with_role_def *)
qed

text \<open>
  C25: a user's role on a workspace is the same whether \<open>has_role\<close> takes it from
  the roles cached in the application context or queries the database: in every
  context the setters can build (without a worker token), \<open>has_role\<close> answers
  whether \<open>with_role\<close> would keep the workspace.
\<close>

theorem workspace_has_role_is_with_role:
  assumes "ctx_reachable d cx" and "cx_worker_token cx = None"
    and "distinct (map ws_id (db_workspaces d))"
    and "w \<in> set (db_workspaces d)" and "user \<noteq> NoUser"
  shows "\<exists>kept. ws_with_role d (db_workspaces d) user role = Inr kept
    \<and> ws_has_role d cx user role w = Inr (w \<in> set kept)"
  using ws_pair.check_filt [of "(d, cx)" user role] assms by (auto simp: request_ok_def)

definition example_ws :: workspace where
  "example_ws = \<lparr>ws_id = 1, ws_name = ''System'', ws_public = False,
     ws_default_expiration_delay = 0, ws_scope = 1, ws_created_at = 0, ws_expiration_delay = None\<rparr>"

text \<open>One scope with one private workspace; user 7 is in group 3, which contributes to it.\<close>

definition example_db :: db where
  "example_db = empty_db\<lparr>db_scopes := [\<lparr>sc_id = 1, sc_name = ''debian''\<rparr>],
     db_workspaces := [example_ws],
     db_memberships := [\<lparr>gm_group = 3, gm_user = 7, gm_role = GroupMember\<rparr>],
     db_workspace_roles := [\<lparr>wr_resource = 1, wr_group = 3, wr_role = WsContributor\<rparr>]\<rparr>"

definition example_ctx :: app_context where
  "example_ctx = initial_context\<lparr>cx_scope := Some 1, cx_scope_roles := Some {},
     cx_user := AuthUser 7, cx_workspace := Some 1, cx_workspace_roles := Some {WsContributor}\<rparr>"

lemmas example_simps = example_db_def example_ws_def example_ctx_def empty_db_def
  initial_context_def

lemma example_ws_simps:
  "ws_id example_ws = 1" "ws_public example_ws = False" "ws_scope example_ws = 1"
  by (simp_all add: example_ws_def)

lemma example_group_roles:
  "ws_get_group_roles example_db (AuthUser 7) example_ws = [WsContributor]"
  "scope_get_group_roles example_db s (AuthUser 7) = []"
  by (simp_all add: ws_get_group_roles_def scope_get_group_roles_def example_simps in_group_def)

lemma example_contributor: "from_iterable ws_implies [WsContributor] = {WsContributor}"
  by (auto simp: from_iterable_eq)

lemma example_ctx_reachable: "ctx_reachable example_db example_ctx"
proof -
  let ?c1 = "initial_context\<lparr>cx_scope := Some 1\<rparr>"
  let ?c2 = "?c1\<lparr>cx_user := AuthUser 7, cx_scope_roles := Some {}\<rparr>"
  have "set_scope 1 initial_context = Inr ?c1"
    by (simp add: set_scope_def initial_context_def)
  with ctx_reachable.initial have 1: "ctx_reachable example_db ?c1"
    by (rule ctx_reachable.scope)
  have "set_user example_db (AuthUser 7) ?c1 = Inr ?c2"
    by (simp add: set_user_def initial_context_def example_group_roles from_iterable_eq)
  then have 2: "ctx_reachable example_db ?c2"
    by (rule ctx_reachable.user [OF 1, rotated]) simp
  have "set_current example_db None example_ws ?c2 = Inr example_ctx"
    by (simp add: set_current_def example_ws_simps example_group_roles example_ctx_def
        initial_context_def context_scope_roles_def example_contributor ws_implies_def)
  then show ?thesis
    by (rule ctx_reachable.workspace [OF 2, of example_ws None, rotated 2])
       (simp_all add: example_simps)
qed

theorem workspace_has_role_is_with_role_witness:
  "\<exists>kept. ws_with_role example_db (db_workspaces example_db) (AuthUser 7) WsViewer = Inr kept
    \<and> ws_has_role example_db example_ctx (AuthUser 7) WsViewer example_ws = Inr (example_ws \<in> set kept)"
  by (rule workspace_has_role_is_with_role [OF example_ctx_reachable])
     (simp_all add: example_simps)

lemma set_current_succeeds:
  assumes "cx_workspace cx = None" and "cx_scope cx = Some (ws_scope w)"
    and "cx_worker_token cx = None" and "cx_user cx \<noteq> NoUser" and "cx_scope_roles cx = Some S"
    and ur: "user_roles \<in> {None, Some (ws_get_group_roles d (cx_user cx) w)}"
  shows "(\<exists>cx'. set_current d user_roles w cx = Inr cx') \<longleftrightarrow>
    ScopeOwner \<in> S \<or> (\<exists>a\<in>set (current_roles d (cx_user cx) w). ws_implies a WsViewer)"
proof -
  have "set_current d user_roles w cx =
    (let workspace_roles = from_iterable ws_implies (current_roles d (cx_user cx) w)
     in if ScopeOwner \<in> S \<or> (\<exists>a\<in>workspace_roles. ws_implies a WsViewer)
        then Inr (cx\<lparr>cx_workspace := Some (ws_id w), cx_workspace_roles := Some workspace_roles\<rparr>)
        else Inl (ContextConsistencyError ''User cannot access workspace''))"
    using assms
    by (cases "cx_user cx")
       (auto simp: set_current_def current_roles_def ws_get_group_roles_def
         context_scope_roles_def Let_def split: option.splits)
  then show ?thesis by (simp add: Let_def ws_roles.from_iterable_implies)
qed

text \<open>
  The visibility check inside \<open>Workspace.set_current\<close> is in sync with the
  predicate \<open>can_display\<close>, as its comment demands: once scope and user are set,
  \<open>set_current\<close> succeeds for a workspace of the current scope exactly when the
  user can display it.
\<close>

theorem set_current_iff_can_display:
  assumes reach: "ctx_reachable d cx" and token: "cx_worker_token cx = None"
    and "cx_user cx \<noteq> NoUser" and none: "cx_workspace cx = None"
    and scope: "cx_scope cx = Some (ws_scope w)" and "\<not> cx_permission_checks_disabled cx"
    and dist: "distinct (map ws_id (db_workspaces d))" and w: "w \<in> set (db_workspaces d)"
    and ur: "user_roles \<in> {None, Some (ws_get_group_roles d (cx_user cx) w)}"
  shows "(\<exists>cx'. set_current d user_roles w cx = Inr cx')
    \<longleftrightarrow> ws_can_display d cx w (cx_user cx) = Inr True"
proof -
  have "ctx_ok d cx" using reach by (rule ctx_reachable_ok)
  with assms(3) scope obtain S where S: "cx_scope_roles cx = Some S"
    "S = from_iterable scope_implies (scope_get_group_roles d (ws_scope w) (cx_user cx))"
    by (auto simp: ctx_ok_def)
  have q: "ws_has_role d cx (cx_user cx) WsViewer w = ws_q d WsViewer (cx_user cx) w"
    using reach token dist w assms(3) by (intro ws_has_role_eq_q) (simp_all add: request_ok_def)
  have "ws_can_display d cx w (cx_user cx) = ws_q d WsViewer (cx_user cx) w"
    using assms(3,6) token
    by (auto simp: ws_can_display_def ws_predicate_def permission_check_def q)
  moreover have "ScopeOwner \<in> S \<longleftrightarrow> (\<exists>u. cx_user cx = AuthUser u \<and>
      has_scope_roles d u {ScopeOwner} (ws_scope w))"
    by (cases "cx_user cx")
       (simp_all add: S(2) scope_owner_reduced has_scope_roles_iff scope_get_group_roles_def)
  ultimately show ?thesis
    unfolding set_current_succeeds [OF none scope token assms(3) S(1) ur]
    using assms(3)
    by (cases "cx_user cx") (auto simp: ws_q_def current_roles_imply current_roles_anonymous)
qed

theorem set_current_iff_can_display_witness:
  "(\<exists>cx'. set_current example_db None example_ws
      (initial_context\<lparr>cx_scope := Some 1, cx_user := AnonymousUser, cx_scope_roles := Some {}\<rparr>)
      = Inr cx')
   \<longleftrightarrow> ws_can_display example_db
      (initial_context\<lparr>cx_scope := Some 1, cx_user := AnonymousUser, cx_scope_roles := Some {}\<rparr>)
      example_ws AnonymousUser = Inr True"
proof -
  let ?c1 = "initial_context\<lparr>cx_scope := Some 1\<rparr>"
  let ?c2 = "initial_context\<lparr>cx_scope := Some 1, cx_user := AnonymousUser,
    cx_scope_roles := Some {}\<rparr>"
  have "set_scope 1 initial_context = Inr ?c1"
    by (simp add: set_scope_def initial_context_def)
  with ctx_reachable.initial have 1: "ctx_reachable example_db ?c1"
    by (rule ctx_reachable.scope)
  have "set_user example_db AnonymousUser ?c1 = Inr ?c2"
    by (simp add: set_user_def initial_context_def scope_get_group_roles_def from_iterable_eq)
  then have "ctx_reachable example_db ?c2"
    by (rule ctx_reachable.user [OF 1, rotated]) simp
  from set_current_iff_can_display [OF this, of example_ws None] show ?thesis
    by (simp add: example_simps)
qed

text \<open>
  C32: for every permission predicate of workspaces, checking one workspace and
  filtering a query set agree, worker tokens, anonymous users and disabled
  checks included: the check of a workspace succeeds exactly when the filter
  keeps it.
\<close>

theorem workspace_check_iff_filter:
  assumes "request_ok d cx user" and "w \<in> set (db_workspaces d)"
    and "(check, filt) \<in> {(ws_can_display, ws_can_display_qs),
      (ws_can_configure, ws_can_configure_qs),
      (ws_can_create_artifacts, ws_can_create_artifacts_qs),
      (ws_can_create_work_requests, ws_can_create_work_requests_qs),
      (ws_can_create_experiment_workspace, ws_can_create_experiment_workspace_qs),
      (ws_can_edit_task_configuration, ws_can_edit_task_configuration_qs)}"
  shows "check d cx w user = Inr True \<longleftrightarrow>
    (\<exists>kept. filt d cx (db_workspaces d) user = Inr kept \<and> w \<in> set kept)"
proof -
  have "ws_predicate workers anonymous role d cx w user = Inr True \<longleftrightarrow>
      (\<exists>kept. ws_filter workers anonymous role d cx (db_workspaces d) user = Inr kept \<and> w \<in> set kept)"
    if "workers \<noteq> PASS" for workers anonymous role
    using ws_pair.check_iff_filter [where c = "(d, cx)" and u = user and r = w and role = role
        and workers = workers and anonymous = anonymous and cx = cx] assms(1,2) that
    by (simp add: ws_predicate_def ws_filter_def)
  with assms(3) show ?thesis
    by (auto simp: ws_can_display_def ws_can_display_qs_def ws_can_configure_def
        ws_can_configure_qs_def ws_can_create_artifacts_def ws_can_create_artifacts_qs_def
        ws_can_create_work_requests_def ws_can_create_work_requests_qs_def
        ws_can_create_experiment_workspace_def ws_can_create_experiment_workspace_qs_def
        ws_can_edit_task_configuration_def ws_can_edit_task_configuration_qs_def)
qed

theorem workspace_check_iff_filter_witness:
  "ws_can_configure example_db example_ctx example_ws (AuthUser 7) = Inr True \<longleftrightarrow>
    (\<exists>kept. ws_can_configure_qs example_db example_ctx (db_workspaces example_db) (AuthUser 7)
       = Inr kept \<and> example_ws \<in> set kept)"
  by (rule workspace_check_iff_filter)
     (simp_all add: request_ok_def example_ctx_reachable, simp_all add: example_simps)

end
