(* ===== verification/Inheritance.thy ===== *)
theory Inheritance
  imports Workspaces "HOL-Library.List_Lexorder" "HOL-Library.Char_ord"
begin

text \<open>
  The inheritance chain of workspaces (debusine/db/models/workspaces.py):
  \<open>set_inheritance\<close>, the lookup of a collection through the chain by a recursive
  SQL query (\<open>get_collection\<close>, \<open>get_singleton_collection\<close>), and the depth-first
  generator \<open>list_accessible_collections\<close>. The lemmas show that the query,
  which orders all paths by an array of integers, finds the collection the
  depth-first search meets first.
\<close>

section \<open>Setting the chain\<close>

primrec check_chain :: "pk \<Rightarrow> pk list \<Rightarrow> pk list \<Rightarrow> unit res" where
  "check_chain self [] seen = Inr ()"
| "check_chain self (w # chain) seen =
     (if w = self then Inl (ValueError ''inheritance chain contains the workspace itself'')
      else if w \<in> set seen then Inl (ValueError ''duplicate workspace in inheritance chain'')
      else check_chain self chain (w # seen))"

definition set_inheritance :: "pk \<Rightarrow> pk list \<Rightarrow> unit dbact" where
  "set_inheritance self chain =
     bind_act (lift_res (check_chain self chain []))
       (\<lambda>_. modify_db (\<lambda>d. d\<lparr>db_workspace_chain :=
          filter (\<lambda>c. wc_child c \<noteq> self) (db_workspace_chain d)
          @ map (\<lambda>(idx, w). \<lparr>wc_child = self, wc_parent = w, wc_order = int idx\<rparr>)
              (enumerate 0 chain)\<rparr>))"

section \<open>The recursive query\<close>

text \<open>A row of the CTE: \<open>chain_parent\<close>, \<open>path_order\<close>, \<open>path\<close>.\<close>

type_synonym chain_row = "pk \<times> int list \<times> pk list"

definition chain_children :: "db \<Rightarrow> pk list \<Rightarrow> pk \<Rightarrow> pk list \<Rightarrow> workspace_chain list" where
  "chain_children d visible i path =
     filter (\<lambda>c. wc_child c = i \<and> wc_parent c \<in> set visible \<and> wc_parent c \<notin> set path)
       (db_workspace_chain d)"

definition chain_step :: "db \<Rightarrow> pk list \<Rightarrow> chain_row list \<Rightarrow> chain_row list" where
  "chain_step d visible rows =
     concat (map (\<lambda>(i, path_order, path).
       map (\<lambda>c. (wc_parent c, path_order @ [wc_order c], path @ [wc_parent c]))
         (chain_children d visible i path)) rows)"

text \<open>
  \<open>WITH RECURSIVE ... UNION ALL\<close>: the rows of each round feed the next one, until
  a round adds none; \<open>None\<close> when the fuel does not reach that point.
\<close>

primrec chain_cte :: "nat \<Rightarrow> db \<Rightarrow> pk list \<Rightarrow> chain_row list \<Rightarrow> chain_row list option" where
  "chain_cte 0 d visible rows = (if rows = [] then Some [] else None)"
| "chain_cte (Suc n) d visible rows =
     (if rows = [] then Some []
      else map_option (\<lambda>rest. rows @ rest) (chain_cte n d visible (chain_step d visible rows)))"

definition earliest :: "(int list \<times> 'a) list \<Rightarrow> 'a res" where
  "earliest rows = (case sort_key fst rows of
     [] \<Rightarrow> Inl (DoesNotExist ''Collection'') | r # _ \<Rightarrow> Inr (snd r))"

definition get_collection ::
  "db \<Rightarrow> app_context \<Rightarrow> permission_user \<Rightarrow> string \<Rightarrow> string \<Rightarrow> pk \<Rightarrow> collection res" where
  "get_collection d cx user category name self =
     bind_res (ws_can_display_qs d cx (db_workspaces d) user) (\<lambda>displayed.
       let visible = map ws_id displayed;
           start = (if self \<in> set visible then [(self, [], [self])] else [])
       in case chain_cte (Suc (length visible)) d visible start of
            None \<Rightarrow> Inl OutOfFuel
          | Some chain \<Rightarrow>
              earliest (concat (map (\<lambda>(i, path_order, path).
                map (\<lambda>c. (path_order, c))
                  (filter (\<lambda>c. co_workspace c = i \<and> co_category c = category \<and> co_name c = name)
                    (db_collections d))) chain)))"

definition get_singleton_collection ::
  "db \<Rightarrow> app_context \<Rightarrow> permission_user \<Rightarrow> string \<Rightarrow> pk \<Rightarrow> collection res" where
  "get_singleton_collection d cx user category self = get_collection d cx user category ''_'' self"

section \<open>The depth-first generator\<close>

primrec yield_collections :: "collection list \<Rightarrow> pk list \<Rightarrow> collection list \<times> pk list" where
  "yield_collections [] coll_seen = ([], coll_seen)"
| "yield_collections (c # cs) coll_seen =
     (if co_id c \<in> set coll_seen then yield_collections cs coll_seen
      else (case yield_collections cs (co_id c # coll_seen) of (ys, seen) \<Rightarrow> (c # ys, seen)))"

definition own_collections :: "db \<Rightarrow> string \<Rightarrow> pk \<Rightarrow> collection list" where
  "own_collections d category i =
     sort_key co_name (filter (\<lambda>c. co_workspace c = i \<and> co_category c = category) (db_collections d))"

definition chain_parents :: "db \<Rightarrow> pk \<Rightarrow> workspace_chain list" where
  "chain_parents d i = sort_key wc_order (filter (\<lambda>c. wc_child c = i) (db_workspace_chain d))"

function (sequential) list_accessible ::
    "db \<Rightarrow> (workspace \<Rightarrow> bool res) \<Rightarrow> string \<Rightarrow> pk \<Rightarrow> pk list \<Rightarrow> pk list \<Rightarrow>
      (collection list \<times> pk list) res"
  and list_accessible_parents ::
    "db \<Rightarrow> (workspace \<Rightarrow> bool res) \<Rightarrow> string \<Rightarrow> workspace_chain list \<Rightarrow> pk list \<Rightarrow> pk list \<Rightarrow>
      (collection list \<times> pk list) res"
where
  "list_accessible d can_display category self ws_seen coll_seen =
     (if self \<in> set ws_seen then Inr ([], coll_seen)
      else (case get_workspace d self of
        None \<Rightarrow> Inl (DoesNotExist ''Workspace'')
      | Some w \<Rightarrow> bind_res (can_display w) (\<lambda>displayed.
          if \<not> displayed then Inr ([], coll_seen)
          else (case yield_collections (own_collections d category self) coll_seen of
            (ys, seen) \<Rightarrow>
              bind_res (list_accessible_parents d can_display category (chain_parents d self)
                         (ws_seen @ [self]) seen)
                (\<lambda>(zs, seen'). Inr (ys @ zs, seen'))))))"
| "list_accessible_parents d can_display category [] ws_seen coll_seen = Inr ([], coll_seen)"
| "list_accessible_parents d can_display category (c # cs) ws_seen coll_seen =
     bind_res (list_accessible d can_display category (wc_parent c) ws_seen coll_seen)
       (\<lambda>(ys, seen).
          bind_res (list_accessible_parents d can_display category cs ws_seen seen)
            (\<lambda>(zs, seen'). Inr (ys @ zs, seen')))"
  by pat_completeness auto

definition unseen_workspaces :: "db \<Rightarrow> pk list \<Rightarrow> nat" where
  "unseen_workspaces d ws_seen = card (ws_id ` set (db_workspaces d) - set ws_seen)"

lemma unseen_workspaces_less:
  assumes "i \<notin> set ws_seen" and "get_workspace d i = Some w"
  shows "unseen_workspaces d (ws_seen @ [i]) < unseen_workspaces d ws_seen"
proof -
  from assms(2) have "i \<in> ws_id ` set (db_workspaces d)"
    by (auto simp: get_workspace_def dest: tbl_get_key tbl_get_mem)
  with assms(1) show ?thesis
    unfolding unseen_workspaces_def by (intro psubset_card_mono) auto
qed

termination list_accessible
  by (relation "measures [\<lambda>x. case x of Inl (d, p, c, i, seen, cs) \<Rightarrow> unseen_workspaces d seen
                              | Inr (d, p, c, l, seen, cs) \<Rightarrow> unseen_workspaces d seen,
                          \<lambda>x. case x of Inl _ \<Rightarrow> 0
                              | Inr (d, p, c, l, seen, cs) \<Rightarrow> Suc (length l)]")
     (auto intro: unseen_workspaces_less)

declare list_accessible.simps [simp del]

definition list_accessible_collections ::
  "db \<Rightarrow> app_context \<Rightarrow> permission_user \<Rightarrow> string \<Rightarrow> pk \<Rightarrow> collection list res" where
  "list_accessible_collections d cx user category self =
     bind_res (list_accessible d (\<lambda>w. ws_can_display d cx w user) category self [] [])
       (\<lambda>(collections, seen). Inr collections)"

section \<open>All paths in depth-first order\<close>

text \<open>
  The paths from one workspace through the chain, in the order of a depth-first
  search: what both functions enumerate.
\<close>

lemma chain_children_less:
  assumes "c \<in> set (chain_children d visible i path)"
  shows "card (set visible - set (path @ [wc_parent c])) < card (set visible - set path)"
  using assms by (intro psubset_card_mono) (auto simp: chain_children_def)

function dfs_rows :: "db \<Rightarrow> pk list \<Rightarrow> pk \<Rightarrow> int list \<Rightarrow> pk list \<Rightarrow> chain_row list" where
  "dfs_rows d visible i path_order path =
     (i, path_order, path) #
     concat (map (\<lambda>c. dfs_rows d visible (wc_parent c) (path_order @ [wc_order c])
                        (path @ [wc_parent c]))
       (sort_key wc_order (chain_children d visible i path)))"
  by pat_completeness auto
termination dfs_rows
  by (relation "measure (\<lambda>(d, visible, i, path_order, path). card (set visible - set path))")
     (auto intro: chain_children_less [simplified])

declare dfs_rows.simps [simp del]

inductive chain_edge :: "db \<Rightarrow> pk list \<Rightarrow> chain_row \<Rightarrow> chain_row \<Rightarrow> bool" for d visible where
  "c \<in> set (chain_children d visible i path) \<Longrightarrow>
     chain_edge d visible (i, path_order, path)
       (wc_parent c, path_order @ [wc_order c], path @ [wc_parent c])"

inductive_simps chain_edge_from: "chain_edge d visible (i, path_order, path) r"

lemma chain_step_edges: "set (chain_step d visible rows) = {r'. \<exists>r\<in>set rows. chain_edge d visible r r'}"
proof -
  have "set (chain_step d visible [r]) = {r'. chain_edge d visible r r'}" for r
    by (cases r) (auto simp: chain_step_def chain_edge_from)
  moreover have "set (chain_step d visible rows) = (\<Union>r\<in>set rows. set (chain_step d visible [r]))"
    by (auto simp: chain_step_def)
  ultimately show ?thesis by auto
qed

lemma rtranclp_first_step: "R\<^sup>*\<^sup>* r t \<longleftrightarrow> t = r \<or> (\<exists>s. R r s \<and> R\<^sup>*\<^sup>* s t)"
  by (auto elim: converse_rtranclpE intro: converse_rtranclp_into_rtranclp)

lemma set_dfs_rows:
  "set (dfs_rows d visible i po p) = {r. (chain_edge d visible)\<^sup>*\<^sup>* (i, po, p) r}"
proof (induction d visible i po p rule: dfs_rows.induct)
  case (1 d visible i po p)
  have "(chain_edge d visible)\<^sup>*\<^sup>* (i, po, p) r \<longleftrightarrow> r = (i, po, p) \<or>
      (\<exists>c\<in>set (chain_children d visible i p).
         (chain_edge d visible)\<^sup>*\<^sup>* (wc_parent c, po @ [wc_order c], p @ [wc_parent c]) r)" for r
    by (subst rtranclp_first_step) (auto simp: chain_edge_from)
  then have "{r. (chain_edge d visible)\<^sup>*\<^sup>* (i, po, p) r} = insert (i, po, p)
      (\<Union>c\<in>set (chain_children d visible i p).
         {r. (chain_edge d visible)\<^sup>*\<^sup>* (wc_parent c, po @ [wc_order c], p @ [wc_parent c]) r})"
    by blast
  with 1 show ?case by (subst dfs_rows.simps) simp
qed

lemma set_chain_cte:
  "chain_cte n d visible rows = Some out \<Longrightarrow>
     set out = {r'. \<exists>r\<in>set rows. (chain_edge d visible)\<^sup>*\<^sup>* r r'}"
proof (induction n arbitrary: rows out)
  case 0
  then show ?case by (simp split: if_splits)
next
  case (Suc n)
  show ?case
  proof (cases "rows = []")
    case True
    with Suc.prems show ?thesis by simp
  next
    case False
    with Suc.prems obtain rest where rest: "out = rows @ rest"
      "chain_cte n d visible (chain_step d visible rows) = Some rest" by auto
    have "set rest = {r'. \<exists>r\<in>set rows. \<exists>s. chain_edge d visible r s \<and> (chain_edge d visible)\<^sup>*\<^sup>* s r'}"
      using Suc.IH [OF rest(2)] by (auto simp: chain_step_edges)
    moreover have "(\<exists>r\<in>set rows. (chain_edge d visible)\<^sup>*\<^sup>* r r') \<longleftrightarrow> r' \<in> set rows \<or>
        (\<exists>r\<in>set rows. \<exists>s. chain_edge d visible r s \<and> (chain_edge d visible)\<^sup>*\<^sup>* s r')" for r'
      by (subst rtranclp_first_step) blast
    ultimately show ?thesis by (auto simp: rest(1))
  qed
qed

text \<open>As many rounds as there are visible workspaces, and one more, are enough.\<close>

lemma chain_cte_enough:
  "\<forall>(i, po, p)\<in>set rows. card (set visible - set p) < n \<Longrightarrow>
     \<exists>out. chain_cte n d visible rows = Some out"
proof (induction n arbitrary: rows)
  case 0
  then show ?case by (cases rows) auto
next
  case (Suc n)
  have "\<forall>(i, po, p)\<in>set (chain_step d visible rows). card (set visible - set p) < n"
  proof (clarsimp simp: chain_step_edges)
    fix i po p i' po' p'
    assume "(i', po', p') \<in> set rows" "chain_edge d visible (i', po', p') (i, po, p)"
    with Suc.prems show "card (set visible - set p) < n"
      using chain_children_less [of _ d visible i' p'] by (fastforce simp: chain_edge_from)
  qed
  from Suc.IH [OF this] show ?case by auto
qed

section \<open>The generator walks the paths in that order\<close>

lemma yield_append:
  "yield_collections (xs @ ys) seen =
     (case yield_collections xs seen of (a, s) \<Rightarrow>
        (case yield_collections ys s of (b, s') \<Rightarrow> (a @ b, s')))"
  by (induction xs arbitrary: seen) (auto split: prod.splits)

definition rows_collections :: "db \<Rightarrow> string \<Rightarrow> chain_row list \<Rightarrow> collection list" where
  "rows_collections d category rows = concat (map (\<lambda>(i, po, p). own_collections d category i) rows)"

lemma rows_collections_simps [simp]:
  "rows_collections d category [] = []"
  "rows_collections d category ((i, po, p) # rows) =
     own_collections d category i @ rows_collections d category rows"
  "rows_collections d category (rows @ rows') =
     rows_collections d category rows @ rows_collections d category rows'"
  by (simp_all add: rows_collections_def)

definition visible_parents :: "pk list \<Rightarrow> pk list \<Rightarrow> workspace_chain list \<Rightarrow> workspace_chain list" where
  "visible_parents visible path cs =
     filter (\<lambda>c. wc_parent c \<in> set visible \<and> wc_parent c \<notin> set path) cs"

lemma visible_chain_parents:
  "visible_parents visible path (chain_parents d i) = sort_key wc_order (chain_children d visible i path)"
  by (simp add: visible_parents_def chain_parents_def chain_children_def filter_sort conj_commute
      conj_left_commute)

text \<open>The collections met on the walk from \<open>i\<close>; the order numbers play no part in it.\<close>

definition walk_collections :: "db \<Rightarrow> pk list \<Rightarrow> string \<Rightarrow> pk \<Rightarrow> pk list \<Rightarrow> collection list" where
  "walk_collections d visible category i path =
     rows_collections d category (dfs_rows d visible i [] path)"

lemma rows_collections_concat:
  "rows_collections d category (concat rs) = concat (map (rows_collections d category) rs)"
  by (induction rs) simp_all

lemma rows_collections_dfs:
  "rows_collections d category (dfs_rows d visible i po path) =
     rows_collections d category (dfs_rows d visible i po' path)"
proof (induction d visible i po path arbitrary: po' rule: dfs_rows.induct)
  case (1 d visible i po path)
  have "map (\<lambda>c. rows_collections d category (dfs_rows d visible (wc_parent c) (po @ [wc_order c])
          (path @ [wc_parent c]))) (sort_key wc_order (chain_children d visible i path)) =
        map (\<lambda>c. rows_collections d category (dfs_rows d visible (wc_parent c) (po' @ [wc_order c])
          (path @ [wc_parent c]))) (sort_key wc_order (chain_children d visible i path))"
  proof (rule map_cong [OF refl])
    fix c
    assume "c \<in> set (sort_key wc_order (chain_children d visible i path))"
    then show "rows_collections d category (dfs_rows d visible (wc_parent c) (po @ [wc_order c])
          (path @ [wc_parent c])) = rows_collections d category
          (dfs_rows d visible (wc_parent c) (po' @ [wc_order c]) (path @ [wc_parent c]))"
      by (rule "1")
  qed
  from arg_cong [OF this, of concat] show ?case
    by (simp add: dfs_rows.simps [of d visible i] rows_collections_concat comp_def
        del: map_eq_conv)
qed

lemma walk_collections_unfold:
  "walk_collections d visible category i path =
     own_collections d category i @
     concat (map (\<lambda>c. walk_collections d visible category (wc_parent c) (path @ [wc_parent c]))
       (sort_key wc_order (chain_children d visible i path)))"
proof -
  have "rows_collections d category (dfs_rows d visible (wc_parent c) [wc_order c] q) =
      rows_collections d category (dfs_rows d visible (wc_parent c) [] q)" for c :: workspace_chain and q
    by (rule rows_collections_dfs)
  then show ?thesis
    unfolding walk_collections_def
    by (simp add: dfs_rows.simps [of d visible i] rows_collections_concat comp_def)
qed

lemma list_accessible_walk:
  assumes "\<forall>w\<in>set (db_workspaces d). P w = Inr (ws_id w \<in> set visible)"
    and "\<forall>c\<in>set (db_workspace_chain d). get_workspace d (wc_parent c) \<noteq> None"
  shows "get_workspace d i \<noteq> None \<Longrightarrow>
    list_accessible d P category i seen cseen =
      Inr (yield_collections (if i \<in> set visible \<and> i \<notin> set seen
             then walk_collections d visible category i (seen @ [i]) else []) cseen)"
   and "\<forall>c\<in>set cs. get_workspace d (wc_parent c) \<noteq> None \<Longrightarrow>
    list_accessible_parents d P category cs seen cseen =
      Inr (yield_collections
        (concat (map (\<lambda>c. walk_collections d visible category (wc_parent c) (seen @ [wc_parent c]))
          (visible_parents visible seen cs))) cseen)"
  using assms
proof (induction d P category i seen cseen and d P category cs seen cseen
    rule: list_accessible_list_accessible_parents.induct)
  case (1 d P category i seen cseen)
  from "1.prems"(1) obtain w where w: "get_workspace d i = Some w" by auto
  then have mem: "w \<in> set (db_workspaces d)" "ws_id w = i"
    by (auto simp: get_workspace_def dest: tbl_get_key tbl_get_mem)
  show ?case
  proof (cases "i \<in> set seen \<or> i \<notin> set visible")
    case True
    with w mem "1.prems"(2) show ?thesis by (auto simp: list_accessible.simps)
  next
    case False
    obtain ys s where ys: "yield_collections (own_collections d category i) cseen = (ys, s)"
      by fastforce
    from "1.prems"(3) have "\<forall>c\<in>set (chain_parents d i). get_workspace d (wc_parent c) \<noteq> None"
      by (auto simp: chain_parents_def)
    moreover from mem "1.prems"(2) False have "P w = Inr True" by auto
    ultimately have "list_accessible_parents d P category (chain_parents d i) (seen @ [i]) s =
      Inr (yield_collections (concat (map
        (\<lambda>c. walk_collections d visible category (wc_parent c) ((seen @ [i]) @ [wc_parent c]))
        (visible_parents visible (seen @ [i]) (chain_parents d i)))) s)"
      using "1.IH" [of w True] False w ys "1.prems"(2,3) by simp
    with False w ys \<open>P w = Inr True\<close> show ?thesis
      by (simp add: list_accessible.simps [of d P category i] visible_chain_parents
          walk_collections_unfold [of d visible category i] yield_append split: prod.splits)
  qed
next
  case (2 d P category seen cseen)
  then show ?case by (simp add: visible_parents_def)
next
  case (3 d P category c cs seen cseen)
  obtain ys s where ys: "yield_collections (if wc_parent c \<in> set visible \<and> wc_parent c \<notin> set seen
      then walk_collections d visible category (wc_parent c) (seen @ [wc_parent c]) else []) cseen = (ys, s)"
    by fastforce
  with 3 have "list_accessible d P category (wc_parent c) seen cseen = Inr (ys, s)" by simp
  with 3 ys show ?case
    by (auto simp: visible_parents_def yield_append split: prod.splits if_splits)
qed

section \<open>The paths come in the order of their numbers\<close>

text \<open>
  The constraints of the schema: one row per (child, order), one workspace per
  primary key, one collection per (name, category, workspace).
\<close>

definition chain_wf :: "db \<Rightarrow> bool" where
  "chain_wf d \<longleftrightarrow>
     distinct (map (\<lambda>c. (wc_child c, wc_order c)) (db_workspace_chain d))
     \<and> distinct (map ws_id (db_workspaces d))
     \<and> (\<forall>c\<in>set (db_workspace_chain d). get_workspace d (wc_parent c) \<noteq> None)
     \<and> distinct (map co_id (db_collections d))
     \<and> distinct (map (\<lambda>c. (co_name c, co_category c, co_workspace c)) (db_collections d))"

lemma sorted_wrt_concat_map:
  assumes "\<And>x. x \<in> set xs \<Longrightarrow> sorted_wrt R (f x)"
    and "sorted_wrt (\<lambda>x y. \<forall>a\<in>set (f x). \<forall>b\<in>set (f y). R a b) xs"
  shows "sorted_wrt R (concat (map f xs))"
  using assms by (induction xs) (auto simp: sorted_wrt_append)

lemma dfs_rows_prefix:
  "(j, po', p') \<in> set (dfs_rows d visible i po p) \<Longrightarrow> \<exists>ext. po' = po @ ext"
proof (induction d visible i po p arbitrary: j po' p' rule: dfs_rows.induct)
  case (1 d visible i po p)
  from "1.prems" consider "po' = po"
    | c where "c \<in> set (chain_children d visible i p)"
      "(j, po', p') \<in> set (dfs_rows d visible (wc_parent c) (po @ [wc_order c]) (p @ [wc_parent c]))"
    by (subst (asm) dfs_rows.simps) auto
  then show ?case
  proof cases
    case (2 c)
    with "1.IH" [of c j po' p'] show ?thesis by auto
  qed simp
qed

lemma sorted_wrt_sort_key_strict:
  assumes "distinct (map f xs)"
  shows "sorted_wrt (\<lambda>x y. f x < f y) (sort_key f xs)"
proof -
  have "distinct (map f (sort_key f xs))"
    using assms by (simp add: distinct_map distinct_sort)
  moreover have "sorted (map f (sort_key f xs))" by simp
  ultimately have "sorted_wrt (<) (map f (sort_key f xs))"
    by (simp add: strict_sorted_iff)
  then show ?thesis by (simp add: sorted_wrt_map)
qed

lemma dfs_rows_sorted:
  assumes "distinct (map (\<lambda>c. (wc_child c, wc_order c)) (db_workspace_chain d))"
  shows "sorted_wrt (\<lambda>r s. fst (snd r) < fst (snd s)) (dfs_rows d visible i po p)"
  using assms
proof (induction d visible i po p rule: dfs_rows.induct)
  case (1 d visible i po p)
  let ?sub = "\<lambda>c. dfs_rows d visible (wc_parent c) (po @ [wc_order c]) (p @ [wc_parent c])"
  let ?cs = "chain_children d visible i p"
  have "distinct (map (\<lambda>c. (wc_child c, wc_order c)) ?cs)"
    using "1.prems" by (simp add: chain_children_def distinct_map_filter)
  then have "distinct (map wc_order ?cs)"
    by (auto simp: distinct_map chain_children_def inj_on_def)
  then have "sorted_wrt (\<lambda>c c'. wc_order c < wc_order c') (sort_key wc_order ?cs)"
    by (rule sorted_wrt_sort_key_strict)
  then have "sorted_wrt (\<lambda>c c'. \<forall>a\<in>set (?sub c). \<forall>b\<in>set (?sub c'). fst (snd a) < fst (snd b))
      (sort_key wc_order ?cs)"
  proof (rule sorted_wrt_mono_rel [rotated])
    fix c c' :: workspace_chain
    assume less: "wc_order c < wc_order c'"
    show "\<forall>a\<in>set (?sub c). \<forall>b\<in>set (?sub c'). fst (snd a) < fst (snd b)"
    proof (intro ballI)
      fix a b
      assume "a \<in> set (?sub c)" "b \<in> set (?sub c')"
      then obtain e e' where "fst (snd a) = (po @ [wc_order c]) @ e"
        "fst (snd b) = (po @ [wc_order c']) @ e'"
        by (metis dfs_rows_prefix prod.collapse)
      with less show "fst (snd a) < fst (snd b)"
        by (simp add: list_less_def lexord_append_leftI)
    qed
  qed
  moreover have "\<forall>a\<in>set (?sub c). po < fst (snd a)" for c :: workspace_chain
  proof
    fix a
    assume "a \<in> set (?sub c)"
    then obtain e where "fst (snd a) = (po @ [wc_order c]) @ e"
      by (metis dfs_rows_prefix prod.collapse)
    then show "po < fst (snd a)" by (simp add: list_less_def lexord_append_rightI)
  qed
  ultimately show ?case
    using "1" by (subst dfs_rows.simps) (auto intro!: sorted_wrt_concat_map)
qed

section \<open>The query finds what the generator meets first\<close>

definition first_or :: "exn \<Rightarrow> 'a list \<Rightarrow> 'a res" where
  "first_or e xs = (case xs of [] \<Rightarrow> Inl e | x # _ \<Rightarrow> Inr x)"

lemma earliest_sorted:
  assumes sorted: "sorted_wrt (\<lambda>a b. fst a < fst b) F" and sets: "set M = set F"
  shows "earliest M = first_or (DoesNotExist ''Collection'') (map snd F)"
proof (cases F)
  case Nil
  with sets show ?thesis by (simp add: earliest_def first_or_def)
next
  case (Cons x F')
  with sets obtain y M' where M: "sort_key fst M = y # M'"
    by (metis list.exhaust list.set_intros(1) set_sort empty_iff empty_set)
  have "y \<in> set F" using M sets by (metis list.set_intros(1) set_sort)
  moreover have "fst y \<le> fst x"
  proof -
    have "sorted (map fst (y # M'))" using M sorted_sort_key [of fst M] by simp
    moreover have "x \<in> set (y # M')" using M sets Cons by (metis list.set_intros(1) set_sort)
    ultimately show ?thesis by auto
  qed
  ultimately have "y = x" using sorted Cons by fastforce
  with M Cons show ?thesis by (simp add: earliest_def first_or_def)
qed

lemma first_yielded:
  assumes "inj_on co_id (set cs)" and "\<forall>c\<in>set cs. P c \<longrightarrow> co_id c \<notin> set seen"
  shows "first_or e (filter P (fst (yield_collections cs seen))) = first_or e (filter P cs)"
  using assms
proof (induction cs arbitrary: seen)
  case Nil
  then show ?case by simp
next
  case (Cons c cs)
  show ?case
  proof (cases "P c \<or> co_id c \<in> set seen")
    case True
    with Cons show ?thesis by (auto simp: first_or_def split: prod.splits)
  next
    case False
    with Cons.prems have "\<forall>c'\<in>set cs. P c' \<longrightarrow> co_id c' \<notin> set (co_id c # seen)"
      by (auto simp: inj_on_def)
    with Cons.IH [of "co_id c # seen"] Cons.prems(1) False show ?thesis
      by (simp add: case_prod_beta)
  qed
qed

lemma named_collections:
  assumes "chain_wf d"
  shows "filter (\<lambda>c. co_name c = name) (own_collections d category i) =
      filter (\<lambda>c. co_workspace c = i \<and> co_category c = category \<and> co_name c = name) (db_collections d)"
    and "length (filter (\<lambda>c. co_workspace c = i \<and> co_category c = category \<and> co_name c = name)
      (db_collections d)) \<le> 1"
proof -
  let ?xs = "filter (\<lambda>c. co_workspace c = i \<and> co_category c = category \<and> co_name c = name)
    (db_collections d)"
  have "distinct (map (\<lambda>c. (co_name c, co_category c, co_workspace c)) ?xs)"
    using assms by (simp add: chain_wf_def distinct_map_filter)
  then have le: "length ?xs \<le> 1"
    by (rule distinct_const_length [where v = "(name, category, i)"]) simp
  then show "length ?xs \<le> 1" .
  from le have "sort_key co_name ?xs = ?xs"
    by (cases ?xs rule: list.exhaust [case_product list.exhaust]) (auto simp: Suc_le_eq)
  then show "filter (\<lambda>c. co_name c = name) (own_collections d category i) = ?xs"
    by (simp add: own_collections_def filter_sort conj_commute conj_left_commute)
qed

text \<open>Both functions read the same enumeration of paths, when \<open>kept\<close> is displayed.\<close>

definition accessible_rows :: "db \<Rightarrow> workspace list \<Rightarrow> pk \<Rightarrow> chain_row list" where
  "accessible_rows d kept i =
     (if i \<in> ws_id ` set kept then dfs_rows d (map ws_id kept) i [] [i] else [])"

lemma chain_cte_accessible:
  fixes d kept i
  defines "start \<equiv> (if i \<in> ws_id ` set kept then [(i, [], [i])] else [])"
  shows "\<exists>out. chain_cte (Suc (length kept)) d (map ws_id kept) start = Some out
    \<and> set out = set (accessible_rows d kept i)"
proof -
  have "card (ws_id ` set kept - {i}) \<le> length kept"
    by (metis card_Diff1_le card_length le_trans length_map set_map)
  then have "\<forall>(j, po, p)\<in>set start. card (set (map ws_id kept) - set p) < Suc (length kept)"
    by (auto simp: start_def)
  from chain_cte_enough [OF this, of d] obtain out
    where out: "chain_cte (Suc (length kept)) d (map ws_id kept) start = Some out" ..
  moreover have "set out = set (accessible_rows d kept i)"
    using set_chain_cte [OF out] by (simp add: start_def accessible_rows_def set_dfs_rows)
  ultimately show ?thesis by blast
qed

lemma get_collection_rows:
  assumes wf: "chain_wf d" and kept: "ws_can_display_qs d cx (db_workspaces d) user = Inr kept"
  shows "get_collection d cx user category name i = first_or (DoesNotExist ''Collection'')
    (filter (\<lambda>c. co_name c = name) (rows_collections d category (accessible_rows d kept i)))"
proof -
  let ?cols = "\<lambda>i. filter (\<lambda>c. co_workspace c = i \<and> co_category c = category \<and> co_name c = name)
    (db_collections d)"
  let ?pairs = "\<lambda>rows. concat (map (\<lambda>(i, po, p). map (\<lambda>c. (po, c)) (?cols i)) rows)"
  let ?rows = "accessible_rows d kept i"
  from chain_cte_accessible obtain out where out: "chain_cte (Suc (length kept)) d (map ws_id kept)
      (if i \<in> ws_id ` set kept then [(i, [], [i])] else []) = Some out" "set out = set ?rows" by blast
  have "sorted_wrt (\<lambda>r s. fst (snd r) < fst (snd s)) ?rows"
    using wf by (simp add: accessible_rows_def dfs_rows_sorted chain_wf_def)
  then have "sorted_wrt (\<lambda>a b. fst a < fst b) (?pairs ?rows)"
  proof (intro sorted_wrt_concat_map, goal_cases)
    case (1 r)
    obtain j po p where r: "r = (j, po, p)" by (cases r)
    with named_collections(2) [OF wf, where name = name and category = category and i = j]
    show ?case by (cases "?cols j" rule: remdups_adj.cases) simp_all
  next
    case 2
    then show ?case by (rule sorted_wrt_mono_rel [rotated]) auto
  qed
  moreover have "set (?pairs out) = set (?pairs ?rows)"
    unfolding set_concat set_map out(2) ..
  ultimately have "earliest (?pairs out) = first_or (DoesNotExist ''Collection'') (map snd (?pairs ?rows))"
    by (rule earliest_sorted)
  moreover have "map snd (?pairs rows) =
      filter (\<lambda>c. co_name c = name) (rows_collections d category rows)" for rows
    by (induction rows) (auto simp: named_collections(1) [OF wf] comp_def)
  moreover have "get_collection d cx user category name i = earliest (?pairs out)"
    using out(1) by (simp only: get_collection_def kept bind_res_simps Let_def length_map set_map
        option.case)
  ultimately show ?thesis by simp
qed

lemma list_accessible_rows:
  assumes wf: "chain_wf d" and i: "get_workspace d i \<noteq> None"
    and sub: "set kept \<subseteq> set (db_workspaces d)"
    and kept: "\<forall>w\<in>set (db_workspaces d). ws_can_display d cx w user = Inr (w \<in> set kept)"
  shows "list_accessible_collections d cx user category i =
    Inr (fst (yield_collections (rows_collections d category (accessible_rows d kept i)) []))"
proof -
  have "inj_on ws_id (set (db_workspaces d))"
    using wf by (simp add: chain_wf_def distinct_map)
  then have "\<forall>w\<in>set (db_workspaces d). ws_can_display d cx w user =
      Inr (ws_id w \<in> set (map ws_id kept))"
    using sub kept by (auto dest: inj_onD)
  from list_accessible_walk(1) [OF this _ i] wf show ?thesis
    by (auto simp: list_accessible_collections_def chain_wf_def walk_collections_def
        accessible_rows_def split: prod.splits)
qed

text \<open>
  C24: looking a collection up by category and name through the inheritance chain
  with the recursive SQL query gives the collection that the depth-first
  generator of accessible collections meets first under that name; when the
  generator meets none, or raises, so does the query. In particular the
  recursion stops although inheritance may be cyclic.
\<close>

theorem get_collection_is_first_accessible:
  assumes wf: "chain_wf d" and ok: "request_ok d cx user" and i: "get_workspace d i \<noteq> None"
  shows "get_collection d cx user category name i =
    bind_res (list_accessible_collections d cx user category i)
      (\<lambda>cs. first_or (DoesNotExist ''Collection'') (filter (\<lambda>c. co_name c = name) cs))"
proof -
  from i obtain w where w: "get_workspace d i = Some w" by auto
  from ws_pair.check_filter_cases [where c = "(d, cx)" and u = user and workers = ALWAYS
      and anonymous = PASS and cx = cx and role = WsViewer] ok
  consider (raises) e where "ws_can_display_qs d cx (db_workspaces d) user = Inl e"
      "\<forall>w. ws_can_display d cx w user = Inl e"
    | (kept) kept where "ws_can_display_qs d cx (db_workspaces d) user = Inr kept"
      "set kept \<subseteq> set (db_workspaces d)"
      "\<forall>w\<in>set (db_workspaces d). ws_can_display d cx w user = Inr (w \<in> set kept)"
    by (auto simp: ws_can_display_qs_def ws_can_display_def ws_filter_def ws_predicate_def)
  then show ?thesis
  proof cases
    case raises
    with w show ?thesis
      by (simp add: get_collection_def list_accessible_collections_def list_accessible.simps)
  next
    case kept
    let ?cs = "rows_collections d category (accessible_rows d kept i)"
    have "set ?cs \<subseteq> set (db_collections d)"
      by (auto simp: rows_collections_def own_collections_def)
    with wf have "inj_on co_id (set ?cs)"
      by (auto simp: chain_wf_def distinct_map intro: inj_on_subset)
    then show ?thesis
      by (simp add: get_collection_rows [OF wf kept(1)] list_accessible_rows [OF wf i kept(2,3)]
          first_yielded)
  qed
qed

definition inherit_ws :: "pk \<Rightarrow> workspace" where
  "inherit_ws i = \<lparr>ws_id = i, ws_name = ''w'', ws_public = True,
     ws_default_expiration_delay = 0, ws_scope = 1, ws_created_at = 0, ws_expiration_delay = None\<rparr>"

definition inherit_db :: db where
  "inherit_db = empty_db\<lparr>db_workspaces := [inherit_ws 1, inherit_ws 2, inherit_ws 3],
     db_workspace_chain := [\<lparr>wc_child = 1, wc_parent = 3, wc_order = 1\<rparr>,
       \<lparr>wc_child = 1, wc_parent = 2, wc_order = 0\<rparr>, \<lparr>wc_child = 2, wc_parent = 1, wc_order = 0\<rparr>],
     db_collections := [\<lparr>co_id = 9, co_name = ''sid'', co_category = ''debian:suite'',
       co_full_history_retention_period = None, co_metadata_only_retention_period = None,
       co_workspace = 3, co_retains_artifacts = RetainsAlways, co_data = JObj []\<rparr>]\<rparr>"

text \<open>A cyclic chain whose second branch holds the collection.\<close>

theorem get_collection_is_first_accessible_witness:
  "get_collection inherit_db initial_context AnonymousUser ''debian:suite'' ''sid'' 1 =
    bind_res (list_accessible_collections inherit_db initial_context AnonymousUser ''debian:suite'' 1)
      (\<lambda>cs. first_or (DoesNotExist ''Collection'') (filter (\<lambda>c. co_name c = ''sid'') cs))"
  by (rule get_collection_is_first_accessible)
     (simp_all add: chain_wf_def request_ok_def ctx_reachable.initial inherit_db_def inherit_ws_def
       empty_db_def get_workspace_def initial_context_def [THEN arg_cong, of cx_worker_token])

section \<open>The chain that was set is the chain that is followed\<close>

lemma check_chain_ok:
  "check_chain self chain seen = Inr () \<longleftrightarrow>
     self \<notin> set chain \<and> distinct chain \<and> set chain \<inter> set seen = {}"
  by (induction chain arbitrary: seen) auto

lemma check_chain_raises:
  "check_chain self chain seen \<noteq> Inr () \<Longrightarrow> \<exists>m. check_chain self chain seen = Inl (ValueError m)"
  by (induction chain arbitrary: seen) auto

text \<open>
  C31: \<open>set_inheritance\<close> accepts exactly the chains that neither contain the
  workspace itself nor repeat a workspace. When it accepts one, the parents of
  the workspace are then the chain, in order, and the chains of all other
  workspaces are untouched; when it raises, the database is unchanged.
\<close>

theorem set_inheritance_spec:
  assumes "set_inheritance self chain d = (r, d')"
  shows "if self \<notin> set chain \<and> distinct chain
    then r = Inr () \<and> map wc_parent (chain_parents d' self) = chain
       \<and> (\<forall>i. i \<noteq> self \<longrightarrow> chain_parents d' i = chain_parents d i)
    else (\<exists>m. r = Inl (ValueError m)) \<and> d' = d"
proof (cases "check_chain self chain []")
  case (Inl e)
  then show ?thesis
    using assms check_chain_ok [of self chain "[]"] check_chain_raises [of self chain "[]"]
    by (auto simp: set_inheritance_def act_defs)
next
  case (Inr u)
  let ?rows = "map (\<lambda>(idx, w). \<lparr>wc_child = self, wc_parent = w, wc_order = int idx\<rparr>) (enumerate 0 chain)"
  let ?old = "filter (\<lambda>c. wc_child c \<noteq> self) (db_workspace_chain d)"
  from Inr assms have r: "r = Inr ()" and d': "db_workspace_chain d' = ?old @ ?rows"
    by (auto simp: set_inheritance_def act_defs)
  have "sorted (map wc_order ?rows)"
    by (simp add: comp_def case_prod_beta sorted_wrt_map sorted_wrt_iff_nth_less nth_enumerate_eq)
  moreover have "filter (\<lambda>c. wc_child c = self) ?rows = ?rows"
    by (auto simp: filter_id_conv)
  ultimately have "chain_parents d' self = ?rows"
    by (simp add: chain_parents_def d' sort_key_id_if_sorted filter_empty_conv del: filter_map)
  then have "map wc_parent (chain_parents d' self) = chain"
    by (simp add: comp_def case_prod_beta)
  moreover have "chain_parents d' i = chain_parents d i" if "i \<noteq> self" for i
  proof -
    have "filter (\<lambda>c. wc_child c = i) ?rows = []"
      using that by (auto simp: filter_empty_conv)
    moreover have "filter (\<lambda>c. wc_child c = i) ?old = filter (\<lambda>c. wc_child c = i) (db_workspace_chain d)"
      using that by (auto intro: filter_cong)
    ultimately show ?thesis by (simp add: chain_parents_def d' del: filter_map filter_filter)
  qed
  ultimately show ?thesis
    using r Inr check_chain_ok [of self chain "[]"] by auto
qed

theorem set_inheritance_spec_witness:
  "map wc_parent (chain_parents (snd (set_inheritance 3 [2, 5] inherit_db)) 3) = [2, 5]"
proof -
  obtain r d' where s: "set_inheritance 3 [2, 5] inherit_db = (r, d')" by fastforce
  from set_inheritance_spec [OF s] show ?thesis by (simp add: s)
qed

end
