(* ===== verification/WorkRequests.thy ===== *)
theory WorkRequests
  imports Workspaces "HOL-Library.Product_Lexorder" "HOL-Library.Multiset"
begin

text \<open>
  The \<open>WorkRequest\<close> rows of debusine/db/models/work_requests.py: the query sets
  of \<open>WorkRequestQuerySet\<close>, the properties of one row, and who has which role on
  it (\<open>has_role\<close>, \<open>with_role\<close> and the predicates built on them).

  A query set is the list of the rows it selects. Where the code orders it, so
  does the definition (rows that compare equal keep the table's order, which
  PostgreSQL leaves open); a query without an order follows the model's
  \<open>ordering = ["id"]\<close>.
\<close>

section \<open>Query sets\<close>

definition objects :: "db \<Rightarrow> work_request list" where
  "objects d = sort_key wr_id (db_work_requests d)"

definition wr_dependencies :: "db \<Rightarrow> pk \<Rightarrow> work_request list" where
  "wr_dependencies d i = filter (\<lambda>r. (i, wr_id r) \<in> set (db_dependencies d)) (objects d)"

definition wr_reverse_dependencies :: "db \<Rightarrow> pk \<Rightarrow> work_request list" where
  "wr_reverse_dependencies d i = filter (\<lambda>r. (wr_id r, i) \<in> set (db_dependencies d)) (objects d)"

definition wr_children :: "db \<Rightarrow> pk \<Rightarrow> work_request list" where
  "wr_children d i = filter (\<lambda>r. wr_parent r = Some i) (objects d)"

definition is_superseded :: "db \<Rightarrow> pk \<Rightarrow> bool" where
  "is_superseded d i = list_ex (\<lambda>r. wr_supersedes r = Some i) (db_work_requests d)"

definition unsuperseded :: "db \<Rightarrow> work_request list \<Rightarrow> work_request list" where
  "unsuperseded d self = filter (\<lambda>r. \<not> is_superseded d (wr_id r)) self"

definition is_terminated :: "work_request \<Rightarrow> bool" where
  "is_terminated r \<longleftrightarrow> wr_status r = COMPLETED \<or> wr_status r = ABORTED"

definition terminated :: "work_request list \<Rightarrow> work_request list" where
  "terminated self = filter is_terminated self"

definition unblockable :: "db \<Rightarrow> work_request \<Rightarrow> bool" where
  "unblockable d r \<longleftrightarrow> wr_status r = BLOCKED \<and>
     (case wr_parent r of
        None \<Rightarrow> True
      | Some p \<Rightarrow> (case get_wr d p of None \<Rightarrow> False | Some w \<Rightarrow> wr_status w = RUNNING))"

definition can_be_unblocked_qs :: "db \<Rightarrow> work_request list \<Rightarrow> work_request list" where
  "can_be_unblocked_qs d self = filter (unblockable d) self"

definition can_be_automatically_unblocked_qs ::
  "db \<Rightarrow> work_request list \<Rightarrow> work_request list" where
  "can_be_automatically_unblocked_qs d self =
     filter (\<lambda>r. wr_unblock_strategy r = DEPS
                 \<and> \<not> list_ex (\<lambda>dep. wr_status dep \<noteq> COMPLETED) (wr_dependencies d (wr_id r)))
       (can_be_unblocked_qs d self)"

definition can_be_unblocked :: "db \<Rightarrow> pk \<Rightarrow> bool" where
  "can_be_unblocked d i \<longleftrightarrow>
     filter (\<lambda>r. wr_id r = i) (can_be_unblocked_qs d (objects d)) \<noteq> []"

definition can_be_automatically_unblocked :: "db \<Rightarrow> pk \<Rightarrow> bool" where
  "can_be_automatically_unblocked d i \<longleftrightarrow>
     filter (\<lambda>r. wr_id r = i) (can_be_automatically_unblocked_qs d (objects d)) \<noteq> []"

definition priority_effective :: "work_request \<Rightarrow> int" where
  "priority_effective self = wr_priority_base self + wr_priority_adjustment self"

definition pending ::
  "work_request list \<Rightarrow> bool \<Rightarrow> pk option \<Rightarrow> work_request list res" where
  "pending self exclude_assigned worker =
     (if exclude_assigned \<and> worker \<noteq> None
      then Inl (ValueError ''Cannot exclude_assigned and filter by worker'')
      else
        let qs = filter (\<lambda>r. wr_status r = PENDING) self;
            qs = (if exclude_assigned then filter (\<lambda>r. wr_worker r = None) qs else qs);
            qs = (case worker of None \<Rightarrow> qs | Some w \<Rightarrow> filter (\<lambda>r. wr_worker r = Some w) qs)
        in Inr (sort_key (\<lambda>r. (- (wr_priority_base r + wr_priority_adjustment r), wr_created_at r))
                 qs))"

definition running :: "work_request list \<Rightarrow> pk option \<Rightarrow> work_request list" where
  "running self worker =
     (let qs = filter (\<lambda>r. wr_status r = RUNNING) self
      in case worker of None \<Rightarrow> qs | Some w \<Rightarrow> filter (\<lambda>r. wr_worker r = Some w) qs)"

definition completed :: "work_request list \<Rightarrow> work_request list" where
  "completed self = filter (\<lambda>r. wr_status r = COMPLETED) self"

definition aborted :: "work_request list \<Rightarrow> work_request list" where
  "aborted self = filter (\<lambda>r. wr_status r = ABORTED) self"

definition is_aborted_failed :: "work_request \<Rightarrow> bool" where
  "is_aborted_failed self \<longleftrightarrow>
     wr_status self = ABORTED \<or> (wr_status self = COMPLETED \<and> wr_result self = FAILURE)"

definition aborted_or_failed :: "work_request list \<Rightarrow> work_request list" where
  "aborted_or_failed self =
     filter (\<lambda>r. wr_status r = ABORTED \<or> wr_status r = COMPLETED \<and> wr_result r = FAILURE) self"

definition workflows :: "work_request list \<Rightarrow> work_request list" where
  "workflows self = filter (\<lambda>r. wr_task_type r = WORKFLOW) self"

definition needs_input :: "work_request list \<Rightarrow> work_request list" where
  "needs_input self = filter (\<lambda>r. wr_workflow_runtime_status r = Some RtNeedsInput) self"

definition visible_in_workflow :: "work_request list \<Rightarrow> work_request list" where
  "visible_in_workflow self = filter (\<lambda>r. wd_visible (wr_workflow_data r)) self"

definition in_current_workspace ::
  "app_context \<Rightarrow> work_request list \<Rightarrow> work_request list res" where
  "in_current_workspace cx self =
     bind_res (require_workspace cx) (\<lambda>w. Inr (filter (\<lambda>r. wr_workspace r = w) self))"

definition in_current_scope ::
  "db \<Rightarrow> app_context \<Rightarrow> work_request list \<Rightarrow> work_request list res" where
  "in_current_scope d cx self =
     bind_res (require_scope cx) (\<lambda>s. Inr (filter (\<lambda>r.
       case get_workspace d (wr_workspace r) of None \<Rightarrow> False | Some w \<Rightarrow> ws_scope w = s) self))"

section \<open>Expiration\<close>

text \<open>\<open>Coalesce(expiration_delay, workspace.default_expiration_delay)\<close>, as a query and as a property.\<close>

definition effective_expiration_delay :: "db \<Rightarrow> work_request \<Rightarrow> duration res" where
  "effective_expiration_delay d self =
     (case wr_expiration_delay self of
        Some delay \<Rightarrow> Inr delay
      | None \<Rightarrow> (case get_workspace d (wr_workspace self) of
                  None \<Rightarrow> Inl (DoesNotExist ''Workspace'')
                | Some w \<Rightarrow> Inr (ws_default_expiration_delay w)))"

definition expire_at :: "db \<Rightarrow> work_request \<Rightarrow> time option res" where
  "expire_at d self = bind_res (effective_expiration_delay d self) (\<lambda>delay.
     Inr (if delay = 0 then None else Some (wr_created_at self + delay)))"

definition expired :: "db \<Rightarrow> work_request list \<Rightarrow> time \<Rightarrow> work_request list" where
  "expired d self at =
     (let delay = (\<lambda>r. case wr_expiration_delay r of
                         Some x \<Rightarrow> Some x
                       | None \<Rightarrow> map_option ws_default_expiration_delay
                                   (get_workspace d (wr_workspace r)))
      in filter (\<lambda>r. case delay r of None \<Rightarrow> False | Some x \<Rightarrow> wr_created_at r \<le> at - x)
           (filter (\<lambda>r. delay r \<noteq> Some 0) self))"

section \<open>Properties of a row\<close>

definition used_task_data :: "work_request \<Rightarrow> (string \<times> json) list" where
  "used_task_data self =
     (case wr_configured_task_data self of Some c \<Rightarrow> c | None \<Rightarrow> wr_task_data self)"

definition duration_of :: "work_request \<Rightarrow> int option" where
  "duration_of self =
     (case (wr_started_at self, wr_completed_at self) of
        (Some s, Some c) \<Rightarrow> Some (c - s) | _ \<Rightarrow> None)"

definition is_workflow :: "work_request \<Rightarrow> bool" where
  "is_workflow self \<longleftrightarrow> wr_task_type self = WORKFLOW"

definition is_part_of_workflow :: "work_request \<Rightarrow> bool" where
  "is_part_of_workflow self \<longleftrightarrow> wr_parent self \<noteq> None"

definition is_workflow_root :: "work_request \<Rightarrow> bool" where
  "is_workflow_root self \<longleftrightarrow> is_workflow self \<and> wr_parent self = None"

definition requires_signature :: "work_request \<Rightarrow> bool" where
  "requires_signature self \<longleftrightarrow>
     wr_task_type self = WAIT \<and> wr_task_name self = ''externaldebsign'' \<and> wr_status self = RUNNING"

definition workflow_display_name :: "work_request \<Rightarrow> string" where
  "workflow_display_name self =
     (case wd_display_name (wr_workflow_data self) of Some n \<Rightarrow> n | None \<Rightarrow> wr_task_name self)"

definition has_children_in_progress :: "db \<Rightarrow> pk \<Rightarrow> bool" where
  "has_children_in_progress d i \<longleftrightarrow>
     filter (\<lambda>r. \<not> (wr_status r = COMPLETED \<or> wr_status r = ABORTED)) (wr_children d i) \<noteq> []"

section \<open>Roles on a work request\<close>

text \<open>\<open>WorkRequestRoleBase.q\<close>: the condition on a row; \<open>workspace_q\<close> is the one on its workspace.\<close>

definition workspace_q :: "db \<Rightarrow> wr_role \<Rightarrow> pk \<Rightarrow> workspace \<Rightarrow> bool" where
  "workspace_q d role u w \<longleftrightarrow>
     has_workspace_roles d u (by_workspace_roles (wr_implied_by role)) (ws_id w)
     \<or> has_scope_roles d u (by_scope_roles (wr_implied_by role)) (ws_scope w)
     \<or> (by_public (wr_implied_by role) \<and> ws_public w)"

definition wr_q :: "db \<Rightarrow> wr_role \<Rightarrow> permission_user \<Rightarrow> work_request \<Rightarrow> bool res" where
  "wr_q d role user r =
     (case user of
        NoUser \<Rightarrow> Inl (AssertionError [])
      | AnonymousUser \<Rightarrow>
          Inr (by_public (wr_implied_by role)
               \<and> list_ex (\<lambda>w. ws_id w = wr_workspace r \<and> ws_public w) (db_workspaces d))
      | AuthUser u \<Rightarrow>
          Inr (list_ex (\<lambda>w. ws_id w = wr_workspace r \<and> workspace_q d role u w) (db_workspaces d)
               \<or> (by_creator (wr_implied_by role) \<and> wr_created_by r = u)))"

definition wr_with_role ::
  "db \<Rightarrow> work_request list \<Rightarrow> permission_user \<Rightarrow> wr_role \<Rightarrow> work_request list res" where
  "wr_with_role d self user role =
     (if user = NoUser then Inl (AssertionError [])
      else Inr (filter (\<lambda>r. wr_q d role user r = Inr True) self))"

definition wr_has_role ::
  "db \<Rightarrow> app_context \<Rightarrow> permission_user \<Rightarrow> wr_role \<Rightarrow> work_request \<Rightarrow> bool res" where
  "wr_has_role d cx user role self =
     (case get_workspace d (wr_workspace self) of
        None \<Rightarrow> Inl (DoesNotExist ''Workspace'')
      | Some w \<Rightarrow>
          if by_public (wr_implied_by role) \<and> ws_public w then Inr True
          else if \<not> is_authenticated user then Inr False
          else if by_creator (wr_implied_by role) \<and> user = AuthUser (wr_created_by self)
          then Inr True
          else if cx_user cx = user \<and> cx_workspace cx = Some (ws_id w) then
            bind_res (context_scope_roles cx) (\<lambda>scope_roles.
              if scope_roles \<inter> by_scope_roles (wr_implied_by role) \<noteq> {} then Inr True
              else bind_res (context_workspace_roles cx) (\<lambda>workspace_roles.
                Inr (workspace_roles \<inter> by_workspace_roles (wr_implied_by role) \<noteq> {})))
          else bind_res (wr_with_role d (db_work_requests d) user role)
                 (\<lambda>kept. Inr (filter (\<lambda>r. wr_id r = wr_id self) kept \<noteq> [])))"

definition wr_get_roles ::
  "db \<Rightarrow> app_context \<Rightarrow> permission_user \<Rightarrow> work_request \<Rightarrow> wr_role set" where
  "wr_get_roles d cx user self = from_iterable wr_implies
     (filter (\<lambda>r. wr_has_role d cx user r self = Inr True)
        [WrOwner, WrCreator, WrContributor, WrViewer])"

definition wr_predicate ::
  "allow \<Rightarrow> allow \<Rightarrow> wr_role \<Rightarrow> db \<Rightarrow> app_context \<Rightarrow> work_request \<Rightarrow> permission_user \<Rightarrow> bool res"
where
  "wr_predicate workers anonymous role d cx = permission_check workers anonymous
     (\<lambda>self user. wr_has_role d cx user role self) cx"

definition wr_filter ::
  "allow \<Rightarrow> allow \<Rightarrow> wr_role \<Rightarrow> db \<Rightarrow> app_context \<Rightarrow> work_request list \<Rightarrow> permission_user \<Rightarrow>
     work_request list res" where
  "wr_filter workers anonymous role d cx = permission_filter workers anonymous
     (\<lambda>self user. wr_with_role d self user role) cx"

definition wr_can_display where
  "wr_can_display = wr_predicate ALWAYS PASS WrViewer"

definition wr_can_display_qs where
  "wr_can_display_qs = wr_filter ALWAYS PASS WrViewer"

definition wr_can_retry where
  "wr_can_retry = wr_predicate ALWAYS NEVER WrContributor"

definition wr_can_retry_qs where
  "wr_can_retry_qs = wr_filter ALWAYS NEVER WrContributor"

definition wr_can_abort where
  "wr_can_abort = wr_predicate NEVER NEVER WrCreator"

definition wr_can_abort_qs where
  "wr_can_abort_qs = wr_filter NEVER NEVER WrCreator"

definition wr_can_unblock where
  "wr_can_unblock = wr_predicate NEVER NEVER WrOwner"

definition wr_can_unblock_qs where
  "wr_can_unblock_qs = wr_filter NEVER NEVER WrOwner"

definition wr_set_current ::
  "db \<Rightarrow> work_request \<Rightarrow> app_context \<Rightarrow> app_context res" where
  "wr_set_current d self cx =
     (case get_workspace d (wr_workspace self) of
        None \<Rightarrow> Inl (DoesNotExist ''Workspace'')
      | Some w \<Rightarrow>
          bind_res (set_scope (ws_scope w) cx) (\<lambda>cx.
            bind_res (set_user d (AuthUser (wr_created_by self)) cx) (set_current d None w)))"

section \<open>The context and the query agree\<close>

lemma set_objects [simp]: "set (objects d) = set (db_work_requests d)"
  by (simp add: objects_def)

lemma reduced_meets:
  "from_iterable ws_implies rs \<inter> by_workspace_roles (wr_implied_by role) \<noteq> {} \<longleftrightarrow>
     (\<exists>r\<in>set rs. r \<in> by_workspace_roles (wr_implied_by role))"
proof
  assume "\<exists>r\<in>set rs. r \<in> by_workspace_roles (wr_implied_by role)"
  then obtain r where r: "r \<in> set rs" "r \<in> by_workspace_roles (wr_implied_by role)" by blast
  moreover have "ws_implies r r" by (rule ws_roles.implies_refl)
  ultimately obtain a where "a \<in> from_iterable ws_implies rs" "ws_implies a r"
    using ws_roles.from_iterable_implies [of rs r] by blast
  with r by_workspace_roles_closed show
    "from_iterable ws_implies rs \<inter> by_workspace_roles (wr_implied_by role) \<noteq> {}" by blast
qed (auto simp: from_iterable_eq)

lemma current_roles_meet:
  "(\<exists>r\<in>set (current_roles d (AuthUser u) w). r \<in> by_workspace_roles (wr_implied_by role)) \<longleftrightarrow>
     (ws_public w \<and> by_public (wr_implied_by role)) \<or>
     has_workspace_roles d u (by_workspace_roles (wr_implied_by role)) (ws_id w)"
  by (auto simp: current_roles_def has_workspace_roles_iff by_public_viewer)

lemma scope_roles_meet:
  assumes "ScopeOwner \<in> S \<longleftrightarrow> has_scope_roles d u {ScopeOwner} s"
  shows "S \<inter> by_scope_roles (wr_implied_by role) \<noteq> {} \<longleftrightarrow>
    has_scope_roles d u (by_scope_roles (wr_implied_by role)) s"
proof -
  have "by_scope_roles (wr_implied_by role) = {ScopeOwner}" by (cases role) simp_all
  with assms show ?thesis by auto
qed

lemma list_ex_unique_ws:
  assumes "distinct (map ws_id (db_workspaces d))" and "w \<in> set (db_workspaces d)"
    and "ws_id w = i"
  shows "list_ex (\<lambda>v. ws_id v = i \<and> P v) (db_workspaces d) \<longleftrightarrow> P w"
  using assms by (auto simp: list_ex_iff distinct_map dest: inj_onD)

text \<open>A request in a consistent context about rows whose workspaces exist.\<close>

definition wr_request_ok :: "db \<Rightarrow> app_context \<Rightarrow> permission_user \<Rightarrow> bool" where
  "wr_request_ok d cx u \<longleftrightarrow> request_ok d cx u \<and> distinct (map wr_id (db_work_requests d))
     \<and> (\<forall>r\<in>set (db_work_requests d). wr_workspace r \<in> ws_id ` set (db_workspaces d))"

lemma wr_has_role_eq_q:
  assumes ok: "wr_request_ok d cx user" and "user \<noteq> NoUser"
    and r: "r \<in> set (db_work_requests d)"
  shows "wr_has_role d cx user role r = wr_q d role user r"
proof -
  from ok have dist: "distinct (map ws_id (db_workspaces d))"
    and distr: "distinct (map wr_id (db_work_requests d))"
    and rq: "request_ok d cx user" by (auto simp: wr_request_ok_def request_ok_def)
  from ok r obtain w where w: "w \<in> set (db_workspaces d)" "ws_id w = wr_workspace r"
    unfolding wr_request_ok_def by (metis imageE)
  with dist have get: "get_workspace d (wr_workspace r) = Some w"
    by (simp add: get_workspace_def tbl_get_iff)
  note unique = list_ex_unique_ws [OF dist w]
  show ?thesis
  proof (cases "\<exists>u. user = AuthUser u \<and> cx_user cx = user \<and> cx_workspace cx = Some (ws_id w)
      \<and> \<not> (by_public (wr_implied_by role) \<and> ws_public w)
      \<and> \<not> (by_creator (wr_implied_by role) \<and> wr_created_by r = u)")
    case True
    then obtain u where u: "user = AuthUser u" "cx_user cx = AuthUser u"
      "cx_workspace cx = Some (ws_id w)" by auto
    from rq assms(2) have "ctx_ok d cx" "cx_worker_token cx = None"
      by (auto simp: request_ok_def ctx_reachable_ok)
    from cached_roles [OF this u(2,3) dist w(1)] obtain S W
      where SW: "cx_scope_roles cx = Some S" "cx_workspace_roles cx = Some W"
        "ScopeOwner \<in> S \<longleftrightarrow> has_scope_roles d u {ScopeOwner} (ws_scope w)"
        "W = from_iterable ws_implies (current_roles d (AuthUser u) w)"
      by blast
    from True u SW(1,2,4) scope_roles_meet [OF SW(3), of role] show ?thesis
      by (auto simp: wr_has_role_def wr_q_def get unique workspace_q_def context_scope_roles_def
          context_workspace_roles_def reduced_meets current_roles_meet)
  next
    case False
    with r distr assms(2) show ?thesis
      by (cases user) (auto simp: wr_has_role_def get wr_q_def wr_with_role_def unique
          filter_pk_exists workspace_q_def simp del: filter_filter)
  qed
qed

interpretation wr_pair: predicate_pair "\<lambda>(d, cx). wr_request_ok d cx"
    "\<lambda>(d, cx). db_work_requests d" "\<lambda>(d, cx) r u. wr_has_role d cx u role r"
    "\<lambda>(d, cx) rs u. wr_with_role d rs u role" for role
proof
  fix c u
  assume ok: "(case c of (d, cx) \<Rightarrow> wr_request_ok d cx) u" and u: "u \<noteq> NoUser"
  obtain d cx where c: "c = (d, cx)" by fastforce
  have *: "wr_has_role d cx u role r =
      Inr (r \<in> set (filter (\<lambda>r. wr_q d role u r = Inr True) (db_work_requests d)))"
    if "r \<in> set (db_work_requests d)" for r
    using ok c u that by (cases u) (auto simp: wr_has_role_eq_q wr_q_def)
  show "\<exists>kept. (case c of (d, cx) \<Rightarrow> \<lambda>rs u. wr_with_role d rs u role)
        (case c of (d, cx) \<Rightarrow> db_work_requests d) u = Inr kept
      \<and> set kept \<subseteq> set (case c of (d, cx) \<Rightarrow> db_work_requests d) \<and>
      (\<forall>r\<in>set (case c of (d, cx) \<Rightarrow> db_work_requests d).
         (case c of (d, cx) \<Rightarrow> \<lambda>r u. wr_has_role d cx u role r) r u = Inr (r \<in> set kept))"
    using u by (auto simp: c wr_with_role_def *)
qed

text \<open>
  For each of the four predicates on work requests, in every context the
  setters can build, the check of one row answers yes exactly when the filter of
  all rows keeps it; who created the request, the roles cached for the current
  workspace and the roles queried from the database never disagree.
\<close>

theorem work_request_predicates_agree:
  assumes "ctx_reachable d cx" and "user = NoUser \<or> cx_worker_token cx = None"
    and "distinct (map ws_id (db_workspaces d))" and "distinct (map wr_id (db_work_requests d))"
    and "\<forall>r\<in>set (db_work_requests d). wr_workspace r \<in> ws_id ` set (db_workspaces d)"
    and "r \<in> set (db_work_requests d)"
  shows "(wr_can_display d cx r user = Inr True \<longleftrightarrow>
      (\<exists>kept. wr_can_display_qs d cx (db_work_requests d) user = Inr kept \<and> r \<in> set kept))
    \<and> (wr_can_retry d cx r user = Inr True \<longleftrightarrow>
      (\<exists>kept. wr_can_retry_qs d cx (db_work_requests d) user = Inr kept \<and> r \<in> set kept))
    \<and> (wr_can_abort d cx r user = Inr True \<longleftrightarrow>
      (\<exists>kept. wr_can_abort_qs d cx (db_work_requests d) user = Inr kept \<and> r \<in> set kept))
    \<and> (wr_can_unblock d cx r user = Inr True \<longleftrightarrow>
      (\<exists>kept. wr_can_unblock_qs d cx (db_work_requests d) user = Inr kept \<and> r \<in> set kept))"
proof -
  from assms have "wr_request_ok d cx user" by (simp add: wr_request_ok_def request_ok_def)
  note agree = wr_pair.check_iff_filter [of "(d, cx)" user r, simplified, OF this assms(6)]
  show ?thesis
    by (simp add: wr_can_display_def wr_can_display_qs_def wr_can_retry_def wr_can_retry_qs_def
        wr_can_abort_def wr_can_abort_qs_def wr_can_unblock_def wr_can_unblock_qs_def
        wr_predicate_def wr_filter_def agree)
qed

text \<open>A row with the model's defaults, for the examples.\<close>

definition new_work_request :: "pk \<Rightarrow> pk \<Rightarrow> work_request" where
  "new_work_request i u = \<lparr>wr_id = i, wr_workspace = 1, wr_created_at = 0, wr_started_at = None,
     wr_completed_at = None, wr_workflow_last_activity_at = None, wr_created_by = u,
     wr_aborted_by = None, wr_status = PENDING, wr_workflow_runtime_status = None,
     wr_workflows_need_update = False, wr_result = NONE, wr_worker = None,
     wr_task_type = WORKER, wr_task_name = ''noop'', wr_task_data = [],
     wr_dynamic_task_data = None, wr_priority_base = 0, wr_priority_adjustment = 0,
     wr_output_data = None, wr_unblock_strategy = DEPS, wr_parent = None,
     wr_workflow_template = None, wr_workflow_data = default_workflow_data,
     wr_event_reactions = no_event_reactions, wr_internal_collection = None,
     wr_expiration_delay = None, wr_supersedes = None, wr_configured_task_data = None,
     wr_version = 0\<rparr>"

definition example_wr_db :: db where
  "example_wr_db = example_db\<lparr>db_work_requests := [new_work_request 4 7]\<rparr>"

theorem work_request_predicates_agree_witness:
  "wr_can_retry example_wr_db initial_context (new_work_request 4 7) (AuthUser 7) = Inr True \<longleftrightarrow>
     (\<exists>kept. wr_can_retry_qs example_wr_db initial_context (db_work_requests example_wr_db)
        (AuthUser 7) = Inr kept \<and> new_work_request 4 7 \<in> set kept)"
  using work_request_predicates_agree [of example_wr_db initial_context "AuthUser 7"
      "new_work_request 4 7"] ctx_reachable.initial [of example_wr_db]
  by (simp add: example_wr_db_def example_simps new_work_request_def)

text \<open>
  The query set \<open>expired(at)\<close> selects exactly the work requests whose
  \<open>expire_at\<close> property is set and not after \<open>at\<close>: a delay of zero, inherited or
  not, never expires.
\<close>

theorem expired_iff_expire_at:
  "r \<in> set (expired d rs at) \<longleftrightarrow> r \<in> set rs \<and> (\<exists>t. expire_at d r = Inr (Some t) \<and> t \<le> at)"
  by (auto simp: expired_def expire_at_def effective_expiration_delay_def Let_def
      split: option.splits)

text \<open>
  The queue the scheduler and the workers read: \<open>pending\<close> holds each pending
  request (unassigned ones only, if asked) exactly as often as the query set it
  starts from, by descending effective priority and then by age.
\<close>

theorem pending_queue:
  "\<exists>q. pending self exclude_assigned None = Inr q
    \<and> mset q = mset (filter (\<lambda>r. wr_status r = PENDING
          \<and> (if exclude_assigned then wr_worker r = None else True)) self)
    \<and> sorted_wrt (\<lambda>a b. priority_effective b < priority_effective a
          \<or> (priority_effective a = priority_effective b \<and> wr_created_at a \<le> wr_created_at b)) q"
proof -
  let ?k = "\<lambda>r. (- (wr_priority_base r + wr_priority_adjustment r), wr_created_at r)"
  let ?f = "filter (\<lambda>r. wr_status r = PENDING
          \<and> (if exclude_assigned then wr_worker r = None else True)) self"
  have "pending self exclude_assigned None = Inr (sort_key ?k ?f)"
    by (auto simp: pending_def Let_def intro: arg_cong [where f = "sort_key ?k"] filter_cong)
  moreover have "sorted_wrt (\<lambda>a b. priority_effective b < priority_effective a
      \<or> (priority_effective a = priority_effective b \<and> wr_created_at a \<le> wr_created_at b))
      (sort_key ?k ?f)"
    by (rule sorted_wrt_mono_rel [OF _ sorted_sort_key [of ?k ?f, unfolded sorted_map]])
       (auto simp: priority_effective_def less_eq_prod_def)
  ultimately show ?thesis by auto
qed

end
