(* ===== verification/Hierarchy.thy ===== *)
theory Hierarchy
  imports WorkRequests
begin

text \<open>
  The tree of workflows (debusine/db/models/work_requests.py): the recursive
  queries \<open>workflow_flattened\<close>, \<open>workflow_ancestors\<close> and
  \<open>with_workflow_root_id\<close>, the walk \<open>get_workflow_root\<close>, the two summaries
  shown for a workflow (\<open>compute_workflow_last_activity\<close> and
  \<open>compute_workflow_runtime_status\<close>) and the Celery task
  \<open>update_workflows\<close> (debusine/server/celery.py) that stores them.
\<close>

section \<open>Saving a row\<close>

text \<open>
  \<open>Model.save\<close> writes every column of the instance; the \<open>post_save\<close> receiver
  \<open>_work_request_changed\<close> of debusine/server/scheduler.py registers the
  scheduler to run on commit, once. \<open>auto\<close> is false when
  \<open>DISABLE_AUTOMATIC_SCHEDULING\<close> is set, or inside \<open>scheduling_disabled\<close>.
\<close>

definition add_hook :: "hook \<Rightarrow> db \<Rightarrow> db" where
  "add_hook h d =
     (if h \<in> set (db_on_commit d) then d else d\<lparr>db_on_commit := db_on_commit d @ [h]\<rparr>)"

definition put_wr :: "work_request \<Rightarrow> db \<Rightarrow> db" where
  "put_wr self d =
     (if get_wr d (wr_id self) = None
      then d\<lparr>db_work_requests := db_work_requests d @ [self]\<rparr>
      else d\<lparr>db_work_requests := tbl_upd wr_id (wr_id self) (\<lambda>_. self) (db_work_requests d)\<rparr>)"

definition work_request_changed :: "bool \<Rightarrow> db \<Rightarrow> db" where
  "work_request_changed auto d = (if auto then add_hook ScheduleTask d else d)"

definition save_wr :: "bool \<Rightarrow> work_request \<Rightarrow> unit dbact" where
  "save_wr auto self = modify_db (\<lambda>d. work_request_changed auto (put_wr self d))"

section \<open>Recursive queries\<close>

text \<open>
  \<open>WITH RECURSIVE ... UNION\<close>: start from some keys and keep joining the rows
  related to the keys found last, dropping the ones found before, until a round
  adds nothing.
\<close>

function cte_union ::
  "('r \<Rightarrow> 'a) \<Rightarrow> ('a \<Rightarrow> 'r \<Rightarrow> bool) \<Rightarrow> 'r list \<Rightarrow> 'a list \<Rightarrow> 'a list \<Rightarrow> 'a list" where
  "cte_union key edge rows seen work =
     (let new = remdups (filter (\<lambda>k. k \<notin> set seen)
                  (map key (filter (\<lambda>r. list_ex (\<lambda>i. edge i r) work) rows)))
      in if new = [] then seen else cte_union key edge rows (seen @ new) new)"
  by pat_completeness auto

lemma unseen_less:
  assumes "set new \<subseteq> key ` set rows - set seen" and "new \<noteq> []"
  shows "card (key ` set rows - set (seen @ new)) < card (key ` set rows - set seen)"
proof -
  from assms(2) obtain k where "k \<in> set new" by (cases new) auto
  with assms(1) have "key ` set rows - set (seen @ new) \<subset> key ` set rows - set seen" by auto
  then show ?thesis by (rule psubset_card_mono [rotated]) simp
qed

termination cte_union
  by (relation "measure (\<lambda>(key, edge, rows, seen, work). card (key ` set rows - set seen))")
     (auto simp del: set_append intro!: unseen_less)

declare cte_union.simps [simp del]

text \<open>What it computes: everything reachable along the edges.\<close>

definition row_step :: "('r \<Rightarrow> 'a) \<Rightarrow> ('a \<Rightarrow> 'r \<Rightarrow> bool) \<Rightarrow> 'r list \<Rightarrow> 'a \<Rightarrow> 'a \<Rightarrow> bool" where
  "row_step key edge rows i j \<longleftrightarrow> (\<exists>r\<in>set rows. edge i r \<and> key r = j)"

lemma cte_union_reaches:
  assumes "set work \<subseteq> set seen"
    and "\<And>i j. i \<in> set seen \<Longrightarrow> i \<notin> set work \<Longrightarrow> row_step key edge rows i j \<Longrightarrow> j \<in> set seen"
  shows "set (cte_union key edge rows seen work) =
    {j. \<exists>i\<in>set seen. (row_step key edge rows)\<^sup>*\<^sup>* i j}"
  using assms
proof (induction key edge rows seen work rule: cte_union.induct)
  case (1 key edge rows seen work)
  let ?new = "remdups (filter (\<lambda>k. k \<notin> set seen)
      (map key (filter (\<lambda>r. list_ex (\<lambda>i. edge i r) work) rows)))"
  have new: "j \<in> set ?new \<longleftrightarrow> j \<notin> set seen \<and> (\<exists>i\<in>set work. row_step key edge rows i j)" for j
    by (auto simp: row_step_def list_ex_iff)
  have closed: "j \<in> set (seen @ ?new)" if "i \<in> set seen" "row_step key edge rows i j" for i j
    using that 1(3) new by (cases "i \<in> set work") auto
  show ?case
  proof (cases "?new = []")
    case True
    have "j \<in> set seen" if "(row_step key edge rows)\<^sup>*\<^sup>* i j" "i \<in> set seen" for i j
      using that by (induction rule: rtranclp_induct) (use closed True in auto)
    with True show ?thesis by (subst cte_union.simps) (auto simp: Let_def)
  next
    case False
    have "set (cte_union key edge rows (seen @ ?new) ?new) =
        {j. \<exists>i\<in>set (seen @ ?new). (row_step key edge rows)\<^sup>*\<^sup>* i j}"
      by (rule 1(1) [OF refl False]) (use closed in auto)
    moreover have "\<exists>k\<in>set seen. (row_step key edge rows)\<^sup>*\<^sup>* k j"
      if "i \<in> set ?new" "(row_step key edge rows)\<^sup>*\<^sup>* i j" for i j
      using that 1(2) unfolding new by (meson converse_rtranclp_into_rtranclp subset_iff)
    ultimately show ?thesis using False
      by (subst cte_union.simps) (auto simp: Let_def simp del: set_remdups set_filter)
  qed
qed

lemma set_cte_union:
  "set (cte_union key edge rows start start) =
     {j. \<exists>i\<in>set start. (row_step key edge rows)\<^sup>*\<^sup>* i j}"
  by (rule cte_union_reaches) auto

section \<open>The workflow tree\<close>

definition child_edge :: "pk \<Rightarrow> work_request \<Rightarrow> bool" where
  "child_edge i r \<longleftrightarrow> wr_parent r = Some i"

definition flattened_ids :: "db \<Rightarrow> pk \<Rightarrow> pk list" where
  "flattened_ids d i =
     (let start = map wr_id (filter (\<lambda>r. wr_id r = i) (db_work_requests d))
      in cte_union wr_id child_edge (db_work_requests d) start start)"

definition workflow_flattened :: "db \<Rightarrow> pk \<Rightarrow> bool \<Rightarrow> bool \<Rightarrow> work_request list" where
  "workflow_flattened d work_request include_workflows include_invisible =
     (let flattened = filter (\<lambda>r. wr_id r \<in> set (flattened_ids d work_request)) (objects d);
          flattened = (if include_workflows then flattened
                       else filter (\<lambda>r. wr_task_type r \<noteq> WORKFLOW) flattened)
      in if include_invisible then flattened else visible_in_workflow flattened)"

definition parent_edge :: "db \<Rightarrow> pk \<Rightarrow> work_request \<Rightarrow> bool" where
  "parent_edge d i r \<longleftrightarrow>
     list_ex (\<lambda>c. wr_id c = i \<and> wr_parent c = Some (wr_id r)) (db_work_requests d)"

definition ancestor_ids :: "db \<Rightarrow> pk list \<Rightarrow> pk list" where
  "ancestor_ids d start = cte_union wr_id (parent_edge d) (db_work_requests d) start start"

definition workflow_ancestors :: "db \<Rightarrow> work_request list \<Rightarrow> work_request list" where
  "workflow_ancestors d work_requests =
     filter (\<lambda>r. wr_id r \<in> set (ancestor_ids d (map wr_id work_requests)) \<and> wr_task_type r = WORKFLOW)
       (objects d)"

text \<open>
  \<open>with_workflow_root_id\<close>: each row with the rows without parent found above it,
  and the annotation \<open>workflow_root_id\<close>.
\<close>

definition with_workflow_root_id ::
  "db \<Rightarrow> work_request list \<Rightarrow> (work_request \<times> pk option) list" where
  "with_workflow_root_id d self =
     concat (map (\<lambda>r. map (\<lambda>root. (r, if wr_task_type r = WORKFLOW \<or> wr_parent r \<noteq> None
                                        then Some (wr_id root) else None))
       (filter (\<lambda>a. wr_parent a = None \<and> wr_id a \<in> set (ancestor_ids d [wr_id r]))
          (db_work_requests d))) self)"

text \<open>
  \<open>get_workflow_root\<close> follows the parents; the bound on the steps is the number
  of rows, which a path without repetition cannot exceed.
\<close>

primrec root_walk :: "nat \<Rightarrow> db \<Rightarrow> work_request \<Rightarrow> work_request res" where
  "root_walk 0 d parent = Inl OutOfFuel"
| "root_walk (Suc n) d parent =
     (case wr_parent parent of
        None \<Rightarrow> Inr parent
      | Some p \<Rightarrow> (case get_wr d p of
                    None \<Rightarrow> Inl (DoesNotExist ''WorkRequest'')
                  | Some q \<Rightarrow> root_walk n d q))"

definition get_workflow_root :: "db \<Rightarrow> work_request \<Rightarrow> work_request option res" where
  "get_workflow_root d self =
     (if \<not> is_workflow self \<and> \<not> is_part_of_workflow self then Inr None
      else bind_res (root_walk (Suc (length (db_work_requests d))) d self) (\<lambda>root. Inr (Some root)))"

section \<open>Summaries of a workflow\<close>

text \<open>PostgreSQL's \<open>GREATEST\<close> and \<open>MAX\<close> ignore nulls.\<close>

definition greatest :: "time option \<Rightarrow> time option \<Rightarrow> time option" where
  "greatest a b = (case (a, b) of
     (Some x, Some y) \<Rightarrow> Some (max x y) | (Some x, None) \<Rightarrow> Some x | (None, y) \<Rightarrow> y)"

definition compute_workflow_last_activity :: "db \<Rightarrow> work_request \<Rightarrow> time option" where
  "compute_workflow_last_activity d workflow =
     fold (\<lambda>r acc. greatest acc (greatest (wr_started_at r) (wr_completed_at r)))
       (workflow_flattened d (wr_id workflow) False True) None"

definition compute_workflow_runtime_status :: "db \<Rightarrow> work_request \<Rightarrow> runtime_status res" where
  "compute_workflow_runtime_status d workflow =
     (if wr_task_type workflow \<noteq> WORKFLOW then Inl (AssertionError [])
      else
        let flattened = workflow_flattened d (wr_id workflow) False True in
        if list_ex (\<lambda>r. wr_task_type r = WAIT \<and> wr_status r = RUNNING
              \<and> wd_needs_input (wr_workflow_data r) = Some True) flattened
        then Inr RtNeedsInput
        else if list_ex (\<lambda>r. wr_task_type r \<noteq> WAIT \<and> wr_status r = RUNNING) flattened
        then Inr RtRunning
        else if list_ex (\<lambda>r. wr_task_type r = WAIT \<and> wr_status r = RUNNING
              \<and> wd_needs_input (wr_workflow_data r) = Some False) flattened
        then Inr RtWaiting
        else if list_ex (\<lambda>r. wr_status r = PENDING) flattened then Inr RtPending
        else if list_ex (\<lambda>r. wr_status r = BLOCKED) flattened then Inr RtBlocked
        else if list_ex (\<lambda>r. wr_status r = ABORTED) flattened then Inr RtAborted
        else if \<not> list_ex (\<lambda>r. wr_status r \<noteq> COMPLETED) flattened then Inr RtCompleted
        else Inl (AssertionError ''Could not compute runtime status for workflow''))"

text \<open>The task \<open>update_workflows\<close> of debusine/server/celery.py.\<close>

definition update_workflow :: "bool \<Rightarrow> work_request \<Rightarrow> unit dbact" where
  "update_workflow auto workflow = with_db (\<lambda>d.
     if wr_task_type workflow \<noteq> WORKFLOW then raise (AssertionError [])
     else bind_act (lift_res (compute_workflow_runtime_status d workflow)) (\<lambda>status.
       save_wr auto (workflow\<lparr>
         wr_workflow_last_activity_at := compute_workflow_last_activity d workflow,
         wr_workflow_runtime_status := Some status\<rparr>)))"

definition clear_need_update :: "db \<Rightarrow> db" where
  "clear_need_update d = d\<lparr>db_work_requests :=
     map (\<lambda>r. if wr_workflows_need_update r then r\<lparr>wr_workflows_need_update := False\<rparr> else r)
       (db_work_requests d)\<rparr>"

definition update_workflows :: "bool \<Rightarrow> unit dbact" where
  "update_workflows auto = with_db (\<lambda>d.
     let need_update = filter wr_workflows_need_update (objects d);
         ancestors = map wr_id (workflow_ancestors d need_update)
     in seq_act
          (for_each (filter (\<lambda>r. wr_id r \<in> set ancestors) (objects d)) (update_workflow auto))
          (modify_db clear_need_update))"

section \<open>Reachability in the tree\<close>

definition child_of :: "db \<Rightarrow> pk \<Rightarrow> pk \<Rightarrow> bool" where
  "child_of d i j \<longleftrightarrow> (\<exists>r\<in>set (db_work_requests d). wr_id r = j \<and> wr_parent r = Some i)"

lemma child_step: "row_step wr_id child_edge (db_work_requests d) = child_of d"
  by (auto simp: fun_eq_iff row_step_def child_edge_def child_of_def)

lemma parent_step: "row_step wr_id (parent_edge d) (db_work_requests d) i j \<longleftrightarrow>
    j \<in> wr_id ` set (db_work_requests d) \<and> child_of d j i"
  by (auto simp: row_step_def parent_edge_def child_of_def list_ex_iff)

lemma set_flattened_ids:
  "j \<in> set (flattened_ids d i) \<longleftrightarrow> i \<in> wr_id ` set (db_work_requests d) \<and> (child_of d)\<^sup>*\<^sup>* i j"
  by (auto simp: flattened_ids_def Let_def set_cte_union child_step)

text \<open>Parents are rows that were there before their children.\<close>

definition tree_ok :: "db \<Rightarrow> bool" where
  "tree_ok d \<longleftrightarrow> distinct (map wr_id (db_work_requests d)) \<and>
     (\<forall>r\<in>set (db_work_requests d). \<forall>p. wr_parent r = Some p \<longrightarrow>
        p < wr_id r \<and> p \<in> wr_id ` set (db_work_requests d))"

lemma tree_ok_get:
  assumes "tree_ok d" and "r \<in> set (db_work_requests d)" and "wr_parent r = Some p"
  obtains q where "get_wr d p = Some q" "q \<in> set (db_work_requests d)" "wr_id q = p" "p < wr_id r"
proof -
  from assms obtain q where "q \<in> set (db_work_requests d)" "wr_id q = p" "p < wr_id r"
    unfolding tree_ok_def by (metis imageE)
  with assms(1) that show ?thesis by (auto simp: get_wr_def tree_ok_def tbl_get_iff)
qed

lemma get_wr_row:
  "tree_ok d \<Longrightarrow> get_wr d i = Some r \<longleftrightarrow> r \<in> set (db_work_requests d) \<and> wr_id r = i"
  by (simp add: get_wr_def tree_ok_def tbl_get_iff)

lemma ancestor_step:
  "tree_ok d \<Longrightarrow> row_step wr_id (parent_edge d) (db_work_requests d) i j \<longleftrightarrow> child_of d j i"
  unfolding parent_step by (auto simp: tree_ok_def child_of_def)

lemma set_ancestor_ids:
  assumes "tree_ok d"
  shows "j \<in> set (ancestor_ids d start) \<longleftrightarrow> (\<exists>i\<in>set start. (child_of d)\<^sup>*\<^sup>* j i)"
proof -
  have "row_step wr_id (parent_edge d) (db_work_requests d) = (child_of d)\<inverse>\<inverse>"
    using ancestor_step [OF assms] by (auto simp: fun_eq_iff)
  then show ?thesis by (auto simp: ancestor_ids_def set_cte_union rtranclp_conversep)
qed

lemma child_of_unique: "tree_ok d \<Longrightarrow> child_of d i k \<Longrightarrow> child_of d j k \<Longrightarrow> i = j"
  by (auto simp: tree_ok_def child_of_def distinct_map dest: inj_onD)

lemma root_above_unique:
  assumes "tree_ok d" and "(child_of d)\<^sup>*\<^sup>* i k" and "(child_of d)\<^sup>*\<^sup>* j k"
    and "\<And>x. \<not> child_of d x i" and "\<And>x. \<not> child_of d x j"
  shows "i = j"
  using assms(2,3)
proof (induction rule: rtranclp_induct)
  case base
  then show ?case using assms(4) by (auto elim: rtranclp.cases)
next
  case (step y z)
  show ?case
  proof (cases "j = z")
    case True
    with step assms(5) show ?thesis by blast
  next
    case False
    with step.prems obtain x where "(child_of d)\<^sup>*\<^sup>* j x" "child_of d x z"
      by (auto elim: rtranclp.cases)
    with step child_of_unique [OF assms(1)] show ?thesis by blast
  qed
qed

lemma no_parent:
  "tree_ok d \<Longrightarrow> r \<in> set (db_work_requests d) \<Longrightarrow>
     wr_parent r = None \<longleftrightarrow> (\<forall>x. \<not> child_of d x (wr_id r))"
  by (auto simp: tree_ok_def child_of_def distinct_map dest: inj_onD)

lemma rows_below_less:
  assumes "tree_ok d" and "q \<in> set (db_work_requests d)" and "wr_id q < wr_id r"
  shows "card {i \<in> wr_id ` set (db_work_requests d). i < wr_id q}
    < card {i \<in> wr_id ` set (db_work_requests d). i < wr_id r}"
  by (rule psubset_card_mono) (use assms in auto)

lemma root_walk_returns:
  assumes "tree_ok d" and "r \<in> set (db_work_requests d)"
    and "card {i \<in> wr_id ` set (db_work_requests d). i < wr_id r} < n"
  shows "\<exists>root. root_walk n d r = Inr root \<and> root \<in> set (db_work_requests d)
    \<and> wr_parent root = None \<and> (child_of d)\<^sup>*\<^sup>* (wr_id root) (wr_id r)"
  using assms(2,3)
proof (induction n arbitrary: r)
  case 0
  then show ?case by simp
next
  case (Suc n)
  show ?case
  proof (cases "wr_parent r")
    case None
    with Suc.prems show ?thesis by simp
  next
    case (Some p)
    with assms(1) Suc.prems(1) obtain q where q: "get_wr d p = Some q"
      "q \<in> set (db_work_requests d)" "wr_id q = p" "p < wr_id r" by (rule tree_ok_get)
    from q(2,4) Suc.prems(2) rows_below_less [OF assms(1) q(2), of r]
    have "card {i \<in> wr_id ` set (db_work_requests d). i < wr_id q} < n" by (simp add: q(3))
    from Suc.IH [OF q(2) this] obtain root where root: "root_walk n d q = Inr root"
      "root \<in> set (db_work_requests d)" "wr_parent root = None"
      "(child_of d)\<^sup>*\<^sup>* (wr_id root) (wr_id q)" by blast
    moreover have "child_of d (wr_id q) (wr_id r)"
      using Some q(3) Suc.prems(1) by (auto simp: child_of_def)
    ultimately show ?thesis using Some q(1) by (auto intro: rtranclp.rtrancl_into_rtrancl)
  qed
qed

lemma filter_singleton:
  assumes "distinct xs" and "x \<in> set xs" and "\<And>y. y \<in> set xs \<Longrightarrow> P y \<longleftrightarrow> y = x"
  shows "filter P xs = [x]"
proof -
  have "filter P xs = filter (\<lambda>y. y = x) xs" by (rule filter_cong) (use assms(3) in auto)
  also have "\<dots> = [x]" using assms(1,2) by (induction xs) (auto simp: filter_empty_conv)
  finally show ?thesis .
qed

text \<open>
  The walk to the root of a workflow ends on every row, and finds the row
  that the recursive query annotates: \<open>get_workflow_root\<close> and
  \<open>with_workflow_root_id\<close> agree, and each row has exactly one annotation.
\<close>

theorem get_workflow_root_is_annotation:
  assumes "tree_ok d" and "r \<in> set (db_work_requests d)"
  shows "\<exists>root. get_workflow_root d r = Inr root
    \<and> with_workflow_root_id d [r] = [(r, map_option wr_id root)]"
proof -
  let ?rows = "db_work_requests d"
  have "card {i \<in> wr_id ` set ?rows. i < wr_id r} \<le> card (wr_id ` set ?rows)"
    by (rule card_mono) auto
  also have "\<dots> \<le> length ?rows"
    using card_image_le [of "set ?rows" wr_id] card_length [of ?rows] by simp
  finally have "card {i \<in> wr_id ` set ?rows. i < wr_id r} < Suc (length ?rows)" by simp
  from root_walk_returns [OF assms this] obtain root
    where root: "root_walk (Suc (length ?rows)) d r = Inr root" "root \<in> set ?rows"
      "wr_parent root = None" "(child_of d)\<^sup>*\<^sup>* (wr_id root) (wr_id r)" by blast
  have inj: "a = b" if "a \<in> set ?rows" "b \<in> set ?rows" "wr_id a = wr_id b" for a b
    using assms(1) that by (auto simp: tree_ok_def distinct_map dest: inj_onD)
  have "filter (\<lambda>a. wr_parent a = None \<and> wr_id a \<in> set (ancestor_ids d [wr_id r])) ?rows = [root]"
  proof (rule filter_singleton)
    show "distinct ?rows" using assms(1) by (simp add: tree_ok_def distinct_map)
    show "root \<in> set ?rows" by fact
    show "(wr_parent a = None \<and> wr_id a \<in> set (ancestor_ids d [wr_id r])) \<longleftrightarrow> a = root"
      if a: "a \<in> set ?rows" for a
    proof
      assume above: "wr_parent a = None \<and> wr_id a \<in> set (ancestor_ids d [wr_id r])"
      then have "(child_of d)\<^sup>*\<^sup>* (wr_id a) (wr_id r)"
        by (simp add: set_ancestor_ids [OF assms(1)])
      from root_above_unique [OF assms(1) this root(4)] above root(2,3) a no_parent [OF assms(1)]
      have "wr_id a = wr_id root" by blast
      with a root(2) show "a = root" by (rule inj)
    next
      assume "a = root"
      with root(3,4) show "wr_parent a = None \<and> wr_id a \<in> set (ancestor_ids d [wr_id r])"
        by (simp add: set_ancestor_ids [OF assms(1)])
    qed
  qed
  then have "with_workflow_root_id d [r] = [(r, if wr_task_type r = WORKFLOW \<or> wr_parent r \<noteq> None
      then Some (wr_id root) else None)]"
    by (simp add: with_workflow_root_id_def)
  with root(1) show ?thesis
    by (auto simp: get_workflow_root_def is_workflow_def is_part_of_workflow_def)
qed

text \<open>A root workflow (1) with a sub-workflow (2) that holds the two requests 3 and 4.\<close>

definition example_tree :: "status \<Rightarrow> status \<Rightarrow> db" where
  "example_tree s t = example_db\<lparr>db_work_requests :=
     [(new_work_request 1 7)\<lparr>wr_task_type := WORKFLOW, wr_status := RUNNING\<rparr>,
      (new_work_request 2 7)\<lparr>wr_task_type := WORKFLOW, wr_status := RUNNING, wr_parent := Some 1\<rparr>,
      (new_work_request 3 7)\<lparr>wr_status := s, wr_parent := Some 2\<rparr>,
      (new_work_request 4 7)\<lparr>wr_status := t, wr_parent := Some 2, wr_supersedes := Some 3\<rparr>]\<rparr>"

lemma example_tree_ok: "tree_ok (example_tree s t)"
  by (simp add: tree_ok_def example_tree_def example_simps new_work_request_def)

theorem get_workflow_root_is_annotation_witness:
  "\<exists>root. get_workflow_root (example_tree PENDING BLOCKED)
        ((new_work_request 3 7)\<lparr>wr_status := PENDING, wr_parent := Some 2\<rparr>) = Inr root
    \<and> with_workflow_root_id (example_tree PENDING BLOCKED)
        [(new_work_request 3 7)\<lparr>wr_status := PENDING, wr_parent := Some 2\<rparr>]
      = [((new_work_request 3 7)\<lparr>wr_status := PENDING, wr_parent := Some 2\<rparr>, map_option wr_id root)]"
  by (rule get_workflow_root_is_annotation [OF example_tree_ok]) (simp add: example_tree_def)

section \<open>What the recursive query selects\<close>

text \<open>
  The recursive query of \<open>workflow_flattened\<close> selects the work request itself
  and everything below it in the tree of parents, without the workflows or the
  invisible ones when they are not asked for, and nothing else.
\<close>

theorem workflow_flattened_reachable:
  "r \<in> set (workflow_flattened d i include_workflows include_invisible) \<longleftrightarrow>
     r \<in> set (db_work_requests d) \<and> (\<exists>q\<in>set (db_work_requests d). wr_id q = i)
     \<and> (child_of d)\<^sup>*\<^sup>* i (wr_id r)
     \<and> (include_workflows \<or> wr_task_type r = WORKER \<or> wr_task_type r = SERVER
        \<or> wr_task_type r = INTERNAL \<or> wr_task_type r = SIGNING \<or> wr_task_type r = WAIT)
     \<and> (include_invisible \<or> wd_visible (wr_workflow_data r))"
proof -
  have "wr_task_type r \<noteq> WORKFLOW \<longleftrightarrow> wr_task_type r = WORKER \<or> wr_task_type r = SERVER
      \<or> wr_task_type r = INTERNAL \<or> wr_task_type r = SIGNING \<or> wr_task_type r = WAIT"
    by (cases "wr_task_type r") simp_all
  then show ?thesis
    by (auto simp: workflow_flattened_def Let_def set_flattened_ids visible_in_workflow_def)
qed

lemma set_leaves:
  "set (workflow_flattened d i False True) =
     {r \<in> set (db_work_requests d). i \<in> wr_id ` set (db_work_requests d)
        \<and> (child_of d)\<^sup>*\<^sup>* i (wr_id r) \<and> wr_task_type r \<noteq> WORKFLOW}"
  by (auto simp: workflow_flattened_def set_flattened_ids)

lemma in_progress_status:
  "N \<or> R \<or> W \<or> P \<or> B \<Longrightarrow>
     \<exists>s. (if N then Inr RtNeedsInput else if R then Inr RtRunning else if W then Inr RtWaiting
          else if P then Inr RtPending else if B then Inr RtBlocked else x) = Inr s
       \<and> s \<noteq> RtCompleted \<and> s \<noteq> RtAborted"
  by auto

lemma runtime_status_total:
  assumes "wr_task_type workflow = WORKFLOW"
    and "\<forall>r\<in>set (db_work_requests d). wr_task_type r = WAIT \<longrightarrow>
      wd_needs_input (wr_workflow_data r) \<noteq> None"
  shows "\<exists>s. compute_workflow_runtime_status d workflow = Inr s
    \<and> (s = RtCompleted \<longleftrightarrow> (\<forall>r\<in>set (workflow_flattened d (wr_id workflow) False True).
          wr_status r = COMPLETED))
    \<and> (s = RtCompleted \<or> s = RtAborted \<longleftrightarrow>
         (\<forall>r\<in>set (workflow_flattened d (wr_id workflow) False True). is_terminated r))"
proof -
  let ?leaves = "set (workflow_flattened d (wr_id workflow) False True)"
  let ?has = "\<lambda>P. \<exists>r\<in>?leaves. P r"
  have waiting: "wd_needs_input (wr_workflow_data r) = Some True
      \<or> wd_needs_input (wr_workflow_data r) = Some False"
    if "r \<in> ?leaves" "wr_task_type r = WAIT" for r
    using that assms(2) by (cases "wd_needs_input (wr_workflow_data r)") (auto simp: set_leaves)
  have running: "?has (\<lambda>r. wr_status r = RUNNING) \<Longrightarrow>
      ?has (\<lambda>r. wr_task_type r = WAIT \<and> wr_status r = RUNNING
          \<and> wd_needs_input (wr_workflow_data r) = Some True)
      \<or> ?has (\<lambda>r. wr_task_type r \<noteq> WAIT \<and> wr_status r = RUNNING)
      \<or> ?has (\<lambda>r. wr_task_type r = WAIT \<and> wr_status r = RUNNING
          \<and> wd_needs_input (wr_workflow_data r) = Some False)"
    using waiting by blast
  have status: "wr_status r = PENDING \<or> wr_status r = BLOCKED \<or> wr_status r = RUNNING
      \<or> wr_status r = ABORTED \<or> wr_status r = COMPLETED" for r
    by (cases "wr_status r") simp_all
  show ?thesis
  proof (cases "\<forall>r\<in>?leaves. is_terminated r")
    case True
    then have no: "\<not> ?has (\<lambda>r. wr_status r = RUNNING)" "\<not> ?has (\<lambda>r. wr_status r = PENDING)"
      "\<not> ?has (\<lambda>r. wr_status r = BLOCKED)"
      by (auto simp: is_terminated_def)
    then have "compute_workflow_runtime_status d workflow =
        Inr (if ?has (\<lambda>r. wr_status r = ABORTED) then RtAborted else RtCompleted)"
      using assms(1) status
      by (simp add: compute_workflow_runtime_status_def Let_def list_ex_iff) blast
    moreover have "(\<forall>r\<in>?leaves. wr_status r = COMPLETED) \<longleftrightarrow> \<not> ?has (\<lambda>r. wr_status r = ABORTED)"
      using True by (fastforce simp: is_terminated_def)
    ultimately show ?thesis using True by auto
  next
    case False
    then have "?has (\<lambda>r. wr_status r = RUNNING) \<or> ?has (\<lambda>r. wr_status r = PENDING)
        \<or> ?has (\<lambda>r. wr_status r = BLOCKED)"
      using status by (fastforce simp: is_terminated_def)
    with running have "\<exists>s. compute_workflow_runtime_status d workflow = Inr s
        \<and> s \<noteq> RtCompleted \<and> s \<noteq> RtAborted"
      unfolding compute_workflow_runtime_status_def Let_def list_ex_iff
      by (subst if_not_P) (use assms(1) in simp, intro in_progress_status, blast)
    moreover from False have "\<not> (\<forall>r\<in>?leaves. wr_status r = COMPLETED)"
      by (auto simp: is_terminated_def)
    ultimately show ?thesis using False by blast
  qed
qed

text \<open>
  When every waiting task says whether it needs input (which
  \<open>WorkRequest.clean\<close> checks), the runtime status of a workflow is always
  defined: the final \<open>AssertionError\<close> is unreachable. It is "completed" exactly
  when every request below the workflow is, and "completed" or "aborted" exactly
  when every request below it has terminated.
\<close>

theorem runtime_status_defined:
  assumes "wr_task_type workflow = WORKFLOW"
    and "\<forall>r\<in>set (db_work_requests d). wr_task_type r = WAIT \<longrightarrow>
      wd_needs_input (wr_workflow_data r) \<noteq> None"
  shows "\<exists>s. compute_workflow_runtime_status d workflow = Inr s
    \<and> (s = RtCompleted \<longleftrightarrow> (\<forall>r\<in>set (workflow_flattened d (wr_id workflow) False True).
          wr_status r = COMPLETED))
    \<and> (s = RtCompleted \<or> s = RtAborted \<longleftrightarrow>
         (\<forall>r\<in>set (workflow_flattened d (wr_id workflow) False True). is_terminated r))"
  using assms by (rule runtime_status_total)

theorem runtime_status_defined_witness:
  "\<exists>s. compute_workflow_runtime_status (example_tree ABORTED COMPLETED)
        ((new_work_request 1 7)\<lparr>wr_task_type := WORKFLOW\<rparr>) = Inr s
    \<and> (s = RtCompleted \<or> s = RtAborted \<longleftrightarrow>
        (\<forall>r\<in>set (workflow_flattened (example_tree ABORTED COMPLETED) 1 False True). is_terminated r))"
  using runtime_status_defined [of "(new_work_request 1 7)\<lparr>wr_task_type := WORKFLOW\<rparr>"
      "example_tree ABORTED COMPLETED"]
  by (auto simp: example_tree_def new_work_request_def)

section \<open>Updating the summaries\<close>

lemma insort_key_map:
  "(\<And>x. f (g x) = f x) \<Longrightarrow> insort_key f (g x) (map g xs) = map g (insort_key f x xs)"
  by (induction xs) auto

lemma sort_key_map:
  "(\<And>x. f (g x) = f x) \<Longrightarrow> sort_key f (map g xs) = map g (sort_key f xs)"
  by (induction xs) (simp_all add: insort_key_map sort_key_def)

text \<open>An update of the rows that the summaries do not look at.\<close>

definition summary_update :: "(work_request \<Rightarrow> work_request) \<Rightarrow> bool" where
  "summary_update g \<longleftrightarrow> (\<forall>r. \<exists>a s. g r =
     r\<lparr>wr_workflow_last_activity_at := a, wr_workflow_runtime_status := s\<rparr>)"

lemma summary_update_fields:
  assumes "summary_update g"
  shows "wr_id (g r) = wr_id r" "wr_parent (g r) = wr_parent r"
    "wr_task_type (g r) = wr_task_type r" "wr_status (g r) = wr_status r"
    "wr_workflow_data (g r) = wr_workflow_data r" "wr_started_at (g r) = wr_started_at r"
    "wr_completed_at (g r) = wr_completed_at r"
    "wr_workflows_need_update (g r) = wr_workflows_need_update r"
  using assms [unfolded summary_update_def, rule_format, of r] by auto

lemma summaries_unchanged:
  assumes g: "summary_update g" and rows: "db_work_requests d' = map g (db_work_requests d)"
  shows "compute_workflow_runtime_status d' w = compute_workflow_runtime_status d w"
    and "compute_workflow_last_activity d' w = compute_workflow_last_activity d w"
proof -
  have "child_of d' = child_of d"
    by (auto simp: fun_eq_iff child_of_def rows summary_update_fields [OF g])
  moreover have "objects d' = map g (objects d)"
    by (simp add: objects_def rows sort_key_map summary_update_fields [OF g])
  moreover have "wr_id ` set (db_work_requests d') = wr_id ` set (db_work_requests d)"
    by (simp add: rows image_image summary_update_fields [OF g])
  ultimately have flat:
    "workflow_flattened d' i False True = map g (workflow_flattened d i False True)" for i
    by (simp add: workflow_flattened_def Let_def set_flattened_ids filter_map comp_def
        summary_update_fields [OF g])
  show "compute_workflow_runtime_status d' w = compute_workflow_runtime_status d w"
    by (simp only: compute_workflow_runtime_status_def flat list_ex_iff Let_def set_map bex_simps ball_simps
        summary_update_fields [OF g])
  have "fold (\<lambda>r acc. greatest acc (greatest (wr_started_at r) (wr_completed_at r))) (map g xs) a
      = fold (\<lambda>r acc. greatest acc (greatest (wr_started_at r) (wr_completed_at r))) xs a" for xs a
    by (induction xs arbitrary: a) (simp_all add: summary_update_fields [OF g])
  then show "compute_workflow_last_activity d' w = compute_workflow_last_activity d w"
    by (simp add: compute_workflow_last_activity_def flat)
qed

definition refreshed :: "db \<Rightarrow> work_request \<Rightarrow> work_request" where
  "refreshed d r = r\<lparr>wr_workflow_last_activity_at := compute_workflow_last_activity d r,
     wr_workflow_runtime_status :=
       (case compute_workflow_runtime_status d r of Inr s \<Rightarrow> Some s | Inl e \<Rightarrow> None)\<rparr>"

lemma changed_rows [simp]:
  "db_work_requests (work_request_changed auto d) = db_work_requests d"
  by (simp add: work_request_changed_def add_hook_def)

lemma put_wr_rows:
  "get_wr d (wr_id self) \<noteq> None \<Longrightarrow> db_work_requests (put_wr self d) =
     map (\<lambda>r. if wr_id r = wr_id self then self else r) (db_work_requests d)"
  by (simp add: put_wr_def tbl_upd_def)

text \<open>
  The loop of \<open>update_workflows\<close> over some workflows \<open>ws\<close> of \<open>d\<close>, started in a
  database \<open>e\<close> that differs from \<open>d\<close> in summaries only.
\<close>

lemma update_loop:
  assumes tree: "tree_ok d"
    and total: "\<And>w. w \<in> set ws \<Longrightarrow> w \<in> set (db_work_requests d) \<and> wr_task_type w = WORKFLOW
      \<and> (\<exists>s. compute_workflow_runtime_status d w = Inr s)"
    and g: "summary_update g" and rows: "db_work_requests e = map g (db_work_requests d)"
  shows "\<exists>e' h. for_each ws (update_workflow auto) e = (Inr (), e')
    \<and> db_work_requests e' = map h (db_work_requests d) \<and> summary_update h
    \<and> (\<forall>r\<in>set (db_work_requests d). h r = (if r \<in> set ws then refreshed d r else g r))"
  using total g rows
proof (induction ws arbitrary: e g)
  case Nil
  then show ?case by (auto simp: ret_def)
next
  case (Cons w ws)
  let ?rows = "db_work_requests d"
  from Cons.prems(1) [of w] obtain s where w: "w \<in> set ?rows" "wr_task_type w = WORKFLOW"
    and s: "compute_workflow_runtime_status d w = Inr s" by auto
  note fields = summary_update_fields [OF Cons.prems(2)]
  note same = summaries_unchanged [OF Cons.prems(2,3)]
  let ?e = "work_request_changed auto (put_wr (refreshed d w) e)"
  have step: "update_workflow auto w e = (Inr (), ?e)"
    using w(2) by (simp add: update_workflow_def act_defs save_wr_def same s refreshed_def)
  let ?g = "\<lambda>r. if wr_id r = wr_id w then
      r\<lparr>wr_workflow_last_activity_at := wr_workflow_last_activity_at (refreshed d w),
        wr_workflow_runtime_status := wr_workflow_runtime_status (refreshed d w)\<rparr> else g r"
  have upd: "summary_update ?g"
    using Cons.prems(2) unfolding summary_update_def by auto
  have unique: "r = w" if "r \<in> set ?rows" "wr_id r = wr_id w" for r
    using that w(1) tree by (auto simp: tree_ok_def distinct_map dest: inj_onD)
  have "w \<in> set ?rows" by fact
  then have "get_wr e (wr_id w) \<noteq> None"
    by (auto simp: get_wr_def tbl_get_None Cons.prems(3) fields)
  moreover have id: "wr_id (refreshed d w) = wr_id w" by (simp add: refreshed_def)
  ultimately have rows: "db_work_requests ?e = map ?g ?rows"
    using unique by (auto simp: put_wr_rows Cons.prems(3) fields refreshed_def)
  have "\<And>v. v \<in> set ws \<Longrightarrow> v \<in> set ?rows \<and> wr_task_type v = WORKFLOW
      \<and> (\<exists>s. compute_workflow_runtime_status d v = Inr s)"
    using Cons.prems(1) by simp
  from Cons.IH [OF this upd rows] obtain e' h where
    h: "for_each ws (update_workflow auto) ?e = (Inr (), e')"
      "db_work_requests e' = map h ?rows" "summary_update h"
      "\<forall>r\<in>set ?rows. h r = (if r \<in> set ws then refreshed d r else ?g r)" by blast
  have "\<forall>r\<in>set ?rows. h r = (if r \<in> set (w # ws) then refreshed d r else g r)"
  proof
    fix r assume r: "r \<in> set ?rows"
    show "h r = (if r \<in> set (w # ws) then refreshed d r else g r)"
    proof (cases "r = w")
      case True
      with h(4) r show ?thesis by (auto simp: refreshed_def)
    next
      case False
      with unique [OF r] h(4) r show ?thesis by auto
    qed
  qed
  moreover have "for_each (w # ws) (update_workflow auto) e = (Inr (), e')"
    using h(1) step by (simp add: seq_act_def bind_act_def)
  ultimately show ?case using h(2,3) by blast
qed

text \<open>
  C30: \<open>update_workflows\<close> does its job once: it succeeds, clears the flag of every
  work request, refreshes the last activity and the runtime status of exactly
  the workflows that contain a flagged request (at any depth), computing both on
  the database as it was before, and changes nothing else in any row.
\<close>

theorem update_workflows_refreshes:
  assumes "tree_ok d"
    and "\<forall>r\<in>set (db_work_requests d). wr_task_type r = WAIT \<longrightarrow>
      wd_needs_input (wr_workflow_data r) \<noteq> None"
  shows "\<exists>d'. update_workflows auto d = (Inr (), d') \<and> db_work_requests d' =
    map (\<lambda>r. (if wr_task_type r = WORKFLOW \<and> (\<exists>x\<in>set (db_work_requests d).
                  wr_workflows_need_update x \<and> (child_of d)\<^sup>*\<^sup>* (wr_id r) (wr_id x))
              then refreshed d r else r)\<lparr>wr_workflows_need_update := False\<rparr>)
      (db_work_requests d)"
proof -
  let ?rows = "db_work_requests d"
  let ?ids = "map wr_id (workflow_ancestors d (filter wr_workflows_need_update (objects d)))"
  obtain workflows where def: "workflows = filter (\<lambda>r. wr_id r \<in> set ?ids) (objects d)" by blast
  have ws: "r \<in> set workflows \<longleftrightarrow> r \<in> set ?rows \<and> wr_task_type r = WORKFLOW \<and> (\<exists>x\<in>set ?rows.
      wr_workflows_need_update x \<and> (child_of d)\<^sup>*\<^sup>* (wr_id r) (wr_id x))" for r
  proof -
    have "r = q" if "r \<in> set ?rows" "q \<in> set ?rows" "wr_id r = wr_id q" for q
      using that assms(1) by (auto simp: tree_ok_def distinct_map dest: inj_onD)
    then show ?thesis
      by (auto simp: def workflow_ancestors_def set_ancestor_ids [OF assms(1)])
  qed
  have "id r = r\<lparr>wr_workflow_last_activity_at := wr_workflow_last_activity_at r,
      wr_workflow_runtime_status := wr_workflow_runtime_status r\<rparr>" for r :: work_request
    by simp
  then have "summary_update id" unfolding summary_update_def by blast
  moreover have "?rows = map id ?rows" by simp
  moreover have "w \<in> set ?rows \<and> wr_task_type w = WORKFLOW
      \<and> (\<exists>s. compute_workflow_runtime_status d w = Inr s)" if "w \<in> set workflows" for w
    using that [unfolded ws] runtime_status_total [OF _ assms(2)] by blast
  ultimately obtain e' h where h: "for_each workflows (update_workflow auto) d = (Inr (), e')"
    "db_work_requests e' = map h ?rows" "summary_update h"
    "\<forall>r\<in>set ?rows. h r = (if r \<in> set workflows then refreshed d r else id r)"
    using update_loop [OF assms(1), of workflows id d auto] by blast
  have "update_workflows auto d = (Inr (), clear_need_update e')"
    using h(1) by (simp add: update_workflows_def Let_def act_defs def)
  moreover have "(if wr_workflows_need_update r then r\<lparr>wr_workflows_need_update := False\<rparr> else r) =
      r\<lparr>wr_workflows_need_update := False\<rparr>" for r :: work_request by simp
  ultimately show ?thesis
    using h(2,4) ws by (auto simp: clear_need_update_def)
qed

theorem update_workflows_refreshes_witness:
  "\<exists>d'. update_workflows True (example_tree PENDING BLOCKED) = (Inr (), d')
    \<and> map wr_workflows_need_update (db_work_requests d') = [False, False, False, False]"
proof -
  have "\<forall>r\<in>set (db_work_requests (example_tree PENDING BLOCKED)). wr_task_type r = WAIT \<longrightarrow>
      wd_needs_input (wr_workflow_data r) \<noteq> None"
    by (simp add: example_tree_def new_work_request_def)
  from update_workflows_refreshes [OF example_tree_ok this, of True] show ?thesis
    by (auto simp: example_tree_def)
qed

end
