(* ===== verification/Lifecycle.thy ===== *)
theory Lifecycle
  imports Hierarchy Inheritance
begin

text \<open>
  The life cycle of a work request: every method of \<open>WorkRequest\<close>
  (debusine/db/models/work_requests.py) that changes the database. The methods
  call each other in a circle (completing a request unblocks others, processes
  event reactions and may finish the workflow around it, which completes that
  one). Each method is a definition that takes the recursive calls as an
  argument \<open>rc\<close>, a function on the datatype \<open>call\<close>; \<open>run\<close> ties the knot,
  with a bound on the depth of the calls.

  A method works on a Python instance, not on a row: an instance holds the
  columns as they were when it was loaded, \<open>save\<close> writes all of them back, and
  its foreign key \<open>parent\<close> is loaded when it is first looked at and cached from
  then on. A method therefore takes the instance it is called on and returns it
  as the method leaves it.
\<close>

section \<open>Instances\<close>

datatype inst = Inst (row: work_request) (cached_parent: "inst option")

definition fresh :: "work_request \<Rightarrow> inst" where
  "fresh r = Inst r None"

definition upd :: "(work_request \<Rightarrow> work_request) \<Rightarrow> inst \<Rightarrow> inst" where
  "upd f self = Inst (f (row self)) (cached_parent self)"

definition set_parent :: "inst \<Rightarrow> inst \<Rightarrow> inst" where
  "set_parent p self = Inst (row self) (Some p)"

text \<open>\<open>self.parent\<close>: the instance with its cache filled, and the parent.\<close>

definition parent_of :: "inst \<Rightarrow> (inst \<times> inst option) dbact" where
  "parent_of self =
     (case wr_parent (row self) of
        None \<Rightarrow> ret (self, None)
      | Some p \<Rightarrow>
          (case cached_parent self of
             Some q \<Rightarrow> ret (self, Some q)
           | None \<Rightarrow> with_db (\<lambda>d.
               case get_wr d p of
                 None \<Rightarrow> raise (DoesNotExist ''WorkRequest'')
               | Some r \<Rightarrow> ret (set_parent (fresh r) self, Some (fresh r)))))"

text \<open>\<open>get_workflow_root\<close> on an instance, which loads and caches every ancestor.\<close>

primrec load_root :: "nat \<Rightarrow> inst \<Rightarrow> (inst \<times> inst) dbact" where
  "load_root 0 self = raise OutOfFuel"
| "load_root (Suc n) self = bind_act (parent_of self) (\<lambda>(self, p).
     case p of
       None \<Rightarrow> ret (self, self)
     | Some q \<Rightarrow> bind_act (load_root n q) (\<lambda>(q, root). ret (set_parent q self, root)))"

definition workflow_root :: "inst \<Rightarrow> (inst \<times> inst option) dbact" where
  "workflow_root self =
     (if \<not> is_workflow (row self) \<and> \<not> is_part_of_workflow (row self) then ret (self, None)
      else with_db (\<lambda>d. bind_act (load_root (Suc (length (db_work_requests d))) self)
        (\<lambda>(self, root). ret (self, Some root))))"

section \<open>What the methods rely on\<close>

record found_item =
  fo_collection_item :: "collection_item option"
  fo_artifact :: "pk option"
  fo_collection :: "pk option"

text \<open>
  The parameters of the model: the clock and the settings, the application
  context, the registry of tasks and workflows (what \<open>get_task\<close> and its
  methods answer), the orchestrators, and the subsystems the event reactions
  call: lookups, artifacts, collection managers, notification channels.
\<close>

record env =
  env_now :: time
  env_auto :: bool \<comment> \<open>not \<open>DISABLE_AUTOMATIC_SCHEDULING\<close>\<close>
  env_context :: app_context
  env_task_reactions :: "db \<Rightarrow> work_request \<Rightarrow> event_name \<Rightarrow> event_reaction list option"
    \<comment> \<open>\<open>get_task().get_event_reactions(event)\<close>, \<open>None\<close> when \<open>get_task\<close> raises\<close>
  env_task_subject :: "db \<Rightarrow> work_request \<Rightarrow> (string option \<times> string option) option"
    \<comment> \<open>subject and runtime context of the dynamic data of \<open>get_task()\<close>\<close>
  env_can_satisfy_dynamic_data :: "db \<Rightarrow> work_request \<Rightarrow> bool"
  env_task_exists :: "task_type \<Rightarrow> string \<Rightarrow> bool"
  env_task_config_ok :: "task_type \<Rightarrow> string \<Rightarrow> (string \<times> json) list \<Rightarrow> bool"
  env_configure :: "db \<Rightarrow> worker \<Rightarrow> work_request \<Rightarrow> work_request res"
    \<comment> \<open>\<open>configure_for_worker\<close>: fills the configured and dynamic task data\<close>
  env_orchestrate :: "inst \<Rightarrow> db \<Rightarrow> exn option \<times> inst \<times> db"
    \<comment> \<open>\<open>orchestrate_workflow\<close>: what it raised, the instance as it left it, the database\<close>
  env_lookup :: "db \<Rightarrow> string \<Rightarrow> pk \<Rightarrow> pk \<Rightarrow> work_request option \<Rightarrow> bool \<Rightarrow> found_item res"
    \<comment> \<open>lookup, workspace, user, workflow root, whether a collection is expected\<close>
  env_manager :: "db \<Rightarrow> pk \<Rightarrow> unit res"
  env_artifacts :: "db \<Rightarrow> pk \<Rightarrow> (string \<times> json) list \<Rightarrow> (pk \<times> (string \<times> json) list) list option"
    \<comment> \<open>the artifacts of a work request that pass the filters, \<open>None\<close> for a \<open>FieldError\<close>\<close>
  env_expand_variables :: "(string \<times> json) list \<Rightarrow> (string \<times> json) list \<Rightarrow> (string \<times> json) list res"
  env_expand_name :: "string \<Rightarrow> (string \<times> json) list \<Rightarrow> string res"
  env_add_artifact :: "pk \<Rightarrow> pk \<Rightarrow> pk \<Rightarrow> pk option \<Rightarrow> (string \<times> json) list \<Rightarrow> string option \<Rightarrow>
    time option \<Rightarrow> unit dbact"
    \<comment> \<open>collection, artifact, user, workflow, variables, name, creation time\<close>
  env_add_bare_data :: "pk \<Rightarrow> string \<Rightarrow> pk \<Rightarrow> pk option \<Rightarrow> (string \<times> json) list \<Rightarrow>
    string option \<Rightarrow> bool \<Rightarrow> time option \<Rightarrow> unit dbact"
    \<comment> \<open>collection, category, user, workflow, data, name, replace, creation time\<close>
  env_token_hash :: "db \<Rightarrow> string" \<comment> \<open>the hash of a newly generated key\<close>
  env_channels :: "string list" \<comment> \<open>the notification channels there are (all of them email)\<close>

datatype retry_reason = WORKER_FAILED | DELAY | MANUAL_RETRY

datatype call =
    MarkCompleted inst result "output_data option"
  | MarkPending inst
  | MarkAborted inst "pk option"
  | MaybeFinish inst
  | Reactions inst event_name
  | Retry app_context inst retry_reason

type_synonym calls = "call \<Rightarrow> (bool \<times> inst) dbact"

section \<open>Saving\<close>

text \<open>
  An instance that is not in the database yet has no primary key, 0 in the
  model; the first \<open>save\<close> processes its creation events before it is inserted,
  with the next free key.
\<close>

definition insert_wr :: "env \<Rightarrow> inst \<Rightarrow> inst dbact" where
  "insert_wr e self = with_db (\<lambda>d.
     let self = upd (\<lambda>r. r\<lparr>wr_id := tbl_next wr_id (db_work_requests d),
                          wr_created_at := env_now e\<rparr>) self
     in seq_act (save_wr (env_auto e) (row self)) (ret self))"

definition save :: "env \<Rightarrow> calls \<Rightarrow> inst \<Rightarrow> inst dbact" where
  "save e rc self =
     (if wr_id (row self) = 0 then
        bind_act (rc (Reactions self On_creation)) (\<lambda>(_, self).
          if wr_id (row self) = 0 then insert_wr e self
          else seq_act (save_wr (env_auto e) (row self)) (ret self))
      else seq_act (save_wr (env_auto e) (row self)) (ret self))"

definition schedule_workflow_update :: "env \<Rightarrow> calls \<Rightarrow> inst \<Rightarrow> inst dbact" where
  "schedule_workflow_update e rc self = bind_act (parent_of self) (\<lambda>(self, p).
     case p of
       None \<Rightarrow> ret self
     | Some _ \<Rightarrow>
         bind_act (save e rc (upd (\<lambda>r. r\<lparr>wr_workflows_need_update := True\<rparr>) self)) (\<lambda>self.
           seq_act (modify_db (add_hook UpdateWorkflows)) (ret self)))"

section \<open>Progress of one work request\<close>

definition mark_running :: "env \<Rightarrow> calls \<Rightarrow> inst \<Rightarrow> (bool \<times> inst) dbact" where
  "mark_running e rc self =
     (if wr_task_type (row self) \<in> {WORKER, SERVER, SIGNING} \<and> wr_worker (row self) = None
      then ret (False, self)
      else if wr_status (row self) = RUNNING then ret (True, self)
      else if wr_status (row self) \<noteq> PENDING then ret (False, self)
      else with_db (\<lambda>d.
        let start = bind_act (save e rc (upd (\<lambda>r. r\<lparr>wr_started_at := Some (env_now e),
                                                  wr_status := RUNNING\<rparr>) self)) (\<lambda>self.
                      bind_act (schedule_workflow_update e rc self) (\<lambda>self. ret (True, self)))
        in case wr_worker (row self) of
             None \<Rightarrow> start
           | Some w \<Rightarrow>
               (case get_worker d w of
                  None \<Rightarrow> raise (DoesNotExist ''Worker'')
                | Some worker \<Rightarrow>
                    if wk_concurrency worker \<le> length (running (objects d) (Some w))
                    then ret (False, self)
                    else start)))"

definition merge :: "output_data \<Rightarrow> output_data \<Rightarrow> output_data" where
  "merge self other =
     (let merged = self;
          merged = (case od_runtime_statistics other of None \<Rightarrow> merged
                    | Some v \<Rightarrow> merged\<lparr>od_runtime_statistics := Some v\<rparr>);
          merged = (case od_errors other of None \<Rightarrow> merged
                    | Some v \<Rightarrow> merged\<lparr>od_errors := Some v\<rparr>);
          merged = (case od_skip_reason other of None \<Rightarrow> merged
                    | Some v \<Rightarrow> merged\<lparr>od_skip_reason := Some v\<rparr>)
      in case od_regression_analysis other of None \<Rightarrow> merged
         | Some v \<Rightarrow> merged\<lparr>od_regression_analysis := Some v\<rparr>)"

text \<open>The duration in some output data, if its runtime statistics hold one.\<close>

definition output_duration :: "output_data option \<Rightarrow> int option" where
  "output_duration out =
     (case out of
        Some od \<Rightarrow> (case od_runtime_statistics od of
                      Some (Some stats) \<Rightarrow> rs_duration stats | _ \<Rightarrow> None)
      | None \<Rightarrow> None)"

definition record_statistics :: "env \<Rightarrow> inst \<Rightarrow> output_data option \<Rightarrow> unit dbact" where
  "record_statistics e self out = with_db (\<lambda>d.
     case (output_duration out, wr_worker (row self)) of
       (Some duration, Some w) \<Rightarrow>
         (case get_worker d w of
            None \<Rightarrow> raise (DoesNotExist ''Worker'')
          | Some worker \<Rightarrow>
              (case wk_worker_pool worker of
                 None \<Rightarrow> ret ()
               | Some pool \<Rightarrow>
                   (case get_workspace d (wr_workspace (row self)) of
                      None \<Rightarrow> raise (DoesNotExist ''Workspace'')
                    | Some ws \<Rightarrow> modify_db (\<lambda>d. d\<lparr>db_execution_statistics :=
                        db_execution_statistics d @
                          [\<lparr>es_worker_pool = pool, es_worker = Some w, es_scope = ws_scope ws,
                            es_timestamp = env_now e, es_runtime = duration\<rparr>]\<rparr>))))
     | _ \<Rightarrow> ret ())"

definition unblock_reverse_dependencies :: "calls \<Rightarrow> inst \<Rightarrow> unit dbact" where
  "unblock_reverse_dependencies rc self = with_db (\<lambda>d.
     let rdeps = wr_reverse_dependencies d (wr_id (row self)) in
     if wr_result (row self) \<in> {SUCCESS, SKIPPED} \<or> wd_allow_failure (wr_workflow_data (row self))
     then for_each (can_be_automatically_unblocked_qs d rdeps)
            (\<lambda>r. bind_act (rc (MarkPending (fresh r))) (\<lambda>_. ret ()))
     else for_each (filter (\<lambda>r. wr_status r = BLOCKED) rdeps)
            (\<lambda>r. bind_act (rc (MarkAborted (fresh r) None)) (\<lambda>_. ret ())))"

definition finish_parent :: "calls \<Rightarrow> inst \<Rightarrow> inst dbact" where
  "finish_parent rc self = bind_act (parent_of self) (\<lambda>(self, p).
     case p of
       None \<Rightarrow> ret self
     | Some q \<Rightarrow> bind_act (rc (MaybeFinish q)) (\<lambda>(_, q). ret (set_parent q self)))"

definition mark_completed ::
  "env \<Rightarrow> calls \<Rightarrow> inst \<Rightarrow> result \<Rightarrow> output_data option \<Rightarrow> (bool \<times> inst) dbact" where
  "mark_completed e rc self result output_data =
     (if wr_status (row self) \<notin> {PENDING, RUNNING} then ret (False, self)
      else if result = NONE then raise (AssertionError ''result cannot be NONE'')
      else
        let self = upd (\<lambda>r. r\<lparr>wr_result := result, wr_completed_at := Some (env_now e),
                             wr_status := COMPLETED\<rparr>) self;
            self = (case output_data of
                      None \<Rightarrow> self
                    | Some out \<Rightarrow> upd (\<lambda>r. r\<lparr>wr_output_data := Some
                        (case wr_output_data r of None \<Rightarrow> out | Some own \<Rightarrow> merge own out)\<rparr>) self)
        in bind_act (save e rc self) (\<lambda>self.
           seq_act (record_statistics e self output_data)
           (bind_act (schedule_workflow_update e rc self) (\<lambda>self.
           seq_act (unblock_reverse_dependencies rc self)
           (bind_act (case wr_result (row self) of
                        SUCCESS \<Rightarrow> rc (Reactions self On_success)
                      | FAILURE \<Rightarrow> rc (Reactions self On_failure)
                      | ERROR \<Rightarrow> rc (Reactions self On_failure)
                      | SKIPPED \<Rightarrow> ret (True, self)
                      | NONE \<Rightarrow> raise (AssertionError [])) (\<lambda>(_, self).
           bind_act (finish_parent rc self) (\<lambda>self. ret (True, self))))))))"

definition mark_pending :: "env \<Rightarrow> calls \<Rightarrow> inst \<Rightarrow> (bool \<times> inst) dbact" where
  "mark_pending e rc self =
     (if wr_status (row self) \<noteq> BLOCKED then ret (False, self)
      else bind_act (save e rc (upd (\<lambda>r. r\<lparr>wr_status := PENDING\<rparr>) self)) (\<lambda>self.
           bind_act (schedule_workflow_update e rc self) (\<lambda>self.
           bind_act (rc (Reactions self On_unblock)) (\<lambda>(_, self). ret (True, self)))))"

definition mark_aborted ::
  "env \<Rightarrow> calls \<Rightarrow> inst \<Rightarrow> pk option \<Rightarrow> (bool \<times> inst) dbact" where
  "mark_aborted e rc self user =
     bind_act (save e rc (upd (\<lambda>r. r\<lparr>wr_aborted_by := user, wr_completed_at := Some (env_now e),
                                    wr_status := ABORTED\<rparr>) self)) (\<lambda>self.
     seq_act (unblock_reverse_dependencies rc self)
     (bind_act (finish_parent rc self) (\<lambda>self.
      bind_act (schedule_workflow_update e rc self) (\<lambda>self. ret (True, self)))))"

section \<open>Workflows\<close>

definition maybe_finish_workflow :: "env \<Rightarrow> calls \<Rightarrow> inst \<Rightarrow> (bool \<times> inst) dbact" where
  "maybe_finish_workflow e rc self = with_db (\<lambda>d.
     if wr_task_type (row self) \<noteq> WORKFLOW \<or> wr_status (row self) \<noteq> RUNNING
        \<or> has_children_in_progress d (wr_id (row self))
     then ret (False, self)
     else
       let children = unsuperseded d (wr_children d (wr_id (row self))) in
       if list_ex (\<lambda>r. wr_status r \<noteq> COMPLETED) children
       then bind_act (rc (MarkAborted self None)) (\<lambda>(_, self). ret (True, self))
       else if list_ex (\<lambda>r. \<not> (wr_result r \<in> {SUCCESS, SKIPPED}
                              \<or> wd_allow_failure (wr_workflow_data r))) children
       then bind_act (rc (MarkCompleted self FAILURE None)) (\<lambda>(_, self). ret (True, self))
       else bind_act (rc (MarkCompleted self SUCCESS None)) (\<lambda>(_, self). ret (True, self)))"

definition unblock_workflow_children :: "calls \<Rightarrow> inst \<Rightarrow> unit dbact" where
  "unblock_workflow_children rc self = with_db (\<lambda>d.
     for_each (can_be_automatically_unblocked_qs d (wr_children d (wr_id (row self))))
       (\<lambda>r. bind_act (rc (MarkPending (set_parent self (fresh r)))) (\<lambda>_. ret ())))"

text \<open>\<open>add_dependency\<close>; both instances come back with the ancestors they loaded.\<close>

definition depend_on :: "env \<Rightarrow> calls \<Rightarrow> inst \<Rightarrow> inst \<Rightarrow> (inst \<times> inst) dbact" where
  "depend_on e rc self dependency =
     (let i = wr_id (row self); j = wr_id (row dependency)
      in seq_act (modify_db (\<lambda>d. if (i, j) \<in> set (db_dependencies d) then d
                             else d\<lparr>db_dependencies := db_dependencies d @ [(i, j)]\<rparr>))
           (bind_act (save e rc
              (if wr_status (row self) = PENDING \<and> wr_unblock_strategy (row self) = DEPS
                  \<and> wr_status (row dependency) \<noteq> COMPLETED
               then upd (\<lambda>r. r\<lparr>wr_status := BLOCKED\<rparr>) self else self))
             (\<lambda>self. ret (self, dependency))))"

definition add_dependency :: "env \<Rightarrow> calls \<Rightarrow> inst \<Rightarrow> inst \<Rightarrow> (inst \<times> inst) dbact" where
  "add_dependency e rc self dependency =
     (if is_part_of_workflow (row self) then
        bind_act (workflow_root self) (\<lambda>(self, my_root).
          case my_root of
            None \<Rightarrow> raise (AssertionError [])
          | Some root \<Rightarrow>
              bind_act (workflow_root dependency) (\<lambda>(dependency, its_root).
                if map_option (\<lambda>q. wr_id (row q)) its_root \<noteq> Some (wr_id (row root))
                then raise (ValueError ''Work requests in a workflow may not depend on other work requests outside that workflow'')
                else depend_on e rc self dependency))
      else depend_on e rc self dependency)"

section \<open>Creating work requests\<close>

primrec json_truthy :: "json \<Rightarrow> bool" where
  "json_truthy JNull = False"
| "json_truthy (JBool b) = b"
| "json_truthy (JInt i) = (i \<noteq> 0)"
| "json_truthy (JStr s) = (s \<noteq> [])"
| "json_truthy (JList l) = (l \<noteq> [])"
| "json_truthy (JObj m) = (m \<noteq> [])"

text \<open>\<open>WorkRequest.clean\<close>, with the registry of task classes as a parameter.\<close>

definition clean :: "env \<Rightarrow> work_request \<Rightarrow> unit res" where
  "clean e self =
     (if wr_task_type self = INTERNAL then
        (if wr_task_name self \<in> {''synchronization_point'', ''workflow''} then Inr ()
         else Inl (ValidationError ''invalid task name for internal task''))
      else if \<not> env_task_exists e (wr_task_type self) (wr_task_name self)
      then Inl (ValidationError ''invalid task name'')
      else if \<not> env_task_config_ok e (wr_task_type self) (wr_task_name self) (wr_task_data self)
      then Inl (ValidationError ''invalid task data'')
      else if wr_task_type self = WAIT \<and> wd_needs_input (wr_workflow_data self) = None
      then Inl (ValidationError ''WAIT tasks must specify needs_input'')
      else Inr ())"

text \<open>The columns of a new row that \<open>objects.create\<close> is not told.\<close>

definition blank_row :: "pk \<Rightarrow> pk \<Rightarrow> work_request" where
  "blank_row workspace user = \<lparr>wr_id = 0, wr_workspace = workspace, wr_created_at = 0,
     wr_started_at = None, wr_completed_at = None, wr_workflow_last_activity_at = None,
     wr_created_by = user, wr_aborted_by = None, wr_status = PENDING,
     wr_workflow_runtime_status = None, wr_workflows_need_update = False, wr_result = NONE,
     wr_worker = None, wr_task_type = WORKER, wr_task_name = [], wr_task_data = [],
     wr_dynamic_task_data = None, wr_priority_base = 0, wr_priority_adjustment = 0,
     wr_output_data = None, wr_unblock_strategy = DEPS, wr_parent = None,
     wr_workflow_template = None, wr_workflow_data = default_workflow_data,
     wr_event_reactions = no_event_reactions, wr_internal_collection = None,
     wr_expiration_delay = None, wr_supersedes = None, wr_configured_task_data = None,
     wr_version = 0\<rparr>"

definition child_task_data :: "work_request \<Rightarrow> (string \<times> json) list \<Rightarrow> (string \<times> json) list" where
  "child_task_data self task_data =
     (if map_of task_data ''task_configuration'' = None then
        (case map_of (wr_task_data self) ''task_configuration'' of
           None \<Rightarrow> task_data
         | Some c \<Rightarrow> if json_truthy c then dict_set ''task_configuration'' c task_data else task_data)
      else task_data)"

text \<open>\<open>create_child\<close>: the workflow instance as it leaves it, and the new child.\<close>

definition create_child ::
  "env \<Rightarrow> calls \<Rightarrow> inst \<Rightarrow> string \<Rightarrow> status \<Rightarrow> task_type \<Rightarrow> (string \<times> json) list \<Rightarrow>
     workflow_data option \<Rightarrow> event_reactions option \<Rightarrow> int \<Rightarrow> (inst \<times> inst) dbact" where
  "create_child e rc self task_name status task_type task_data workflow_data event_reactions
       relative_priority =
     (if wr_task_type (row self) \<noteq> WORKFLOW
      then raise (ValueError ''Only workflows may have child work requests.'')
      else
        let r = (blank_row (wr_workspace (row self)) (wr_created_by (row self)))
              \<lparr>wr_parent := Some (wr_id (row self)), wr_status := status, wr_task_type := task_type,
               wr_task_name := task_name, wr_task_data := child_task_data (row self) task_data,
               wr_priority_base := priority_effective (row self) + relative_priority,
               wr_workflow_data := (case workflow_data of None \<Rightarrow> default_workflow_data | Some w \<Rightarrow> w),
               wr_event_reactions :=
                 (case event_reactions of None \<Rightarrow> no_event_reactions | Some x \<Rightarrow> x)\<rparr>
        in bind_act (save e rc (Inst r (Some self))) (\<lambda>child.
           seq_act (lift_res (clean e (row child)))
           (with_db (\<lambda>d.
              bind_act (lift_res (compute_workflow_runtime_status d (row self))) (\<lambda>s.
              bind_act (save e rc (upd (\<lambda>r. r\<lparr>wr_workflow_runtime_status := Some s\<rparr>) self)) (\<lambda>self.
                ret (self, set_parent self child)))))))"

definition create_workflow_callback ::
  "env \<Rightarrow> calls \<Rightarrow> inst \<Rightarrow> string \<Rightarrow> string option \<Rightarrow> status option \<Rightarrow> bool \<Rightarrow> inst dbact" where
  "create_workflow_callback e rc parent step display_name status visible =
     save e rc (Inst
       ((blank_row (wr_workspace (row parent)) (wr_created_by (row parent)))
          \<lparr>wr_parent := Some (wr_id (row parent)),
           wr_status := (case status of None \<Rightarrow> PENDING | Some s \<Rightarrow> s),
           wr_task_type := INTERNAL, wr_task_name := ''workflow'',
           wr_priority_base := priority_effective (row parent),
           wr_workflow_data := default_workflow_data\<lparr>wd_step := Some step,
             wd_display_name := Some (case display_name of Some n \<Rightarrow> (if n = [] then step else n)
                                      | None \<Rightarrow> step),
             wd_visible := visible\<rparr>\<rparr>) (Some parent))"

definition create_synchronization_point ::
  "env \<Rightarrow> calls \<Rightarrow> inst \<Rightarrow> string \<Rightarrow> string option \<Rightarrow> status option \<Rightarrow> inst dbact" where
  "create_synchronization_point e rc parent step display_name status =
     save e rc (Inst
       ((blank_row (wr_workspace (row parent)) (wr_created_by (row parent)))
          \<lparr>wr_parent := Some (wr_id (row parent)),
           wr_status := (case status of None \<Rightarrow> PENDING | Some s \<Rightarrow> s),
           wr_task_type := INTERNAL, wr_task_name := ''synchronization_point'',
           wr_priority_base := priority_effective (row parent),
           wr_workflow_data := default_workflow_data\<lparr>wd_step := Some step,
             wd_display_name := Some (case display_name of Some n \<Rightarrow> (if n = [] then step else n)
                                      | None \<Rightarrow> step)\<rparr>\<rparr>) (Some parent))"

section \<open>Event reactions\<close>

definition event_actions :: "event_name \<Rightarrow> event_reactions \<Rightarrow> event_reaction list" where
  "event_actions event r =
     (case event of
        On_creation \<Rightarrow> er_on_creation r | On_unblock \<Rightarrow> er_on_unblock r
      | On_assignment \<Rightarrow> er_on_assignment r | On_success \<Rightarrow> er_on_success r
      | On_failure \<Rightarrow> er_on_failure r)"

text \<open>\<open>BaseTask.get_event_reactions\<close>, which no class of tasks overrides.\<close>

definition task_event_reactions :: "event_name \<Rightarrow> event_reaction list" where
  "task_event_reactions event =
     (if event \<in> {On_success, On_failure} then [ActionRecordInTaskHistory None None] else [])"

text \<open>\<open>get_triggered_actions\<close>; the grouping by type is the filters below.\<close>

definition get_triggered_actions :: "env \<Rightarrow> db \<Rightarrow> work_request \<Rightarrow> event_name \<Rightarrow> event_reaction list" where
  "get_triggered_actions e d self event =
     (case env_task_reactions e d self event of None \<Rightarrow> [] | Some rs \<Rightarrow> rs)
     @ event_actions event (wr_event_reactions self)"

definition is_lookup_error :: "exn \<Rightarrow> bool" where
  "is_lookup_error x = (case x of LookupError _ \<Rightarrow> True | KeyError _ \<Rightarrow> True | IndexError \<Rightarrow> True | _ \<Rightarrow> False)"

definition is_key_error :: "exn \<Rightarrow> bool" where
  "is_key_error x = (case x of KeyError _ \<Rightarrow> True | _ \<Rightarrow> False)"

definition is_item_error :: "exn \<Rightarrow> bool" where
  "is_item_error x = (case x of ItemAdditionError _ \<Rightarrow> True | ItemRemovalError _ \<Rightarrow> True | _ \<Rightarrow> False)"

definition log_item_error :: "exn \<Rightarrow> unit dbact" where
  "log_item_error x = (if is_item_error x then ret () else raise x)"

text \<open>The promise of a skipped request is resolved with what the lookup found.\<close>

definition resolve_promise ::
  "env \<Rightarrow> inst \<Rightarrow> work_request option \<Rightarrow> found_item option \<Rightarrow> string option \<Rightarrow> unit dbact" where
  "resolve_promise e self root result promise_name =
     (case (promise_name, root, result) of
        (Some name, Some root, Some res) \<Rightarrow>
          (case fo_collection_item res of
             None \<Rightarrow> ret ()
           | Some item \<Rightarrow>
               (case wr_internal_collection root of
                  None \<Rightarrow> raise (AssertionError [])
                | Some internal \<Rightarrow>
                    (case fo_artifact res of
                       Some artifact \<Rightarrow>
                         env_add_artifact e internal artifact (wr_created_by (row self))
                           (wr_parent (row self)) (ci_data item) (Some name) None
                     | None \<Rightarrow>
                         env_add_bare_data e internal (ci_category item) (wr_created_by (row self))
                           (wr_parent (row self)) (ci_data item) (Some name) True None)))
      | _ \<Rightarrow> ret ())"

primrec skip_loop ::
  "env \<Rightarrow> calls \<Rightarrow> work_request option \<Rightarrow> event_reaction list \<Rightarrow> inst \<Rightarrow> bool \<Rightarrow>
     (inst \<times> bool) dbact" where
  "skip_loop e rc root [] self should_skip = ret (self, should_skip)"
| "skip_loop e rc root (skip # actions) self should_skip =
     (case skip of
        ActionSkipIfLookupResultChanged lookup collection_item_id promise_name \<Rightarrow>
          with_db (\<lambda>d.
            let found = env_lookup e d lookup (wr_workspace (row self)) (wr_created_by (row self))
                          root False;
                proceed = (\<lambda>result.
                  if map_option ci_id (Option.bind result fo_collection_item) = collection_item_id
                  then skip_loop e rc root actions self should_skip
                  else bind_act (rc (MarkCompleted self SKIPPED (Some (empty_output_data
                         \<lparr>od_skip_reason := Some (Some (''Result of lookup '' @ lookup @ '' changed''))\<rparr>))))
                       (\<lambda>(_, self). seq_act (resolve_promise e self root result promise_name)
                          (skip_loop e rc root actions self True)))
            in case found of
                 Inr res \<Rightarrow> proceed (Some res)
               | Inl x \<Rightarrow> if is_key_error x then proceed None
                          else if is_lookup_error x
                          then skip_loop e rc root actions self should_skip
                          else raise x)
      | _ \<Rightarrow> raise (AssertionError []))"

definition process_skip_if_lookup_result_changed ::
  "env \<Rightarrow> calls \<Rightarrow> event_reaction list \<Rightarrow> inst \<Rightarrow> inst dbact" where
  "process_skip_if_lookup_result_changed e rc actions self =
     bind_act (workflow_root self) (\<lambda>(self, root).
       bind_act (skip_loop e rc (map_option row root) actions self False) (\<lambda>(self, should_skip).
         if should_skip then raise SkipWorkRequest else ret self))"

definition send_notification :: "env \<Rightarrow> inst \<Rightarrow> event_reaction \<Rightarrow> unit dbact" where
  "send_notification e self n =
     (case n of
        ActionSendNotification channel \<Rightarrow>
          when_act (channel \<in> set (env_channels e))
            (modify_db (\<lambda>d. d\<lparr>db_messages := db_messages d @
                               [NotificationEmail (wr_id (row self)) channel]\<rparr>))
      | _ \<Rightarrow> raise (AssertionError []))"

definition notify_work_request_completed :: "env \<Rightarrow> inst \<Rightarrow> event_reaction list \<Rightarrow> unit dbact" where
  "notify_work_request_completed e self notifications =
     (if wr_completed_at (row self) = None then raise (AssertionError [])
      else seq_act
        (modify_db (\<lambda>d. d\<lparr>db_messages := db_messages d @ [WorkRequestCompleted (wr_id (row self))]\<rparr>))
        (for_each notifications (send_notification e self)))"

text \<open>The collection an update goes to, if its lookup does not fail.\<close>

definition update_target ::
  "env \<Rightarrow> string \<Rightarrow> inst \<Rightarrow> (pk \<Rightarrow> unit dbact) \<Rightarrow> inst dbact" where
  "update_target e lookup self k = bind_act (workflow_root self) (\<lambda>(self, root). with_db (\<lambda>d.
     case env_lookup e d lookup (wr_workspace (row self)) (wr_created_by (row self))
            (map_option row root) True of
       Inl x \<Rightarrow> if is_lookup_error x then ret self else raise x
     | Inr res \<Rightarrow>
         (case fo_collection res of
            None \<Rightarrow> raise (AssertionError [])
          | Some c \<Rightarrow> seq_act (lift_res (env_manager e d c)) (seq_act (k c) (ret self)))))"

definition item_name :: "env \<Rightarrow> string option \<Rightarrow> (string \<times> json) list \<Rightarrow> string option res" where
  "item_name e name_template vars =
     (case name_template of
        None \<Rightarrow> Inr None
      | Some t \<Rightarrow> bind_res (env_expand_name e t vars) (\<lambda>n. Inr (Some n)))"

definition add_found_artifact ::
  "env \<Rightarrow> inst \<Rightarrow> pk \<Rightarrow> string option \<Rightarrow> (string \<times> json) list \<Rightarrow> time option \<Rightarrow>
     pk \<times> (string \<times> json) list \<Rightarrow> unit dbact" where
  "add_found_artifact e self c name_template variables created_at artifact =
     (case env_expand_variables e variables (snd artifact) of
        Inl (KeyError _) \<Rightarrow> ret ()
      | Inl (ValueError _) \<Rightarrow> ret ()
      | Inl x \<Rightarrow> raise x
      | Inr expanded \<Rightarrow>
          bind_act (lift_res (item_name e name_template expanded)) (\<lambda>name.
            catch_act
              (env_add_artifact e c (fst artifact) (wr_created_by (row self))
                 (wr_parent (row self)) expanded name created_at)
              log_item_error))"

primrec process_update_collection_with_artifacts ::
  "env \<Rightarrow> event_reaction list \<Rightarrow> inst \<Rightarrow> inst dbact" where
  "process_update_collection_with_artifacts e [] self = ret self"
| "process_update_collection_with_artifacts e (update # actions) self =
     (case update of
        ActionUpdateCollectionWithArtifacts lookup name_template variables artifact_filters
            created_at \<Rightarrow>
          bind_act (update_target e lookup self (\<lambda>c. with_db (\<lambda>d.
            case env_artifacts e d (wr_id (row self)) artifact_filters of
              None \<Rightarrow> ret ()
            | Some artifacts \<Rightarrow>
                for_each artifacts
                  (add_found_artifact e self c name_template variables created_at))))
            (process_update_collection_with_artifacts e actions)
      | _ \<Rightarrow> raise (AssertionError []))"

primrec process_update_collection_with_data ::
  "env \<Rightarrow> event_reaction list \<Rightarrow> inst \<Rightarrow> inst dbact" where
  "process_update_collection_with_data e [] self = ret self"
| "process_update_collection_with_data e (update # actions) self =
     (case update of
        ActionUpdateCollectionWithData lookup category name_template data created_at \<Rightarrow>
          bind_act (update_target e lookup self (\<lambda>c.
            bind_act (lift_res (item_name e name_template data)) (\<lambda>name.
              catch_act
                (env_add_bare_data e c category (wr_created_by (row self)) (wr_parent (row self))
                   data name True created_at)
                log_item_error)))
            (process_update_collection_with_data e actions)
      | _ \<Rightarrow> raise (AssertionError []))"

text \<open>
  The delay of \<open>retry-with-delays\<close>: the pattern is digits and one of the units,
  up to the end of the string as Python's \<open>$\<close> sees it; the result is in seconds.
\<close>

definition digits_value :: "string \<Rightarrow> int" where
  "digits_value s = fold (\<lambda>c n. 10 * n + (int (of_char c) - 48)) s 0"

definition parse_delay :: "string \<Rightarrow> duration option" where
  "parse_delay s =
     (let digits = takeWhile is_ascii_digit s in
      if digits = [] then None
      else (case dropWhile is_ascii_digit s of
              [] \<Rightarrow> None
            | unit # rest \<Rightarrow>
                if \<not> at_dollar rest then None
                else if unit = CHR ''m'' then Some (digits_value digits * 60)
                else if unit = CHR ''h'' then Some (digits_value digits * 3600)
                else if unit = CHR ''d'' then Some (digits_value digits * 86400)
                else if unit = CHR ''w'' then Some (digits_value digits * 604800)
                else None))"

text \<open>Python's \<open>xs[i]\<close>: negative indices count from the end, others out of range raise.\<close>

definition py_index :: "'a list \<Rightarrow> int \<Rightarrow> 'a option" where
  "py_index xs i =
     (if 0 \<le> i \<and> i < int (length xs) then Some (xs ! nat i)
      else if - int (length xs) \<le> i \<and> i < 0 then Some (xs ! nat (int (length xs) + i))
      else None)"

text \<open>
  One \<open>retry-with-delays\<close> action; permission checks are disabled around it. A
  workflow is retried in place, so the result is the instance itself; otherwise
  the new request shares the instance's parent.
\<close>

definition retry_with_delays :: "env \<Rightarrow> calls \<Rightarrow> string list \<Rightarrow> inst \<Rightarrow> inst dbact" where
  "retry_with_delays e rc delays self = bind_act (parent_of self) (\<lambda>(self, p).
     case p of
       None \<Rightarrow> raise (CannotRetry ''retry-with-delays action may only be used in a workflow'')
     | Some parent \<Rightarrow>
         let retry_count = wd_retry_count (wr_workflow_data (row self)) in
         if int (length delays) \<le> retry_count then ret self
         else (case py_index delays retry_count of
                 None \<Rightarrow> raise IndexError
               | Some text \<Rightarrow>
                   (case parse_delay text of
                      None \<Rightarrow> raise (AssertionError [])
                    | Some delay \<Rightarrow>
                        bind_act (create_child e rc parent ''delay'' PENDING WAIT
                                    [(''delay_until'', JInt (env_now e + delay))]
                                    (Some (default_workflow_data\<lparr>wd_needs_input := Some False\<rparr>))
                                    None 0) (\<lambda>(parent, wr_delay).
                        bind_act (rc (Retry ((env_context e)\<lparr>cx_permission_checks_disabled := True\<rparr>)
                                        (set_parent parent self) DELAY)) (\<lambda>(_, wr_retried).
                        bind_act (add_dependency e rc wr_retried wr_delay) (\<lambda>(wr_retried, _).
                          ret (if is_workflow (row self) then wr_retried
                               else Inst (row self) (cached_parent wr_retried))))))))"

primrec process_retry_with_delays ::
  "env \<Rightarrow> calls \<Rightarrow> event_reaction list \<Rightarrow> inst \<Rightarrow> inst dbact" where
  "process_retry_with_delays e rc [] self = ret self"
| "process_retry_with_delays e rc (action # actions) self =
     (case action of
        ActionRetryWithDelays delays \<Rightarrow>
          bind_act (retry_with_delays e rc delays self) (process_retry_with_delays e rc actions)
      | _ \<Rightarrow> raise (AssertionError []))"

definition task_type_value :: "task_type \<Rightarrow> string" where
  "task_type_value t = (case t of WORKER \<Rightarrow> ''Worker'' | SERVER \<Rightarrow> ''Server''
     | INTERNAL \<Rightarrow> ''Internal'' | WORKFLOW \<Rightarrow> ''Workflow'' | SIGNING \<Rightarrow> ''Signing'' | WAIT \<Rightarrow> ''Wait'')"

definition result_value :: "result \<Rightarrow> string" where
  "result_value r = (case r of NONE \<Rightarrow> [] | SUCCESS \<Rightarrow> ''success'' | FAILURE \<Rightarrow> ''failure''
     | ERROR \<Rightarrow> ''error'' | SKIPPED \<Rightarrow> ''skipped'')"

definition json_opt :: "('a \<Rightarrow> json) \<Rightarrow> 'a option \<Rightarrow> json" where
  "json_opt f x = (case x of None \<Rightarrow> JNull | Some v \<Rightarrow> f v)"

definition runtime_statistics_json :: "runtime_statistics \<Rightarrow> json" where
  "runtime_statistics_json s = JObj
     [(''duration'', json_opt JInt (rs_duration s)), (''cpu_time'', json_opt JInt (rs_cpu_time s)),
      (''disk_space'', json_opt JInt (rs_disk_space s)), (''memory'', json_opt JInt (rs_memory s)),
      (''available_disk_space'', json_opt JInt (rs_available_disk_space s)),
      (''available_memory'', json_opt JInt (rs_available_memory s)),
      (''cpu_count'', json_opt JInt (rs_cpu_count s))]"

text \<open>Python's \<open>a or b\<close> on optional strings: the empty string is false.\<close>

definition str_or :: "string option \<Rightarrow> string option \<Rightarrow> string option" where
  "str_or a b = (if a = None \<or> a = Some [] then b else a)"

definition record_task_run ::
  "env \<Rightarrow> pk \<Rightarrow> string option \<Rightarrow> string option \<Rightarrow> inst \<Rightarrow> time \<Rightarrow> runtime_statistics \<Rightarrow>
     event_reaction \<Rightarrow> unit dbact" where
  "record_task_run e collection default_subject default_context self started stats action =
     (case action of
        ActionRecordInTaskHistory subject ctx \<Rightarrow>
          env_add_bare_data e collection ''debusine:historical-task-run''
            (wr_created_by (row self)) (wr_parent (row self))
            [(''task_type'', JStr (task_type_value (wr_task_type (row self)))),
             (''task_name'', JStr (wr_task_name (row self))),
             (''subject'', json_opt JStr (str_or subject default_subject)),
             (''context'', json_opt JStr (str_or ctx default_context)),
             (''timestamp'', JInt started),
             (''work_request_id'', JInt (int (wr_id (row self)))),
             (''result'', JStr (result_value (wr_result (row self)))),
             (''runtime_statistics'', runtime_statistics_json stats)]
            None False None
      | _ \<Rightarrow> raise (AssertionError []))"

definition process_record_in_task_history ::
  "env \<Rightarrow> event_reaction list \<Rightarrow> inst \<Rightarrow> inst dbact" where
  "process_record_in_task_history e actions self = with_db (\<lambda>d.
     case (actions, wr_started_at (row self), wr_dynamic_task_data (row self),
           Option.bind (wr_output_data (row self)) od_runtime_statistics) of
       (_ # _, Some started, Some _, Some (Some stats)) \<Rightarrow>
         (case get_singleton_collection d (env_context e) (AuthUser (wr_created_by (row self)))
                 ''debusine:task-history'' (wr_workspace (row self)) of
            Inl (DoesNotExist _) \<Rightarrow> ret self
          | Inl x \<Rightarrow> raise x
          | Inr c \<Rightarrow>
              let (subject, ctx) = (case env_task_subject e d (row self) of
                                      None \<Rightarrow> (None, None) | Some sc \<Rightarrow> sc)
              in seq_act (for_each actions (record_task_run e (co_id c) subject ctx self started stats))
                   (ret self))
     | _ \<Rightarrow> ret self)"

definition is_skip :: "event_reaction \<Rightarrow> bool" where
  "is_skip a = (case a of ActionSkipIfLookupResultChanged _ _ _ \<Rightarrow> True | _ \<Rightarrow> False)"

definition is_notification :: "event_reaction \<Rightarrow> bool" where
  "is_notification a = (case a of ActionSendNotification _ \<Rightarrow> True | _ \<Rightarrow> False)"

definition is_update_with_artifacts :: "event_reaction \<Rightarrow> bool" where
  "is_update_with_artifacts a =
     (case a of ActionUpdateCollectionWithArtifacts _ _ _ _ _ \<Rightarrow> True | _ \<Rightarrow> False)"

definition is_update_with_data :: "event_reaction \<Rightarrow> bool" where
  "is_update_with_data a = (case a of ActionUpdateCollectionWithData _ _ _ _ _ \<Rightarrow> True | _ \<Rightarrow> False)"

definition is_retry_with_delays :: "event_reaction \<Rightarrow> bool" where
  "is_retry_with_delays a = (case a of ActionRetryWithDelays _ \<Rightarrow> True | _ \<Rightarrow> False)"

definition is_record_in_task_history :: "event_reaction \<Rightarrow> bool" where
  "is_record_in_task_history a = (case a of ActionRecordInTaskHistory _ _ \<Rightarrow> True | _ \<Rightarrow> False)"

definition process_event_reactions ::
  "env \<Rightarrow> calls \<Rightarrow> inst \<Rightarrow> event_name \<Rightarrow> (bool \<times> inst) dbact" where
  "process_event_reactions e rc self event = with_db (\<lambda>d.
     let actions = get_triggered_actions e d (row self) event in
     bind_act (process_skip_if_lookup_result_changed e rc (filter is_skip actions) self) (\<lambda>self.
     seq_act (when_act (event \<in> {On_success, On_failure})
                (notify_work_request_completed e self (filter is_notification actions)))
     (bind_act (process_update_collection_with_artifacts e
                 (filter is_update_with_artifacts actions) self) (\<lambda>self.
      bind_act (process_update_collection_with_data e
                 (filter is_update_with_data actions) self) (\<lambda>self.
      bind_act (process_retry_with_delays e rc (filter is_retry_with_delays actions) self) (\<lambda>self.
      bind_act (process_record_in_task_history e
                 (filter is_record_in_task_history actions) self) (\<lambda>self.
        ret (True, self))))))))"

section \<open>Retrying\<close>

definition max_automatic_retries :: int where
  "max_automatic_retries = 3"

definition verify_retry_rules :: "env \<Rightarrow> db \<Rightarrow> work_request \<Rightarrow> unit res" where
  "verify_retry_rules e d self =
     (if wr_task_type self \<notin> {WORKFLOW, WORKER, INTERNAL, SIGNING}
      then Inl (CannotRetry ''Only workflow, worker, internal, or signing tasks can be retried'')
      else if is_superseded d (wr_id self)
      then Inl (CannotRetry ''Cannot retry old superseded tasks'')
      else if \<not> is_aborted_failed self
      then Inl (CannotRetry ''Only aborted or failed tasks can be retried'')
      else if wr_task_type self \<in> {INTERNAL, WORKFLOW} then Inr ()
      else if \<not> env_can_satisfy_dynamic_data e d self
      then Inl (CannotRetry ''Task dependencies cannot be satisfied'')
      else Inr ())"

definition is_cannot_retry :: "exn \<Rightarrow> bool" where
  "is_cannot_retry x = (case x of CannotRetry _ \<Rightarrow> True | _ \<Rightarrow> False)"

definition verify_retry :: "env \<Rightarrow> app_context \<Rightarrow> db \<Rightarrow> work_request \<Rightarrow> bool res" where
  "verify_retry e cx d self = bind_res (wr_can_retry d cx self (cx_user cx)) (\<lambda>allowed.
     if \<not> allowed then Inr False
     else (case verify_retry_rules e d self of
             Inr _ \<Rightarrow> Inr True
           | Inl x \<Rightarrow> if is_cannot_retry x then Inr False else Inl x))"

definition count_retry :: "retry_reason \<Rightarrow> work_request \<Rightarrow> work_request" where
  "count_retry reason r = r\<lparr>wr_workflow_data := (wr_workflow_data r)\<lparr>wd_retry_count :=
     (if reason \<in> {WORKER_FAILED, DELAY} then wd_retry_count (wr_workflow_data r) + 1 else 0),
     wd_retry_counted := True\<rparr>\<rparr>"

definition retry_children :: "calls \<Rightarrow> app_context \<Rightarrow> inst \<Rightarrow> retry_reason \<Rightarrow> unit dbact" where
  "retry_children rc cx self reason = with_db (\<lambda>d.
     for_each (filter (\<lambda>r. wr_parent r = Some (wr_id (row self))) (aborted_or_failed (objects d)))
       (\<lambda>child. catch_act
          (bind_act (rc (Retry cx (fresh child) reason)) (\<lambda>_. ret ()))
          (\<lambda>x. if is_cannot_retry x
                then raise (CannotRetry ''child work request cannot be retried'') else raise x)))"

definition orchestrate :: "env \<Rightarrow> inst \<Rightarrow> (exn option \<times> inst) dbact" where
  "orchestrate e self d =
     (case env_orchestrate e self d of (failure, self, d) \<Rightarrow> (Inr (failure, self), d))"

text \<open>
  \<open>_retry_workflow\<close>; the \<open>finally\<close> block runs whether the orchestrator or a
  child failed or not, and the failure goes on after it.
\<close>

definition retry_workflow ::
  "env \<Rightarrow> calls \<Rightarrow> app_context \<Rightarrow> inst \<Rightarrow> retry_reason \<Rightarrow> inst dbact" where
  "retry_workflow e rc cx self reason =
     bind_act (mark_running e rc (upd (\<lambda>r. r\<lparr>wr_status := PENDING\<rparr>) self)) (\<lambda>(_, self).
     bind_act (save e rc (upd (count_retry reason) self)) (\<lambda>self.
     bind_act (orchestrate e self) (\<lambda>(failure, self).
     bind_act (case failure of
                 Some x \<Rightarrow> ret (Some x)
               | None \<Rightarrow> catch_act (seq_act (retry_children rc cx self reason) (ret None))
                          (\<lambda>x. ret (Some x))) (\<lambda>failure.
     bind_act (rc (MaybeFinish self)) (\<lambda>(_, self).
       case failure of Some x \<Rightarrow> raise x | None \<Rightarrow> ret self)))))"

primrec copy_dependencies :: "env \<Rightarrow> calls \<Rightarrow> work_request list \<Rightarrow> inst \<Rightarrow> inst dbact" where
  "copy_dependencies e rc [] work_request = ret work_request"
| "copy_dependencies e rc (dep # deps) work_request =
     bind_act (add_dependency e rc work_request (fresh dep)) (\<lambda>(work_request, _).
       copy_dependencies e rc deps work_request)"

primrec move_reverse_dependencies ::
  "env \<Rightarrow> calls \<Rightarrow> pk \<Rightarrow> work_request list \<Rightarrow> inst \<Rightarrow> inst dbact" where
  "move_reverse_dependencies e rc old [] work_request = ret work_request"
| "move_reverse_dependencies e rc old (dep # deps) work_request =
     seq_act (modify_db (\<lambda>d. d\<lparr>db_dependencies := removeAll (wr_id dep, old) (db_dependencies d)\<rparr>))
       (bind_act (add_dependency e rc (fresh dep) work_request) (\<lambda>(_, work_request).
          move_reverse_dependencies e rc old deps work_request))"

definition reopen_workflow :: "env \<Rightarrow> calls \<Rightarrow> inst \<Rightarrow> inst dbact" where
  "reopen_workflow e rc work_request = bind_act (parent_of work_request) (\<lambda>(work_request, p).
     case p of
       None \<Rightarrow> ret work_request
     | Some workflow \<Rightarrow>
         if is_aborted_failed (row workflow)
         then bind_act (save e rc (upd (\<lambda>r. r\<lparr>wr_status := RUNNING, wr_result := NONE,
                                              wr_completed_at := None\<rparr>) workflow)) (\<lambda>workflow.
                ret (set_parent workflow work_request))
         else ret work_request)"

text \<open>The promises for the old request are now for the new one.\<close>

definition move_promises :: "pk \<Rightarrow> pk \<Rightarrow> pk \<Rightarrow> db \<Rightarrow> db" where
  "move_promises internal old new d = d\<lparr>db_items := map (\<lambda>i.
     if ci_category i = ''debusine:promise'' \<and> ci_parent_collection i = internal
        \<and> map_of (ci_data i) ''promise_work_request_id'' = Some (JInt (int old))
     then i\<lparr>ci_data := dict_set ''promise_work_request_id'' (JInt (int new)) (ci_data i)\<rparr>
     else i) (db_items d)\<rparr>"

definition superseding_row :: "work_request \<Rightarrow> work_request" where
  "superseding_row self = (blank_row (wr_workspace self) (wr_created_by self))
     \<lparr>wr_status := BLOCKED, wr_task_type := wr_task_type self, wr_task_name := wr_task_name self,
      wr_task_data := wr_task_data self, wr_priority_base := wr_priority_base self,
      wr_priority_adjustment := wr_priority_adjustment self,
      wr_unblock_strategy := wr_unblock_strategy self, wr_parent := wr_parent self,
      wr_workflow_template := wr_workflow_template self,
      wr_workflow_data := wr_workflow_data self, wr_event_reactions := wr_event_reactions self,
      wr_expiration_delay := wr_expiration_delay self, wr_supersedes := Some (wr_id self)\<rparr>"

definition retry_supersede :: "env \<Rightarrow> calls \<Rightarrow> inst \<Rightarrow> retry_reason \<Rightarrow> inst dbact" where
  "retry_supersede e rc self reason =
     bind_act (parent_of self) (\<lambda>(self, parent).
     bind_act (save e rc (Inst (superseding_row (row self)) parent)) (\<lambda>work_request.
     bind_act (with_db (\<lambda>d. copy_dependencies e rc (wr_dependencies d (wr_id (row self)))
                              work_request)) (\<lambda>work_request.
     bind_act (with_db (\<lambda>d. move_reverse_dependencies e rc (wr_id (row self))
                              (wr_reverse_dependencies d (wr_id (row self))) work_request)) (\<lambda>work_request.
     bind_act (reopen_workflow e rc work_request) (\<lambda>work_request.
     bind_act (save e rc (upd (count_retry reason) work_request)) (\<lambda>work_request.
     bind_act (with_db (\<lambda>d.
                 if can_be_automatically_unblocked d (wr_id (row work_request))
                 then rc (MarkPending work_request) else ret (True, work_request)))
       (\<lambda>(_, work_request).
     seq_act (case Option.bind parent (\<lambda>p. wr_internal_collection (row p)) of
                None \<Rightarrow> ret ()
              | Some internal \<Rightarrow> modify_db
                  (move_promises internal (wr_id (row self)) (wr_id (row work_request))))
     (bind_act (schedule_workflow_update e rc (Inst (row self) (cached_parent work_request)))
       (\<lambda>_. ret work_request)))))))))"

definition retry ::
  "env \<Rightarrow> calls \<Rightarrow> app_context \<Rightarrow> inst \<Rightarrow> retry_reason \<Rightarrow> (bool \<times> inst) dbact" where
  "retry e rc cx self reason = with_db (\<lambda>d.
     seq_act (lift_res (enforce ''cannot retry'' cx (wr_can_retry d cx (row self))))
     (seq_act (lift_res (verify_retry_rules e d (row self)))
     (if reason = WORKER_FAILED
         \<and> max_automatic_retries \<le> wd_retry_count (wr_workflow_data (row self))
      then raise (CannotRetry ''Maximum number of automatic retries exceeded'')
      else if wr_task_type (row self) = WORKFLOW
      then bind_act (retry_workflow e rc cx self reason) (\<lambda>r. ret (True, r))
      else bind_act (retry_supersede e rc self reason) (\<lambda>r. ret (True, r)))))"

section \<open>The recursion\<close>

definition handle :: "env \<Rightarrow> calls \<Rightarrow> calls" where
  "handle e rc c =
     (case c of
        MarkCompleted self result out \<Rightarrow> mark_completed e rc self result out
      | MarkPending self \<Rightarrow> mark_pending e rc self
      | MarkAborted self user \<Rightarrow> mark_aborted e rc self user
      | MaybeFinish self \<Rightarrow> maybe_finish_workflow e rc self
      | Reactions self event \<Rightarrow> process_event_reactions e rc self event
      | Retry cx self reason \<Rightarrow> retry e rc cx self reason)"

primrec run :: "nat \<Rightarrow> env \<Rightarrow> calls" where
  "run 0 e = (\<lambda>c. raise OutOfFuel)"
| "run (Suc n) e = handle e (run n e)"

section \<open>The operations of users and of the scheduler\<close>

definition assign_worker :: "env \<Rightarrow> calls \<Rightarrow> inst \<Rightarrow> worker \<Rightarrow> inst dbact" where
  "assign_worker e rc self worker = with_db (\<lambda>d.
     bind_act (lift_res (env_configure e d worker (row self))) (\<lambda>r.
     bind_act (save e rc (upd (\<lambda>_. r\<lparr>wr_worker := Some (wk_id worker)\<rparr>) self)) (\<lambda>self.
     seq_act (when_act (wk_token worker \<noteq> None)
               (modify_db (\<lambda>d. d\<lparr>db_messages :=
                  db_messages d @ [WorkRequestAssigned (wr_id (row self))]\<rparr>)))
     (bind_act (rc (Reactions self On_assignment)) (\<lambda>(_, self). ret self)))))"

definition de_assign_worker :: "env \<Rightarrow> calls \<Rightarrow> inst \<Rightarrow> (bool \<times> inst) dbact" where
  "de_assign_worker e rc self =
     (if wr_status (row self) \<notin> {RUNNING, PENDING} then ret (False, self)
      else bind_act (save e rc (upd (\<lambda>r. r\<lparr>wr_worker := None, wr_started_at := None,
                                         wr_status := PENDING\<rparr>) self)) (\<lambda>self. ret (True, self)))"

definition verify_abort_rules :: "db \<Rightarrow> work_request \<Rightarrow> unit res" where
  "verify_abort_rules d self =
     (if is_superseded d (wr_id self) then Inl (CannotAbort ''Cannot abort old superseded tasks'')
      else if wr_status self \<notin> {PENDING, BLOCKED, RUNNING}
      then Inl (CannotAbort ''Only pending, blocked, or running tasks can be aborted'')
      else Inr ())"

definition is_cannot_abort :: "exn \<Rightarrow> bool" where
  "is_cannot_abort x = (case x of CannotAbort _ \<Rightarrow> True | _ \<Rightarrow> False)"

definition verify_abort :: "app_context \<Rightarrow> db \<Rightarrow> work_request \<Rightarrow> bool res" where
  "verify_abort cx d self = bind_res (wr_can_abort d cx self (cx_user cx)) (\<lambda>allowed.
     if \<not> allowed then Inr False
     else (case verify_abort_rules d self of
             Inr _ \<Rightarrow> Inr True
           | Inl x \<Rightarrow> if is_cannot_abort x then Inr False else Inl x))"

text \<open>The requests \<open>abort\<close> goes through: the ones in progress in the tree below, itself included.\<close>

definition abortable :: "db \<Rightarrow> pk \<Rightarrow> work_request list" where
  "abortable d i =
     (let ids = map wr_id (filter (\<lambda>r. wr_status r \<in> {PENDING, BLOCKED, RUNNING})
                  (unsuperseded d (workflow_flattened d i True True)))
      in filter (\<lambda>r. wr_id r \<in> set ids) (objects d))"

definition abort_one :: "env \<Rightarrow> calls \<Rightarrow> pk \<Rightarrow> work_request \<Rightarrow> unit dbact" where
  "abort_one e rc user r =
     bind_act (rc (MarkAborted (fresh r) (Some user))) (\<lambda>(_, work_request).
     bind_act (save e rc (upd (\<lambda>r. r\<lparr>wr_worker := None\<rparr>) work_request)) (\<lambda>_. ret ()))"

definition abort :: "env \<Rightarrow> calls \<Rightarrow> app_context \<Rightarrow> inst \<Rightarrow> unit dbact" where
  "abort e rc cx self = with_db (\<lambda>d.
     seq_act (lift_res (enforce ''cannot abort'' cx (wr_can_abort d cx (row self))))
     (bind_act (lift_res (require_user cx)) (\<lambda>user.
        case user of
          AuthUser u \<Rightarrow>
            seq_act (lift_res (verify_abort_rules d (row self)))
              (for_each (abortable d (wr_id (row self))) (abort_one e rc u))
        | _ \<Rightarrow> raise (AssertionError []))))"

definition log_review ::
  "pk \<Rightarrow> time \<Rightarrow> string option \<Rightarrow> unblock_action option \<Rightarrow> work_request \<Rightarrow> work_request" where
  "log_review user now notes action r = r\<lparr>wr_workflow_data := (wr_workflow_data r)
     \<lparr>wd_manual_unblock := Some
       ((case wd_manual_unblock (wr_workflow_data r) of None \<Rightarrow> [] | Some log \<Rightarrow> log)
        @ [\<lparr>ul_user_id = user, ul_timestamp = now, ul_notes = notes, ul_action = action\<rparr>])\<rparr>\<rparr>"

definition review_manual_unblock ::
  "env \<Rightarrow> calls \<Rightarrow> app_context \<Rightarrow> inst \<Rightarrow> pk \<Rightarrow> string option \<Rightarrow> unblock_action option \<Rightarrow> unit dbact" where
  "review_manual_unblock e rc cx self user notes action = with_db (\<lambda>d.
     seq_act (lift_res (enforce ''cannot unblock'' cx (wr_can_unblock d cx (row self))))
     (if wr_unblock_strategy (row self) \<noteq> MANUAL
      then raise (CannotUnblock ''cannot be manually unblocked'')
      else if \<not> is_part_of_workflow (row self)
      then raise (CannotUnblock ''is not part of a workflow'')
      else if \<not> can_be_unblocked d (wr_id (row self))
      then raise (CannotUnblock ''cannot be unblocked'')
      else
        bind_act (save e rc (upd (log_review user (env_now e) notes action) self)) (\<lambda>self.
          case action of
            Some ACCEPT \<Rightarrow> bind_act (rc (MarkPending self)) (\<lambda>(ok, _).
              if ok then ret () else raise (AssertionError ''Work request could not be marked pending''))
          | Some REJECT \<Rightarrow> bind_act (rc (MarkAborted self None)) (\<lambda>(ok, _).
              if ok then ret () else raise (AssertionError ''Work request could not be aborted''))
          | None \<Rightarrow> ret ())))"

text \<open>\<open>create_workflow\<close>: what the template says overrides what the user provides.\<close>

definition template_can_run ::
  "db \<Rightarrow> app_context \<Rightarrow> workflow_template \<Rightarrow> permission_user \<Rightarrow> bool res" where
  "template_can_run d cx = permission_check NEVER NEVER
     (\<lambda>self user. case get_workspace d (wt_workspace self) of
        None \<Rightarrow> Inl (DoesNotExist ''Workspace'')
      | Some w \<Rightarrow> ws_has_role d cx user WsContributor w) cx"

definition workflow_row ::
  "workflow_template \<Rightarrow> (string \<times> json) list \<Rightarrow> pk option \<Rightarrow> status option \<Rightarrow> pk \<Rightarrow> work_request" where
  "workflow_row template data parent status user = (blank_row (wt_workspace template) user)
     \<lparr>wr_parent := parent, wr_workflow_template := Some (wt_id template),
      wr_workflow_data := default_workflow_data
        \<lparr>wd_workflow_template_name := Some (wt_name template)\<rparr>,
      wr_status := (case status of None \<Rightarrow> PENDING | Some s \<Rightarrow> s), wr_task_type := WORKFLOW,
      wr_task_name := wt_task_name template,
      wr_task_data := dict_update (dict_update [] data) (wt_task_data template),
      wr_priority_base := wt_priority template\<rparr>"

definition internal_collection :: "db \<Rightarrow> work_request \<Rightarrow> string \<Rightarrow> collection" where
  "internal_collection d r name = \<lparr>co_id = tbl_next co_id (db_collections d), co_name = name,
     co_category = ''debusine:workflow-internal'', co_full_history_retention_period = None,
     co_metadata_only_retention_period = None, co_workspace = wr_workspace r,
     co_retains_artifacts = RetainsWorkflow, co_data = JObj []\<rparr>"

text \<open>
  \<open>validate\<close> is the outcome of the orchestrator's \<open>validate_input\<close> when the
  caller asks for it; \<open>show\<close> prints a primary key.
\<close>

definition create_workflow ::
  "env \<Rightarrow> calls \<Rightarrow> app_context \<Rightarrow> (pk \<Rightarrow> string) \<Rightarrow> workflow_template \<Rightarrow> (string \<times> json) list \<Rightarrow>
     inst option \<Rightarrow> status option \<Rightarrow> (db \<Rightarrow> work_request \<Rightarrow> unit res) option \<Rightarrow> inst dbact" where
  "create_workflow e rc cx show_pk template data parent status validate = with_db (\<lambda>d.
     seq_act (lift_res (enforce ''cannot run'' cx (template_can_run d cx template)))
     (bind_act (lift_res (require_user cx)) (\<lambda>created_by.
      case created_by of
        AuthUser u \<Rightarrow>
          bind_act (save e rc (Inst (workflow_row template data
             (map_option (\<lambda>p. wr_id (row p)) parent) status u) parent)) (\<lambda>work_request.
          bind_act
            (if parent = None then with_db (\<lambda>d.
               let c = internal_collection d (row work_request)
                         (''workflow-'' @ show_pk (wr_id (row work_request)))
               in seq_act (modify_db (\<lambda>d. d\<lparr>db_collections := db_collections d @ [c]\<rparr>))
                    (save e rc (upd (\<lambda>r. r\<lparr>wr_internal_collection := Some (co_id c)\<rparr>) work_request)))
             else ret work_request) (\<lambda>work_request.
          case validate of
            None \<Rightarrow> ret work_request
          | Some v \<Rightarrow> with_db (\<lambda>d. seq_act (lift_res (v d (row work_request))) (ret work_request))))
      | _ \<Rightarrow> raise (AssertionError []))))"

end
