(* ===== verification/Invariants.thy ===== *)
theory Invariants
  imports Lifecycle
begin

text \<open>
  Invariants of single work request rows. The locale \<open>row_invariant\<close> is the
  contract between a property \<open>P\<close> of a row and the methods of \<open>WorkRequest\<close>:
  each change a method makes to a row keeps \<open>P\<close>. Under it, every method keeps
  \<open>P\<close> of all rows, whatever it returns or raises and however deep its calls
  go; the instances in memory, with the ancestors they cache, satisfy \<open>P\<close> too,
  so that saving a stale one breaks nothing.
\<close>

fun inst_all :: "(work_request \<Rightarrow> bool) \<Rightarrow> inst \<Rightarrow> bool" where
  "inst_all P (Inst r None) = P r"
| "inst_all P (Inst r (Some p)) = (P r \<and> inst_all P p)"

lemma inst_all_row: "inst_all P i \<Longrightarrow> P (row i)"
  by (cases "(P, i)" rule: inst_all.cases) auto

lemma inst_all_cached: "inst_all P i \<Longrightarrow> cached_parent i = Some p \<Longrightarrow> inst_all P p"
  by (cases "(P, i)" rule: inst_all.cases) auto

lemma inst_all_Inst:
  "inst_all P (Inst r c) \<longleftrightarrow> P r \<and> (case c of None \<Rightarrow> True | Some p \<Rightarrow> inst_all P p)"
  by (cases c) auto

lemma inst_all_fresh [simp]: "inst_all P (fresh r) = P r"
  by (simp add: fresh_def)

lemma inst_all_upd: "inst_all P i \<Longrightarrow> P (f (row i)) \<Longrightarrow> inst_all P (upd f i)"
  by (cases "(P, i)" rule: inst_all.cases) (auto simp: upd_def)

lemma inst_all_set_parent: "inst_all P i \<Longrightarrow> inst_all P p \<Longrightarrow> inst_all P (set_parent p i)"
  by (simp add: set_parent_def inst_all_row)

lemma row_upd [simp]: "row (upd f i) = f (row i)" "cached_parent (upd f i) = cached_parent i"
  by (simp_all add: upd_def)

lemma row_set_parent [simp]: "row (set_parent p i) = row i"
    "cached_parent (set_parent p i) = Some p"
  by (simp_all add: set_parent_def)

lemma row_fresh [simp]: "row (fresh r) = r" "cached_parent (fresh r) = None"
  by (simp_all add: fresh_def)

definition rows_all :: "(work_request \<Rightarrow> bool) \<Rightarrow> db \<Rightarrow> bool" where
  "rows_all P d \<longleftrightarrow> (\<forall>r\<in>set (db_work_requests d). P r)"

lemma rows_all_get: "rows_all P d \<Longrightarrow> get_wr d i = Some r \<Longrightarrow> P r"
  by (auto simp: rows_all_def get_wr_def dest: tbl_get_mem)

lemma rows_all_put:
  "rows_all P d \<Longrightarrow> P r \<Longrightarrow> rows_all P (work_request_changed auto (put_wr r d))"
  by (auto simp: rows_all_def put_wr_def tbl_upd_def)

text \<open>What the parameters leave alone: the rows of work requests.\<close>

definition leaves_requests :: "unit dbact \<Rightarrow> bool" where
  "leaves_requests m \<longleftrightarrow> (\<forall>d. db_work_requests (snd (m d)) = db_work_requests d)"

lemma leaves_requests_ret [simp]: "leaves_requests (ret ())"
  by (simp add: leaves_requests_def ret_def)

definition adds_items_only :: "env \<Rightarrow> bool" where
  "adds_items_only e \<longleftrightarrow>
     (\<forall>c a u w v n t. leaves_requests (env_add_artifact e c a u w v n t)) \<and>
     (\<forall>c k u w v n b t. leaves_requests (env_add_bare_data e c k u w v n b t))"

text \<open>
  An environment that is fit for \<open>P\<close>: adding to collections leaves the work
  requests alone, and an orchestrator that starts from rows and an instance with
  \<open>P\<close> leaves such rows and such an instance.
\<close>

definition env_ok :: "(work_request \<Rightarrow> bool) \<Rightarrow> env \<Rightarrow> bool" where
  "env_ok P e \<longleftrightarrow> adds_items_only e \<and>
     (\<forall>d i x j d'. rows_all P d \<longrightarrow> inst_all P i \<longrightarrow> env_orchestrate e i d = (x, j, d') \<longrightarrow>
        rows_all P d' \<and> inst_all P j)"

text \<open>The instance a method is called on.\<close>

primrec call_inst :: "call \<Rightarrow> inst" where
  "call_inst (MarkCompleted i res out) = i"
| "call_inst (MarkPending i) = i"
| "call_inst (MarkAborted i u) = i"
| "call_inst (MaybeFinish i) = i"
| "call_inst (Reactions i ev) = i"
| "call_inst (Retry cx i reason) = i"

locale row_invariant =
  fixes P :: "work_request \<Rightarrow> bool"
  assumes started: "P r \<Longrightarrow> wr_status r = PENDING \<Longrightarrow>
      P (r\<lparr>wr_started_at := Some t, wr_status := RUNNING\<rparr>)"
    and completed: "P r \<Longrightarrow> wr_status r \<in> {PENDING, RUNNING} \<Longrightarrow> res \<noteq> NONE \<Longrightarrow>
      P (r\<lparr>wr_result := res, wr_completed_at := Some t, wr_status := COMPLETED\<rparr>)"
    and output_stored: "P r \<Longrightarrow> P (r\<lparr>wr_output_data := out\<rparr>)"
    and need_update: "P r \<Longrightarrow> P (r\<lparr>wr_workflows_need_update := b\<rparr>)"
    and unblocked: "P r \<Longrightarrow> wr_status r = BLOCKED \<Longrightarrow> P (r\<lparr>wr_status := PENDING\<rparr>)"
    and blocked: "P r \<Longrightarrow> wr_status r = PENDING \<Longrightarrow> P (r\<lparr>wr_status := BLOCKED\<rparr>)"
    and aborted: "P r \<Longrightarrow> P (r\<lparr>wr_aborted_by := who, wr_completed_at := Some t,
      wr_status := ABORTED\<rparr>)"
    and retried: "P r \<Longrightarrow> is_aborted_failed r \<Longrightarrow> P (r\<lparr>wr_status := PENDING\<rparr>)"
    and reopened: "P r \<Longrightarrow> is_aborted_failed r \<Longrightarrow>
      P (r\<lparr>wr_status := RUNNING, wr_result := NONE, wr_completed_at := None\<rparr>)"
    and counted: "P r \<Longrightarrow> P (count_retry reason r)"
    and summarized: "P r \<Longrightarrow> P (r\<lparr>wr_workflow_runtime_status := s\<rparr>)"
    and inserted: "P r \<Longrightarrow> P (r\<lparr>wr_id := k, wr_created_at := t\<rparr>)"
    and superseding: "P r \<Longrightarrow> P (superseding_row r)"
    and delay_child: "P ((blank_row ws u)\<lparr>wr_parent := p, wr_status := PENDING,
      wr_task_type := WAIT, wr_task_name := name, wr_task_data := data, wr_priority_base := prio,
      wr_workflow_data := default_workflow_data\<lparr>wd_needs_input := Some False\<rparr>,
      wr_event_reactions := no_event_reactions\<rparr>)"
    and reviewed: "P r \<Longrightarrow> P (log_review user now notes action r)"
    and assigned: "P r \<Longrightarrow> P (r\<lparr>wr_worker := Some w\<rparr>)"
    and unassigned: "P r \<Longrightarrow> P (r\<lparr>wr_worker := None\<rparr>)"
    and de_assigned: "P r \<Longrightarrow> wr_status r \<in> {RUNNING, PENDING} \<Longrightarrow>
      P (r\<lparr>wr_worker := None, wr_started_at := None, wr_status := PENDING\<rparr>)"
begin

abbreviation keeps :: "('a \<Rightarrow> bool) \<Rightarrow> 'a dbact \<Rightarrow> bool" where
  "keeps \<equiv> ensures (rows_all P)"

abbreviation inst_ok :: "inst \<Rightarrow> bool" where
  "inst_ok \<equiv> inst_all P"

abbreviation call_ok :: "call \<Rightarrow> bool" where
  "call_ok c \<equiv> inst_ok (call_inst c)"

definition calls_ok :: "calls \<Rightarrow> bool" where
  "calls_ok rc \<longleftrightarrow> (\<forall>c. call_ok c \<longrightarrow> keeps (\<lambda>(_, i). inst_ok i) (rc c))"

lemma keeps_call: "calls_ok rc \<Longrightarrow> call_ok c \<Longrightarrow> keeps (\<lambda>(_, i). inst_ok i) (rc c)"
  by (simp add: calls_ok_def)

text \<open>Actions that leave the rows of work requests alone.\<close>

lemma keeps_leaving: "leaves_requests m \<Longrightarrow> keeps (\<lambda>_. True) m"
  by (auto simp: leaves_requests_def ensures_def rows_all_def)

lemma keeps_modify:
  "(\<And>d. db_work_requests (f d) = db_work_requests d) \<Longrightarrow> keeps (\<lambda>_. True) (modify_db f)"
  by (rule ensures_modify) (simp add: rows_all_def)

lemma keeps_add_hook: "keeps (\<lambda>_. True) (modify_db (add_hook h))"
  by (rule keeps_modify) (simp add: add_hook_def)

lemma keeps_save_wr: "P r \<Longrightarrow> keeps (\<lambda>_. True) (save_wr auto r)"
  unfolding save_wr_def by (rule ensures_modify) (rule rows_all_put)

lemma keeps_parent_of:
  "inst_ok i \<Longrightarrow> keeps (\<lambda>(j, p). inst_ok j \<and> row j = row i \<and>
     (case p of None \<Rightarrow> wr_parent (row i) = None | Some q \<Rightarrow> inst_ok q \<and> cached_parent j = Some q))
     (parent_of i)"
  unfolding parent_of_def
  by (intro ensures_option ensures_ret ensures_with_db ensures_raise)
     (auto simp: inst_all_cached inst_all_set_parent rows_all_get)

lemma keeps_load_root:
  "inst_ok i \<Longrightarrow> keeps (\<lambda>(j, q). inst_ok j \<and> row j = row i \<and> inst_ok q) (load_root n i)"
proof (induction n arbitrary: i)
  case 0
  show ?case by (simp add: ensures_raise)
next
  case (Suc n)
  show ?case unfolding load_root.simps
    by (rule ensures_bind [OF keeps_parent_of [OF Suc.prems]])
       (auto split: option.splits prod.splits intro!: ensures_ret ensures_bind [OF Suc.IH]
         intro: inst_all_set_parent)
qed

lemma keeps_workflow_root:
  "inst_ok i \<Longrightarrow> keeps (\<lambda>(j, q). inst_ok j \<and> row j = row i \<and>
     (case q of None \<Rightarrow> True | Some q \<Rightarrow> inst_ok q)) (workflow_root i)"
  unfolding workflow_root_def
  by (intro ensures_if ensures_ret ensures_with_db ensures_bind [OF keeps_load_root])
     (auto split: prod.splits intro!: ensures_ret)

text \<open>The helpers of the methods.\<close>

lemma keeps_insert: "inst_ok i \<Longrightarrow> keeps inst_ok (insert_wr e i)"
  unfolding insert_wr_def Let_def
  by (intro ensures_with_db ensures_seq [OF keeps_save_wr] ensures_ret)
     (auto intro: inst_all_upd inserted inst_all_row)

lemma keeps_save:
  assumes "calls_ok rc" and "inst_ok i"
  shows "keeps inst_ok (save e rc i)"
proof -
  have direct: "keeps inst_ok (seq_act (save_wr (env_auto e) (row j)) (ret j))" if "inst_ok j" for j
    using that by (intro ensures_seq [OF keeps_save_wr] ensures_ret) (auto intro: inst_all_row)
  from assms have "keeps (\<lambda>(_, i). inst_ok i) (rc (Reactions i On_creation))"
    by (simp add: keeps_call)
  then show ?thesis unfolding save_def
    by (intro ensures_if direct assms(2), elim ensures_bind)
       (auto split: prod.splits intro!: ensures_if keeps_insert direct)
qed

lemma keeps_schedule_workflow_update:
  assumes "calls_ok rc" and "inst_ok i"
  shows "keeps inst_ok (schedule_workflow_update e rc i)"
  unfolding schedule_workflow_update_def
  by (rule ensures_bind [OF keeps_parent_of [OF assms(2)]])
     (auto split: option.splits prod.splits
       intro!: ensures_ret ensures_bind [OF keeps_save [OF assms(1)]] ensures_seq [OF keeps_add_hook]
         inst_all_upd need_update dest: inst_all_row)

lemma keeps_finish_parent:
  assumes "calls_ok rc" and "inst_ok i"
  shows "keeps inst_ok (finish_parent rc i)"
  unfolding finish_parent_def
  by (rule ensures_bind [OF keeps_parent_of [OF assms(2)]])
     (auto split: option.splits prod.splits
       intro!: ensures_ret ensures_bind [OF keeps_call [OF assms(1)]] inst_all_set_parent)

lemma keeps_record_statistics: "keeps (\<lambda>_. True) (record_statistics e i out)"
  unfolding record_statistics_def
  by (intro ensures_with_db)
     (auto split: option.splits intro!: ensures_ret ensures_raise keeps_modify)

lemma keeps_loop_call:
  assumes "calls_ok rc" and "call_ok c"
  shows "keeps (\<lambda>_. True) (bind_act (rc c) (\<lambda>_. ret ()))"
  by (rule ensures_bind [OF keeps_call [OF assms]]) (rule ensures_ret, simp)

lemma rows_all_objects: "rows_all P d \<Longrightarrow> r \<in> set (objects d) \<Longrightarrow> P r"
  by (simp add: rows_all_def)

lemma keeps_unblock_reverse_dependencies:
  assumes "calls_ok rc"
  shows "keeps (\<lambda>_. True) (unblock_reverse_dependencies rc i)"
  unfolding unblock_reverse_dependencies_def Let_def
  by (intro ensures_with_db ensures_if ensures_for_each keeps_loop_call [OF assms])
     (auto simp: wr_reverse_dependencies_def can_be_automatically_unblocked_qs_def
        can_be_unblocked_qs_def intro: rows_all_objects)

section \<open>The methods keep the invariant\<close>

lemma keeps_mark_running:
  assumes "calls_ok rc" and "inst_ok i"
  shows "keeps (\<lambda>(_, j). inst_ok j) (mark_running e rc i)"
  unfolding mark_running_def Let_def
  by (intro ensures_if ensures_ret ensures_with_db ensures_option ensures_raise
        ensures_bind [OF keeps_save [OF assms(1)]]
        ensures_bind [OF keeps_schedule_workflow_update [OF assms(1)]])
     (auto intro!: inst_all_upd assms started intro: inst_all_row [OF assms(2)])

lemma keeps_mark_completed:
  assumes "calls_ok rc" and "inst_ok i"
  shows "keeps (\<lambda>(_, j). inst_ok j) (mark_completed e rc i res out)"
proof (cases "wr_status (row i) \<in> {PENDING, RUNNING} \<and> res \<noteq> NONE")
  case False
  with assms(2) show ?thesis
    by (auto simp: mark_completed_def intro!: ensures_if ensures_ret ensures_raise)
next
  case True
  let ?i = "upd (\<lambda>r. r\<lparr>wr_result := res, wr_completed_at := Some (env_now e),
      wr_status := COMPLETED\<rparr>) i"
  let ?j = "case out of None \<Rightarrow> ?i | Some out \<Rightarrow> upd (\<lambda>r. r\<lparr>wr_output_data := Some
      (case wr_output_data r of None \<Rightarrow> out | Some own \<Rightarrow> merge own out)\<rparr>) ?i"
  have i: "inst_ok ?i"
    using assms(2) True completed by (auto intro!: inst_all_upd dest: inst_all_row)
  then have "inst_ok ?j"
    by (auto split: option.split intro!: inst_all_upd [OF i] output_stored inst_all_row [OF i])
  then have saved: "keeps inst_ok (save e rc ?j)" by (rule keeps_save [OF assms(1)])
  have react: "keeps (\<lambda>(_, j). inst_ok j) (case wr_result (row j) of
        SUCCESS \<Rightarrow> rc (Reactions j On_success) | FAILURE \<Rightarrow> rc (Reactions j On_failure)
      | ERROR \<Rightarrow> rc (Reactions j On_failure) | SKIPPED \<Rightarrow> ret (True, j)
      | NONE \<Rightarrow> raise (AssertionError []))" if "inst_ok j" for j
    using that by (auto split: result.split intro!: keeps_call [OF assms(1)] ensures_ret ensures_raise)
  show ?thesis using True unfolding mark_completed_def Let_def
    by (auto intro!: ensures_bind [OF saved] ensures_bind [OF react] ensures_ret
        ensures_seq [OF keeps_record_statistics]
        ensures_bind [OF keeps_schedule_workflow_update [OF assms(1)]]
        ensures_seq [OF keeps_unblock_reverse_dependencies [OF assms(1)]]
        ensures_bind [OF keeps_finish_parent [OF assms(1)]])
qed

lemma keeps_mark_pending:
  assumes "calls_ok rc" and "inst_ok i"
  shows "keeps (\<lambda>(_, j). inst_ok j) (mark_pending e rc i)"
  unfolding mark_pending_def
  by (auto intro!: ensures_if ensures_ret ensures_bind [OF keeps_save [OF assms(1)]]
        ensures_bind [OF keeps_schedule_workflow_update [OF assms(1)]]
        ensures_bind [OF keeps_call [OF assms(1)]] inst_all_upd assms(2) unblocked
      intro: inst_all_row [OF assms(2)])

lemma keeps_mark_aborted:
  assumes "calls_ok rc" and "inst_ok i"
  shows "keeps (\<lambda>(_, j). inst_ok j) (mark_aborted e rc i who)"
  unfolding mark_aborted_def
  by (auto intro!: ensures_ret ensures_bind [OF keeps_save [OF assms(1)]]
        ensures_bind [OF keeps_schedule_workflow_update [OF assms(1)]]
        ensures_bind [OF keeps_finish_parent [OF assms(1)]]
        ensures_seq [OF keeps_unblock_reverse_dependencies [OF assms(1)]]
        inst_all_upd assms(2) aborted inst_all_row [OF assms(2)])

lemma keeps_maybe_finish_workflow:
  assumes "calls_ok rc" and "inst_ok i"
  shows "keeps (\<lambda>(_, j). inst_ok j) (maybe_finish_workflow e rc i)"
  unfolding maybe_finish_workflow_def Let_def
  by (auto intro!: ensures_with_db ensures_if ensures_ret
        ensures_bind [OF keeps_call [OF assms(1)]] assms(2))

lemma keeps_depend_on:
  assumes "calls_ok rc" and "inst_ok i" and "inst_ok j"
  shows "keeps (\<lambda>(i, j). inst_ok i \<and> inst_ok j) (depend_on e rc i j)"
  unfolding depend_on_def Let_def
  by (intro ensures_seq [OF keeps_modify] ensures_bind [OF keeps_save [OF assms(1)]])
     (auto intro!: ensures_ret assms(2,3) inst_all_upd blocked inst_all_row [OF assms(2)])

lemma keeps_add_dependency:
  assumes "calls_ok rc" and "inst_ok i" and "inst_ok j"
  shows "keeps (\<lambda>(i, j). inst_ok i \<and> inst_ok j) (add_dependency e rc i j)"
  unfolding add_dependency_def
  by (intro ensures_if ensures_bind [OF keeps_workflow_root [OF assms(2)]])
     (auto split: option.splits prod.splits
       intro!: ensures_raise ensures_if keeps_depend_on assms
         ensures_bind [OF keeps_workflow_root [OF assms(3)]])

lemma keeps_create_child_delay:
  assumes "calls_ok rc" and "inst_ok i"
  shows "keeps (\<lambda>(i, j). inst_ok i \<and> inst_ok j)
    (create_child e rc i name PENDING WAIT data
       (Some (default_workflow_data\<lparr>wd_needs_input := Some False\<rparr>)) None prio)"
  unfolding create_child_def Let_def
  by (auto split: prod.splits
        intro!: ensures_if ensures_raise ensures_bind [OF keeps_save [OF assms(1)]]
          ensures_seq [OF ensures_lift [where Q = "\<lambda>_. True"]] ensures_with_db ensures_ret
          ensures_bind [OF ensures_lift [where Q = "\<lambda>_. True"]] inst_all_set_parent
          inst_all_upd summarized assms(2) inst_all_row [OF assms(2)] delay_child
        simp: inst_all_Inst)

section \<open>Event reactions and retries\<close>

lemma keeps_resolve_promise:
  "env_ok P e \<Longrightarrow> keeps (\<lambda>_. True) (resolve_promise e i root result name)"
  unfolding resolve_promise_def env_ok_def adds_items_only_def
  by (auto split: option.splits intro!: ensures_ret ensures_raise keeps_leaving)

lemma keeps_skip_loop:
  assumes "calls_ok rc" and env: "env_ok P e"
  shows "inst_ok i \<Longrightarrow> keeps (\<lambda>(j, _). inst_ok j) (skip_loop e rc root actions i skip)"
proof (induction actions arbitrary: i skip)
  case Nil
  then show ?case by (simp add: ensures_ret)
next
  case (Cons a actions)
  have marked: "keeps (\<lambda>(j, _). inst_ok j) (bind_act (rc (MarkCompleted i SKIPPED out))
      (\<lambda>(_, i). seq_act (resolve_promise e i root result name)
         (skip_loop e rc root actions i True)))" for out result name
    using Cons.prems
    by (intro ensures_bind [OF keeps_call [OF assms(1)]])
       (auto split: prod.splits intro!: ensures_seq [OF keeps_resolve_promise [OF env]] Cons.IH)
  show ?case
    by (auto split: event_reaction.split sum.split simp: Let_def
        intro!: ensures_raise ensures_with_db ensures_if Cons.IH [OF Cons.prems] marked)
qed

lemma keeps_process_skip:
  assumes "calls_ok rc" and "inst_ok i" and env: "env_ok P e"
  shows "keeps inst_ok (process_skip_if_lookup_result_changed e rc actions i)"
  unfolding process_skip_if_lookup_result_changed_def
  by (intro ensures_bind [OF keeps_workflow_root [OF assms(2)]])
     (auto split: prod.splits intro!: ensures_bind [OF keeps_skip_loop [OF assms(1) env]]
        ensures_if ensures_raise ensures_ret)

lemma keeps_notify: "keeps (\<lambda>_. True) (notify_work_request_completed e i ns)"
  unfolding notify_work_request_completed_def send_notification_def
  by (intro ensures_if ensures_raise ensures_seq [OF keeps_modify] ensures_for_each)
     (auto split: event_reaction.split intro!: ensures_raise ensures_when keeps_modify)

lemma keeps_update_target:
  assumes "inst_ok i" and "\<And>c. keeps (\<lambda>_. True) (k c)"
  shows "keeps (\<lambda>j. inst_ok j \<and> row j = row i) (update_target e lookup i k)"
  unfolding update_target_def
  by (intro ensures_bind [OF keeps_workflow_root [OF assms(1)]])
     (auto split: prod.splits option.splits sum.splits
       intro!: ensures_with_db ensures_if ensures_ret ensures_raise
         ensures_seq [OF ensures_lift [where Q = "\<lambda>_. True"]] ensures_seq [OF assms(2)])

lemma keeps_log_item_error: "keeps (\<lambda>_. True) (log_item_error x)"
  unfolding log_item_error_def by (intro ensures_if ensures_ret ensures_raise) simp

lemma keeps_add_found_artifact:
  assumes env: "env_ok P e"
  shows "keeps (\<lambda>_. True) (add_found_artifact e i c t v at a)"
proof -
  have "keeps (\<lambda>_. True) (env_add_artifact e c x u w ex n at)" for x u w ex n
    using env by (auto simp: env_ok_def adds_items_only_def intro: keeps_leaving)
  then have "keeps (\<lambda>_. True) (bind_act (lift_res (item_name e t ex)) (\<lambda>name. catch_act
      (env_add_artifact e c x u w ex name at) log_item_error))" for x u w ex
    by (intro ensures_bind [OF ensures_lift [where Q = "\<lambda>_. True"]] ensures_catch
        keeps_log_item_error) auto
  then show ?thesis unfolding add_found_artifact_def
    by (auto split: sum.split exn.split intro!: ensures_ret ensures_raise)
qed

lemma keeps_update_with_artifacts:
  assumes env: "env_ok P e"
  shows "inst_ok i \<Longrightarrow> keeps inst_ok (process_update_collection_with_artifacts e actions i)"
proof (induction actions arbitrary: i)
  case Nil
  then show ?case by (simp add: ensures_ret)
next
  case (Cons a actions)
  then show ?case
    by (auto split: event_reaction.split option.split
        intro!: ensures_raise ensures_bind [OF keeps_update_target] ensures_with_db ensures_ret
          ensures_for_each keeps_add_found_artifact [OF env])
qed

lemma keeps_update_with_data:
  assumes env: "env_ok P e"
  shows "inst_ok i \<Longrightarrow> keeps inst_ok (process_update_collection_with_data e actions i)"
proof (induction actions arbitrary: i)
  case Nil
  then show ?case by (simp add: ensures_ret)
next
  case (Cons a actions)
  have "keeps (\<lambda>_. True) (env_add_bare_data e c k u w data name b at)" for c k u w data name b at
    using env by (auto simp: env_ok_def adds_items_only_def intro: keeps_leaving)
  with Cons show ?case
    by (auto split: event_reaction.split
        intro!: ensures_raise ensures_bind [OF keeps_update_target] ensures_catch
          ensures_bind [OF ensures_lift [where Q = "\<lambda>_. True"]] keeps_log_item_error)
qed

lemma keeps_retry_with_delays:
  assumes "calls_ok rc" and "inst_ok i"
  shows "keeps inst_ok (retry_with_delays e rc delays i)"
proof -
  have last: "keeps inst_ok (bind_act (add_dependency e rc wr_retried wr_delay)
      (\<lambda>(wr_retried, _). ret (if b then wr_retried
         else Inst (row j) (cached_parent wr_retried))))"
    if "inst_ok j" "inst_ok wr_retried" "inst_ok wr_delay" for j wr_retried wr_delay b
    using that
    by (intro ensures_bind [OF keeps_add_dependency [OF assms(1)]])
       (auto split: prod.splits option.splits simp: inst_all_Inst
         intro!: ensures_ret dest: inst_all_row inst_all_cached)
  show ?thesis unfolding retry_with_delays_def Let_def
    by (rule ensures_bind [OF keeps_parent_of [OF assms(2)]])
       (auto split: prod.splits option.splits
         intro!: ensures_raise ensures_if ensures_ret last inst_all_set_parent
           ensures_bind [OF keeps_create_child_delay [OF assms(1)]]
           ensures_bind [OF keeps_call [OF assms(1)]])
qed

lemma keeps_process_retry_with_delays:
  assumes "calls_ok rc"
  shows "inst_ok i \<Longrightarrow> keeps inst_ok (process_retry_with_delays e rc actions i)"
proof (induction actions arbitrary: i)
  case Nil
  then show ?case by (simp add: ensures_ret)
next
  case (Cons a actions)
  then show ?case
    by (auto split: event_reaction.split
        intro!: ensures_raise ensures_bind [OF keeps_retry_with_delays [OF assms]])
qed

lemma keeps_record_in_task_history:
  assumes "inst_ok i" and env: "env_ok P e"
  shows "keeps inst_ok (process_record_in_task_history e actions i)"
proof -
  have "keeps (\<lambda>_. True) (record_task_run e c subject ctx i started stats a)"
    for c subject ctx started stats a
    using env unfolding record_task_run_def
    by (auto split: event_reaction.split simp: env_ok_def adds_items_only_def
        intro!: ensures_raise keeps_leaving)
  then have "keeps inst_ok (seq_act
      (for_each as (record_task_run e c subject ctx i started stats)) (ret i))"
    for as c subject ctx started stats
    by (intro ensures_seq [OF ensures_for_each] ensures_ret assms(1))
  then show ?thesis unfolding process_record_in_task_history_def
    by (auto intro!: ensures_with_db ensures_ret ensures_raise assms(1)
        split: list.split option.split sum.split exn.split prod.split)
qed

lemma keeps_process_event_reactions:
  assumes "calls_ok rc" and "inst_ok i" and env: "env_ok P e"
  shows "keeps (\<lambda>(_, j). inst_ok j) (process_event_reactions e rc i event)"
  unfolding process_event_reactions_def Let_def
  by (intro ensures_with_db ensures_bind [OF keeps_process_skip [OF assms]]
        ensures_seq [OF ensures_when [OF keeps_notify]]
        ensures_bind [OF keeps_update_with_artifacts [OF env]]
        ensures_bind [OF keeps_update_with_data [OF env]]
        ensures_bind [OF keeps_process_retry_with_delays [OF assms(1)]]
        ensures_bind [OF keeps_record_in_task_history [OF _ env]] ensures_ret) auto

lemma keeps_retry_children:
  assumes "calls_ok rc"
  shows "keeps (\<lambda>_. True) (retry_children rc cx i reason)"
  unfolding retry_children_def
  by (intro ensures_with_db ensures_for_each ensures_catch keeps_loop_call [OF assms])
     (auto simp: aborted_or_failed_def intro: rows_all_objects intro!: ensures_if ensures_raise)

lemma keeps_orchestrate:
  assumes "inst_ok i" and env: "env_ok P e"
  shows "keeps (\<lambda>(_, j). inst_ok j) (orchestrate e i)"
  unfolding ensures_def
proof (intro allI impI)
  fix d assume d: "rows_all P d"
  obtain x j d' where o: "env_orchestrate e i d = (x, j, d')" by (metis prod_cases3)
  from env d assms(1) o have "rows_all P d' \<and> inst_ok j" unfolding env_ok_def by blast
  then show "rows_all P (snd (orchestrate e i d)) \<and>
      (\<forall>y. fst (orchestrate e i d) = Inr y \<longrightarrow> (case y of (_, j) \<Rightarrow> inst_ok j))"
    by (simp add: orchestrate_def o)
qed

lemma keeps_retry_workflow:
  assumes "calls_ok rc" and "inst_ok i" and "is_aborted_failed (row i)" and env: "env_ok P e"
  shows "keeps inst_ok (retry_workflow e rc cx i reason)"
proof -
  have pending: "inst_ok (upd (\<lambda>r. r\<lparr>wr_status := PENDING\<rparr>) i)"
    using assms by (auto intro!: inst_all_upd retried intro: inst_all_row [of P])
  have attempt: "keeps (\<lambda>_. True) (case failure of Some x \<Rightarrow> ret (Some x)
      | None \<Rightarrow> catch_act (seq_act (retry_children rc cx j reason) (ret None)) (\<lambda>x. ret (Some x)))"
    for failure j
    by (auto split: option.split
        intro!: ensures_ret ensures_catch ensures_seq [OF keeps_retry_children [OF assms(1)]])
  show ?thesis unfolding retry_workflow_def
    by (rule ensures_bind [OF keeps_mark_running [OF assms(1) pending]])
       (auto split: prod.splits option.splits
         intro!: ensures_bind [OF keeps_save [OF assms(1)]] ensures_bind [OF keeps_orchestrate [OF _ env]]
           ensures_bind [OF attempt] ensures_bind [OF keeps_call [OF assms(1)]] ensures_raise ensures_ret
           inst_all_upd counted inst_all_row [of P])
qed

lemma keeps_copy_dependencies:
  assumes "calls_ok rc" and "\<And>r. r \<in> set deps \<Longrightarrow> P r"
  shows "inst_ok i \<Longrightarrow> keeps inst_ok (copy_dependencies e rc deps i)"
  using assms(2)
proof (induction deps arbitrary: i)
  case Nil
  then show ?case by (simp add: ensures_ret)
next
  case (Cons r deps)
  then show ?case
    by (auto split: prod.splits intro!: ensures_bind [OF keeps_add_dependency [OF assms(1)]])
qed

lemma keeps_move_reverse_dependencies:
  assumes "calls_ok rc" and "\<And>r. r \<in> set deps \<Longrightarrow> P r"
  shows "inst_ok i \<Longrightarrow> keeps inst_ok (move_reverse_dependencies e rc old deps i)"
  using assms(2)
proof (induction deps arbitrary: i)
  case Nil
  then show ?case by (simp add: ensures_ret)
next
  case (Cons r deps)
  then show ?case
    by (auto split: prod.splits intro!: ensures_seq [OF keeps_modify]
        ensures_bind [OF keeps_add_dependency [OF assms(1)]])
qed

lemma keeps_reopen_workflow:
  assumes "calls_ok rc" and "inst_ok i"
  shows "keeps inst_ok (reopen_workflow e rc i)"
  unfolding reopen_workflow_def
  by (rule ensures_bind [OF keeps_parent_of [OF assms(2)]])
     (auto split: prod.splits option.splits
       intro!: ensures_ret ensures_if ensures_bind [OF keeps_save [OF assms(1)]]
         inst_all_set_parent inst_all_upd reopened inst_all_row [of P])

lemma keeps_retry_supersede:
  assumes "calls_ok rc" and "inst_ok i"
  shows "keeps inst_ok (retry_supersede e rc i reason)"
proof -
  note saves = keeps_save [OF assms(1)]
  have new: "inst_ok (Inst (superseding_row (row j)) p)"
    if "inst_ok j" "case p of None \<Rightarrow> True | Some q \<Rightarrow> inst_ok q" for j p
    using that superseding by (auto simp: inst_all_Inst dest: inst_all_row)
  have unblock: "keeps (\<lambda>(_, j). inst_ok j) (with_db (\<lambda>d.
      if can_be_automatically_unblocked d (wr_id (row j)) then rc (MarkPending j) else ret (True, j)))"
    if "inst_ok j" for j
    using that by (auto intro!: ensures_with_db ensures_if ensures_ret keeps_call [OF assms(1)])
  have promises: "keeps (\<lambda>_. True) (case x of None \<Rightarrow> ret ()
      | Some internal \<Rightarrow> modify_db (move_promises internal old new))" for x old new
    by (auto split: option.split intro!: ensures_ret keeps_modify simp: move_promises_def)
  have dependencies: "keeps inst_ok (with_db (\<lambda>d. copy_dependencies e rc (wr_dependencies d k) j))"
    "keeps inst_ok (with_db (\<lambda>d. move_reverse_dependencies e rc k (wr_reverse_dependencies d k) j))"
    if "inst_ok j" for k j
    using that
    by (auto intro!: ensures_with_db keeps_copy_dependencies keeps_move_reverse_dependencies assms(1)
        simp: wr_dependencies_def wr_reverse_dependencies_def rows_all_objects)
  have update: "keeps (\<lambda>_. True) (schedule_workflow_update e rc (Inst (row j) (cached_parent k)))"
    if "inst_ok j" "inst_ok k" for j k
    using that
    by (intro ensures_weaken [OF keeps_schedule_workflow_update [OF assms(1)]])
       (auto split: option.split simp: inst_all_Inst dest: inst_all_row inst_all_cached)
  show ?thesis unfolding retry_supersede_def
    by (rule ensures_bind [OF keeps_parent_of [OF assms(2)]])
       (auto split: prod.splits option.splits
         intro!: ensures_bind [OF saves] ensures_bind [OF dependencies(1)]
           ensures_bind [OF dependencies(2)] ensures_bind [OF keeps_reopen_workflow [OF assms(1)]]
           ensures_bind [OF unblock] ensures_seq [OF promises] ensures_bind [OF update]
           ensures_ret new inst_all_upd counted inst_all_row [of P] assms(2)
           ensures_seq [OF ensures_ret [where Q = "\<lambda>_. True"]])
qed

lemma verify_retry_rules_ok:
  "verify_retry_rules e d r = Inr () \<Longrightarrow> is_aborted_failed r"
  by (auto simp: verify_retry_rules_def split: if_splits)

lemma keeps_retry:
  assumes "calls_ok rc" and "inst_ok i" and env: "env_ok P e"
  shows "keeps (\<lambda>(_, j). inst_ok j) (retry e rc cx i reason)"
proof -
  have "keeps (\<lambda>(_, j). inst_ok j) (seq_act (lift_res (verify_retry_rules e d (row i)))
      (if b then raise x else if wr_task_type (row i) = WORKFLOW
       then bind_act (retry_workflow e rc cx i reason) (\<lambda>r. ret (True, r))
       else bind_act (retry_supersede e rc i reason) (\<lambda>r. ret (True, r))))" for d b x
  proof (cases "verify_retry_rules e d (row i)")
    case (Inl y)
    then show ?thesis by (simp add: ensures_def lift_res_def seq_act_def bind_act_def)
  next
    case (Inr y)
    then show ?thesis
      using verify_retry_rules_ok [of e d "row i"] assms
      by (auto intro!: ensures_seq [OF ensures_lift [where Q = "\<lambda>_. True"]] ensures_if ensures_raise
          ensures_bind [OF keeps_retry_workflow] ensures_bind [OF keeps_retry_supersede] ensures_ret)
  qed
  note main = this
  show ?thesis unfolding retry_def
    by (rule ensures_with_db, rule ensures_seq [OF ensures_lift [where Q = "\<lambda>_. True"]], simp,
        rule main)
qed

section \<open>Everything together\<close>

lemma calls_ok_handle: "env_ok P e \<Longrightarrow> calls_ok rc \<Longrightarrow> calls_ok (handle e rc)"
  unfolding calls_ok_def [of "handle e rc"] handle_def
  by (auto split: call.split intro: keeps_mark_completed keeps_mark_pending keeps_mark_aborted
      keeps_maybe_finish_workflow keeps_process_event_reactions keeps_retry)

lemma calls_ok_run: "env_ok P e \<Longrightarrow> calls_ok (run n e)"
proof (induction n)
  case 0
  show ?case by (simp add: calls_ok_def ensures_raise)
next
  case (Suc n)
  then show ?case by (simp add: calls_ok_handle)
qed

lemma keeps_run: "env_ok P e \<Longrightarrow> call_ok c \<Longrightarrow> keeps (\<lambda>(_, j). inst_ok j) (run n e c)"
  by (rule keeps_call [OF calls_ok_run])

lemma keeps_abort:
  assumes env: "env_ok P e"
  shows "keeps (\<lambda>_. True) (abort e (run n e) cx i)"
proof -
  have one: "keeps (\<lambda>_. True) (abort_one e (run n e) u r)" if "P r" for u r
    unfolding abort_one_def using that
    by (auto intro!: ensures_bind [OF keeps_run [OF env]]
        ensures_bind [OF keeps_save [OF calls_ok_run [OF env]]]
        ensures_ret inst_all_upd unassigned inst_all_row [of P] split: prod.splits)
  show ?thesis unfolding abort_def
    by (auto intro!: ensures_with_db ensures_seq [OF ensures_lift [where Q = "\<lambda>_. True"]]
        ensures_bind [OF ensures_lift [where Q = "\<lambda>_. True"]] ensures_raise ensures_for_each one
        split: permission_user.split simp: abortable_def Let_def rows_all_def)
qed

lemma keeps_review_manual_unblock:
  assumes "inst_ok i" and env: "env_ok P e"
  shows "keeps (\<lambda>_. True) (review_manual_unblock e (run n e) cx i user notes action)"
  unfolding review_manual_unblock_def
  by (intro ensures_with_db ensures_seq [OF ensures_lift [where Q = "\<lambda>_. True"]] ensures_if
        ensures_raise ensures_bind [OF keeps_save [OF calls_ok_run [OF env]]])
     (auto split: option.split unblock_action.split
       intro!: inst_all_upd assms(1) reviewed inst_all_row [OF assms(1)] ensures_ret ensures_raise
         ensures_if ensures_bind [OF keeps_run [OF env]])

lemma keeps_assign_worker:
  assumes "inst_ok i" and env: "env_ok P e"
    and configured: "\<And>d w r r'. P r \<Longrightarrow> env_configure e d w r = Inr r' \<Longrightarrow> P r'"
  shows "keeps inst_ok (assign_worker e (run n e) i w)"
proof -
  have "keeps inst_ok (bind_act (lift_res (env_configure e d w (row i))) (\<lambda>r.
      bind_act (save e (run n e) (upd (\<lambda>_. r\<lparr>wr_worker := Some (wk_id w)\<rparr>) i)) (\<lambda>self.
      seq_act (when_act (wk_token w \<noteq> None)
                (modify_db (\<lambda>d. d\<lparr>db_messages := db_messages d @ [WorkRequestAssigned (wr_id (row self))]\<rparr>)))
      (bind_act (run n e (Reactions self On_assignment)) (\<lambda>(_, self). ret self)))))" for d
  proof (cases "env_configure e d w (row i)")
    case (Inl x)
    then show ?thesis by (simp add: ensures_def bind_act_def lift_res_def)
  next
    case (Inr r)
    then have "P (r\<lparr>wr_worker := Some (wk_id w)\<rparr>)"
      by (intro assigned configured [OF inst_all_row [OF assms(1)]])
    then have "inst_ok (upd (\<lambda>_. r\<lparr>wr_worker := Some (wk_id w)\<rparr>) i)"
      by (intro inst_all_upd assms(1))
    then have "keeps inst_ok (bind_act (save e (run n e) (upd (\<lambda>_. r\<lparr>wr_worker := Some (wk_id w)\<rparr>) i)) (\<lambda>self.
        seq_act (when_act (wk_token w \<noteq> None)
                (modify_db (\<lambda>d. d\<lparr>db_messages := db_messages d @ [WorkRequestAssigned (wr_id (row self))]\<rparr>)))
        (bind_act (run n e (Reactions self On_assignment)) (\<lambda>(_, self). ret self))))"
      by (intro ensures_bind [OF keeps_save [OF calls_ok_run [OF env]]] ensures_seq [OF keeps_leaving]
          ensures_bind [OF keeps_run [OF env]])
        (auto simp: leaves_requests_def when_act_def modify_db_def ret_def intro!: ensures_ret)
    then show ?thesis by (simp add: ensures_def bind_act_def lift_res_def Inr)
  qed
  then show ?thesis unfolding assign_worker_def by (rule ensures_with_db)
qed

lemma keeps_create_child:
  assumes "inst_ok i" and env: "env_ok P e"
    and child: "\<And>ws u parent data prio ers. P ((blank_row ws u)\<lparr>wr_parent := parent, wr_status := status,
      wr_task_type := task_type, wr_task_name := name, wr_task_data := data, wr_priority_base := prio,
      wr_workflow_data := (case workflow_data of None \<Rightarrow> default_workflow_data | Some w \<Rightarrow> w),
      wr_event_reactions := ers\<rparr>)"
  shows "keeps (\<lambda>(i, j). inst_ok i \<and> inst_ok j)
    (create_child e (run n e) i name status task_type data workflow_data reactions prio)"
  unfolding create_child_def Let_def
  by (auto split: prod.splits
        intro!: ensures_if ensures_raise ensures_bind [OF keeps_save [OF calls_ok_run [OF env]]]
          ensures_seq [OF ensures_lift [where Q = "\<lambda>_. True"]] ensures_with_db ensures_ret
          ensures_bind [OF ensures_lift [where Q = "\<lambda>_. True"]] inst_all_set_parent
          inst_all_upd summarized assms(1) inst_all_row [OF assms(1)] child
        simp: inst_all_Inst)

lemma keeps_de_assign_worker:
  assumes "inst_ok i" and env: "env_ok P e"
  shows "keeps (\<lambda>(_, j). inst_ok j) (de_assign_worker e (run n e) i)"
  unfolding de_assign_worker_def
  by (intro ensures_if ensures_ret ensures_bind [OF keeps_save [OF calls_ok_run [OF env]]])
     (auto intro!: inst_all_upd assms(1) de_assigned inst_all_row [OF assms(1)])

end

section \<open>Consistent rows\<close>

text \<open>
  What holds of every row: a terminated request has a completion time, a
  completed one has a result, a waiting task says whether it needs input, and
  the count of retries (an index into the list of delays) is not negative.
\<close>

definition consistent_row :: "work_request \<Rightarrow> bool" where
  "consistent_row r \<longleftrightarrow>
     (is_terminated r \<longrightarrow> wr_completed_at r \<noteq> None)
     \<and> (wr_status r = COMPLETED \<longrightarrow> wr_result r \<noteq> NONE)
     \<and> (wr_task_type r = WAIT \<longrightarrow> wd_needs_input (wr_workflow_data r) \<noteq> None)
     \<and> 0 \<le> wd_retry_count (wr_workflow_data r)"

interpretation consistent: row_invariant consistent_row
  by unfold_locales
     (auto simp: consistent_row_def is_terminated_def count_retry_def superseding_row_def
        blank_row_def default_workflow_data_def log_review_def)

text \<open>
  C4: whatever a method of \<open>WorkRequest\<close> is called on, however deep its cascade
  of unblocking, finishing workflows, event reactions and retries goes, and
  whether it returns or raises, every row stays consistent: no request is
  completed without a result or terminated without a completion time.
\<close>

theorem methods_keep_rows_consistent:
  assumes "env_ok consistent_row e" and "rows_all consistent_row d"
    and "inst_all consistent_row (call_inst c)"
  shows "rows_all consistent_row (snd (run n e c d))"
  using consistent.keeps_run [OF assms(1,3)] assms(2) by (simp add: ensures_def)

text \<open>
  C11: the operations offered to users and to the scheduler keep every row consistent,
  whatever their outcome: aborting a request with everything below it, reviewing a manual
  unblock, starting a request, giving it to a worker (when configuring it keeps its row
  consistent), taking it away again, and creating a child with a consistent row in a workflow.
\<close>

theorem operations_keep_rows_consistent:
  assumes "env_ok consistent_row e" and "rows_all consistent_row d"
    and "inst_all consistent_row i"
    and "\<And>d w r r'. consistent_row r \<Longrightarrow> env_configure e d w r = Inr r' \<Longrightarrow> consistent_row r'"
    and "consistent_row ((blank_row 0 0)\<lparr>wr_status := status, wr_task_type := task_type,
      wr_workflow_data := (case workflow_data of None \<Rightarrow> default_workflow_data | Some w \<Rightarrow> w)\<rparr>)"
  shows "rows_all consistent_row (snd (abort e (run n e) cx i d))
    \<and> rows_all consistent_row (snd (review_manual_unblock e (run n e) cx i user notes action d))
    \<and> rows_all consistent_row (snd (mark_running e (run n e) i d))
    \<and> rows_all consistent_row (snd (assign_worker e (run n e) i worker d))
    \<and> rows_all consistent_row (snd (de_assign_worker e (run n e) i d))
    \<and> rows_all consistent_row (snd (create_child e (run n e) i name status task_type data workflow_data reactions prio d))"
proof -
  have child: "consistent_row ((blank_row ws u)\<lparr>wr_parent := parent, wr_status := status,
      wr_task_type := task_type, wr_task_name := name, wr_task_data := data, wr_priority_base := prio,
      wr_workflow_data := (case workflow_data of None \<Rightarrow> default_workflow_data | Some w \<Rightarrow> w),
      wr_event_reactions := ers\<rparr>)" for ws u parent data prio ers
    using assms(5) by (simp add: consistent_row_def is_terminated_def blank_row_def)
  show ?thesis
    using consistent.keeps_abort [OF assms(1)] consistent.keeps_review_manual_unblock [OF assms(3,1)]
      consistent.keeps_mark_running [OF consistent.calls_ok_run [OF assms(1)] assms(3)]
      consistent.keeps_assign_worker [OF assms(3,1,4)]
      consistent.keeps_create_child [OF assms(3,1) child]
      consistent.keeps_de_assign_worker [OF assms(3,1)] assms(2)
    by (simp add: ensures_def)
qed

text \<open>
  An environment for the examples: no task has reactions of its own, lookups
  find nothing, orchestrators do nothing.
\<close>

definition example_env :: env where
  "example_env = \<lparr>env_now = 100, env_auto = True, env_context = initial_context,
     env_task_reactions = \<lambda>d r ev. Some (task_event_reactions ev), env_task_subject = \<lambda>d r. None,
     env_can_satisfy_dynamic_data = \<lambda>d r. True, env_task_exists = \<lambda>t n. True,
     env_task_config_ok = \<lambda>t n d. True, env_configure = \<lambda>d w r. Inr r,
     env_orchestrate = \<lambda>i d. (None, i, d),
     env_lookup = \<lambda>d l w u root c. Inl (KeyError []), env_manager = \<lambda>d c. Inr (),
     env_artifacts = \<lambda>d i f. Some [], env_expand_variables = \<lambda>v d. Inr v,
     env_expand_name = \<lambda>t v. Inr t, env_add_artifact = \<lambda>c a u w v n t. ret (),
     env_add_bare_data = \<lambda>c k u w v n b t. ret (), env_token_hash = \<lambda>d. [], env_channels = []\<rparr>"

lemma example_env_ok: "env_ok P example_env"
  by (simp add: env_ok_def adds_items_only_def example_env_def)

lemma example_tree_consistent:
  "rows_all consistent_row (example_tree PENDING BLOCKED)"
  by (simp add: rows_all_def example_tree_def new_work_request_def consistent_row_def
      is_terminated_def default_workflow_data_def)

lemma example_new_consistent: "consistent_row (new_work_request i u)"
  by (simp add: new_work_request_def consistent_row_def is_terminated_def default_workflow_data_def)

theorem methods_keep_rows_consistent_witness:
  "rows_all consistent_row (snd (run 9 example_env
     (MarkCompleted (fresh (new_work_request 3 7)) FAILURE None) (example_tree PENDING BLOCKED)))"
  by (rule methods_keep_rows_consistent [OF example_env_ok example_tree_consistent])
     (simp add: example_new_consistent)

theorem operations_keep_rows_consistent_witness:
  "rows_all consistent_row (snd (abort example_env (run 9 example_env) example_ctx
     (fresh (new_work_request 3 7)) (example_tree PENDING BLOCKED)))
   \<and> rows_all consistent_row (snd (create_child example_env (run 9 example_env) (fresh (new_work_request 3 7))
     ''noop'' BLOCKED WORKER [] None None 0 (example_tree PENDING BLOCKED)))"
proof -
  have "consistent_row r'" if "consistent_row r" "env_configure example_env d w r = Inr r'" for d w r r'
    using that by (simp add: example_env_def)
  moreover have "consistent_row ((blank_row 0 0)\<lparr>wr_status := BLOCKED, wr_task_type := WORKER,
      wr_workflow_data := (case None of None \<Rightarrow> default_workflow_data | Some w \<Rightarrow> w)\<rparr>)"
    by (simp add: consistent_row_def is_terminated_def blank_row_def default_workflow_data_def)
  moreover have "inst_all consistent_row (fresh (new_work_request 3 7))" by (simp add: example_new_consistent)
  ultimately show ?thesis
    using operations_keep_rows_consistent [OF example_env_ok example_tree_consistent,
        where i = "fresh (new_work_request 3 7)" and status = BLOCKED and task_type = WORKER
          and workflow_data = None] by blast
qed

end
