(* ===== verification/Cascade.thy ===== *)
theory Cascade
  imports Invariants
begin

text \<open>
  What a completed or aborted request sets in motion: unblocking or aborting the
  requests that depend on it, finishing the workflow it belongs to, and so on
  through both graphs. For requests whose event reactions leave the work requests
  alone (they notify, update collections and record the run in the task history), the
  cascade of \<open>mark_completed\<close> and \<open>mark_aborted\<close> ends within an explicit bound
  and leaves a settled database: nothing that could be unblocked, should be
  aborted or could be finished is left behind.

  Both facts are proved together, by induction on the bound. The methods work
  on instances loaded earlier, so a workflow can be finished twice in one
  cascade; the bound therefore combines the number of requests in progress
  with the place of the instance among its ancestors.
\<close>

section \<open>What the cascade does not change\<close>

definition skeleton :: "work_request \<Rightarrow> work_request" where
  "skeleton r = r\<lparr>wr_status := PENDING, wr_result := NONE, wr_completed_at := None,
     wr_aborted_by := None, wr_output_data := None, wr_workflows_need_update := False,
     wr_worker := None\<rparr>"

lemma skeleton_simps [simp]:
  "wr_id (skeleton r) = wr_id r" "wr_parent (skeleton r) = wr_parent r"
  "wr_task_type (skeleton r) = wr_task_type r" "wr_workspace (skeleton r) = wr_workspace r"
  "wr_event_reactions (skeleton r) = wr_event_reactions r"
  "wr_workflow_data (skeleton r) = wr_workflow_data r"
  "wr_unblock_strategy (skeleton r) = wr_unblock_strategy r"
  "wr_supersedes (skeleton r) = wr_supersedes r"
  by (simp_all add: skeleton_def)

lemma same_skeleton:
  assumes "skeleton q = skeleton r"
  shows "wr_id q = wr_id r" "wr_parent q = wr_parent r" "wr_task_type q = wr_task_type r"
    "wr_workspace q = wr_workspace r" "wr_event_reactions q = wr_event_reactions r"
    "wr_workflow_data q = wr_workflow_data r" "wr_unblock_strategy q = wr_unblock_strategy r"
    "wr_supersedes q = wr_supersedes r"
  using assms by (metis skeleton_simps)+

text \<open>One row may become another during a cascade.\<close>

definition row_evolves :: "work_request \<Rightarrow> work_request \<Rightarrow> bool" where
  "row_evolves q q' \<longleftrightarrow> skeleton q' = skeleton q
     \<and> (is_terminated q \<longrightarrow> is_terminated q')
     \<and> (wr_status q' = RUNNING \<longrightarrow> wr_status q = RUNNING)
     \<and> (wr_status q' = BLOCKED \<longrightarrow> wr_status q = BLOCKED)"

definition evolves :: "db \<Rightarrow> db \<Rightarrow> bool" where
  "evolves d d' \<longleftrightarrow> list_all2 row_evolves (db_work_requests d) (db_work_requests d')
     \<and> db_dependencies d' = db_dependencies d \<and> db_workspaces d' = db_workspaces d
     \<and> db_workers d' = db_workers d"

lemma row_evolves_refl: "row_evolves q q"
  by (simp add: row_evolves_def)

lemma row_evolves_trans: "row_evolves p q \<Longrightarrow> row_evolves q r \<Longrightarrow> row_evolves p r"
  by (auto simp: row_evolves_def)

lemma evolves_refl: "evolves d d"
  by (simp add: evolves_def list_all2_refl row_evolves_refl)

lemma evolves_trans: "evolves c d \<Longrightarrow> evolves d d' \<Longrightarrow> evolves c d'"
  unfolding evolves_def using list_all2_trans [of row_evolves row_evolves row_evolves]
  by (auto intro: row_evolves_trans)

lemma evolves_same_rows:
  "db_work_requests d' = db_work_requests d \<Longrightarrow> db_dependencies d' = db_dependencies d \<Longrightarrow>
     db_workspaces d' = db_workspaces d \<Longrightarrow> db_workers d' = db_workers d \<Longrightarrow> evolves d d'"
  by (simp add: evolves_def list_all2_refl row_evolves_refl)

lemma evolves_deps: "evolves d d' \<Longrightarrow> db_dependencies d' = db_dependencies d"
  by (simp add: evolves_def)

lemma evolves_forward:
  "evolves d d' \<Longrightarrow> q \<in> set (db_work_requests d) \<Longrightarrow>
     \<exists>q'\<in>set (db_work_requests d'). row_evolves q q'"
  unfolding evolves_def by (metis in_set_conv_nth list_all2_conv_all_nth)

lemma evolves_backward:
  "evolves d d' \<Longrightarrow> q' \<in> set (db_work_requests d') \<Longrightarrow>
     \<exists>q\<in>set (db_work_requests d). row_evolves q q'"
  unfolding evolves_def by (metis in_set_conv_nth list_all2_conv_all_nth)

lemma row_evolves_id: "row_evolves q q' \<Longrightarrow> wr_id q' = wr_id q"
  unfolding row_evolves_def using same_skeleton(1) by blast

lemma evolves_map:
  assumes "evolves d d'" and "\<And>q q'. row_evolves q q' \<Longrightarrow> f q' = f q"
  shows "map f (db_work_requests d') = map f (db_work_requests d)"
proof -
  have "list_all2 row_evolves (db_work_requests d) (db_work_requests d')"
    using assms(1) by (simp add: evolves_def)
  then show ?thesis by (induction rule: list_all2_induct) (auto simp: assms(2))
qed

lemma evolves_ids:
  "evolves d d' \<Longrightarrow> map wr_id (db_work_requests d') = map wr_id (db_work_requests d)"
  by (rule evolves_map) (auto dest: row_evolves_id)

section \<open>The databases and the instances\<close>

definition same_tables :: "db \<Rightarrow> db \<Rightarrow> bool" where
  "same_tables d d' \<longleftrightarrow> db_work_requests d' = db_work_requests d
     \<and> db_dependencies d' = db_dependencies d \<and> db_workspaces d' = db_workspaces d
     \<and> db_workers d' = db_workers d"

text \<open>An action that leaves these tables alone and raises only what \<open>A\<close> says.\<close>

definition harmless :: "(exn \<Rightarrow> bool) \<Rightarrow> unit dbact \<Rightarrow> bool" where
  "harmless A m \<longleftrightarrow> (\<forall>d. same_tables d (snd (m d))
     \<and> (case fst (m d) of Inl x \<Rightarrow> A x | Inr _ \<Rightarrow> True))"

definition never :: "exn \<Rightarrow> bool" where
  "never x = False"

text \<open>
  What the collections do for the event reactions: adding to one leaves the other tables
  alone and fails, if at all, with the errors for items, and a run can be recorded in the
  task history; a lookup finds a collection that has a manager or fails as lookups do;
  variables are expanded or have one of the two expected errors, and names are expanded.
\<close>

definition collections_answer :: "env \<Rightarrow> bool" where
  "collections_answer e \<longleftrightarrow>
     (\<forall>c a u w vs n t. harmless is_item_error (env_add_artifact e c a u w vs n t))
   \<and> (\<forall>c k u w vs n t. harmless is_item_error (env_add_bare_data e c k u w vs n True t))
   \<and> (\<forall>c u w vs. harmless never (env_add_bare_data e c ''debusine:historical-task-run'' u w vs None False None))
   \<and> (\<forall>d l w u root. case env_lookup e d l w u root True of
        Inl x \<Rightarrow> is_lookup_error x
      | Inr res \<Rightarrow> \<exists>c. fo_collection res = Some c \<and> env_manager e d c = Inr ())
   \<and> (\<forall>vs data. case env_expand_variables e vs data of
        Inl (KeyError _) \<Rightarrow> True | Inl (ValueError _) \<Rightarrow> True | Inl _ \<Rightarrow> False | Inr _ \<Rightarrow> True)
   \<and> (\<forall>t vs. \<exists>n. env_expand_name e t vs = Inr n)"

text \<open>The tasks have the event reactions of \<open>BaseTask\<close>.\<close>

definition base_tasks :: "env \<Rightarrow> bool" where
  "base_tasks e \<longleftrightarrow> (\<forall>d r ev rs. env_task_reactions e d r ev = Some rs \<longrightarrow> rs = task_event_reactions ev)"

definition calm_env :: "env \<Rightarrow> bool" where
  "calm_env e \<longleftrightarrow> base_tasks e \<and> collections_answer e"

text \<open>The actions other than \<open>skip-if-lookup-result-changed\<close> and \<open>retry-with-delays\<close>.\<close>

definition calm_action :: "event_reaction \<Rightarrow> bool" where
  "calm_action a \<longleftrightarrow> \<not> is_skip a \<and> \<not> is_retry_with_delays a"

definition calm_row :: "work_request \<Rightarrow> bool" where
  "calm_row r \<longleftrightarrow> (\<forall>ev. \<forall>a\<in>set (event_actions ev (wr_event_reactions r)). calm_action a)"

definition refs_ok :: "db \<Rightarrow> work_request \<Rightarrow> bool" where
  "refs_ok d r \<longleftrightarrow> wr_id r \<noteq> 0 \<and> calm_row r \<and> get_workspace d (wr_workspace r) \<noteq> None
     \<and> (\<forall>w. wr_worker r = Some w \<longrightarrow> get_worker d w \<noteq> None)"

definition calm_db :: "db \<Rightarrow> bool" where
  "calm_db d \<longleftrightarrow> tree_ok d \<and> rows_all (refs_ok d) d"

text \<open>
  An instance row belongs to a row of the database; it was loaded from there,
  perhaps a while ago, when nothing has set it back since.
\<close>

definition known :: "db \<Rightarrow> work_request \<Rightarrow> bool" where
  "known d r \<longleftrightarrow> refs_ok d r \<and> (\<exists>q\<in>set (db_work_requests d). skeleton q = skeleton r)"

definition loaded :: "db \<Rightarrow> work_request \<Rightarrow> bool" where
  "loaded d r \<longleftrightarrow> refs_ok d r \<and> (\<exists>q\<in>set (db_work_requests d). skeleton q = skeleton r
     \<and> (wr_status q = RUNNING \<longrightarrow> wr_status r = RUNNING))"

lemma loaded_known: "loaded d r \<Longrightarrow> known d r"
  by (auto simp: loaded_def known_def)

fun chained :: "inst \<Rightarrow> bool" where
  "chained (Inst r None) = True"
| "chained (Inst r (Some p)) = (wr_parent r = Some (wr_id (row p)) \<and> chained p)"

definition linked :: "db \<Rightarrow> inst \<Rightarrow> bool" where
  "linked d i \<longleftrightarrow> inst_all (loaded d) i \<and> chained i"

lemma row_calm: "skeleton q = skeleton r \<Longrightarrow> calm_row q = calm_row r"
  by (simp add: calm_row_def same_skeleton [of q r])

lemma tree_ok_pairs:
  "tree_ok d \<longleftrightarrow> (let ps = map (\<lambda>q. (wr_id q, wr_parent q)) (db_work_requests d)
     in distinct (map fst ps) \<and> (\<forall>(i, p)\<in>set ps. \<forall>k. p = Some k \<longrightarrow> k < i \<and> k \<in> fst ` set ps))"
  by (simp add: tree_ok_def Let_def comp_def image_image)

lemma evolves_tree_ok:
  assumes "evolves d d'" and "tree_ok d"
  shows "tree_ok d'"
proof -
  have "map (\<lambda>q. (wr_id q, wr_parent q)) (db_work_requests d') =
      map (\<lambda>q. (wr_id q, wr_parent q)) (db_work_requests d)"
    by (rule evolves_map [OF assms(1)]) (auto simp: row_evolves_def dest: same_skeleton)
  with assms(2) show ?thesis by (simp only: tree_ok_pairs)
qed

lemma evolves_loaded: "evolves d d' \<Longrightarrow> loaded d r \<Longrightarrow> loaded d' r"
  unfolding loaded_def refs_ok_def get_workspace_def get_worker_def
  by (metis (no_types, lifting) evolves_def evolves_forward row_evolves_def)

lemma inst_all_mono: "inst_all P i \<Longrightarrow> (\<And>r. P r \<Longrightarrow> Q r) \<Longrightarrow> inst_all Q i"
  by (induction i rule: chained.induct) auto

lemma evolves_linked: "evolves d d' \<Longrightarrow> linked d i \<Longrightarrow> linked d' i"
  by (auto simp: linked_def intro: inst_all_mono evolves_loaded)

lemma linked_row: "linked d i \<Longrightarrow> loaded d (row i)"
  by (auto simp: linked_def dest: inst_all_row)

lemma chained_cached: "chained i \<Longrightarrow> cached_parent i = Some p \<Longrightarrow>
    wr_parent (row i) = Some (wr_id (row p)) \<and> chained p"
  by (cases i rule: chained.cases) auto

lemma linked_cached: "linked d i \<Longrightarrow> cached_parent i = Some p \<Longrightarrow>
    linked d p \<and> wr_parent (row i) = Some (wr_id (row p))"
  by (auto simp: linked_def dest: inst_all_cached chained_cached)

lemma linked_set_parent:
  "linked d i \<Longrightarrow> linked d p \<Longrightarrow> wr_parent (row i) = Some (wr_id (row p)) \<Longrightarrow>
     linked d (set_parent p i)"
  by (auto simp: linked_def intro: inst_all_set_parent) (simp add: set_parent_def)

lemma linked_upd:
  "linked d i \<Longrightarrow> loaded d (f (row i)) \<Longrightarrow> wr_parent (f (row i)) = wr_parent (row i) \<Longrightarrow>
     linked d (upd f i)"
  by (cases i rule: chained.cases) (auto simp: linked_def upd_def)

lemma calm_db_loaded: "calm_db d \<Longrightarrow> q \<in> set (db_work_requests d) \<Longrightarrow> loaded d q"
  by (auto simp: calm_db_def loaded_def rows_all_def)

lemma linked_fresh: "calm_db d \<Longrightarrow> q \<in> set (db_work_requests d) \<Longrightarrow> linked d (fresh q)"
  by (simp add: linked_def calm_db_loaded) (simp add: fresh_def)

lemma tree_ok_unique:
  "tree_ok d \<Longrightarrow> q \<in> set (db_work_requests d) \<Longrightarrow> r \<in> set (db_work_requests d) \<Longrightarrow>
     wr_id q = wr_id r \<Longrightarrow> q = r"
  by (auto simp: tree_ok_def distinct_map dest: inj_onD)

section \<open>Saving\<close>

lemma changed_same [simp]:
  "db_dependencies (work_request_changed a d) = db_dependencies d"
  "db_workspaces (work_request_changed a d) = db_workspaces d"
  "db_workers (work_request_changed a d) = db_workers d"
  by (simp_all add: work_request_changed_def add_hook_def)

lemma put_same [simp]:
  "db_dependencies (put_wr r d) = db_dependencies d" "db_workspaces (put_wr r d) = db_workspaces d"
  "db_workers (put_wr r d) = db_workers d"
  by (simp_all add: put_wr_def)

lemma add_hook_same [simp]:
  "db_work_requests (add_hook h d) = db_work_requests d"
  "db_dependencies (add_hook h d) = db_dependencies d"
  "db_workspaces (add_hook h d) = db_workspaces d" "db_workers (add_hook h d) = db_workers d"
  by (simp_all add: add_hook_def)

definition saved :: "env \<Rightarrow> work_request \<Rightarrow> db \<Rightarrow> db" where
  "saved e r d = work_request_changed (env_auto e) (put_wr r d)"

lemma save_known:
  "wr_id (row i) \<noteq> 0 \<Longrightarrow> save e rc i d = (Inr i, saved e (row i) d)"
  by (simp add: save_def save_wr_def act_defs saved_def)

lemma saved_same [simp]:
  "db_dependencies (saved e r d) = db_dependencies d"
  "db_workspaces (saved e r d) = db_workspaces d" "db_workers (saved e r d) = db_workers d"
  by (simp_all add: saved_def)

lemma known_row:
  assumes "tree_ok d" and "known d r" and "q \<in> set (db_work_requests d)" and "wr_id q = wr_id r"
  shows "skeleton q = skeleton r"
proof -
  from assms(2) obtain p where p: "p \<in> set (db_work_requests d)" "skeleton p = skeleton r"
    by (auto simp: known_def)
  with assms(4) have "wr_id p = wr_id q" by (simp add: same_skeleton [of p r])
  with p assms(3) tree_ok_unique [OF assms(1)] show ?thesis by blast
qed

lemma loaded_running:
  assumes "tree_ok d" and "loaded d r" and "q \<in> set (db_work_requests d)" and "wr_id q = wr_id r"
    and "wr_status q = RUNNING"
  shows "wr_status r = RUNNING"
proof -
  from assms(2) obtain p where p: "p \<in> set (db_work_requests d)" "skeleton p = skeleton r"
    "wr_status p = RUNNING \<longrightarrow> wr_status r = RUNNING" by (auto simp: loaded_def)
  with assms(4) have "wr_id p = wr_id q" by (simp add: same_skeleton [of p r])
  with p assms(3,5) tree_ok_unique [OF assms(1)] show ?thesis by blast
qed

lemma known_found: "known d r \<Longrightarrow> get_wr d (wr_id r) \<noteq> None"
  by (auto simp: known_def get_wr_def tbl_get_None dest: same_skeleton(1))

lemma saved_rows:
  "known d r \<Longrightarrow> db_work_requests (saved e r d) =
     map (\<lambda>q. if wr_id q = wr_id r then r else q) (db_work_requests d)"
  by (simp add: saved_def put_wr_rows known_found)

lemma saved_mem:
  assumes "known d r"
  shows "x \<in> set (db_work_requests (saved e r d)) \<longleftrightarrow>
    x = r \<or> (x \<in> set (db_work_requests d) \<and> wr_id x \<noteq> wr_id r)"
proof -
  from assms obtain q where "q \<in> set (db_work_requests d)" "wr_id q = wr_id r"
    by (auto simp: known_def dest: same_skeleton(1))
  then show ?thesis by (auto simp: saved_rows [OF assms] split: if_splits)
qed

text \<open>The status of a row may be overwritten by the status of \<open>r\<close>.\<close>

definition may_save :: "db \<Rightarrow> work_request \<Rightarrow> bool" where
  "may_save d r \<longleftrightarrow> (\<forall>q\<in>set (db_work_requests d). wr_id q = wr_id r \<longrightarrow>
     (is_terminated q \<longrightarrow> is_terminated r) \<and> (wr_status r = RUNNING \<longrightarrow> wr_status q = RUNNING)
     \<and> (wr_status r = BLOCKED \<longrightarrow> wr_status q = BLOCKED))"

lemma may_save_terminated: "is_terminated r \<Longrightarrow> may_save d r"
  by (auto simp: may_save_def is_terminated_def)

lemma saved_evolves:
  assumes "tree_ok d" and "known d r" and "may_save d r"
  shows "evolves d (saved e r d)"
  unfolding evolves_def saved_rows [OF assms(2)]
proof (intro conjI)
  show "list_all2 row_evolves (db_work_requests d)
      (map (\<lambda>q. if wr_id q = wr_id r then r else q) (db_work_requests d))"
    unfolding list_all2_map2 using assms(3) known_row [OF assms(1,2)]
    by (intro list.rel_refl_strong) (auto simp: row_evolves_def may_save_def)
qed simp_all

lemma saved_calm:
  assumes "calm_db d" and "known d r"
  shows "calm_db (saved e r d)"
proof -
  have "refs_ok (saved e r d) = refs_ok d"
    by (simp add: refs_ok_def fun_eq_iff get_workspace_def get_worker_def)
  moreover have "tree_ok (saved e r d)"
  proof -
    let ?pair = "\<lambda>q. (wr_id q, wr_parent q)"
    have tree: "tree_ok d" using assms(1) by (simp add: calm_db_def)
    have "?pair r = ?pair q" if "q \<in> set (db_work_requests d)" "wr_id q = wr_id r" for q
      using same_skeleton(2) [OF known_row [OF tree assms(2) that]] that(2) by simp
    then have "map ?pair (db_work_requests (saved e r d)) = map ?pair (db_work_requests d)"
      unfolding saved_rows [OF assms(2)] by simp
    with tree show ?thesis by (simp only: tree_ok_pairs)
  qed
  ultimately show ?thesis using assms
    by (auto simp: calm_db_def rows_all_def saved_mem [OF assms(2)] known_def)
qed

text \<open>Looking at the parent.\<close>

lemma parent_of_linked:
  assumes "calm_db d" and "linked d i"
  obtains j p where "parent_of i d = (Inr (j, p), d)" "row j = row i" "linked d j"
    "case p of None \<Rightarrow> wr_parent (row i) = None
     | Some q \<Rightarrow> wr_parent (row i) = Some (wr_id (row q)) \<and> linked d q"
proof (cases "wr_parent (row i)")
  case None
  with assms that [of i None] show ?thesis by (simp add: parent_of_def ret_def)
next
  case (Some k)
  show ?thesis
  proof (cases "cached_parent i")
    case (Some p)
    with linked_cached [OF assms(2)] \<open>wr_parent (row i) = Some k\<close> that [of i "Some p"] assms
    show ?thesis by (auto simp: parent_of_def ret_def)
  next
    case None
    from linked_row [OF assms(2)] obtain q where q: "q \<in> set (db_work_requests d)"
      "skeleton q = skeleton (row i)" by (auto simp: loaded_def)
    then have "wr_parent q = Some k" using Some by (simp add: same_skeleton [OF q(2)])
    with assms(1) q(1) obtain p where p: "get_wr d k = Some p" "p \<in> set (db_work_requests d)"
      "wr_id p = k" by (auto simp: calm_db_def elim: tree_ok_get)
    with None Some have "parent_of i d = (Inr (set_parent (fresh p) i, Some (fresh p)), d)"
      by (simp add: parent_of_def with_db_def ret_def)
    moreover have "linked d (set_parent (fresh p) i)"
      using Some p linked_fresh [OF assms(1) p(2)] by (auto intro: linked_set_parent assms(2))
    ultimately show ?thesis using that [of "set_parent (fresh p) i" "Some (fresh p)"] Some p
        linked_fresh [OF assms(1) p(2)] by simp
  qed
qed

lemma schedule_linked:
  assumes "calm_db d" and "linked d i" and "may_save d (row i)"
  obtains j d' where "schedule_workflow_update e rc i d = (Inr j, d')" "linked d' j"
    "calm_db d'" "evolves d d'"
    "\<exists>b. row j = (row i)\<lparr>wr_workflows_need_update := b\<rparr>"
    "db_work_requests d' = db_work_requests d \<or>
     db_work_requests d' = db_work_requests (saved e (row j) d) \<and> known d (row j)"
proof -
  obtain k p where k: "parent_of i d = (Inr (k, p), d)" "row k = row i" "linked d k"
    by (rule parent_of_linked [OF assms(1,2)]) blast
  show ?thesis
  proof (cases p)
    case None
    have "row k = (row i)\<lparr>wr_workflows_need_update := wr_workflows_need_update (row i)\<rparr>"
      using k(2) by simp
    then have "\<exists>b. row k = (row i)\<lparr>wr_workflows_need_update := b\<rparr>" by (rule exI)
    moreover have "schedule_workflow_update e rc i d = (Inr k, d)"
      using k(1) None by (simp add: schedule_workflow_update_def act_defs)
    ultimately show ?thesis using that k(3) assms(1) evolves_refl by blast
  next
    case (Some q)
    let ?j = "upd (\<lambda>r. r\<lparr>wr_workflows_need_update := True\<rparr>) k"
    let ?d = "saved e (row ?j) d"
    have l: "loaded d (row ?j)" using linked_row [OF k(3)]
      by (auto simp: loaded_def refs_ok_def calm_row_def skeleton_def)
    have "may_save d (row ?j)" using assms(3) k(2) by (simp add: may_save_def is_terminated_def)
    with loaded_known [OF l] assms(1) have e: "evolves d ?d"
      by (intro saved_evolves) (auto simp: calm_db_def)
    have "wr_id (row ?j) \<noteq> 0" using l by (simp add: loaded_def refs_ok_def)
    then have run: "schedule_workflow_update e rc i d = (Inr ?j, add_hook UpdateWorkflows ?d)"
      using k(1) Some
      by (simp add: schedule_workflow_update_def save_known act_defs del: row_upd)
    have "linked d ?j" using l by (intro linked_upd k(3)) simp_all
    have same: "evolves ?d (add_hook UpdateWorkflows ?d)" by (rule evolves_same_rows) simp_all
    have "refs_ok (add_hook UpdateWorkflows ?d) = refs_ok ?d"
      by (simp add: refs_ok_def fun_eq_iff get_workspace_def get_worker_def del: saved_same)
    then have "calm_db (add_hook UpdateWorkflows ?d)"
      using saved_calm [OF assms(1) loaded_known [OF l]] by (simp add: calm_db_def tree_ok_def rows_all_def)
    with run loaded_known [OF l] e same evolves_trans [OF e same] evolves_linked [OF _ \<open>linked d ?j\<close>] k(2)
    show ?thesis by (intro that [OF run]) (auto simp del: saved_same)
  qed
qed

section \<open>Event reactions that leave the work requests alone\<close>

lemma same_tables_evolves: "same_tables d d' \<Longrightarrow> evolves d d'"
  by (simp add: same_tables_def evolves_same_rows)

lemma same_tables_calm:
  assumes "same_tables d d'" and "calm_db d"
  shows "calm_db d'"
proof -
  have "refs_ok d' = refs_ok d"
    using assms(1) by (simp add: refs_ok_def fun_eq_iff get_workspace_def get_worker_def same_tables_def)
  with assms show ?thesis by (simp add: calm_db_def tree_ok_def rows_all_def same_tables_def)
qed

definition rank :: "db \<Rightarrow> pk \<Rightarrow> nat" where
  "rank d i = card {j \<in> wr_id ` set (db_work_requests d). j < i}"

lemma loaded_parent:
  assumes "tree_ok d" and "loaded d r" and "wr_parent r = Some p"
  shows "p < wr_id r"
proof -
  from assms(2) obtain q where "q \<in> set (db_work_requests d)" "skeleton q = skeleton r"
    by (auto simp: loaded_def)
  with assms(1,3) same_skeleton(1,2) [OF this(2)] show ?thesis by (auto simp: tree_ok_def)
qed

lemma loaded_id: "loaded d r \<Longrightarrow> wr_id r \<in> wr_id ` set (db_work_requests d)"
  unfolding loaded_def by (metis imageI same_skeleton(1))

lemma rank_less:
  assumes "k \<in> wr_id ` set (db_work_requests d)" and "k < i"
  shows "rank d k < rank d i"
  unfolding rank_def by (rule psubset_card_mono) (use assms in auto)

lemma rank_bound: "rank d i \<le> card (wr_id ` set (db_work_requests d))"
  unfolding rank_def by (rule card_mono) auto

lemma load_root_linked:
  assumes "calm_db d"
  shows "linked d i \<Longrightarrow> rank d (wr_id (row i)) < n \<Longrightarrow>
    \<exists>j q. load_root n i d = (Inr (j, q), d) \<and> row j = row i \<and> linked d j"
proof (induction n arbitrary: i)
  case 0
  then show ?case by simp
next
  case (Suc n)
  obtain k p where k: "parent_of i d = (Inr (k, p), d)" "row k = row i" "linked d k"
    "case p of None \<Rightarrow> wr_parent (row i) = None
     | Some q \<Rightarrow> wr_parent (row i) = Some (wr_id (row q)) \<and> linked d q"
    by (rule parent_of_linked [OF assms Suc.prems(1)])
  show ?case
  proof (cases p)
    case None
    with k show ?thesis by (simp add: act_defs)
  next
    case (Some q)
    with k(4) have q: "wr_parent (row i) = Some (wr_id (row q))" "linked d q" by simp_all
    from loaded_parent [OF _ linked_row [OF Suc.prems(1)] q(1)] assms
    have "wr_id (row q) < wr_id (row i)" by (simp add: calm_db_def)
    with rank_less [OF loaded_id [OF linked_row [OF q(2)]]] Suc.prems(2) have "rank d (wr_id (row q)) < n"
      by fastforce
    from Suc.IH [OF q(2) this] obtain q' root where
      "load_root n q d = (Inr (q', root), d)" "row q' = row q" "linked d q'" by blast
    with k(1-3) q(1) Some show ?thesis by (auto simp: act_defs intro: linked_set_parent)
  qed
qed

lemma workflow_root_linked:
  assumes "calm_db d" and "linked d i"
  shows "\<exists>j q. workflow_root i d = (Inr (j, q), d) \<and> row j = row i \<and> linked d j"
proof -
  have "card (wr_id ` set (db_work_requests d)) \<le> length (db_work_requests d)"
    by (rule order_trans [OF card_image_le card_length]) simp
  with rank_bound [of d "wr_id (row i)"]
  have "rank d (wr_id (row i)) < Suc (length (db_work_requests d))" by simp
  from load_root_linked [OF assms this] assms(2) show ?thesis
    by (auto simp: workflow_root_def act_defs simp del: load_root.simps)
qed

lemma notify_calm:
  assumes "wr_completed_at (row i) \<noteq> None" and "\<forall>a\<in>set as. is_notification a"
  shows "\<exists>d'. notify_work_request_completed e i as d = (Inr (), d') \<and> same_tables d d'"
proof -
  have "\<exists>d'. for_each as (send_notification e i) d0 = (Inr (), d') \<and> same_tables d0 d'" for d0
    using assms(2)
  proof (induction as arbitrary: d0)
    case Nil
    then show ?case by (simp add: ret_def same_tables_def)
  next
    case (Cons a as)
    then obtain channel where a: "a = ActionSendNotification channel"
      by (auto simp: is_notification_def split: event_reaction.splits)
    let ?d = "if channel \<in> set (env_channels e)
      then d0\<lparr>db_messages := db_messages d0 @ [NotificationEmail (wr_id (row i)) channel]\<rparr> else d0"
    have step: "send_notification e i a d0 = (Inr (), ?d)"
      by (simp add: a send_notification_def when_act_def modify_db_def ret_def)
    from Cons obtain d' where "for_each as (send_notification e i) ?d = (Inr (), d')"
      "same_tables ?d d'" by fastforce
    moreover from this(2) have "same_tables d0 d'" by (auto simp: same_tables_def split: if_splits)
    ultimately show ?case using step by (auto simp: seq_act_def bind_act_def)
  qed
  from this [of "d\<lparr>db_messages := db_messages d @ [WorkRequestCompleted (wr_id (row i))]\<rparr>"]
  show ?thesis using assms(1)
    by (auto simp: notify_work_request_completed_def seq_act_def bind_act_def modify_db_def
        same_tables_def)
qed

text \<open>Harmless actions.\<close>

lemma bind_act_assoc: "bind_act (bind_act m f) g = bind_act m (\<lambda>x. bind_act (f x) g)"
  by (auto simp: bind_act_def fun_eq_iff split: prod.splits sum.splits)

lemma same_tables_refl [simp]: "same_tables d d"
  by (simp add: same_tables_def)

lemma same_tables_trans: "same_tables c d \<Longrightarrow> same_tables d d' \<Longrightarrow> same_tables c d'"
  by (simp add: same_tables_def)

lemma harmless_never: "harmless never m \<longleftrightarrow> (\<forall>d. \<exists>d'. m d = (Inr (), d') \<and> same_tables d d')"
proof -
  have "same_tables d (snd (m d)) \<and> (case fst (m d) of Inl x \<Rightarrow> never x | Inr _ \<Rightarrow> True)
      \<longleftrightarrow> (\<exists>d'. m d = (Inr (), d') \<and> same_tables d d')" for d
    by (cases "m d"; cases "fst (m d)") (auto simp: never_def)
  then show ?thesis unfolding harmless_def by simp
qed

lemma harmless_for_each: "(\<And>x. x \<in> set xs \<Longrightarrow> harmless never (f x)) \<Longrightarrow> harmless never (for_each xs f)"
proof (induction xs)
  case Nil
  then show ?case by (simp add: harmless_never ret_def)
next
  case (Cons x xs)
  have "\<exists>d'. for_each (x # xs) f d = (Inr (), d') \<and> same_tables d d'" for d
  proof -
    obtain d1 where d1: "f x d = (Inr (), d1)" "same_tables d d1"
      using Cons.prems [of x] unfolding harmless_never by auto
    have "harmless never (for_each xs f)" using Cons by simp
    then obtain d2 where "for_each xs f d1 = (Inr (), d2)" "same_tables d1 d2"
      unfolding harmless_never by blast
    with d1 show ?thesis by (auto simp: seq_act_def bind_act_def intro: same_tables_trans)
  qed
  then show ?case unfolding harmless_never by blast
qed

lemma harmless_logged: "harmless is_item_error m \<Longrightarrow> harmless never (catch_act m log_item_error)"
proof -
  assume m: "harmless is_item_error m"
  have "\<exists>d'. catch_act m log_item_error d = (Inr (), d') \<and> same_tables d d'" for d
  proof -
    have "same_tables d (snd (m d)) \<and> (case fst (m d) of Inl x \<Rightarrow> is_item_error x | Inr _ \<Rightarrow> True)"
      using m unfolding harmless_def by blast
    then show ?thesis
      by (cases "m d"; cases "fst (m d)") (simp_all add: catch_act_def log_item_error_def ret_def)
  qed
  then show ?thesis unfolding harmless_never by blast
qed

lemma harmless_with_db: "(\<And>d. harmless never (f d)) \<Longrightarrow> harmless never (with_db f)"
  by (simp add: harmless_never with_db_def)

lemma harmless_ret [simp]: "harmless never (ret ())"
  by (simp add: harmless_never ret_def)

lemma answers:
  assumes "collections_answer e"
  shows "harmless is_item_error (env_add_artifact e c a u w vs n t)"
    "harmless is_item_error (env_add_bare_data e c k u w vs n True t)"
    "harmless never (env_add_bare_data e c ''debusine:historical-task-run'' u w vs None False None)"
    "case env_lookup e d l w' u root True of
       Inl x \<Rightarrow> is_lookup_error x
     | Inr res \<Rightarrow> \<exists>c. fo_collection res = Some c \<and> env_manager e d c = Inr ()"
    "case env_expand_variables e vs data of
       Inl (KeyError _) \<Rightarrow> True | Inl (ValueError _) \<Rightarrow> True | Inl _ \<Rightarrow> False | Inr _ \<Rightarrow> True"
    "\<exists>n. env_expand_name e tmpl vs = Inr n"
  subgoal using assms unfolding collections_answer_def by (elim conjE allE) assumption
  subgoal using assms unfolding collections_answer_def by (elim conjE) simp
  subgoal using assms unfolding collections_answer_def by (elim conjE) simp
  subgoal using assms unfolding collections_answer_def by (elim conjE) (erule allE)+
  subgoal using assms unfolding collections_answer_def by (elim conjE) simp
  subgoal using assms unfolding collections_answer_def by (elim conjE) simp
  done

lemma item_name_found:
  assumes "collections_answer e"
  shows "\<exists>n. item_name e t vs = Inr n"
proof (cases t)
  case (Some name)
  obtain n where "env_expand_name e name vs = Inr n" using answers(6) [OF assms] by blast
  with Some show ?thesis by (simp add: item_name_def bind_res_def)
qed (simp add: item_name_def)

lemma harmless_named:
  assumes "collections_answer e" and "\<And>n. harmless never (f n)"
  shows "harmless never (bind_act (lift_res (item_name e t vs)) f)"
proof -
  obtain n where "item_name e t vs = Inr n" using item_name_found [OF assms(1)] by blast
  with assms(2) [of n] show ?thesis by (simp add: harmless_never bind_act_def lift_res_def)
qed

lemma bind_act_ret: "bind_act (ret x) f = f x"
  by (simp add: bind_act_def ret_def fun_eq_iff)

lemma bind_act_result: "m s = (Inr x, s') \<Longrightarrow> bind_act m f s = f x s'"
  by (simp add: bind_act_def)

text \<open>What a step of the event reactions does to the instance and the database.\<close>

definition passes :: "db \<Rightarrow> inst \<Rightarrow> inst res \<times> db \<Rightarrow> bool" where
  "passes d i out \<longleftrightarrow> (\<exists>j d'. out = (Inr j, d') \<and> row j = row i \<and> linked d' j \<and> same_tables d d')"

lemma passes_trans:
  "same_tables d d1 \<Longrightarrow> row j = row i \<Longrightarrow> passes d1 j out \<Longrightarrow> passes d i out"
  by (auto simp: passes_def intro: same_tables_trans)

lemma update_target_passes:
  assumes "collections_answer e" and "calm_db d" and "linked d i" and "\<And>c. harmless never (k c)"
  shows "passes d i (update_target e lookup i k d)"
proof -
  obtain j q where j: "workflow_root i d = (Inr (j, q), d)" "row j = row i" "linked d j"
    using workflow_root_linked [OF assms(2,3)] by blast
  let ?found = "env_lookup e d lookup (wr_workspace (row j)) (wr_created_by (row j)) (map_option row q) True"
  have found: "case ?found of Inl x \<Rightarrow> is_lookup_error x
      | Inr res \<Rightarrow> \<exists>c. fo_collection res = Some c \<and> env_manager e d c = Inr ()"
    by (rule answers(4) [OF assms(1)])
  show ?thesis
  proof (cases ?found)
    case (Inl x)
    with found j show ?thesis
      by (simp add: passes_def update_target_def bind_act_def with_db_def ret_def)
  next
    case (Inr res)
    with found obtain c where c: "fo_collection res = Some c" "env_manager e d c = Inr ()" by auto
    obtain d' where d': "k c d = (Inr (), d')" "same_tables d d'"
      using assms(4) [of c] unfolding harmless_never by blast
    with j c Inr show ?thesis
      by (auto simp: passes_def update_target_def bind_act_def with_db_def ret_def seq_act_def lift_res_def
          intro: evolves_linked same_tables_evolves)
  qed
qed

lemma passes_bind:
  assumes "passes d i (m d)" and "calm_db d"
    and "\<And>j d'. row j = row i \<Longrightarrow> linked d' j \<Longrightarrow> calm_db d' \<Longrightarrow> passes d' j (f j d')"
  shows "passes d i (bind_act m f d)"
proof -
  obtain j d' where j: "m d = (Inr j, d')" "row j = row i" "linked d' j" "same_tables d d'"
    using assms(1) unfolding passes_def by blast
  with assms(3) [OF j(2,3) same_tables_calm [OF j(4) assms(2)]] show ?thesis
    by (auto simp: bind_act_def intro: passes_trans)
qed

lemma passes_ret: "linked d i \<Longrightarrow> passes d i (ret i d)"
  by (simp add: passes_def ret_def)

lemma artifacts_pass:
  assumes "collections_answer e"
  shows "calm_db d \<Longrightarrow> linked d i \<Longrightarrow>
    passes d i (process_update_collection_with_artifacts e (filter is_update_with_artifacts as) i d)"
proof (induction as arbitrary: d i)
  case Nil
  then show ?case by (simp add: passes_ret)
next
  case (Cons a as)
  show ?case
  proof (cases a)
    case (ActionUpdateCollectionWithArtifacts lookup name_template variables filters created_at)
    have "harmless never (add_found_artifact e i c name_template variables created_at x)" for c x
    proof (cases "env_expand_variables e variables (snd x)")
      case (Inl y)
      moreover have "case y of KeyError _ \<Rightarrow> True | ValueError _ \<Rightarrow> True | _ \<Rightarrow> False"
        using answers(5) [OF assms, of variables "snd x"] Inl by simp
      ultimately show ?thesis by (cases y) (simp_all add: add_found_artifact_def)
    next
      case (Inr vs)
      then show ?thesis unfolding add_found_artifact_def
        by (simp add: harmless_named [OF assms] harmless_logged answers(1) [OF assms])
    qed
    then have k: "harmless never (with_db (\<lambda>d. case env_artifacts e d (wr_id (row i)) filters of None \<Rightarrow> ret ()
        | Some artifacts \<Rightarrow> for_each artifacts (add_found_artifact e i c name_template variables created_at)))" for c
      by (intro harmless_with_db) (simp split: option.split add: harmless_for_each)
    have "is_update_with_artifacts a" by (simp add: ActionUpdateCollectionWithArtifacts is_update_with_artifacts_def)
    then show ?thesis
      by (simp add: ActionUpdateCollectionWithArtifacts)
        (rule passes_bind, rule update_target_passes [OF assms Cons.prems k], rule Cons.prems(1), rule Cons.IH)
  qed (use Cons in \<open>simp_all add: is_update_with_artifacts_def\<close>)
qed

lemma data_pass:
  assumes "collections_answer e"
  shows "calm_db d \<Longrightarrow> linked d i \<Longrightarrow>
    passes d i (process_update_collection_with_data e (filter is_update_with_data as) i d)"
proof (induction as arbitrary: d i)
  case Nil
  then show ?case by (simp add: passes_ret)
next
  case (Cons a as)
  show ?case
  proof (cases a)
    case (ActionUpdateCollectionWithData lookup category name_template data created_at)
    have k: "harmless never (bind_act (lift_res (item_name e name_template data)) (\<lambda>name.
        catch_act (env_add_bare_data e c category (wr_created_by (row i)) (wr_parent (row i)) data name True created_at)
          log_item_error))" for c
      by (intro harmless_named [OF assms] harmless_logged answers(2) [OF assms])
    have "is_update_with_data a" by (simp add: ActionUpdateCollectionWithData is_update_with_data_def)
    then show ?thesis
      by (simp add: ActionUpdateCollectionWithData)
        (rule passes_bind, rule update_target_passes [OF assms Cons.prems k], rule Cons.prems(1), rule Cons.IH)
  qed (use Cons in \<open>simp_all add: is_update_with_data_def\<close>)
qed

lemma singleton_of_user:
  "\<exists>c. get_singleton_collection d cx (AuthUser u) category i = Inr c
     \<or> get_singleton_collection d cx (AuthUser u) category i = Inl (DoesNotExist ''Collection'')"
proof -
  obtain kept where kept: "ws_can_display_qs d cx (db_workspaces d) (AuthUser u) = Inr kept"
    by (cases "cx_permission_checks_disabled cx")
      (auto simp: ws_can_display_qs_def ws_filter_def permission_filter_def ws_with_role_def)
  obtain out where "chain_cte (Suc (length kept)) d (map ws_id kept)
      (if i \<in> ws_id ` set kept then [(i, [], [i])] else []) = Some out"
    using chain_cte_accessible by blast
  with kept show ?thesis
    by (auto simp: get_singleton_collection_def get_collection_def bind_res_def Let_def earliest_def
        split: list.split)
qed

lemma history_pass:
  assumes "collections_answer e" and "linked d i"
  shows "passes d i (process_record_in_task_history e (filter is_record_in_task_history as) i d)"
proof -
  let ?as = "filter is_record_in_task_history as"
  have one: "harmless never (record_task_run e c s cx i started stats a)" if "a \<in> set ?as" for c s cx started stats a
  proof -
    from that have "is_record_in_task_history a" by simp
    then show ?thesis
      by (cases a) (simp_all add: is_record_in_task_history_def record_task_run_def answers(3) [OF assms(1)])
  qed
  have all: "harmless never (for_each ?as (record_task_run e c s cx i started stats))" for c s cx started stats
    by (rule harmless_for_each [OF one])
  have "passes d i (seq_act (for_each ?as (record_task_run e c s cx i started stats)) (ret i) d)" for c s cx started stats
  proof -
    obtain d' where "for_each ?as (record_task_run e c s cx i started stats) d = (Inr (), d')" "same_tables d d'"
      using all unfolding harmless_never by blast
    with assms(2) show ?thesis
      by (auto simp: passes_def seq_act_def bind_act_def ret_def intro: evolves_linked same_tables_evolves)
  qed
  moreover have "passes d i (ret i d)" by (rule passes_ret [OF assms(2)])
  moreover note singleton_of_user [of d "env_context e" "wr_created_by (row i)" "''debusine:task-history''"
      "wr_workspace (row i)"]
  ultimately show ?thesis
    by (auto simp: process_record_in_task_history_def with_db_def split: list.split option.split prod.split)
qed

lemma reactions_calm:
  assumes "calm_env e" and "calm_db d" and "linked d i"
    and "ev \<in> {On_success, On_failure} \<Longrightarrow> wr_completed_at (row i) \<noteq> None"
  shows "\<exists>j d'. process_event_reactions e rc i ev d = (Inr (True, j), d') \<and> row j = row i
    \<and> linked d' j \<and> same_tables d d'"
proof -
  let ?as = "get_triggered_actions e d (row i) ev"
  have answer: "collections_answer e" using assms(1) by (simp add: calm_env_def)
  have "calm_row (row i)" using linked_row [OF assms(3)] by (simp add: loaded_def refs_ok_def)
  moreover have "\<forall>a\<in>set (task_event_reactions ev). calm_action a"
    by (simp add: task_event_reactions_def calm_action_def is_skip_def is_retry_with_delays_def)
  ultimately have as: "\<forall>a\<in>set ?as. calm_action a"
    using assms(1) unfolding get_triggered_actions_def calm_row_def calm_env_def base_tasks_def
    by (cases "env_task_reactions e d (row i) ev") auto
  then have skip: "filter is_skip ?as = []" and retry: "filter is_retry_with_delays ?as = []"
    by (auto simp: calm_action_def filter_empty_conv)
  obtain j q where j: "workflow_root i d = (Inr (j, q), d)" "row j = row i" "linked d j"
    using workflow_root_linked [OF assms(2,3)] by blast
  have "\<exists>d'. when_act (ev \<in> {On_success, On_failure})
      (notify_work_request_completed e j (filter is_notification ?as)) d = (Inr (), d')
      \<and> same_tables d d'"
  proof (cases "ev \<in> {On_success, On_failure}")
    case True
    with notify_calm [of j "filter is_notification ?as" e d] assms(4) j(2)
    show ?thesis by (simp add: when_act_def)
  next
    case False
    then show ?thesis by (simp add: when_act_def ret_def same_tables_def)
  qed
  then obtain d1 where d1: "when_act (ev \<in> {On_success, On_failure})
      (notify_work_request_completed e j (filter is_notification ?as)) d = (Inr (), d1)"
    "same_tables d d1" by blast
  have calm: "calm_db d1" and link: "linked d1 j"
    using same_tables_calm [OF d1(2) assms(2)] evolves_linked [OF same_tables_evolves [OF d1(2)] j(3)] .
  let ?rest = "bind_act (process_update_collection_with_artifacts e (filter is_update_with_artifacts ?as) j)
    (\<lambda>j. bind_act (process_update_collection_with_data e (filter is_update_with_data ?as) j)
      (process_record_in_task_history e (filter is_record_in_task_history ?as)))"
  have "passes d1 j (?rest d1)"
    by (intro passes_bind artifacts_pass data_pass history_pass answer calm link)
  then obtain k d' where k: "?rest d1 = (Inr k, d')" "row k = row j" "linked d' k" "same_tables d1 d'"
    unfolding passes_def by blast
  have "process_event_reactions e rc i ev d = bind_act ?rest (\<lambda>k. ret (True, k)) d1"
    using j(1) d1(1)
    by (simp add: bind_act_result process_event_reactions_def Let_def skip retry process_skip_if_lookup_result_changed_def
        bind_act_assoc bind_act_ret with_db_def seq_act_def)
  with k(1) have "process_event_reactions e rc i ev d = (Inr (True, k), d')"
    by (simp add: bind_act_def ret_def)
  with j(2) k(2-4) d1(2) show ?thesis by (auto intro: same_tables_trans)
qed

section \<open>Settled databases\<close>

text \<open>
  What is left to do in a set \<open>R\<close> of rows with dependencies \<open>D\<close>: \<open>A\<close> are the
  terminated requests whose dependents have not been looked at yet, \<open>B\<close> the
  workflows that have not been checked since a child of theirs terminated.
\<close>

definition failed :: "work_request \<Rightarrow> bool" where
  "failed r \<longleftrightarrow> is_terminated r \<and> wr_result r \<notin> {SUCCESS, SKIPPED}
     \<and> \<not> wd_allow_failure (wr_workflow_data r)"

definition ready :: "work_request set \<Rightarrow> (pk \<times> pk) set \<Rightarrow> work_request \<Rightarrow> bool" where
  "ready R D x \<longleftrightarrow> wr_status x = BLOCKED \<and> wr_unblock_strategy x = DEPS
     \<and> (\<forall>p. wr_parent x = Some p \<longrightarrow> (\<exists>w\<in>R. wr_id w = p \<and> wr_status w = RUNNING))
     \<and> (\<forall>q\<in>R. (wr_id x, wr_id q) \<in> D \<longrightarrow> wr_status q = COMPLETED)"

definition all_done :: "work_request set \<Rightarrow> work_request \<Rightarrow> bool" where
  "all_done R w \<longleftrightarrow> wr_task_type w = WORKFLOW \<and> wr_status w = RUNNING
     \<and> (\<exists>c\<in>R. wr_parent c = Some (wr_id w))
     \<and> (\<forall>c\<in>R. wr_parent c = Some (wr_id w) \<longrightarrow> is_terminated c)"

definition left_to_do :: "pk set \<Rightarrow> pk set \<Rightarrow> work_request set \<Rightarrow> (pk \<times> pk) set \<Rightarrow> bool" where
  "left_to_do A B R D \<longleftrightarrow>
     (\<forall>x\<in>R. \<forall>q\<in>R. wr_status x = BLOCKED \<longrightarrow> (wr_id x, wr_id q) \<in> D \<longrightarrow> failed q \<longrightarrow> wr_id q \<in> A)
     \<and> (\<forall>x\<in>R. ready R D x \<longrightarrow> (\<exists>q\<in>A. (wr_id x, q) \<in> D))
     \<and> (\<forall>w\<in>R. all_done R w \<longrightarrow> wr_id w \<in> B)"

text \<open>Rows with distinct keys, one of them replaced by \<open>r\<close>.\<close>

definition replaced :: "work_request \<Rightarrow> work_request set \<Rightarrow> work_request set" where
  "replaced r R = insert r {x \<in> R. wr_id x \<noteq> wr_id r}"

lemma left_to_do_terminated:
  assumes "left_to_do A B R D" and "inj_on wr_id R" and "q \<in> R" and "skeleton q = skeleton r"
    and "is_terminated r"
  shows "left_to_do (insert (wr_id r) A) (B \<union> set_option (wr_parent r)) (replaced r R) D"
  unfolding left_to_do_def
proof (intro conjI ballI impI)
  fix x q' assume "x \<in> replaced r R" "q' \<in> replaced r R" "wr_status x = BLOCKED"
    "(wr_id x, wr_id q') \<in> D" "failed q'"
  with assms(1,5) show "wr_id q' \<in> insert (wr_id r) A"
    by (auto simp: replaced_def left_to_do_def is_terminated_def)
next
  fix x assume x: "x \<in> replaced r R" "ready (replaced r R) D x"
  with assms(5) have xR: "x \<in> R" by (auto simp: replaced_def ready_def is_terminated_def)
  show "\<exists>q\<in>insert (wr_id r) A. (wr_id x, q) \<in> D"
  proof (cases "(wr_id x, wr_id r) \<in> D")
    case False
    then have "ready R D x"
      using x(2) assms(5) unfolding ready_def replaced_def is_terminated_def by fastforce
    with assms(1) xR show ?thesis by (auto simp: left_to_do_def)
  qed simp
next
  fix w assume w: "w \<in> replaced r R" "all_done (replaced r R) w"
  show "wr_id w \<in> B \<union> set_option (wr_parent r)"
  proof (cases "wr_parent r = Some (wr_id w)")
    case False
    from w assms(5) have wR: "w \<in> R" by (auto simp: replaced_def all_done_def is_terminated_def)
    have "c \<in> replaced r R" if "c \<in> R" "wr_parent c = Some (wr_id w)" for c
      using that assms(2-4) False same_skeleton(1,2) [OF assms(4)]
      by (auto simp: replaced_def inj_on_def)
    with w(2) False have "all_done R w"
      unfolding all_done_def by (auto simp: replaced_def)
    with assms(1) wR show ?thesis by (auto simp: left_to_do_def)
  qed simp
qed

lemma left_to_do_again:
  assumes "left_to_do A B R D" and "inj_on wr_id R" and "q \<in> R" and "skeleton q = skeleton r"
    and "is_terminated q" and "wr_status r = ABORTED"
    and "failed r \<Longrightarrow> \<forall>x\<in>R. wr_status x = BLOCKED \<longrightarrow> (wr_id x, wr_id r) \<notin> D"
  shows "left_to_do A B (replaced r R) D"
  unfolding left_to_do_def
proof (intro conjI ballI impI)
  fix x q' assume "x \<in> replaced r R" "q' \<in> replaced r R" "wr_status x = BLOCKED"
    "(wr_id x, wr_id q') \<in> D" "failed q'"
  with assms(1,6,7) show "wr_id q' \<in> A" by (auto simp: replaced_def left_to_do_def)
next
  fix x assume x: "x \<in> replaced r R" "ready (replaced r R) D x"
  with assms(6) have xR: "x \<in> R" by (auto simp: replaced_def ready_def)
  have "(wr_id x, wr_id r) \<notin> D" using x(2) assms(6) by (auto simp: ready_def replaced_def)
  then have "ready R D x" using x(2) assms(6) unfolding ready_def replaced_def by fastforce
  with assms(1) xR show "\<exists>q\<in>A. (wr_id x, q) \<in> D" by (auto simp: left_to_do_def)
next
  fix w assume w: "w \<in> replaced r R" "all_done (replaced r R) w"
  with assms(6) have wR: "w \<in> R" by (auto simp: replaced_def all_done_def)
  have "is_terminated c" if "c \<in> R" "wr_parent c = Some (wr_id w)" for c
    using that w(2) assms(2,3,5) same_skeleton(1) [OF assms(4)]
    unfolding all_done_def replaced_def inj_on_def by fastforce
  moreover have "\<exists>c\<in>R. wr_parent c = Some (wr_id w)"
    using w(2) assms(3) same_skeleton(2) [OF assms(4)] unfolding all_done_def replaced_def by fastforce
  ultimately have "all_done R w" using w(2) by (auto simp: all_done_def)
  with assms(1) wR show "wr_id w \<in> B" by (auto simp: left_to_do_def)
qed

lemma left_to_do_pending:
  assumes "left_to_do A B R D" and "inj_on wr_id R" and "q \<in> R" and "skeleton q = skeleton r"
    and "wr_status r = PENDING"
  shows "left_to_do A B (replaced r R) D"
  unfolding left_to_do_def
proof (intro conjI ballI impI)
  fix x q' assume "x \<in> replaced r R" "q' \<in> replaced r R" "wr_status x = BLOCKED"
    "(wr_id x, wr_id q') \<in> D" "failed q'"
  with assms(1,5) show "wr_id q' \<in> A"
    by (auto simp: replaced_def left_to_do_def failed_def is_terminated_def)
next
  fix x assume x: "x \<in> replaced r R" "ready (replaced r R) D x"
  with assms(5) have xR: "x \<in> R" by (auto simp: replaced_def ready_def)
  have "(wr_id x, wr_id r) \<notin> D" using x(2) assms(5) by (auto simp: ready_def replaced_def)
  then have "ready R D x" using x(2) assms(5) unfolding ready_def replaced_def by fastforce
  with assms(1) xR show "\<exists>q\<in>A. (wr_id x, q) \<in> D" by (auto simp: left_to_do_def)
next
  fix w assume w: "w \<in> replaced r R" "all_done (replaced r R) w"
  with assms(5) have wR: "w \<in> R" by (auto simp: replaced_def all_done_def)
  have no: "wr_parent r \<noteq> Some (wr_id w)"
    using w(2) assms(5) by (auto simp: all_done_def replaced_def is_terminated_def)
  have "c \<in> replaced r R" if "c \<in> R" "wr_parent c = Some (wr_id w)" for c
    using that assms(2,3) no same_skeleton(1,2) [OF assms(4)] by (auto simp: replaced_def inj_on_def)
  then have "all_done R w"
    using w(2) no unfolding all_done_def replaced_def by auto
  with assms(1) wR show "wr_id w \<in> B" by (auto simp: left_to_do_def)
qed

definition settled_but :: "pk set \<Rightarrow> pk set \<Rightarrow> db \<Rightarrow> bool" where
  "settled_but A B d \<longleftrightarrow> left_to_do A B (set (db_work_requests d)) (set (db_dependencies d))"

lemma saved_replaced:
  "known d r \<Longrightarrow> set (db_work_requests (saved e r d)) = replaced r (set (db_work_requests d))"
  by (auto simp: saved_mem replaced_def)

lemma inj_rows: "tree_ok d \<Longrightarrow> inj_on wr_id (set (db_work_requests d))"
  by (simp add: tree_ok_def distinct_map)

lemma settled_same: "same_tables d d' \<Longrightarrow> settled_but A B d' = settled_but A B d"
  by (simp add: settled_but_def same_tables_def)

lemma settled_saved_terminated:
  assumes "settled_but A B d" and "tree_ok d" and "known d r" and "is_terminated r"
  shows "settled_but (insert (wr_id r) A) (B \<union> set_option (wr_parent r)) (saved e r d)"
proof -
  from assms(3) obtain q where "q \<in> set (db_work_requests d)" "skeleton q = skeleton r"
    by (auto simp: known_def)
  with assms left_to_do_terminated [OF _ inj_rows] show ?thesis
    by (simp add: settled_but_def saved_replaced)
qed

text \<open>The query sets of the code select what is ready.\<close>

lemma automatically_unblocked:
  assumes "tree_ok d"
  shows "x \<in> set (can_be_automatically_unblocked_qs d rs) \<longleftrightarrow>
    x \<in> set rs \<and> ready (set (db_work_requests d)) (set (db_dependencies d)) x"
proof -
  have "(case wr_parent x of None \<Rightarrow> True
      | Some p \<Rightarrow> (case get_wr d p of None \<Rightarrow> False | Some w \<Rightarrow> wr_status w = RUNNING)) \<longleftrightarrow>
    (\<forall>p. wr_parent x = Some p \<longrightarrow>
       (\<exists>w\<in>set (db_work_requests d). wr_id w = p \<and> wr_status w = RUNNING))"
    using get_wr_row [OF assms]
    by (auto split: option.splits simp: get_wr_def tbl_get_None dest: tree_ok_unique [OF assms])
  then show ?thesis
    by (auto simp: can_be_automatically_unblocked_qs_def can_be_unblocked_qs_def unblockable_def
        ready_def list_ex_iff wr_dependencies_def)
qed

section \<open>The bound\<close>

definition in_progress :: "db \<Rightarrow> pk set" where
  "in_progress d = {wr_id q | q. q \<in> set (db_work_requests d) \<and> \<not> is_terminated q}"

definition size_of :: "db \<Rightarrow> nat" where
  "size_of d = card (wr_id ` set (db_work_requests d))"

definition cascade_bound :: "db \<Rightarrow> nat \<Rightarrow> nat \<Rightarrow> nat" where
  "cascade_bound d k h = 3 * (k * Suc (size_of d) + h) + 3"

definition mark_cost :: "db \<Rightarrow> inst \<Rightarrow> nat" where
  "mark_cost d i =
     cascade_bound d (card (in_progress d - {wr_id (row i)})) (rank d (wr_id (row i)))"

definition cost :: "db \<Rightarrow> call \<Rightarrow> nat" where
  "cost d c = (case c of
     MarkCompleted i res out \<Rightarrow> mark_cost d i
   | MarkAborted i u \<Rightarrow> mark_cost d i
   | MaybeFinish i \<Rightarrow> Suc (mark_cost d i)
   | MarkPending i \<Rightarrow> 2
   | Reactions i ev \<Rightarrow> 1
   | Retry cx i reason \<Rightarrow> 0)"

lemma finite_in_progress [simp]: "finite (in_progress d)"
  unfolding in_progress_def by (rule finite_subset [of _ "wr_id ` set (db_work_requests d)"]) auto

lemma in_progress_subset: "in_progress d \<subseteq> wr_id ` set (db_work_requests d)"
  by (auto simp: in_progress_def)

lemma evolves_in_progress:
  assumes "evolves d d'"
  shows "in_progress d' \<subseteq> in_progress d"
proof
  fix i assume "i \<in> in_progress d'"
  then obtain q' where q': "q' \<in> set (db_work_requests d')" "wr_id q' = i" "\<not> is_terminated q'"
    by (auto simp: in_progress_def)
  from evolves_backward [OF assms q'(1)] obtain q where
    "q \<in> set (db_work_requests d)" "row_evolves q q'" by blast
  with q' row_evolves_id [of q q'] show "i \<in> in_progress d"
    by (auto simp: in_progress_def row_evolves_def)
qed

lemma evolves_size: "evolves d d' \<Longrightarrow> size_of d' = size_of d"
  using evolves_ids [of d d'] unfolding size_of_def by (metis set_map)

lemma evolves_rank: "evolves d d' \<Longrightarrow> rank d' i = rank d i"
  using evolves_ids [of d d'] unfolding rank_def by (metis set_map)

lemma rank_size: "rank d i \<le> size_of d"
  by (simp add: rank_bound size_of_def)

text \<open>The bound drops when a request in progress is marked, and when a parent is.\<close>

lemma bound_smaller_set:
  assumes "k' < k"
  shows "cascade_bound d k' (rank d i') + 3 \<le> cascade_bound d k h"
proof -
  from assms have "Suc k' \<le> k" by simp
  then have "Suc k' * Suc (size_of d) \<le> k * Suc (size_of d)" by (rule mult_le_mono1)
  with rank_size [of d i'] show ?thesis by (simp add: cascade_bound_def)
qed

lemma bound_smaller_rank:
  assumes "k' \<le> k" and "h' < h"
  shows "cascade_bound d k' h' + 3 \<le> cascade_bound d k h"
proof -
  from assms(1) have "k' * Suc (size_of d) \<le> k * Suc (size_of d)" by (rule mult_le_mono1)
  with assms(2) show ?thesis by (simp add: cascade_bound_def)
qed

lemma cost_in_progress:
  assumes "evolves d d'" and "wr_id (row i) \<in> in_progress d"
  shows "mark_cost d' i + 3 \<le> cascade_bound d (card (in_progress d)) h"
proof -
  have "card (in_progress d' - {wr_id (row i)}) \<le> card (in_progress d - {wr_id (row i)})"
    using evolves_in_progress [OF assms(1)] by (intro card_mono) auto
  also have "\<dots> < card (in_progress d)"
    using assms(2) by (intro psubset_card_mono) auto
  finally show ?thesis
    using bound_smaller_set [of _ _ d "wr_id (row i)" h] evolves_size [OF assms(1)]
      evolves_rank [OF assms(1)]
    by (simp add: mark_cost_def cascade_bound_def)
qed

lemma cost_parent:
  assumes "evolves d d'" and "wr_id (row p) \<in> wr_id ` set (db_work_requests d)" and "wr_id (row p) < i"
  shows "mark_cost d' p + 3 \<le> cascade_bound d (card (in_progress d)) (rank d i)"
proof (cases "wr_id (row p) \<in> in_progress d")
  case True
  with cost_in_progress [OF assms(1)] show ?thesis .
next
  case False
  then have "in_progress d' - {wr_id (row p)} \<subseteq> in_progress d"
    using evolves_in_progress [OF assms(1)] by auto
  then have "card (in_progress d' - {wr_id (row p)}) \<le> card (in_progress d)"
    by (intro card_mono) auto
  from bound_smaller_rank [OF this rank_less [OF assms(2,3)], of d] show ?thesis
    using evolves_size [OF assms(1)] evolves_rank [OF assms(1)]
    by (simp add: mark_cost_def cascade_bound_def)
qed

section \<open>The contract of the calls\<close>

definition allowed :: "db \<Rightarrow> call \<Rightarrow> bool" where
  "allowed d c \<longleftrightarrow> calm_db d \<and> linked d (call_inst c) \<and> (case c of
     MarkCompleted i res out \<Rightarrow> res \<noteq> NONE
   | MarkPending i \<Rightarrow> wr_status (row i) = BLOCKED \<and>
       (\<exists>q\<in>set (db_work_requests d). wr_id q = wr_id (row i) \<and> wr_status q = BLOCKED)
   | Reactions i ev \<Rightarrow> ev \<in> {On_success, On_failure} \<longrightarrow> wr_completed_at (row i) \<noteq> None
   | Retry cx i reason \<Rightarrow> False
   | _ \<Rightarrow> True)"

text \<open>The workflow that \<open>maybe_finish_workflow\<close> is there to check.\<close>

definition to_check :: "call \<Rightarrow> pk set" where
  "to_check c = (case c of MaybeFinish i \<Rightarrow> {wr_id (row i)} | _ \<Rightarrow> {})"

definition gone :: "db \<Rightarrow> pk \<Rightarrow> bool" where
  "gone d k \<longleftrightarrow> k \<notin> in_progress d"

definition frees_dependents :: "db \<Rightarrow> work_request \<Rightarrow> bool" where
  "frees_dependents d r \<longleftrightarrow> (failed r \<longrightarrow> (\<forall>x\<in>set (db_work_requests d).
     wr_status x = BLOCKED \<longrightarrow> (wr_id x, wr_id r) \<notin> set (db_dependencies d)))"

definition effect :: "call \<Rightarrow> db \<Rightarrow> bool \<Rightarrow> inst \<Rightarrow> db \<Rightarrow> bool" where
  "effect c d b j d' = (case c of
     MarkCompleted i res out \<Rightarrow>
       b = (wr_status (row i) \<in> {PENDING, RUNNING}) \<and> (b \<longrightarrow> gone d' (wr_id (row i)))
   | MarkAborted i u \<Rightarrow> b \<and> gone d' (wr_id (row i)) \<and> wr_status (row j) = ABORTED
       \<and> frees_dependents d' (row j)
   | MarkPending i \<Rightarrow> (\<exists>x. skeleton x = skeleton (row i) \<and> wr_status x = PENDING \<and>
       set (db_work_requests d') = replaced x (set (db_work_requests d)))
   | Reactions i ev \<Rightarrow> same_tables d d' \<and> row j = row i
   | _ \<Rightarrow> True)"

definition outcome ::
  "call \<Rightarrow> pk set \<Rightarrow> pk set \<Rightarrow> db \<Rightarrow> (bool \<times> inst) res \<times> db \<Rightarrow> bool" where
  "outcome c A B d out \<longleftrightarrow> (\<exists>b j d'. out = (Inr (b, j), d') \<and> evolves d d' \<and> calm_db d'
     \<and> linked d' j \<and> skeleton (row j) = skeleton (row (call_inst c)) \<and> settled_but A B d'
     \<and> effect c d b j d')"

definition cascades :: "nat \<Rightarrow> calls \<Rightarrow> bool" where
  "cascades m rc \<longleftrightarrow> (\<forall>c d A B. allowed d c \<longrightarrow> cost d c \<le> m \<longrightarrow>
     settled_but A (B \<union> to_check c) d \<longrightarrow> outcome c A B d (rc c d))"

lemma outcome_call:
  assumes "cascades m rc" and "allowed d c" and "cost d c \<le> m"
    and "settled_but A (B \<union> to_check c) d"
  obtains b j d' where "rc c d = (Inr (b, j), d')" "evolves d d'" "calm_db d'" "linked d' j"
    "skeleton (row j) = skeleton (row (call_inst c))" "settled_but A B d'" "effect c d b j d'"
  using assms unfolding cascades_def outcome_def by blast

end
