(* ===== verification/Settling.thy ===== *)
theory Settling
  imports Cascade
begin

text \<open>
  One round of calls of the cascade, method by method, and the theorems about
  the whole cascade.
\<close>

section \<open>One round of calls\<close>

lemma cascades_less: "cascades m rc \<Longrightarrow> k \<le> m \<Longrightarrow> cascades k rc"
  unfolding cascades_def by (meson order_trans)

lemma step_reactions:
  assumes "calm_env e" and "allowed d (Reactions i ev)" and "settled_but A B d"
  shows "outcome (Reactions i ev) A B d (process_event_reactions e rc i ev d)"
proof -
  from assms(2) have "calm_db d" "linked d i"
    "ev \<in> {On_success, On_failure} \<Longrightarrow> wr_completed_at (row i) \<noteq> None"
    by (auto simp: allowed_def)
  from reactions_calm [OF assms(1) this] obtain j d' where
    "process_event_reactions e rc i ev d = (Inr (True, j), d')" "row j = row i" "linked d' j"
    "same_tables d d'" by blast
  with assms(3) \<open>calm_db d\<close> show ?thesis
    by (auto simp: outcome_def effect_def same_tables_evolves settled_same intro: same_tables_calm)
qed

text \<open>Saving an instance and scheduling the update of its workflows.\<close>

lemma save_and_schedule:
  assumes "calm_db d" and "linked d i" and "known d r" and "may_save d r"
    and "wr_parent r = wr_parent (row i)"
  obtains j d' where
    "bind_act (save e rc (Inst r (cached_parent i))) (schedule_workflow_update e rc) d = (Inr j, d')"
    "save e rc (Inst r (cached_parent i)) d = (Inr (Inst r (cached_parent i)), saved e r d)"
    "schedule_workflow_update e rc (Inst r (cached_parent i)) (saved e r d) = (Inr j, d')"
    "linked d' j" "calm_db d'" "evolves d d'" "\<exists>b. row j = r\<lparr>wr_workflows_need_update := b\<rparr>"
    "set (db_work_requests d') = replaced r (set (db_work_requests d))
     \<or> set (db_work_requests d') = replaced (row j) (set (db_work_requests d))"
proof -
  let ?i = "Inst r (cached_parent i)" and ?d = "saved e r d"
  have tree: "tree_ok d" using assms(1) by (simp add: calm_db_def)
  have "wr_id r \<noteq> 0" using assms(3) by (simp add: known_def refs_ok_def)
  then have s: "save e rc ?i d = (Inr ?i, ?d)" using save_known [of ?i] by simp
  have ev: "evolves d ?d" by (rule saved_evolves [OF tree assms(3,4)])
  have calm: "calm_db ?d" by (rule saved_calm [OF assms(1,3)])
  have "r \<in> set (db_work_requests ?d)" by (simp add: saved_mem [OF assms(3)])
  with calm have "loaded ?d r" by (rule calm_db_loaded)
  moreover have "?i = upd (\<lambda>_. r) i" by (simp add: upd_def)
  ultimately have l: "linked ?d ?i"
    using evolves_linked [OF ev assms(2)] assms(5) by (simp add: linked_upd)
  have "may_save ?d (row ?i)"
    by (auto simp: may_save_def saved_mem [OF assms(3)])
  from schedule_linked [OF calm l this] obtain j d' where j:
    "schedule_workflow_update e rc ?i ?d = (Inr j, d')" "linked d' j" "calm_db d'"
    "evolves ?d d'" "\<exists>b. row j = (row ?i)\<lparr>wr_workflows_need_update := b\<rparr>"
    "db_work_requests d' = db_work_requests ?d \<or>
     db_work_requests d' = db_work_requests (saved e (row j) ?d) \<and> known ?d (row j)" .
  have "wr_id (row j) = wr_id r" using j(5) by auto
  then have "set (db_work_requests d') = replaced r (set (db_work_requests d))
     \<or> set (db_work_requests d') = replaced (row j) (set (db_work_requests d))"
    using j(6) saved_replaced [of ?d "row j"] saved_replaced [OF assms(3)]
    by (auto simp: replaced_def)
  with j(1-5) s evolves_trans [OF ev j(4)] show ?thesis
    by (intro that) (auto simp: bind_act_def)
qed

lemma step_pending:
  assumes "cascades m rc" and "1 \<le> m" and "allowed d (MarkPending i)" and "settled_but A B d"
  shows "outcome (MarkPending i) A B d (mark_pending e rc i d)"
proof -
  let ?r = "(row i)\<lparr>wr_status := PENDING\<rparr>"
  from assms(3) obtain q where calm: "calm_db d" and link: "linked d i"
    and st: "wr_status (row i) = BLOCKED" and q: "q \<in> set (db_work_requests d)"
      "wr_id q = wr_id (row i)" "wr_status q = BLOCKED"
    by (auto simp: allowed_def)
  have tree: "tree_ok d" using calm by (simp add: calm_db_def)
  have skel: "skeleton ?r = skeleton (row i)" by (simp add: skeleton_def)
  have known: "known d ?r" using loaded_known [OF linked_row [OF link]]
    by (simp add: known_def skel) (simp add: refs_ok_def calm_row_def)
  have may: "may_save d ?r"
    using tree_ok_unique [OF tree _ q(1)] q(2,3) by (auto simp: may_save_def is_terminated_def)
  have par: "wr_parent ?r = wr_parent (row i)" by simp
  obtain j d' where j:
    "bind_act (save e rc (Inst ?r (cached_parent i))) (schedule_workflow_update e rc) d = (Inr j, d')"
    "save e rc (Inst ?r (cached_parent i)) d = (Inr (Inst ?r (cached_parent i)), saved e ?r d)"
    "schedule_workflow_update e rc (Inst ?r (cached_parent i)) (saved e ?r d) = (Inr j, d')"
    "linked d' j" "calm_db d'" "evolves d d'" "\<exists>b. row j = ?r\<lparr>wr_workflows_need_update := b\<rparr>"
    "set (db_work_requests d') = replaced ?r (set (db_work_requests d))
     \<or> set (db_work_requests d') = replaced (row j) (set (db_work_requests d))"
    by (rule save_and_schedule [OF calm link known may par])
  from j(8) obtain x where x: "x = ?r \<or> x = row j"
    "set (db_work_requests d') = replaced x (set (db_work_requests d))" by blast
  have xs: "skeleton x = skeleton (row i)" "wr_status x = PENDING"
    using x(1) j(7) by (auto simp: skeleton_def)
  have "skeleton q = skeleton x"
    using known_row [OF tree known q(1)] q(2) xs(1) skel by simp
  with left_to_do_pending [OF _ inj_rows [OF tree] q(1), of A B _ x] assms(4) xs(2) x(2)
    evolves_deps [OF j(6)]
  have settled: "settled_but A B d'" by (simp add: settled_but_def)
  have "allowed d' (Reactions j On_unblock)" using j(4,5) by (simp add: allowed_def)
  moreover have "cost d' (Reactions j On_unblock) \<le> m" using assms(2) by (simp add: cost_def)
  moreover have "settled_but A (B \<union> to_check (Reactions j On_unblock)) d'"
    using settled by (simp add: to_check_def)
  ultimately obtain b k d'' where k: "rc (Reactions j On_unblock) d' = (Inr (b, k), d'')"
    "evolves d' d''" "calm_db d''" "linked d'' k" "settled_but A B d''"
    "effect (Reactions j On_unblock) d' b k d''"
    using outcome_call [OF assms(1)] by metis
  have run: "mark_pending e rc i d = (Inr (True, k), d'')"
    using st j(2,3) k(1) by (simp add: mark_pending_def upd_def bind_act_def ret_def)
  have "row k = row j" "set (db_work_requests d'') = replaced x (set (db_work_requests d))"
    using k(6) x(2) by (auto simp: effect_def same_tables_def)
  moreover have "skeleton (row j) = skeleton (row i)" using j(7) by (auto simp: skeleton_def)
  ultimately show ?thesis
    using run k evolves_trans [OF j(6) k(2)] xs by (auto simp: outcome_def effect_def)
qed

text \<open>Finishing the parent, when the database was \<open>d0\<close> at the start of the method.\<close>

lemma step_finish_parent:
  assumes "cascades m rc" and "calm_db d" and "linked d i"
    and "settled_but A (B \<union> set_option (wr_parent (row i))) d" and "evolves d0 d"
    and "cascade_bound d0 (card (in_progress d0)) (rank d0 (wr_id (row i))) \<le> Suc m"
  obtains j d' where "finish_parent rc i d = (Inr j, d')" "evolves d d'" "calm_db d'"
    "linked d' j" "row j = row i" "settled_but A B d'"
proof -
  obtain k p where k: "parent_of i d = (Inr (k, p), d)" "row k = row i" "linked d k"
    "case p of None \<Rightarrow> wr_parent (row i) = None
     | Some q \<Rightarrow> wr_parent (row i) = Some (wr_id (row q)) \<and> linked d q"
    by (rule parent_of_linked [OF assms(2,3)])
  show ?thesis
  proof (cases p)
    case None
    with k assms(2,4) that [of k d] show ?thesis
      by (simp add: finish_parent_def act_defs evolves_refl)
  next
    case (Some q)
    with k(4) have q: "wr_parent (row i) = Some (wr_id (row q))" "linked d q" by simp_all
    have "wr_id (row q) < wr_id (row i)"
      using loaded_parent [OF _ linked_row [OF assms(3)] q(1)] assms(2) by (simp add: calm_db_def)
    moreover have "wr_id (row q) \<in> wr_id ` set (db_work_requests d0)"
      using loaded_id [OF linked_row [OF q(2)]] evolves_ids [OF assms(5)] by (metis set_map)
    ultimately have "mark_cost d q + 3 \<le> Suc m"
      using cost_parent [OF assms(5)] assms(6) by (meson order_trans)
    then have cost: "cost d (MaybeFinish q) \<le> m" by (simp add: cost_def)
    have allowed: "allowed d (MaybeFinish q)" using assms(2) q(2) by (simp add: allowed_def)
    have todo: "settled_but A (B \<union> to_check (MaybeFinish q)) d"
      using assms(4) q(1) by (simp add: to_check_def)
    obtain b k' d' where r: "rc (MaybeFinish q) d = (Inr (b, k'), d')" "evolves d d'"
      "calm_db d'" "linked d' k'" "skeleton (row k') = skeleton (row (call_inst (MaybeFinish q)))"
      "settled_but A B d'" "effect (MaybeFinish q) d b k' d'"
      by (rule outcome_call [OF assms(1) allowed cost todo])
    have par: "wr_parent (row k) = Some (wr_id (row k'))"
      using q(1) k(2) same_skeleton(1) [OF r(5)] by simp
    have "linked d' (set_parent k' k)"
      by (rule linked_set_parent [OF evolves_linked [OF r(2) k(3)] r(4) par])
    with that [of "set_parent k' k" d'] k(1,2) Some r show ?thesis
      by (simp add: finish_parent_def act_defs)
  qed
qed


section \<open>Unblocking or aborting the dependents\<close>

lemma loop_pending:
  assumes "cascades m rc" and "2 \<le> m"
  shows "calm_db d \<Longrightarrow> settled_but A B d \<Longrightarrow> distinct (map wr_id xs) \<Longrightarrow>
    \<forall>x\<in>set xs. x \<in> set (db_work_requests d) \<and> wr_status x = BLOCKED \<Longrightarrow>
    \<exists>d'. for_each xs (\<lambda>r. bind_act (rc (MarkPending (fresh r))) (\<lambda>_. ret ())) d = (Inr (), d')
      \<and> evolves d d' \<and> calm_db d' \<and> settled_but A B d'
      \<and> (\<forall>q\<in>set (db_work_requests d'). if wr_id q \<in> wr_id ` set xs then wr_status q = PENDING
           else q \<in> set (db_work_requests d))"
proof (induction xs arbitrary: d)
  case Nil
  then show ?case by (auto simp: ret_def evolves_refl)
next
  case (Cons x xs)
  have ok: "allowed d (MarkPending (fresh x))"
    using Cons.prems(1,4) linked_fresh [of d x] by (auto simp: allowed_def fresh_def)
  have cost: "cost d (MarkPending (fresh x)) \<le> m" using assms(2) by (simp add: cost_def)
  have todo: "settled_but A (B \<union> to_check (MarkPending (fresh x))) d"
    using Cons.prems(2) by (simp add: to_check_def)
  obtain b j d1 where r: "rc (MarkPending (fresh x)) d = (Inr (b, j), d1)" "evolves d d1"
    "calm_db d1" "linked d1 j" "skeleton (row j) = skeleton (row (call_inst (MarkPending (fresh x))))"
    "settled_but A B d1" "effect (MarkPending (fresh x)) d b j d1"
    by (rule outcome_call [OF assms(1) ok cost todo])
  from r(7) obtain y where y: "skeleton y = skeleton x" "wr_status y = PENDING"
    "set (db_work_requests d1) = replaced y (set (db_work_requests d))"
    by (auto simp: effect_def fresh_def)
  have id: "wr_id y = wr_id x" using y(1) by (rule same_skeleton)
  have "wr_id z \<noteq> wr_id y" if "z \<in> set xs" for z
    using Cons.prems(3) that id by (metis distinct.simps(2) image_eqI list.set_map list.simps(9))
  then have rest: "\<forall>z\<in>set xs. z \<in> set (db_work_requests d1) \<and> wr_status z = BLOCKED"
    using Cons.prems(4) by (simp add: y(3) replaced_def)
  from Cons.IH [OF r(3,6) _ rest] Cons.prems(3) obtain d' where d':
    "for_each xs (\<lambda>r. bind_act (rc (MarkPending (fresh r))) (\<lambda>_. ret ())) d1 = (Inr (), d')"
    "evolves d1 d'" "calm_db d'" "settled_but A B d'"
    "\<forall>q\<in>set (db_work_requests d'). if wr_id q \<in> wr_id ` set xs then wr_status q = PENDING
       else q \<in> set (db_work_requests d1)" by auto
  have run: "for_each (x # xs) (\<lambda>r. bind_act (rc (MarkPending (fresh r))) (\<lambda>_. ret ())) d = (Inr (), d')"
    using r(1) d'(1) by (simp add: seq_act_def bind_act_def ret_def)
  have "\<forall>q\<in>set (db_work_requests d'). if wr_id q \<in> wr_id ` set (x # xs) then wr_status q = PENDING
      else q \<in> set (db_work_requests d)"
    using d'(5) y(2) id unfolding y(3) by (auto simp: replaced_def split: if_splits)
  with run evolves_trans [OF r(2) d'(2)] d'(3,4) show ?case by blast
qed

lemma loop_aborted:
  assumes "cascades m rc" and "cascade_bound d0 (card (in_progress d0)) h \<le> Suc m"
  shows "evolves d0 d \<Longrightarrow> calm_db d \<Longrightarrow> settled_but A B d \<Longrightarrow>
    \<forall>x\<in>set xs. loaded d0 x \<and> wr_id x \<in> in_progress d0 \<Longrightarrow>
    \<exists>d'. for_each xs (\<lambda>r. bind_act (rc (MarkAborted (fresh r) None)) (\<lambda>_. ret ())) d = (Inr (), d')
      \<and> evolves d d' \<and> calm_db d' \<and> settled_but A B d' \<and> (\<forall>x\<in>set xs. gone d' (wr_id x))"
proof (induction xs arbitrary: d)
  case Nil
  then show ?case by (auto simp: ret_def evolves_refl)
next
  case (Cons x xs)
  have "linked d (fresh x)"
    using Cons.prems(4) evolves_loaded [OF Cons.prems(1)] by (simp add: linked_def fresh_def)
  then have ok: "allowed d (MarkAborted (fresh x) None)" using Cons.prems(2) by (simp add: allowed_def)
  have cost: "cost d (MarkAborted (fresh x) None) \<le> m"
    using cost_in_progress [OF Cons.prems(1), of "fresh x" h] Cons.prems(4) assms(2)
    by (simp add: cost_def)
  have todo: "settled_but A (B \<union> to_check (MarkAborted (fresh x) None)) d"
    using Cons.prems(3) by (simp add: to_check_def)
  obtain b j d1 where r: "rc (MarkAborted (fresh x) None) d = (Inr (b, j), d1)" "evolves d d1"
    "calm_db d1" "linked d1 j"
    "skeleton (row j) = skeleton (row (call_inst (MarkAborted (fresh x) None)))"
    "settled_but A B d1" "effect (MarkAborted (fresh x) None) d b j d1"
    by (rule outcome_call [OF assms(1) ok cost todo])
  have rest: "\<forall>z\<in>set xs. loaded d0 z \<and> wr_id z \<in> in_progress d0" using Cons.prems(4) by simp
  from Cons.IH [OF evolves_trans [OF Cons.prems(1) r(2)] r(3,6) rest] obtain d' where d':
    "for_each xs (\<lambda>r. bind_act (rc (MarkAborted (fresh r) None)) (\<lambda>_. ret ())) d1 = (Inr (), d')"
    "evolves d1 d'" "calm_db d'" "settled_but A B d'" "\<forall>z\<in>set xs. gone d' (wr_id z)" by blast
  have run: "for_each (x # xs) (\<lambda>r. bind_act (rc (MarkAborted (fresh r) None)) (\<lambda>_. ret ())) d = (Inr (), d')"
    using r(1) d'(1) by (simp add: seq_act_def bind_act_def ret_def)
  have "gone d1 (wr_id x)" using r(7) by (simp add: effect_def fresh_def)
  then have "gone d' (wr_id x)"
    using evolves_in_progress [OF d'(2)] by (auto simp: gone_def)
  with run evolves_trans [OF r(2) d'(2)] d'(3-5) show ?case by auto
qed

lemma unblock_succeeded:
  assumes "left_to_do (insert k A) B R' D" and "inj_on wr_id R" and "inj_on wr_id R'"
    and "wr_id ` R' = wr_id ` R"
    and "\<forall>q\<in>R'. if wr_id q \<in> wr_id ` X then wr_status q = PENDING else q \<in> R"
    and "X = {x \<in> R. (wr_id x, k) \<in> D \<and> ready R D x}"
    and "\<And>q. q \<in> R \<Longrightarrow> wr_id q = k \<Longrightarrow> is_terminated q \<and> \<not> failed q"
  shows "left_to_do A B R' D"
proof -
  have same: "q \<in> R" if "q \<in> R'" "wr_status q \<noteq> PENDING" for q
    using assms(5) that by (meson)
  have kept: "q \<in> R'" if q: "q \<in> R" "q \<notin> X" for q
  proof -
    obtain q' where q': "q' \<in> R'" "wr_id q' = wr_id q" using q(1) assms(4) by (metis imageE imageI)
    have "wr_id q \<notin> wr_id ` X"
      using q assms(2,6) by (auto simp: inj_on_def)
    with q' assms(5) have "q' \<in> R" by metis
    with q' q(1) assms(2) have "q' = q" by (auto simp: inj_on_def)
    with q' show ?thesis by simp
  qed
  have "wr_id q \<in> A" if q: "x \<in> R'" "q \<in> R'" "wr_status x = BLOCKED" "(wr_id x, wr_id q) \<in> D" "failed q"
    for x q
  proof -
    have "q \<in> R" using q(2,5) by (intro same) (auto simp: failed_def is_terminated_def)
    with assms(7) q(5) have "wr_id q \<noteq> k" by blast
    with assms(1) q show ?thesis by (auto simp: left_to_do_def)
  qed
  moreover have "\<exists>q\<in>A. (wr_id x, q) \<in> D" if x: "x \<in> R'" "ready R' D x" for x
  proof (rule ccontr)
    assume none: "\<not> ?thesis"
    from assms(1) x none have dep: "(wr_id x, k) \<in> D" by (auto simp: left_to_do_def)
    have xR: "x \<in> R" using x by (intro same) (auto simp: ready_def)
    have "wr_status q = COMPLETED" if "q \<in> R" "(wr_id x, wr_id q) \<in> D" for q
    proof (cases "q \<in> X")
      case True
      from that(1) assms(4) obtain q' where q': "q' \<in> R'" "wr_id q' = wr_id q"
        by (metis imageE imageI)
      with True assms(5) have "wr_status q' = PENDING" by (metis imageI)
      with x(2) q' that(2) show ?thesis by (auto simp: ready_def)
    next
      case False
      with kept that x(2) show ?thesis by (auto simp: ready_def)
    qed
    moreover have "\<exists>w\<in>R. wr_id w = p \<and> wr_status w = RUNNING" if "wr_parent x = Some p" for p
      using x(2) that same unfolding ready_def by (metis status.distinct(1))
    ultimately have "x \<in> X" using x(2) xR dep assms(6) by (auto simp: ready_def)
    with assms(5) x have "wr_status x = PENDING" by (metis imageI)
    with x(2) show False by (simp add: ready_def)
  qed
  ultimately show ?thesis using assms(1) by (auto simp: left_to_do_def)
qed

lemma unblock_failed:
  assumes "left_to_do (insert k A) B R D"
    and "\<And>x. x \<in> R \<Longrightarrow> wr_status x = BLOCKED \<Longrightarrow> (wr_id x, k) \<notin> D"
  shows "left_to_do A B R D"
proof -
  have "wr_id q \<in> A" if "x \<in> R" "q \<in> R" "wr_status x = BLOCKED" "(wr_id x, wr_id q) \<in> D" "failed q"
    for x q using assms that by (auto simp: left_to_do_def)
  moreover have "\<exists>q\<in>A. (wr_id x, q) \<in> D" if "x \<in> R" "ready R D x" for x
  proof -
    from assms(1) that obtain q where "q \<in> insert k A" "(wr_id x, q) \<in> D"
      unfolding left_to_do_def by blast
    with assms(2) that show ?thesis by (auto simp: ready_def)
  qed
  ultimately show ?thesis using assms(1) by (auto simp: left_to_do_def)
qed

lemma unblock_step:
  assumes "cascades m rc" and "calm_db d" and "is_terminated (row i)"
    and "\<And>q. q \<in> set (db_work_requests d) \<Longrightarrow> wr_id q = wr_id (row i) \<Longrightarrow>
      is_terminated q \<and> failed q = failed (row i)"
    and "settled_but (insert (wr_id (row i)) A) B d"
    and "cascade_bound d (card (in_progress d)) h \<le> Suc m"
  obtains d' where "unblock_reverse_dependencies rc i d = (Inr (), d')" "evolves d d'" "calm_db d'"
    "settled_but A B d'" "frees_dependents d' (row i)"
proof (cases "failed (row i)")
  case False
  let ?rdeps = "wr_reverse_dependencies d (wr_id (row i))"
  let ?xs = "can_be_automatically_unblocked_qs d ?rdeps"
  have tree: "tree_ok d" using assms(2) by (simp add: calm_db_def)
  have xs: "set ?xs = {x \<in> set (db_work_requests d). (wr_id x, wr_id (row i)) \<in> set (db_dependencies d)
      \<and> ready (set (db_work_requests d)) (set (db_dependencies d)) x}"
    by (auto simp: automatically_unblocked [OF tree] wr_reverse_dependencies_def)
  have dist: "distinct (map wr_id ?xs)"
    using tree unfolding tree_ok_def can_be_automatically_unblocked_qs_def can_be_unblocked_qs_def
      wr_reverse_dependencies_def objects_def by (auto simp: distinct_map inj_on_def)
  have blocked: "\<forall>x\<in>set ?xs. x \<in> set (db_work_requests d) \<and> wr_status x = BLOCKED"
    by (simp add: xs ready_def)
  have "2 \<le> m" using assms(6) by (simp add: cascade_bound_def)
  from loop_pending [OF assms(1) this assms(2,5) dist blocked] obtain d' where d':
    "for_each ?xs (\<lambda>r. bind_act (rc (MarkPending (fresh r))) (\<lambda>_. ret ())) d = (Inr (), d')"
    "evolves d d'" "calm_db d'" "settled_but (insert (wr_id (row i)) A) B d'"
    "\<forall>q\<in>set (db_work_requests d'). if wr_id q \<in> wr_id ` set ?xs then wr_status q = PENDING
       else q \<in> set (db_work_requests d)" by blast
  have tree': "tree_ok d'" using d'(3) by (simp add: calm_db_def)
  have ids: "wr_id ` set (db_work_requests d') = wr_id ` set (db_work_requests d)"
    using evolves_ids [OF d'(2)] by (metis set_map)
  have todo: "left_to_do (insert (wr_id (row i)) A) B (set (db_work_requests d'))
      (set (db_dependencies d))"
    using d'(4) by (simp add: settled_but_def evolves_deps [OF d'(2)])
  have ok: "is_terminated q \<and> \<not> failed q"
    if "q \<in> set (db_work_requests d)" "wr_id q = wr_id (row i)" for q
    using assms(4) [OF that] False by simp
  from unblock_succeeded [OF todo inj_rows [OF tree] inj_rows [OF tree'] ids d'(5) xs ok]
  have settled: "settled_but A B d'"
    by (simp add: settled_but_def evolves_deps [OF d'(2)])
  have "unblock_reverse_dependencies rc i d = (Inr (), d')"
    using d'(1) False assms(3)
    by (auto simp: unblock_reverse_dependencies_def with_db_def failed_def)
  with that [of d'] d'(2,3) settled False show ?thesis by (simp add: frees_dependents_def)
next
  case True
  let ?rdeps = "wr_reverse_dependencies d (wr_id (row i))"
  let ?xs = "filter (\<lambda>r. wr_status r = BLOCKED) ?rdeps"
  have xs: "\<forall>x\<in>set ?xs. loaded d x \<and> wr_id x \<in> in_progress d"
    using calm_db_loaded [OF assms(2)]
    by (auto simp: wr_reverse_dependencies_def objects_def in_progress_def is_terminated_def)
  from loop_aborted [OF assms(1,6) evolves_refl assms(2,5) xs] obtain d' where d':
    "for_each ?xs (\<lambda>r. bind_act (rc (MarkAborted (fresh r) None)) (\<lambda>_. ret ())) d = (Inr (), d')"
    "evolves d d'" "calm_db d'" "settled_but (insert (wr_id (row i)) A) B d'"
    "\<forall>x\<in>set ?xs. gone d' (wr_id x)" by blast
  have none: "(wr_id x, wr_id (row i)) \<notin> set (db_dependencies d')"
    if x: "x \<in> set (db_work_requests d')" "wr_status x = BLOCKED" for x
  proof
    assume dep: "(wr_id x, wr_id (row i)) \<in> set (db_dependencies d')"
    from evolves_backward [OF d'(2) x(1)] obtain y where
      y: "y \<in> set (db_work_requests d)" "row_evolves y x" by blast
    then have "y \<in> set ?xs"
      using x(2) dep row_evolves_id [OF y(2)] evolves_deps [OF d'(2)]
      by (auto simp: wr_reverse_dependencies_def objects_def row_evolves_def)
    with d'(5) have "gone d' (wr_id x)" using row_evolves_id [OF y(2)] by auto
    with x show False by (auto simp: gone_def in_progress_def is_terminated_def)
  qed
  have settled: "settled_but A B d'"
    using d'(4) none unblock_failed unfolding settled_but_def by blast
  have "unblock_reverse_dependencies rc i d = (Inr (), d')"
    using d'(1) True
    by (auto simp: unblock_reverse_dependencies_def with_db_def failed_def)
  with that [of d'] d'(2,3) settled none show ?thesis by (simp add: frees_dependents_def)
qed

section \<open>The methods\<close>

text \<open>The saved row of a terminated request, and the workflow update after it.\<close>

lemma saved_gone:
  assumes "known d r" and "is_terminated r"
  shows "in_progress (saved e r d) \<subseteq> in_progress d - {wr_id r}"
  using assms by (auto simp: in_progress_def saved_mem [OF assms(1)])

lemma bound_mono:
  "in_progress d' \<subseteq> S \<Longrightarrow> finite S \<Longrightarrow> size_of d' = size_of d \<Longrightarrow>
     cascade_bound d' (card (in_progress d')) h \<le> cascade_bound d (card S) h"
  by (auto simp: cascade_bound_def intro!: add_mono mult_le_mono1 card_mono)

lemma settled_schedule:
  assumes "calm_db d" and "linked d i" and "is_terminated (row i)"
    and "settled_but (insert (wr_id (row i)) A) (B \<union> set_option (wr_parent (row i))) d"
  obtains j d' where "schedule_workflow_update e rc i d = (Inr j, d')" "linked d' j"
    "calm_db d'" "evolves d d'" "\<exists>b. row j = (row i)\<lparr>wr_workflows_need_update := b\<rparr>"
    "settled_but (insert (wr_id (row i)) A) (B \<union> set_option (wr_parent (row i))) d'"
    "\<And>q. q \<in> set (db_work_requests d') \<Longrightarrow> q \<in> set (db_work_requests d) \<or> q = row j"
proof -
  obtain j d' where j: "schedule_workflow_update e rc i d = (Inr j, d')" "linked d' j"
    "calm_db d'" "evolves d d'" "\<exists>b. row j = (row i)\<lparr>wr_workflows_need_update := b\<rparr>"
    "db_work_requests d' = db_work_requests d \<or>
     db_work_requests d' = db_work_requests (saved e (row j) d) \<and> known d (row j)"
    by (rule schedule_linked [OF assms(1,2) may_save_terminated [OF assms(3)]])
  have tree: "tree_ok d" using assms(1) by (simp add: calm_db_def)
  have row: "wr_id (row j) = wr_id (row i)" "wr_parent (row j) = wr_parent (row i)"
    "is_terminated (row j)" using j(5) assms(3) by (auto simp: is_terminated_def)
  have settled: "settled_but (insert (wr_id (row i)) A) (B \<union> set_option (wr_parent (row i))) d'"
    using j(6)
  proof
    assume "db_work_requests d' = db_work_requests d"
    with assms(4) show ?thesis by (simp add: settled_but_def evolves_deps [OF j(4)])
  next
    assume s: "db_work_requests d' = db_work_requests (saved e (row j) d) \<and> known d (row j)"
    from settled_saved_terminated [OF assms(4) tree conjunct2 [OF s] row(3), of e] s row(1,2)
    show ?thesis by (simp add: settled_but_def evolves_deps [OF j(4)] Un_assoc)
  qed
  have "q \<in> set (db_work_requests d) \<or> q = row j" if "q \<in> set (db_work_requests d')" for q
    using j(6) that saved_mem by auto
  with that [OF j(1-5) settled] show ?thesis by blast
qed

lemma record_statistics_calm:
  assumes "linked d i"
  shows "\<exists>d'. record_statistics e i out d = (Inr (), d') \<and> same_tables d d'"
proof -
  from linked_row [OF assms] have refs: "get_workspace d (wr_workspace (row i)) \<noteq> None"
    "\<And>w. wr_worker (row i) = Some w \<Longrightarrow> get_worker d w \<noteq> None"
    by (simp_all add: loaded_def refs_ok_def)
  then show ?thesis
    by (auto simp: record_statistics_def with_db_def ret_def modify_db_def same_tables_def
        split: option.splits)
qed

text \<open>A terminated request has just been saved: its dependents, then its parent.\<close>

lemma saved_linked_known:
  assumes "linked d i" and "skeleton r = skeleton (row i)" and "wr_worker r = wr_worker (row i)"
  shows "known d r"
proof -
  have "refs_ok d r = refs_ok d (row i)"
    using same_skeleton [OF assms(2)] assms(3) row_calm [OF assms(2)] by (simp add: refs_ok_def)
  then show ?thesis
    using loaded_known [OF linked_row [OF assms(1)]] assms(2) by (simp add: known_def)
qed

lemma saved_linked:
  assumes "calm_db d" and "linked d i" and "skeleton r = skeleton (row i)"
    and "wr_worker r = wr_worker (row i)" and "is_terminated r" and "settled_but A B d"
  shows "evolves d (saved e r d)" "calm_db (saved e r d)"
    "linked (saved e r d) (upd (\<lambda>_. r) i)"
    "settled_but (insert (wr_id r) A) (B \<union> set_option (wr_parent r)) (saved e r d)"
    "cascade_bound (saved e r d) (card (in_progress (saved e r d))) (rank (saved e r d) (wr_id r))
       \<le> mark_cost d i"
    "gone (saved e r d) (wr_id r)"
proof -
  let ?d = "saved e r d"
  have tree: "tree_ok d" using assms(1) by (simp add: calm_db_def)
  have known: "known d r" by (rule saved_linked_known [OF assms(2-4)])
  show ev: "evolves d ?d"
    by (rule saved_evolves [OF tree known may_save_terminated [OF assms(5)]])
  show calm: "calm_db ?d" by (rule saved_calm [OF assms(1) known])
  have "r \<in> set (db_work_requests ?d)" by (simp add: saved_mem [OF known])
  then show "linked ?d (upd (\<lambda>_. r) i)"
    using calm_db_loaded [OF calm] evolves_linked [OF ev assms(2)] same_skeleton(2) [OF assms(3)]
    by (intro linked_upd) simp_all
  show "settled_but (insert (wr_id r) A) (B \<union> set_option (wr_parent r)) ?d"
    by (rule settled_saved_terminated [OF assms(6) tree known assms(5)])
  have gone: "in_progress ?d \<subseteq> in_progress d - {wr_id r}" by (rule saved_gone [OF known assms(5)])
  then show "gone ?d (wr_id r)" by (auto simp: gone_def)
  from bound_mono [OF gone _ evolves_size [OF ev]]
  show "cascade_bound ?d (card (in_progress ?d)) (rank ?d (wr_id r)) \<le> mark_cost d i"
    using same_skeleton(1) [OF assms(3)] evolves_rank [OF ev] by (simp add: mark_cost_def)
qed

lemma evolves_gone: "evolves d d' \<Longrightarrow> gone d k \<Longrightarrow> gone d' k"
  using evolves_in_progress by (auto simp: gone_def)

lemma evolves_frees:
  assumes "evolves d d'" and "frees_dependents d r"
  shows "frees_dependents d' r"
  unfolding frees_dependents_def
proof (intro impI ballI)
  fix x assume "failed r" and x: "x \<in> set (db_work_requests d')" "wr_status x = BLOCKED"
  from evolves_backward [OF assms(1) x(1)] obtain y where
    y: "y \<in> set (db_work_requests d)" "row_evolves y x" by blast
  with x(2) \<open>failed r\<close> assms(2) row_evolves_id [OF y(2)]
  show "(wr_id x, wr_id r) \<notin> set (db_dependencies d')"
    by (auto simp: frees_dependents_def row_evolves_def evolves_deps [OF assms(1)])
qed

lemma settled_saved_again:
  assumes "calm_db d" and "known d r" and "gone d (wr_id r)" and "wr_status r = ABORTED"
    and "frees_dependents d r" and "settled_but A B d"
  shows "settled_but A B (saved e r d)"
proof -
  have tree: "tree_ok d" using assms(1) by (simp add: calm_db_def)
  obtain q where q: "q \<in> set (db_work_requests d)" "skeleton q = skeleton r"
    using assms(2) by (auto simp: known_def)
  have "is_terminated q"
    using assms(3) q(1) same_skeleton(1) [OF q(2)] by (auto simp: gone_def in_progress_def)
  with left_to_do_again [OF _ inj_rows [OF tree] q] assms(4-6) show ?thesis
    by (simp add: settled_but_def saved_replaced [OF assms(2)] frees_dependents_def)
qed

lemma step_aborted:
  assumes "cascades m rc" and "allowed d (MarkAborted i u)" and "cost d (MarkAborted i u) \<le> Suc m"
    and "settled_but A B d"
  shows "outcome (MarkAborted i u) A B d (mark_aborted e rc i u d)"
proof -
  let ?f = "\<lambda>r. r\<lparr>wr_aborted_by := u, wr_completed_at := Some (env_now e), wr_status := ABORTED\<rparr>"
  let ?r = "?f (row i)" and ?i = "upd ?f i"
  let ?d = "saved e ?r d"
  from assms(2) have calm: "calm_db d" and link: "linked d i" by (simp_all add: allowed_def)
  have skel: "skeleton ?r = skeleton (row i)" by (simp add: skeleton_def)
  have worker: "wr_worker ?r = wr_worker (row i)" and over: "is_terminated ?r"
    by (simp_all add: is_terminated_def)
  have i: "upd (\<lambda>_. ?r) i = ?i" by (simp add: upd_def)
  have row [simp]: "row ?i = ?r" by simp
  have known: "known d ?r" by (rule saved_linked_known [OF link skel worker])
  note s = saved_linked [OF calm link skel worker over assms(4), of e, unfolded i]
  have tree: "tree_ok ?d" using s(2) by (simp add: calm_db_def)
  have bound: "cascade_bound ?d (card (in_progress ?d)) (rank ?d (wr_id (row ?i))) \<le> Suc m"
    using s(5) assms(3) by (simp add: cost_def)
  have own: "is_terminated q \<and> failed q = failed (row ?i)"
    if "q \<in> set (db_work_requests ?d)" "wr_id q = wr_id (row ?i)" for q
    using that over saved_mem [OF known] by auto
  have over': "is_terminated (row ?i)" using over by simp
  have todo: "settled_but (insert (wr_id (row ?i)) A) (B \<union> set_option (wr_parent (row ?i))) ?d"
    using s(4) by simp
  obtain d2 where d2: "unblock_reverse_dependencies rc ?i ?d = (Inr (), d2)" "evolves ?d d2"
    "calm_db d2" "settled_but A (B \<union> set_option (wr_parent (row ?i))) d2"
    "frees_dependents d2 (row ?i)"
    by (rule unblock_step [OF assms(1) s(2) over' own todo bound])
  obtain j d3 where d3: "finish_parent rc ?i d2 = (Inr j, d3)" "evolves d2 d3" "calm_db d3"
    "linked d3 j" "row j = row ?i" "settled_but A B d3"
    by (rule step_finish_parent [OF assms(1) d2(3) evolves_linked [OF d2(2) s(3)] d2(4,2) bound])
  have over_j: "is_terminated (row j)" using d3(5) over by simp
  obtain k d4 where d4: "schedule_workflow_update e rc j d3 = (Inr k, d4)" "linked d4 k"
    "calm_db d4" "evolves d3 d4" "\<exists>b. row k = (row j)\<lparr>wr_workflows_need_update := b\<rparr>"
    "db_work_requests d4 = db_work_requests d3 \<or>
     db_work_requests d4 = db_work_requests (saved e (row k) d3) \<and> known d3 (row k)"
    by (rule schedule_linked [OF d3(3,4) may_save_terminated [OF over_j]])
  have k: "wr_id (row k) = wr_id (row i)" "skeleton (row k) = skeleton (row i)"
    "wr_status (row k) = ABORTED" "failed (row k) = failed ?r"
    using d4(5) d3(5) skel by (auto simp: skeleton_def failed_def is_terminated_def)
  have ev: "evolves ?d d3" by (rule evolves_trans [OF d2(2) d3(2)])
  have gone: "gone d3 (wr_id (row k))" using evolves_gone [OF ev s(6)] k(1) by simp
  have "frees_dependents d3 ?r" using evolves_frees [OF d3(2) d2(5)] by simp
  then have free: "frees_dependents d3 (row k)" using k by (simp add: frees_dependents_def)
  have settled: "settled_but A B d4" using d4(6)
  proof
    assume "db_work_requests d4 = db_work_requests d3"
    with d3(6) show ?thesis by (simp add: settled_but_def evolves_deps [OF d4(4)])
  next
    assume a: "db_work_requests d4 = db_work_requests (saved e (row k) d3) \<and> known d3 (row k)"
    with settled_saved_again [OF d3(3) _ gone k(3) free d3(6), of e] show ?thesis
      by (simp add: settled_but_def evolves_deps [OF d4(4)])
  qed
  have "wr_id ?r \<noteq> 0" using known by (simp add: known_def refs_ok_def)
  then have "save e rc ?i d = (Inr ?i, ?d)" using save_known [of ?i] by simp
  then have run: "mark_aborted e rc i u d = (Inr (True, k), d4)"
    using d2(1) d3(1) d4(1) by (simp add: mark_aborted_def bind_act_def seq_act_def ret_def)
  have "evolves d d4" using s(1) ev d4(4) evolves_trans by blast
  with run d4(2,3) settled k evolves_gone [OF d4(4) gone] evolves_frees [OF d4(4) free]
  show ?thesis by (auto simp: outcome_def effect_def)
qed

text \<open>The row \<open>mark_completed\<close> writes.\<close>

definition completed_row ::
  "env \<Rightarrow> result \<Rightarrow> output_data option \<Rightarrow> work_request \<Rightarrow> work_request" where
  "completed_row e res out r =
     (let r = r\<lparr>wr_result := res, wr_completed_at := Some (env_now e), wr_status := COMPLETED\<rparr>
      in case out of None \<Rightarrow> r
         | Some od \<Rightarrow> r\<lparr>wr_output_data := Some
             (case wr_output_data r of None \<Rightarrow> od | Some own \<Rightarrow> merge own od)\<rparr>)"

lemma completed_row_simps:
  "skeleton (completed_row e res out r) = skeleton r" "wr_id (completed_row e res out r) = wr_id r"
  "wr_worker (completed_row e res out r) = wr_worker r"
  "wr_parent (completed_row e res out r) = wr_parent r"
  "wr_status (completed_row e res out r) = COMPLETED" "is_terminated (completed_row e res out r)"
  "wr_result (completed_row e res out r) = res"
  "wr_completed_at (completed_row e res out r) = Some (env_now e)"
  by (cases out; simp add: completed_row_def Let_def skeleton_def is_terminated_def)+

definition completion_event :: "result \<Rightarrow> event_name" where
  "completion_event res = (if res = SUCCESS then On_success else On_failure)"

lemma mark_completed_unfold:
  assumes "wr_status (row i) \<in> {PENDING, RUNNING}" and "res \<noteq> NONE"
    and "wr_id (row i) \<noteq> 0"
    and "record_statistics e (Inst (completed_row e res out (row i)) (cached_parent i)) out
      (saved e (completed_row e res out (row i)) d) = (Inr (), d1)"
    and "schedule_workflow_update e rc (Inst (completed_row e res out (row i)) (cached_parent i)) d1
      = (Inr j, d2)"
    and "wr_result (row j) = res"
    and "unblock_reverse_dependencies rc j d2 = (Inr (), d3)"
    and "(if res = SKIPPED then ret (True, j) else rc (Reactions j (completion_event res))) d3
      = (Inr (b, k), d4)"
    and "finish_parent rc k d4 = (Inr l, d5)"
  shows "mark_completed e rc i res out d = (Inr (True, l), d5)"
proof -
  let ?i = "Inst (completed_row e res out (row i)) (cached_parent i)"
  have i: "(case out of
        None \<Rightarrow> upd (\<lambda>r. r\<lparr>wr_result := res', wr_completed_at := Some (env_now e),
                           wr_status := COMPLETED\<rparr>) i
      | Some od \<Rightarrow> upd (\<lambda>r. r\<lparr>wr_output_data := Some
          (case wr_output_data r of None \<Rightarrow> od | Some own \<Rightarrow> merge own od)\<rparr>)
          (upd (\<lambda>r. r\<lparr>wr_result := res', wr_completed_at := Some (env_now e),
                      wr_status := COMPLETED\<rparr>) i)) = Inst (completed_row e res' out (row i)) (cached_parent i)" for res'
    by (simp add: completed_row_def upd_def split: option.splits)
  have "save e rc ?i d = (Inr ?i, saved e (row ?i) d)"
    using assms(3) by (intro save_known) (simp add: completed_row_simps)
  with assms show ?thesis
    by (cases res)
      (auto simp: mark_completed_def Let_def i bind_act_def seq_act_def ret_def completion_event_def)
qed

lemma step_completed:
  assumes "cascades m rc" and "allowed d (MarkCompleted i res out)"
    and "cost d (MarkCompleted i res out) \<le> Suc m" and "settled_but A B d"
  shows "outcome (MarkCompleted i res out) A B d (mark_completed e rc i res out d)"
proof (cases "wr_status (row i) \<in> {PENDING, RUNNING}")
  case False
  with assms(2,4) show ?thesis
    by (auto simp: mark_completed_def ret_def outcome_def effect_def allowed_def evolves_refl)
next
  case True
  let ?r = "completed_row e res out (row i)"
  let ?i = "Inst ?r (cached_parent i)" and ?d = "saved e ?r d"
  from assms(2) have calm: "calm_db d" and link: "linked d i" and res: "res \<noteq> NONE"
    by (simp_all add: allowed_def)
  have skel: "skeleton ?r = skeleton (row i)" and worker: "wr_worker ?r = wr_worker (row i)"
    and over: "is_terminated ?r" by (simp_all add: completed_row_simps)
  have i: "upd (\<lambda>_. ?r) i = ?i" by (simp add: upd_def)
  have known: "known d ?r" by (rule saved_linked_known [OF link skel worker])
  note s = saved_linked [OF calm link skel worker over assms(4), of e, unfolded i]
  obtain d1 where d1: "record_statistics e ?i out ?d = (Inr (), d1)" "same_tables ?d d1"
    using record_statistics_calm [OF s(3)] by blast
  have ev1: "evolves ?d d1" by (rule same_tables_evolves [OF d1(2)])
  have over_i: "is_terminated (row ?i)" using over by simp
  have todo: "settled_but (insert (wr_id (row ?i)) A) (B \<union> set_option (wr_parent (row ?i))) d1"
    using s(4) settled_same [OF d1(2)] by simp
  obtain j d2 where j: "schedule_workflow_update e rc ?i d1 = (Inr j, d2)" "linked d2 j"
    "calm_db d2" "evolves d1 d2" "\<exists>b. row j = (row ?i)\<lparr>wr_workflows_need_update := b\<rparr>"
    "settled_but (insert (wr_id (row ?i)) A) (B \<union> set_option (wr_parent (row ?i))) d2"
    "\<And>q. q \<in> set (db_work_requests d2) \<Longrightarrow> q \<in> set (db_work_requests d1) \<or> q = row j"
    by (rule settled_schedule [OF same_tables_calm [OF d1(2) s(2)] evolves_linked [OF ev1 s(3)]
          over_i todo]) blast
  have rj: "wr_id (row j) = wr_id (row i)" "wr_parent (row j) = wr_parent (row i)"
    "is_terminated (row j)" "wr_result (row j) = res" "skeleton (row j) = skeleton (row i)"
    "wr_completed_at (row j) \<noteq> None" "failed (row j) = failed ?r"
    using j(5) skel by (auto simp: completed_row_simps failed_def skeleton_def is_terminated_def)
  have own: "is_terminated q \<and> failed q = failed (row j)"
    if "q \<in> set (db_work_requests d2)" "wr_id q = wr_id (row j)" for q
    using j(7) [OF that(1)]
  proof
    assume "q \<in> set (db_work_requests d1)"
    then have "q = ?r"
      using d1(2) that(2) rj(1) saved_mem [OF known, of q] by (auto simp: same_tables_def completed_row_simps)
    with over rj(7) show ?thesis by simp
  qed (use rj(3) in simp)
  have ev2: "evolves ?d d2" by (rule evolves_trans [OF ev1 j(4)])
  from bound_mono [OF evolves_in_progress [OF ev2] finite_in_progress evolves_size [OF ev2]]
  have bound: "cascade_bound d2 (card (in_progress d2)) (rank d2 (wr_id (row j))) \<le> Suc m"
    using s(5) assms(3) evolves_rank [OF ev2] rj(1)
    by (simp add: cost_def completed_row_simps) (meson order_trans)
  have todo2: "settled_but (insert (wr_id (row j)) A) (B \<union> set_option (wr_parent (row j))) d2"
    using j(6) rj by (simp add: completed_row_simps)
  obtain d3 where d3: "unblock_reverse_dependencies rc j d2 = (Inr (), d3)" "evolves d2 d3"
    "calm_db d3" "settled_but A (B \<union> set_option (wr_parent (row j))) d3"
    "frees_dependents d3 (row j)"
    by (rule unblock_step [OF assms(1) j(3) rj(3) own todo2 bound])
  have "\<exists>b k d4. (if res = SKIPPED then ret (True, j) else rc (Reactions j (completion_event res))) d3
      = (Inr (b, k), d4) \<and> row k = row j \<and> linked d4 k \<and> calm_db d4 \<and> evolves d3 d4
      \<and> settled_but A (B \<union> set_option (wr_parent (row j))) d4"
  proof (cases "res = SKIPPED")
    case True
    with d3 evolves_linked [OF d3(2) j(2)] show ?thesis by (auto simp: ret_def evolves_refl)
  next
    case False
    have ok: "allowed d3 (Reactions j (completion_event res))"
      using d3(3) evolves_linked [OF d3(2) j(2)] rj(6) by (simp add: allowed_def)
    have cost: "cost d3 (Reactions j (completion_event res)) \<le> m"
      using bound by (simp add: cost_def cascade_bound_def)
    have todo3: "settled_but A (B \<union> set_option (wr_parent (row j))
        \<union> to_check (Reactions j (completion_event res))) d3"
      using d3(4) by (simp add: to_check_def)
    obtain b k d4 where "rc (Reactions j (completion_event res)) d3 = (Inr (b, k), d4)"
      "evolves d3 d4" "calm_db d4" "linked d4 k"
      "skeleton (row k) = skeleton (row (call_inst (Reactions j (completion_event res))))"
      "settled_but A (B \<union> set_option (wr_parent (row j))) d4"
      "effect (Reactions j (completion_event res)) d3 b k d4"
      by (rule outcome_call [OF assms(1) ok cost todo3])
    with False show ?thesis by (auto simp: effect_def)
  qed
  then obtain b k d4 where k:
    "(if res = SKIPPED then ret (True, j) else rc (Reactions j (completion_event res))) d3
      = (Inr (b, k), d4)" "row k = row j" "linked d4 k" "calm_db d4" "evolves d3 d4"
    "settled_but A (B \<union> set_option (wr_parent (row j))) d4" by blast
  have todo4: "settled_but A (B \<union> set_option (wr_parent (row k))) d4" using k(2,6) by simp
  have bound4: "cascade_bound d2 (card (in_progress d2)) (rank d2 (wr_id (row k))) \<le> Suc m"
    using bound k(2) by simp
  obtain l d5 where l: "finish_parent rc k d4 = (Inr l, d5)" "evolves d4 d5" "calm_db d5"
    "linked d5 l" "row l = row k" "settled_but A B d5"
    by (rule step_finish_parent [OF assms(1) k(4,3) todo4 evolves_trans [OF d3(2) k(5)] bound4])
  have "wr_id (row i) \<noteq> 0" using linked_row [OF link] by (simp add: loaded_def refs_ok_def)
  from mark_completed_unfold [OF True res this d1(1) j(1) rj(4) d3(1) k(1) l(1)]
  have run: "mark_completed e rc i res out d = (Inr (True, l), d5)" .
  have ev: "evolves ?d d5"
    using ev2 d3(2) k(5) l(2) evolves_trans by blast
  have "gone d5 (wr_id (row i))" using evolves_gone [OF ev s(6)] by (simp add: completed_row_simps)
  with run evolves_trans [OF s(1) ev] l(3-6) k(2) rj(5) True show ?thesis
    by (auto simp: outcome_def effect_def)
qed

lemma settled_checked:
  assumes "settled_but A (insert k B) d"
    and "\<And>w. w \<in> set (db_work_requests d) \<Longrightarrow> wr_id w = k \<Longrightarrow> \<not> all_done (set (db_work_requests d)) w"
  shows "settled_but A B d"
  using assms unfolding settled_but_def left_to_do_def by blast

lemma gone_not_running:
  "gone d k \<Longrightarrow> w \<in> set (db_work_requests d) \<Longrightarrow> wr_id w = k \<Longrightarrow> wr_status w \<noteq> RUNNING"
  by (auto simp: gone_def in_progress_def is_terminated_def)

text \<open>Marking a running workflow that waited for its check.\<close>

lemma finish_marked:
  assumes "cascades m rc" and "allowed d c" and "cost d c \<le> m"
    and "c = MarkAborted i u \<or> (c = MarkCompleted i res out \<and> wr_status (row i) = RUNNING)"
    and "settled_but A (insert (wr_id (row i)) B) d"
  shows "outcome (MaybeFinish i) A B d (bind_act (rc c) (\<lambda>(_, self). ret (True, self)) d)"
proof -
  have todo: "settled_but A (insert (wr_id (row i)) B \<union> to_check c) d"
    using assms(4,5) by (auto simp: to_check_def)
  obtain b j d' where r: "rc c d = (Inr (b, j), d')" "evolves d d'" "calm_db d'" "linked d' j"
    "skeleton (row j) = skeleton (row (call_inst c))" "settled_but A (insert (wr_id (row i)) B) d'"
    "effect c d b j d'"
    by (rule outcome_call [OF assms(1-3) todo])
  have "gone d' (wr_id (row i))" using r(7) assms(4) by (auto simp: effect_def)
  then have "settled_but A B d'"
    using settled_checked [OF r(6)] gone_not_running by (auto simp: all_done_def)
  moreover have "call_inst c = i" using assms(4) by auto
  ultimately show ?thesis
    using r(1-5) by (auto simp: outcome_def effect_def bind_act_def ret_def)
qed

lemma step_maybe_finish:
  assumes "cascades m rc" and "allowed d (MaybeFinish i)" and "cost d (MaybeFinish i) \<le> Suc m"
    and "settled_but A (insert (wr_id (row i)) B) d"
  shows "outcome (MaybeFinish i) A B d (maybe_finish_workflow e rc i d)"
proof (cases "wr_task_type (row i) \<noteq> WORKFLOW \<or> wr_status (row i) \<noteq> RUNNING
    \<or> has_children_in_progress d (wr_id (row i))")
  case True
  from assms(2) have calm: "calm_db d" and link: "linked d i" by (simp_all add: allowed_def)
  have tree: "tree_ok d" using calm by (simp add: calm_db_def)
  have "\<not> all_done (set (db_work_requests d)) w"
    if w: "w \<in> set (db_work_requests d)" "wr_id w = wr_id (row i)" for w
  proof
    assume fin: "all_done (set (db_work_requests d)) w"
    have "wr_task_type (row i) = WORKFLOW"
      using fin same_skeleton(3) [OF known_row [OF tree loaded_known [OF linked_row [OF link]] w]]
      by (simp add: all_done_def)
    moreover have "wr_status (row i) = RUNNING"
      by (rule loaded_running [OF tree linked_row [OF link] w]) (use fin in \<open>simp add: all_done_def\<close>)
    ultimately have "has_children_in_progress d (wr_id (row i))" using True by simp
    then obtain c where "c \<in> set (db_work_requests d)" "wr_parent c = Some (wr_id w)"
      "\<not> is_terminated c"
      by (auto simp: has_children_in_progress_def wr_children_def objects_def filter_empty_conv
          is_terminated_def w(2))
    with fin show False by (simp add: all_done_def)
  qed
  from settled_checked [OF assms(4) this] have settled: "settled_but A B d" .
  have "maybe_finish_workflow e rc i d = (Inr (False, i), d)"
    using True by (auto simp: maybe_finish_workflow_def with_db_def ret_def)
  with settled calm link show ?thesis
    by (auto simp: outcome_def effect_def evolves_refl)
next
  case False
  have cost: "cost d (MarkAborted i u) \<le> m" "cost d (MarkCompleted i res out) \<le> m" for u res out
    using assms(3) by (simp_all add: cost_def)
  have ok: "allowed d (MarkAborted i u)" "res \<noteq> NONE \<Longrightarrow> allowed d (MarkCompleted i res out)"
    for u res out using assms(2) by (simp_all add: allowed_def)
  have aborted: "outcome (MaybeFinish i) A B d
      (bind_act (rc (MarkAborted i None)) (\<lambda>(_, self). ret (True, self)) d)"
    by (rule finish_marked [OF assms(1) ok(1) cost(1) _ assms(4)]) simp
  have completed: "outcome (MaybeFinish i) A B d
      (bind_act (rc (MarkCompleted i res None)) (\<lambda>(_, self). ret (True, self)) d)"
    if "res \<noteq> NONE" for res
    by (rule finish_marked [OF assms(1) ok(2) [OF that] cost(2) _ assms(4)]) (use False in simp)
  show ?thesis
    using False aborted completed [of SUCCESS] completed [of FAILURE]
    by (simp add: maybe_finish_workflow_def with_db_def Let_def)
qed

section \<open>The whole cascade\<close>

lemma cascades_step:
  assumes "calm_env e" and "cascades m rc"
  shows "cascades (Suc m) (handle e rc)"
  unfolding cascades_def
proof (intro allI impI)
  fix c d A B
  assume ok: "allowed d c" and cost: "cost d c \<le> Suc m" and todo: "settled_but A (B \<union> to_check c) d"
  show "outcome c A B d (handle e rc c d)"
  proof (cases c)
    case (MarkCompleted i res out)
    with step_completed [OF assms(2)] ok cost todo show ?thesis
      by (simp add: handle_def to_check_def)
  next
    case (MarkPending i)
    with cost have "1 \<le> m" by (simp add: cost_def)
    with MarkPending step_pending [OF assms(2)] ok todo show ?thesis
      by (simp add: handle_def to_check_def)
  next
    case (MarkAborted i u)
    with step_aborted [OF assms(2)] ok cost todo show ?thesis
      by (simp add: handle_def to_check_def)
  next
    case (MaybeFinish i)
    with step_maybe_finish [OF assms(2)] ok cost todo show ?thesis
      by (simp add: handle_def to_check_def)
  next
    case (Reactions i ev)
    with step_reactions [OF assms(1)] ok todo show ?thesis
      by (simp add: handle_def to_check_def)
  next
    case (Retry cx i reason)
    with ok show ?thesis by (simp add: allowed_def)
  qed
qed

lemma cascades_run: "calm_env e \<Longrightarrow> cascades n (run n e)"
proof (induction n)
  case 0
  have "0 < cost d c" if "allowed d c" for d c
    using that by (cases c) (simp_all add: cost_def mark_cost_def cascade_bound_def allowed_def)
  then show ?case unfolding cascades_def by (metis not_le)
next
  case (Suc n)
  then show ?case using cascades_step by simp
qed

section \<open>Settled databases\<close>

text \<open>
  Nothing is left to do: no blocked request depends on a terminated one that
  failed (and was not allowed to), no request could be unblocked, no running
  workflow has only terminated children.
\<close>

definition settled :: "db \<Rightarrow> bool" where
  "settled d \<longleftrightarrow>
     (\<forall>x\<in>set (db_work_requests d). wr_status x = BLOCKED \<longrightarrow>
        \<not> list_ex failed (wr_dependencies d (wr_id x)))
     \<and> can_be_automatically_unblocked_qs d (db_work_requests d) = []
     \<and> (\<forall>w\<in>set (db_work_requests d). wr_task_type w = WORKFLOW \<longrightarrow> wr_status w = RUNNING \<longrightarrow>
          wr_children d (wr_id w) = [] \<or> has_children_in_progress d (wr_id w))"

lemma settled_iff:
  assumes "tree_ok d"
  shows "settled d \<longleftrightarrow> settled_but {} {} d"
proof -
  let ?R = "set (db_work_requests d)" and ?D = "set (db_dependencies d)"
  have a: "(\<forall>x\<in>?R. wr_status x = BLOCKED \<longrightarrow> \<not> list_ex failed (wr_dependencies d (wr_id x)))
      \<longleftrightarrow> (\<forall>x\<in>?R. \<forall>q\<in>?R. wr_status x = BLOCKED \<longrightarrow> (wr_id x, wr_id q) \<in> ?D \<longrightarrow> failed q \<longrightarrow> wr_id q \<in> {})"
    by (auto simp: list_ex_iff wr_dependencies_def objects_def)
  have b: "can_be_automatically_unblocked_qs d (db_work_requests d) = [] \<longleftrightarrow>
      (\<forall>x\<in>?R. ready ?R ?D x \<longrightarrow> (\<exists>q\<in>{}. (wr_id x, q) \<in> ?D))"
    using automatically_unblocked [OF assms, of _ "db_work_requests d"]
    by (metis (no_types, lifting) empty_iff empty_set set_empty bex_empty equals0I)
  have c: "(wr_task_type w = WORKFLOW \<longrightarrow> wr_status w = RUNNING \<longrightarrow>
      wr_children d (wr_id w) = [] \<or> has_children_in_progress d (wr_id w)) \<longleftrightarrow> \<not> all_done ?R w" for w
    by (auto simp: has_children_in_progress_def wr_children_def objects_def filter_empty_conv
        all_done_def is_terminated_def)
  show ?thesis unfolding settled_def settled_but_def left_to_do_def a b c by blast
qed

text \<open>Fuel that is enough for every cascade in a database of this size.\<close>

definition cascade_fuel :: "db \<Rightarrow> nat" where
  "cascade_fuel d = 3 * (length (db_work_requests d) * Suc (length (db_work_requests d))
     + length (db_work_requests d)) + 3"

lemma size_length: "size_of d \<le> length (db_work_requests d)"
  unfolding size_of_def by (rule order_trans [OF card_image_le card_length]) simp

lemma in_progress_length: "card (in_progress d - S) \<le> length (db_work_requests d)"
proof -
  have "card (in_progress d - S) \<le> size_of d"
    unfolding size_of_def using in_progress_subset by (intro card_mono) auto
  then show ?thesis using size_length by (rule order_trans)
qed

lemma fuel_bound:
  assumes "h \<le> length (db_work_requests d)"
  shows "cascade_bound d (card (in_progress d - S)) h \<le> cascade_fuel d"
proof -
  have "card (in_progress d - S) * Suc (size_of d)
      \<le> length (db_work_requests d) * Suc (length (db_work_requests d))"
    using in_progress_length [of d S] size_length [of d] by (intro mult_le_mono) simp_all
  with assms show ?thesis by (simp add: cascade_bound_def cascade_fuel_def)
qed

lemma fuel_mark_cost: "mark_cost d i \<le> cascade_fuel d"
  unfolding mark_cost_def using order_trans [OF rank_size size_length] by (rule fuel_bound)

lemma terminated_in:
  "gone d' k \<longleftrightarrow> (\<forall>q\<in>set (db_work_requests d'). wr_id q = k \<longrightarrow> is_terminated q)"
  by (auto simp: gone_def in_progress_def)

lemma cascade_outcome:
  assumes "calm_env e" and "settled d" and "allowed d c" and "to_check c = {}"
    and "cost d c \<le> n"
  obtains b j d' where "run n e c d = (Inr (b, j), d')" "evolves d d'" "calm_db d'" "settled d'"
    "linked d' j" "skeleton (row j) = skeleton (row (call_inst c))" "effect c d b j d'"
proof -
  have tree: "tree_ok d" using assms(3) by (simp add: allowed_def calm_db_def)
  have "settled_but {} ({} \<union> to_check c) d"
    using assms(2,4) settled_iff [OF tree] by simp
  from outcome_call [OF cascades_run [OF assms(1)] assms(3,5) this] obtain b j d' where
    r: "run n e c d = (Inr (b, j), d')" "evolves d d'" "calm_db d'" "linked d' j"
      "skeleton (row j) = skeleton (row (call_inst c))" "settled_but {} {} d'" "effect c d b j d'"
    by blast
  have "settled d'" using r(3,6) settled_iff [of d'] by (simp add: calm_db_def)
  with that r show ?thesis by blast
qed

lemma completing_settles:
  assumes "calm_env e" and "calm_db d" and "settled d"
    and "r \<in> set (db_work_requests d)" and "res \<noteq> NONE" and "cascade_fuel d \<le> n"
  shows "\<exists>j d'. run n e (MarkCompleted (fresh r) res out) d =
      (Inr (wr_status r \<in> {PENDING, RUNNING}, j), d')
    \<and> evolves d d' \<and> calm_db d' \<and> settled d'
    \<and> (wr_status r \<in> {PENDING, RUNNING} \<longrightarrow>
        (\<forall>q\<in>set (db_work_requests d'). wr_id q = wr_id r \<longrightarrow> is_terminated q))"
proof -
  let ?c = "MarkCompleted (fresh r) res out"
  have ok: "allowed d ?c" using assms(2,4,5) linked_fresh by (simp add: allowed_def)
  have cost: "cost d ?c \<le> n" using order_trans [OF fuel_mark_cost assms(6)] by (simp add: cost_def)
  have "to_check ?c = {}" by (simp add: to_check_def)
  from cascade_outcome [OF assms(1,3) ok this cost] obtain b j d' where
    r: "run n e ?c d = (Inr (b, j), d')" "evolves d d'" "calm_db d'" "settled d'" "effect ?c d b j d'"
    by blast
  have "b = (wr_status r \<in> {PENDING, RUNNING})" "b \<longrightarrow> gone d' (wr_id r)"
    using r(5) by (auto simp: effect_def fresh_def)
  with r(1-4) show ?thesis by (auto simp: terminated_in)
qed

text \<open>
  C1: completing a work request with a result ends within the given number of nested calls:
  it does not raise, the request is terminated if it was pending or running (and refused
  otherwise), every other request evolves only towards its end, and nothing is left to do:
  every request that depended on it is unblocked or aborted, and every workflow whose last
  child ended is finished. Nothing was left to do before; tasks have the event reactions of
  \<open>BaseTask\<close>, which record the run in the history of tasks; the requests' own reactions may
  notify, update collections and record the history too, but not skip the request when a
  lookup changed or retry it with a delay; and collections answer, or fail with the errors
  the reactions expect, without touching work requests.
\<close>

theorem mark_completed_settles:
  assumes "calm_env e" and "calm_db d" and "settled d"
    and "r \<in> set (db_work_requests d)" and "res \<noteq> NONE" and "cascade_fuel d \<le> n"
  shows "\<exists>j d'. run n e (MarkCompleted (fresh r) res out) d =
      (Inr (wr_status r \<in> {PENDING, RUNNING}, j), d')
    \<and> evolves d d' \<and> calm_db d' \<and> settled d'
    \<and> (wr_status r \<in> {PENDING, RUNNING} \<longrightarrow>
        (\<forall>q\<in>set (db_work_requests d'). wr_id q = wr_id r \<longrightarrow> is_terminated q))"
  using assms by (rule completing_settles)

text \<open>
  C2: under the same conditions on event reactions and collections, aborting a work request
  ends within the given number of nested calls, the request ends as terminated, and
  everything that cannot run any more because of it is aborted, through both the
  dependencies and the tree of workflows, without leaving anything to do.
\<close>

theorem mark_aborted_settles:
  assumes "calm_env e" and "calm_db d" and "settled d"
    and "r \<in> set (db_work_requests d)" and "cascade_fuel d \<le> n"
  shows "\<exists>j d'. run n e (MarkAborted (fresh r) user) d = (Inr (True, j), d')
    \<and> evolves d d' \<and> calm_db d' \<and> settled d' \<and> wr_status (row j) = ABORTED
    \<and> (\<forall>q\<in>set (db_work_requests d'). wr_id q = wr_id r \<longrightarrow> is_terminated q)"
proof -
  let ?c = "MarkAborted (fresh r) user"
  have ok: "allowed d ?c" using assms(2,4) linked_fresh by (simp add: allowed_def)
  have cost: "cost d ?c \<le> n" using order_trans [OF fuel_mark_cost assms(5)] by (simp add: cost_def)
  have "to_check ?c = {}" by (simp add: to_check_def)
  from cascade_outcome [OF assms(1,3) ok this cost] obtain b j d' where
    r: "run n e ?c d = (Inr (b, j), d')" "evolves d d'" "calm_db d'" "settled d'" "effect ?c d b j d'"
    by blast
  have "b" "gone d' (wr_id r)" "wr_status (row j) = ABORTED"
    using r(5) by (auto simp: effect_def fresh_def)
  with r(1-4) show ?thesis by (auto simp: terminated_in)
qed

section \<open>Aborting a workflow\<close>

lemma abort_one_step:
  assumes "calm_env e" and "linked d (fresh x)" and "calm_db d" and "settled_but {} {} d"
    and "mark_cost d (fresh x) \<le> n"
  shows "\<exists>d'. abort_one e (run n e) user x d = (Inr (), d') \<and> evolves d d' \<and> calm_db d'
    \<and> settled_but {} {} d' \<and> gone d' (wr_id x)"
proof -
  let ?c = "MarkAborted (fresh x) (Some user)"
  have ok: "allowed d ?c" using assms(2,3) by (simp add: allowed_def)
  have cost: "cost d ?c \<le> n" using assms(5) by (simp add: cost_def)
  have todo: "settled_but {} ({} \<union> to_check ?c) d" using assms(4) by (simp add: to_check_def)
  obtain b j d1 where r: "run n e ?c d = (Inr (b, j), d1)" "evolves d d1" "calm_db d1"
    "linked d1 j" "skeleton (row j) = skeleton (row (call_inst ?c))" "settled_but {} {} d1"
    "effect ?c d b j d1"
    by (rule outcome_call [OF cascades_run [OF assms(1)] ok cost todo])
  let ?r = "(row j)\<lparr>wr_worker := None\<rparr>"
  have skel: "skeleton ?r = skeleton (row j)" by (simp add: skeleton_def)
  have id: "wr_id ?r = wr_id x" using same_skeleton(1) [OF r(5)] by (simp add: fresh_def)
  have eff: "gone d1 (wr_id x)" "wr_status ?r = ABORTED" "frees_dependents d1 (row j)"
    using r(7) by (simp_all add: effect_def fresh_def)
  have calm_r: "calm_row ?r = calm_row (row j)" by (rule row_calm [OF skel])
  have "refs_ok d1 (row j)" using linked_row [OF r(4)] by (simp add: loaded_def)
  with calm_r have refs: "refs_ok d1 ?r" by (simp add: refs_ok_def)
  with loaded_known [OF linked_row [OF r(4)]] skel have known: "known d1 ?r"
    by (simp add: known_def)
  have tree: "tree_ok d1" using r(3) by (simp add: calm_db_def)
  have over: "is_terminated ?r" using eff(2) by (simp add: is_terminated_def)
  have ev: "evolves d1 (saved e ?r d1)"
    by (rule saved_evolves [OF tree known may_save_terminated [OF over]])
  have "failed ?r = failed (row j)" by (simp add: failed_def is_terminated_def)
  with eff(3) have free: "frees_dependents d1 ?r" by (simp add: frees_dependents_def)
  have gone: "gone d1 (wr_id ?r)" using eff(1) id by simp
  have "wr_id ?r \<noteq> 0" using refs by (simp add: refs_ok_def)
  then have "save e (run n e) (upd (\<lambda>r. r\<lparr>wr_worker := None\<rparr>) j) d1
      = (Inr (upd (\<lambda>r. r\<lparr>wr_worker := None\<rparr>) j), saved e ?r d1)"
    using save_known [of "upd (\<lambda>r. r\<lparr>wr_worker := None\<rparr>) j"] by simp
  with r(1) have run: "abort_one e (run n e) user x d = (Inr (), saved e ?r d1)"
    by (simp add: abort_one_def bind_act_def ret_def)
  from run evolves_trans [OF r(2) ev] saved_calm [OF r(3) known]
    settled_saved_again [OF r(3) known gone eff(2) free r(6)] evolves_gone [OF ev eff(1)]
  show ?thesis by blast
qed

lemma abort_loop:
  assumes "calm_env e"
  shows "calm_db d \<Longrightarrow> settled_but {} {} d \<Longrightarrow> \<forall>x\<in>set xs. linked d (fresh x) \<Longrightarrow>
    cascade_fuel d \<le> n \<Longrightarrow>
    \<exists>d'. for_each xs (abort_one e (run n e) user) d = (Inr (), d') \<and> evolves d d' \<and> calm_db d'
      \<and> settled_but {} {} d' \<and> (\<forall>x\<in>set xs. gone d' (wr_id x))"
proof (induction xs arbitrary: d)
  case Nil
  then show ?case by (auto simp: ret_def evolves_refl)
next
  case (Cons x xs)
  have lx: "linked d (fresh x)" using Cons.prems(3) by simp
  from abort_one_step [OF assms lx Cons.prems(1,2) order_trans [OF fuel_mark_cost Cons.prems(4)]]
  obtain d1 where d1: "abort_one e (run n e) user x d = (Inr (), d1)" "evolves d d1" "calm_db d1"
    "settled_but {} {} d1" "gone d1 (wr_id x)" by blast
  have "length (db_work_requests d1) = length (db_work_requests d)"
    using arg_cong [OF evolves_ids [OF d1(2)], of length] by simp
  then have "cascade_fuel d1 \<le> n" using Cons.prems(4) by (simp add: cascade_fuel_def)
  moreover have "\<forall>x\<in>set xs. linked d1 (fresh x)"
    using Cons.prems(3) evolves_linked [OF d1(2)] by simp
  ultimately obtain d' where d': "for_each xs (abort_one e (run n e) user) d1 = (Inr (), d')"
    "evolves d1 d'" "calm_db d'" "settled_but {} {} d'" "\<forall>x\<in>set xs. gone d' (wr_id x)"
    using Cons.IH [OF d1(3,4)] by blast
  have "for_each (x # xs) (abort_one e (run n e) user) d = (Inr (), d')"
    using d1(1) d'(1) by (simp add: seq_act_def bind_act_def)
  with evolves_trans [OF d1(2) d'(2)] d'(3-5) evolves_gone [OF d'(2) d1(5)] show ?case by auto
qed

text \<open>
  C3: when the user may abort the work request and it is in progress and not
  superseded, \<open>abort\<close> returns; afterwards the request and everything in
  progress in the tree of workflows below it (superseded requests apart) is
  terminated, and nothing is left to do anywhere. The conditions on event reactions and
  collections are the ones for completing a request.
\<close>

theorem abort_terminates_tree:
  assumes "calm_env e" and "calm_db d" and "settled d" and "r \<in> set (db_work_requests d)"
    and "enforce ''cannot abort'' cx (wr_can_abort d cx r) = Inr ()"
    and "require_user cx = Inr (AuthUser u)" and "verify_abort_rules d r = Inr ()"
    and "cascade_fuel d \<le> n"
  shows "\<exists>d'. abort e (run n e) cx (fresh r) d = (Inr (), d') \<and> evolves d d' \<and> calm_db d'
    \<and> settled d'
    \<and> (\<forall>q\<in>set (db_work_requests d'). (child_of d)\<^sup>*\<^sup>* (wr_id r) (wr_id q) \<longrightarrow>
        \<not> is_superseded d (wr_id q) \<longrightarrow> is_terminated q)"
proof -
  let ?xs = "abortable d (wr_id r)"
  have tree: "tree_ok d" using assms(2) by (simp add: calm_db_def)
  have links: "\<forall>x\<in>set ?xs. linked d (fresh x)"
    using linked_fresh [OF assms(2)] by (simp add: abortable_def Let_def objects_def)
  have "settled_but {} {} d" using assms(3) settled_iff [OF tree] by simp
  from abort_loop [OF assms(1,2) this links assms(8)] obtain d' where
    d': "for_each ?xs (abort_one e (run n e) u) d = (Inr (), d')" "evolves d d'" "calm_db d'"
      "settled_but {} {} d'" "\<forall>x\<in>set ?xs. gone d' (wr_id x)" by blast
  have run: "abort e (run n e) cx (fresh r) d = (Inr (), d')"
    using assms(5-7) d'(1)
    by (simp add: abort_def with_db_def seq_act_def bind_act_def lift_res_def fresh_def)
  have "is_terminated q" if q: "q \<in> set (db_work_requests d')"
    "(child_of d)\<^sup>*\<^sup>* (wr_id r) (wr_id q)" "\<not> is_superseded d (wr_id q)" for q
  proof -
    from evolves_backward [OF d'(2) q(1)] obtain x where
      x: "x \<in> set (db_work_requests d)" "row_evolves x q" by blast
    have id: "wr_id q = wr_id x" by (rule row_evolves_id [OF x(2)])
    show ?thesis
    proof (cases "is_terminated x")
      case True
      with x(2) show ?thesis by (simp add: row_evolves_def)
    next
      case False
      then have "wr_status x \<in> {PENDING, BLOCKED, RUNNING}"
        by (cases "wr_status x") (simp_all add: is_terminated_def)
      moreover have "x \<in> set (workflow_flattened d (wr_id r) True True)"
        using x(1) q(2) assms(4) id by (auto simp: workflow_flattened_def set_flattened_ids)
      ultimately have "x \<in> set ?xs"
        using x(1) q(3) id by (auto simp: abortable_def Let_def objects_def unsuperseded_def)
      with d'(5) id q(1) show ?thesis by (auto simp: terminated_in)
    qed
  qed
  with run d'(2-4) settled_iff [of d'] show ?thesis by (auto simp: calm_db_def)
qed

section \<open>An example\<close>

text \<open>A running workflow with two children, the second one blocked by the first.\<close>

definition example_root :: work_request where
  "example_root = (new_work_request 1 7)\<lparr>wr_task_type := WORKFLOW, wr_status := RUNNING\<rparr>"

definition example_child :: work_request where
  "example_child = (new_work_request 2 7)\<lparr>wr_status := RUNNING, wr_parent := Some 1\<rparr>"

definition example_workflow :: db where
  "example_workflow = example_db\<lparr>db_work_requests := [example_root, example_child,
      (new_work_request 3 7)\<lparr>wr_status := BLOCKED, wr_parent := Some 1\<rparr>],
     db_dependencies := [(3, 2)]\<rparr>"

lemmas example_workflow_simps = example_workflow_def example_root_def example_child_def
  new_work_request_def example_simps

lemma example_calm_env: "calm_env example_env"
  by (simp add: calm_env_def base_tasks_def collections_answer_def example_env_def harmless_def ret_def
      is_lookup_error_def)

lemma example_base_tasks: "base_tasks example_env"
  using example_calm_env by (simp add: calm_env_def)

lemma example_row_calm: "wr_event_reactions r = no_event_reactions \<Longrightarrow> calm_row r"
  by (auto simp: calm_row_def event_actions_def no_event_reactions_def split: event_name.splits)

lemma example_calm: "calm_db example_workflow"
  by (simp add: calm_db_def tree_ok_def rows_all_def refs_ok_def example_row_calm
      example_workflow_simps get_workspace_def tbl_get_def)

lemma example_settled: "settled example_workflow"
  by (simp add: settled_def example_workflow_simps wr_dependencies_def wr_children_def objects_def
      can_be_automatically_unblocked_qs_def can_be_unblocked_qs_def unblockable_def
      has_children_in_progress_def failed_def is_terminated_def)

lemma example_rows:
  "example_root \<in> set (db_work_requests example_workflow)"
  "example_child \<in> set (db_work_requests example_workflow)"
  "cascade_fuel example_workflow \<le> 48" "wr_status example_child = RUNNING" "wr_id example_child = 2"
  by (simp_all add: example_workflow_def cascade_fuel_def example_child_def new_work_request_def)

lemma example_can_abort:
  "enforce ''cannot abort'' example_ctx (wr_can_abort example_workflow example_ctx example_root) = Inr ()"
  "require_user example_ctx = Inr (AuthUser 7)"
  "verify_abort_rules example_workflow example_root = Inr ()"
  by (simp_all add: enforce_def wr_can_abort_def wr_predicate_def permission_check_def
      wr_has_role_def get_workspace_def tbl_get_def require_user_def verify_abort_rules_def
      is_superseded_def example_workflow_simps)

theorem mark_completed_settles_witness:
  "\<exists>j d'. run 48 example_env (MarkCompleted (fresh example_child) FAILURE None) example_workflow
      = (Inr (True, j), d')
    \<and> settled d' \<and> (\<forall>q\<in>set (db_work_requests d'). wr_id q = 2 \<longrightarrow> is_terminated q)"
  using mark_completed_settles [OF example_calm_env example_calm example_settled example_rows(2) _
      example_rows(3), of FAILURE None] by (auto simp: example_rows)

theorem mark_aborted_settles_witness:
  "\<exists>j d'. run 48 example_env (MarkAborted (fresh example_root) (Some 7)) example_workflow
      = (Inr (True, j), d') \<and> settled d' \<and> wr_status (row j) = ABORTED"
  using mark_aborted_settles [OF example_calm_env example_calm example_settled example_rows(1,3),
      of "Some 7"] by blast

theorem abort_terminates_tree_witness:
  "\<exists>d'. abort example_env (run 48 example_env) example_ctx (fresh example_root) example_workflow
      = (Inr (), d') \<and> settled d'"
  using abort_terminates_tree [OF example_calm_env example_calm example_settled example_rows(1)
      example_can_abort example_rows(3)] by blast

end
