(* ===== verification/Workers.thy ===== *)
theory Workers
  imports Lifecycle "HOL-Library.Product_Lexorder"
begin

text \<open>
  Workers (debusine/db/models/workers.py): the query sets and the properties of
  a row, and the names new workers get. The operations that save a worker are in
  the theory of the scheduler, because saving a worker calls it.
\<close>

section \<open>Query sets\<close>

definition by_time :: "('r \<Rightarrow> time option) \<Rightarrow> 'r \<Rightarrow> time" where
  "by_time f r = (case f r of None \<Rightarrow> 0 | Some t \<Rightarrow> t)"

definition connected_workers :: "worker list \<Rightarrow> worker list" where
  "connected_workers self =
     sort_key (by_time wk_connected_at) (filter (\<lambda>w. wk_connected_at w \<noteq> None) self)"

definition active_workers :: "worker list \<Rightarrow> worker list" where
  "active_workers self =
     filter (\<lambda>w. \<not> (wk_worker_pool w \<noteq> None \<and> wk_instance_created_at w = None)) self"

text \<open>\<open>Count('assigned_work_requests', ...)\<close>: the pending and running requests of a worker.\<close>

definition active_work_requests :: "db \<Rightarrow> pk \<Rightarrow> work_request list" where
  "active_work_requests d w =
     filter (\<lambda>r. wr_worker r = Some w \<and> wr_status r \<in> {RUNNING, PENDING}) (objects d)"

definition token_enabled :: "db \<Rightarrow> pk option \<Rightarrow> bool" where
  "token_enabled d t = (case Option.bind t (get_token d) of None \<Rightarrow> False | Some tk \<Rightarrow> tk_enabled tk)"

definition waiting_for_work_request :: "db \<Rightarrow> worker list \<Rightarrow> worker list" where
  "waiting_for_work_request d self =
     filter (\<lambda>w. wk_worker_type w = CELERY \<or> token_enabled d (wk_token w))
       (filter (\<lambda>w. length (active_work_requests d (wk_id w)) < wk_concurrency w)
         (sort_key (\<lambda>w. (case wk_worker_pool w of None \<Rightarrow> 0 | Some p \<Rightarrow> Suc p, by_time wk_connected_at w))
           (filter (\<lambda>w. wk_connected_at w \<noteq> None) self)))"

definition get_worker_or_none :: "db \<Rightarrow> string \<Rightarrow> worker option" where
  "get_worker_or_none d worker_name = find (\<lambda>w. wk_name w = worker_name) (db_workers d)"

section \<open>Properties of a row\<close>

definition connected :: "worker \<Rightarrow> bool" where
  "connected self \<longleftrightarrow> wk_connected_at self \<noteq> None"

definition running_work_requests :: "db \<Rightarrow> worker \<Rightarrow> work_request list" where
  "running_work_requests d self =
     filter (\<lambda>r. wr_worker r = Some (wk_id self) \<and> wr_status r = RUNNING) (objects d)"

text \<open>The union \<open>running(worker=self) | pending(worker=self)\<close> of \<open>is_busy\<close> and \<open>is_at_capacity\<close>.\<close>

definition running_or_pending :: "db \<Rightarrow> worker \<Rightarrow> work_request list" where
  "running_or_pending d self =
     filter (\<lambda>r. r \<in> set (running (objects d) (Some (wk_id self)))
                \<or> wr_status r = PENDING \<and> wr_worker r = Some (wk_id self)) (objects d)"

definition is_busy :: "db \<Rightarrow> worker \<Rightarrow> bool" where
  "is_busy d self \<longleftrightarrow> running_or_pending d self \<noteq> []"

definition is_at_capacity :: "db \<Rightarrow> worker \<Rightarrow> bool" where
  "is_at_capacity d self \<longleftrightarrow> wk_concurrency self \<le> length (running_or_pending d self)"

definition metadata :: "worker \<Rightarrow> (string \<times> json) list" where
  "metadata self = dict_update (dict_update [] (wk_dynamic_metadata self)) (wk_static_metadata self)"

section \<open>Names\<close>

text \<open>\<open>slugify\<close> is Django's.\<close>

definition generate_unique_name :: "(string \<Rightarrow> string) \<Rightarrow> string \<Rightarrow> nat \<Rightarrow> string" where
  "generate_unique_name slugify name counter =
     (let new_name = slugify (map (\<lambda>c. if c = CHR ''.'' then CHR ''-'' else c) name)
      in if counter \<noteq> 1 then new_name @ ''-'' @ decimal counter else new_name)"

definition pool_member_name :: "string \<Rightarrow> nat \<Rightarrow> string" where
  "pool_member_name pool index = pool @ ''-'' @ padded3 index"

lemma digits_value_append:
  "digits_value (s @ t) = digits_value s * 10 ^ length t + digits_value t"
proof -
  have acc: "fold (\<lambda>c n. 10 * n + (int (of_char c) - 48)) t a = a * 10 ^ length t + digits_value t"
    for a t
  proof (induction t arbitrary: a)
    case (Cons c t)
    have "fold (\<lambda>c n. 10 * n + (int (of_char c) - 48)) (c # t) a
        = (10 * a + (int (of_char c) - 48)) * 10 ^ length t + digits_value t"
      using Cons by simp
    moreover have "digits_value (c # t) = (int (of_char c) - 48) * 10 ^ length t + digits_value t"
      using Cons [of "int (of_char c) - 48"] by (simp add: digits_value_def)
    ultimately show ?case by (simp add: algebra_simps)
  qed (simp add: digits_value_def)
  show ?thesis using acc [of t "digits_value s"] by (simp add: digits_value_def)
qed

lemma digit_code: "n < 10 \<Longrightarrow> int (of_char (char_of (48 + n) :: char)) = 48 + int n"
  by (simp add: of_char_of)

lemma digits_value_decimal: "digits_value (decimal n) = int n"
proof (induction n rule: decimal.induct)
  case (1 n)
  show ?case
  proof (cases "n < 10")
    case True
    then show ?thesis using digit_code [of n] by (subst decimal.simps) (simp add: digits_value_def)
  next
    case False
    have "digits_value (decimal n)
        = digits_value (decimal (n div 10)) * 10 + digits_value [char_of (48 + n mod 10)]"
      using False by (subst decimal.simps) (simp add: digits_value_append)
    also have "\<dots> = int (n div 10) * 10 + int (n mod 10)"
      using 1 [OF False] digit_code [of "n mod 10"] by (simp add: digits_value_def)
    also have "\<dots> = int n" using div_mult_mod_eq [of n 10] by linarith
    finally show ?thesis .
  qed
qed

lemma decimal_inj: "decimal m = decimal n \<Longrightarrow> m = n"
  using digits_value_decimal by (metis of_nat_eq_iff)

lemma digits_value_zeros: "digits_value (replicate k (CHR ''0'')) = 0"
  by (induction k) (simp_all add: digits_value_def)

lemma padded3_inj: "padded3 m = padded3 n \<Longrightarrow> m = n"
  using digits_value_decimal digits_value_append digits_value_zeros unfolding padded3_def
  by (metis mult_zero_left add_0 of_nat_eq_iff)

lemma pool_member_name_inj: "pool_member_name p m = pool_member_name p n \<Longrightarrow> m = n"
  by (auto simp: pool_member_name_def dest: padded3_inj)

lemma generate_unique_name_inj:
  "generate_unique_name slugify name m = generate_unique_name slugify name n \<Longrightarrow> m = n"
  by (auto simp: generate_unique_name_def Let_def split: if_splits dest: decimal_inj)

text \<open>Fresh numbers are found among the first ones, as long as names differ.\<close>

lemma fresh_number:
  assumes "inj f" and "finite used"
  shows "\<exists>k \<le> card used. f (k + s) \<notin> used"
proof (rule ccontr)
  assume "\<not> ?thesis"
  then have "(\<lambda>k. f (k + s)) ` {..card used} \<subseteq> used" by auto
  then have "card ((\<lambda>k. f (k + s)) ` {..card used}) \<le> card used" using assms(2) by (rule card_mono [rotated])
  moreover have "inj_on (\<lambda>k. f (k + s)) {..card used}"
    using injD [OF assms(1)] by (fastforce simp: inj_on_def)
  ultimately show False by (simp add: card_image)
qed

lemma length_running_or_pending:
  "length (running_or_pending d w) = length (active_work_requests d (wk_id w))"
proof -
  have "running_or_pending d w = active_work_requests d (wk_id w)"
    unfolding running_or_pending_def active_work_requests_def running_def
    by (rule filter_cong) auto
  then show ?thesis by simp
qed

lemma map_of_metadata:
  "distinct (map fst (wk_dynamic_metadata w)) \<Longrightarrow> distinct (map fst (wk_static_metadata w)) \<Longrightarrow>
     map_of (metadata w) = map_of (wk_dynamic_metadata w) ++ map_of (wk_static_metadata w)"
  by (simp add: metadata_def map_of_dict_update)

end
