(* ===== verification/Scheduler.thy ===== *)
theory Scheduler
  imports Workers
begin

text \<open>
  The scheduler (debusine/server/scheduler.py): assigning pending work requests
  to a worker, starting the ones that need no worker, ending delays, and the
  signals that call it when a worker or a work request is saved.
\<close>

section \<open>What the scheduler relies on\<close>

text \<open>
  Besides the life cycle, with its recursive calls \<open>rc\<close>: the task classes, the
  locks other transactions hold (\<open>select_for_update(nowait=True)\<close>), the results
  Celery keeps of the tasks in progress, and Django's reading of a JSON value as
  the right-hand side of \<open>__in\<close>.
\<close>

record sched =
  sc_env :: env
  sc_get_task :: "db \<Rightarrow> work_request \<Rightarrow> worker \<Rightarrow> ((string \<times> json) list \<Rightarrow> bool) res"
    \<comment> \<open>\<open>get_task(worker=worker)\<close>, as its method \<open>can_run_on\<close>\<close>
  sc_worker_locked :: "pk \<Rightarrow> bool"
  sc_wr_locked :: "pk \<Rightarrow> bool"
  sc_in_progress :: "db \<Rightarrow> pk list"
    \<comment> \<open>first arguments of the calls of \<open>run_workflow_task\<close> in progress\<close>
  sc_in_values :: "json \<Rightarrow> string list res"

text \<open>\<open>scheduling_disabled\<close>: the saves of this instance do not queue the scheduler.\<close>

definition quiet :: "sched \<Rightarrow> env" where
  "quiet sc = (sc_env sc)\<lparr>env_auto := False\<rparr>"

definition on_commit :: "hook \<Rightarrow> unit dbact" where
  "on_commit h = modify_db (\<lambda>d. d\<lparr>db_on_commit := db_on_commit d @ [h]\<rparr>)"

section \<open>Scheduling for a worker\<close>

definition possible_to_schedule_for_worker :: "sched \<Rightarrow> db \<Rightarrow> worker \<Rightarrow> bool res" where
  "possible_to_schedule_for_worker sc d worker =
     (if is_at_capacity d worker then Inr False
      else if sc_worker_locked sc (wk_id worker) then Inr False
      else if get_worker d (wk_id worker) = None then Inl (DoesNotExist ''Worker'')
      else Inr True)"

definition is_task_config_error :: "exn \<Rightarrow> bool" where
  "is_task_config_error x = (case x of TaskConfigError _ \<Rightarrow> True | _ \<Rightarrow> False)"

text \<open>What an exception of \<open>assign_worker\<close> becomes; \<open>OutOfFuel\<close> is not an exception of the code.\<close>

definition assign_failed :: "exn \<Rightarrow> inst option dbact" where
  "assign_failed x =
     (if x = SkipWorkRequest then ret None
      else if x = OutOfFuel then raise x
      else raise (AssignToWorkerError ''Failed to compute dynamic data'' ''dynamic-data-failed''))"

definition assign_work_request_to_worker ::
  "sched \<Rightarrow> calls \<Rightarrow> work_request \<Rightarrow> worker \<Rightarrow> inst option dbact" where
  "assign_work_request_to_worker sc rc work_request worker = with_db (\<lambda>d.
     case sc_get_task sc d work_request worker of
       Inl x \<Rightarrow> if is_task_config_error x
                then raise (AssignToWorkerError ''Failed to configure'' ''configure-failed'')
                else raise x
     | Inr can_run_on \<Rightarrow>
         if \<not> can_run_on (metadata worker) then ret None
         else if sc_wr_locked sc (wr_id work_request) then ret None
         else (case get_wr d (wr_id work_request) of
                 None \<Rightarrow> raise (DoesNotExist ''WorkRequest'')
               | Some r \<Rightarrow>
                   if wr_worker r \<noteq> None then ret None
                   else
                     bind_act (catch_act
                       (bind_act (assign_worker (quiet sc) rc (fresh r) worker) (\<lambda>i. ret (Some i)))
                       assign_failed) (\<lambda>assigned.
                     case assigned of
                       None \<Rightarrow> ret None
                     | Some i \<Rightarrow>
                         seq_act (when_act (wr_task_type (row i) = SERVER)
                                   (on_commit (RunServerTask (wr_id (row i)))))
                           (ret (Some i)))))"

definition assignable_type :: "work_request \<Rightarrow> bool" where
  "assignable_type r \<longleftrightarrow> wr_task_type r \<in> {WORKER, SERVER, SIGNING}"

text \<open>The allow list of a worker, or else its deny list, on the pending requests.\<close>

definition not_denied_tasks ::
  "sched \<Rightarrow> (string \<times> json) list \<Rightarrow> work_request list \<Rightarrow> work_request list res" where
  "not_denied_tasks sc meta qs =
     (case map_of meta ''tasks_denylist'' of
        None \<Rightarrow> Inr qs
      | Some v \<Rightarrow>
          if json_truthy v
          then bind_res (sc_in_values sc v)
                 (\<lambda>names. Inr (filter (\<lambda>r. wr_task_name r \<notin> set names) qs))
          else Inr qs)"

definition allowed_tasks ::
  "sched \<Rightarrow> (string \<times> json) list \<Rightarrow> work_request list \<Rightarrow> work_request list res" where
  "allowed_tasks sc meta qs =
     (case map_of meta ''tasks_allowlist'' of
        None \<Rightarrow> not_denied_tasks sc meta qs
      | Some v \<Rightarrow>
          if v = JNull then not_denied_tasks sc meta qs
          else bind_res (sc_in_values sc v)
                 (\<lambda>names. Inr (filter (\<lambda>r. wr_task_name r \<in> set names) qs)))"

definition worker_candidates :: "sched \<Rightarrow> db \<Rightarrow> worker \<Rightarrow> work_request list res" where
  "worker_candidates sc d worker =
     bind_res (pending (objects d) True None) (\<lambda>qs.
       allowed_tasks sc (metadata worker) (filter assignable_type qs))"

primrec try_candidates ::
  "sched \<Rightarrow> calls \<Rightarrow> worker \<Rightarrow> work_request list \<Rightarrow> inst option dbact" where
  "try_candidates sc rc worker [] = ret None"
| "try_candidates sc rc worker (r # rs) =
     bind_act (catch_act
       (bind_act (assign_work_request_to_worker sc rc r worker) (\<lambda>assigned. ret (assigned, None)))
       (\<lambda>x. case x of
          AssignToWorkerError message code \<Rightarrow> ret (None, Some (message, code))
        | _ \<Rightarrow> raise x)) (\<lambda>(assigned, failure).
     case (assigned, failure) of
       (Some i, _) \<Rightarrow> ret (Some i)
     | (None, None) \<Rightarrow> try_candidates sc rc worker rs
     | (None, Some f) \<Rightarrow>
         bind_act (rc (MarkCompleted (fresh r) ERROR
                        (Some (empty_output_data\<lparr>od_errors := Some (Some [f])\<rparr>))))
           (\<lambda>_. try_candidates sc rc worker rs))"

definition schedule_for_worker :: "sched \<Rightarrow> calls \<Rightarrow> worker \<Rightarrow> inst option dbact" where
  "schedule_for_worker sc rc worker = atomic (with_db (\<lambda>d.
     bind_act (lift_res (possible_to_schedule_for_worker sc d worker)) (\<lambda>possible.
       if \<not> possible then ret None
       else bind_act (lift_res (worker_candidates sc d worker)) (try_candidates sc rc worker))))"

section \<open>Starting what needs no worker\<close>

text \<open>
  A pending row with its workflow root, unless a callback of the same workflow
  or a task for the same root workflow is in progress already.
\<close>

definition internal_type :: "work_request \<Rightarrow> bool" where
  "internal_type r \<longleftrightarrow>
     (wr_task_type r = INTERNAL \<and> wr_task_name r \<in> {''synchronization_point'', ''workflow''})
     \<or> wr_task_type r \<in> {WORKFLOW, WAIT}"

definition is_callback :: "work_request \<Rightarrow> bool" where
  "is_callback r \<longleftrightarrow> wr_task_type r = INTERNAL \<and> wr_task_name r = ''workflow''"

definition callback_in_progress :: "sched \<Rightarrow> db \<Rightarrow> work_request \<Rightarrow> bool" where
  "callback_in_progress sc d r \<longleftrightarrow> wr_parent r \<noteq> None
     \<and> list_ex (\<lambda>q. wr_parent q = wr_parent r \<and> wr_id q \<in> set (sc_in_progress sc d))
         (db_work_requests d)"

definition root_in_progress :: "sched \<Rightarrow> db \<Rightarrow> pk option \<Rightarrow> bool" where
  "root_in_progress sc d root \<longleftrightarrow>
     (case root of None \<Rightarrow> False | Some k \<Rightarrow> k \<in> set (sc_in_progress sc d))"

definition internal_candidates :: "sched \<Rightarrow> db \<Rightarrow> (work_request \<times> pk option) list" where
  "internal_candidates sc d =
     sort_key (\<lambda>(r, root). wr_id r)
       (filter (\<lambda>(r, root). \<not> (wr_task_type r = WORKFLOW \<and> root_in_progress sc d root))
         (filter (\<lambda>(r, root). \<not> (is_callback r \<and> callback_in_progress sc d r))
           (filter (\<lambda>(r, root). wr_status r = PENDING \<and> internal_type r)
             (with_workflow_root_id d (objects d)))))"

text \<open>The sets \<open>running_workflow_callback_parents\<close> and \<open>workflow_root_ids\<close>, and the result.\<close>

record progress =
  pg_parents :: "pk list"
  pg_roots :: "pk list"
  pg_result :: "inst list"

definition schedule_one ::
  "sched \<Rightarrow> calls \<Rightarrow> work_request \<times> pk option \<Rightarrow> progress \<Rightarrow> progress dbact" where
  "schedule_one sc rc annotated pg = (case annotated of (r, root) \<Rightarrow>
     if wr_task_type r = INTERNAL \<and> wr_task_name r = ''synchronization_point'' then
       bind_act (rc (MarkCompleted (fresh r) SUCCESS None)) (\<lambda>(_, i).
         ret (pg\<lparr>pg_result := pg_result pg @ [i]\<rparr>))
     else if is_callback r then
       bind_act (parent_of (fresh r)) (\<lambda>(i, p).
         case p of
           None \<Rightarrow> raise (AssertionError [])
         | Some parent \<Rightarrow>
             if wr_id (row parent) \<in> set (pg_parents pg) then ret pg
             else bind_act (mark_running (sc_env sc) rc i) (\<lambda>(_, i).
               seq_act (on_commit (RunWorkflowTask (wr_id (row i))))
                 (ret (pg\<lparr>pg_parents := wr_id (row parent) # pg_parents pg,
                          pg_result := pg_result pg @ [i]\<rparr>))))
     else if wr_task_type r = WORKFLOW then
       (case root of
          None \<Rightarrow> raise (AssertionError [])
        | Some k \<Rightarrow> ret (pg\<lparr>pg_roots := k # pg_roots pg\<rparr>))
     else if wr_task_type r = WAIT then
       bind_act (mark_running (sc_env sc) rc (fresh r)) (\<lambda>(_, i).
         ret (pg\<lparr>pg_result := pg_result pg @ [i]\<rparr>))
     else raise (AssertionError ''Unexpected internal task name''))"

primrec schedule_each ::
  "sched \<Rightarrow> calls \<Rightarrow> (work_request \<times> pk option) list \<Rightarrow> progress \<Rightarrow> progress dbact" where
  "schedule_each sc rc [] pg = ret pg"
| "schedule_each sc rc (r # rs) pg =
     bind_act (schedule_one sc rc r pg) (schedule_each sc rc rs)"

primrec start_roots :: "sched \<Rightarrow> calls \<Rightarrow> work_request list \<Rightarrow> inst list \<Rightarrow> inst list dbact" where
  "start_roots sc rc [] result = ret result"
| "start_roots sc rc (r # rs) result =
     bind_act (mark_running (sc_env sc) rc (fresh r)) (\<lambda>(_, i).
       seq_act (on_commit (RunWorkflowTask (wr_id (row i))))
         (start_roots sc rc rs (result @ [i])))"

definition schedule_internal :: "sched \<Rightarrow> calls \<Rightarrow> inst list dbact" where
  "schedule_internal sc rc = atomic (with_db (\<lambda>d.
     bind_act (schedule_each sc rc (internal_candidates sc d)
                \<lparr>pg_parents = [], pg_roots = [], pg_result = []\<rparr>) (\<lambda>pg. with_db (\<lambda>d.
       start_roots sc rc (filter (\<lambda>r. wr_id r \<in> set (pg_roots pg)) (objects d))
         (pg_result pg)))))"

section \<open>Ending delays\<close>

text \<open>
  Timestamps in task data are numbers here; the cast of any other text to a
  timestamp fails, and a missing or null one is not after now.
\<close>

definition delay_until :: "work_request \<Rightarrow> time option res" where
  "delay_until r =
     (case map_of (wr_task_data r) ''delay_until'' of
        None \<Rightarrow> Inr None
      | Some JNull \<Rightarrow> Inr None
      | Some (JInt t) \<Rightarrow> Inr (Some t)
      | Some _ \<Rightarrow> Inl (DataError ''invalid input syntax for type timestamp''))"

definition delay_over :: "time \<Rightarrow> work_request \<Rightarrow> bool" where
  "delay_over now r \<longleftrightarrow> (case delay_until r of Inr (Some t) \<Rightarrow> t \<le> now | _ \<Rightarrow> True)"

definition running_delays :: "db \<Rightarrow> work_request list" where
  "running_delays d =
     filter (\<lambda>r. wr_task_type r = WAIT \<and> wr_task_name r = ''delay'') (running (objects d) None)"

definition complete_delay_tasks :: "sched \<Rightarrow> calls \<Rightarrow> unit dbact" where
  "complete_delay_tasks sc rc = atomic (with_db (\<lambda>d.
     seq_act (for_each (running_delays d) (\<lambda>r. lift_res (bind_res (delay_until r) (\<lambda>_. Inr ()))))
       (for_each (filter (delay_over (env_now (sc_env sc))) (running_delays d))
         (\<lambda>r. bind_act (rc (MarkCompleted (fresh r) SUCCESS None)) (\<lambda>_. ret ())))))"

section \<open>The scheduler\<close>

primrec schedule_workers ::
  "sched \<Rightarrow> calls \<Rightarrow> worker list \<Rightarrow> inst list \<Rightarrow> inst list dbact" where
  "schedule_workers sc rc [] result = ret result"
| "schedule_workers sc rc (w # ws) result =
     bind_act (schedule_for_worker sc rc w) (\<lambda>assigned.
       schedule_workers sc rc ws
         (case assigned of None \<Rightarrow> result | Some i \<Rightarrow> result @ [i]))"

definition schedule :: "sched \<Rightarrow> calls \<Rightarrow> inst list dbact" where
  "schedule sc rc =
     bind_act (schedule_internal sc rc) (\<lambda>result. with_db (\<lambda>d.
     bind_act (schedule_workers sc rc (waiting_for_work_request d (db_workers d)) result)
       (\<lambda>result. seq_act (complete_delay_tasks sc rc) (ret result))))"

end
