(* ===== verification/Progress.thy ===== *)
theory Progress
  imports Settling
begin

text \<open>
  Properties of single methods of the life cycle: the concurrency of a worker,
  what a workflow template fixes, and where the dependents of an aborted request
  are left.
\<close>

section \<open>The concurrency of a worker\<close>

definition running_on :: "pk \<Rightarrow> db \<Rightarrow> nat" where
  "running_on w d = length (running (objects d) (Some w))"

definition within_concurrency :: "db \<Rightarrow> bool" where
  "within_concurrency d \<longleftrightarrow> (\<forall>worker\<in>set (db_workers d).
     running_on (wk_id worker) d \<le> wk_concurrency worker)"

lemma length_filter_sort [simp]: "length (filter P (sort_key f xs)) = length (filter P xs)"
proof -
  have "mset (filter P (sort_key f xs)) = mset (filter P xs)" by (simp add: filter_sort)
  then show ?thesis by (metis size_mset)
qed

lemma running_on_rows:
  "running_on w d = length (filter (\<lambda>r. wr_status r = RUNNING \<and> wr_worker r = Some w)
     (db_work_requests d))"
proof -
  have "running (objects d) (Some w)
      = filter (\<lambda>r. wr_status r = RUNNING \<and> wr_worker r = Some w) (objects d)"
    by (simp add: running_def conj_commute)
  then show ?thesis by (simp add: running_on_def objects_def)
qed

lemma length_filter_replace:
  "distinct (map key xs) \<Longrightarrow> q \<in> set xs \<Longrightarrow> key q = key r \<Longrightarrow>
     length (filter P (map (\<lambda>x. if key x = key r then r else x) xs)) + of_bool (P q)
       = length (filter P xs) + of_bool (P r)"
proof (induction xs)
  case (Cons x xs)
  show ?case
  proof (cases "key x = key r")
    case True
    with Cons.prems have "q = x" by (auto simp: image_iff)
    moreover have "key y \<noteq> key r" if "y \<in> set xs" for y
      using Cons.prems(1) True that by (metis distinct.simps(2) image_eqI list.set_map list.simps(9))
    then have "map (\<lambda>y. if key y = key r then r else y) xs = xs"
      by (intro map_idI) simp
    ultimately show ?thesis using True by simp
  next
    case False
    with Cons show ?thesis by auto
  qed
qed simp

lemma put_wr_running_on:
  assumes "tree_ok d" and "q \<in> set (db_work_requests d)" and "wr_id q = wr_id r"
  shows "running_on w (put_wr r d) + of_bool (wr_status q = RUNNING \<and> wr_worker q = Some w)
    = running_on w d + of_bool (wr_status r = RUNNING \<and> wr_worker r = Some w)"
proof -
  have "get_wr d (wr_id r) \<noteq> None"
    using assms(2,3) by (auto simp: get_wr_def tbl_get_None)
  then have rows: "db_work_requests (put_wr r d)
      = map (\<lambda>q. if wr_id q = wr_id r then r else q) (db_work_requests d)"
    by (simp add: put_wr_rows)
  have "distinct (map wr_id (db_work_requests d))" using assms(1) by (simp add: tree_ok_def)
  then show ?thesis unfolding running_on_rows rows
    by (rule length_filter_replace [OF _ assms(2,3)])
qed
lemma parent_of_same:
  "snd (parent_of i d) = d" "parent_of i d = (Inr (j, p), d') \<Longrightarrow> row j = row i \<and> d' = d"
  by (auto simp: parent_of_def ret_def raise_def with_db_def set_parent_def split: option.splits if_splits)

lemma saved_running_on: "running_on w (saved e r d) = running_on w (put_wr r d)"
  by (simp add: running_on_rows saved_def)

text \<open>Scheduling the update of the workflows writes the row again, but for a flag.\<close>

lemma schedule_running_on:
  assumes "tree_ok d" and "row i \<in> set (db_work_requests d)" and "wr_id (row i) \<noteq> 0"
  shows "running_on w (snd (schedule_workflow_update e rc i d)) = running_on w d
    \<and> db_workers (snd (schedule_workflow_update e rc i d)) = db_workers d
    \<and> (\<forall>j. fst (schedule_workflow_update e rc i d) = Inr j \<longrightarrow> wr_status (row j) = wr_status (row i))"
proof (cases "parent_of i d")
  case (Pair out d1)
  then have d1: "d1 = d" using parent_of_same(1) [of i d] by simp
  show ?thesis
  proof (cases out)
    case (Inl x)
    with Pair d1 show ?thesis by (simp add: schedule_workflow_update_def bind_act_def)
  next
    case (Inr jp)
    obtain j p where jp: "jp = (j, p)" by (cases jp)
    with Pair Inr have j: "row j = row i" using parent_of_same(2) by blast
    let ?r = "(row i)\<lparr>wr_workflows_need_update := True\<rparr>"
    show ?thesis
    proof (cases p)
      case None
      with Pair d1 Inr jp j show ?thesis
        by (simp add: schedule_workflow_update_def bind_act_def ret_def)
    next
      case (Some q)
      have "schedule_workflow_update e rc i d
          = (Inr (upd (\<lambda>r. r\<lparr>wr_workflows_need_update := True\<rparr>) j), add_hook UpdateWorkflows (saved e ?r d))"
        using Pair d1 Inr jp j Some assms(3)
        by (simp add: schedule_workflow_update_def save_known act_defs)
      moreover have "running_on w (add_hook UpdateWorkflows (saved e ?r d)) = running_on w d"
        using put_wr_running_on [OF assms(1,2), of ?r w]
        by (simp add: running_on_rows saved_def)
      ultimately show ?thesis using j by simp
    qed
  qed
qed

text \<open>
  C13: a worker never runs more work requests than its concurrency allows:
  \<open>mark_running\<close> on a request as it is in the database keeps the bound of every
  worker, whether it succeeds, refuses or raises, and a request it says is
  running has that status.
\<close>

theorem mark_running_within_concurrency:
  assumes "tree_ok d" and "distinct (map wk_id (db_workers d))" and "within_concurrency d"
    and "row self \<in> set (db_work_requests d)" and "wr_id (row self) \<noteq> 0"
  shows "within_concurrency (snd (mark_running e rc self d))
    \<and> (\<forall>j. fst (mark_running e rc self d) = Inr (True, j) \<longrightarrow> wr_status (row j) = RUNNING)"
proof -
  let ?r = "(row self)\<lparr>wr_started_at := Some (env_now e), wr_status := RUNNING\<rparr>"
  let ?i = "upd (\<lambda>r. r\<lparr>wr_started_at := Some (env_now e), wr_status := RUNNING\<rparr>) self"
  let ?d = "saved e ?r d"
  have save: "save e rc ?i d = (Inr ?i, ?d)" using assms(5) save_known [of ?i] by simp
  have found: "get_wr d (wr_id ?r) \<noteq> None"
    using assms(4) by (auto simp: get_wr_def tbl_get_None)
  have rows: "db_work_requests ?d
      = map (\<lambda>q. if wr_id q = wr_id (row self) then ?r else q) (db_work_requests d)"
    using put_wr_rows [OF found] by (simp add: saved_def)
  have mem: "row ?i \<in> set (db_work_requests ?d)" using assms(4) by (auto simp: rows)
  have tree: "tree_ok ?d"
  proof -
    have "map (\<lambda>q. (wr_id q, wr_parent q)) (db_work_requests ?d)
        = map (\<lambda>q. (wr_id q, wr_parent q)) (db_work_requests d)"
      using tree_ok_unique [OF assms(1) _ assms(4)] by (auto simp: rows)
    with assms(1) show ?thesis by (simp only: tree_ok_pairs)
  qed
  have id: "wr_id (row ?i) \<noteq> 0" using assms(5) by simp
  have start: "within_concurrency (snd (bind_act (save e rc ?i) (\<lambda>self.
      bind_act (schedule_workflow_update e rc self) (\<lambda>self. ret (True, self))) d))
    \<and> (\<forall>j. fst (bind_act (save e rc ?i) (\<lambda>self.
      bind_act (schedule_workflow_update e rc self) (\<lambda>self. ret (True, self))) d) = Inr (True, j)
        \<longrightarrow> wr_status (row j) = RUNNING)"
    if free: "\<And>w. w \<in> set (db_workers d) \<Longrightarrow> wr_worker (row self) = Some (wk_id w) \<Longrightarrow>
      running_on (wk_id w) d < wk_concurrency w"
    and pending: "wr_status (row self) = PENDING"
  proof -
    have run: "running_on (wk_id w) ?d \<le> wk_concurrency w" if w: "w \<in> set (db_workers d)" for w
      using put_wr_running_on [OF assms(1,4), of ?r "wk_id w"] pending free [OF w] assms(3) w
      by (auto simp: saved_running_on within_concurrency_def split: if_splits)
    obtain out d2 where s: "schedule_workflow_update e rc ?i ?d = (out, d2)" by fastforce
    from schedule_running_on [OF tree mem id, of _ e rc] s
    have s': "\<And>w. running_on w d2 = running_on w ?d" "db_workers d2 = db_workers d"
      "\<And>j. out = Inr j \<Longrightarrow> wr_status (row j) = RUNNING" by simp_all
    have "within_concurrency d2" using run s'(1,2) by (simp add: within_concurrency_def)
    then show ?thesis using save s s'(3)
      by (cases out) (auto simp: bind_act_def ret_def)
  qed
  show ?thesis
  proof (cases "wr_worker (row self)")
    case None
    then show ?thesis using start assms(3)
      by (auto simp: mark_running_def Let_def with_db_def ret_def)
  next
    case (Some w)
    show ?thesis
    proof (cases "get_worker d w")
      case None
      with Some show ?thesis using assms(3)
        by (auto simp: mark_running_def Let_def with_db_def ret_def raise_def)
    next
      case (Some worker)
      have unique: "v = worker" if "v \<in> set (db_workers d)" "wk_id v = w" for v
        using that Some assms(2) tbl_get_iff [of wk_id "db_workers d" w] unfolding get_worker_def
        by (metis option.inject)
      show ?thesis
      proof (cases "wk_concurrency worker \<le> length (running (objects d) (Some w))")
        case True
        then show ?thesis using \<open>wr_worker (row self) = Some w\<close> Some assms(3)
          by (auto simp: mark_running_def Let_def with_db_def ret_def)
      next
        case False
        then have "running_on (wk_id v) d < wk_concurrency v"
          if "v \<in> set (db_workers d)" "wr_worker (row self) = Some (wk_id v)" for v
          using that unique [of v] \<open>wr_worker (row self) = Some w\<close> by (auto simp: running_on_def)
        with False show ?thesis using \<open>wr_worker (row self) = Some w\<close> Some assms(3) start
          by (auto simp: mark_running_def Let_def with_db_def ret_def)
      qed
    qed
  qed
qed

definition example_worker :: worker where
  "example_worker = \<lparr>wk_id = 1, wk_name = ''celery'', wk_registered_at = 0,
     wk_connected_at = Some 0, wk_instance_created_at = None, wk_token = None,
     wk_activation_token = None, wk_static_metadata = [], wk_dynamic_metadata = [],
     wk_dynamic_metadata_updated_at = None, wk_worker_type = CELERY, wk_concurrency = 1,
     wk_worker_pool = None, wk_worker_pool_data = None\<rparr>"

definition example_assigned :: work_request where
  "example_assigned = (new_work_request 4 7)\<lparr>wr_worker := Some 1\<rparr>"

definition example_workers :: db where
  "example_workers = example_db\<lparr>db_workers := [example_worker],
     db_work_requests := [example_assigned]\<rparr>"

theorem mark_running_within_concurrency_witness:
  "within_concurrency (snd (mark_running example_env (run 9 example_env) (fresh example_assigned)
     example_workers))"
proof -
  have "tree_ok example_workers" "within_concurrency example_workers"
    "distinct (map wk_id (db_workers example_workers))"
    "row (fresh example_assigned) \<in> set (db_work_requests example_workers)"
    "wr_id (row (fresh example_assigned)) \<noteq> 0"
    by (simp_all add: example_workers_def example_assigned_def new_work_request_def tree_ok_def
        within_concurrency_def running_on_rows fresh_def example_worker_def)
  from mark_running_within_concurrency [OF this(1,3,2,4,5)] show ?thesis by blast
qed

section \<open>Where an aborted request leaves its dependents\<close>

text \<open>
  When a request that is allowed to fail is aborted, its dependents are
  neither unblocked (an aborted dependency is not a completed one) nor aborted
  (its failure is allowed): \<open>unblock_reverse_dependencies\<close> does nothing, so they
  stay blocked until the request is retried.
\<close>

theorem tolerated_abort_unblocks_nothing:
  assumes "get_wr d (wr_id (row self)) = Some r" and "wr_status r = ABORTED"
    and "wd_allow_failure (wr_workflow_data (row self))"
  shows "unblock_reverse_dependencies rc self d = (Inr (), d)"
proof -
  have r: "r \<in> set (db_work_requests d)" "wr_id r = wr_id (row self)"
    using assms(1) by (auto simp: get_wr_def dest: tbl_get_mem tbl_get_key)
  have "can_be_automatically_unblocked_qs d (wr_reverse_dependencies d (wr_id (row self))) = []"
    using r assms(2)
    by (auto simp: can_be_automatically_unblocked_qs_def can_be_unblocked_qs_def filter_empty_conv
        wr_reverse_dependencies_def wr_dependencies_def objects_def list_ex_iff
        intro!: exI [of _ r])
  then show ?thesis using assms(3)
    by (simp add: unblock_reverse_dependencies_def with_db_def ret_def)
qed

theorem tolerated_abort_unblocks_nothing_witness:
  "unblock_reverse_dependencies (run 9 example_env) (fresh ((new_work_request 3 7)\<lparr>wr_status := ABORTED,
      wr_workflow_data := default_workflow_data\<lparr>wd_allow_failure := True\<rparr>\<rparr>))
     (example_tree ABORTED BLOCKED) = (Inr (), example_tree ABORTED BLOCKED)"
  by (rule tolerated_abort_unblocks_nothing
      [of _ _ "(new_work_request 3 7)\<lparr>wr_status := ABORTED, wr_parent := Some 2\<rparr>"])
    (simp_all add: example_tree_def get_wr_def fresh_def new_work_request_def)

section \<open>What a workflow template fixes\<close>

text \<open>A task has no event reactions of its own when its request is created.\<close>

lemma no_creation_actions:
  assumes "base_tasks e" and "event_actions On_creation (wr_event_reactions r) = []"
  shows "get_triggered_actions e d r On_creation = []"
proof (cases "env_task_reactions e d r On_creation")
  case (Some rs)
  with assms(1) have "rs = task_event_reactions On_creation" unfolding base_tasks_def by blast
  with Some assms(2) show ?thesis by (simp add: get_triggered_actions_def task_event_reactions_def)
qed (use assms(2) in \<open>simp add: get_triggered_actions_def\<close>)

lemma creation_changes_nothing:
  assumes "base_tasks e" and "event_actions On_creation (wr_event_reactions (row i)) = []"
    and "wr_parent (row i) = None"
  shows "\<exists>j. process_event_reactions e rc i On_creation d = (Inr (True, j), d) \<and> row j = row i"
proof -
  have "workflow_root i d = (Inr (i, if is_workflow (row i) then Some i else None), d)"
    using assms(3)
    by (simp add: workflow_root_def parent_of_def act_defs is_part_of_workflow_def)
  then obtain j q where j: "workflow_root i d = (Inr (j, q), d)" "row j = row i" by blast
  have "process_event_reactions e rc i On_creation d = (Inr (True, j), d)"
    using j(1)
    by (simp add: process_event_reactions_def Let_def no_creation_actions [OF assms(1,2)]
        process_skip_if_lookup_result_changed_def process_record_in_task_history_def
        when_act_def with_db_def bind_act_def seq_act_def ret_def)
  with j(2) show ?thesis by blast
qed

text \<open>
  What a template says about its workflows cannot be overridden by the user
  who runs it: the workflow \<open>create_workflow\<close> returns is in the template's
  workspace, runs the template's orchestrator at its priority, and its task data
  are the template's where the template has a value, the user's elsewhere.
\<close>

theorem create_workflow_follows_template:
  assumes "base_tasks e" and "distinct (map fst data)" and "distinct (map fst (wt_task_data template))"
    and "fst (create_workflow e (run (Suc n) e) cx show_pk template data None status validate d) = Inr w"
  shows "wr_workspace (row w) = wt_workspace template \<and> wr_task_type (row w) = WORKFLOW
    \<and> wr_task_name (row w) = wt_task_name template
    \<and> wr_priority_base (row w) = wt_priority template
    \<and> map_of (wr_task_data (row w)) = map_of data ++ map_of (wt_task_data template)
    \<and> wr_internal_collection (row w) \<noteq> None"
proof -
  let ?rc = "run (Suc n) e"
  have fixed: "wr_workspace r = wt_workspace template \<and> wr_task_type r = WORKFLOW
    \<and> wr_task_name r = wt_task_name template \<and> wr_priority_base r = wt_priority template
    \<and> map_of (wr_task_data r) = map_of data ++ map_of (wt_task_data template)"
    if "r = (workflow_row template data None status u)\<lparr>wr_id := k, wr_created_at := t,
        wr_internal_collection := c\<rparr>" for r u k t c
    using that map_of_dict_update [OF assms(2), of "[]"] map_of_dict_update [OF assms(3)]
    by (simp add: workflow_row_def blank_row_def)
  have saved_once: "\<exists>w' d'. save e ?rc (Inst (workflow_row template data None status u) None) d
      = (Inr w', d') \<and> (\<exists>k t. row w' = (workflow_row template data None status u)\<lparr>wr_id := k,
          wr_created_at := t\<rparr> \<and> k \<noteq> 0)" for u
  proof -
    let ?i = "Inst (workflow_row template data None status u) None"
    obtain j where j: "process_event_reactions e (run n e) ?i On_creation d = (Inr (True, j), d)"
      "row j = row ?i"
      using creation_changes_nothing [OF assms(1), of ?i "run n e" d]
      by (auto simp: workflow_row_def blank_row_def no_event_reactions_def event_actions_def)
    have "wr_id (row ?i) = 0" by (simp add: workflow_row_def blank_row_def)
    with j show ?thesis
      by (auto simp: save_def handle_def insert_wr_def save_wr_def Let_def act_defs tbl_next_def)
  qed
  note saved_again = save_known [of _ e]
  from assms(4) obtain u where u: "require_user cx = Inr (AuthUser u)"
    by (auto simp: create_workflow_def act_defs split: sum.splits permission_user.splits)
  obtain w1 d1 k t where w1: "save e ?rc (Inst (workflow_row template data None status u) None) d
      = (Inr w1, d1)" "row w1 = (workflow_row template data None status u)\<lparr>wr_id := k,
          wr_created_at := t\<rparr>" "k \<noteq> 0"
    using saved_once by blast
  have "\<exists>c. row w = (row w1)\<lparr>wr_internal_collection := Some c\<rparr>"
    using assms(4) u w1(1,3) w1(2)
    by (auto simp: create_workflow_def act_defs saved_again Let_def split: sum.splits option.splits)
  then obtain c where "row w = (row w1)\<lparr>wr_internal_collection := Some c\<rparr>" by blast
  with w1(2) fixed [where r = "row w" and u = u and k = k and t = t and c = "Some c"] show ?thesis by simp
qed

definition example_template :: workflow_template where
  "example_template = \<lparr>wt_id = 1, wt_name = ''sid'', wt_workspace = 1, wt_task_name = ''noop'',
     wt_task_data = [(''vendor'', JStr ''debian'')], wt_priority = 5\<rparr>"

lemma example_create:
  "case fst (create_workflow example_env (run (Suc 0) example_env) example_ctx (\<lambda>_. ''1'')
      example_template [(''vendor'', JStr ''other''), (''codename'', JStr ''sid'')] None None None
      example_db) of Inl _ \<Rightarrow> False | Inr w \<Rightarrow> wr_id (row w) = 1"
  by code_simp

theorem create_workflow_follows_template_witness:
  "\<exists>w. fst (create_workflow example_env (run (Suc 0) example_env) example_ctx (\<lambda>_. ''1'')
      example_template [(''vendor'', JStr ''other''), (''codename'', JStr ''sid'')] None None None
      example_db) = Inr w
    \<and> map_of (wr_task_data (row w)) ''vendor'' = Some (JStr ''debian'')
    \<and> map_of (wr_task_data (row w)) ''codename'' = Some (JStr ''sid'')"
proof -
  let ?out = "fst (create_workflow example_env (run (Suc 0) example_env) example_ctx (\<lambda>_. ''1'')
      example_template [(''vendor'', JStr ''other''), (''codename'', JStr ''sid'')] None None None
      example_db)"
  obtain w where w: "?out = Inr w" using example_create by (cases ?out) simp_all
  have keys: "distinct (map fst [(''vendor'', JStr ''other''), (''codename'', JStr ''sid'')])"
    "distinct (map fst (wt_task_data example_template))"
    by (simp_all add: example_template_def)
  from create_workflow_follows_template [OF example_base_tasks keys w] w show ?thesis
    by (simp add: example_template_def)
qed

end
