(* ===== verification/Scheduling.thy ===== *)
theory Scheduling
  imports Scheduler Progress
begin

text \<open>
  What the scheduler does for a worker when nothing goes wrong on the way: task
  classes instantiate, tasks can be configured, event reactions only notify.
\<close>

section \<open>Assigning one request\<close>

text \<open>Configuring a request for a worker only fills the configured and the dynamic task data.\<close>

definition configures :: "env \<Rightarrow> bool" where
  "configures e \<longleftrightarrow> (\<forall>d w r. \<exists>c y. env_configure e d w r =
     Inr (r\<lparr>wr_configured_task_data := c, wr_dynamic_task_data := y\<rparr>))"

lemma row_saved_calm:
  assumes "calm_db d" and "q \<in> set (db_work_requests d)" and "wr_id r = wr_id q"
    and "wr_parent r = wr_parent q" and "refs_ok d r"
  shows "calm_db (saved e r d)"
    and "db_work_requests (saved e r d)
      = map (\<lambda>x. if wr_id x = wr_id r then r else x) (db_work_requests d)"
    and "r \<in> set (db_work_requests (saved e r d))"
proof -
  have "get_wr d (wr_id r) \<noteq> None"
    using assms(2,3) by (auto simp: get_wr_def tbl_get_None)
  then show rows: "db_work_requests (saved e r d)
      = map (\<lambda>x. if wr_id x = wr_id r then r else x) (db_work_requests d)"
    by (simp add: saved_def put_wr_rows)
  with assms(2,3) show "r \<in> set (db_work_requests (saved e r d))" by (auto simp: image_iff)
  have tree: "tree_ok d" using assms(1) by (simp add: calm_db_def)
  have "map (\<lambda>q. (wr_id q, wr_parent q)) (db_work_requests (saved e r d))
      = map (\<lambda>q. (wr_id q, wr_parent q)) (db_work_requests d)"
    using tree_ok_unique [OF tree _ assms(2)] assms(3,4) by (auto simp: rows)
  with tree have "tree_ok (saved e r d)" by (simp only: tree_ok_pairs)
  moreover have "refs_ok (saved e r d) = refs_ok d"
    by (simp add: refs_ok_def fun_eq_iff get_workspace_def get_worker_def)
  ultimately show "calm_db (saved e r d)"
    using assms(1,5) by (auto simp: calm_db_def rows_all_def rows)
qed

lemma saved_quiet: "saved (quiet sc) r d = put_wr r d"
  by (simp add: saved_def quiet_def work_request_changed_def)

lemma assign_worker_calm:
  assumes "calm_env (sc_env sc)" and "configures (sc_env sc)" and "calm_db d"
    and "r \<in> set (db_work_requests d)" and "get_worker d (wk_id worker) \<noteq> None"
  shows "\<exists>i d' c y. assign_worker (quiet sc) (run (Suc n) (sc_env sc)) (fresh r) worker d = (Inr i, d')
    \<and> row i = r\<lparr>wr_configured_task_data := c, wr_dynamic_task_data := y,
                 wr_worker := Some (wk_id worker)\<rparr>
    \<and> db_work_requests d' = map (\<lambda>x. if wr_id x = wr_id r then row i else x) (db_work_requests d)
    \<and> calm_db d' \<and> db_workers d' = db_workers d"
proof -
  let ?e = "sc_env sc"
  obtain c y where c: "env_configure ?e d worker r
      = Inr (r\<lparr>wr_configured_task_data := c, wr_dynamic_task_data := y\<rparr>)"
    using assms(2) unfolding configures_def by blast
  let ?r = "r\<lparr>wr_configured_task_data := c, wr_dynamic_task_data := y,
    wr_worker := Some (wk_id worker)\<rparr>"
  let ?d = "saved (quiet sc) ?r d"
  have refs: "refs_ok d r" using assms(3,4) by (simp add: calm_db_def rows_all_def)
  then have refs': "refs_ok d ?r" using assms(5) by (simp add: refs_ok_def calm_row_def)
  note s = row_saved_calm [OF assms(3,4), of ?r, simplified, OF refs', of "quiet sc"]
  have "wr_id ?r \<noteq> 0" using refs by (simp add: refs_ok_def)
  then have save: "save (quiet sc) rc (Inst ?r None) d = (Inr (Inst ?r None), ?d)" for rc
    using save_known [of "Inst ?r None"] by simp
  have "\<exists>d1. when_act (wk_token worker \<noteq> None) (modify_db (\<lambda>d. d\<lparr>db_messages :=
      db_messages d @ [WorkRequestAssigned (wr_id r)]\<rparr>)) ?d = (Inr (), d1) \<and> same_tables ?d d1"
    by (simp add: when_act_def modify_db_def ret_def same_tables_def)
  then obtain d1 where d1: "when_act (wk_token worker \<noteq> None) (modify_db (\<lambda>d. d\<lparr>db_messages :=
      db_messages d @ [WorkRequestAssigned (wr_id r)]\<rparr>)) ?d = (Inr (), d1)"
    and same1: "same_tables ?d d1" by blast
  have calm1: "calm_db d1" by (rule same_tables_calm [OF same1 s(1)])
  have "?r \<in> set (db_work_requests d1)" using s(3) same1 by (simp add: same_tables_def)
  then have link: "linked d1 (Inst ?r None)" using linked_fresh [OF calm1] by (simp add: fresh_def)
  obtain i d' where i: "process_event_reactions ?e (run n ?e) (Inst ?r None) On_assignment d1
      = (Inr (True, i), d')" "row i = ?r" "same_tables d1 d'"
    using reactions_calm [OF assms(1) calm1 link, of On_assignment "run n ?e"] by auto
  have c': "env_configure (quiet sc) d worker r
      = Inr (r\<lparr>wr_configured_task_data := c, wr_dynamic_task_data := y\<rparr>)"
    using c by (simp add: quiet_def)
  have i': "run (Suc n) ?e (Reactions (Inst ?r None) On_assignment) d1 = (Inr (True, i), d')"
    using i(1) by (simp add: handle_def)
  have "assign_worker (quiet sc) rc (fresh r) worker d = (Inr i, d')"
    if "rc (Reactions (Inst ?r None) On_assignment) d1 = (Inr (True, i), d')" for rc
    using c' save d1 that
    by (simp add: assign_worker_def with_db_def lift_res_def bind_act_def seq_act_def ret_def
        fresh_def upd_def)
  from this [of "run (Suc n) ?e", OF i']
  have "assign_worker (quiet sc) (run (Suc n) ?e) (fresh r) worker d = (Inr i, d')" .
  moreover have "db_work_requests d' = map (\<lambda>x. if wr_id x = wr_id r then row i else x) (db_work_requests d)"
    using i(2,3) same1 s(2) by (simp add: same_tables_def)
  moreover have "calm_db d'" by (rule same_tables_calm [OF i(3) calm1])
  moreover have "db_workers d' = db_workers d" using i(3) same1 by (simp add: same_tables_def)
  ultimately show ?thesis using i(2) by blast
qed

section \<open>The first request that can run\<close>

text \<open>The task of \<open>r\<close> can run on the worker, and no other transaction holds the row.\<close>

definition takes ::
  "sched \<Rightarrow> (work_request \<Rightarrow> (string \<times> json) list \<Rightarrow> bool) \<Rightarrow> worker \<Rightarrow> work_request \<Rightarrow> bool" where
  "takes sc can_run_on worker r \<longleftrightarrow>
     can_run_on r (metadata worker) \<and> \<not> sc_wr_locked sc (wr_id r)"

lemma assign_skips:
  assumes "sc_get_task sc d r worker = Inr (can_run_on r)" and "\<not> takes sc can_run_on worker r"
  shows "assign_work_request_to_worker sc rc r worker d = (Inr None, d)"
  using assms by (auto simp: assign_work_request_to_worker_def with_db_def ret_def takes_def)

lemma assign_takes:
  assumes "calm_env (sc_env sc)" and "configures (sc_env sc)" and "calm_db d"
    and "r \<in> set (db_work_requests d)" and "get_worker d (wk_id worker) \<noteq> None"
    and "sc_get_task sc d r worker = Inr (can_run_on r)" and "takes sc can_run_on worker r"
    and "wr_worker r = None"
  shows "\<exists>i d' c y. assign_work_request_to_worker sc (run (Suc n) (sc_env sc)) r worker d
      = (Inr (Some i), d')
    \<and> row i = r\<lparr>wr_configured_task_data := c, wr_dynamic_task_data := y,
                 wr_worker := Some (wk_id worker)\<rparr>
    \<and> db_work_requests d' = map (\<lambda>x. if wr_id x = wr_id r then row i else x) (db_work_requests d)
    \<and> calm_db d' \<and> db_workers d' = db_workers d"
proof -
  have tree: "tree_ok d" using assms(3) by (simp add: calm_db_def)
  then have found: "get_wr d (wr_id r) = Some r" using assms(4) by (simp add: get_wr_row)
  obtain i d1 c y where i: "assign_worker (quiet sc) (run (Suc n) (sc_env sc)) (fresh r) worker d
      = (Inr i, d1)"
    "row i = r\<lparr>wr_configured_task_data := c, wr_dynamic_task_data := y,
      wr_worker := Some (wk_id worker)\<rparr>"
    "db_work_requests d1 = map (\<lambda>x. if wr_id x = wr_id r then row i else x) (db_work_requests d)"
    "calm_db d1" "db_workers d1 = db_workers d"
    using assign_worker_calm [OF assms(1-5)] by blast
  let ?d = "if wr_task_type (row i) = SERVER
    then d1\<lparr>db_on_commit := db_on_commit d1 @ [RunServerTask (wr_id (row i))]\<rparr> else d1"
  have "same_tables d1 ?d" by (simp add: same_tables_def)
  then have calm: "calm_db ?d" and rows: "db_work_requests ?d = db_work_requests d1"
    using same_tables_calm [of d1 ?d] i(4) by (simp_all add: same_tables_def)
  have run: "assign_work_request_to_worker sc rc r worker d = (Inr (Some i), ?d)"
    if "assign_worker (quiet sc) rc (fresh r) worker d = (Inr i, d1)" for rc
    using assms(6-8) found that
    by (simp add: assign_work_request_to_worker_def takes_def with_db_def bind_act_def catch_act_def
        seq_act_def ret_def when_act_def on_commit_def modify_db_def)
  have "db_work_requests ?d = map (\<lambda>x. if wr_id x = wr_id r then row i else x) (db_work_requests d)"
    using rows i(3) by (rule trans)
  moreover have "db_workers ?d = db_workers d" using i(5) by simp
  ultimately show ?thesis using run [OF i(1)] i(2) calm by blast
qed

lemma try_candidates_first:
  assumes "calm_env (sc_env sc)" and "configures (sc_env sc)" and "calm_db d"
    and "get_worker d (wk_id worker) \<noteq> None"
  shows "\<forall>r\<in>set rs. r \<in> set (db_work_requests d) \<and> wr_worker r = None
      \<and> sc_get_task sc d r worker = Inr (can_run_on r) \<Longrightarrow>
    (case find (takes sc can_run_on worker) rs of
       None \<Rightarrow> try_candidates sc (run (Suc n) (sc_env sc)) worker rs d = (Inr None, d)
     | Some r \<Rightarrow> \<exists>i d' c y. try_candidates sc (run (Suc n) (sc_env sc)) worker rs d = (Inr (Some i), d')
         \<and> row i = r\<lparr>wr_configured_task_data := c, wr_dynamic_task_data := y,
                      wr_worker := Some (wk_id worker)\<rparr>
         \<and> db_work_requests d' = map (\<lambda>x. if wr_id x = wr_id r then row i else x)
             (db_work_requests d)
         \<and> calm_db d' \<and> db_workers d' = db_workers d)"
proof (induction rs)
  case Nil
  then show ?case by (simp add: ret_def)
next
  case (Cons r rs)
  have r: "r \<in> set (db_work_requests d)" "wr_worker r = None"
    "sc_get_task sc d r worker = Inr (can_run_on r)" using Cons.prems by simp_all
  show ?case
  proof (cases "takes sc can_run_on worker r")
    case False
    have skip: "try_candidates sc rc worker (r # rs) d = try_candidates sc rc worker rs d" for rc
      using assign_skips [OF r(3) False, of rc]
      by (simp add: bind_act_def catch_act_def ret_def)
    have rest: "\<forall>r\<in>set rs. r \<in> set (db_work_requests d) \<and> wr_worker r = None
      \<and> sc_get_task sc d r worker = Inr (can_run_on r)" using Cons.prems by simp
    show ?thesis unfolding skip using Cons.IH [OF rest] False by (simp only: find.simps if_False)
  next
    case True
    obtain i d' c y where i: "assign_work_request_to_worker sc (run (Suc n) (sc_env sc)) r worker d
        = (Inr (Some i), d')"
      "row i = r\<lparr>wr_configured_task_data := c, wr_dynamic_task_data := y,
        wr_worker := Some (wk_id worker)\<rparr>"
      "db_work_requests d' = map (\<lambda>x. if wr_id x = wr_id r then row i else x) (db_work_requests d)"
      "calm_db d'" "db_workers d' = db_workers d"
      using assign_takes [OF assms(1-3) r(1) assms(4) r(3) True r(2)] by blast
    have "try_candidates sc rc worker (r # rs) d = (Inr (Some i), d')"
      if "assign_work_request_to_worker sc rc r worker d = (Inr (Some i), d')" for rc
      using that by (simp add: bind_act_def catch_act_def ret_def)
    with i True show ?thesis by auto
  qed
qed

lemma find_sorted:
  fixes k :: "'a \<Rightarrow> 'b::linorder"
  shows "sorted (map k xs) \<Longrightarrow> find P xs = Some x \<Longrightarrow> y \<in> set xs \<Longrightarrow> P y \<Longrightarrow> k x \<le> k y"
  by (induction xs) (auto split: if_splits)

lemma find_Some_mem: "find P xs = Some x \<Longrightarrow> x \<in> set xs \<and> P x"
  by (induction xs) (auto split: if_splits)

lemma candidates_sorted:
  assumes "worker_candidates sc d worker = Inr qs"
  shows "sorted (map (\<lambda>r. (- (wr_priority_base r + wr_priority_adjustment r), wr_created_at r)) qs)"
    and "\<forall>r\<in>set qs. r \<in> set (db_work_requests d) \<and> wr_status r = PENDING \<and> wr_worker r = None"
proof -
  let ?k = "\<lambda>r. (- (wr_priority_base r + wr_priority_adjustment r), wr_created_at r)"
  have filtered: "\<exists>Q. qs = filter Q ps"
    if "allowed_tasks sc meta ps = Inr qs" for meta ps
    using that by (auto simp: allowed_tasks_def not_denied_tasks_def bind_res_def
        split: option.splits if_splits sum.splits intro: filter_True [symmetric])
  have "\<exists>ps Q. pending (objects d) True None = Inr ps \<and> qs = filter Q (filter assignable_type ps)"
    using assms filtered by (fastforce simp: worker_candidates_def bind_res_def pending_def)
  then obtain ps Q where ps: "pending (objects d) True None = Inr ps"
    "qs = filter Q (filter assignable_type ps)" by blast
  have p: "ps = sort_key ?k (filter (\<lambda>r. wr_worker r = None) (filter (\<lambda>r. wr_status r = PENDING) (objects d)))"
    using ps(1) by (simp add: pending_def)
  have sort: "sorted (map ?k ps)" unfolding p by (rule sorted_sort_key)
  show "sorted (map ?k qs)" unfolding ps(2) by (rule sorted_filter [OF sorted_filter [OF sort]])
  show "\<forall>r\<in>set qs. r \<in> set (db_work_requests d) \<and> wr_status r = PENDING \<and> wr_worker r = None"
    by (auto simp: ps(2) p objects_def)
qed

lemma assigned_active:
  assumes "tree_ok d" and "r \<in> set (db_work_requests d)" and "wr_worker r = None"
    and "wr_status r = PENDING" and "wr_id x = wr_id r" and "wr_status x = PENDING"
    and "wr_worker x = Some w"
    and "db_work_requests d' = map (\<lambda>q. if wr_id q = wr_id r then x else q) (db_work_requests d)"
  shows "length (active_work_requests d' w) = Suc (length (active_work_requests d w))"
proof -
  let ?P = "\<lambda>r. wr_worker r = Some w \<and> wr_status r \<in> {RUNNING, PENDING}"
  have "distinct (map wr_id (db_work_requests d))" using assms(1) by (simp add: tree_ok_def)
  from length_filter_replace [OF this assms(2) assms(5) [symmetric], of ?P] assms(3-8)
  show ?thesis
    unfolding active_work_requests_def objects_def length_filter_sort by simp
qed

text \<open>
  C9: when the task of every candidate can be made and configured, a worker that has room and that no other
  transaction holds gets the first request it can take: of the pending, unassigned
  requests its lists allow, the one of the highest priority that can run on it (skipping
  rows other transactions hold); afterwards it has one request more and not more than its
  concurrency. If it can take none, nothing changes. (A candidate that cannot be configured
  would be aborted.) The conditions on event reactions and collections are the ones for
  completing a request.
\<close>

theorem schedule_for_worker_takes_first:
  assumes "calm_env (sc_env sc)" and "configures (sc_env sc)" and "calm_db d"
    and "possible_to_schedule_for_worker sc d worker = Inr True"
    and "worker_candidates sc d worker = Inr qs"
    and "\<forall>r\<in>set qs. sc_get_task sc d r worker = Inr (can_run_on r)"
  shows "case find (takes sc can_run_on worker) qs of
      None \<Rightarrow> schedule_for_worker sc (run (Suc n) (sc_env sc)) worker d = (Inr None, d)
    | Some r \<Rightarrow> \<exists>i d'. schedule_for_worker sc (run (Suc n) (sc_env sc)) worker d = (Inr (Some i), d')
        \<and> wr_id (row i) = wr_id r \<and> wr_worker (row i) = Some (wk_id worker)
        \<and> row i \<in> set (db_work_requests d')
        \<and> (\<forall>q\<in>set qs. takes sc can_run_on worker q \<longrightarrow>
             priority_effective q \<le> priority_effective r)
        \<and> length (active_work_requests d' (wk_id worker))
            = Suc (length (active_work_requests d (wk_id worker)))
        \<and> length (active_work_requests d' (wk_id worker)) \<le> wk_concurrency worker"
proof -
  let ?rc = "run (Suc n) (sc_env sc)"
  have room: "length (active_work_requests d (wk_id worker)) < wk_concurrency worker"
    and found: "get_worker d (wk_id worker) \<noteq> None"
    using assms(4) by (auto simp: possible_to_schedule_for_worker_def is_at_capacity_def
        length_running_or_pending split: if_splits)
  note cand = candidates_sorted [OF assms(5)]
  have ok: "\<forall>r\<in>set qs. r \<in> set (db_work_requests d) \<and> wr_worker r = None
      \<and> sc_get_task sc d r worker = Inr (can_run_on r)"
    using cand(2) assms(6) by simp
  note first = try_candidates_first [OF assms(1-3) found ok, of n]
  have run: "schedule_for_worker sc rc worker d = atomic (try_candidates sc rc worker qs) d" for rc
    using assms(4,5) by (simp add: schedule_for_worker_def atomic_def with_db_def bind_act_def lift_res_def)
  show ?thesis
  proof (cases "find (takes sc can_run_on worker) qs")
    case None
    with first show ?thesis unfolding run by (simp add: atomic_def)
  next
    case (Some r)
    have r: "r \<in> set qs" using find_Some_mem [OF Some] by simp
    from first Some obtain i d' c y where i:
      "try_candidates sc ?rc worker qs d = (Inr (Some i), d')"
      "row i = r\<lparr>wr_configured_task_data := c, wr_dynamic_task_data := y,
        wr_worker := Some (wk_id worker)\<rparr>"
      "db_work_requests d' = map (\<lambda>x. if wr_id x = wr_id r then row i else x) (db_work_requests d)"
      by auto
    have tree: "tree_ok d" using assms(3) by (simp add: calm_db_def)
    have row: "wr_id (row i) = wr_id r" "wr_status (row i) = PENDING"
      "wr_worker (row i) = Some (wk_id worker)" using i(2) r cand(2) by simp_all
    have rm: "r \<in> set (db_work_requests d)" "wr_worker r = None" "wr_status r = PENDING"
      using cand(2) r by simp_all
    have active: "length (active_work_requests d' (wk_id worker))
        = Suc (length (active_work_requests d (wk_id worker)))"
      by (rule assigned_active [OF tree rm row i(3)])
    have "priority_effective q \<le> priority_effective r"
      if "q \<in> set qs" "takes sc can_run_on worker q" for q
      using find_sorted [OF cand(1) Some that] by (auto simp: priority_effective_def)
    moreover have "row i \<in> set (db_work_requests d')" using rm(1) by (auto simp: i(3) image_iff)
    moreover have "schedule_for_worker sc ?rc worker d = (Inr (Some i), d')"
      unfolding run using i(1) by (simp add: atomic_def)
    ultimately show ?thesis using Some row(1,3) active room by auto
  qed
qed

section \<open>An example\<close>

definition example_sched :: sched where
  "example_sched = \<lparr>sc_env = example_env, sc_get_task = \<lambda>d r w. Inr (\<lambda>m. True),
     sc_worker_locked = \<lambda>k. False, sc_wr_locked = \<lambda>k. k = 4, sc_in_progress = \<lambda>d. [],
     sc_in_values = \<lambda>v. Inr []\<rparr>"

definition example_queue :: db where
  "example_queue = example_db\<lparr>db_workers := [example_worker],
     db_work_requests := [new_work_request 4 7, new_work_request 5 7]\<rparr>"

lemma example_candidates:
  "worker_candidates example_sched example_queue example_worker
     = Inr [new_work_request 4 7, new_work_request 5 7]"
  by (simp add: worker_candidates_def pending_def objects_def example_queue_def allowed_tasks_def
      not_denied_tasks_def metadata_def dict_update_def example_worker_def new_work_request_def
      assignable_type_def)

lemma example_queue_calm: "calm_db example_queue"
  by (simp add: calm_db_def tree_ok_def rows_all_def refs_ok_def example_row_calm
      example_queue_def new_work_request_def example_simps get_workspace_def tbl_get_def)

lemma example_configures: "configures example_env"
proof -
  have "env_configure example_env d w r = Inr (r\<lparr>wr_configured_task_data := wr_configured_task_data r,
      wr_dynamic_task_data := wr_dynamic_task_data r\<rparr>)" for d w r
    by (simp add: example_env_def)
  then show ?thesis unfolding configures_def by blast
qed

theorem schedule_for_worker_takes_first_witness:
  "\<exists>i d'. schedule_for_worker example_sched (run (Suc 0) example_env) example_worker example_queue
      = (Inr (Some i), d')
    \<and> wr_id (row i) = 5 \<and> length (active_work_requests d' 1) \<le> 1"
proof -
  have env: "calm_env (sc_env example_sched)" "configures (sc_env example_sched)"
    using example_calm_env example_configures by (simp_all add: example_sched_def)
  have possible: "possible_to_schedule_for_worker example_sched example_queue example_worker = Inr True"
    by (simp add: possible_to_schedule_for_worker_def is_at_capacity_def running_or_pending_def
        running_def objects_def example_queue_def example_worker_def new_work_request_def
        example_sched_def get_worker_def)
  have task: "\<forall>r\<in>set [new_work_request 4 7, new_work_request 5 7].
      sc_get_task example_sched example_queue r example_worker = Inr ((\<lambda>r m. True) r)"
    by (simp add: example_sched_def)
  from schedule_for_worker_takes_first [OF env example_queue_calm possible example_candidates task,
      of 0]
  show ?thesis
    by (auto simp: takes_def example_sched_def new_work_request_def example_worker_def)
qed

end
