(* ===== verification/WorkerPools.thy ===== *)
theory WorkerPools
  imports Scheduler
begin

text \<open>
  Saving workers (which calls the scheduler), creating them, and the pools of
  cloud workers that launch and terminate them (debusine/db/models/workers.py,
  worker_pools.py, and the tokens of auth.py).
\<close>

section \<open>Saving and creating workers\<close>

definition worker_changed :: "sched \<Rightarrow> calls \<Rightarrow> worker \<Rightarrow> unit dbact" where
  "worker_changed sc rc w =
     when_act (env_auto (sc_env sc)) (bind_act (schedule_for_worker sc rc w) (\<lambda>_. ret ()))"

definition put_worker :: "worker \<Rightarrow> db \<Rightarrow> db" where
  "put_worker w d = d\<lparr>db_workers := tbl_upd wk_id (wk_id w) (\<lambda>_. w) (db_workers d)\<rparr>"

definition save_worker :: "sched \<Rightarrow> calls \<Rightarrow> worker \<Rightarrow> unit dbact" where
  "save_worker sc rc w = seq_act (modify_db (put_worker w)) (worker_changed sc rc w)"

definition new_worker :: "env \<Rightarrow> string \<Rightarrow> worker_type \<Rightarrow> worker" where
  "new_worker e name t = \<lparr>wk_id = 0, wk_name = name, wk_registered_at = env_now e,
     wk_connected_at = None, wk_instance_created_at = None, wk_token = None,
     wk_activation_token = None, wk_static_metadata = [], wk_dynamic_metadata = [],
     wk_dynamic_metadata_updated_at = None, wk_worker_type = t, wk_concurrency = 1,
     wk_worker_pool = None, wk_worker_pool_data = None\<rparr>"

text \<open>
  The constraints of the table: unique names, a token belongs to one worker, and
  only the Celery worker does without one. Names are at most 50 characters long.
\<close>

definition shares_token :: "worker \<Rightarrow> worker \<Rightarrow> bool" where
  "shares_token w v \<longleftrightarrow> (wk_token w \<noteq> None \<and> wk_token v = wk_token w)
     \<or> (wk_activation_token w \<noteq> None \<and> wk_activation_token v = wk_activation_token w)"

definition celery_or_token :: "worker \<Rightarrow> bool" where
  "celery_or_token w \<longleftrightarrow>
     wk_worker_type w = CELERY \<or> wk_activation_token w \<noteq> None \<or> wk_token w \<noteq> None"

definition insertable_worker :: "db \<Rightarrow> worker \<Rightarrow> unit res" where
  "insertable_worker d w =
     (if 50 < length (wk_name w) then Inl (DataError ''value too long'')
      else if \<not> celery_or_token w then Inl (IntegrityError ''celery_or_token'')
      else if list_ex (\<lambda>v. wk_name v = wk_name w) (db_workers d)
      then Inl (IntegrityError ''name'')
      else if list_ex (shares_token w) (db_workers d) then Inl (IntegrityError ''token'')
      else Inr ())"

definition insert_worker :: "sched \<Rightarrow> calls \<Rightarrow> worker \<Rightarrow> worker dbact" where
  "insert_worker sc rc w = with_db (\<lambda>d.
     seq_act (lift_res (insertable_worker d w))
       (let w = w\<lparr>wk_id := tbl_next wk_id (db_workers d)\<rparr>
        in seq_act (modify_db (\<lambda>d. d\<lparr>db_workers := db_workers d @ [w]\<rparr>))
             (seq_act (worker_changed sc rc w) (ret w))))"

definition is_integrity_error :: "exn \<Rightarrow> bool" where
  "is_integrity_error x = (case x of IntegrityError _ \<Rightarrow> True | _ \<Rightarrow> False)"

text \<open>The loop of \<open>create_with_fqdn\<close>: the next counter after every \<open>IntegrityError\<close>.\<close>

primrec create_with_fqdn ::
  "nat \<Rightarrow> sched \<Rightarrow> calls \<Rightarrow> (string \<Rightarrow> string) \<Rightarrow> string \<Rightarrow> worker \<Rightarrow> nat \<Rightarrow> worker dbact" where
  "create_with_fqdn 0 sc rc slugify fqdn w counter = raise OutOfFuel"
| "create_with_fqdn (Suc n) sc rc slugify fqdn w counter =
     catch_act
       (atomic (insert_worker sc rc (w\<lparr>wk_name := generate_unique_name slugify fqdn counter\<rparr>)))
       (\<lambda>x. if is_integrity_error x
             then create_with_fqdn n sc rc slugify fqdn w (Suc counter) else raise x)"

definition worker_from_fqdn ::
  "nat \<Rightarrow> sched \<Rightarrow> calls \<Rightarrow> (string \<Rightarrow> string) \<Rightarrow> string \<Rightarrow> pk option \<Rightarrow> pk option \<Rightarrow>
     worker_type \<Rightarrow> pk option \<Rightarrow> worker dbact" where
  "worker_from_fqdn n sc rc slugify fqdn token activation_token t pool =
     create_with_fqdn n sc rc slugify fqdn
       ((new_worker (sc_env sc) [] t)\<lparr>wk_token := token, wk_activation_token := activation_token,
          wk_worker_pool := pool\<rparr>) 1"

definition get_or_create_celery :: "sched \<Rightarrow> calls \<Rightarrow> worker dbact" where
  "get_or_create_celery sc rc = with_db (\<lambda>d.
     case find (\<lambda>w. wk_name w = ''celery'' \<and> wk_worker_type w = CELERY) (db_workers d) of
       Some w \<Rightarrow> ret w
     | None \<Rightarrow> insert_worker sc rc (new_worker (sc_env sc) ''celery'' CELERY))"

definition mark_disconnected :: "sched \<Rightarrow> calls \<Rightarrow> worker \<Rightarrow> unit dbact" where
  "mark_disconnected sc rc self = save_worker sc rc (self\<lparr>wk_connected_at := None\<rparr>)"

definition mark_connected :: "sched \<Rightarrow> calls \<Rightarrow> worker \<Rightarrow> unit dbact" where
  "mark_connected sc rc self =
     save_worker sc rc (self\<lparr>wk_connected_at := Some (env_now (sc_env sc))\<rparr>)"

definition set_dynamic_metadata ::
  "sched \<Rightarrow> calls \<Rightarrow> worker \<Rightarrow> (string \<times> json) list \<Rightarrow> unit dbact" where
  "set_dynamic_metadata sc rc self new_metadata =
     save_worker sc rc (self\<lparr>wk_dynamic_metadata := new_metadata,
       wk_dynamic_metadata_updated_at := Some (env_now (sc_env sc))\<rparr>)"

text \<open>An \<open>UPDATE\<close> of the table, which sends no signals.\<close>

definition mark_all_disconnected :: "unit dbact" where
  "mark_all_disconnected = modify_db (\<lambda>d. d\<lparr>db_workers :=
     map (\<lambda>w. if wk_connected_at w \<noteq> None \<and> wk_worker_type w \<noteq> CELERY
              then w\<lparr>wk_connected_at := None\<rparr> else w) (db_workers d)\<rparr>)"

section \<open>Tokens\<close>

definition create_worker_activation :: "env \<Rightarrow> pk dbact" where
  "create_worker_activation e = with_db (\<lambda>d.
     let t = \<lparr>tk_id = tbl_next tk_id (db_tokens d), tk_hash = env_token_hash e d, tk_user = None, tk_enabled = True, tk_last_seen_at = None,
              tk_expire_at = Some (env_now e + 15 * 60)\<rparr>
     in seq_act (modify_db (\<lambda>d. d\<lparr>db_tokens := db_tokens d @ [t]\<rparr>)) (ret (tk_id t)))"

text \<open>Disabling a token tells the worker that authenticates with it.\<close>

definition disable_token :: "pk \<Rightarrow> unit dbact" where
  "disable_token t = modify_db (\<lambda>d. d\<lparr>
     db_tokens := tbl_upd tk_id t (\<lambda>r. r\<lparr>tk_enabled := False\<rparr>) (db_tokens d),
     db_messages := db_messages d
       @ (if list_ex (\<lambda>w. wk_token w = Some t) (db_workers d) then [WorkerDisabled t] else [])\<rparr>)"

text \<open>The activation token of a worker is set to null when it is deleted.\<close>

definition delete_token :: "pk \<Rightarrow> unit dbact" where
  "delete_token t = modify_db (\<lambda>d. d\<lparr>
     db_tokens := filter (\<lambda>r. tk_id r \<noteq> t) (db_tokens d),
     db_workers := map (\<lambda>w. if wk_activation_token w = Some t
                            then w\<lparr>wk_activation_token := None\<rparr> else w) (db_workers d)\<rparr>)"

section \<open>Pools\<close>

primrec create_pool_members ::
  "nat \<Rightarrow> sched \<Rightarrow> calls \<Rightarrow> worker_pool \<Rightarrow> nat \<Rightarrow> nat \<Rightarrow> unit dbact" where
  "create_pool_members 0 sc rc pool missing index = raise OutOfFuel"
| "create_pool_members (Suc n) sc rc pool missing index =
     (if missing = 0 then ret ()
      else bind_act
        (catch_act (atomic (bind_act (create_worker_activation (sc_env sc)) (\<lambda>t.
            bind_act (insert_worker sc rc
              ((new_worker (sc_env sc) (pool_member_name (wp_name pool) index) EXTERNAL)
                \<lparr>wk_activation_token := Some t, wk_worker_pool := Some (wp_id pool)\<rparr>))
              (\<lambda>_. ret True))))
          (\<lambda>x. if is_integrity_error x then ret False else raise x)) (\<lambda>created.
        create_pool_members n sc rc pool (if created then missing - 1 else missing) (Suc index)))"

definition workers_running :: "db \<Rightarrow> pk \<Rightarrow> worker list" where
  "workers_running d pool =
     filter (\<lambda>w. wk_worker_pool w = Some pool \<and> wk_instance_created_at w \<noteq> None) (db_workers d)"

definition workers_stopped :: "db \<Rightarrow> pk \<Rightarrow> worker list" where
  "workers_stopped d pool =
     filter (\<lambda>w. wk_worker_pool w = Some pool \<and> wk_instance_created_at w = None) (db_workers d)"

text \<open>
  What a cloud provider does when a worker is launched or terminated; both save
  the worker. \<open>name_le\<close> is the order of the database on names.
\<close>

record provider =
  pv_launch_worker :: "worker \<Rightarrow> unit dbact"
  pv_terminate_worker :: "worker \<Rightarrow> unit dbact"
  pv_name_key :: "string \<Rightarrow> nat"

definition launch_one :: "sched \<Rightarrow> calls \<Rightarrow> provider \<Rightarrow> worker \<Rightarrow> unit dbact" where
  "launch_one sc rc pv worker =
     bind_act (create_worker_activation (sc_env sc)) (\<lambda>t.
       let launched = worker\<lparr>wk_activation_token := Some t\<rparr>
       in seq_act (save_worker sc rc launched)
          (seq_act (case wk_activation_token worker of None \<Rightarrow> ret () | Some old \<Rightarrow> delete_token old)
          (seq_act (case wk_token worker of None \<Rightarrow> ret () | Some k \<Rightarrow> disable_token k)
                   (pv_launch_worker pv launched))))"

text \<open>The stopped workers no other transaction holds, by name; the first is launched.\<close>

definition next_stopped :: "sched \<Rightarrow> provider \<Rightarrow> db \<Rightarrow> pk \<Rightarrow> worker option" where
  "next_stopped sc pv d pool =
     (case sort_key (\<lambda>w. pv_name_key pv (wk_name w))
             (filter (\<lambda>w. \<not> sc_worker_locked sc (wk_id w)) (workers_stopped d pool)) of
        [] \<Rightarrow> None | w # ws \<Rightarrow> Some w)"

text \<open>One round per worker to launch; a round that finds none ends the loop early.\<close>

primrec launch_loop :: "sched \<Rightarrow> calls \<Rightarrow> provider \<Rightarrow> pk \<Rightarrow> nat \<Rightarrow> unit dbact" where
  "launch_loop sc rc pv pool 0 = ret ()"
| "launch_loop sc rc pv pool (Suc n) =
     bind_act (atomic (with_db (\<lambda>d.
         case next_stopped sc pv d pool of
           None \<Rightarrow> ret False
         | Some w \<Rightarrow> seq_act (launch_one sc rc pv w) (ret True)))) (\<lambda>launched.
       if launched then launch_loop sc rc pv pool n else ret ())"

definition launch_workers ::
  "nat \<Rightarrow> sched \<Rightarrow> calls \<Rightarrow> provider \<Rightarrow> worker_pool \<Rightarrow> nat \<Rightarrow> unit dbact" where
  "launch_workers fuel sc rc pv pool wanted = with_db (\<lambda>d.
     let available = length (workers_stopped d (wp_id pool))
     in seq_act (when_act (available < wanted)
                  (create_pool_members fuel sc rc pool (wanted - available) 1))
          (launch_loop sc rc pv (wp_id pool) wanted))"

text \<open>
  A request that was running on a terminated worker is aborted, then retried with
  permission checks disabled if it can be.
\<close>

definition retry_running :: "sched \<Rightarrow> calls \<Rightarrow> work_request \<Rightarrow> unit dbact" where
  "retry_running sc rc r =
     bind_act (rc (MarkAborted (fresh r) None)) (\<lambda>(_, running).
       catch_act
         (bind_act (rc (Retry ((env_context (sc_env sc))\<lparr>cx_permission_checks_disabled := True\<rparr>)
                          running WORKER_FAILED)) (\<lambda>_. ret ()))
         (\<lambda>x. if is_cannot_retry x then ret () else raise x))"

definition terminate_worker ::
  "sched \<Rightarrow> calls \<Rightarrow> provider \<Rightarrow> worker_pool \<Rightarrow> worker \<Rightarrow> unit dbact" where
  "terminate_worker sc rc pv pool worker =
     (if wk_worker_pool worker \<noteq> Some (wp_id pool)
      then raise (ValueError ''pool cannot terminate worker for another pool'')
      else
        seq_act (case wk_activation_token worker of None \<Rightarrow> ret () | Some t \<Rightarrow> disable_token t)
        (seq_act (case wk_token worker of None \<Rightarrow> ret () | Some t \<Rightarrow> disable_token t)
        (seq_act (case wk_instance_created_at worker of
                    None \<Rightarrow> ret ()
                  | Some t \<Rightarrow> modify_db (\<lambda>d. d\<lparr>db_pool_statistics := db_pool_statistics d @
                      [\<lparr>ps_worker_pool = wp_id pool, ps_worker = Some (wk_id worker),
                        ps_timestamp = env_now (sc_env sc),
                        ps_runtime = env_now (sc_env sc) - t\<rparr>]\<rparr>))
        (seq_act (pv_terminate_worker pv worker)
           (with_db (\<lambda>d. for_each (running (objects d) (Some (wk_id worker)))
             (retry_running sc rc)))))))"

end
