(* ===== verification/Pools.thy ===== *)
theory Pools
  imports WorkerPools Scheduling
begin

text \<open>
  Properties of the creation and the termination of workers: the loops that look
  for an unused name end, what they create, when they do not end, and what
  terminating a worker does to the requests it was running.
\<close>

section \<open>Names for new workers\<close>

definition used_names :: "db \<Rightarrow> string set" where
  "used_names d = wk_name ` set (db_workers d)"

lemma card_used_names: "card (used_names d) \<le> length (db_workers d)"
  unfolding used_names_def by (rule order_trans [OF card_image_le card_length]) simp

text \<open>The scheduler, called when a worker is saved, raises no \<open>IntegrityError\<close>.\<close>

definition no_integrity_error :: "sched \<Rightarrow> calls \<Rightarrow> bool" where
  "no_integrity_error sc rc \<longleftrightarrow>
     (\<forall>w d m. fst (worker_changed sc rc w d) \<noteq> Inl (IntegrityError m))"

lemma insert_worker_used:
  assumes "wk_name w \<in> used_names d" and "length (wk_name w) \<le> 50"
  shows "\<exists>m. atomic (insert_worker sc rc w) d = (Inl (IntegrityError m), d)"
  using assms
  by (auto simp: atomic_def insert_worker_def act_defs insertable_worker_def used_names_def list_ex_iff)

lemma insert_worker_shared:
  assumes "list_ex (shares_token w) (db_workers d)" and "length (wk_name w) \<le> 50"
  shows "\<exists>m. atomic (insert_worker sc rc w) d = (Inl (IntegrityError m), d)"
  using assms by (auto simp: atomic_def insert_worker_def act_defs insertable_worker_def)

lemma insert_worker_free:
  assumes "no_integrity_error sc rc" and "wk_name w \<notin> used_names d"
    and "length (wk_name w) \<le> 50" and "celery_or_token w"
    and "\<not> list_ex (shares_token w) (db_workers d)"
  shows "fst (atomic (insert_worker sc rc w) d) \<noteq> Inl (IntegrityError m)"
proof -
  have "wk_name v \<noteq> wk_name w" if "v \<in> set (db_workers d)" for v
    using assms(2) that unfolding used_names_def by (metis imageI)
  then have ok: "insertable_worker d w = Inr ()"
    using assms(3-5) by (auto simp: insertable_worker_def list_ex_iff)
  let ?w = "w\<lparr>wk_id := tbl_next wk_id (db_workers d)\<rparr>"
  let ?d = "d\<lparr>db_workers := db_workers d @ [?w]\<rparr>"
  have "fst (worker_changed sc rc ?w ?d) \<noteq> Inl (IntegrityError m)"
    using assms(1) by (simp add: no_integrity_error_def)
  with ok show ?thesis
    by (cases "worker_changed sc rc ?w ?d")
      (auto simp: atomic_def insert_worker_def act_defs Let_def split: sum.splits)
qed

text \<open>Django's slug and the length limit leave room for the counters that are tried.\<close>

definition names_fit :: "(string \<Rightarrow> string) \<Rightarrow> string \<Rightarrow> nat \<Rightarrow> bool" where
  "names_fit slugify fqdn n \<longleftrightarrow>
     (\<forall>k\<le>n. length (generate_unique_name slugify fqdn k) \<le> 50)"

lemma create_with_fqdn_loop:
  assumes "no_integrity_error sc rc" and "celery_or_token w"
    and "\<not> list_ex (shares_token w) (db_workers d)"
    and "generate_unique_name slugify fqdn k \<notin> used_names d" and "names_fit slugify fqdn k"
  shows "c \<le> k \<Longrightarrow> k < n + c \<Longrightarrow>
    (\<And>j. c \<le> j \<Longrightarrow> j < k \<Longrightarrow> generate_unique_name slugify fqdn j \<in> used_names d) \<Longrightarrow>
    create_with_fqdn n sc rc slugify fqdn w c d
      = atomic (insert_worker sc rc (w\<lparr>wk_name := generate_unique_name slugify fqdn k\<rparr>)) d"
proof (induction n arbitrary: c)
  case 0
  then show ?case by simp
next
  case (Suc n)
  let ?name = "generate_unique_name slugify fqdn"
  have fit: "length (?name c) \<le> 50" using assms(5) Suc.prems(1) by (simp add: names_fit_def)
  show ?case
  proof (cases "c = k")
    case True
    have "celery_or_token (w\<lparr>wk_name := ?name k\<rparr>)" using assms(2) by (simp add: celery_or_token_def)
    moreover have "shares_token (w\<lparr>wk_name := ?name k\<rparr>) = shares_token w"
      by (simp add: shares_token_def fun_eq_iff)
    ultimately have "fst (atomic (insert_worker sc rc (w\<lparr>wk_name := ?name k\<rparr>)) d)
        \<noteq> Inl (IntegrityError m)" for m
      using insert_worker_free [OF assms(1), of "w\<lparr>wk_name := ?name k\<rparr>" d m] assms(3,4) fit True
      by simp
    then show ?thesis using True
      by (cases "atomic (insert_worker sc rc (w\<lparr>wk_name := ?name k\<rparr>)) d")
        (auto simp: catch_act_def raise_def is_integrity_error_def split: sum.splits exn.splits)
  next
    case False
    with Suc.prems have less: "Suc c \<le> k" "k < n + Suc c" by simp_all
    have "?name c \<in> used_names d" using Suc.prems(3) [of c] less by simp
    then obtain m where "atomic (insert_worker sc rc (w\<lparr>wk_name := ?name c\<rparr>)) d
        = (Inl (IntegrityError m), d)"
      using insert_worker_used [of "w\<lparr>wk_name := ?name c\<rparr>" d sc rc] fit by auto
    then have "create_with_fqdn (Suc n) sc rc slugify fqdn w c d
        = create_with_fqdn n sc rc slugify fqdn w (Suc c) d"
      by (simp add: catch_act_def is_integrity_error_def)
    with Suc.IH [OF less] Suc.prems(3) show ?thesis by simp
  qed
qed

text \<open>
  C38: \<open>create_with_fqdn\<close> ends: with a token no worker has, it tries at most one
  name more than there are workers, and creates the worker under the first name
  that is not taken.
\<close>

theorem create_with_fqdn_first_free_name:
  assumes "no_integrity_error sc rc" and "celery_or_token w"
    and "\<not> list_ex (shares_token w) (db_workers d)"
    and "names_fit slugify fqdn (Suc (length (db_workers d)))"
    and "Suc (length (db_workers d)) \<le> n"
  shows "\<exists>k\<le>Suc (length (db_workers d)).
    generate_unique_name slugify fqdn k \<notin> used_names d
    \<and> (\<forall>j. 1 \<le> j \<longrightarrow> j < k \<longrightarrow> generate_unique_name slugify fqdn j \<in> used_names d)
    \<and> create_with_fqdn n sc rc slugify fqdn w 1 d
      = atomic (insert_worker sc rc (w\<lparr>wk_name := generate_unique_name slugify fqdn k\<rparr>)) d"
proof -
  let ?name = "generate_unique_name slugify fqdn"
  have "inj ?name" by (rule injI) (rule generate_unique_name_inj)
  moreover have "finite (used_names d)" by (simp add: used_names_def)
  ultimately obtain m where "m \<le> card (used_names d)" "?name (m + 1) \<notin> used_names d"
    using fresh_number by blast
  then have ex: "1 \<le> m + 1 \<and> ?name (m + 1) \<notin> used_names d"
    and m: "m + 1 \<le> Suc (length (db_workers d))"
    using card_used_names [of d] by simp_all
  let ?k = "LEAST k. 1 \<le> k \<and> ?name k \<notin> used_names d"
  have k: "1 \<le> ?k \<and> ?name ?k \<notin> used_names d" by (rule LeastI [where P = "\<lambda>k. 1 \<le> k \<and> ?name k \<notin> used_names d", OF ex])
  have le: "?k \<le> m + 1" by (rule Least_le [where P = "\<lambda>k. 1 \<le> k \<and> ?name k \<notin> used_names d", OF ex])
  have before: "?name j \<in> used_names d" if "1 \<le> j" "j < ?k" for j
    using not_less_Least [OF that(2)] that(1) by blast
  have "names_fit slugify fqdn ?k" using assms(4) le m by (simp add: names_fit_def)
  from create_with_fqdn_loop [OF assms(1-3) _ this, of 1 n] k le m assms(5) before
  have "create_with_fqdn n sc rc slugify fqdn w 1 d
      = atomic (insert_worker sc rc (w\<lparr>wk_name := ?name ?k\<rparr>)) d" by simp
  with k before le m show ?thesis by (intro exI [of _ ?k]) simp
qed

text \<open>
  With a token that belongs to another worker, \<open>create_with_fqdn\<close> does not
  return: the constraint that fails is not the one on the name, so the next name
  fails as well, for any number of tries whose names are short enough.
\<close>

theorem create_with_fqdn_shared_token_never_returns:
  assumes "list_ex (shares_token w) (db_workers d)" and "names_fit slugify fqdn (n + c)"
  shows "create_with_fqdn n sc rc slugify fqdn w c d = (Inl OutOfFuel, d)"
  using assms(2)
proof (induction n arbitrary: c)
  case 0
  then show ?case by (simp add: raise_def)
next
  case (Suc n)
  let ?w = "w\<lparr>wk_name := generate_unique_name slugify fqdn c\<rparr>"
  have "shares_token ?w = shares_token w" by (simp add: shares_token_def fun_eq_iff)
  moreover have "length (wk_name ?w) \<le> 50" using Suc.prems by (simp add: names_fit_def)
  ultimately obtain m where "atomic (insert_worker sc rc ?w) d = (Inl (IntegrityError m), d)"
    using insert_worker_shared [of ?w d sc rc] assms(1) by auto
  then have "create_with_fqdn (Suc n) sc rc slugify fqdn w c d
      = create_with_fqdn n sc rc slugify fqdn w (Suc c) d"
    by (simp add: catch_act_def is_integrity_error_def)
  with Suc show ?case by simp
qed

section \<open>Filling a pool\<close>

text \<open>The scheduler, called when a worker is saved, leaves the workers and the tokens alone.\<close>

definition undisturbed :: "sched \<Rightarrow> calls \<Rightarrow> bool" where
  "undisturbed sc rc \<longleftrightarrow> (\<forall>w d. w \<in> set (db_workers d) \<longrightarrow>
     (\<exists>d'. worker_changed sc rc w d = (Inr (), d') \<and> db_workers d' = db_workers d
        \<and> db_tokens d' = db_tokens d))"

definition tokens_known :: "db \<Rightarrow> bool" where
  "tokens_known d \<longleftrightarrow> (\<forall>w\<in>set (db_workers d). \<forall>t. wk_activation_token w = Some t \<longrightarrow>
     t \<in> tk_id ` set (db_tokens d))"

text \<open>A new member of a pool, with an activation token that is enabled.\<close>

definition pool_member :: "worker_pool \<Rightarrow> db \<Rightarrow> worker \<Rightarrow> bool" where
  "pool_member pool d w \<longleftrightarrow> wk_worker_pool w = Some (wp_id pool) \<and> wk_worker_type w = EXTERNAL
     \<and> wk_token w = None \<and> wk_instance_created_at w = None
     \<and> (\<exists>t\<in>set (db_tokens d). wk_activation_token w = Some (tk_id t) \<and> tk_enabled t)"

text \<open>One round of the loop: \<open>False\<close> for a name that is taken, otherwise a new member.\<close>

definition create_one :: "sched \<Rightarrow> calls \<Rightarrow> worker_pool \<Rightarrow> nat \<Rightarrow> bool dbact" where
  "create_one sc rc pool index =
     catch_act (atomic (bind_act (create_worker_activation (sc_env sc)) (\<lambda>t.
       bind_act (insert_worker sc rc
         ((new_worker (sc_env sc) (pool_member_name (wp_name pool) index) EXTERNAL)
           \<lparr>wk_activation_token := Some t, wk_worker_pool := Some (wp_id pool)\<rparr>))
         (\<lambda>_. ret True))))
     (\<lambda>x. if is_integrity_error x then ret False else raise x)"

lemma create_pool_members_step:
  "create_pool_members (Suc n) sc rc pool missing index =
     (if missing = 0 then ret ()
      else bind_act (create_one sc rc pool index) (\<lambda>created.
        create_pool_members n sc rc pool (if created then missing - 1 else missing) (Suc index)))"
  by (simp add: create_one_def)

lemma create_one_used:
  assumes "pool_member_name (wp_name pool) index \<in> used_names d"
    and "length (pool_member_name (wp_name pool) index) \<le> 50"
  shows "create_one sc rc pool index d = (Inr False, d)"
proof -
  let ?d = "d\<lparr>db_tokens := db_tokens d @ [\<lparr>tk_id = tbl_next tk_id (db_tokens d),
    tk_hash = env_token_hash (sc_env sc) d, tk_user = None, tk_enabled = True, tk_last_seen_at = None,
    tk_expire_at = Some (env_now (sc_env sc) + 15 * 60)\<rparr>]\<rparr>"
  let ?w = "(new_worker (sc_env sc) (pool_member_name (wp_name pool) index) EXTERNAL)
    \<lparr>wk_activation_token := Some (tbl_next tk_id (db_tokens d)), wk_worker_pool := Some (wp_id pool)\<rparr>"
  have "create_worker_activation (sc_env sc) d = (Inr (tbl_next tk_id (db_tokens d)), ?d)"
    by (simp add: create_worker_activation_def act_defs Let_def)
  moreover have "\<exists>m. insertable_worker ?d ?w = Inl (IntegrityError m)"
    using assms by (auto simp: insertable_worker_def used_names_def new_worker_def
        celery_or_token_def list_ex_iff)
  ultimately show ?thesis
    by (auto simp: create_one_def atomic_def insert_worker_def act_defs is_integrity_error_def)
qed

lemma create_one_free:
  assumes "undisturbed sc rc" and "tokens_known d"
    and "pool_member_name (wp_name pool) index \<notin> used_names d"
    and "length (pool_member_name (wp_name pool) index) \<le> 50"
  shows "\<exists>w t d'. create_one sc rc pool index d = (Inr True, d')
    \<and> db_workers d' = db_workers d @ [w] \<and> db_tokens d' = db_tokens d @ [t]
    \<and> wk_name w = pool_member_name (wp_name pool) index \<and> wk_id w \<notin> wk_id ` set (db_workers d)
    \<and> pool_member pool d' w"
proof -
  let ?t = "\<lparr>tk_id = tbl_next tk_id (db_tokens d),
    tk_hash = env_token_hash (sc_env sc) d, tk_user = None, tk_enabled = True, tk_last_seen_at = None,
    tk_expire_at = Some (env_now (sc_env sc) + 15 * 60)\<rparr>"
  let ?d = "d\<lparr>db_tokens := db_tokens d @ [?t]\<rparr>"
  let ?w = "(new_worker (sc_env sc) (pool_member_name (wp_name pool) index) EXTERNAL)
    \<lparr>wk_activation_token := Some (tk_id ?t), wk_worker_pool := Some (wp_id pool)\<rparr>"
  let ?v = "?w\<lparr>wk_id := tbl_next wk_id (db_workers d)\<rparr>"
  let ?d2 = "?d\<lparr>db_workers := db_workers d @ [?v]\<rparr>"
  have token: "create_worker_activation (sc_env sc) d = (Inr (tk_id ?t), ?d)"
    by (simp add: create_worker_activation_def act_defs Let_def)
  have "wk_activation_token v \<noteq> Some (tk_id ?t)" if "v \<in> set (db_workers d)" for v
    using assms(2) that tbl_next_fresh [of _ "db_tokens d" tk_id]
    by (fastforce simp: tokens_known_def)
  moreover have "wk_name v \<noteq> pool_member_name (wp_name pool) index" if "v \<in> set (db_workers d)" for v
    using assms(3) that unfolding used_names_def by (metis imageI)
  ultimately have ok: "insertable_worker ?d ?w = Inr ()"
    using assms(4)
    by (auto simp: insertable_worker_def new_worker_def celery_or_token_def list_ex_iff shares_token_def)
  have "?v \<in> set (db_workers ?d2)" by simp
  with assms(1) obtain d' where d': "worker_changed sc rc ?v ?d2 = (Inr (), d')"
    "db_workers d' = db_workers ?d2" "db_tokens d' = db_tokens ?d2"
    unfolding undisturbed_def by blast
  have "create_one sc rc pool index d = (Inr True, d')"
    using token ok d'(1)
    by (simp add: create_one_def atomic_def insert_worker_def act_defs Let_def)
  moreover have "wk_id ?v \<notin> wk_id ` set (db_workers d)"
    using tbl_next_fresh [of _ "db_workers d" wk_id] by fastforce
  moreover have "pool_member pool d' ?v"
    using d'(3) by (simp add: pool_member_def new_worker_def)
  ultimately show ?thesis using d'(2,3) by (auto simp: new_worker_def)
qed

text \<open>The names still in the way, from an index on.\<close>

definition in_the_way :: "worker_pool \<Rightarrow> nat \<Rightarrow> db \<Rightarrow> nat" where
  "in_the_way pool index d =
     card {j. index \<le> j \<and> pool_member_name (wp_name pool) j \<in> used_names d}"

lemma finite_in_the_way: "finite {j. index \<le> j \<and> pool_member_name p j \<in> used_names d}"
proof (rule inj_on_finite)
  show "inj_on (pool_member_name p) {j. index \<le> j \<and> pool_member_name p j \<in> used_names d}"
    by (auto simp: inj_on_def dest: pool_member_name_inj)
  show "pool_member_name p ` {j. index \<le> j \<and> pool_member_name p j \<in> used_names d} \<subseteq> used_names d"
    by auto
  show "finite (used_names d)" by (simp add: used_names_def)
qed

lemma in_the_way_le: "in_the_way pool index d \<le> length (db_workers d)"
proof -
  let ?J = "{j. index \<le> j \<and> pool_member_name (wp_name pool) j \<in> used_names d}"
  have "card ?J \<le> card (used_names d)"
    by (rule card_inj_on_le [of "pool_member_name (wp_name pool)"])
      (auto simp: inj_on_def used_names_def dest: pool_member_name_inj)
  with card_used_names [of d] show ?thesis by (simp add: in_the_way_def)
qed

lemma in_the_way_used:
  assumes "pool_member_name (wp_name pool) index \<in> used_names d"
  shows "in_the_way pool index d = Suc (in_the_way pool (Suc index) d)"
proof -
  have "{j. index \<le> j \<and> pool_member_name (wp_name pool) j \<in> used_names d}
      = insert index {j. Suc index \<le> j \<and> pool_member_name (wp_name pool) j \<in> used_names d}"
    using assms by (auto simp: Suc_le_eq le_less)
  then show ?thesis
    using finite_in_the_way [of "Suc index" "wp_name pool" d] by (simp add: in_the_way_def)
qed

lemma in_the_way_added:
  assumes "wk_name w = pool_member_name (wp_name pool) index"
    and "db_workers d' = db_workers d @ [w]"
  shows "in_the_way pool (Suc index) d' \<le> in_the_way pool index d"
proof -
  have "{j. Suc index \<le> j \<and> pool_member_name (wp_name pool) j \<in> used_names d'}
      \<subseteq> {j. index \<le> j \<and> pool_member_name (wp_name pool) j \<in> used_names d}"
    using assms by (auto simp: used_names_def dest!: pool_member_name_inj)
  then show ?thesis
    unfolding in_the_way_def by (rule card_mono [OF finite_in_the_way])
qed

lemma pool_member_mono:
  "pool_member pool d w \<Longrightarrow> set (db_tokens d) \<subseteq> set (db_tokens d') \<Longrightarrow> pool_member pool d' w"
  unfolding pool_member_def by blast

lemma tokens_known_added:
  assumes "tokens_known d" and "db_workers d' = db_workers d @ [w]"
    and "db_tokens d' = db_tokens d @ [t]" and "pool_member pool d' w"
  shows "tokens_known d'"
  using assms by (auto simp: tokens_known_def pool_member_def)

lemma create_pool_members_loop:
  assumes "undisturbed sc rc"
  shows "tokens_known d \<Longrightarrow> missing + in_the_way pool index d < n \<Longrightarrow>
    (\<forall>j. j < n + index \<longrightarrow> length (pool_member_name (wp_name pool) j) \<le> 50) \<Longrightarrow>
    \<exists>ws d'. create_pool_members n sc rc pool missing index d = (Inr (), d')
      \<and> db_workers d' = db_workers d @ ws \<and> length ws = missing
      \<and> set (db_tokens d) \<subseteq> set (db_tokens d')
      \<and> (\<forall>w\<in>set ws. pool_member pool d' w) \<and> used_names d \<inter> wk_name ` set ws = {}
      \<and> distinct (map wk_name ws)
      \<and> (distinct (map wk_id (db_workers d)) \<longrightarrow> distinct (map wk_id (db_workers d')))"
proof (induction n arbitrary: d missing index)
  case 0
  then show ?case by simp
next
  case (Suc n)
  let ?name = "pool_member_name (wp_name pool)"
  have fit: "length (?name index) \<le> 50" using Suc.prems(3) by simp
  have fits: "\<forall>j. j < n + Suc index \<longrightarrow> length (?name j) \<le> 50" using Suc.prems(3) by simp
  show ?case
  proof (cases "missing = 0")
    case True
    then show ?thesis unfolding create_pool_members_step
      by (intro exI [of _ "[]"]) (auto simp: ret_def)
  next
    case False
    note step = create_pool_members_step [of n sc rc pool missing index]
    show ?thesis
    proof (cases "?name index \<in> used_names d")
      case True
      have run: "create_pool_members (Suc n) sc rc pool missing index d
          = create_pool_members n sc rc pool missing (Suc index) d"
        using create_one_used [OF True fit] False by (simp only: step if_False bind_act_def) simp
      have "missing + in_the_way pool (Suc index) d < n"
        using Suc.prems(2) in_the_way_used [OF True] by simp
      from Suc.IH [OF Suc.prems(1) this fits] show ?thesis unfolding run .
    next
      case free: False
      obtain w t d1 where c: "create_one sc rc pool index d = (Inr True, d1)"
        "db_workers d1 = db_workers d @ [w]" "db_tokens d1 = db_tokens d @ [t]"
        "wk_name w = ?name index" "wk_id w \<notin> wk_id ` set (db_workers d)" "pool_member pool d1 w"
        using create_one_free [OF assms Suc.prems(1) free fit] by blast
      have run: "create_pool_members (Suc n) sc rc pool missing index d
          = create_pool_members n sc rc pool (missing - 1) (Suc index) d1"
        using c(1) False by (simp only: step if_False bind_act_def) simp
      have less: "(missing - 1) + in_the_way pool (Suc index) d1 < n"
        using Suc.prems(2) in_the_way_added [OF c(4,2)] False by simp
      from Suc.IH [OF tokens_known_added [OF Suc.prems(1) c(2,3,6)] less fits]
      obtain ws d' where d': "create_pool_members n sc rc pool (missing - 1) (Suc index) d1 = (Inr (), d')"
        "db_workers d' = db_workers d1 @ ws" "length ws = missing - 1"
        "set (db_tokens d1) \<subseteq> set (db_tokens d')" "\<forall>w\<in>set ws. pool_member pool d' w"
        "used_names d1 \<inter> wk_name ` set ws = {}" "distinct (map wk_name ws)"
        "distinct (map wk_id (db_workers d1)) \<longrightarrow> distinct (map wk_id (db_workers d'))" by blast
      have names: "used_names d1 = insert (?name index) (used_names d)"
        using c(2,4) by (auto simp: used_names_def)
      have member: "pool_member pool d' w" by (rule pool_member_mono [OF c(6) d'(4)])
      show ?thesis unfolding run
        using d' c names member free False
        by (intro exI [of _ "w # ws"] exI [of _ d']) auto
    qed
  qed
qed

text \<open>
  C37: \<open>create_pool_members\<close> ends after at most one round per worker to create and
  per worker there is, and has then added exactly as many workers as asked for:
  new names, members of the pool, with an enabled activation token each.
\<close>

theorem create_pool_members_creates:
  assumes "undisturbed sc rc" and "tokens_known d"
    and "missing + length (db_workers d) < n"
    and "\<forall>j\<le>n. length (pool_member_name (wp_name pool) j) \<le> 50"
  shows "\<exists>ws d'. create_pool_members n sc rc pool missing 1 d = (Inr (), d')
    \<and> db_workers d' = db_workers d @ ws \<and> length ws = missing
    \<and> (\<forall>w\<in>set ws. pool_member pool d' w)
    \<and> used_names d \<inter> wk_name ` set ws = {} \<and> distinct (map wk_name ws)"
proof -
  have less: "missing + in_the_way pool 1 d < n"
    using assms(3) in_the_way_le [of pool 1 d] by simp
  have fits: "\<forall>j. j < n + 1 \<longrightarrow> length (pool_member_name (wp_name pool) j) \<le> 50"
    using assms(4) by simp
  from create_pool_members_loop [OF assms(1,2) less fits] show ?thesis by blast
qed

section \<open>Examples\<close>

text \<open>Other transactions hold every worker, so saving one schedules nothing.\<close>

definition busy_sched :: sched where
  "busy_sched = example_sched\<lparr>sc_worker_locked := \<lambda>k. True\<rparr>"

lemma busy_changed: "worker_changed busy_sched rc w d = (Inr (), d)"
  by (simp add: worker_changed_def schedule_for_worker_def possible_to_schedule_for_worker_def
      busy_sched_def example_sched_def example_env_def atomic_def act_defs)

lemma busy_sched_ok: "no_integrity_error busy_sched rc" "undisturbed busy_sched rc"
  by (simp_all add: no_integrity_error_def undisturbed_def busy_changed)

definition example_pool :: worker_pool where
  "example_pool = \<lparr>wp_id = 1, wp_name = ''ec2'', wp_enabled = True, wp_instance_wide = True,
     wp_ephemeral = False, wp_max_active_instances = Some 1,
     wp_target_max_seconds_per_month = None, wp_max_idle_seconds = 3600, wp_provider_account = 1\<rparr>"

lemma length_decimal_digit: "k < 10 \<Longrightarrow> length (decimal k) = 1"
  by (subst decimal.simps) simp

lemma short_names:
  "\<forall>k\<le>4. length (generate_unique_name (\<lambda>s. s) ''celery'' k) \<le> 50"
  "\<forall>j\<le>4. length (pool_member_name (wp_name example_pool) j) \<le> 50"
  by (simp_all add: generate_unique_name_def Let_def pool_member_name_def padded3_def
      example_pool_def length_decimal_digit)

theorem create_with_fqdn_first_free_name_witness:
  "\<exists>k\<le>2. k \<noteq> 1 \<and> create_with_fqdn 2 busy_sched (run 9 example_env) (\<lambda>s. s) ''celery''
      ((new_worker example_env [] CELERY)) 1 example_workers
    = atomic (insert_worker busy_sched (run 9 example_env) ((new_worker example_env [] CELERY)
        \<lparr>wk_name := generate_unique_name (\<lambda>s. s) ''celery'' k\<rparr>)) example_workers"
proof -
  have w: "celery_or_token (new_worker example_env [] CELERY)"
    "\<not> list_ex (shares_token (new_worker example_env [] CELERY)) (db_workers example_workers)"
    by (simp_all add: celery_or_token_def new_worker_def shares_token_def example_workers_def)
  have fit: "names_fit (\<lambda>s. s) ''celery'' (Suc (length (db_workers example_workers)))"
    using short_names(1) by (simp add: names_fit_def example_workers_def)
  have taken: "generate_unique_name (\<lambda>s. s) ''celery'' 1 \<in> used_names example_workers"
    by (simp add: generate_unique_name_def used_names_def example_workers_def example_worker_def)
  have one: "length (db_workers example_workers) = 1" by (simp add: example_workers_def)
  have fuel: "Suc (length (db_workers example_workers)) \<le> 2" unfolding one by simp
  obtain k where "k \<le> Suc (length (db_workers example_workers))"
    "generate_unique_name (\<lambda>s. s) ''celery'' k \<notin> used_names example_workers"
    "create_with_fqdn 2 busy_sched (run 9 example_env) (\<lambda>s. s) ''celery''
      ((new_worker example_env [] CELERY)) 1 example_workers
    = atomic (insert_worker busy_sched (run 9 example_env) ((new_worker example_env [] CELERY)
        \<lparr>wk_name := generate_unique_name (\<lambda>s. s) ''celery'' k\<rparr>)) example_workers"
    using create_with_fqdn_first_free_name [OF busy_sched_ok(1) w fit fuel, of "run 9 example_env"] by blast
  moreover from this(2) taken have "k \<noteq> 1" by metis
  ultimately show ?thesis unfolding one by (intro exI [of _ k]) simp
qed

theorem create_with_fqdn_shared_token_never_returns_witness:
  "create_with_fqdn 3 busy_sched (run 9 example_env) (\<lambda>s. s) ''celery''
      ((new_worker example_env [] EXTERNAL)\<lparr>wk_token := Some 5\<rparr>) 1
      (example_workers\<lparr>db_workers := [example_worker\<lparr>wk_token := Some 5\<rparr>]\<rparr>)
    = (Inl OutOfFuel, example_workers\<lparr>db_workers := [example_worker\<lparr>wk_token := Some 5\<rparr>]\<rparr>)"
  by (rule create_with_fqdn_shared_token_never_returns)
    (use short_names(1) in \<open>simp_all add: shares_token_def names_fit_def\<close>)

theorem create_pool_members_creates_witness:
  "\<exists>ws d'. create_pool_members 4 busy_sched (run 9 example_env) example_pool 2 1 example_workers
      = (Inr (), d') \<and> length ws = 2 \<and> (\<forall>w\<in>set ws. pool_member example_pool d' w)"
proof -
  have known: "tokens_known example_workers"
    by (simp add: tokens_known_def example_workers_def example_worker_def)
  have fuel: "2 + length (db_workers example_workers) < 4" by (simp add: example_workers_def)
  from create_pool_members_creates [OF busy_sched_ok(2) known fuel short_names(2)]
  show ?thesis by blast
qed

end
