(* ===== verification/Provisioning.thy ===== *)
theory Provisioning
  imports Pools
begin

text \<open>
  Provisioning of cloud workers (debusine/server/provisioning.py): terminating
  the idle ones, computing how many workers the load of a scope requires, and
  allocating new ones from the pools within their limits. The dummy provider of
  debusine/server/worker_pools/dummy.py is the example of a provider.
\<close>

section \<open>Idle workers\<close>

definition task_duration_seconds :: int where
  "task_duration_seconds = 10 * 60"

definition target_latency_seconds :: int where
  "target_latency_seconds = 3600"

definition later :: "time \<Rightarrow> time option \<Rightarrow> time" where
  "later t u = (case u of None \<Rightarrow> t | Some v \<Rightarrow> max t v)"

definition latest :: "time list \<Rightarrow> time option" where
  "latest ts = (case ts of [] \<Rightarrow> None | t # ts \<Rightarrow> Some (fold max ts t))"

text \<open>
  The annotation \<open>idle_time\<close> of \<open>with_idle_time\<close>, a null when no request of the
  worker has a completion time; \<open>Greatest\<close> and \<open>Max\<close> ignore nulls.
\<close>

definition idle_time :: "db \<Rightarrow> time \<Rightarrow> worker \<Rightarrow> duration option" where
  "idle_time d now w =
     (let tasks = filter (\<lambda>r. wr_worker r = Some (wk_id w)) (objects d)
      in if list_ex (\<lambda>r. wr_status r = RUNNING) tasks then Some 0
         else if tasks \<noteq> [] then
           map_option (\<lambda>t. now - t) (latest (List.map_filter wr_completed_at tasks))
         else Some (now - later (wk_registered_at w) (wk_instance_created_at w)))"

definition idle_workers :: "db \<Rightarrow> time \<Rightarrow> int \<Rightarrow> worker list" where
  "idle_workers d now minutes =
     filter (\<lambda>w. (case idle_time d now w of None \<Rightarrow> False | Some t \<Rightarrow> minutes * 60 < t)
                 \<and> wk_worker_pool w \<noteq> None) (db_workers d)"

definition get_worker_pool :: "db \<Rightarrow> pk \<Rightarrow> worker_pool option" where
  "get_worker_pool d i = tbl_get wp_id i (db_worker_pools d)"

definition terminate_idle :: "sched \<Rightarrow> calls \<Rightarrow> provider \<Rightarrow> int \<Rightarrow> bool dbact" where
  "terminate_idle sc rc pv minutes = with_db (\<lambda>d.
     let idle = idle_workers d (env_now (sc_env sc)) minutes
     in seq_act (for_each idle (\<lambda>w. with_db (\<lambda>d.
            case Option.bind (wk_worker_pool w) (get_worker_pool d) of
              None \<Rightarrow> raise (DoesNotExist ''WorkerPool'')
            | Some pool \<Rightarrow> terminate_worker sc rc pv pool w)))
          (ret (idle \<noteq> [])))"

section \<open>The limits of a pool\<close>

definition static_workers_count :: "db \<Rightarrow> int" where
  "static_workers_count d =
     int (length (filter (\<lambda>w. wk_worker_pool w = None) (connected_workers (db_workers d))))"

definition pool_workers :: "db \<Rightarrow> pk \<Rightarrow> worker list" where
  "pool_workers d pool = filter (\<lambda>w. wk_worker_pool w = Some pool) (db_workers d)"

definition limit_by_max_active_instances :: "db \<Rightarrow> worker_pool \<Rightarrow> int \<Rightarrow> int" where
  "limit_by_max_active_instances d pool amount =
     (case wp_max_active_instances pool of
        None \<Rightarrow> amount
      | Some limit \<Rightarrow>
          let available = limit - int (length (pool_workers d (wp_id pool)))
          in if available \<le> 0 then 0 else min amount available)"

text \<open>Seconds since the start \<open>som\<close> of the month, of instances that ended and of connected ones.\<close>

definition get_used_seconds :: "db \<Rightarrow> time \<Rightarrow> time \<Rightarrow> pk \<Rightarrow> int" where
  "get_used_seconds d now som pool =
     sum_list (map (\<lambda>s. min (ps_runtime s) (ps_timestamp s - som))
       (filter (\<lambda>s. ps_worker_pool s = pool \<and> som \<le> ps_timestamp s) (db_pool_statistics d)))
     + sum_list (map (\<lambda>w. now - later som (wk_instance_created_at w))
         (filter (\<lambda>w. wk_worker_pool w = Some pool) (connected_workers (db_workers d))))"

text \<open>The tail both limits on seconds share: how many tasks of the estimated length still fit.\<close>

definition limit_by_seconds :: "int option \<Rightarrow> int \<Rightarrow> int \<Rightarrow> int" where
  "limit_by_seconds target used amount =
     (case target of
        None \<Rightarrow> amount
      | Some seconds \<Rightarrow>
          if seconds \<le> used then 0 else min amount ((seconds - used) div task_duration_seconds))"

definition limit_by_pool_target_max_seconds_per_month ::
  "db \<Rightarrow> time \<Rightarrow> time \<Rightarrow> worker_pool \<Rightarrow> int \<Rightarrow> int" where
  "limit_by_pool_target_max_seconds_per_month d now som pool amount =
     limit_by_seconds (wp_target_max_seconds_per_month pool)
       (get_used_seconds d now som (wp_id pool)) amount"

section \<open>The limits of a scope\<close>

definition worker_in_pool :: "db \<Rightarrow> pk \<Rightarrow> work_request \<Rightarrow> bool" where
  "worker_in_pool d pool r =
     (case Option.bind (wr_worker r) (get_worker d) of
        None \<Rightarrow> False | Some w \<Rightarrow> wk_worker_pool w = Some pool)"

definition in_scope :: "db \<Rightarrow> pk \<Rightarrow> work_request \<Rightarrow> bool" where
  "in_scope d scope r =
     (case get_workspace d (wr_workspace r) of None \<Rightarrow> False | Some ws \<Rightarrow> ws_scope ws = scope)"

definition scope_used_seconds :: "db \<Rightarrow> time \<Rightarrow> time \<Rightarrow> pk \<Rightarrow> pk \<Rightarrow> int" where
  "scope_used_seconds d now som scope pool =
     sum_list (map (\<lambda>s. min (es_runtime s) (es_timestamp s - som))
       (filter (\<lambda>s. es_worker_pool s = pool \<and> es_scope s = scope \<and> som \<le> es_timestamp s)
         (db_execution_statistics d)))
     + sum_list (map (\<lambda>r. now - later som (wr_started_at r))
         (filter (\<lambda>r. worker_in_pool d pool r \<and> in_scope d scope r \<and> wr_started_at r \<noteq> None)
           (running (objects d) None)))"

text \<open>\<open>ScopeWorkerPool.objects.get\<close>: no row means no limit, several raise.\<close>

definition limit_by_scope_pool_target_max_seconds_per_month ::
  "db \<Rightarrow> time \<Rightarrow> time \<Rightarrow> pk \<Rightarrow> worker_pool \<Rightarrow> int \<Rightarrow> int res" where
  "limit_by_scope_pool_target_max_seconds_per_month d now som scope pool amount =
     (case filter (\<lambda>s. swp_worker_pool s = wp_id pool \<and> swp_scope s = scope)
             (db_scope_worker_pools d) of
        [] \<Rightarrow> Inr amount
      | [s] \<Rightarrow> Inr (limit_by_seconds (swp_target_max_seconds_per_month s)
                     (scope_used_seconds d now som scope (wp_id pool)) amount)
      | _ \<Rightarrow> Inl (MultipleObjectsReturned ''ScopeWorkerPool''))"

section \<open>Allocation\<close>

definition allocate_amount ::
  "db \<Rightarrow> time \<Rightarrow> time \<Rightarrow> pk \<Rightarrow> worker_pool \<Rightarrow> int \<Rightarrow> int res" where
  "allocate_amount d now som scope pool amount =
     (let amount = limit_by_max_active_instances d pool amount;
          amount = limit_by_pool_target_max_seconds_per_month d now som pool amount
      in limit_by_scope_pool_target_max_seconds_per_month d now som scope pool amount)"

definition allocate_workers ::
  "nat \<Rightarrow> sched \<Rightarrow> calls \<Rightarrow> provider \<Rightarrow> time \<Rightarrow> pk \<Rightarrow> worker_pool \<Rightarrow> int \<Rightarrow> int dbact" where
  "allocate_workers n sc rc pv som scope pool amount = with_db (\<lambda>d.
     bind_act (lift_res (allocate_amount d (env_now (sc_env sc)) som scope pool amount)) (\<lambda>amount.
       seq_act (when_act (0 < amount) (launch_workers n sc rc pv pool (nat amount)))
         (ret amount)))"

definition pending_task_count :: "db \<Rightarrow> pk \<Rightarrow> int" where
  "pending_task_count d scope =
     int (length (filter (\<lambda>r. in_scope d scope r
       \<and> map_of (wr_task_data r) ''host_architecture'' = Some (JStr ''amd64'')) (objects d)))"

definition ceil_div :: "int \<Rightarrow> int \<Rightarrow> int" where
  "ceil_div a b = - ((- a) div b)"

definition required_for :: "int \<Rightarrow> int" where
  "required_for pending_tasks =
     (if pending_tasks = 0 then 0
      else
        let pending_seconds = task_duration_seconds * max (pending_tasks - 1) 0
        in max 1 (min (ceil_div pending_seconds target_latency_seconds) pending_tasks))"

definition workers_required :: "db \<Rightarrow> pk \<Rightarrow> int" where
  "workers_required d scope = required_for (pending_task_count d scope)"

text \<open>The joins count a worker once per row that links its pool to the scope.\<close>

definition workers_available :: "db \<Rightarrow> int \<Rightarrow> pk \<Rightarrow> int" where
  "workers_available d static_count scope =
     static_count
     + int (length (filter (\<lambda>w. case Option.bind (wk_worker_pool w) (get_worker_pool d) of
                                   None \<Rightarrow> False | Some pool \<Rightarrow> wp_instance_wide pool) (db_workers d)))
     + int (sum_list (map (\<lambda>s. length (pool_workers d (swp_worker_pool s)))
         (filter (\<lambda>s. swp_scope s = scope) (db_scope_worker_pools d))))"

definition allocation_pools :: "db \<Rightarrow> pk \<Rightarrow> worker_pool list" where
  "allocation_pools d scope =
     List.map_filter (\<lambda>s. get_worker_pool d (swp_worker_pool s))
       (sort_key (\<lambda>s. - swp_priority s) (filter (\<lambda>s. swp_scope s = scope) (db_scope_worker_pools d)))
     @ filter wp_instance_wide (db_worker_pools d)"

primrec allocate_from ::
  "nat \<Rightarrow> sched \<Rightarrow> calls \<Rightarrow> provider \<Rightarrow> time \<Rightarrow> pk \<Rightarrow> worker_pool list \<Rightarrow> int \<Rightarrow> unit dbact" where
  "allocate_from n sc rc pv som scope [] new_workers_required = ret ()"
| "allocate_from n sc rc pv som scope (pool # pools) new_workers_required =
     (if new_workers_required \<le> 0 then ret ()
      else bind_act (allocate_workers n sc rc pv som scope pool new_workers_required) (\<lambda>allocated.
        allocate_from n sc rc pv som scope pools (new_workers_required - allocated)))"

definition process_scope ::
  "nat \<Rightarrow> sched \<Rightarrow> calls \<Rightarrow> provider \<Rightarrow> time \<Rightarrow> int \<Rightarrow> pk \<Rightarrow> unit dbact" where
  "process_scope n sc rc pv som static_count scope = with_db (\<lambda>d.
     let required = workers_required d scope;
         available = workers_available d static_count scope
     in if required \<le> available then ret ()
        else allocate_from n sc rc pv som scope (allocation_pools d scope) (required - available))"

definition create_new_workers ::
  "nat \<Rightarrow> sched \<Rightarrow> calls \<Rightarrow> provider \<Rightarrow> time \<Rightarrow> unit dbact" where
  "create_new_workers n sc rc pv som = with_db (\<lambda>d.
     let static_count = static_workers_count d
     in for_each (db_scopes d) (\<lambda>s. process_scope n sc rc pv som static_count (sc_id s)))"

definition provision :: "nat \<Rightarrow> sched \<Rightarrow> calls \<Rightarrow> provider \<Rightarrow> time \<Rightarrow> unit dbact" where
  "provision n sc rc pv som =
     bind_act (terminate_idle sc rc pv 10) (\<lambda>has_idle.
       if has_idle then ret () else create_new_workers n sc rc pv som)"

section \<open>The dummy provider\<close>

definition dummy_launch_worker :: "sched \<Rightarrow> calls \<Rightarrow> worker \<Rightarrow> unit dbact" where
  "dummy_launch_worker sc rc w =
     save_worker sc rc (w\<lparr>wk_instance_created_at := Some (env_now (sc_env sc)),
       wk_worker_pool_data := Some [(''launched'', JBool True)]\<rparr>)"

definition dummy_terminate_worker :: "sched \<Rightarrow> calls \<Rightarrow> worker \<Rightarrow> unit dbact" where
  "dummy_terminate_worker sc rc w =
     save_worker sc rc (w\<lparr>wk_instance_created_at := None, wk_worker_pool_data := None\<rparr>)"

definition dummy_provider :: "sched \<Rightarrow> calls \<Rightarrow> (string \<Rightarrow> nat) \<Rightarrow> provider" where
  "dummy_provider sc rc name_key = \<lparr>pv_launch_worker = dummy_launch_worker sc rc,
     pv_terminate_worker = dummy_terminate_worker sc rc, pv_name_key = name_key\<rparr>"

end
