(* ===== verification/Allocation.thy ===== *)
theory Allocation
  imports Provisioning
begin

text \<open>
  Properties of provisioning: how many workers are required, what the limits
  guarantee, what launching workers does to a pool, stated against the interface
  of the cloud providers (\<open>WorkerPoolInterface\<close>), and when provisioning stalls.
\<close>

section \<open>How many workers\<close>

lemma le_ceil_div: "0 < b \<Longrightarrow> a \<le> ceil_div a b * (b :: int)"
  using pos_mod_sign [of b "- a"] minus_div_mult_eq_mod [of "- a" b]
  unfolding ceil_div_def mult_minus_left by linarith

lemma ceil_div_least:
  assumes "0 < b" and "a \<le> m * (b :: int)"
  shows "ceil_div a b \<le> m"
proof -
  have "- m * b \<le> - a" using assms(2) by simp
  then have "- m * b div b \<le> (- a) div b" using assms(1) by (rule zdiv_mono1)
  moreover have "- m * b div b = - m" using assms(1) by (simp only: nonzero_mult_div_cancel_right)
  ultimately show ?thesis by (simp add: ceil_div_def)
qed

text \<open>
  The number of workers required for pending tasks is the least one (and at
  least one) whose work within the target latency covers every task but the
  last, estimated at ten minutes each; it is never more than the tasks.
\<close>

theorem required_for_least:
  assumes "0 < tasks"
  shows "1 \<le> required_for tasks \<and> required_for tasks \<le> tasks
    \<and> task_duration_seconds * (tasks - 1) \<le> required_for tasks * target_latency_seconds
    \<and> (\<forall>m\<ge>1. task_duration_seconds * (tasks - 1) \<le> m * target_latency_seconds
           \<longrightarrow> required_for tasks \<le> m)"
proof -
  let ?c = "ceil_div (task_duration_seconds * (tasks - 1)) target_latency_seconds"
  have least: "?c \<le> m" if "task_duration_seconds * (tasks - 1) \<le> m * target_latency_seconds" for m
    using ceil_div_least [OF _ that] by (simp add: target_latency_seconds_def)
  have enough: "task_duration_seconds * (tasks - 1) \<le> ?c * target_latency_seconds"
    by (rule le_ceil_div) (simp add: target_latency_seconds_def)
  have "?c \<le> tasks"
    by (rule least) (use assms in \<open>simp add: task_duration_seconds_def target_latency_seconds_def\<close>)
  then have "required_for tasks = max 1 ?c"
    using assms by (simp add: required_for_def)
  with assms enough least \<open>?c \<le> tasks\<close> show ?thesis
    by (auto simp: max_def target_latency_seconds_def)
qed

theorem required_for_least_witness:
  "required_for 20 = 4 \<and> task_duration_seconds * 19 \<le> required_for 20 * target_latency_seconds"
  using required_for_least [of 20]
  by (simp add: required_for_def task_duration_seconds_def target_latency_seconds_def ceil_div_def)

section \<open>Limits\<close>

lemma limit_by_seconds_le: "limit_by_seconds t used amount \<le> max 0 amount"
  by (auto simp: limit_by_seconds_def split: option.splits)

lemma limit_by_seconds_fits:
  assumes "0 < limit_by_seconds (Some t) used amount"
  shows "used + limit_by_seconds (Some t) used amount * task_duration_seconds \<le> t"
proof -
  let ?q = "(t - used) div task_duration_seconds"
  have "limit_by_seconds (Some t) used amount \<le> ?q"
    using assms by (auto simp: limit_by_seconds_def split: if_splits)
  then have "limit_by_seconds (Some t) used amount * task_duration_seconds
      \<le> ?q * task_duration_seconds"
    by (rule mult_right_mono) (simp add: task_duration_seconds_def)
  also have "\<dots> \<le> t - used"
    using div_mult_mod_eq [of "t - used" task_duration_seconds]
      pos_mod_sign [of task_duration_seconds "t - used"]
    by (simp add: task_duration_seconds_def)
  finally show ?thesis by simp
qed

lemma limit_max_le: "limit_by_max_active_instances d pool amount \<le> max 0 amount"
  by (auto simp: limit_by_max_active_instances_def Let_def split: option.splits)

lemma limit_max_fits:
  "wp_max_active_instances pool = Some limit \<Longrightarrow> 0 < limit_by_max_active_instances d pool amount \<Longrightarrow>
    int (length (pool_workers d (wp_id pool))) + limit_by_max_active_instances d pool amount \<le> limit"
  by (auto simp: limit_by_max_active_instances_def Let_def split: if_splits)

lemma limit_by_seconds_mono:
  "0 < limit_by_seconds t used amount \<Longrightarrow> 0 < amount \<and> limit_by_seconds t used amount \<le> amount"
  using limit_by_seconds_le [of t used amount] by linarith

lemma allocate_amount_limits:
  assumes "allocate_amount d now som scope pool amount = Inr k" and "0 < k"
  shows "k \<le> amount
    \<and> (\<forall>limit. wp_max_active_instances pool = Some limit
         \<longrightarrow> int (length (pool_workers d (wp_id pool))) + k \<le> limit)
    \<and> (\<forall>t. wp_target_max_seconds_per_month pool = Some t
         \<longrightarrow> get_used_seconds d now som (wp_id pool) + k * task_duration_seconds \<le> t)
    \<and> (\<forall>s t. s \<in> set (db_scope_worker_pools d) \<longrightarrow> swp_worker_pool s = wp_id pool
         \<longrightarrow> swp_scope s = scope \<longrightarrow> swp_target_max_seconds_per_month s = Some t
         \<longrightarrow> scope_used_seconds d now som scope (wp_id pool) + k * task_duration_seconds \<le> t)"
proof -
  let ?used = "get_used_seconds d now som (wp_id pool)"
  let ?scope_used = "scope_used_seconds d now som scope (wp_id pool)"
  let ?links = "filter (\<lambda>s. swp_worker_pool s = wp_id pool \<and> swp_scope s = scope)
    (db_scope_worker_pools d)"
  obtain a where a: "a = limit_by_max_active_instances d pool amount" by simp
  obtain b where b: "b = limit_by_seconds (wp_target_max_seconds_per_month pool) ?used a" by simp
  have k: "limit_by_scope_pool_target_max_seconds_per_month d now som scope pool b = Inr k"
    using assms(1) a b by (simp add: allocate_amount_def limit_by_pool_target_max_seconds_per_month_def)
  have link: "?links = [] \<and> k = b
      \<or> (\<exists>s. ?links = [s] \<and> k = limit_by_seconds (swp_target_max_seconds_per_month s) ?scope_used b)"
    using k by (auto simp: limit_by_scope_pool_target_max_seconds_per_month_def split: list.splits)
  then have kb: "0 < b \<and> k \<le> b" using assms(2) limit_by_seconds_mono by auto
  then have ba: "0 < a \<and> b \<le> a" unfolding b by (intro limit_by_seconds_mono) simp
  then have "k \<le> amount" using a limit_max_le [of d pool amount] kb by linarith
  moreover have "int (length (pool_workers d (wp_id pool))) + k \<le> limit"
    if "wp_max_active_instances pool = Some limit" for limit
    using limit_max_fits [OF that, of d amount] a ba kb by linarith
  moreover have "?used + k * task_duration_seconds \<le> t"
    if "wp_target_max_seconds_per_month pool = Some t" for t
  proof -
    have "?used + b * task_duration_seconds \<le> t"
      using limit_by_seconds_fits [of t ?used a] b kb that by simp
    moreover have "k * task_duration_seconds \<le> b * task_duration_seconds"
      using kb by (simp add: task_duration_seconds_def)
    ultimately show ?thesis by linarith
  qed
  moreover have "?scope_used + k * task_duration_seconds \<le> t"
    if s: "s \<in> set (db_scope_worker_pools d)" "swp_worker_pool s = wp_id pool" "swp_scope s = scope"
      "swp_target_max_seconds_per_month s = Some t" for s t
  proof -
    have mem: "s \<in> set ?links" using s by simp
    with link obtain s' where s': "?links = [s']"
      "k = limit_by_seconds (swp_target_max_seconds_per_month s') ?scope_used b" by fastforce
    with mem have "s' = s" by (simp only: s'(1)) simp
    with s' s(4) have "k = limit_by_seconds (Some t) ?scope_used b" by simp
    then show ?thesis using limit_by_seconds_fits [of t ?scope_used b] assms(2) by simp
  qed
  ultimately show ?thesis by blast
qed


text \<open>
  C34: A number of workers allocated from a pool, when it is positive, is at most
  the number asked for, keeps the pool within \<open>max_active_instances\<close>, and keeps
  the estimated use of the month within the targets of the pool and of the
  scope in the pool.
\<close>

theorem allocate_amount_within_limits:
  assumes "allocate_amount d now som scope pool amount = Inr k" and "0 < k"
  shows "k \<le> amount
    \<and> (\<forall>limit. wp_max_active_instances pool = Some limit
         \<longrightarrow> int (length (pool_workers d (wp_id pool))) + k \<le> limit)
    \<and> (\<forall>t. wp_target_max_seconds_per_month pool = Some t
         \<longrightarrow> get_used_seconds d now som (wp_id pool) + k * task_duration_seconds \<le> t)
    \<and> (\<forall>s t. s \<in> set (db_scope_worker_pools d) \<longrightarrow> swp_worker_pool s = wp_id pool
         \<longrightarrow> swp_scope s = scope \<longrightarrow> swp_target_max_seconds_per_month s = Some t
         \<longrightarrow> scope_used_seconds d now som scope (wp_id pool) + k * task_duration_seconds \<le> t)"
  by (rule allocate_amount_limits [OF assms])

section \<open>The interface of cloud providers\<close>

text \<open>
  What a pool sees of a worker: its key, the pool it belongs to and whether an
  instance was created for it.
\<close>

definition seen :: "worker \<Rightarrow> pk \<times> pk option \<times> bool" where
  "seen w = (wk_id w, wk_worker_pool w, wk_instance_created_at w \<noteq> None)"

definition fleet :: "db \<Rightarrow> (pk \<times> pk option \<times> bool) list" where
  "fleet d = map seen (db_workers d)"

definition set_launched :: "bool \<Rightarrow> pk \<Rightarrow> (pk \<times> pk option \<times> bool) list \<Rightarrow>
    (pk \<times> pk option \<times> bool) list" where
  "set_launched b i = map (\<lambda>(k, p, c). if k = i then (k, p, b) else (k, p, c))"

text \<open>
  A row is looked up by a worker object that has its key and its pool; the keys
  are distinct.
\<close>

definition names_row :: "db \<Rightarrow> worker \<Rightarrow> bool" where
  "names_row d w \<longleftrightarrow> distinct (map wk_id (db_workers d))
     \<and> (\<exists>r\<in>set (db_workers d). wk_id r = wk_id w \<and> wk_worker_pool r = wk_worker_pool w)"

text \<open>
  The contract \<open>WorkerPoolInterface\<close> documents: launching a worker gives it an
  instance, terminating it takes the instance away, and neither touches the
  pools of the workers or any other worker; saving a worker schedules nothing
  that would.
\<close>

locale worker_pool_interface =
  fixes sc :: sched and rc :: calls and pv :: provider
  assumes undisturbed: "undisturbed sc rc"
    and launch: "names_row d w \<Longrightarrow> \<exists>d'. pv_launch_worker pv w d = (Inr (), d')
      \<and> fleet d' = set_launched True (wk_id w) (fleet d)"
    and terminate: "names_row d w \<Longrightarrow> \<exists>d'. pv_terminate_worker pv w d = (Inr (), d')
      \<and> fleet d' = set_launched False (wk_id w) (fleet d)"

text \<open>What there is of a pool, in the fleet.\<close>

definition fleet_size :: "pk \<Rightarrow> (pk \<times> pk option \<times> bool) list \<Rightarrow> nat" where
  "fleet_size pool f = length (filter (\<lambda>(k, p, c). p = Some pool) f)"

definition fleet_running :: "pk \<Rightarrow> (pk \<times> pk option \<times> bool) list \<Rightarrow> nat" where
  "fleet_running pool f = length (filter (\<lambda>(k, p, c). p = Some pool \<and> c) f)"

lemma fleet_size: "length (pool_workers d pool) = fleet_size pool (fleet d)"
  by (simp add: pool_workers_def fleet_size_def fleet_def filter_map comp_def seen_def)

lemma fleet_running: "length (workers_running d pool) = fleet_running pool (fleet d)"
  by (simp add: workers_running_def fleet_running_def fleet_def filter_map comp_def seen_def)

lemma filter_split_length:
  "length (filter (\<lambda>x. P x \<and> Q x) xs) + length (filter (\<lambda>x. P x \<and> \<not> Q x) xs) = length (filter P xs)"
  by (induction xs) auto

lemma running_and_stopped:
  "length (workers_running d pool) + length (workers_stopped d pool) = length (pool_workers d pool)"
  using filter_split_length [of "\<lambda>w. wk_worker_pool w = Some pool"
      "\<lambda>w. wk_instance_created_at w \<noteq> None" "db_workers d"]
  by (simp add: workers_running_def workers_stopped_def pool_workers_def)

lemma fleet_keys: "map wk_id (db_workers d) = map fst (fleet d)"
  by (simp add: fleet_def comp_def seen_def)

lemma set_launched_simps [simp]:
  "set_launched b i [] = []"
  "set_launched b i ((k, p, c) # f) = (k, p, if k = i then b else c) # set_launched b i f"
  by (simp_all add: set_launched_def)

lemma fleet_simps [simp]:
  "fleet_size pool [] = 0" "fleet_running pool [] = 0"
  "fleet_size pool ((k, p, c) # f) = (if p = Some pool then 1 else 0) + fleet_size pool f"
  "fleet_running pool ((k, p, c) # f) = (if p = Some pool \<and> c then 1 else 0) + fleet_running pool f"
  by (simp_all add: fleet_size_def fleet_running_def)

lemma set_launched_keys [simp]: "map fst (set_launched b i f) = map fst f"
  by (induction f) auto

lemma set_launched_size [simp]: "fleet_size pool (set_launched b i f) = fleet_size pool f"
  by (induction f) auto

lemma set_launched_other: "i \<notin> fst ` set f \<Longrightarrow> set_launched b i f = f"
  by (induction f) auto

lemma set_launched_running:
  assumes "distinct (map fst f)" and "(i, Some pool, False) \<in> set f"
  shows "fleet_running pool (set_launched True i f) = Suc (fleet_running pool f)"
  using assms
proof (induction f)
  case Nil
  then show ?case by simp
next
  case (Cons x f)
  obtain k p c where x: "x = (k, p, c)" by (cases x)
  show ?case
  proof (cases "k = i")
    case True
    with Cons.prems x have "i \<notin> fst ` set f" by auto
    then have "set_launched True i f = f" and "x = (i, Some pool, False)"
      using Cons.prems(2) by (auto simp: set_launched_other image_iff)
    then show ?thesis by simp
  next
    case False
    then have "(i, Some pool, False) \<in> set f" using Cons.prems(2) x by auto
    with Cons show ?thesis by (simp add: x False)
  qed
qed

section \<open>Launching\<close>

lemma fleet_delete_token [simp]: "fleet (snd (delete_token t d)) = fleet d"
  by (simp add: delete_token_def act_defs fleet_def comp_def seen_def if_distrib cong: if_cong)

lemma old_activation_fleet:
  "\<exists>d'. (case t of None \<Rightarrow> ret () | Some old \<Rightarrow> delete_token old) d = (Inr (), d') \<and> fleet d' = fleet d"
  using fleet_delete_token by (cases t) (auto simp: ret_def delete_token_def modify_db_def)

lemma old_token_fleet:
  "\<exists>d'. (case t of None \<Rightarrow> ret () | Some k \<Rightarrow> disable_token k) d = (Inr (), d') \<and> fleet d' = fleet d"
  by (cases t) (auto simp: ret_def disable_token_def modify_db_def fleet_def)

lemma put_worker_seen:
  assumes "names_row d w" and "r \<in> set (db_workers d)" and "wk_id r = wk_id w"
    and "seen r = seen w"
  shows "fleet (put_worker w d) = fleet d"
proof -
  have "seen (if wk_id v = wk_id w then w else v) = seen v" if "v \<in> set (db_workers d)" for v
  proof (cases "wk_id v = wk_id w")
    case True
    have "inj_on wk_id (set (db_workers d))"
      using assms(1) by (simp add: names_row_def distinct_map)
    then have "v = r" by (rule inj_onD) (use True assms(2,3) that in simp_all)
    with assms(4) True show ?thesis by simp
  next
    case False
    then show ?thesis by simp
  qed
  then show ?thesis by (simp add: fleet_def put_worker_def tbl_upd_def)
qed

context worker_pool_interface
begin

lemma saved:
  assumes "wk_id w \<in> wk_id ` set (db_workers d)"
  shows "\<exists>d'. save_worker sc rc w d = (Inr (), d') \<and> db_workers d' = db_workers (put_worker w d)"
proof -
  have "w \<in> set (db_workers (put_worker w d))"
    using assms by (force simp: put_worker_def tbl_upd_def)
  with undisturbed show ?thesis
    unfolding undisturbed_def save_worker_def act_defs by fastforce
qed

lemma launch_one_fleet:
  assumes "distinct (map wk_id (db_workers d))" and "w \<in> set (db_workers d)"
  shows "\<exists>d'. launch_one sc rc pv w d = (Inr (), d')
    \<and> fleet d' = set_launched True (wk_id w) (fleet d)"
proof -
  obtain t d1 where 1: "create_worker_activation (sc_env sc) d = (Inr t, d1)"
    "db_workers d1 = db_workers d"
    by (auto simp: create_worker_activation_def act_defs Let_def)
  let ?w = "w\<lparr>wk_activation_token := Some t\<rparr>"
  obtain d2 where 2: "save_worker sc rc ?w d1 = (Inr (), d2)"
    "db_workers d2 = db_workers (put_worker ?w d1)"
    using saved [of ?w d1] assms(2) 1(2) by auto
  have "names_row d1 ?w" using assms 1(2) by (auto simp: names_row_def)
  then have f2: "fleet d2 = fleet d"
    using put_worker_seen [of d1 ?w w] assms(2) 1(2) 2(2) by (simp add: fleet_def seen_def)
  obtain d3 where 3: "(case wk_activation_token w of None \<Rightarrow> ret () | Some old \<Rightarrow> delete_token old) d2
      = (Inr (), d3)" "fleet d3 = fleet d2"
    using old_activation_fleet [of "wk_activation_token w" d2] by blast
  obtain d4 where 4: "(case wk_token w of None \<Rightarrow> ret () | Some k \<Rightarrow> disable_token k) d3
      = (Inr (), d4)" "fleet d4 = fleet d3"
    using old_token_fleet [of "wk_token w" d3] by blast
  have same: "fleet d4 = fleet d" using f2 3 4 by simp
  then have "seen w \<in> set (fleet d4)" using assms(2) by (auto simp: fleet_def)
  then have "names_row d4 ?w"
    using assms(1) same fleet_keys [of d] fleet_keys [of d4]
    by (auto simp: names_row_def seen_def fleet_def)
  then obtain d5 where 5: "pv_launch_worker pv ?w d4 = (Inr (), d5)"
    "fleet d5 = set_launched True (wk_id w) (fleet d4)"
    using launch [of d4 ?w] by auto
  have "launch_one sc rc pv w d = (Inr (), d5)"
    using 1(1) 2(1) 3(1) 4(1) 5(1)
    by (simp add: launch_one_def bind_act_def seq_act_def Let_def)
  with 5(2) same show ?thesis by auto
qed

lemma launch_loop_fleet:
  assumes "\<forall>k. \<not> sc_worker_locked sc k"
  shows "distinct (map wk_id (db_workers d)) \<Longrightarrow> n \<le> length (workers_stopped d pool) \<Longrightarrow>
    \<exists>d'. launch_loop sc rc pv pool n d = (Inr (), d')
      \<and> map fst (fleet d') = map fst (fleet d)
      \<and> fleet_size pool (fleet d') = fleet_size pool (fleet d)
      \<and> fleet_running pool (fleet d') = fleet_running pool (fleet d) + n"
proof (induction n arbitrary: d)
  case 0
  then show ?case by (simp add: ret_def)
next
  case (Suc n)
  let ?stopped = "sort_key (\<lambda>w. pv_name_key pv (wk_name w)) (workers_stopped d pool)"
  have "set ?stopped \<noteq> {}" using Suc.prems(2) by auto
  then obtain w ws where w: "?stopped = w # ws" by (cases ?stopped) auto
  then have found: "next_stopped sc pv d pool = Some w"
    using assms by (simp add: next_stopped_def)
  have "w \<in> set ?stopped" using w by simp
  then have mem: "w \<in> set (db_workers d)" "wk_worker_pool w = Some pool"
    "wk_instance_created_at w = None" by (simp_all add: workers_stopped_def)
  obtain d1 where 1: "launch_one sc rc pv w d = (Inr (), d1)"
    "fleet d1 = set_launched True (wk_id w) (fleet d)"
    using launch_one_fleet [OF Suc.prems(1) mem(1)] by blast
  have keys: "map fst (fleet d1) = map fst (fleet d)" by (simp add: 1(2))
  have size: "fleet_size pool (fleet d1) = fleet_size pool (fleet d)" by (simp add: 1(2))
  have "(wk_id w, Some pool, False) \<in> set (fleet d)"
    using mem by (force simp: fleet_def seen_def)
  then have more: "fleet_running pool (fleet d1) = Suc (fleet_running pool (fleet d))"
    using set_launched_running Suc.prems(1) by (simp add: 1(2) fleet_keys)
  have "length (workers_stopped d1 pool) + 1 = length (workers_stopped d pool)"
    using running_and_stopped [of d pool] running_and_stopped [of d1 pool] more size
    by (simp add: fleet_size fleet_running)
  with Suc.prems(2) have left: "n \<le> length (workers_stopped d1 pool)" by simp
  have "distinct (map wk_id (db_workers d1))" using Suc.prems(1) keys by (simp add: fleet_keys)
  from Suc.IH [OF this left] obtain d2 where 2: "launch_loop sc rc pv pool n d1 = (Inr (), d2)"
    "map fst (fleet d2) = map fst (fleet d1)"
    "fleet_size pool (fleet d2) = fleet_size pool (fleet d1)"
    "fleet_running pool (fleet d2) = fleet_running pool (fleet d1) + n" by blast
  have "launch_loop sc rc pv pool (Suc n) d = (Inr (), d2)"
    using found 1(1) 2(1) by (simp add: atomic_def bind_act_def seq_act_def with_db_def ret_def)
  with 2 keys size more show ?case by simp
qed

end

text \<open>The conditions under which the pool can be filled: see \<open>create_pool_members_creates\<close>.\<close>

definition can_fill :: "nat \<Rightarrow> worker_pool \<Rightarrow> nat \<Rightarrow> db \<Rightarrow> bool" where
  "can_fill n pool wanted d \<longleftrightarrow> tokens_known d \<and> distinct (map wk_id (db_workers d))
     \<and> wanted + length (db_workers d) < n
     \<and> (\<forall>j\<le>n. length (pool_member_name (wp_name pool) j) \<le> 50)"

lemma create_pool_members_fleet:
  assumes "undisturbed sc rc" and "can_fill n pool wanted d" and "missing \<le> wanted"
  shows "\<exists>d'. create_pool_members n sc rc pool missing 1 d = (Inr (), d')
    \<and> distinct (map wk_id (db_workers d'))
    \<and> length (pool_workers d' (wp_id pool)) = length (pool_workers d (wp_id pool)) + missing
    \<and> length (workers_running d' (wp_id pool)) = length (workers_running d (wp_id pool))"
proof -
  have less: "missing + in_the_way pool 1 d < n"
    using assms(2,3) in_the_way_le [of pool 1 d] by (simp add: can_fill_def)
  have known: "tokens_known d" using assms(2) by (simp add: can_fill_def)
  have fits: "\<forall>j. j < n + 1 \<longrightarrow> length (pool_member_name (wp_name pool) j) \<le> 50"
    using assms(2) by (simp add: can_fill_def)
  obtain ws d' where d': "create_pool_members n sc rc pool missing 1 d = (Inr (), d')"
    "db_workers d' = db_workers d @ ws" "length ws = missing" "\<forall>w\<in>set ws. pool_member pool d' w"
    "distinct (map wk_id (db_workers d))
       \<longrightarrow> distinct (map wk_id (db_workers d'))"
    using create_pool_members_loop [OF assms(1) known less fits] by blast
  have "filter (\<lambda>w. wk_worker_pool w = Some (wp_id pool)) ws = ws"
    and "filter (\<lambda>w. wk_worker_pool w = Some (wp_id pool) \<and> wk_instance_created_at w \<noteq> None) ws = []"
    using d'(4) by (auto simp: pool_member_def intro: filter_True)
  then show ?thesis
    using d' assms(2) by (auto simp: pool_workers_def workers_running_def can_fill_def)
qed

lemma launch_workers_launch:
  assumes "worker_pool_interface sc rc pv" and "\<forall>k. \<not> sc_worker_locked sc k"
    and "can_fill n pool wanted d"
  shows "\<exists>d'. launch_workers n sc rc pv pool wanted d = (Inr (), d')
    \<and> length (workers_running d' (wp_id pool)) = length (workers_running d (wp_id pool)) + wanted
    \<and> length (pool_workers d' (wp_id pool))
      = max (length (pool_workers d (wp_id pool))) (length (workers_running d (wp_id pool)) + wanted)"
proof -
  let ?p = "wp_id pool"
  let ?missing = "wanted - length (workers_stopped d ?p)"
  obtain d1 where 1: "when_act (length (workers_stopped d ?p) < wanted)
      (create_pool_members n sc rc pool ?missing 1) d = (Inr (), d1)"
    "distinct (map wk_id (db_workers d1))"
    "length (pool_workers d1 ?p) = length (pool_workers d ?p) + ?missing"
    "length (workers_running d1 ?p) = length (workers_running d ?p)"
  proof (cases "length (workers_stopped d ?p) < wanted")
    case True
    have und: "undisturbed sc rc" by (rule worker_pool_interface.undisturbed [OF assms(1)])
    from create_pool_members_fleet [OF und assms(3), of ?missing] True that show ?thesis
      by (auto simp: when_act_def)
  next
    case False
    then show ?thesis using that [of d] assms(3) by (simp add: when_act_def ret_def can_fill_def)
  qed
  have enough: "wanted \<le> length (workers_stopped d1 ?p)"
    using running_and_stopped [of d ?p] running_and_stopped [of d1 ?p] 1(3,4) by simp
  obtain d2 where 2: "launch_loop sc rc pv ?p wanted d1 = (Inr (), d2)"
    "fleet_size ?p (fleet d2) = fleet_size ?p (fleet d1)"
    "fleet_running ?p (fleet d2) = fleet_running ?p (fleet d1) + wanted"
    using worker_pool_interface.launch_loop_fleet [OF assms(1,2) 1(2) enough] by blast
  have "launch_workers n sc rc pv pool wanted d = (Inr (), d2)"
    using 1(1) 2(1) by (simp add: launch_workers_def with_db_def seq_act_def bind_act_def Let_def)
  then show ?thesis
    using 1(3,4) 2(2,3) running_and_stopped [of d ?p]
    by (auto simp: fleet_size fleet_running max_def)
qed

text \<open>
  \<open>launch_workers(count)\<close> launches exactly \<open>count\<close> instances, starting the
  stopped workers of the pool and adding workers only when there are too few of
  them. It relies on what \<open>WorkerPoolInterface\<close> documents of the provider and on
  no other transaction holding a stopped worker.
\<close>

theorem launch_workers_launches:
  assumes "worker_pool_interface sc rc pv" and "\<forall>k. \<not> sc_worker_locked sc k"
    and "can_fill n pool wanted d"
  shows "\<exists>d'. launch_workers n sc rc pv pool wanted d = (Inr (), d')
    \<and> length (workers_running d' (wp_id pool)) = length (workers_running d (wp_id pool)) + wanted
    \<and> length (pool_workers d' (wp_id pool))
      = max (length (pool_workers d (wp_id pool))) (length (workers_running d (wp_id pool)) + wanted)"
  by (rule launch_workers_launch [OF assms])

text \<open>
  Allocating workers from a pool never takes the pool beyond
  \<open>max_active_instances\<close>, counting its workers with and without an instance, and
  launches exactly the number it returns.
\<close>

theorem allocate_workers_keeps_limit:
  assumes "worker_pool_interface sc rc pv" and "\<forall>k. \<not> sc_worker_locked sc k"
    and "can_fill n pool (nat amount) d"
    and "allocate_amount d (env_now (sc_env sc)) som scope pool amount = Inr k"
    and "wp_max_active_instances pool = Some limit"
    and "int (length (pool_workers d (wp_id pool))) \<le> limit"
  shows "\<exists>d'. allocate_workers n sc rc pv som scope pool amount d = (Inr k, d')
    \<and> int (length (pool_workers d' (wp_id pool))) \<le> limit
    \<and> length (workers_running d' (wp_id pool)) = length (workers_running d (wp_id pool)) + nat k"
proof (cases "0 < k")
  case True
  have within: "k \<le> amount \<and> int (length (pool_workers d (wp_id pool))) + k \<le> limit"
    using allocate_amount_limits [OF assms(4) True] assms(5) by simp
  have "can_fill n pool (nat k) d" using assms(3) within by (auto simp: can_fill_def)
  from launch_workers_launch [OF assms(1,2) this] obtain d' where
    d': "launch_workers n sc rc pv pool (nat k) d = (Inr (), d')"
    "length (workers_running d' (wp_id pool)) = length (workers_running d (wp_id pool)) + nat k"
    "length (pool_workers d' (wp_id pool))
      = max (length (pool_workers d (wp_id pool))) (length (workers_running d (wp_id pool)) + nat k)"
    by blast
  have "length (workers_running d (wp_id pool)) \<le> length (pool_workers d (wp_id pool))"
    using running_and_stopped [of d "wp_id pool"] by simp
  with d'(3) within True have "int (length (pool_workers d' (wp_id pool))) \<le> limit"
    by (simp add: max_def)
  with d'(1,2) assms(4) True show ?thesis
    by (simp add: allocate_workers_def act_defs)
next
  case False
  with assms(4,6) show ?thesis by (simp add: allocate_workers_def act_defs)
qed

section \<open>The dummy provider implements the interface\<close>

text \<open>The scheduler with \<open>DISABLE_AUTOMATIC_SCHEDULING\<close>: saves do not call it.\<close>

definition manual :: "sched \<Rightarrow> sched" where
  "manual sc = sc\<lparr>sc_env := quiet sc\<rparr>"

lemma manual_simps [simp]:
  "env_auto (sc_env (manual sc)) = False"
  "sc_worker_locked (manual sc) = sc_worker_locked sc"
  "env_now (sc_env (manual sc)) = env_now (sc_env sc)"
  by (simp_all add: manual_def quiet_def)

lemma manual_changed: "worker_changed (manual sc) rc w = ret ()"
  by (simp add: worker_changed_def when_act_def)

lemma manual_undisturbed: "undisturbed (manual sc) rc"
  by (simp add: undisturbed_def manual_changed ret_def)

lemma manual_save: "save_worker (manual sc) rc w d = (Inr (), put_worker w d)"
  by (simp add: save_worker_def manual_changed act_defs)

lemma put_worker_launched:
  assumes "names_row d w" and "seen v = (wk_id w, wk_worker_pool w, b)"
  shows "fleet (put_worker v d) = set_launched b (wk_id w) (fleet d)"
proof -
  obtain r where r: "r \<in> set (db_workers d)" "wk_id r = wk_id w" "wk_worker_pool r = wk_worker_pool w"
    using assms(1) by (auto simp: names_row_def)
  have inj: "inj_on wk_id (set (db_workers d))"
    using assms(1) by (simp add: names_row_def distinct_map)
  have "seen (if wk_id u = wk_id v then v else u)
      = (\<lambda>(k, p, c). if k = wk_id w then (k, p, b) else (k, p, c)) (seen u)"
    if "u \<in> set (db_workers d)" for u
  proof (cases "wk_id u = wk_id w")
    case True
    have "u = r" by (rule inj_onD [OF inj]) (use True r that in simp_all)
    then show ?thesis using assms(2) r True by (auto simp: seen_def)
  next
    case False
    then show ?thesis using assms(2) by (auto simp: seen_def)
  qed
  then show ?thesis
    by (simp add: fleet_def put_worker_def tbl_upd_def set_launched_def)
qed

interpretation dummy: worker_pool_interface "manual sc" rc "dummy_provider (manual sc) rc key"
  for sc rc key
proof
  show "undisturbed (manual sc) rc" by (rule manual_undisturbed)
next
  fix d w
  assume row: "names_row d w"
  let ?v = "w\<lparr>wk_instance_created_at := Some (env_now (sc_env (manual sc))),
    wk_worker_pool_data := Some [(''launched'', JBool True)]\<rparr>"
  have "fleet (put_worker ?v d) = set_launched True (wk_id w) (fleet d)"
    by (rule put_worker_launched [OF row]) (simp add: seen_def)
  then show "\<exists>d'. pv_launch_worker (dummy_provider (manual sc) rc key) w d = (Inr (), d')
      \<and> fleet d' = set_launched True (wk_id w) (fleet d)"
    by (simp add: dummy_provider_def dummy_launch_worker_def manual_save)
next
  fix d w
  assume row: "names_row d w"
  let ?v = "w\<lparr>wk_instance_created_at := None, wk_worker_pool_data := None\<rparr>"
  have "fleet (put_worker ?v d) = set_launched False (wk_id w) (fleet d)"
    by (rule put_worker_launched [OF row]) (simp add: seen_def)
  then show "\<exists>d'. pv_terminate_worker (dummy_provider (manual sc) rc key) w d = (Inr (), d')
      \<and> fleet d' = set_launched False (wk_id w) (fleet d)"
    by (simp add: dummy_provider_def dummy_terminate_worker_def manual_save)
qed

section \<open>What counts as pending\<close>

text \<open>
  \<open>pending_task_count\<close> looks at no status: the requests of a scope that ended
  long ago require workers like the ones that wait.
\<close>

lemma pending_task_count_any_status:
  assumes "\<And>r. wr_id (f r) = wr_id r \<and> wr_workspace (f r) = wr_workspace r
      \<and> wr_task_data (f r) = wr_task_data r"
  shows "workers_required (d\<lparr>db_work_requests := map f (db_work_requests d)\<rparr>) scope
    = workers_required d scope"
proof -
  have "length (filter P (map f rs)) = length (filter P rs)"
    if "\<And>r. P (f r) = P r" for P :: "work_request \<Rightarrow> bool" and rs
    using that by (induction rs) simp_all
  moreover have "in_scope (d\<lparr>db_work_requests := rs\<rparr>) scope r = in_scope d scope r" for rs r
    by (simp add: in_scope_def get_workspace_def)
  moreover have "in_scope d scope (f r) = in_scope d scope r" for r
    using assms by (simp add: in_scope_def)
  ultimately show ?thesis
    using assms by (simp add: workers_required_def pending_task_count_def objects_def)
qed

section \<open>When provisioning stalls\<close>

lemma idle_time_shift:
  assumes "idle_time d now w = Some s" and "0 < s" and "now \<le> now'"
  shows "\<exists>s'. idle_time d now' w = Some s' \<and> s \<le> s'"
  using assms by (auto simp: idle_time_def Let_def split: if_splits)

lemma idle_not_running:
  assumes "w \<in> set (idle_workers d now minutes)" and "0 \<le> minutes"
  shows "running (objects d) (Some (wk_id w)) = []"
proof -
  have "\<not> list_ex (\<lambda>r. wr_status r = RUNNING)
      (filter (\<lambda>r. wr_worker r = Some (wk_id w)) (objects d))"
    using assms by (auto simp: idle_workers_def idle_time_def Let_def)
  then show ?thesis by (auto simp: running_def filter_empty_conv list_ex_iff)
qed

text \<open>
  What terminating workers leaves of the table: rows with the key, the pool and
  the registration they had, with the instance they had or none.
\<close>

definition retired_row :: "worker \<Rightarrow> worker \<Rightarrow> bool" where
  "retired_row v v' \<longleftrightarrow> wk_id v' = wk_id v \<and> wk_worker_pool v' = wk_worker_pool v
     \<and> wk_registered_at v' = wk_registered_at v
     \<and> (wk_instance_created_at v' = None \<or> wk_instance_created_at v' = wk_instance_created_at v)"

definition retired :: "db \<Rightarrow> db \<Rightarrow> bool" where
  "retired d d' \<longleftrightarrow> db_work_requests d' = db_work_requests d \<and> db_worker_pools d' = db_worker_pools d
     \<and> list_all2 retired_row (db_workers d) (db_workers d')"

lemma retired_refl: "retired d d"
  by (simp add: retired_def retired_row_def list_all2_same)

lemma retired_idle:
  assumes "retired d d'" and "idle_workers d now minutes \<noteq> []" and "0 \<le> minutes" and "now \<le> now'"
  shows "idle_workers d' now' minutes \<noteq> []"
proof -
  obtain w s where w: "w \<in> set (db_workers d)" "wk_worker_pool w \<noteq> None"
    "idle_time d now w = Some s" "minutes * 60 < s"
    using assms(2) by (auto simp: idle_workers_def filter_empty_conv split: option.splits)
  obtain s' where s': "idle_time d now' w = Some s'" "s \<le> s'"
    using idle_time_shift [OF w(3) _ assms(4)] w(4) assms(3) by auto
  obtain w' where w': "w' \<in> set (db_workers d')" "retired_row w w'"
    using assms(1) w(1) by (fastforce simp: retired_def list_all2_conv_all_nth in_set_conv_nth)
  have "objects d' = objects d" using assms(1) by (simp add: retired_def objects_def)
  moreover have "later (wk_registered_at w') (wk_instance_created_at w')
      \<le> later (wk_registered_at w) (wk_instance_created_at w)"
    using w'(2) by (auto simp: retired_row_def later_def split: option.splits)
  moreover have "wk_id w' = wk_id w" using w'(2) by (simp add: retired_row_def)
  ultimately have "\<exists>s''. idle_time d' now' w' = Some s'' \<and> s' \<le> s''"
    using s'(1) by (auto simp: idle_time_def Let_def split: if_splits)
  then obtain s'' where "idle_time d' now' w' = Some s''" "s' \<le> s''" by blast
  moreover have "wk_worker_pool w' \<noteq> None" using w'(2) w(2) by (simp add: retired_row_def)
  ultimately have "w' \<in> set (idle_workers d' now' minutes)"
    using w'(1) w(4) s'(2) by (simp add: idle_workers_def)
  then show ?thesis by auto
qed

lemma retired_put:
  assumes "retired d d'" and "distinct (map wk_id (db_workers d))" and "w \<in> set (db_workers d)"
    and "retired_row w v"
  shows "retired d (put_worker v d')"
proof -
  have "list_all2 retired_row (db_workers d)
      (map (\<lambda>r. if wk_id r = wk_id v then v else r) (db_workers d'))"
    unfolding list_all2_conv_all_nth
  proof (intro conjI allI impI)
    show len: "length (db_workers d)
        = length (map (\<lambda>r. if wk_id r = wk_id v then v else r) (db_workers d'))"
      using assms(1) by (auto simp: retired_def dest: list_all2_lengthD)
    fix i
    assume i: "i < length (db_workers d)"
    let ?u = "db_workers d ! i" and ?u' = "db_workers d' ! i"
    have u: "retired_row ?u ?u'"
      using assms(1) i by (simp add: retired_def list_all2_conv_all_nth)
    have "wk_id ?u' = wk_id v \<longrightarrow> ?u = w"
      using u assms(2-4) i unfolding retired_row_def distinct_map
      by (metis inj_on_eq_iff nth_mem)
    with u assms(4) len i show "retired_row ?u
        (map (\<lambda>r. if wk_id r = wk_id v then v else r) (db_workers d') ! i)"
      by auto
  qed
  then show ?thesis using assms(1) by (simp add: retired_def put_worker_def tbl_upd_def)
qed

lemma retired_disable:
  assumes "retired d d'"
  shows "\<exists>d2. (case t of None \<Rightarrow> ret () | Some k \<Rightarrow> disable_token k) d' = (Inr (), d2) \<and> retired d d2"
  using assms by (cases t) (auto simp: ret_def disable_token_def modify_db_def retired_def)

lemma terminate_retired:
  assumes "retired d d'" and "distinct (map wk_id (db_workers d))" and "w \<in> set (db_workers d)"
    and "running (objects d) (Some (wk_id w)) = []" and "wk_worker_pool w = Some (wp_id pool)"
  shows "\<exists>d2. terminate_worker (manual sc) rc (dummy_provider (manual sc) rc key) pool w d' = (Inr (), d2)
    \<and> retired d d2"
proof -
  let ?now = "env_now (sc_env (manual sc))"
  let ?stats = "case wk_instance_created_at w of None \<Rightarrow> ret ()
    | Some t \<Rightarrow> modify_db (\<lambda>d. d\<lparr>db_pool_statistics := db_pool_statistics d @
        [\<lparr>ps_worker_pool = wp_id pool, ps_worker = Some (wk_id w), ps_timestamp = ?now,
          ps_runtime = ?now - t\<rparr>]\<rparr>)"
  let ?v = "w\<lparr>wk_instance_created_at := None, wk_worker_pool_data := None\<rparr>"
  obtain d1 where 1: "(case wk_activation_token w of None \<Rightarrow> ret () | Some k \<Rightarrow> disable_token k) d'
      = (Inr (), d1)" "retired d d1" using retired_disable [OF assms(1)] by blast
  obtain d2 where 2: "(case wk_token w of None \<Rightarrow> ret () | Some k \<Rightarrow> disable_token k) d1
      = (Inr (), d2)" "retired d d2" using retired_disable [OF 1(2)] by blast
  obtain d3 where 3: "?stats d2 = (Inr (), d3)" "retired d d3"
    using 2(2) by (cases "wk_instance_created_at w") (auto simp: ret_def modify_db_def retired_def)
  have 4: "pv_terminate_worker (dummy_provider (manual sc) rc key) w d3 = (Inr (), put_worker ?v d3)"
    by (simp add: dummy_provider_def dummy_terminate_worker_def manual_save)
  have 5: "retired d (put_worker ?v d3)"
    by (rule retired_put [OF 3(2) assms(2,3)]) (simp add: retired_row_def)
  have none: "running (objects (put_worker ?v d3)) (Some (wk_id w)) = []"
    using 5 assms(4) by (simp add: retired_def objects_def)
  have "terminate_worker (manual sc) rc (dummy_provider (manual sc) rc key) pool w d'
      = (Inr (), put_worker ?v d3)"
    using 1(1) 2(1) 3(1) 4 none assms(5)
    by (simp add: terminate_worker_def seq_act_def bind_act_def with_db_def ret_def)
  with 5 show ?thesis by blast
qed

lemma terminate_all_retired:
  assumes "distinct (map wk_id (db_workers d))"
  shows "set ws \<subseteq> set (idle_workers d now 10) \<Longrightarrow>
    (\<forall>w\<in>set ws. Option.bind (wk_worker_pool w) (get_worker_pool d) \<noteq> None) \<Longrightarrow> retired d d' \<Longrightarrow>
    \<exists>d2. for_each ws (\<lambda>w. with_db (\<lambda>d.
        case Option.bind (wk_worker_pool w) (get_worker_pool d) of
          None \<Rightarrow> raise (DoesNotExist ''WorkerPool'')
        | Some pool \<Rightarrow> terminate_worker (manual sc) rc (dummy_provider (manual sc) rc key) pool w)) d'
      = (Inr (), d2) \<and> retired d d2"
proof (induction ws arbitrary: d')
  case Nil
  then show ?case by (simp add: ret_def)
next
  case (Cons w ws)
  from Cons.prems(2) obtain p pool where pool: "wk_worker_pool w = Some p" "get_worker_pool d p = Some pool"
    by (cases "wk_worker_pool w") auto
  then have "wp_id pool = p" by (auto simp: get_worker_pool_def dest: tbl_get_key)
  with pool have own: "wk_worker_pool w = Some (wp_id pool)" by simp
  have same: "get_worker_pool d' p = Some pool"
    using pool(2) Cons.prems(3) by (simp add: get_worker_pool_def retired_def)
  have mem: "w \<in> set (db_workers d)" using Cons.prems(1) by (auto simp: idle_workers_def)
  have "running (objects d) (Some (wk_id w)) = []"
    by (rule idle_not_running [of w d now 10]) (use Cons.prems(1) in simp_all)
  from terminate_retired [OF Cons.prems(3) assms(1) mem this own, of sc rc key]
  obtain d1 where 1: "terminate_worker (manual sc) rc (dummy_provider (manual sc) rc key) pool w d'
      = (Inr (), d1)" "retired d d1" by blast
  have "set ws \<subseteq> set (idle_workers d now 10)"
    "\<forall>w\<in>set ws. Option.bind (wk_worker_pool w) (get_worker_pool d) \<noteq> None"
    using Cons.prems(1,2) by simp_all
  from Cons.IH [OF this 1(2)] 1(1) pool(1) same show ?case
    by (auto simp: seq_act_def bind_act_def with_db_def)
qed

text \<open>
  Once a worker of a pool has been idle for more than ten minutes, every run
  of \<open>provision\<close> only terminates idle workers, whatever work is waiting: a worker
  that is stopped stays in the table and counts as idle, so the next run finds
  one as well, and no run creates new workers.
\<close>

theorem provision_stalls:
  assumes "distinct (map wk_id (db_workers d))"
    and "\<forall>w\<in>set (db_workers d). wk_worker_pool w \<noteq> None
      \<longrightarrow> Option.bind (wk_worker_pool w) (get_worker_pool d) \<noteq> None"
    and "idle_workers d (env_now (sc_env sc)) 10 \<noteq> []"
  shows "\<exists>d'. provision n (manual sc) rc (dummy_provider (manual sc) rc key) som d = (Inr (), d')
    \<and> map wk_id (db_workers d') = map wk_id (db_workers d)
    \<and> (\<forall>now\<ge>env_now (sc_env sc). idle_workers d' now 10 \<noteq> [])"
proof -
  let ?idle = "idle_workers d (env_now (sc_env sc)) 10"
  have "set ?idle \<subseteq> set ?idle" by simp
  moreover have "\<forall>w\<in>set ?idle. Option.bind (wk_worker_pool w) (get_worker_pool d) \<noteq> None"
    using assms(2) by (simp add: idle_workers_def)
  ultimately obtain d' where d': "for_each ?idle (\<lambda>w. with_db (\<lambda>d.
        case Option.bind (wk_worker_pool w) (get_worker_pool d) of
          None \<Rightarrow> raise (DoesNotExist ''WorkerPool'')
        | Some pool \<Rightarrow> terminate_worker (manual sc) rc (dummy_provider (manual sc) rc key) pool w)) d
      = (Inr (), d')" "retired d d'"
    using terminate_all_retired [OF assms(1) _ _ retired_refl] by blast
  have "provision n (manual sc) rc (dummy_provider (manual sc) rc key) som d = (Inr (), d')"
    using d'(1) assms(3)
    by (simp add: provision_def terminate_idle_def Let_def bind_act_def seq_act_def with_db_def ret_def)
  moreover have "map wk_id (db_workers d') = map wk_id (db_workers d)"
    using d'(2) by (auto simp: retired_def retired_row_def list_all2_conv_all_nth intro: nth_equalityI)
  moreover have "idle_workers d' now 10 \<noteq> []" if "env_now (sc_env sc) \<le> now" for now
    by (rule retired_idle [OF d'(2) assms(3) _ that]) simp
  ultimately show ?thesis by blast
qed

section \<open>Examples\<close>

text \<open>
  A pool with one stopped worker, registered long ago; a scope with many
  requests; the clock stands at 100000.
\<close>

definition stalled_sched :: sched where
  "stalled_sched = example_sched\<lparr>sc_env := example_env\<lparr>env_now := 100000\<rparr>\<rparr>"

definition stalled_db :: db where
  "stalled_db = example_workers\<lparr>db_worker_pools := [example_pool],
     db_workers := [example_worker\<lparr>wk_worker_pool := Some 1, wk_instance_created_at := None\<rparr>],
     db_work_requests := []\<rparr>"

definition wide_pool :: worker_pool where
  "wide_pool = example_pool\<lparr>wp_max_active_instances := Some 5,
     wp_target_max_seconds_per_month := Some 1300\<rparr>"

lemma example_fills: "can_fill 4 example_pool 2 stalled_db" "can_fill 4 wide_pool 2 stalled_db"
  using short_names(2)
  by (simp_all add: can_fill_def stalled_db_def tokens_known_def example_worker_def
      wide_pool_def example_pool_def)

lemma example_unlocked: "\<forall>k. \<not> sc_worker_locked (manual example_sched) k"
  by (simp add: example_sched_def)

theorem launch_workers_launches_witness:
  "\<exists>d'. launch_workers 4 (manual example_sched) (run 9 example_env)
      (dummy_provider (manual example_sched) (run 9 example_env) length) example_pool 2 stalled_db
      = (Inr (), d')
    \<and> length (workers_running d' 1) = 2 \<and> length (pool_workers d' 1) = 2"
proof -
  have pool: "wp_id example_pool = 1" by (simp add: example_pool_def)
  have counts: "length (workers_running stalled_db 1) = 0" "length (pool_workers stalled_db 1) = 1"
    by (simp_all add: workers_running_def pool_workers_def stalled_db_def)
  from launch_workers_launches [OF dummy.worker_pool_interface_axioms example_unlocked
      example_fills(1), of "run 9 example_env" length]
  show ?thesis unfolding pool counts by (simp add: numeral_2_eq_2)
qed

lemma example_links: "db_scope_worker_pools stalled_db = []" "db_pool_statistics stalled_db = []"
  "db_workers stalled_db = [example_worker\<lparr>wk_worker_pool := Some 1, wk_instance_created_at := None\<rparr>]"
  by (simp_all add: stalled_db_def example_workers_def example_db_def empty_db_def)

lemma example_amount: "allocate_amount stalled_db 1000 900 1 wide_pool 2 = Inr 2"
  by (simp add: allocate_amount_def limit_by_max_active_instances_def pool_workers_def
      example_links limit_by_pool_target_max_seconds_per_month_def limit_by_seconds_def
      get_used_seconds_def connected_workers_def wide_pool_def example_pool_def later_def
      limit_by_scope_pool_target_max_seconds_per_month_def task_duration_seconds_def example_worker_def)

theorem allocate_amount_within_limits_witness:
  "int (length (pool_workers stalled_db 1)) + 2 \<le> 5
    \<and> get_used_seconds stalled_db 1000 900 1 + 2 * task_duration_seconds \<le> 1300"
  using allocate_amount_within_limits [OF example_amount]
  by (simp add: wide_pool_def example_pool_def)

theorem allocate_workers_keeps_limit_witness:
  "\<exists>d'. allocate_workers 4 (manual stalled_sched) (run 9 example_env)
      (dummy_provider (manual stalled_sched) (run 9 example_env) length) 99950 1
      (wide_pool\<lparr>wp_target_max_seconds_per_month := None\<rparr>) 2 stalled_db = (Inr 2, d')
    \<and> int (length (pool_workers d' 1)) \<le> 5
    \<and> length (workers_running d' 1) = length (workers_running stalled_db 1) + 2"
proof -
  let ?pool = "wide_pool\<lparr>wp_target_max_seconds_per_month := None\<rparr>"
  have id: "wp_id ?pool = 1" by (simp add: wide_pool_def example_pool_def)
  have free: "\<forall>k. \<not> sc_worker_locked (manual stalled_sched) k"
    by (simp add: stalled_sched_def example_sched_def)
  have fill: "can_fill 4 ?pool (nat 2) stalled_db"
    using example_fills(2) by (simp add: can_fill_def)
  have amount: "allocate_amount stalled_db (env_now (sc_env (manual stalled_sched))) 99950 1 ?pool 2
      = Inr 2"
    by (simp add: allocate_amount_def limit_by_max_active_instances_def pool_workers_def
        example_links limit_by_pool_target_max_seconds_per_month_def limit_by_seconds_def
        limit_by_scope_pool_target_max_seconds_per_month_def wide_pool_def)
  have limit: "wp_max_active_instances ?pool = Some 5" by (simp add: wide_pool_def)
  have size: "int (length (pool_workers stalled_db (wp_id ?pool))) \<le> 5"
    by (simp add: pool_workers_def example_links)
  from allocate_workers_keeps_limit [OF dummy.worker_pool_interface_axioms free fill amount limit size,
      of "run 9 example_env" length]
  show ?thesis unfolding id by auto
qed

theorem provision_stalls_witness:
  "\<exists>d'. provision 4 (manual stalled_sched) (run 9 example_env)
      (dummy_provider (manual stalled_sched) (run 9 example_env) length) 0 stalled_db = (Inr (), d')
    \<and> map wk_id (db_workers d') = [1] \<and> (\<forall>now\<ge>100000. idle_workers d' now 10 \<noteq> [])"
proof -
  have keys: "map wk_id (db_workers stalled_db) = [1]"
    by (simp add: example_links example_worker_def)
  have known: "\<forall>w\<in>set (db_workers stalled_db). wk_worker_pool w \<noteq> None
      \<longrightarrow> Option.bind (wk_worker_pool w) (get_worker_pool stalled_db) \<noteq> None"
    by (simp add: example_links get_worker_pool_def stalled_db_def example_pool_def)
  have now: "env_now (sc_env stalled_sched) = 100000" by (simp add: stalled_sched_def)
  have "idle_workers stalled_db 100000 10 \<noteq> []"
    by (simp add: idle_workers_def idle_time_def stalled_db_def objects_def later_def
        example_worker_def)
  then have idle: "idle_workers stalled_db (env_now (sc_env stalled_sched)) 10 \<noteq> []"
    unfolding now .
  have distinct: "distinct (map wk_id (db_workers stalled_db))" unfolding keys by simp
  from provision_stalls [OF distinct known idle, of 4 "run 9 example_env" length 0]
  show ?thesis unfolding now keys .
qed

section \<open>A worker is terminated while it runs a request\<close>

text \<open>Request 2 runs on worker 1, and request 3 is blocked on request 2.\<close>

definition busy_db :: db where
  "busy_db = stalled_db\<lparr>db_work_requests :=
      [(new_work_request 2 7)\<lparr>wr_status := RUNNING, wr_worker := Some 1\<rparr>,
       (new_work_request 3 7)\<lparr>wr_status := BLOCKED\<rparr>],
     db_dependencies := [(3, 2)]\<rparr>"

text \<open>
  The running request is aborted and retried, and what depended on it stays
  aborted although the request 4 that supersedes it is pending.
\<close>

lemma terminate_worker_aborts_dependents:
  "(case terminate_worker (manual stalled_sched) (run 9 (quiet stalled_sched))
       (dummy_provider (manual stalled_sched) (run 9 (quiet stalled_sched)) length) example_pool
       (hd (db_workers stalled_db)) busy_db of
     (r, d) \<Rightarrow> (r, map (\<lambda>r. (wr_id r, wr_status r, wr_supersedes r)) (db_work_requests d),
                db_dependencies d))
   = (Inr (), [(2, ABORTED, None), (3, ABORTED, None), (4, PENDING, Some 2)], [(3, 4)])"
  by code_simp

end
