(* ===== verification/UserGroups.thy ===== *)
theory UserGroups
  imports Workspaces
begin

text \<open>
  Groups of users (debusine/db/models/auth.py): the roles of a group, who may
  manage it, its members, and the log of its changes.
\<close>

section \<open>Names\<close>

text \<open>The pattern of \<open>group_name_regex\<close>, matched with \<open>re.match\<close>.\<close>

definition is_name_char :: "char \<Rightarrow> bool" where
  "is_name_char c \<longleftrightarrow> is_ascii_alpha c \<or> is_ascii_digit c \<or> c \<in> set ''+._-''"

definition is_valid_group_name :: "string \<Rightarrow> bool" where
  "is_valid_group_name value \<longleftrightarrow>
     (case value of
        [] \<Rightarrow> False
      | c # cs \<Rightarrow> is_ascii_alpha c \<and> at_dollar (dropWhile is_name_char cs))"

section \<open>Roles\<close>

datatype group_implication = GroupByScope scope_role | GroupByRole group_role | GroupByOther

type_synonym group_roles_table = "group_role \<rightharpoonup> scope_role set \<times> group_role set"

primrec group_setup_role ::
  "group_roles_table \<Rightarrow> group_implication list \<Rightarrow> scope_role set \<times> group_role set \<Rightarrow>
     (scope_role set \<times> group_role set) res" where
  "group_setup_role t [] acc = Inr acc"
| "group_setup_role t (i # is) acc =
     (case i of
        GroupByScope s \<Rightarrow> group_setup_role t is (fst acc \<union> scope_implied_by s, snd acc)
      | GroupByRole r \<Rightarrow>
          (case t r of
             None \<Rightarrow> Inl (AttributeError ''implied_by_scope_roles'')
           | Some (s, g) \<Rightarrow> group_setup_role t is (fst acc \<union> s, snd acc \<union> g))
      | GroupByOther \<Rightarrow> Inl (ImproperlyConfigured ''Group roles do not support implications by''))"

primrec group_setup ::
  "(group_role \<times> group_implication list) list \<Rightarrow> group_roles_table \<Rightarrow> group_roles_table res" where
  "group_setup [] t = Inr t"
| "group_setup (m # ms) t =
     bind_res (group_setup_role t (snd m) ({}, {fst m})) (\<lambda>entry. group_setup ms (t(fst m \<mapsto> entry)))"

definition group_declared :: "(group_role \<times> group_implication list) list" where
  "group_declared = [(GroupAdmin, [GroupByScope ScopeOwner]), (GroupMember, [GroupByRole GroupAdmin])]"

definition group_roles_table :: group_roles_table where
  "group_roles_table = (case group_setup group_declared Map.empty of Inr t \<Rightarrow> t | Inl e \<Rightarrow> Map.empty)"

definition group_implied_by_scope_roles :: "group_role \<Rightarrow> scope_role set" where
  "group_implied_by_scope_roles r = (case group_roles_table r of Some (s, g) \<Rightarrow> s | None \<Rightarrow> {})"

definition group_implied_by_group_roles :: "group_role \<Rightarrow> group_role set" where
  "group_implied_by_group_roles r = (case group_roles_table r of Some (s, g) \<Rightarrow> g | None \<Rightarrow> {})"

definition group_implies :: "group_role \<Rightarrow> group_role \<Rightarrow> bool" where
  "group_implies self role = (self \<in> group_implied_by_group_roles role)"

lemma group_table [simp]:
  "group_roles_table GroupAdmin = Some ({ScopeOwner}, {GroupAdmin})"
  "group_roles_table GroupMember = Some ({ScopeOwner}, {GroupMember, GroupAdmin})"
  by (simp_all add: group_roles_table_def group_declared_def scope_implied_by_def)

lemma group_implied [simp]:
  "group_implied_by_scope_roles r = {ScopeOwner}"
  "group_implied_by_group_roles GroupAdmin = {GroupAdmin}"
  "group_implied_by_group_roles GroupMember = {GroupMember, GroupAdmin}"
  by (cases r; simp add: group_implied_by_scope_roles_def)
    (simp_all add: group_implied_by_group_roles_def)

interpretation group_roles: role_order group_implies
proof
  fix a b c
  show "group_implies a a" by (cases a) (simp_all add: group_implies_def)
  show "group_implies a b \<Longrightarrow> group_implies b c \<Longrightarrow> group_implies a c"
    by (cases b; cases c) (auto simp: group_implies_def)
  show "group_implies a b \<Longrightarrow> group_implies b a \<Longrightarrow> a = b"
    by (cases a; cases b) (auto simp: group_implies_def)
qed

section \<open>Who may manage a group\<close>

definition group_q :: "db \<Rightarrow> pk \<Rightarrow> group_row \<Rightarrow> bool" where
  "group_q d u g \<longleftrightarrow>
     has_scope_roles d u {ScopeOwner} (gp_scope g)
     \<or> list_ex (\<lambda>m. gm_group m = gp_id g \<and> gm_user m = u \<and> gm_role m = GroupAdmin)
         (db_memberships d)"

definition group_can_manage_body :: "db \<Rightarrow> group_row list \<Rightarrow> permission_user \<Rightarrow> group_row list res" where
  "group_can_manage_body d self user =
     (case user of
        AuthUser u \<Rightarrow> Inr (filter (group_q d u) self)
      | _ \<Rightarrow> Inl (TypeError ''Field 'id' expected a number''))"

definition group_can_manage_qs where
  "group_can_manage_qs d = permission_filter NEVER NEVER (group_can_manage_body d)"

definition group_manages ::
  "db \<Rightarrow> app_context \<Rightarrow> group_row \<Rightarrow> permission_user \<Rightarrow> bool res" where
  "group_manages d cx self user =
     bind_res (if cx_user cx = user \<and> cx_scope cx = Some (gp_scope self)
               then bind_res (context_scope_roles cx)
                      (\<lambda>roles. Inr (roles \<inter> group_implied_by_scope_roles GroupAdmin \<noteq> {}))
               else Inr False) (\<lambda>cached.
       if cached then Inr True
       else bind_res (group_can_manage_qs d cx (db_groups d) user)
              (\<lambda>kept. Inr (filter (\<lambda>g. gp_id g = gp_id self) kept \<noteq> [])))"

definition group_can_manage where
  "group_can_manage d cx = permission_check NEVER NEVER (group_manages d cx) cx"

definition group_can_display where
  "group_can_display cx = permission_check NEVER NEVER (\<lambda>(self :: group_row) user. Inr True) cx"

definition group_can_display_qs where
  "group_can_display_qs cx = permission_filter NEVER NEVER (\<lambda>(self :: group_row list) user. Inr self) cx"

definition group_can_display_audit_log where
  "group_can_display_audit_log cx = permission_check NEVER NEVER (group_can_display cx) cx"

definition group_can_display_audit_log_qs where
  "group_can_display_audit_log_qs cx = permission_filter NEVER NEVER (group_can_display_qs cx) cx"

section \<open>The audit log\<close>

definition add_audit_log :: "app_context \<Rightarrow> pk \<Rightarrow> group_change \<Rightarrow> unit dbact" where
  "add_audit_log cx self changes =
     (case cx_user cx of
        AuthUser u \<Rightarrow> modify_db (\<lambda>d. d\<lparr>db_group_audit_log := db_group_audit_log d
          @ [\<lparr>gl_group = self, gl_actor = u, gl_changes = changes\<rparr>]\<rparr>)
      | _ \<Rightarrow> if cx_permission_checks_disabled cx then ret ()
             else raise (ContextConsistencyError ''add_audit_log requires a valid user''))"

section \<open>Operations\<close>

text \<open>\<open>Group.save\<close>: an insert (a key of 0) or an update; names are unique in a scope.\<close>

definition group_name_taken :: "db \<Rightarrow> group_row \<Rightarrow> bool" where
  "group_name_taken d g \<longleftrightarrow>
     list_ex (\<lambda>h. gp_name h = gp_name g \<and> gp_scope h = gp_scope g \<and> gp_id h \<noteq> gp_id g) (db_groups d)"

definition save_group :: "app_context \<Rightarrow> group_row \<Rightarrow> group_row dbact" where
  "save_group cx self = with_db (\<lambda>d.
     if gp_id self = 0 then
       let g = self\<lparr>gp_id := tbl_next gp_id (db_groups d)\<rparr>
       in if group_name_taken d g then raise (IntegrityError ''unique_name_scope'')
          else seq_act (modify_db (\<lambda>d. d\<lparr>db_groups := db_groups d @ [g]\<rparr>))
                 (seq_act (add_audit_log cx (gp_id g) (GroupCreated (gp_name g) (gp_ephemeral g)))
                          (ret g))
     else
       (case tbl_get gp_id (gp_id self) (db_groups d) of
          None \<Rightarrow> raise (DoesNotExist ''Group'')
        | Some old \<Rightarrow>
            if group_name_taken d self then raise (IntegrityError ''unique_name_scope'')
            else seq_act (modify_db (\<lambda>d. d\<lparr>db_groups :=
                     tbl_upd gp_id (gp_id self) (\<lambda>_. self) (db_groups d)\<rparr>))
                   (seq_act (add_audit_log cx (gp_id self)
                       (GroupUpdated ((gp_name old, gp_ephemeral old), (gp_name self, gp_ephemeral self))))
                     (ret self))))"

definition username :: "db \<Rightarrow> pk \<Rightarrow> string" where
  "username d u = (case tbl_get us_id u (db_users d) of None \<Rightarrow> [] | Some r \<Rightarrow> us_username r)"

definition is_membership :: "pk \<Rightarrow> pk \<Rightarrow> group_membership \<Rightarrow> bool" where
  "is_membership g u m \<longleftrightarrow> gm_group m = g \<and> gm_user m = u"

definition get_user_role :: "db \<Rightarrow> pk \<Rightarrow> pk \<Rightarrow> group_role res" where
  "get_user_role d self user =
     (case find (is_membership self user) (db_memberships d) of
        None \<Rightarrow> Inl (ValueError ''is not a member of group'') | Some m \<Rightarrow> Inr (gm_role m))"

definition set_user_role :: "app_context \<Rightarrow> pk \<Rightarrow> pk \<Rightarrow> group_role \<Rightarrow> unit dbact" where
  "set_user_role cx self user role = with_db (\<lambda>d.
     case find (is_membership self user) (db_memberships d) of
       None \<Rightarrow> raise (ValueError ''is not a member of group'')
     | Some m \<Rightarrow>
         seq_act (modify_db (\<lambda>d. d\<lparr>db_memberships :=
             map (\<lambda>m. if is_membership self user m then m\<lparr>gm_role := role\<rparr> else m) (db_memberships d)\<rparr>))
           (add_audit_log cx self (MemberRoleChanged (username d user) role)))"

definition add_user :: "app_context \<Rightarrow> pk \<Rightarrow> pk \<Rightarrow> group_role \<Rightarrow> unit dbact" where
  "add_user cx self user role = with_db (\<lambda>d.
     case find (is_membership self user) (db_memberships d) of
       Some m \<Rightarrow> raise (ValueError ''is already a member of group'')
     | None \<Rightarrow>
         seq_act (modify_db (\<lambda>d. d\<lparr>db_memberships := db_memberships d
             @ [\<lparr>gm_group = self, gm_user = user, gm_role = role\<rparr>]\<rparr>))
           (add_audit_log cx self (MemberAdded (username d user) role)))"

definition remove_user :: "app_context \<Rightarrow> pk \<Rightarrow> pk \<Rightarrow> unit dbact" where
  "remove_user cx self user = with_db (\<lambda>d.
     case find (is_membership self user) (db_memberships d) of
       None \<Rightarrow> raise (ValueError ''is not a member of group'')
     | Some m \<Rightarrow>
         seq_act (modify_db (\<lambda>d. d\<lparr>db_memberships :=
             filter (\<lambda>m. \<not> is_membership self user m) (db_memberships d)\<rparr>))
           (add_audit_log cx self (MemberRemoved (username d user))))"

definition create_ephemeral :: "app_context \<Rightarrow> pk \<Rightarrow> string \<Rightarrow> pk \<Rightarrow> group_row dbact" where
  "create_ephemeral cx scope name owner =
     bind_act (save_group cx \<lparr>gp_id = 0, gp_name = name, gp_scope = scope, gp_ephemeral = True\<rparr>)
       (\<lambda>g. seq_act (add_user cx (gp_id g) owner GroupAdmin) (ret g))"

text \<open>\<open>scope_group.split("/", 1)\<close> unpacked into two names.\<close>

definition from_scoped_name :: "db \<Rightarrow> string \<Rightarrow> group_row res" where
  "from_scoped_name d scope_group =
     (if CHR ''/'' \<notin> set scope_group then Inl (ValueError ''not enough values to unpack'')
      else
        let scope_name = takeWhile (\<lambda>c. c \<noteq> CHR ''/'') scope_group;
            group_name = drop (Suc (length scope_name)) scope_group
        in case find (\<lambda>g. gp_name g = group_name
                 \<and> (case get_scope d (gp_scope g) of None \<Rightarrow> False | Some s \<Rightarrow> sc_name s = scope_name))
               (db_groups d) of
             None \<Rightarrow> Inl (DoesNotExist ''Group'') | Some g \<Rightarrow> Inr g)"

text \<open>Assigning a role on a scope or on a workspace, with \<open>get_or_create\<close>.\<close>

definition assign_scope_role :: "group_row \<Rightarrow> scope \<Rightarrow> scope_role \<Rightarrow> unit dbact" where
  "assign_scope_role self resource role =
     (if sc_id resource \<noteq> gp_scope self then raise (ValueError ''is not in scope'')
      else
        let a = \<lparr>sr_resource = sc_id resource, sr_group = gp_id self, sr_role = role\<rparr>
        in modify_db (\<lambda>d. if a \<in> set (db_scope_roles d) then d
                       else d\<lparr>db_scope_roles := db_scope_roles d @ [a]\<rparr>))"

definition assign_workspace_role :: "group_row \<Rightarrow> workspace \<Rightarrow> workspace_role \<Rightarrow> unit dbact" where
  "assign_workspace_role self resource role =
     (if ws_scope resource \<noteq> gp_scope self then raise (ValueError ''is not in scope'')
      else
        let a = \<lparr>wr_resource = ws_id resource, wr_group = gp_id self, wr_role = role\<rparr>
        in modify_db (\<lambda>d. if a \<in> set (db_workspace_roles d) then d
                       else d\<lparr>db_workspace_roles := db_workspace_roles d @ [a]\<rparr>))"

text \<open>The reverse relations of a group whose name ends in \<open>_roles\<close> are four.\<close>

definition has_roles :: "db \<Rightarrow> pk \<Rightarrow> bool" where
  "has_roles d g \<longleftrightarrow> list_ex (\<lambda>r. sr_group r = g) (db_scope_roles d)
     \<or> list_ex (\<lambda>r. wr_group r = g) (db_workspace_roles d)
     \<or> list_ex (\<lambda>r. ao_group r = g) (db_asset_roles d)
     \<or> list_ex (\<lambda>r. ao_group r = g) (db_asset_usage_roles d)"

definition unused_ephemeral :: "db \<Rightarrow> group_row list \<Rightarrow> group_row list" where
  "unused_ephemeral d self = filter (\<lambda>g. gp_ephemeral g \<and> \<not> has_roles d (gp_id g)) self"

section \<open>The check and the filter\<close>

lemma group_manages_eq_q:
  assumes "ctx_reachable d cx" and "cx_worker_token cx = None" and "distinct (map gp_id (db_groups d))"
    and "g \<in> set (db_groups d)" and "\<not> cx_permission_checks_disabled cx"
  shows "group_manages d cx g (AuthUser u) = Inr (group_q d u g)"
proof -
  have query: "group_can_manage_qs d cx (db_groups d) (AuthUser u)
      = Inr (filter (group_q d u) (db_groups d))"
    using assms(5) by (simp add: group_can_manage_qs_def permission_filter_def group_can_manage_body_def)
  have exists: "filter (\<lambda>h. gp_id h = gp_id g) (filter (group_q d u) (db_groups d)) \<noteq> [] \<longleftrightarrow> group_q d u g"
    by (rule filter_pk_exists [OF assms(3,4)])
  show ?thesis
  proof (cases "cx_user cx = AuthUser u \<and> cx_scope cx = Some (gp_scope g)")
    case True
    with ctx_reachable_ok [OF assms(1)] have "cx_scope_roles cx =
        Some (from_iterable scope_implies (scope_get_group_roles d (gp_scope g) (AuthUser u)))"
      by (auto simp: ctx_ok_def)
    then have cached: "context_scope_roles cx
        = Inr (from_iterable scope_implies (scope_get_group_roles d (gp_scope g) (AuthUser u)))"
      by (simp add: context_scope_roles_def)
    have owner: "from_iterable scope_implies (scope_get_group_roles d (gp_scope g) (AuthUser u))
        \<inter> {ScopeOwner} \<noteq> {} \<longleftrightarrow> has_scope_roles d u {ScopeOwner} (gp_scope g)"
      using scope_owner_reduced by (auto simp: has_scope_roles_iff)
    have "has_scope_roles d u {ScopeOwner} (gp_scope g) \<Longrightarrow> group_q d u g"
      by (simp add: group_q_def)
    then show ?thesis
      using True query exists owner cached
      by (simp add: group_manages_def del: filter_filter Int_insert_right)
  next
    case False
    then show ?thesis using query exists by (auto simp add: group_manages_def simp del: filter_filter)
  qed
qed

text \<open>
  C28: who may manage a group is the same whether one group is checked, with the
  shortcut through the roles cached in the context, or a query is filtered.
\<close>

theorem group_check_iff_filter:
  assumes "ctx_reachable d cx" and "cx_worker_token cx = None \<or> user = NoUser"
    and "distinct (map gp_id (db_groups d))" and "g \<in> set (db_groups d)"
  shows "group_can_manage d cx g user = Inr True \<longleftrightarrow>
    (\<exists>kept. group_can_manage_qs d cx (db_groups d) user = Inr kept \<and> g \<in> set kept)"
proof (cases user)
  case (AuthUser u)
  show ?thesis
  proof (cases "cx_permission_checks_disabled cx")
    case True
    then show ?thesis using assms(4)
      by (simp add: group_can_manage_def group_can_manage_qs_def permission_check_def permission_filter_def)
  next
    case False
    have token: "cx_worker_token cx = None" using assms(2) AuthUser by simp
    show ?thesis
      using group_manages_eq_q [OF assms(1) token assms(3,4) False, of u] False assms(4)
      by (auto simp: AuthUser group_can_manage_def group_can_manage_qs_def permission_check_def
          permission_filter_def group_can_manage_body_def)
  qed
qed (use assms(4) in \<open>simp_all add: group_can_manage_def group_can_manage_qs_def
    permission_check_def permission_filter_def\<close>)

section \<open>Members\<close>

definition members_unique :: "db \<Rightarrow> bool" where
  "members_unique d \<longleftrightarrow> distinct (map (\<lambda>m. (gm_group m, gm_user m)) (db_memberships d))"

lemma find_membership:
  assumes "members_unique d" and "m \<in> set (db_memberships d)"
  shows "find (is_membership (gm_group m) (gm_user m)) (db_memberships d) = Some m"
proof -
  obtain i where i: "i < length (db_memberships d)" "db_memberships d ! i = m"
    using assms(2) by (auto simp: in_set_conv_nth)
  have "\<not> is_membership (gm_group m) (gm_user m) (db_memberships d ! j)" if "j < i" for j
    using assms(1) i that nth_eq_iff_index_eq [of "map (\<lambda>m. (gm_group m, gm_user m)) (db_memberships d)" i j]
    by (auto simp: members_unique_def is_membership_def)
  then show ?thesis using i by (auto simp: find_Some_iff is_membership_def)
qed

lemma no_membership:
  "find (is_membership g u) ms = None \<longleftrightarrow> (\<forall>m\<in>set ms. \<not> is_membership g u m)"
  by (auto simp: find_None_iff)

definition logged :: "db \<Rightarrow> pk \<Rightarrow> pk \<Rightarrow> group_change \<Rightarrow> group_audit_log list" where
  "logged d g actor change = db_group_audit_log d @ [\<lparr>gl_group = g, gl_actor = actor, gl_changes = change\<rparr>]"

text \<open>
  For an authenticated user, adding someone to a group makes them a member
  with the role given, changing the role does, and removing them restores the
  members the group had; each step adds one entry to the log, by that user.
  Adding a member and changing or removing someone who is none are refused and
  change nothing.
\<close>

theorem membership_roundtrip:
  assumes "cx_user cx = AuthUser actor" and "\<forall>m\<in>set (db_memberships d). \<not> is_membership g u m"
  shows "\<exists>d1 d2 d3. add_user cx g u role d = (Inr (), d1) \<and> get_user_role d1 g u = Inr role
    \<and> db_group_audit_log d1 = logged d g actor (MemberAdded (username d u) role)
    \<and> set_user_role cx g u role' d1 = (Inr (), d2) \<and> get_user_role d2 g u = Inr role'
    \<and> db_group_audit_log d2 = logged d1 g actor (MemberRoleChanged (username d u) role')
    \<and> remove_user cx g u d2 = (Inr (), d3) \<and> db_memberships d3 = db_memberships d
    \<and> db_group_audit_log d3 = logged d2 g actor (MemberRemoved (username d u))
    \<and> fst (add_user cx g u role d1) = Inl (ValueError ''is already a member of group'')
    \<and> snd (add_user cx g u role d1) = d1
    \<and> set_user_role cx g u role' d = (Inl (ValueError ''is not a member of group''), d)
    \<and> remove_user cx g u d = (Inl (ValueError ''is not a member of group''), d)"
proof -
  let ?m = "\<lambda>r. \<lparr>gm_group = g, gm_user = u, gm_role = r\<rparr>"
  have log: "add_audit_log cx g change e = (Inr (), e\<lparr>db_group_audit_log := logged e g actor change\<rparr>)"
    for change e using assms(1) by (simp add: add_audit_log_def modify_db_def logged_def)
  have out: "filter (is_membership g u) (db_memberships d) = []" using assms(2) by simp
  have none: "find (is_membership g u) (db_memberships d) = None" using assms(2) by (simp add: no_membership)
  have found: "find (is_membership g u) (db_memberships d @ [?m r]) = Some (?m r)" for r
    by (rule find_last [OF out]) (simp add: is_membership_def)
  have changed: "map (\<lambda>m. if is_membership g u m then m\<lparr>gm_role := role'\<rparr> else m)
      (db_memberships d @ [?m role]) = db_memberships d @ [?m role']"
    using assms(2) by (auto simp: is_membership_def intro!: map_idI)
  have gone: "filter (\<lambda>m. \<not> is_membership g u m) (db_memberships d @ [?m r]) = db_memberships d" for r
    using assms(2) by (simp add: is_membership_def)
  let ?d1 = "d\<lparr>db_memberships := db_memberships d @ [?m role],
    db_group_audit_log := logged d g actor (MemberAdded (username d u) role)\<rparr>"
  let ?d2 = "?d1\<lparr>db_memberships := db_memberships d @ [?m role'],
    db_group_audit_log := logged ?d1 g actor (MemberRoleChanged (username d u) role')\<rparr>"
  let ?d3 = "?d2\<lparr>db_memberships := db_memberships d,
    db_group_audit_log := logged ?d2 g actor (MemberRemoved (username d u))\<rparr>"
  have 1: "add_user cx g u role d = (Inr (), ?d1)"
    using none log by (simp add: add_user_def act_defs logged_def)
  have 2: "set_user_role cx g u role' ?d1 = (Inr (), ?d2)"
    using found changed log by (simp add: set_user_role_def act_defs logged_def username_def)
  have 3: "remove_user cx g u ?d2 = (Inr (), ?d3)"
    using found gone log by (simp add: remove_user_def act_defs logged_def username_def)
  have roles: "get_user_role ?d1 g u = Inr role" "get_user_role ?d2 g u = Inr role'"
    using found by (simp_all add: get_user_role_def)
  have again: "add_user cx g u role ?d1 = (Inl (ValueError ''is already a member of group''), ?d1)"
    using found by (simp add: add_user_def with_db_def raise_def)
  have refused: "set_user_role cx g u role' d = (Inl (ValueError ''is not a member of group''), d)"
    "remove_user cx g u d = (Inl (ValueError ''is not a member of group''), d)"
    using none by (simp_all add: set_user_role_def remove_user_def with_db_def raise_def)
  show ?thesis
  proof (intro exI conjI)
    show "add_user cx g u role d = (Inr (), ?d1)" by (rule 1)
    show "get_user_role ?d1 g u = Inr role" by (rule roles(1))
    show "db_group_audit_log ?d1 = logged d g actor (MemberAdded (username d u) role)" by simp
    show "set_user_role cx g u role' ?d1 = (Inr (), ?d2)" by (rule 2)
    show "get_user_role ?d2 g u = Inr role'" by (rule roles(2))
    show "db_group_audit_log ?d2 = logged ?d1 g actor (MemberRoleChanged (username d u) role')"
      by (simp add: logged_def)
    show "remove_user cx g u ?d2 = (Inr (), ?d3)" by (rule 3)
    show "db_memberships ?d3 = db_memberships d" by simp
    show "db_group_audit_log ?d3 = logged ?d2 g actor (MemberRemoved (username d u))"
      by (simp add: logged_def)
  qed (use again refused in simp_all)
qed

text \<open>
  Without a user in the context (and with permission checks on), the log cannot
  be written: the three operations raise, but only after they have changed the
  members of the group.
\<close>

theorem unlogged_changes_stay:
  assumes "\<not> is_authenticated (cx_user cx)" and "\<not> cx_permission_checks_disabled cx"
    and "\<forall>m\<in>set (db_memberships d). \<not> is_membership g u m"
  shows "\<exists>e d1. add_user cx g u role d = (Inl (ContextConsistencyError e), d1)
    \<and> get_user_role d1 g u = Inr role
    \<and> (\<exists>d2. remove_user cx g u d1 = (Inl (ContextConsistencyError e), d2)
         \<and> db_memberships d2 = db_memberships d)"
proof -
  let ?m = "\<lparr>gm_group = g, gm_user = u, gm_role = role\<rparr>"
  let ?d1 = "d\<lparr>db_memberships := db_memberships d @ [?m]\<rparr>"
  have log: "add_audit_log cx g change e
      = (Inl (ContextConsistencyError ''add_audit_log requires a valid user''), e)" for change e
    using assms(1,2) by (cases "cx_user cx") (simp_all add: add_audit_log_def raise_def)
  have none: "find (is_membership g u) (db_memberships d) = None"
    and out: "filter (is_membership g u) (db_memberships d) = []"
    using assms(3) by (simp_all add: no_membership)
  have found: "find (is_membership g u) (db_memberships d @ [?m]) = Some ?m"
    by (rule find_last [OF out]) (simp add: is_membership_def)
  have gone: "filter (\<lambda>m. \<not> is_membership g u m) (db_memberships d @ [?m]) = db_memberships d"
    using assms(3) by (simp add: is_membership_def)
  show ?thesis
    using none found gone
    by (simp add: add_user_def remove_user_def act_defs log get_user_role_def)
qed

section \<open>Examples\<close>

definition example_groups :: db where
  "example_groups = example_db\<lparr>db_groups := [\<lparr>gp_id = 3, gp_name = ''team'', gp_scope = 1,
     gp_ephemeral = False\<rparr>]\<rparr>"

theorem group_check_iff_filter_witness:
  "group_can_manage example_groups initial_context \<lparr>gp_id = 3, gp_name = ''team'', gp_scope = 1,
       gp_ephemeral = False\<rparr> (AuthUser 7) = Inr True \<longleftrightarrow>
    (\<exists>kept. group_can_manage_qs example_groups initial_context (db_groups example_groups) (AuthUser 7)
       = Inr kept \<and> \<lparr>gp_id = 3, gp_name = ''team'', gp_scope = 1, gp_ephemeral = False\<rparr> \<in> set kept)"
  by (rule group_check_iff_filter [OF ctx_reachable.initial])
    (simp_all add: initial_context_def example_groups_def)

theorem membership_roundtrip_witness:
  "\<exists>d1 d2 d3. add_user example_ctx 3 8 GroupMember example_db = (Inr (), d1)
    \<and> set_user_role example_ctx 3 8 GroupAdmin d1 = (Inr (), d2)
    \<and> remove_user example_ctx 3 8 d2 = (Inr (), d3)
    \<and> db_memberships d3 = db_memberships example_db"
proof -
  have "cx_user example_ctx = AuthUser 7" "\<forall>m\<in>set (db_memberships example_db). \<not> is_membership 3 8 m"
    by (simp_all add: example_simps is_membership_def)
  from membership_roundtrip [OF this, of GroupMember GroupAdmin] show ?thesis by blast
qed

theorem unlogged_changes_stay_witness:
  "\<exists>e d1. add_user initial_context 3 8 GroupMember example_db = (Inl (ContextConsistencyError e), d1)
    \<and> get_user_role d1 3 8 = Inr GroupMember"
proof -
  have "\<not> is_authenticated (cx_user initial_context)"
    "\<not> cx_permission_checks_disabled initial_context"
    "\<forall>m\<in>set (db_memberships example_db). \<not> is_membership 3 8 m"
    by (simp_all add: example_simps is_membership_def)
  from unlogged_changes_stay [OF this, of GroupMember] show ?thesis by blast
qed

end
