(* ===== verification/TaskConfig.thy ===== *)
theory TaskConfig
  imports Lifecycle
begin

text \<open>
  Task configuration: the entries of a debusine:task-configuration collection
  (DebusineTaskConfiguration in debusine/artifacts/models.py), how they are looked up
  and combined, and how the result is applied to the data of a task
  (debusine/server/collections/debusine_task_configuration.py).
\<close>

section \<open>Entries\<close>

record task_configuration =
  tc_task_type :: "task_type option"
  tc_task_name :: "string option"
  tc_subject :: "string option"
  tc_context :: "string option"
  tc_template :: "string option"
  tc_use_templates :: "string list"
  tc_delete_values :: "string list"
  tc_default_values :: "(string \<times> json) list"
  tc_override_values :: "(string \<times> json) list"
  tc_lock_values :: "string list"
  tc_comment :: string

definition no_colons :: "string option \<Rightarrow> bool" where
  "no_colons value \<longleftrightarrow> (case value of None \<Rightarrow> True | Some v \<Rightarrow> CHR '':'' \<notin> set v)"

text \<open>Python's truth of an optional string.\<close>

definition truthy :: "string option \<Rightarrow> bool" where
  "truthy value \<longleftrightarrow> (case value of None \<Rightarrow> False | Some v \<Rightarrow> v \<noteq> [])"

definition template_or_task_match :: "task_configuration \<Rightarrow> bool" where
  "template_or_task_match c \<longleftrightarrow>
     (if truthy (tc_template c)
      then tc_task_type c = None \<and> \<not> truthy (tc_task_name c) \<and> \<not> truthy (tc_subject c)
           \<and> \<not> truthy (tc_context c)
      else tc_task_type c \<noteq> None \<and> truthy (tc_task_name c))"

text \<open>
  \<open>DebusineTaskConfiguration(**data)\<close>: pydantic converts the fields (the parameter,
  \<open>None\<close> when it cannot), then the validators run; what they raise is a \<open>ValueError\<close>.
\<close>

type_synonym coercion = "(string \<times> json) list \<Rightarrow> task_configuration option"

definition task_configuration_of :: "coercion \<Rightarrow> (string \<times> json) list \<Rightarrow> task_configuration res" where
  "task_configuration_of coerce d =
     (case coerce d of
        None \<Rightarrow> Inl (ValueError ''validation error'')
      | Some c \<Rightarrow>
          if no_colons (tc_task_name c) \<and> no_colons (tc_subject c) \<and> no_colons (tc_template c)
             \<and> template_or_task_match c
          then Inr c else Inl (ValueError ''validation error''))"

text \<open>
  \<open>urllib.parse.quote\<close> on the bytes of a string: letters, digits and \<open>_.-~/\<close> stay,
  any other byte becomes \<open>%\<close> and two upper-case hexadecimal digits.
\<close>

definition upper_digit :: "nat \<Rightarrow> char" where
  "upper_digit n = char_of (if n < 10 then 48 + n else 55 + n)"

definition quote_char :: "char \<Rightarrow> string" where
  "quote_char c =
     (if is_ascii_alpha c \<or> is_ascii_digit c \<or> c \<in> set ''_.-~/'' then [c]
      else [CHR ''%'', upper_digit (of_char c div 16), upper_digit (of_char c mod 16)])"

definition quote :: "string \<Rightarrow> string" where
  "quote s = concat (map quote_char s)"

definition quote_context :: "string option \<Rightarrow> string" where
  "quote_context value = (case value of None \<Rightarrow> [] | Some v \<Rightarrow> quote v)"

definition lookup_name :: "string \<Rightarrow> string \<Rightarrow> string \<Rightarrow> string \<Rightarrow> string" where
  "lookup_name type_part name_part subject_part context_part =
     type_part @ '':'' @ name_part @ '':'' @ subject_part @ '':'' @ context_part"

definition str_or_None :: "string option \<Rightarrow> string" where
  "str_or_None value = (case value of None \<Rightarrow> ''None'' | Some v \<Rightarrow> v)"

definition str_or_empty :: "string option \<Rightarrow> string" where
  "str_or_empty value = (case value of None \<Rightarrow> [] | Some v \<Rightarrow> v)"

definition config_name :: "task_configuration \<Rightarrow> string" where
  "config_name c =
     (case tc_template c of
        Some t \<Rightarrow> ''template:'' @ t
      | None \<Rightarrow> lookup_name (str_or_None (map_option task_type_value (tc_task_type c)))
                  (str_or_None (tc_task_name c)) (str_or_empty (tc_subject c))
                  (quote_context (tc_context c)))"

definition get_lookup_names ::
  "task_type \<Rightarrow> string \<Rightarrow> string option \<Rightarrow> string option \<Rightarrow> string list" where
  "get_lookup_names type_of_task name_of_task subject ctxt =
     (let t = task_type_value type_of_task;
          context_encoded = quote_context ctxt
      in [lookup_name t name_of_task [] []]
         @ (if context_encoded \<noteq> [] then [lookup_name t name_of_task [] context_encoded] else [])
         @ (if truthy subject then [lookup_name t name_of_task (str_or_empty subject) []] else [])
         @ (if truthy subject \<and> context_encoded \<noteq> []
            then [lookup_name t name_of_task (str_or_empty subject) context_encoded] else []))"

section \<open>Looking entries up\<close>

definition items_named :: "db \<Rightarrow> pk \<Rightarrow> string \<Rightarrow> collection_item list" where
  "items_named d config_collection name =
     filter (\<lambda>i. ci_parent_collection i = config_collection \<and> ci_name i = name
                 \<and> ci_child_type i = BARE) (db_items d)"

definition lookup_config_by_name ::
  "coercion \<Rightarrow> db \<Rightarrow> pk \<Rightarrow> string \<Rightarrow> task_configuration option res" where
  "lookup_config_by_name coerce d config_collection name =
     (case items_named d config_collection name of
        [] \<Rightarrow> Inr None
      | [item] \<Rightarrow>
          (case task_configuration_of coerce (ci_data item) of
             Inl (ValueError e) \<Rightarrow>
               Inl (TaskConfigError ''debusine:task-configuration item does not validate'')
           | Inl e \<Rightarrow> Inl e
           | Inr c \<Rightarrow> Inr (Some c))
      | _ \<Rightarrow> Inl (MultipleObjectsReturned ''CollectionItem''))"

text \<open>
  The names a stack can hold are those of the templates of the collection, and no
  name occurs twice on it: the recursion ends.
\<close>

definition template_names :: "db \<Rightarrow> pk \<Rightarrow> string set" where
  "template_names d config_collection =
     {t. \<exists>i\<in>set (db_items d). ci_parent_collection i = config_collection
                               \<and> ci_name i = ''template:'' @ t}"

lemma finite_template_names [simp]: "finite (template_names d col)"
proof (rule finite_subset)
  show "template_names d col \<subseteq> (\<lambda>i. drop 9 (ci_name i)) ` set (db_items d)"
    by (force simp: template_names_def)
qed simp

lemma lookup_found:
  "lookup_config_by_name coerce d col (''template:'' @ t) = Inr (Some c) \<Longrightarrow> t \<in> template_names d col"
  unfolding lookup_config_by_name_def items_named_def template_names_def
  by (auto split: list.splits sum.splits exn.splits dest!: filter_eq_ConsD)

function lookup_templates ::
  "coercion \<Rightarrow> db \<Rightarrow> pk \<Rightarrow> string list \<Rightarrow> string list \<Rightarrow> task_configuration list res" where
  "lookup_templates coerce d config_collection [] stack = Inr []"
| "lookup_templates coerce d config_collection (name # names) stack =
     (if name \<in> set stack then Inl (TaskConfigError ''template lookup cycle detected'')
      else
        case lookup_config_by_name coerce d config_collection (''template:'' @ name) of
          Inl e \<Rightarrow> Inl e
        | Inr None \<Rightarrow> Inl (TaskConfigError ''references missing template'')
        | Inr (Some template_entry) \<Rightarrow>
            bind_res (if tc_use_templates template_entry \<noteq> []
                      then lookup_templates coerce d config_collection
                             (tc_use_templates template_entry) (stack @ [name])
                      else Inr [])
              (\<lambda>below. bind_res (lookup_templates coerce d config_collection names stack)
                (\<lambda>others. Inr (below @ [template_entry] @ others))))"
  by pat_completeness auto

termination
proof (relation "inv_image (less_than <*lex*> less_than)
    (\<lambda>(coerce, d, col, names, stack). (card (template_names d col - set stack), length names))")
  fix coerce d col name names stack x c
  assume "name \<notin> set stack"
    and "lookup_config_by_name coerce d col (''template:'' @ name) = Inr x" and "x = Some c"
  then have "name \<in> template_names d col - set stack" using lookup_found by blast
  then have "card (template_names d col - set (stack @ [name])) < card (template_names d col - set stack)"
    by (intro psubset_card_mono) auto
  then show "((coerce, d, col, tc_use_templates c, stack @ [name]), (coerce, d, col, name # names, stack))
      \<in> inv_image (less_than <*lex*> less_than)
        (\<lambda>(coerce, d, col, names, stack). (card (template_names d col - set stack), length names))"
    by simp
qed auto

definition list_configuration :: "coercion \<Rightarrow> db \<Rightarrow> pk \<Rightarrow> string \<Rightarrow> task_configuration list res" where
  "list_configuration coerce d config_collection name =
     (case lookup_config_by_name coerce d config_collection name of
        Inl e \<Rightarrow> Inl e
      | Inr None \<Rightarrow> Inr []
      | Inr (Some entry) \<Rightarrow>
          bind_res (lookup_templates coerce d config_collection (tc_use_templates entry) [])
            (\<lambda>templates. Inr (entry # templates)))"

primrec chain_configuration ::
  "coercion \<Rightarrow> db \<Rightarrow> pk \<Rightarrow> string list \<Rightarrow> task_configuration list res" where
  "chain_configuration coerce d config_collection [] = Inr []"
| "chain_configuration coerce d config_collection (name # names) =
     bind_res (list_configuration coerce d config_collection name) (\<lambda>items.
       bind_res (chain_configuration coerce d config_collection names)
         (\<lambda>others. Inr (items @ others)))"

section \<open>Combining and applying entries\<close>

type_synonym task_values = "(string \<times> json) list"

definition dict_pop :: "string \<Rightarrow> task_values \<Rightarrow> task_values" where
  "dict_pop key vs = filter (\<lambda>p. fst p \<noteq> key) vs"

definition drop_deleted :: "string list \<Rightarrow> string set \<Rightarrow> task_values \<Rightarrow> task_values" where
  "drop_deleted keys locked vs =
     fold (\<lambda>key vs. if key \<in> locked then vs else dict_pop key vs) keys vs"

definition merge_unlocked :: "task_values \<Rightarrow> string set \<Rightarrow> task_values \<Rightarrow> task_values" where
  "merge_unlocked new locked vs =
     fold (\<lambda>(key, value) vs. if key \<in> locked then vs else dict_set key value vs) new vs"

definition add_config_item ::
  "task_configuration \<Rightarrow> task_values \<times> task_values \<times> string set \<Rightarrow> task_values \<times> task_values \<times> string set" where
  "add_config_item item = (\<lambda>(defaults, overrides, locked).
     (merge_unlocked (tc_default_values item) locked (drop_deleted (tc_delete_values item) locked defaults),
      merge_unlocked (tc_override_values item) locked
        (drop_deleted (tc_delete_values item) locked overrides),
      locked \<union> set (tc_lock_values item)))"

definition build_configuration :: "task_configuration list \<Rightarrow> task_values \<times> task_values" where
  "build_configuration items =
     (case fold add_config_item items ([], [], {}) of
        (defaults, overrides, locked) \<Rightarrow> (defaults, overrides))"

text \<open>\<open>task_data.get(k) is None\<close>: the key is missing or its value is \<open>None\<close>.\<close>

definition is_unset :: "task_values \<Rightarrow> string \<Rightarrow> bool" where
  "is_unset task_data k \<longleftrightarrow> map_of task_data k \<in> {None, Some JNull}"

definition apply_defaults :: "task_values \<Rightarrow> task_values \<Rightarrow> task_values" where
  "apply_defaults defaults task_data =
     fold (\<lambda>(k, v) task_data. if is_unset task_data k then dict_set k v task_data else task_data)
       defaults task_data"

definition apply_configuration ::
  "coercion \<Rightarrow> db \<Rightarrow> task_values \<Rightarrow> pk \<Rightarrow> task_type \<Rightarrow> string \<Rightarrow> string option \<Rightarrow> string option \<Rightarrow>
     task_values res" where
  "apply_configuration coerce d task_data config_collection type_of_task name_of_task subject ctxt =
     bind_res (chain_configuration coerce d config_collection
                 (get_lookup_names type_of_task name_of_task subject ctxt))
       (\<lambda>items. case build_configuration items of
          (defaults, overrides) \<Rightarrow> Inr (dict_update (apply_defaults defaults task_data) overrides))"

section \<open>Which levels apply\<close>

lemma upper_digit_code:
  assumes "n < 16"
  shows "(of_char (upper_digit n) :: nat) = (if n < 10 then 48 + n else 55 + n)"
proof -
  have "(if n < 10 then 48 + n else 55 + n) mod 256 = (if n < 10 then 48 + n else 55 + n)"
    using assms by (intro mod_less) simp
  then show ?thesis unfolding upper_digit_def of_char_of .
qed

lemma upper_digit_inj: "m < 16 \<Longrightarrow> n < 16 \<Longrightarrow> upper_digit m = upper_digit n \<Longrightarrow> m = n"
proof -
  assume "m < 16" "n < 16" "upper_digit m = upper_digit n"
  then have "(if m < 10 then 48 + m else 55 + m) = (if n < 10 then 48 + n else 55 + n)"
    using upper_digit_code [of m] upper_digit_code [of n] by metis
  with \<open>m < 16\<close> \<open>n < 16\<close> show "m = n" by (cases "m < 10"; cases "n < 10") simp_all
qed

lemma upper_digit_no_colon: "n < 16 \<Longrightarrow> upper_digit n \<noteq> CHR '':''"
proof
  assume "n < 16" "upper_digit n = CHR '':''"
  then have "(if n < 10 then 48 + n else 55 + n) = 58" using upper_digit_code [of n] by force
  with \<open>n < 16\<close> show False by (simp split: if_splits)
qed

lemma kept_char: "quote_char c = [c] \<Longrightarrow> c \<noteq> CHR ''%''"
  by (auto simp: quote_char_def is_ascii_alpha_def is_ascii_digit_def)

lemma quote_char_not_Nil: "quote_char c \<noteq> []"
  by (simp add: quote_char_def)

lemma colon_quoted: "quote_char CHR '':'' = ''%3A''"
  by code_simp

lemma quote_char_no_colon: "CHR '':'' \<notin> set (quote_char c)"
  using upper_digit_no_colon [OF byte_digits(1) [of c]] upper_digit_no_colon [OF byte_digits(2) [of c]]
  by (auto simp: quote_char_def is_ascii_alpha_def is_ascii_digit_def)

lemma quote_no_colon: "CHR '':'' \<notin> set (quote s)"
  using quote_char_no_colon by (auto simp: quote_def)

lemma quote_char_cases:
  obtains "quote_char c = [c]" "c \<noteq> CHR ''%''"
  | "quote_char c = [CHR ''%'', upper_digit (of_char c div 16), upper_digit (of_char c mod 16)]"
  using kept_char [of c] by (cases "quote_char c = [c]") (auto simp: quote_char_def split: if_splits)

lemma quote_simps [simp]: "quote [] = []" "quote (c # s) = quote_char c @ quote s"
  by (simp_all add: quote_def)

lemma quote_eq_Nil [simp]: "quote s = [] \<longleftrightarrow> s = []"
  using quote_char_not_Nil by (cases s) simp_all

lemma Nil_eq_quote [simp]: "[] = quote s \<longleftrightarrow> s = []"
  using quote_eq_Nil [of s] by metis

lemma quote_inj: "quote s = quote t \<Longrightarrow> s = t"
proof (induction s arbitrary: t)
  case Nil
  then show ?case using quote_char_not_Nil by (cases t) auto
next
  case (Cons c s)
  then obtain c' t' where t: "t = c' # t'" using quote_char_not_Nil by (cases t) auto
  have "c = c' \<and> quote s = quote t'"
  proof (rule quote_char_cases [of c]; rule quote_char_cases [of c'])
    assume q: "quote_char c = [CHR ''%'', upper_digit (of_char c div 16), upper_digit (of_char c mod 16)]"
      "quote_char c' = [CHR ''%'', upper_digit (of_char c' div 16), upper_digit (of_char c' mod 16)]"
    with Cons.prems t have eq: "upper_digit (of_char c div 16) = upper_digit (of_char c' div 16)"
      "upper_digit (of_char c mod 16) = upper_digit (of_char c' mod 16)" "quote s = quote t'" by simp_all
    have "(of_char c :: nat) div 16 = of_char c' div 16" "(of_char c :: nat) mod 16 = of_char c' mod 16"
      using upper_digit_inj [OF byte_digits(1) byte_digits(1) eq(1)]
        upper_digit_inj [OF byte_digits(2) byte_digits(2) eq(2)] by simp_all
    then have "(of_char c :: nat) = of_char c'" by (metis div_mult_mod_eq)
    with eq(3) show ?thesis by simp
  qed (use Cons.prems t in auto)
  with Cons.IH t show ?case by simp
qed

lemma at_colon:
  assumes "CHR '':'' \<notin> set a" and "CHR '':'' \<notin> set a'"
  shows "a @ '':'' @ b = a' @ '':'' @ b' \<longleftrightarrow> a = a' \<and> b = b'"
  using assms by (auto simp: append_eq_append_conv2 Cons_eq_append_conv append_eq_Cons_conv)

lemma at_last_colon:
  assumes "CHR '':'' \<notin> set b" and "CHR '':'' \<notin> set b'"
  shows "a @ '':'' @ b = a' @ '':'' @ b' \<longleftrightarrow> a = a' \<and> b = b'"
  using assms by (auto simp: append_eq_append_conv2 Cons_eq_append_conv append_eq_Cons_conv)

lemma task_type_value_no_colon: "CHR '':'' \<notin> set (task_type_value t)"
  by (cases t) (simp_all add: task_type_value_def)

lemma task_type_value_inj: "task_type_value t = task_type_value t' \<longleftrightarrow> t = t'"
  by (cases t; cases t') (simp_all add: task_type_value_def)

text \<open>Only the fields of the entry need to be free of colons: others never match.\<close>

lemma lookup_name_eq:
  assumes "CHR '':'' \<notin> set b" and "CHR '':'' \<notin> set c"
  shows "lookup_name (task_type_value t) b c (quote_context x)
      = lookup_name (task_type_value t') b' c' (quote_context x')
    \<longleftrightarrow> t = t' \<and> b = b' \<and> c = c' \<and> str_or_empty x = str_or_empty x'"
    (is "?l = ?r \<longleftrightarrow> _")
proof
  assume eq: "?l = ?r"
  have q: "CHR '':'' \<notin> set (quote_context y)" for y
    using quote_no_colon by (auto simp: quote_context_def split: option.splits)
  from eq have t: "t = t'" and rest: "b @ '':'' @ c @ '':'' @ quote_context x
      = b' @ '':'' @ c' @ '':'' @ quote_context x'"
    unfolding lookup_name_def at_colon [OF task_type_value_no_colon task_type_value_no_colon]
    by (simp_all add: task_type_value_inj)
  from rest have "(b @ '':'' @ c) @ '':'' @ quote_context x = (b' @ '':'' @ c') @ '':'' @ quote_context x'"
    by simp
  then have two: "b @ '':'' @ c = b' @ '':'' @ c'" and x: "quote_context x = quote_context x'"
    unfolding at_last_colon [OF q q] by simp_all
  have "count_list (b @ '':'' @ c) CHR '':'' = count_list (b' @ '':'' @ c') CHR '':''" using two by simp
  with assms have "CHR '':'' \<notin> set b'" by (auto simp: count_list_append count_list_0_iff)
  with two assms(1) have bc: "b = b'" "c = c'" using at_colon by blast+
  have "str_or_empty x = str_or_empty x'"
    using x by (auto simp: quote_context_def str_or_empty_def split: option.splits
        dest: quote_inj)
  with t bc show "t = t' \<and> b = b' \<and> c = c' \<and> str_or_empty x = str_or_empty x'" by simp
next
  have "quote_context y = quote (str_or_empty y)" for y
    by (simp add: quote_context_def str_or_empty_def split: option.splits)
  then show "t = t' \<and> b = b' \<and> c = c' \<and> str_or_empty x = str_or_empty x' \<Longrightarrow> ?l = ?r" by simp
qed

text \<open>
  An entry for tasks is among those looked up for a task exactly when it is for
  the type and the name of the task, its subject is unset or the subject of the
  task, and its context is unset or the configuration context of the task.
\<close>

theorem looked_up_iff_matches:
  assumes "task_configuration_of coerce data = Inr c" and "tc_template c = None"
  shows "config_name c \<in> set (get_lookup_names t n subject ctxt) \<longleftrightarrow>
    tc_task_type c = Some t \<and> tc_task_name c = Some n
    \<and> (truthy (tc_subject c) \<longrightarrow> tc_subject c = subject)
    \<and> (truthy (tc_context c) \<longrightarrow> tc_context c = ctxt)"
proof -
  obtain t' b where c: "tc_task_type c = Some t'" "tc_task_name c = Some b" "CHR '':'' \<notin> set b"
    "CHR '':'' \<notin> set (str_or_empty (tc_subject c))"
    using assms by (auto simp: task_configuration_of_def template_or_task_match_def truthy_def
        no_colons_def str_or_empty_def split: option.splits if_splits)
  have name: "config_name c = lookup_name (task_type_value t') b (str_or_empty (tc_subject c))
      (quote_context (tc_context c))"
    using c assms(2) by (simp add: config_name_def str_or_None_def)
  note eq = lookup_name_eq [OF c(3,4), of t' "tc_context c" t n]
  have levels: "name \<in> set (get_lookup_names t n subject ctxt) \<longleftrightarrow>
      (\<exists>s\<in>{None, subject}. \<exists>x\<in>{None, ctxt}.
         name = lookup_name (task_type_value t) n (str_or_empty s) (quote_context x))" for name
    by (auto simp: get_lookup_names_def Let_def quote_context_def truthy_def str_or_empty_def
        split: option.splits)
  show ?thesis
    unfolding levels name eq using c(1,2)
    by (auto simp: str_or_empty_def truthy_def split: option.splits)
qed

section \<open>The value a configuration gives to a key\<close>

text \<open>
  The reference: the levels up to the first that locks the key, in order; each one
  sets the key, deletes it, or leaves it.
\<close>

primrec until_locked :: "string \<Rightarrow> task_configuration list \<Rightarrow> task_configuration list" where
  "until_locked k [] = []"
| "until_locked k (c # cs) = c # (if k \<in> set (tc_lock_values c) then [] else until_locked k cs)"

definition level_value ::
  "(task_configuration \<Rightarrow> task_values) \<Rightarrow> string \<Rightarrow> task_configuration \<Rightarrow> json option \<Rightarrow> json option" where
  "level_value field k c previous =
     (case map_of (field c) k of
        Some v \<Rightarrow> Some v
      | None \<Rightarrow> if k \<in> set (tc_delete_values c) then None else previous)"

definition effective_value ::
  "(task_configuration \<Rightarrow> task_values) \<Rightarrow> string \<Rightarrow> task_configuration list \<Rightarrow> json option" where
  "effective_value field k items = fold (level_value field k) (until_locked k items) None"

definition unique_keys :: "task_configuration \<Rightarrow> bool" where
  "unique_keys c \<longleftrightarrow> distinct (map fst (tc_default_values c)) \<and> distinct (map fst (tc_override_values c))"

lemma map_of_dict_pop [simp]: "map_of (dict_pop key vs) k = (if k = key then None else map_of vs k)"
  by (induction vs) (auto simp: dict_pop_def)

lemma map_of_drop_deleted [simp]:
  "map_of (drop_deleted keys locked vs) k =
     (if k \<notin> locked \<and> k \<in> set keys then None else map_of vs k)"
  by (induction keys arbitrary: vs) (auto simp: drop_deleted_def)

lemma map_of_merge_unlocked [simp]:
  assumes "distinct (map fst new)"
  shows "map_of (merge_unlocked new locked vs) k =
     (if k \<in> locked then map_of vs k else case map_of new k of Some v \<Rightarrow> Some v | None \<Rightarrow> map_of vs k)"
  using assms
proof (induction new arbitrary: vs)
  case (Cons p new)
  obtain key v where p: "p = (key, v)" by fastforce
  have "map_of new key = None" using Cons.prems p by (simp add: map_of_eq_None_iff)
  then show ?case using Cons p by (auto simp: merge_unlocked_def split: option.splits)
qed (simp add: merge_unlocked_def)

lemma distinct_drop_deleted:
  "distinct (map fst vs) \<Longrightarrow> distinct (map fst (drop_deleted keys locked vs))"
proof (induction keys arbitrary: vs)
  case (Cons key keys)
  have "distinct (map fst (dict_pop key vs))" using Cons.prems by (simp add: dict_pop_def distinct_map_filter)
  then show ?case using Cons by (simp add: drop_deleted_def)
qed (simp add: drop_deleted_def)

lemma distinct_merge_unlocked:
  "distinct (map fst vs) \<Longrightarrow> distinct (map fst (merge_unlocked new locked vs))"
  by (induction new arbitrary: vs) (auto simp: merge_unlocked_def distinct_dict_set)

text \<open>One of the two dictionaries, built alone.\<close>

definition add_level ::
  "(task_configuration \<Rightarrow> task_values) \<Rightarrow> task_configuration \<Rightarrow> task_values \<times> string set \<Rightarrow>
     task_values \<times> string set" where
  "add_level field c = (\<lambda>(vs, locked).
     (merge_unlocked (field c) locked (drop_deleted (tc_delete_values c) locked vs),
      locked \<union> set (tc_lock_values c)))"

lemma build_components:
  "build_configuration items =
     (fst (fold (add_level tc_default_values) items ([], {})),
      fst (fold (add_level tc_override_values) items ([], {})))"
proof -
  have "fold add_config_item items (vs, ws, locked) =
      (fst (fold (add_level tc_default_values) items (vs, locked)),
       fst (fold (add_level tc_override_values) items (ws, locked)),
       locked \<union> (\<Union>c\<in>set items. set (tc_lock_values c)))" for vs ws locked
    by (induction items arbitrary: vs ws locked) (auto simp: add_config_item_def add_level_def)
  then show ?thesis by (simp add: build_configuration_def)
qed

lemma add_levels_value:
  assumes "\<forall>c\<in>set items. distinct (map fst (field c))"
  shows "map_of (fst (fold (add_level field) items (vs, locked))) k =
    (if k \<in> locked then map_of vs k
     else fold (level_value field k) (until_locked k items) (map_of vs k))"
  using assms
proof (induction items arbitrary: vs locked)
  case (Cons c items)
  let ?vs = "merge_unlocked (field c) locked (drop_deleted (tc_delete_values c) locked vs)"
  have level: "add_level field c (vs, locked) = (?vs, locked \<union> set (tc_lock_values c))"
    by (simp add: add_level_def)
  have kept: "map_of ?vs k = (if k \<in> locked then map_of vs k else level_value field k c (map_of vs k))"
    using Cons.prems by (simp add: level_value_def split: option.split)
  show ?case using Cons.IH [of ?vs "locked \<union> set (tc_lock_values c)"] Cons.prems
    by (simp add: level kept)
qed simp

lemma add_levels_distinct:
  "distinct (map fst vs) \<Longrightarrow> distinct (map fst (fst (fold (add_level field) items (vs, locked))))"
proof (induction items arbitrary: vs locked)
  case (Cons c items)
  then show ?case by (simp add: add_level_def distinct_drop_deleted distinct_merge_unlocked)
qed simp

lemma map_of_apply_defaults:
  assumes "distinct (map fst defaults)"
  shows "map_of (apply_defaults defaults task_data) k =
    (if is_unset task_data k
     then (case map_of defaults k of Some v \<Rightarrow> Some v | None \<Rightarrow> map_of task_data k)
     else map_of task_data k)"
  using assms
proof (induction defaults arbitrary: task_data)
  case (Cons p defaults)
  obtain key v where p: "p = (key, v)" by fastforce
  have "map_of defaults key = None" using Cons.prems p by (simp add: map_of_eq_None_iff)
  then show ?case using Cons p
    by (auto simp: apply_defaults_def is_unset_def split: option.splits)
qed (simp add: apply_defaults_def)

text \<open>
  C29: when the entries for a task can be looked up, applying them ends in task data
  whose value for every key is the override of the levels up to the first that
  locks the key, if they have one; otherwise the value the task had, or where it
  had none (or \<open>None\<close>) the default of those levels.
\<close>

theorem apply_configuration_value:
  assumes "chain_configuration coerce d col (get_lookup_names t n subject ctxt) = Inr items"
    and "\<forall>c\<in>set items. unique_keys c"
  shows "\<exists>configured. apply_configuration coerce d task_data col t n subject ctxt = Inr configured
    \<and> (\<forall>k. map_of configured k =
         (case effective_value tc_override_values k items of
            Some v \<Rightarrow> Some v
          | None \<Rightarrow> case map_of task_data k of
              Some v \<Rightarrow> if v = JNull then
                  (case effective_value tc_default_values k items of Some v' \<Rightarrow> Some v' | None \<Rightarrow> Some v)
                else Some v
            | None \<Rightarrow> effective_value tc_default_values k items))"
proof -
  let ?vs = "fst (fold (add_level tc_default_values) items ([], {}))"
  let ?ws = "fst (fold (add_level tc_override_values) items ([], {}))"
  have u: "\<forall>c\<in>set items. distinct (map fst (tc_default_values c))"
    "\<forall>c\<in>set items. distinct (map fst (tc_override_values c))"
    using assms(2) by (auto simp: unique_keys_def)
  have vals: "map_of ?vs k = effective_value tc_default_values k items"
    "map_of ?ws k = effective_value tc_override_values k items" for k
    using add_levels_value [OF u(1), of "[]" "{}" k] add_levels_value [OF u(2), of "[]" "{}" k]
    by (simp_all add: effective_value_def)
  have dist: "distinct (map fst ?vs)" "distinct (map fst ?ws)"
    by (simp_all add: add_levels_distinct)
  have "apply_configuration coerce d task_data col t n subject ctxt
      = Inr (dict_update (apply_defaults ?vs task_data) ?ws)"
    using assms(1) by (simp add: apply_configuration_def build_components)
  then show ?thesis
    by (auto simp: map_of_dict_update [OF dist(2)] map_add_def map_of_apply_defaults [OF dist(1)]
        vals is_unset_def split: option.splits)
qed

section \<open>Templates\<close>

definition template_entry_of :: "coercion \<Rightarrow> db \<Rightarrow> pk \<Rightarrow> string \<Rightarrow> task_configuration \<Rightarrow> bool" where
  "template_entry_of coerce d col t c \<longleftrightarrow>
     lookup_config_by_name coerce d col (''template:'' @ t) = Inr (Some c)"

inductive uses_template :: "coercion \<Rightarrow> db \<Rightarrow> pk \<Rightarrow> string \<Rightarrow> string \<Rightarrow> bool"
  for coerce d col where
  "template_entry_of coerce d col t c \<Longrightarrow> t' \<in> set (tc_use_templates c) \<Longrightarrow>
     uses_template coerce d col t t'"

inductive_cases uses_templateE: "uses_template coerce d col t t'"

text \<open>The templates reached from a list of names.\<close>

definition reached :: "coercion \<Rightarrow> db \<Rightarrow> pk \<Rightarrow> string list \<Rightarrow> string set" where
  "reached coerce d col names = {t. \<exists>n\<in>set names. (uses_template coerce d col)\<^sup>*\<^sup>* n t}"

lemma reached_Nil [simp]: "reached coerce d col [] = {}"
  by (simp add: reached_def)

lemma reached_Cons:
  "reached coerce d col (n # names) = reached coerce d col [n] \<union> reached coerce d col names"
  by (auto simp: reached_def)

lemma reached_one:
  assumes "template_entry_of coerce d col n c"
  shows "reached coerce d col [n] = insert n (reached coerce d col (tc_use_templates c))"
proof -
  have "uses_template coerce d col n t \<longleftrightarrow> t \<in> set (tc_use_templates c)" for t
    using assms by (auto simp: uses_template.simps template_entry_of_def)
  then have "(uses_template coerce d col)\<^sup>*\<^sup>* n t \<longleftrightarrow>
      t = n \<or> (\<exists>m\<in>set (tc_use_templates c). (uses_template coerce d col)\<^sup>*\<^sup>* m t)" for t
    by (metis converse_rtranclpE converse_rtranclp_into_rtranclp rtranclp.rtrancl_refl)
  then show ?thesis by (auto simp: reached_def)
qed

lemma on_cycle_iff:
  assumes "template_entry_of coerce d col n c"
  shows "(uses_template coerce d col)\<^sup>+\<^sup>+ n n \<longleftrightarrow> n \<in> reached coerce d col (tc_use_templates c)"
proof -
  have "uses_template coerce d col n t \<longleftrightarrow> t \<in> set (tc_use_templates c)" for t
    using assms by (auto simp: uses_template.simps template_entry_of_def)
  then have "(uses_template coerce d col)\<^sup>+\<^sup>+ n n
      \<longleftrightarrow> (\<exists>m\<in>set (tc_use_templates c). (uses_template coerce d col)\<^sup>*\<^sup>* m n)"
    using tranclpD [of "uses_template coerce d col" n n] rtranclp_into_tranclp2 [of "uses_template coerce d col" n]
    by blast
  then show ?thesis by (simp add: reached_def)
qed

definition resolvable :: "coercion \<Rightarrow> db \<Rightarrow> pk \<Rightarrow> string \<Rightarrow> bool" where
  "resolvable coerce d col t \<longleftrightarrow>
     (\<exists>c. template_entry_of coerce d col t c) \<and> \<not> (uses_template coerce d col)\<^sup>+\<^sup>+ t t"

lemma lookup_templates_stack:
  "(\<exists>items. lookup_templates coerce d col names stack = Inr items) \<longleftrightarrow>
     (\<forall>t\<in>reached coerce d col names. t \<notin> set stack \<and> resolvable coerce d col t)"
proof (induction coerce d col names stack rule: lookup_templates.induct)
  case (2 coerce d col n names stack)
  show ?case
  proof (cases "\<exists>c. template_entry_of coerce d col n c \<and> n \<notin> set stack")
    case True
    then obtain c where c: "lookup_config_by_name coerce d col (''template:'' @ n) = Inr (Some c)"
      "n \<notin> set stack" by (auto simp: template_entry_of_def)
    then have entry: "template_entry_of coerce d col n c" by (simp add: template_entry_of_def)
    have below: "(\<exists>items. (if tc_use_templates c \<noteq> [] then lookup_templates coerce d col
          (tc_use_templates c) (stack @ [n]) else Inr []) = Inr items)
      \<longleftrightarrow> (\<forall>t\<in>reached coerce d col (tc_use_templates c). t \<notin> set (stack @ [n]) \<and> resolvable coerce d col t)"
      using "2.IH"(1) [OF c(2,1) refl] by (cases "tc_use_templates c") auto
    have others: "(\<exists>items. lookup_templates coerce d col names stack = Inr items)
      \<longleftrightarrow> (\<forall>t\<in>reached coerce d col names. t \<notin> set stack \<and> resolvable coerce d col t)"
      using "2.IH"(2) [OF c(2,1) refl] .
    have n: "n \<in> reached coerce d col [n]" by (auto simp: reached_def)
    have step: "(\<exists>items. lookup_templates coerce d col (n # names) stack = Inr items) \<longleftrightarrow>
        (\<exists>items. (if tc_use_templates c \<noteq> [] then lookup_templates coerce d col
          (tc_use_templates c) (stack @ [n]) else Inr []) = Inr items)
        \<and> (\<exists>items. lookup_templates coerce d col names stack = Inr items)"
      using c by (auto simp: bind_res_eq_Inr)
    show ?thesis
      unfolding step below others reached_Cons [of _ _ _ n names] reached_one [OF entry]
      using c(2) entry on_cycle_iff [OF entry]
      by (auto simp: resolvable_def)
  next
    case False
    moreover have "n \<in> reached coerce d col (n # names)" by (auto simp: reached_def)
    ultimately show ?thesis
      by (auto simp: resolvable_def template_entry_of_def split: sum.splits option.splits)
  qed
qed simp

lemma lookup_templates_items:
  assumes "lookup_templates coerce d col names stack = Inr items"
  shows "set items = {c. \<exists>t\<in>reached coerce d col names. template_entry_of coerce d col t c}"
  using assms
proof (induction coerce d col names stack arbitrary: items rule: lookup_templates.induct)
  case (2 coerce d col n names stack)
  from "2.prems" obtain c below others where
    c: "n \<notin> set stack" "lookup_config_by_name coerce d col (''template:'' @ n) = Inr (Some c)"
    and below: "(if tc_use_templates c \<noteq> [] then lookup_templates coerce d col
          (tc_use_templates c) (stack @ [n]) else Inr []) = Inr below"
    and others: "lookup_templates coerce d col names stack = Inr others"
    and items: "items = below @ [c] @ others"
    by (auto simp: bind_res_eq_Inr split: if_splits sum.splits option.splits)
  have entry: "template_entry_of coerce d col n c'\<longleftrightarrow> c' = c" for c'
    using c(2) by (auto simp: template_entry_of_def)
  have "set below = {c'. \<exists>t\<in>reached coerce d col (tc_use_templates c). template_entry_of coerce d col t c'}"
    using "2.IH"(1) [OF c refl] below by (cases "tc_use_templates c") auto
  moreover have "set others = {c'. \<exists>t\<in>reached coerce d col names. template_entry_of coerce d col t c'}"
    using "2.IH"(2) [OF c refl others] .
  ultimately show ?case
    unfolding items reached_Cons [of _ _ _ n names] reached_one [OF entry [THEN iffD2, OF refl]]
    by (auto simp: entry)
qed simp

text \<open>
  Looking up templates always ends, whatever they refer to. It succeeds exactly
  when every template reached has one valid entry and none refers to itself, also
  indirectly, and then it gives the entries of exactly the templates reached.
\<close>

theorem lookup_templates_resolves:
  "case lookup_templates coerce d col names [] of
     Inr items \<Rightarrow> (\<forall>t\<in>reached coerce d col names. resolvable coerce d col t)
       \<and> set items = {c. \<exists>t\<in>reached coerce d col names. template_entry_of coerce d col t c}
   | Inl e \<Rightarrow> (\<exists>t\<in>reached coerce d col names. \<not> resolvable coerce d col t)"
proof (cases "lookup_templates coerce d col names []")
  case (Inl e)
  then show ?thesis using lookup_templates_stack [of coerce d col names "[]"] by auto
next
  case (Inr items)
  then show ?thesis
    using lookup_templates_stack [of coerce d col names "[]"] lookup_templates_items [OF Inr] by auto
qed

section \<open>Examples\<close>

definition example_config :: task_configuration where
  "example_config = \<lparr>tc_task_type = Some WORKER, tc_task_name = Some ''sbuild'', tc_subject = None,
     tc_context = None, tc_template = None, tc_use_templates = [''small''], tc_delete_values = [],
     tc_default_values = [(''n'', JInt 1)], tc_override_values = [], tc_lock_values = [],
     tc_comment = []\<rparr>"

definition example_template :: task_configuration where
  "example_template = example_config\<lparr>tc_task_type := None, tc_task_name := None,
     tc_template := Some ''small'', tc_use_templates := [], tc_default_values := [],
     tc_override_values := [(''host'', JStr ''a'')], tc_lock_values := [''host'']\<rparr>"

definition example_subject_config :: task_configuration where
  "example_subject_config = example_config\<lparr>tc_subject := Some ''hello'', tc_context := Some ''sid:1'',
     tc_use_templates := [], tc_override_values := [(''host'', JStr ''b''), (''n'', JInt 2)],
     tc_default_values := []\<rparr>"

text \<open>An item whose data names one of the three entries.\<close>

definition example_coerce :: coercion where
  "example_coerce d = (if d = [(''c'', JInt 1)] then Some example_config
     else if d = [(''c'', JInt 2)] then Some example_template
     else if d = [(''c'', JInt 3)] then Some example_subject_config else None)"

definition config_item :: "pk \<Rightarrow> string \<Rightarrow> int \<Rightarrow> collection_item" where
  "config_item i name n = \<lparr>ci_id = i, ci_name = name, ci_child_type = BARE,
     ci_category = ''debusine:task-configuration'', ci_parent_collection = 1,
     ci_parent_category = ''debusine:task-configuration'', ci_collection = None, ci_artifact = None,
     ci_data = [(''c'', JInt n)], ci_created_at = 0, ci_created_by_user = 1,
     ci_created_by_workflow = None, ci_removed_at = None, ci_removed_by_user = None,
     ci_removed_by_workflow = None\<rparr>"

definition example_configs :: db where
  "example_configs = empty_db\<lparr>db_items := [config_item 1 (config_name example_config) 1,
     config_item 2 (config_name example_template) 2, config_item 3 (config_name example_subject_config) 3]\<rparr>"

lemma example_chain:
  "chain_configuration example_coerce example_configs 1
     (get_lookup_names WORKER ''sbuild'' (Some ''hello'') (Some ''sid:1''))
   = Inr [example_config, example_template, example_subject_config]"
  by code_simp

theorem looked_up_iff_matches_witness:
  "config_name example_subject_config
     \<in> set (get_lookup_names WORKER ''sbuild'' (Some ''hello'') (Some ''sid:1''))
   \<and> config_name example_subject_config
     \<notin> set (get_lookup_names WORKER ''sbuild'' (Some ''hello'') (Some ''sid''))"
proof -
  have "task_configuration_of example_coerce [(''c'', JInt 3)] = Inr example_subject_config"
    by code_simp
  moreover have "tc_template example_subject_config = None" by code_simp
  ultimately show ?thesis
    using looked_up_iff_matches [of example_coerce "[(''c'', JInt 3)]" example_subject_config WORKER
        "''sbuild''" "Some ''hello''"]
    by (simp add: example_subject_config_def example_config_def truthy_def)
qed

theorem apply_configuration_value_witness:
  "\<exists>configured. apply_configuration example_coerce example_configs [(''n'', JNull), (''x'', JInt 7)] 1
      WORKER ''sbuild'' (Some ''hello'') (Some ''sid:1'') = Inr configured
    \<and> map_of configured ''host'' = Some (JStr ''a'') \<and> map_of configured ''n'' = Some (JInt 2)
    \<and> map_of configured ''x'' = Some (JInt 7)"
proof -
  have "\<forall>c\<in>set [example_config, example_template, example_subject_config]. unique_keys c" by code_simp
  moreover have "effective_value tc_override_values ''host''
      [example_config, example_template, example_subject_config] = Some (JStr ''a'')"
    "effective_value tc_override_values ''n''
      [example_config, example_template, example_subject_config] = Some (JInt 2)"
    "effective_value tc_override_values ''x''
      [example_config, example_template, example_subject_config] = None"
    by code_simp+
  ultimately show ?thesis
    using apply_configuration_value [OF example_chain, of "[(''n'', JNull), (''x'', JInt 7)]"] by fastforce
qed

lemma reached_leaf:
  assumes "\<And>c. template_entry_of coerce d col n c \<Longrightarrow> tc_use_templates c = []"
  shows "reached coerce d col [n] = {n}"
proof -
  have "\<not> uses_template coerce d col n t" for t
    using assms by (auto elim: uses_templateE)
  then have "t = n" if "(uses_template coerce d col)\<^sup>*\<^sup>* n t" for t
    using that by (metis converse_rtranclpE)
  then show ?thesis by (auto simp: reached_def)
qed

theorem lookup_templates_resolves_witness:
  "resolvable example_coerce example_configs 1 ''small''
   \<and> \<not> resolvable example_coerce (example_configs\<lparr>db_items := []\<rparr>) 1 ''small''"
proof
  have "lookup_config_by_name example_coerce example_configs 1 ''template:small''
      = Inr (Some example_template)" by code_simp
  then have "reached example_coerce example_configs 1 [''small''] = {''small''}"
    by (intro reached_leaf) (auto simp: template_entry_of_def example_template_def)
  moreover have "lookup_templates example_coerce example_configs 1 [''small''] []
      = Inr [example_template]" by code_simp
  ultimately show "resolvable example_coerce example_configs 1 ''small''"
    using lookup_templates_resolves [of example_coerce example_configs 1 "[''small'']"] by simp
next
  let ?d = "example_configs\<lparr>db_items := []\<rparr>"
  have "lookup_config_by_name example_coerce ?d 1 ''template:small'' = Inr None" by code_simp
  then have "reached example_coerce ?d 1 [''small''] = {''small''}"
    by (intro reached_leaf) (simp add: template_entry_of_def)
  moreover have "lookup_templates example_coerce ?d 1 [''small''] []
      = Inl (TaskConfigError ''references missing template'')" by code_simp
  ultimately show "\<not> resolvable example_coerce ?d 1 ''small''"
    using lookup_templates_resolves [of example_coerce ?d 1 "[''small'']"] by simp
qed

end
