(* ===== verification/Files.thy ===== *)
theory Files
  imports Workers
begin

text \<open>
  Files and the stores that keep them (debusine/db/models/files.py, the file
  stores of debusine/db/models/scopes.py, and debusine/server/file_backend:
  interface.py, local.py and memory.py).
\<close>

section \<open>Settings and files\<close>

text \<open>
  The store directory of the settings, the hash algorithm, and the entries of the
  two backends that talk to remote services.
\<close>

record entry_ops =
  en_add :: "bytes \<Rightarrow> unit dbact"
  en_same_contents :: "bytes \<Rightarrow> bool dbact"
  en_remove :: "unit dbact"

record storage =
  st_store_directory :: string
  st_hash :: "bytes \<Rightarrow> bytes"
  st_remote_entry :: "file_store \<Rightarrow> file_row \<Rightarrow> entry_ops res"

definition get_file :: "db \<Rightarrow> pk \<Rightarrow> file_row option" where
  "get_file d i = tbl_get fi_id i (db_files d)"

definition get_file_store :: "db \<Rightarrow> pk \<Rightarrow> file_store option" where
  "get_file_store d i = tbl_get fs_id i (db_file_stores d)"

text \<open>\<open>File.objects.get_or_create(hash_digest, size)\<close>, with the check of the table.\<close>

definition get_or_create_file :: "bytes \<Rightarrow> nat \<Rightarrow> (file_row \<times> bool) dbact" where
  "get_or_create_file hash_digest file_length = with_db (\<lambda>d.
     case find (\<lambda>f. fi_sha256 f = hash_digest \<and> fi_size f = file_length) (db_files d) of
       Some f \<Rightarrow> ret (f, False)
     | None \<Rightarrow>
         if hash_digest = [] then raise (IntegrityError ''sha256_not_empty'')
         else
           let f = \<lparr>fi_id = tbl_next fi_id (db_files d), fi_sha256 = hash_digest, fi_size = file_length\<rparr>
           in seq_act (modify_db (\<lambda>d. d\<lparr>db_files := db_files d @ [f]\<rparr>)) (ret (f, True)))"

text \<open>\<open>File.from_local_path\<close>; a local path is represented by its contents.\<close>

definition from_local_path :: "storage \<Rightarrow> bytes \<Rightarrow> file_row dbact" where
  "from_local_path st contents =
     bind_act (get_or_create_file (st_hash st contents) (length contents)) (\<lambda>(f, _). ret f)"

section \<open>Which files a store holds\<close>

text \<open>The two triggers keep the total size of a store up to date.\<close>

definition add_to_total :: "pk \<Rightarrow> int \<Rightarrow> db \<Rightarrow> db" where
  "add_to_total store n d = d\<lparr>db_file_stores :=
     tbl_upd fs_id store (\<lambda>s. s\<lparr>fs_total_size := fs_total_size s + n\<rparr>) (db_file_stores d)\<rparr>"

definition file_size :: "db \<Rightarrow> pk \<Rightarrow> int" where
  "file_size d i = (case get_file d i of None \<Rightarrow> 0 | Some f \<Rightarrow> int (fi_size f))"

definition insert_file_in_store :: "file_in_store \<Rightarrow> db \<Rightarrow> db" where
  "insert_file_in_store x d =
     add_to_total (fx_store x) (file_size d (fx_file x))
       (d\<lparr>db_file_in_stores := db_file_in_stores d @ [x]\<rparr>)"

definition delete_file_in_store :: "file_in_store \<Rightarrow> db \<Rightarrow> db" where
  "delete_file_in_store x d =
     add_to_total (fx_store x) (- file_size d (fx_file x))
       (d\<lparr>db_file_in_stores := remove1 x (db_file_in_stores d)\<rparr>)"

definition in_store :: "pk \<Rightarrow> pk \<Rightarrow> file_in_store \<Rightarrow> bool" where
  "in_store store fileobj x \<longleftrightarrow> fx_store x = store \<and> fx_file x = fileobj"

text \<open>\<open>FileInStore.objects.get_or_create(store, file, data={})\<close>; a row with other data collides.\<close>

definition get_or_create_file_in_store :: "pk \<Rightarrow> pk \<Rightarrow> bool dbact" where
  "get_or_create_file_in_store store fileobj = with_db (\<lambda>d.
     case find (in_store store fileobj) (db_file_in_stores d) of
       Some x \<Rightarrow> if fx_data x = [] then ret False else raise (IntegrityError ''unique_store_file'')
     | None \<Rightarrow> seq_act (modify_db (insert_file_in_store
                  \<lparr>fx_store = store, fx_file = fileobj, fx_data = []\<rparr>)) (ret True))"

section \<open>Backends\<close>

text \<open>What a transaction rolls back; what the backends keep is not part of it.\<close>

definition atomic_db :: "'a dbact \<Rightarrow> 'a dbact" where
  "atomic_db m d = (case m d of
     (Inl x, d') \<Rightarrow> (Inl x, d\<lparr>db_storage := db_storage d'\<rparr>) | (Inr y, d') \<Rightarrow> (Inr y, d'))"

definition read_location :: "location \<Rightarrow> db \<Rightarrow> bytes option" where
  "read_location l d = map_of (db_storage d) l"

definition write_location :: "location \<Rightarrow> bytes \<Rightarrow> unit dbact" where
  "write_location l contents =
     modify_db (\<lambda>d. d\<lparr>db_storage := dict_set l contents (db_storage d)\<rparr>)"

definition erase_location :: "location \<Rightarrow> unit dbact" where
  "erase_location l =
     modify_db (\<lambda>d. d\<lparr>db_storage := filter (\<lambda>p. fst p \<noteq> l) (db_storage d)\<rparr>)"

definition same_at :: "location \<Rightarrow> exn \<Rightarrow> bytes \<Rightarrow> bool dbact" where
  "same_at l missing contents = with_db (\<lambda>d.
     case read_location l d of None \<Rightarrow> raise missing | Some c \<Rightarrow> ret (c = contents))"

text \<open>Two digits of the hash per directory, then the hash with the size.\<close>

definition local_identifier :: "file_row \<Rightarrow> string" where
  "local_identifier f =
     (let h = hex (fi_sha256 f)
      in take 2 h @ ''/'' @ take 2 (drop 2 h) @ ''/'' @ take 2 (drop 4 h) @ ''/''
         @ h @ ''-'' @ decimal (fi_size f))"

definition local_base_directory :: "storage \<Rightarrow> file_store \<Rightarrow> string res" where
  "local_base_directory st fs =
     (case map_of (fs_configuration fs) ''base_directory'' of
        Some (JStr dir) \<Rightarrow> Inr dir
      | _ \<Rightarrow> if fs_name fs = ''Default'' then Inr (st_store_directory st)
             else Inl (RuntimeError ''configuration requires base_directory setting''))"

definition local_entry :: "string \<Rightarrow> file_row \<Rightarrow> entry_ops" where
  "local_entry base f =
     (let l = LocalPath (base @ ''/'' @ local_identifier f)
      in \<lparr>en_add = write_location l,
          en_same_contents = same_at l (FileNotFoundError (local_identifier f)),
          en_remove = erase_location l\<rparr>)"

text \<open>
  In memory, \<open>add\<close> uses the hash of the contents it is given, the other operations
  the hash of the file.
\<close>

definition memory_name :: "file_store \<Rightarrow> string" where
  "memory_name fs =
     (case map_of (fs_configuration fs) ''name'' of Some (JStr name) \<Rightarrow> name | _ \<Rightarrow> [])"

definition memory_entry :: "storage \<Rightarrow> string \<Rightarrow> file_row \<Rightarrow> entry_ops" where
  "memory_entry st name f =
     (let l = MemoryKey name (hex (fi_sha256 f))
      in \<lparr>en_add = (\<lambda>contents. write_location (MemoryKey name (hex (st_hash st contents))) contents),
          en_same_contents = same_at l (KeyError (hex (fi_sha256 f))),
          en_remove = erase_location l\<rparr>)"

text \<open>\<open>get_backend_object\<close> followed by \<open>get_entry\<close>.\<close>

definition get_entry :: "storage \<Rightarrow> file_store \<Rightarrow> file_row \<Rightarrow> entry_ops res" where
  "get_entry st fs f =
     (case fs_backend fs of
        LocalBackend \<Rightarrow> bind_res (local_base_directory st fs) (\<lambda>base. Inr (local_entry base f))
      | MemoryBackend \<Rightarrow> Inr (memory_entry st (memory_name fs) f)
      | ExternalDebianSuite \<Rightarrow> st_remote_entry st fs f
      | S3 \<Rightarrow> st_remote_entry st fs f)"

text \<open>\<open>FileBackendInterface.add_file\<close> on an entry of the store, and \<open>remove_file\<close>.\<close>

definition add_file :: "pk \<Rightarrow> entry_ops \<Rightarrow> file_row \<Rightarrow> bytes \<Rightarrow> file_row dbact" where
  "add_file store en fileobj contents = atomic_db
     (if fi_size fileobj \<noteq> length contents then raise (ValueError ''add_file file size mismatch'')
      else
        bind_act (get_or_create_file_in_store store (fi_id fileobj)) (\<lambda>created.
          if created then seq_act (en_add en contents) (ret fileobj)
          else bind_act (en_same_contents en contents) (\<lambda>same.
            if same then ret fileobj else raise (ValueError ''add_file contents mismatch''))))"

definition remove_file :: "pk \<Rightarrow> entry_ops \<Rightarrow> file_row \<Rightarrow> unit dbact" where
  "remove_file store en fileobj = atomic_db
     (seq_act (modify_db (\<lambda>d. fold delete_file_in_store
         (filter (in_store store (fi_id fileobj)) (db_file_in_stores d)) d))
        (en_remove en))"

section \<open>The stores of a scope\<close>

text \<open>\<open>desc(nulls_last=True)\<close>.\<close>

definition desc_nulls_last :: "int option \<Rightarrow> bool \<times> int" where
  "desc_nulls_last p = (case p of None \<Rightarrow> (True, 0) | Some n \<Rightarrow> (False, - n))"

definition scope_stores :: "db \<Rightarrow> pk \<Rightarrow> (file_store \<times> file_store_in_scope) list" where
  "scope_stores d scope =
     List.map_filter (\<lambda>x. map_option (\<lambda>s. (s, x)) (get_file_store d (sx_file_store x)))
       (filter (\<lambda>x. sx_scope x = scope) (db_file_stores_in_scope d))"

definition within :: "int option \<Rightarrow> int \<Rightarrow> bool" where
  "within limit n = (case limit of None \<Rightarrow> True | Some m \<Rightarrow> n \<le> m)"

text \<open>
  \<open>exclude(filestoreinscope__write_only=True)\<close> as a later condition of a query: the store is
  write-only in some scope, which need not be the scope in question. The first condition
  on \<open>scope.file_stores\<close> is about the link to that scope itself.
\<close>

definition written_only :: "db \<Rightarrow> file_store \<Rightarrow> bool" where
  "written_only d s = list_ex (\<lambda>x. sx_file_store x = fs_id s \<and> sx_write_only x) (db_file_stores_in_scope d)"

definition upload_file_stores ::
  "db \<Rightarrow> pk \<Rightarrow> file_row \<Rightarrow> bool \<Rightarrow> bool \<Rightarrow> file_store list" where
  "upload_file_stores d scope fileobj enforce_soft_limits include_write_only =
     (let stores = filter (\<lambda>(s, x). \<not> sx_read_only x) (scope_stores d scope);
          stores = filter (\<lambda>(s, x). within (fs_max_size s) (fs_total_size s + int (fi_size fileobj)))
                     stores;
          stores = sort_key (\<lambda>(s, x). desc_nulls_last (sx_upload_priority x)) stores;
          stores = (if enforce_soft_limits
                    then filter (\<lambda>(s, x). within (fs_soft_max_size s)
                                             (fs_total_size s + int (fi_size fileobj))) stores
                    else stores);
          stores = (if include_write_only then stores
                    else filter (\<lambda>(s, x). \<not> written_only d s) stores)
      in map fst stores)"

definition upload_file_backend :: "db \<Rightarrow> pk \<Rightarrow> file_row \<Rightarrow> file_store res" where
  "upload_file_backend d scope fileobj =
     (case upload_file_stores d scope fileobj False False of
        [] \<Rightarrow> Inl IndexError | s # _ \<Rightarrow> Inr s)"

definition download_file_stores :: "db \<Rightarrow> pk \<Rightarrow> file_row \<Rightarrow> file_store list" where
  "download_file_stores d scope fileobj =
     (let stores = filter (\<lambda>(s, x). \<not> sx_write_only x) (scope_stores d scope);
          stores = filter (\<lambda>(s, x). list_ex (in_store (fs_id s) (fi_id fileobj)) (db_file_in_stores d))
                     stores
      in map fst (sort_key (\<lambda>(s, x). (desc_nulls_last (sx_download_priority x),
                                       desc_nulls_last (sx_upload_priority x))) stores))"

definition download_file_backend :: "db \<Rightarrow> pk \<Rightarrow> file_row \<Rightarrow> file_store res" where
  "download_file_backend d scope fileobj =
     (case download_file_stores d scope fileobj of [] \<Rightarrow> Inl IndexError | s # _ \<Rightarrow> Inr s)"

end
