(* ===== verification/Collections.thy ===== *)
theory Collections
  imports TaskConfig Files
begin

text \<open>
  Collections and their items (debusine/db/models/collections.py) and what all
  collection managers share (debusine/server/collections/base.py): the constraints
  of the table of items, creating, removing and finding items by name, the
  retention of removed items, and the match constraints of suites and archives.
\<close>

section \<open>Categories\<close>

definition ENVIRONMENTS :: string where "ENVIRONMENTS = ''debian:environments''"
definition SUITE :: string where "SUITE = ''debian:suite''"
definition SUITE_LINTIAN :: string where "SUITE_LINTIAN = ''debian:suite-lintian''"
definition PACKAGE_BUILD_LOGS :: string where "PACKAGE_BUILD_LOGS = ''debian:package-build-logs''"
definition WORKFLOW_INTERNAL :: string where "WORKFLOW_INTERNAL = ''debusine:workflow-internal''"
definition TASK_CONFIGURATION :: string where "TASK_CONFIGURATION = ''debusine:task-configuration''"
definition TASK_HISTORY :: string where "TASK_HISTORY = ''debusine:task-history''"
definition ARCHIVE :: string where "ARCHIVE = ''debian:archive''"
definition QA_RESULTS :: string where "QA_RESULTS = ''debian:qa-results''"

definition SOURCE_PACKAGE :: string where "SOURCE_PACKAGE = ''debian:source-package''"
definition BINARY_PACKAGE :: string where "BINARY_PACKAGE = ''debian:binary-package''"
definition REPOSITORY_INDEX :: string where "REPOSITORY_INDEX = ''debian:repository-index''"

lemmas category_defs = ENVIRONMENTS_def SUITE_def SUITE_LINTIAN_def PACKAGE_BUILD_LOGS_def
  WORKFLOW_INTERNAL_def TASK_CONFIGURATION_def TASK_HISTORY_def ARCHIVE_def QA_RESULTS_def

lemmas artifact_category_defs = SOURCE_PACKAGE_def BINARY_PACKAGE_def REPOSITORY_INDEX_def

definition singleton_categories :: "string list" where
  "singleton_categories = [ARCHIVE, PACKAGE_BUILD_LOGS, TASK_HISTORY]"

definition managed_categories :: "string list" where
  "managed_categories = [ENVIRONMENTS, SUITE, SUITE_LINTIAN, PACKAGE_BUILD_LOGS, WORKFLOW_INTERNAL,
     TASK_CONFIGURATION, TASK_HISTORY, ARCHIVE, QA_RESULTS]"

section \<open>Collections\<close>

definition get_collection_row :: "db \<Rightarrow> pk \<Rightarrow> collection option" where
  "get_collection_row d i = tbl_get co_id i (db_collections d)"

definition is_valid_collection_name :: "string \<Rightarrow> bool" where
  "is_valid_collection_name value \<longleftrightarrow>
     (case value of
        [] \<Rightarrow> False
      | c # cs \<Rightarrow> is_ascii_alpha c
          \<and> at_dollar (dropWhile (\<lambda>c. is_ascii_alpha c \<or> is_ascii_digit c \<or> c \<in> set ''+._-'') cs))"

definition collection_error :: "db \<Rightarrow> collection \<Rightarrow> string option" where
  "collection_error d c =
     (if list_ex (\<lambda>e. co_name e = co_name c \<and> co_category e = co_category c
            \<and> co_workspace e = co_workspace c \<and> co_id e \<noteq> co_id c) (db_collections d)
      then Some ''unique_name_category_workspace''
      else if co_name c = [] then Some ''name_not_empty''
      else if (if co_category c \<in> set singleton_categories then co_name c \<noteq> ''_''
               else starts_with ''_'' (co_name c)) then Some ''name_not_reserved''
      else if co_category c = [] then Some ''category_not_empty''
      else None)"

text \<open>\<open>get_or_create\<close> with the data among the fields that are looked up.\<close>

definition get_or_create_singleton ::
  "string \<Rightarrow> pk \<Rightarrow> (string \<times> json) list \<Rightarrow> (collection \<times> bool) dbact" where
  "get_or_create_singleton category ws extra = with_db (\<lambda>d.
     if category \<notin> set singleton_categories
     then raise (ValueError ''is not a singleton collection category'')
     else
       case find (\<lambda>c. co_name c = ''_'' \<and> co_category c = category \<and> co_workspace c = ws
              \<and> co_data c = JObj extra) (db_collections d) of
         Some c \<Rightarrow> ret (c, False)
       | None \<Rightarrow>
           let c = \<lparr>co_id = tbl_next co_id (db_collections d), co_name = ''_'', co_category = category,
                    co_full_history_retention_period = None, co_metadata_only_retention_period = None,
                    co_workspace = ws, co_retains_artifacts = RetainsAlways, co_data = JObj extra\<rparr>
           in case collection_error d c of
                Some e \<Rightarrow> raise (IntegrityError e)
              | None \<Rightarrow> seq_act (modify_db (\<lambda>d. d\<lparr>db_collections := db_collections d @ [c]\<rparr>))
                          (ret (c, True)))"

text \<open>Python's truth of a value, and \<open>collection.data.get(key, False)\<close>.\<close>

primrec truth :: "json \<Rightarrow> bool" where
  "truth JNull = False"
| "truth (JBool b) = b"
| "truth (JInt n) = (n \<noteq> 0)"
| "truth (JStr s) = (s \<noteq> [])"
| "truth (JList xs) = (xs \<noteq> [])"
| "truth (JObj ps) = (ps \<noteq> [])"

definition collection_data :: "collection \<Rightarrow> string \<Rightarrow> json option" where
  "collection_data c key = (case co_data c of JObj ps \<Rightarrow> map_of ps key | _ \<Rightarrow> None)"

definition may_reuse_versions :: "collection \<Rightarrow> bool" where
  "may_reuse_versions c =
     (case collection_data c ''may_reuse_versions'' of None \<Rightarrow> False | Some v \<Rightarrow> truth v)"

section \<open>Items and their constraints\<close>

definition active :: "collection_item \<Rightarrow> bool" where
  "active i \<longleftrightarrow> ci_removed_at i = None"

definition active_at :: "time \<Rightarrow> collection_item \<Rightarrow> bool" where
  "active_at t i \<longleftrightarrow> ci_created_at i \<le> t
     \<and> (case ci_removed_at i of None \<Rightarrow> True | Some r \<Rightarrow> t < r)"

text \<open>The text of a field of the data (\<open>->>\<close>): null when it is missing or null.\<close>

definition field_text :: "collection_item \<Rightarrow> string \<Rightarrow> json option" where
  "field_text i key =
     (case map_of (ci_data i) key of
        Some (JInt n) \<Rightarrow> Some (JStr (if n < 0 then ''-'' @ decimal (nat (- n)) else decimal (nat n)))
      | Some (JBool b) \<Rightarrow> Some (JStr (if b then ''true'' else ''false''))
      | Some JNull \<Rightarrow> None
      | v \<Rightarrow> v)"

definition same_environment :: "collection_item \<Rightarrow> collection_item \<Rightarrow> bool" where
  "same_environment i j \<longleftrightarrow>
     ci_category i = ci_category j
     \<and> list_all (\<lambda>key. field_text i key = field_text j key)
         [''codename'', ''architecture'', ''variant'', ''backend'']
     \<and> ci_parent_collection i = ci_parent_collection j"

definition childtype_consistent :: "collection_item \<Rightarrow> bool" where
  "childtype_consistent i \<longleftrightarrow>
     (case ci_child_type i of
        BARE \<Rightarrow> ci_collection i = None \<and> ci_artifact i = None
      | ARTIFACT \<Rightarrow> ci_collection i = None \<and> (ci_artifact i \<noteq> None \<or> ci_removed_at i \<noteq> None)
      | COLLECTION \<Rightarrow> ci_artifact i = None \<and> (ci_collection i \<noteq> None \<or> ci_removed_at i \<noteq> None))"

text \<open>The constraints of the table that a row would break next to the other rows.\<close>

definition item_error :: "db \<Rightarrow> collection_item \<Rightarrow> string option" where
  "item_error d i =
     (if active i \<and> ci_parent_category i = ENVIRONMENTS
         \<and> list_ex (\<lambda>j. ci_id j \<noteq> ci_id i \<and> active j \<and> ci_parent_category j = ENVIRONMENTS
                        \<and> same_environment i j) (db_items d)
      then Some ''unique_debian_environments''
      else if active i
         \<and> list_ex (\<lambda>j. ci_id j \<noteq> ci_id i \<and> active j \<and> ci_name j = ci_name i
                        \<and> ci_parent_collection j = ci_parent_collection i) (db_items d)
      then Some ''unique_active_name''
      else if ci_collection i = Some (ci_parent_collection i) then Some ''distinct_parent_collection''
      else if \<not> childtype_consistent i then Some ''childtype_removedat_consistent''
      else None)"

definition insert_item :: "collection_item \<Rightarrow> collection_item dbact" where
  "insert_item item = with_db (\<lambda>d.
     let i = item\<lparr>ci_id := tbl_next ci_id (db_items d)\<rparr>
     in case item_error d i of
          Some e \<Rightarrow> raise (IntegrityError e)
        | None \<Rightarrow> seq_act (modify_db (\<lambda>d. d\<lparr>db_items := db_items d @ [i]\<rparr>)) (ret i))"

definition save_item :: "collection_item \<Rightarrow> unit dbact" where
  "save_item i = with_db (\<lambda>d.
     case item_error d i of
       Some e \<Rightarrow> raise (IntegrityError e)
     | None \<Rightarrow> modify_db (\<lambda>d. d\<lparr>db_items := tbl_upd ci_id (ci_id i) (\<lambda>_. i) (db_items d)\<rparr>))"

section \<open>Creating items\<close>

text \<open>
  Who adds or removes an item, when, and the options of the managers: the time it is
  (the same throughout one operation), a creation time to record instead, and the
  newer item that already replaced this one.
\<close>

record adding =
  ad_now :: time
  ad_user :: pk
  ad_workflow :: "pk option"
  ad_name :: "string option"
  ad_replace :: bool
  ad_created_at :: "time option"
  ad_replaced_by :: "collection_item option"

definition new_item ::
  "adding \<Rightarrow> collection \<Rightarrow> child_type \<Rightarrow> string \<Rightarrow> pk option \<Rightarrow> pk option \<Rightarrow> string \<Rightarrow>
     (string \<times> json) list \<Rightarrow> collection_item" where
  "new_item ad parent kind category coll art name extra =
     \<lparr>ci_id = 0, ci_name = name, ci_child_type = kind, ci_category = category,
      ci_parent_collection = co_id parent, ci_parent_category = co_category parent,
      ci_collection = coll, ci_artifact = art, ci_data = extra,
      ci_created_at = (case ad_created_at ad of None \<Rightarrow> ad_now ad | Some t \<Rightarrow> t),
      ci_created_by_user = ad_user ad, ci_created_by_workflow = ad_workflow ad,
      ci_removed_at = map_option ci_created_at (ad_replaced_by ad),
      ci_removed_by_user = map_option ci_created_by_user (ad_replaced_by ad),
      ci_removed_by_workflow = Option.bind (ad_replaced_by ad) ci_created_by_workflow\<rparr>"

text \<open>
  The models of \<open>debusine.artifacts\<close> and \<open>python-debian\<close> that data goes through: the
  fields of a source package (name, version), of a binary package (source name and
  version, package, version, architecture), the file names of a Lintian analysis, and
  the conversion of a promise by pydantic.
\<close>

record data_models =
  dm_promise :: "(string \<times> json) list \<Rightarrow> bool"
  dm_source_package :: "(string \<times> json) list \<Rightarrow> (string \<times> string) res"
  dm_binary_package :: "(string \<times> json) list \<Rightarrow>
     (string \<times> string \<times> string \<times> string \<times> string) res"
  dm_lintian_filenames :: "(string \<times> json) list \<Rightarrow> string list res"
  dm_version_less :: "string \<Rightarrow> string \<Rightarrow> bool"
  dm_coerce :: coercion

text \<open>\<open>DebusinePromise(**data)\<close>: no other field may start with \<open>promise_\<close>.\<close>

definition promise_valid :: "data_models \<Rightarrow> (string \<times> json) list \<Rightarrow> bool" where
  "promise_valid dm extra \<longleftrightarrow>
     (\<forall>k\<in>set (map fst extra). starts_with ''promise_'' k \<longrightarrow>
        k \<in> set [''promise_work_request_id'', ''promise_workflow_id'', ''promise_category''])
     \<and> dm_promise dm extra"

definition create_from_bare_data ::
  "data_models \<Rightarrow> adding \<Rightarrow> collection \<Rightarrow> string \<Rightarrow> string \<Rightarrow> (string \<times> json) list \<Rightarrow>
     collection_item dbact" where
  "create_from_bare_data dm ad parent category name extra =
     (if category = ''debusine:promise'' \<and> \<not> promise_valid dm extra
      then raise (ValueError ''validation error'')
      else insert_item (new_item ad parent BARE category None None name extra))"

definition create_from_artifact ::
  "adding \<Rightarrow> collection \<Rightarrow> artifact \<Rightarrow> string \<Rightarrow> (string \<times> json) list \<Rightarrow> collection_item dbact" where
  "create_from_artifact ad parent art name extra =
     insert_item (new_item ad parent ARTIFACT (ar_category art) None (Some (ar_id art)) name extra)"

definition create_from_collection ::
  "adding \<Rightarrow> collection \<Rightarrow> collection \<Rightarrow> string \<Rightarrow> (string \<times> json) list \<Rightarrow> collection_item dbact" where
  "create_from_collection ad parent child name extra =
     insert_item (new_item ad parent COLLECTION (co_category child) (Some (co_id child)) None name extra)"

section \<open>Removing items\<close>

text \<open>Rows of the table of match constraints, and its exclusion constraint.\<close>

definition conflicting :: "match_constraint \<Rightarrow> match_constraint \<Rightarrow> bool" where
  "conflicting c e \<longleftrightarrow> mc_collection c = mc_collection e
     \<and> mc_constraint_name c = mc_constraint_name e \<and> mc_key c = mc_key e \<and> mc_value c \<noteq> mc_value e"

primrec insert_constraints :: "match_constraint list \<Rightarrow> unit dbact" where
  "insert_constraints [] = ret ()"
| "insert_constraints (c # cs) = with_db (\<lambda>d.
     if list_ex (conflicting c) (db_match_constraints d) then raise (IntegrityError ''match_value'')
     else seq_act (modify_db (\<lambda>d. d\<lparr>db_match_constraints := db_match_constraints d @ [c]\<rparr>))
            (insert_constraints cs))"

definition bulk_create_constraints :: "match_constraint list \<Rightarrow> unit dbact" where
  "bulk_create_constraints cs = atomic (insert_constraints cs)"

definition delete_constraints :: "pk set \<Rightarrow> unit dbact" where
  "delete_constraints items = modify_db (\<lambda>d. d\<lparr>db_match_constraints :=
     filter (\<lambda>c. \<not> (mc_collection_item_id c \<in> items \<and> mc_constraint_name c = ''pool-file''))
       (db_match_constraints d)\<rparr>)"

definition mark_removed :: "time \<Rightarrow> pk option \<Rightarrow> pk option \<Rightarrow> collection_item \<Rightarrow> unit dbact" where
  "mark_removed now user workflow item =
     save_item (item\<lparr>ci_removed_by_user := user, ci_removed_by_workflow := workflow,
       ci_removed_at := Some now\<rparr>)"

definition artifact_category :: "db \<Rightarrow> collection_item \<Rightarrow> string option" where
  "artifact_category d item =
     Option.bind (ci_artifact item) (\<lambda>a. map_option ar_category (tbl_get ar_id a (db_artifacts d)))"

text \<open>\<open>do_remove_item\<close> of the managers: suites and archives also give up constraints.\<close>

definition remove_item ::
  "collection \<Rightarrow> time \<Rightarrow> pk option \<Rightarrow> pk option \<Rightarrow> collection_item \<Rightarrow> unit dbact" where
  "remove_item self now user workflow item =
     seq_act (mark_removed now user workflow item)
       (with_db (\<lambda>d.
          if co_category self = SUITE then
            when_act (artifact_category d item \<in> {Some SOURCE_PACKAGE, Some BINARY_PACKAGE}
                \<and> may_reuse_versions self)
              (delete_constraints {ci_id item})
          else if co_category self = ARCHIVE then
            (case ci_collection item of
               None \<Rightarrow> ret ()
             | Some child \<Rightarrow> when_act (may_reuse_versions self)
                 (delete_constraints (ci_id ` set (filter (\<lambda>i. ci_parent_collection i = child)
                    (db_items d)))))
          else ret ()))"

definition remove_items_by_name ::
  "collection \<Rightarrow> time \<Rightarrow> string \<Rightarrow> child_type list \<Rightarrow> pk option \<Rightarrow> pk option \<Rightarrow> unit dbact" where
  "remove_items_by_name self now name kinds user workflow = with_db (\<lambda>d.
     for_each (filter (\<lambda>i. active i \<and> ci_parent_collection i = co_id self
                           \<and> ci_child_type i \<in> set kinds \<and> ci_name i = name) (db_items d))
       (remove_item self now user workflow))"

section \<open>Looking items up by name\<close>

text \<open>\<open>(.+)$\<close>: no newline but one at the very end, which the group leaves out.\<close>

definition dot_plus :: "string \<Rightarrow> string option" where
  "dot_plus s =
     (let t = takeWhile (\<lambda>c. c \<noteq> CHR 0x0A) s
      in if t \<noteq> [] \<and> at_dollar (drop (length t) s) then Some t else None)"

definition after_prefix :: "string \<Rightarrow> string \<Rightarrow> string option" where
  "after_prefix p s = (if starts_with p s then Some (drop (length p) s) else None)"

text \<open>The first part of \<open>lookup\<close>; \<open>None\<close> when the query is not a name.\<close>

definition lookup_by_name :: "db \<Rightarrow> collection \<Rightarrow> string \<Rightarrow> collection_item option res option" where
  "lookup_by_name d self query =
     map_option (\<lambda>name.
       case filter (\<lambda>i. ci_parent_collection i = co_id self \<and> active i \<and> ci_name i = name) (db_items d) of
         [] \<Rightarrow> Inr None
       | [i] \<Rightarrow> Inr (Some i)
       | _ \<Rightarrow> Inl (MultipleObjectsReturned ''CollectionItem''))
     (Option.bind (after_prefix ''name:'' query) dot_plus)"

section \<open>Retention of removed items\<close>

text \<open>A comparison with a null period is null and does not select the row.\<close>

definition removed_before :: "(collection \<Rightarrow> duration option) \<Rightarrow> db \<Rightarrow> time \<Rightarrow> collection_item \<Rightarrow> bool" where
  "removed_before period d at i =
     (case (ci_removed_at i, Option.bind (get_collection_row d (ci_parent_collection i)) period) of
        (Some removed, Some p) \<Rightarrow> removed < at - p | _ \<Rightarrow> False)"

definition drop_full_history :: "time \<Rightarrow> unit dbact" where
  "drop_full_history at = modify_db (\<lambda>d. d\<lparr>db_items :=
     map (\<lambda>i. if removed_before co_full_history_retention_period d at i
              then i\<lparr>ci_artifact := None\<rparr> else i) (db_items d)\<rparr>)"

definition total_retention :: "collection \<Rightarrow> duration option" where
  "total_retention c =
     (case (co_full_history_retention_period c, co_metadata_only_retention_period c) of
        (Some f, Some m) \<Rightarrow> Some (f + m) | _ \<Rightarrow> None)"

definition drop_metadata :: "time \<Rightarrow> unit dbact" where
  "drop_metadata at = modify_db (\<lambda>d. d\<lparr>db_items :=
     filter (\<lambda>i. \<not> removed_before total_retention d at i) (db_items d)\<rparr>)"

end
