(* ===== verification/Managers.thy ===== *)
theory Managers
  imports Collections
begin

text \<open>
  The collection managers (debusine/server/collections/*.py): adding bare data,
  artifacts and collections to a collection of each category, with the names and
  the data the managers compute, and the clean-up of old entries.
\<close>

section \<open>Values from the outside\<close>

type_synonym dict = "(string \<times> json) list"

definition data_get :: "dict \<Rightarrow> string \<Rightarrow> json res" where
  "data_get extra k = (case map_of extra k of None \<Rightarrow> Inl (KeyError k) | Some v \<Rightarrow> Inr v)"

definition joinable :: "json \<Rightarrow> string res" where
  "joinable v = (case v of JStr s \<Rightarrow> Inr s | _ \<Rightarrow> Inl (TypeError ''expected str instance''))"

text \<open>
  \<open>str(...)\<close> of the identifier of a work request. The string of a container is not
  modelled; Python would give its representation.
\<close>

definition py_str :: "json \<Rightarrow> string res" where
  "py_str v =
     (case v of
        JNull \<Rightarrow> Inr ''None''
      | JBool b \<Rightarrow> Inr (if b then ''True'' else ''False'')
      | JInt n \<Rightarrow> Inr (if n < 0 then ''-'' @ decimal (nat (- n)) else decimal (nat n))
      | JStr s \<Rightarrow> Inr s
      | _ \<Rightarrow> Inl (NotSupportedError ''str of a container''))"

primrec map_res :: "('a \<Rightarrow> 'b res) \<Rightarrow> 'a list \<Rightarrow> 'b list res" where
  "map_res f [] = Inr []"
| "map_res f (x # xs) = bind_res (f x) (\<lambda>y. bind_res (map_res f xs) (\<lambda>ys. Inr (y # ys)))"

fun join_with :: "string \<Rightarrow> string list \<Rightarrow> string" where
  "join_with sep [] = []"
| "join_with sep [x] = x"
| "join_with sep (x # xs) = x @ sep @ join_with sep xs"

definition join_fields :: "string \<Rightarrow> json list \<Rightarrow> string res" where
  "join_fields sep vs = bind_res (map_res joinable vs) (\<lambda>xs. Inr (join_with sep xs))"

definition wrap_integrity :: "'a dbact \<Rightarrow> 'a dbact" where
  "wrap_integrity m = catch_act m (\<lambda>e. case e of IntegrityError s \<Rightarrow> raise (ItemAdditionError s) | _ \<Rightarrow> raise e)"

text \<open>What the managers do once the name is known.\<close>

definition replace_then ::
  "adding \<Rightarrow> collection \<Rightarrow> string \<Rightarrow> child_type list \<Rightarrow> 'a dbact \<Rightarrow> 'a dbact" where
  "replace_then ad self name kinds m =
     seq_act (when_act (ad_replace ad)
         (remove_items_by_name self (ad_now ad) name kinds (Some (ad_user ad)) (ad_workflow ad)))
       (wrap_integrity m)"

section \<open>Internal collections of workflows\<close>

definition internal_add_bare_data ::
  "data_models \<Rightarrow> collection \<Rightarrow> adding \<Rightarrow> string \<Rightarrow> dict option \<Rightarrow> collection_item dbact" where
  "internal_add_bare_data dm self ad category extra =
     (case ad_name ad of
        None \<Rightarrow> raise (ItemAdditionError ''requires an item name'')
      | Some name \<Rightarrow>
          if category \<noteq> ''debusine:promise''
             \<and> list_ex (\<lambda>p. starts_with ''promise_'' (fst p)) (case extra of None \<Rightarrow> [] | Some ps \<Rightarrow> ps)
          then raise (ItemAdditionError ''Fields starting with promise_ are not allowed'')
          else replace_then ad self name [BARE]
                 (create_from_bare_data dm ad self category name (case extra of None \<Rightarrow> [] | Some ps \<Rightarrow> ps)))"

definition internal_add_artifact ::
  "collection \<Rightarrow> adding \<Rightarrow> artifact \<Rightarrow> dict option \<Rightarrow> collection_item dbact" where
  "internal_add_artifact self ad art variables =
     (case ad_name ad of
        None \<Rightarrow> raise (ItemAdditionError ''requires an item name'')
      | Some name \<Rightarrow>
          seq_act (when_act (ad_replace ad)
              (remove_items_by_name self (ad_now ad) name [ARTIFACT, BARE] (Some (ad_user ad))
                 (ad_workflow ad)))
            (if list_ex (\<lambda>p. starts_with ''promise_'' (fst p)) (case variables of None \<Rightarrow> [] | Some ps \<Rightarrow> ps)
             then raise (ItemAdditionError ''Keys starting with promise_ are not allowed in variables'')
             else wrap_integrity (create_from_artifact ad self art name
                    (case variables of None \<Rightarrow> [] | Some ps \<Rightarrow> ps))))"

section \<open>Environments\<close>

definition variable :: "dict option \<Rightarrow> string \<Rightarrow> json option" where
  "variable variables k = Option.bind variables (\<lambda>ps. map_of ps k)"

definition or_empty :: "json \<Rightarrow> json" where
  "or_empty v = (if truth v then v else JStr [])"

definition environments_add_artifact ::
  "collection \<Rightarrow> adding \<Rightarrow> artifact \<Rightarrow> dict option \<Rightarrow> collection_item dbact" where
  "environments_add_artifact self ad art variables =
     bind_act (lift_res (case variable variables ''codename'' of
         Some v \<Rightarrow> Inr v | None \<Rightarrow> data_get (ar_data art) ''codename'')) (\<lambda>codename.
     let variant = (case variable variables ''variant'' of Some v \<Rightarrow> v | None \<Rightarrow> JNull);
         backend = (case variable variables ''backend'' of Some v \<Rightarrow> v | None \<Rightarrow> JNull)
     in bind_act (lift_res (data_get (ar_data art) ''architecture'')) (\<lambda>architecture.
     bind_act (lift_res (if ar_category art = ''debian:system-tarball'' then Inr ''tarball''
         else if ar_category art = ''debian:system-image'' then Inr ''image''
         else Inl (AssertionError []))) (\<lambda>format.
     bind_act (lift_res (join_fields '':'' ([JStr format, codename, architecture]
         @ (if variant \<noteq> JNull \<or> backend \<noteq> JNull then [or_empty variant, or_empty backend] else []))))
       (\<lambda>name.
     replace_then ad self name [ARTIFACT]
       (create_from_artifact ad self art name
          [(''codename'', codename), (''architecture'', architecture), (''variant'', variant),
           (''backend'', backend)])))))"

section \<open>Build logs\<close>

definition build_log_name :: "json \<Rightarrow> json \<Rightarrow> json \<Rightarrow> json \<Rightarrow> json \<Rightarrow> json \<Rightarrow> string res" where
  "build_log_name vendor codename architecture srcpkg_name srcpkg_version work_request_id =
     bind_res (py_str work_request_id) (\<lambda>i.
       join_fields ''_'' [vendor, codename, architecture, srcpkg_name, srcpkg_version, JStr i])"

definition build_logs_add_bare_data ::
  "data_models \<Rightarrow> collection \<Rightarrow> adding \<Rightarrow> string \<Rightarrow> dict option \<Rightarrow> collection_item dbact" where
  "build_logs_add_bare_data dm self ad category extra =
     (case extra of
        None \<Rightarrow> raise (ItemAdditionError ''requires data'')
      | Some ps \<Rightarrow>
          bind_act (lift_res (map_res (data_get ps) [''work_request_id'', ''vendor'', ''codename'',
              ''architecture'', ''srcpkg_name'', ''srcpkg_version''])) (\<lambda>vs.
          bind_act (lift_res (build_log_name (vs ! 1) (vs ! 2) (vs ! 3) (vs ! 4) (vs ! 5) (vs ! 0))) (\<lambda>name.
            replace_then ad self name [BARE] (create_from_bare_data dm ad self category name ps))))"

text \<open>\<open>WorkRequest.objects.get(id=...)\<close> for an identifier given as JSON.\<close>

definition wr_by_json :: "db \<Rightarrow> json \<Rightarrow> work_request res" where
  "wr_by_json d v =
     (case v of
        JInt n \<Rightarrow> if n < 0 then Inl (DoesNotExist ''WorkRequest'')
                  else (case get_wr d (nat n) of None \<Rightarrow> Inl (DoesNotExist ''WorkRequest'') | Some w \<Rightarrow> Inr w)
      | _ \<Rightarrow> Inl (ValueError ''expected a number''))"

definition build_logs_add_artifact ::
  "collection \<Rightarrow> adding \<Rightarrow> artifact \<Rightarrow> dict option \<Rightarrow> collection_item dbact" where
  "build_logs_add_artifact self ad art variables =
     (case variables of
        None \<Rightarrow> raise (ItemAdditionError ''requires variables'')
      | Some ps \<Rightarrow>
          bind_act (lift_res (map_res (data_get ps) [''work_request_id'', ''vendor'', ''codename'',
              ''architecture''])) (\<lambda>vs.
          bind_act (lift_res (case map_of ps ''srcpkg_name'' of
              Some v \<Rightarrow> Inr v | None \<Rightarrow> data_get (ar_data art) ''source'')) (\<lambda>srcpkg_name.
          bind_act (lift_res (case map_of ps ''srcpkg_version'' of
              Some v \<Rightarrow> Inr v | None \<Rightarrow> data_get (ar_data art) ''version'')) (\<lambda>srcpkg_version.
          with_db (\<lambda>d.
          bind_act (lift_res (wr_by_json d (vs ! 0))) (\<lambda>work_request.
          let worker = Option.bind (wr_worker work_request) (get_worker d);
              extra = [(''work_request_id'', vs ! 0), (''vendor'', vs ! 1), (''codename'', vs ! 2),
                (''architecture'', vs ! 3), (''srcpkg_name'', srcpkg_name),
                (''srcpkg_version'', srcpkg_version)]
                @ (case worker of None \<Rightarrow> [] | Some w \<Rightarrow> [(''worker'', JStr (wk_name w))])
          in bind_act (lift_res (build_log_name (vs ! 1) (vs ! 2) (vs ! 3) srcpkg_name srcpkg_version
                (vs ! 0))) (\<lambda>name.
               replace_then ad self name [BARE, ARTIFACT]
                 (create_from_artifact ad self art name extra))))))))"

section \<open>Task configuration\<close>

definition task_configuration_add_bare_data ::
  "data_models \<Rightarrow> collection \<Rightarrow> adding \<Rightarrow> string \<Rightarrow> dict option \<Rightarrow> collection_item dbact" where
  "task_configuration_add_bare_data dm self ad category extra =
     (case extra of
        None \<Rightarrow> raise (ItemAdditionError ''requires data'')
      | Some ps \<Rightarrow>
          if ad_name ad \<noteq> None then raise (ItemAdditionError ''Cannot use an explicit item name'')
          else bind_act (lift_res (task_configuration_of (dm_coerce dm) ps)) (\<lambda>config.
            replace_then ad self (config_name config) [BARE]
              (create_from_bare_data dm ad self category (config_name config) ps)))"

section \<open>Task history\<close>

text \<open>
  \<open>Window(Rank(), partition_by, order_by="-...")\<close> over a query: one more than the
  number of its rows in the same partition that sort strictly before.
\<close>

definition rank_in ::
  "(collection_item \<Rightarrow> collection_item \<Rightarrow> bool) \<Rightarrow> (collection_item \<Rightarrow> collection_item \<Rightarrow> bool) \<Rightarrow>
     collection_item list \<Rightarrow> collection_item \<Rightarrow> nat" where
  "rank_in same earlier rows i = Suc (length (filter (\<lambda>j. same i j \<and> earlier j i) rows))"

definition same_fields :: "string list \<Rightarrow> collection_item \<Rightarrow> collection_item \<Rightarrow> bool" where
  "same_fields keys i j \<longleftrightarrow> list_all (\<lambda>k. field_text i k = field_text j k) keys"

definition newer :: "collection_item \<Rightarrow> collection_item \<Rightarrow> bool" where
  "newer j i \<longleftrightarrow> ci_created_at j > ci_created_at i"

text \<open>\<open>self.collection.data.get("old_items_to_keep", 5)\<close>, an integer.\<close>

definition old_items_to_keep :: "collection \<Rightarrow> int res" where
  "old_items_to_keep self =
     (case collection_data self ''old_items_to_keep'' of
        None \<Rightarrow> Inr 5
      | Some (JInt n) \<Rightarrow> Inr n
      | Some (JBool b) \<Rightarrow> Inr (if b then 1 else 0)
      | Some _ \<Rightarrow> Inl (ValueError ''Cannot use as a query value''))"

definition has_result :: "string list \<Rightarrow> collection_item \<Rightarrow> bool" where
  "has_result results i \<longleftrightarrow> map_of (ci_data i) ''result'' \<in> (\<lambda>r. Some (JStr r)) ` set results"

definition history_of ::
  "db \<Rightarrow> collection \<Rightarrow> string \<Rightarrow> json \<Rightarrow> json \<Rightarrow> collection_item list" where
  "history_of d self category type_of_task name_of_task =
     filter (\<lambda>i. ci_parent_collection i = co_id self \<and> ci_child_type i = BARE
       \<and> ci_category i = category \<and> map_of (ci_data i) ''task_type'' = Some type_of_task
       \<and> map_of (ci_data i) ''task_name'' = Some name_of_task) (db_items d)"

definition history_rank :: "collection_item list \<Rightarrow> collection_item \<Rightarrow> nat" where
  "history_rank = rank_in (same_fields [''subject'', ''context'']) newer"

text \<open>What the clean-up keeps: the item itself, and what three queries select.\<close>

definition history_kept :: "int \<Rightarrow> pk \<Rightarrow> collection_item list \<Rightarrow> collection_item \<Rightarrow> bool" where
  "history_kept keep item old_items i \<longleftrightarrow>
     ci_id i = item
     \<or> (let successes = filter (has_result [''success'']) old_items
        in i \<in> set successes \<and> history_rank successes i = 1)
     \<or> (let failures = filter (has_result [''failure'', ''error'']) old_items
        in i \<in> set failures \<and> history_rank failures i = 1)
     \<or> int (history_rank old_items i) \<le> keep"

text \<open>\<open>quote(data.get(key) or "")\<close>.\<close>

definition quoted_field :: "dict \<Rightarrow> string \<Rightarrow> string res" where
  "quoted_field ps k =
     (case map_of ps k of
        None \<Rightarrow> Inr []
      | Some v \<Rightarrow> (case or_empty v of JStr s \<Rightarrow> Inr (quote s)
                   | _ \<Rightarrow> Inl (TypeError ''quote_from_bytes() expected bytes'')))"

definition history_add_bare_data ::
  "data_models \<Rightarrow> collection \<Rightarrow> adding \<Rightarrow> string \<Rightarrow> dict option \<Rightarrow> collection_item dbact" where
  "history_add_bare_data dm self ad category extra =
     (case extra of
        None \<Rightarrow> raise (ItemAdditionError ''requires data'')
      | Some ps \<Rightarrow>
          if ad_name ad \<noteq> None then raise (ItemAdditionError ''Cannot use an explicit item name'')
          else
            bind_act (lift_res (map_res (data_get ps) [''work_request_id'', ''task_type'', ''task_name'']))
              (\<lambda>vs.
            bind_act (lift_res (quoted_field ps ''subject'')) (\<lambda>quoted_subject.
            bind_act (lift_res (quoted_field ps ''context'')) (\<lambda>quoted_context.
            bind_act (lift_res (py_str (vs ! 0))) (\<lambda>work_request_id.
            bind_act (lift_res (join_fields '':'' [vs ! 1, vs ! 2, JStr quoted_subject,
                JStr quoted_context, JStr work_request_id])) (\<lambda>name.
            bind_act (replace_then ad self name [BARE]
                (create_from_bare_data dm ad self category name ps)) (\<lambda>item.
            bind_act (lift_res (old_items_to_keep self)) (\<lambda>keep.
            with_db (\<lambda>d.
              let old_items = history_of d self category (vs ! 1) (vs ! 2)
              in seq_act
                   (for_each (filter (\<lambda>i. \<not> history_kept keep (ci_id item) old_items i) old_items)
                      (remove_item self (ad_now ad) (Some (ad_user ad)) (ad_workflow ad)))
                   (ret item))))))))))"

section \<open>QA results\<close>

definition timestamp_of :: "collection_item \<Rightarrow> int option" where
  "timestamp_of i = (case map_of (ci_data i) ''timestamp'' of Some (JInt n) \<Rightarrow> Some n | _ \<Rightarrow> None)"

text \<open>In descending order nulls come first.\<close>

definition later_timestamp :: "collection_item \<Rightarrow> collection_item \<Rightarrow> bool" where
  "later_timestamp j i =
     (case (timestamp_of j, timestamp_of i) of
        (Some n, Some m) \<Rightarrow> n > m | (None, Some m) \<Rightarrow> True | _ \<Rightarrow> False)"

definition qa_results_expire :: "collection \<Rightarrow> adding \<Rightarrow> pk set \<Rightarrow> unit dbact" where
  "qa_results_expire self ad exclude =
     bind_act (lift_res (old_items_to_keep self)) (\<lambda>keep.
     with_db (\<lambda>d.
       let old_items = filter (\<lambda>i. active i \<and> ci_parent_collection i = co_id self) (db_items d);
           rank = rank_in (same_fields [''task_name'', ''package'', ''architecture'']) later_timestamp
                    old_items;
           expired = (\<lambda>i. i \<in> set old_items \<and> ci_id i \<notin> exclude \<and> \<not> int (rank i) \<le> keep)
       in modify_db (\<lambda>d. d\<lparr>db_items := map (\<lambda>i. if expired i
            then i\<lparr>ci_removed_by_user := Some (ad_user ad), ci_removed_by_workflow := ad_workflow ad,
                   ci_removed_at := Some (ad_now ad)\<rparr>
            else i) (db_items d)\<rparr>)))"

text \<open>
  The fields of a result, for a bare item as for an artifact. Pydantic would also
  convert a timestamp given as a string of digits.
\<close>

definition qa_result_data :: "db \<Rightarrow> dict \<Rightarrow> (string \<times> dict) res" where
  "qa_result_data d ps =
     bind_res (map_res (data_get ps) [''package'', ''version'', ''architecture'', ''timestamp'',
         ''work_request_id'']) (\<lambda>vs.
     bind_res (wr_by_json d (vs ! 4)) (\<lambda>work_request.
     bind_res (case vs ! 3 of JInt n \<Rightarrow> Inr n | _ \<Rightarrow> Inl (ValueError ''value is not a valid integer''))
       (\<lambda>timestamp.
     bind_res (py_str (vs ! 4)) (\<lambda>i.
     bind_res (join_fields ''_'' [JStr (wr_task_name work_request), vs ! 0, vs ! 1, vs ! 2, JStr i])
       (\<lambda>name.
     Inr (name, [(''task_name'', JStr (wr_task_name work_request)), (''package'', vs ! 0),
       (''version'', vs ! 1), (''architecture'', vs ! 2), (''timestamp'', JInt timestamp),
       (''work_request_id'', vs ! 4), (''result'', JStr (result_value (wr_result work_request)))]))))))"

definition qa_results_add ::
  "collection \<Rightarrow> adding \<Rightarrow> child_type list \<Rightarrow> (string \<Rightarrow> dict \<Rightarrow> collection_item dbact) \<Rightarrow>
     dict option \<Rightarrow> collection_item dbact" where
  "qa_results_add self ad kinds create extra =
     (case extra of
        None \<Rightarrow> raise (ItemAdditionError ''requires data'')
      | Some ps \<Rightarrow>
          if ad_name ad \<noteq> None then raise (ItemAdditionError ''Cannot use an explicit item name'')
          else with_db (\<lambda>d.
            bind_act (lift_res (qa_result_data d ps)) (\<lambda>(name, fields).
            bind_act (replace_then ad self name kinds (create name fields)) (\<lambda>item.
            seq_act (qa_results_expire self ad {ci_id item}) (ret item)))))"

definition qa_results_add_bare_data ::
  "data_models \<Rightarrow> collection \<Rightarrow> adding \<Rightarrow> string \<Rightarrow> dict option \<Rightarrow> collection_item dbact" where
  "qa_results_add_bare_data dm self ad category =
     qa_results_add self ad [BARE] (create_from_bare_data dm ad self category)"

definition qa_results_add_artifact ::
  "collection \<Rightarrow> adding \<Rightarrow> artifact \<Rightarrow> dict option \<Rightarrow> collection_item dbact" where
  "qa_results_add_artifact self ad art =
     qa_results_add self ad [BARE, ARTIFACT] (create_from_artifact ad self art)"

section \<open>Suites\<close>

definition make_source_prefix :: "string \<Rightarrow> string" where
  "make_source_prefix source_package_name =
     (if starts_with ''lib'' source_package_name then take 4 source_package_name
      else take 1 source_package_name)"

definition make_pool_filename :: "string \<Rightarrow> string \<Rightarrow> string \<Rightarrow> string" where
  "make_pool_filename source_package_name component base_name =
     ''pool/'' @ component @ ''/'' @ make_source_prefix source_package_name @ ''/''
       @ source_package_name @ ''/'' @ base_name"

definition hash_digest :: "db \<Rightarrow> pk \<Rightarrow> string" where
  "hash_digest d f = ''sha256:'' @ (case get_file d f of None \<Rightarrow> [] | Some r \<Rightarrow> hex (fi_sha256 r))"

definition containing_archives :: "db \<Rightarrow> pk \<Rightarrow> pk list" where
  "containing_archives d suite =
     concat (map (\<lambda>c. map (\<lambda>_. co_id c)
         (filter (\<lambda>i. ci_parent_collection i = co_id c \<and> active i \<and> ci_collection i = Some suite)
            (db_items d)))
       (filter (\<lambda>c. co_category c = ARCHIVE) (db_collections d)))"

definition make_constraints ::
  "db \<Rightarrow> collection \<Rightarrow> collection_item \<Rightarrow> pk \<Rightarrow> string \<Rightarrow> string \<Rightarrow> match_constraint list" where
  "make_constraints d self item art source_package_name component =
     concat (map (\<lambda>f. map (\<lambda>coll.
           \<lparr>mc_collection = coll, mc_collection_item_id = ci_id item,
            mc_constraint_name = ''pool-file'',
            mc_key = make_pool_filename source_package_name component (fa_path f),
            mc_value = hash_digest d (fa_file f)\<rparr>)
         (co_id self # containing_archives d (co_id self)))
       (filter (\<lambda>f. fa_artifact f = art) (db_file_in_artifacts d)))"

definition required_variables :: "string \<Rightarrow> string list res" where
  "required_variables category =
     (if category = SOURCE_PACKAGE then Inr [''component'', ''section'']
      else if category = BINARY_PACKAGE then Inr [''component'', ''section'', ''priority'']
      else if category = REPOSITORY_INDEX then Inr [''path'']
      else Inl (KeyError category))"

text \<open>
  The data of the item, its name, and the source package and the component of the
  files in the pool. Variables that go into a file name are strings.
\<close>

definition suite_item_data ::
  "data_models \<Rightarrow> artifact \<Rightarrow> dict \<Rightarrow> (dict \<times> string \<times> string) res" where
  "suite_item_data dm art ps =
     (if ar_category art = SOURCE_PACKAGE then
        bind_res (dm_source_package dm (ar_data art)) (\<lambda>(name, version).
        bind_res (map_res (data_get ps) [''component'', ''section'']) (\<lambda>vs.
          Inr ([(''package'', JStr name), (''version'', JStr version), (''component'', vs ! 0),
                (''section'', vs ! 1)], name @ ''_'' @ version, name)))
      else if ar_category art = BINARY_PACKAGE then
        bind_res (dm_binary_package dm (ar_data art))
          (\<lambda>(srcpkg_name, srcpkg_version, package, version, architecture).
        bind_res (map_res (data_get ps) [''component'', ''section'', ''priority'']) (\<lambda>vs.
          Inr ([(''srcpkg_name'', JStr srcpkg_name), (''srcpkg_version'', JStr srcpkg_version),
                (''package'', JStr package), (''version'', JStr version),
                (''architecture'', JStr architecture), (''component'', vs ! 0), (''section'', vs ! 1),
                (''priority'', vs ! 2)],
               package @ ''_'' @ version @ ''_'' @ architecture, srcpkg_name)))
      else
        bind_res (data_get ps ''path'') (\<lambda>path.
        bind_res (py_str path) (\<lambda>path_text.
          Inr ([(''path'', path)], ''index:'' @ path_text, []))))"

definition suite_add_artifact ::
  "data_models \<Rightarrow> collection \<Rightarrow> adding \<Rightarrow> artifact \<Rightarrow> dict option \<Rightarrow> collection_item dbact" where
  "suite_add_artifact dm self ad art variables =
     bind_act (lift_res (required_variables (ar_category art))) (\<lambda>required.
     let ps = (case variables of None \<Rightarrow> [] | Some ps \<Rightarrow> ps)
     in if list_ex (\<lambda>k. map_of ps k = None) required then raise (ItemAdditionError ''requires variables'')
     else bind_act (lift_res (suite_item_data dm art ps)) (\<lambda>(extra, name, source_package_name).
       replace_then ad self name [ARTIFACT]
         (bind_act (create_from_artifact ad self art name extra) (\<lambda>item.
            seq_act
              (if ad_replaced_by ad = None \<and> ar_category art \<in> {SOURCE_PACKAGE, BINARY_PACKAGE}
               then bind_act (lift_res (bind_res (data_get extra ''component'') py_str)) (\<lambda>component.
                 with_db (\<lambda>d. bulk_create_constraints
                   (make_constraints d self item (ar_id art) source_package_name component)))
               else ret ())
              (ret item)))))"

section \<open>Archives\<close>

definition archive_add_artifact ::
  "collection \<Rightarrow> adding \<Rightarrow> artifact \<Rightarrow> dict option \<Rightarrow> collection_item dbact" where
  "archive_add_artifact self ad art variables =
     (case variable variables ''path'' of
        None \<Rightarrow> raise (ItemAdditionError ''requires path'')
      | Some path \<Rightarrow>
          (case path of
             JStr path_text \<Rightarrow>
               if starts_with ''dists/'' path_text
               then raise (ItemAdditionError ''paths under dists/'')
               else replace_then ad self (''index:'' @ path_text) [ARTIFACT]
                 (create_from_artifact ad self art (''index:'' @ path_text) [(''path'', path)])
           | _ \<Rightarrow> raise (AttributeError ''startswith'')))"

text \<open>The constraints of the suite are copied to the archive in one statement.\<close>

definition copy_constraints :: "db \<Rightarrow> collection \<Rightarrow> collection \<Rightarrow> match_constraint list" where
  "copy_constraints d self suite =
     map (\<lambda>c. c\<lparr>mc_collection := co_id self\<rparr>)
       (filter (\<lambda>c. mc_collection c = co_id suite \<and> mc_constraint_name c = ''pool-file'')
          (db_match_constraints d))"

definition archive_add_collection ::
  "collection \<Rightarrow> adding \<Rightarrow> collection \<Rightarrow> collection_item dbact" where
  "archive_add_collection self ad suite =
     (if co_workspace suite \<noteq> co_workspace self
      then raise (if co_category suite = SUITE then ItemAdditionError ''must be in the same workspace''
                  else AssertionError [])
      else wrap_integrity
        (bind_act (create_from_collection ad self suite (co_name suite) []) (\<lambda>item.
           seq_act
             (when_act (active item)
                (with_db (\<lambda>d. bulk_create_constraints (copy_constraints d self suite))))
             (ret item))))"

section \<open>Lintian analyses\<close>

definition relates :: "db \<Rightarrow> pk \<Rightarrow> relation_type \<Rightarrow> pk \<Rightarrow> bool" where
  "relates d a t b \<longleftrightarrow>
     list_ex (\<lambda>r. rl_artifact r = a \<and> rl_type r = t \<and> rl_target r = b) (db_artifact_relations d)"

definition source_of_analysis :: "db \<Rightarrow> pk \<Rightarrow> pk \<Rightarrow> bool" where
  "source_of_analysis d analysis src \<longleftrightarrow>
     relates d analysis RELATES_TO src
     \<or> list_ex (\<lambda>b. relates d (ar_id b) BUILT_USING src \<and> relates d analysis RELATES_TO (ar_id b)
                  \<and> ar_category b \<in> {BINARY_PACKAGE, ''debian:binary-packages''}) (db_artifacts d)
     \<or> list_ex (\<lambda>b. relates d (ar_id b) BUILT_USING src \<and> ar_category b = BINARY_PACKAGE
                  \<and> list_ex (\<lambda>u. relates d (ar_id u) EXTENDS (ar_id b) \<and> ar_category u = ''debian:upload''
                                \<and> relates d analysis RELATES_TO (ar_id u)) (db_artifacts d))
         (db_artifacts d)"

definition get_related_source_package :: "db \<Rightarrow> artifact \<Rightarrow> artifact res" where
  "get_related_source_package d art =
     (case filter (\<lambda>s. ar_category s = SOURCE_PACKAGE \<and> source_of_analysis d (ar_id art) (ar_id s))
             (db_artifacts d) of
        [] \<Rightarrow> Inl (DoesNotExist ''Artifact'')
      | [s] \<Rightarrow> Inr s
      | _ \<Rightarrow> Inl (MultipleObjectsReturned ''Artifact''))"

definition ends_with :: "string \<Rightarrow> string \<Rightarrow> bool" where
  "ends_with p s \<longleftrightarrow> length p \<le> length s \<and> drop (length s - length p) s = p"

text \<open>The string up to a final newline; \<open>None\<close> when there is another one before.\<close>

definition one_line :: "string \<Rightarrow> string option" where
  "one_line s = (let t = takeWhile (\<lambda>c. c \<noteq> CHR 0x0A) s
                 in if at_dollar (drop (length t) s) then Some t else None)"

definition filename_architecture :: "string \<Rightarrow> string option" where
  "filename_architecture filename =
     Option.bind (one_line filename) (\<lambda>s.
       if ends_with ''.dsc'' s then Some ''source''
       else
         Option.bind (if ends_with ''.udeb'' s then Some (take (length s - 5) s)
                      else if ends_with ''.deb'' s then Some (take (length s - 4) s) else None) (\<lambda>t.
           if CHR ''_'' \<in> set t then Some (rev (takeWhile (\<lambda>c. c \<noteq> CHR ''_'') (rev t))) else None))"

definition get_lintian_architecture :: "string list \<Rightarrow> string res" where
  "get_lintian_architecture filenames =
     (case remdups (List.map_filter filename_architecture filenames) of
        [] \<Rightarrow> Inl (ItemAdditionError ''Could not infer any architectures'')
      | [a] \<Rightarrow> Inr a
      | _ \<Rightarrow> Inl (ItemAdditionError ''Analysis refers to multiple architectures''))"

definition lintian_add_artifact ::
  "data_models \<Rightarrow> collection \<Rightarrow> adding \<Rightarrow> artifact \<Rightarrow> dict option \<Rightarrow> collection_item dbact" where
  "lintian_add_artifact dm self ad art variables = with_db (\<lambda>d.
     bind_act (lift_res (case get_related_source_package d art of
         Inl (DoesNotExist e) \<Rightarrow> Inl (ItemAdditionError ''has no related source package'')
       | Inl (MultipleObjectsReturned e) \<Rightarrow> Inl (ItemAdditionError ''has multiple related source packages'')
       | r \<Rightarrow> r)) (\<lambda>source.
     bind_act (lift_res (dm_source_package dm (ar_data source))) (\<lambda>(source_name, source_version).
     bind_act (lift_res (bind_res (dm_lintian_filenames dm (ar_data art)) get_lintian_architecture))
       (\<lambda>architecture.
     bind_act (lift_res (case variable variables ''derived_from_ids'' of
         None \<Rightarrow> Inr []
       | Some (JList ids) \<Rightarrow> if list_all (\<lambda>i. case i of JInt n \<Rightarrow> True | JBool b \<Rightarrow> True | _ \<Rightarrow> False) ids
                             then Inr [(''derived_from'', JList ids)] else Inl (AssertionError [])
       | Some _ \<Rightarrow> Inl (AssertionError []))) (\<lambda>derived.
     let name = source_name @ ''_'' @ source_version @ ''_'' @ architecture
     in replace_then ad self name [ARTIFACT]
          (create_from_artifact ad self art name
             ([(''package'', JStr source_name), (''version'', JStr source_version),
               (''architecture'', JStr architecture)] @ derived)))))))"

section \<open>Adding to any collection\<close>

definition unsupported :: "'a dbact" where
  "unsupported = raise (ItemAdditionError ''not supported by the collection'')"

text \<open>\<open>add_bare_data\<close>: the valid categories of each manager, then its method.\<close>

definition add_bare_data ::
  "data_models \<Rightarrow> collection \<Rightarrow> adding \<Rightarrow> string \<Rightarrow> dict option \<Rightarrow> collection_item dbact" where
  "add_bare_data dm self ad category extra =
     (if co_category self \<notin> set managed_categories then raise (KeyError (co_category self))
      else if co_category self = WORKFLOW_INTERNAL then internal_add_bare_data dm self ad category extra
      else if co_category self = PACKAGE_BUILD_LOGS \<and> category = ''debian:package-build-log''
      then build_logs_add_bare_data dm self ad category extra
      else if co_category self = TASK_CONFIGURATION \<and> category = ''debusine:task-configuration''
      then task_configuration_add_bare_data dm self ad category extra
      else if co_category self = TASK_HISTORY \<and> category = ''debusine:historical-task-run''
      then history_add_bare_data dm self ad category extra
      else if co_category self = QA_RESULTS \<and> category = ''debian:qa-result''
      then qa_results_add_bare_data dm self ad category extra
      else unsupported)"

definition add_artifact ::
  "data_models \<Rightarrow> collection \<Rightarrow> adding \<Rightarrow> artifact \<Rightarrow> dict option \<Rightarrow> collection_item dbact" where
  "add_artifact dm self ad art variables =
     (let category = ar_category art in
      if co_category self \<notin> set managed_categories then raise (KeyError (co_category self))
      else if co_category self = WORKFLOW_INTERNAL then internal_add_artifact self ad art variables
      else if co_category self = ENVIRONMENTS
        \<and> category \<in> {''debian:system-tarball'', ''debian:system-image''}
      then environments_add_artifact self ad art variables
      else if co_category self = SUITE \<and> category \<in> {SOURCE_PACKAGE, BINARY_PACKAGE, REPOSITORY_INDEX}
      then suite_add_artifact dm self ad art variables
      else if co_category self = ARCHIVE \<and> category = REPOSITORY_INDEX
      then archive_add_artifact self ad art variables
      else if co_category self = SUITE_LINTIAN \<and> category = ''debian:lintian''
      then lintian_add_artifact dm self ad art variables
      else if co_category self = PACKAGE_BUILD_LOGS \<and> category = ''debian:package-build-log''
      then build_logs_add_artifact self ad art variables
      else if co_category self = QA_RESULTS
        \<and> category \<in> {''debian:autopkgtest'', ''debian:blhc'', ''debian:lintian''}
      then qa_results_add_artifact self ad art variables
      else unsupported)"

definition add_collection ::
  "collection \<Rightarrow> adding \<Rightarrow> collection \<Rightarrow> collection_item dbact" where
  "add_collection self ad child =
     (if co_category self \<notin> set managed_categories then raise (KeyError (co_category self))
      else if co_category self = ARCHIVE \<and> co_category child = SUITE
      then archive_add_collection self ad child
      else unsupported)"

end
