(* ===== verification/PoolFiles.thy ===== *)
theory PoolFiles
  imports Managers
begin

text \<open>
  Suites and archives share the pool of a repository: what the managers do to keep
  every file of the pool from meaning two different contents.
\<close>

section \<open>The files a suite publishes\<close>

text \<open>An active package of a suite, and the source package and component in its data.\<close>

definition suite_item :: "collection_item \<Rightarrow> bool" where
  "suite_item i \<longleftrightarrow> active i \<and> ci_child_type i = ARTIFACT \<and> ci_parent_category i = SUITE
     \<and> ci_category i \<in> {SOURCE_PACKAGE, BINARY_PACKAGE}"

definition item_pool_name :: "collection_item \<Rightarrow> (string \<times> string) option" where
  "item_pool_name i =
     (case (map_of (ci_data i) (if ci_category i = SOURCE_PACKAGE then ''package'' else ''srcpkg_name''),
            map_of (ci_data i) ''component'') of
        (Some (JStr n), Some c) \<Rightarrow> (case py_str c of Inr t \<Rightarrow> Some (n, t) | Inl e \<Rightarrow> None)
      | _ \<Rightarrow> None)"

definition pool_files :: "db \<Rightarrow> collection_item \<Rightarrow> (string \<times> string) list" where
  "pool_files d i =
     (case (item_pool_name i, ci_artifact i) of
        (Some (n, c), Some a) \<Rightarrow>
          map (\<lambda>f. (make_pool_filename n c (fa_path f), hash_digest d (fa_file f)))
            (filter (\<lambda>f. fa_artifact f = a) (db_file_in_artifacts d))
      | _ \<Rightarrow> [])"

text \<open>The collections whose pool the items of a suite are in.\<close>

definition pools_of :: "db \<Rightarrow> pk \<Rightarrow> pk list" where
  "pools_of d suite = suite # containing_archives d suite"

definition pool_row :: "pk \<Rightarrow> pk \<Rightarrow> string \<times> string \<Rightarrow> match_constraint" where
  "pool_row coll item p = \<lparr>mc_collection = coll, mc_collection_item_id = item,
     mc_constraint_name = ''pool-file'', mc_key = fst p, mc_value = snd p\<rparr>"

definition guarded :: "db \<Rightarrow> bool" where
  "guarded d \<longleftrightarrow> (\<forall>i\<in>set (db_items d). suite_item i \<longrightarrow>
     (\<forall>coll\<in>set (pools_of d (ci_parent_collection i)). \<forall>p\<in>set (pool_files d i).
        pool_row coll (ci_id i) p \<in> set (db_match_constraints d)))"

definition exclusive :: "db \<Rightarrow> bool" where
  "exclusive d \<longleftrightarrow> (\<forall>c\<in>set (db_match_constraints d). \<forall>e\<in>set (db_match_constraints d). \<not> conflicting c e)"

definition consistent_items :: "db \<Rightarrow> bool" where
  "consistent_items d \<longleftrightarrow> (\<forall>i\<in>set (db_items d). childtype_consistent i)"

text \<open>The tables the managers only read.\<close>

definition same_base :: "db \<Rightarrow> db \<Rightarrow> bool" where
  "same_base d\<^sub>0 d \<longleftrightarrow> db_collections d = db_collections d\<^sub>0 \<and> db_artifacts d = db_artifacts d\<^sub>0
     \<and> db_files d = db_files d\<^sub>0 \<and> db_file_in_artifacts d = db_file_in_artifacts d\<^sub>0"

definition pool_ok :: "db \<Rightarrow> db \<Rightarrow> bool" where
  "pool_ok d\<^sub>0 d \<longleftrightarrow> guarded d \<and> exclusive d \<and> consistent_items d \<and> same_base d\<^sub>0 d"

lemma pool_row_simps [simp]:
  "mc_collection (pool_row c i p) = c" "mc_collection_item_id (pool_row c i p) = i"
  "mc_constraint_name (pool_row c i p) = ''pool-file''" "mc_key (pool_row c i p) = fst p"
  "mc_value (pool_row c i p) = snd p"
  by (simp_all add: pool_row_def)

lemma guardedI:
  assumes "\<And>i coll p. i \<in> set (db_items d) \<Longrightarrow> suite_item i \<Longrightarrow>
      coll \<in> set (pools_of d (ci_parent_collection i)) \<Longrightarrow> p \<in> set (pool_files d i) \<Longrightarrow>
      pool_row coll (ci_id i) p \<in> set (db_match_constraints d)"
  shows "guarded d"
  using assms by (auto simp: guarded_def)

lemma guardedD:
  "guarded d \<Longrightarrow> i \<in> set (db_items d) \<Longrightarrow> suite_item i \<Longrightarrow> coll \<in> set (pools_of d (ci_parent_collection i)) \<Longrightarrow>
     p \<in> set (pool_files d i) \<Longrightarrow> pool_row coll (ci_id i) p \<in> set (db_match_constraints d)"
  by (auto simp: guarded_def)

lemma in_containing_archives:
  "a \<in> set (containing_archives d suite) \<longleftrightarrow>
     (\<exists>c\<in>set (db_collections d). co_category c = ARCHIVE \<and> co_id c = a \<and>
        (\<exists>i\<in>set (db_items d). ci_parent_collection i = a \<and> active i \<and> ci_collection i = Some suite))"
  by (auto simp: containing_archives_def)

lemma pool_files_same:
  assumes "same_base d\<^sub>0 d"
  shows "pool_files d i = pool_files d\<^sub>0 i"
proof -
  have "hash_digest d = hash_digest d\<^sub>0"
    using assms by (simp add: fun_eq_iff hash_digest_def get_file_def same_base_def)
  moreover have "db_file_in_artifacts d = db_file_in_artifacts d\<^sub>0" using assms by (simp add: same_base_def)
  ultimately show ?thesis by (auto simp: pool_files_def split: option.split)
qed

lemma pools_same:
  assumes "same_base d\<^sub>0 d" and "same_base d\<^sub>0 d'"
    and "\<And>i. i \<in> set (db_items d') \<Longrightarrow> active i \<Longrightarrow> ci_collection i \<noteq> None \<Longrightarrow>
      \<exists>j\<in>set (db_items d). active j \<and> ci_parent_collection j = ci_parent_collection i
        \<and> ci_collection j = ci_collection i"
  shows "set (pools_of d' s) \<subseteq> set (pools_of d s)"
  using assms(1,2)
  by (auto simp: pools_of_def in_containing_archives same_base_def dest!: assms(3))

section \<open>Each step keeps the pools guarded\<close>

text \<open>Adding rows that publish nothing, and making items inactive.\<close>

lemma pool_ok_shrink:
  assumes ok: "pool_ok d\<^sub>0 d"
    and items: "\<And>i. i \<in> set (db_items d') \<Longrightarrow> childtype_consistent i \<and>
      (active i \<longrightarrow> i \<in> set (db_items d) \<or> (\<not> suite_item i \<and> ci_collection i = None))"
    and "db_collections d' = db_collections d" "db_artifacts d' = db_artifacts d"
      "db_files d' = db_files d" "db_file_in_artifacts d' = db_file_in_artifacts d"
      "db_match_constraints d' = db_match_constraints d"
  shows "pool_ok d\<^sub>0 d'"
proof -
  have base: "same_base d\<^sub>0 d'" "same_base d\<^sub>0 d" using ok assms(3-7) by (simp_all add: pool_ok_def same_base_def)
  have pools: "set (pools_of d' s) \<subseteq> set (pools_of d s)" for s
  proof (rule pools_same [OF base(2,1)])
    fix i assume i: "i \<in> set (db_items d')" "active i" "ci_collection i \<noteq> None"
    then have "i \<in> set (db_items d)" using items [OF i(1)] by auto
    with i(2) show "\<exists>j\<in>set (db_items d). active j \<and> ci_parent_collection j = ci_parent_collection i
        \<and> ci_collection j = ci_collection i" by blast
  qed
  have "guarded d'"
  proof (rule guardedI)
    fix i coll p
    assume i: "i \<in> set (db_items d')" "suite_item i" "coll \<in> set (pools_of d' (ci_parent_collection i))"
      "p \<in> set (pool_files d' i)"
    have "i \<in> set (db_items d)" using i items by (auto simp: suite_item_def)
    moreover have "coll \<in> set (pools_of d (ci_parent_collection i))" using i(3) pools by blast
    moreover have "p \<in> set (pool_files d i)"
      using i(4) pool_files_same [OF base(1)] pool_files_same [OF base(2)] by simp
    ultimately have "pool_row coll (ci_id i) p \<in> set (db_match_constraints d)"
      using guardedD [of d i coll p] ok i(2) by (simp add: pool_ok_def)
    then show "pool_row coll (ci_id i) p \<in> set (db_match_constraints d')" using assms(7) by simp
  qed
  with ok base items assms(7) show ?thesis
    by (simp add: pool_ok_def exclusive_def consistent_items_def)
qed

lemma item_error_None: "item_error d i = None \<Longrightarrow> childtype_consistent i"
  by (simp add: item_error_def split: if_splits)

lemma in_tbl_upd: "r \<in> set (tbl_upd key i f t) \<Longrightarrow> (r \<in> set t \<and> key r \<noteq> i) \<or> (\<exists>r'\<in>set t. r = f r')"
  by (auto simp: tbl_upd_def split: if_splits)

lemma preserves_mark_removed: "preserves (pool_ok d\<^sub>0) (mark_removed now user workflow item)"
proof (rule preservesI)
  fix d x d'
  let ?i = "item\<lparr>ci_removed_by_user := user, ci_removed_by_workflow := workflow, ci_removed_at := Some now\<rparr>"
  assume ok: "pool_ok d\<^sub>0 d" and run: "mark_removed now user workflow item d = (Inr x, d')"
  from run have e: "item_error d ?i = None"
    and d': "d' = d\<lparr>db_items := tbl_upd ci_id (ci_id item) (\<lambda>_. ?i) (db_items d)\<rparr>"
    by (auto simp: mark_removed_def save_item_def act_defs split: option.splits)
  show "pool_ok d\<^sub>0 d'"
  proof (rule pool_ok_shrink [OF ok])
    fix i assume "i \<in> set (db_items d')"
    then have "i \<in> set (db_items d) \<or> i = ?i" using d' by (auto dest: in_tbl_upd)
    then show "childtype_consistent i \<and>
        (active i \<longrightarrow> i \<in> set (db_items d) \<or> \<not> suite_item i \<and> ci_collection i = None)"
      using ok item_error_None [OF e] by (auto simp: active_def pool_ok_def consistent_items_def)
  qed (simp_all add: d')
qed

lemma mark_removed_inactive:
  assumes "mark_removed now user workflow item d = (Inr x, d')" and "i \<in> set (db_items d')"
    and "ci_id i = ci_id item"
  shows "\<not> active i"
  using assms by (auto simp: mark_removed_def save_item_def act_defs active_def tbl_upd_def
      split: option.splits if_splits)

lemma pool_ok_delete:
  assumes "pool_ok d\<^sub>0 d" and "\<forall>i\<in>set (db_items d). suite_item i \<longrightarrow> ci_id i \<notin> ids"
    and "delete_constraints ids d = (r, d')"
  shows "pool_ok d\<^sub>0 d'"
proof -
  have d': "d' = d\<lparr>db_match_constraints := filter (\<lambda>c. \<not> (mc_collection_item_id c \<in> ids
      \<and> mc_constraint_name c = ''pool-file'')) (db_match_constraints d)\<rparr>"
    using assms(3) by (simp add: delete_constraints_def modify_db_def)
  have base: "same_base d\<^sub>0 d'" using assms(1) by (simp add: d' pool_ok_def same_base_def)
  have "pools_of d' s = pools_of d s" "pool_files d' i = pool_files d i" for s i
    using pool_files_same [OF base, of i] pool_files_same [of d\<^sub>0 d i] assms(1)
    by (simp_all add: d' pools_of_def containing_archives_def pool_ok_def)
  then show ?thesis
    using assms(1,2) base by (auto simp: pool_ok_def guarded_def exclusive_def consistent_items_def d')
qed

text \<open>Only an archive that gives up the constraints of a suite it drops is left out.\<close>

definition drops_suite :: "collection \<Rightarrow> collection_item \<Rightarrow> bool" where
  "drops_suite self item \<longleftrightarrow>
     co_category self = ARCHIVE \<and> ci_collection item \<noteq> None \<and> may_reuse_versions self"

lemma preserves_remove_item:
  assumes "\<not> drops_suite self item"
  shows "preserves (pool_ok d\<^sub>0) (remove_item self now user workflow item)"
proof (rule preservesI)
  fix d x d'
  assume ok: "pool_ok d\<^sub>0 d" and run: "remove_item self now user workflow item d = (Inr x, d')"
  obtain r d1 where mark: "mark_removed now user workflow item d = (r, d1)" by (rule prod.exhaust)
  with run obtain y where r: "r = Inr y" by (cases r) (auto simp: remove_item_def act_defs)
  have ok1: "pool_ok d\<^sub>0 d1" by (rule preservesD [OF preserves_mark_removed ok mark [unfolded r]])
  have gone: "\<forall>i\<in>set (db_items d1). suite_item i \<longrightarrow> ci_id i \<notin> {ci_id item}"
    using mark_removed_inactive [OF mark [unfolded r]] by (auto simp: suite_item_def)
  have "d' = d1 \<or> delete_constraints {ci_id item} d1 = (Inr x, d')"
    using run mark r assms
    by (auto simp: remove_item_def act_defs drops_suite_def split: if_splits option.splits)
  then show "pool_ok d\<^sub>0 d'" using ok1 pool_ok_delete [OF ok1 gone] by auto
qed

lemma preserves_remove_items_by_name:
  assumes "set kinds \<subseteq> {BARE, ARTIFACT}"
  shows "preserves (pool_ok d\<^sub>0) (remove_items_by_name self now name kinds user workflow)"
  unfolding remove_items_by_name_def
proof (intro preserves_with_db preserves_for_each preserves_remove_item)
  fix d i
  assume "pool_ok d\<^sub>0 d" and "i \<in> set (filter (\<lambda>i. active i \<and> ci_parent_collection i = co_id self
      \<and> ci_child_type i \<in> set kinds \<and> ci_name i = name) (db_items d))"
  then have "childtype_consistent i" "ci_child_type i \<in> {BARE, ARTIFACT}"
    using assms by (auto simp: pool_ok_def consistent_items_def)
  then show "\<not> drops_suite self i" by (auto simp: drops_suite_def childtype_consistent_def)
qed

lemma preserves_wrap: "preserves I m \<Longrightarrow> preserves I (wrap_integrity m)"
  unfolding preserves_def wrap_integrity_def catch_act_def
  by (auto simp: raise_def split: sum.splits prod.splits exn.splits)

lemma preserves_replace_then:
  assumes "set kinds \<subseteq> {BARE, ARTIFACT}" and "preserves (pool_ok d\<^sub>0) m"
  shows "preserves (pool_ok d\<^sub>0) (replace_then ad self name kinds m)"
  unfolding replace_then_def
  by (intro preserves_seq preserves_when preserves_remove_items_by_name preserves_wrap assms)

lemma insert_item_result:
  assumes "insert_item item d = (Inr i, d')"
  shows "i = item\<lparr>ci_id := tbl_next ci_id (db_items d)\<rparr>" and "item_error d i = None"
    and "d' = d\<lparr>db_items := db_items d @ [i]\<rparr>"
  using assms by (auto simp: insert_item_def act_defs Let_def split: option.splits)

lemma preserves_insert_item:
  assumes "active item \<Longrightarrow> \<not> suite_item item \<and> ci_collection item = None"
  shows "preserves (pool_ok d\<^sub>0) (insert_item item)"
proof (rule preservesI)
  fix d i d'
  assume ok: "pool_ok d\<^sub>0 d" and run: "insert_item item d = (Inr i, d')"
  note i = insert_item_result [OF run]
  have "active i \<Longrightarrow> \<not> suite_item i \<and> ci_collection i = None"
    using assms by (simp add: i(1) suite_item_def active_def)
  then show "pool_ok d\<^sub>0 d'"
    using ok item_error_None [OF i(2)]
    by (intro pool_ok_shrink [OF ok]) (auto simp: i(3) pool_ok_def consistent_items_def)
qed

section \<open>Adding packages and suites\<close>

lemma conflicting_sym: "conflicting c e \<longleftrightarrow> conflicting e c"
  by (auto simp: conflicting_def)

lemma exclusive_snoc:
  assumes "exclusive d" and "\<not> list_ex (conflicting c) (db_match_constraints d)"
    and "db_match_constraints d' = db_match_constraints d @ [c]"
  shows "exclusive d'"
  unfolding exclusive_def
proof (intro ballI)
  have free: "\<not> conflicting c e" "\<not> conflicting e c" if "e \<in> set (db_match_constraints d)" for e
    using assms(2) that conflicting_sym [of c e] by (auto simp: list_ex_iff)
  have self: "\<not> conflicting c c" by (simp add: conflicting_def)
  fix b e assume "b \<in> set (db_match_constraints d')" "e \<in> set (db_match_constraints d')"
  then consider "b \<in> set (db_match_constraints d)" "e \<in> set (db_match_constraints d)"
    | "b \<in> set (db_match_constraints d)" "e = c" | "b = c" "e \<in> set (db_match_constraints d)" | "b = c" "e = c"
    using assms(3) by auto
  then show "\<not> conflicting b e"
    using assms(1) free self unfolding exclusive_def by cases blast+
qed

lemma insert_constraints_result:
  assumes "insert_constraints cs d = (Inr x, d')" and "exclusive d"
  shows "d' = d\<lparr>db_match_constraints := db_match_constraints d @ cs\<rparr> \<and> exclusive d'"
  using assms
proof (induction cs arbitrary: d)
  case Nil
  then show ?case by (simp add: ret_def)
next
  case (Cons c cs)
  let ?d = "d\<lparr>db_match_constraints := db_match_constraints d @ [c]\<rparr>"
  have free: "\<not> list_ex (conflicting c) (db_match_constraints d)"
    and run: "insert_constraints cs ?d = (Inr x, d')"
    using Cons.prems(1) by (auto simp: act_defs split: if_splits)
  have "exclusive ?d" by (rule exclusive_snoc [OF Cons.prems(2) free]) simp
  note rest = Cons.IH [OF run this]
  have "d' = d\<lparr>db_match_constraints := db_match_constraints d @ c # cs\<rparr>"
    using conjunct1 [OF rest] by simp
  then show ?case using conjunct2 [OF rest] by (intro conjI)
qed

lemma bulk_create_result:
  assumes "bulk_create_constraints cs d = (Inr x, d')" and "exclusive d"
  shows "d' = d\<lparr>db_match_constraints := db_match_constraints d @ cs\<rparr>" and "exclusive d'"
proof -
  have "insert_constraints cs d = (Inr x, d')"
    using assms(1) by (auto simp: bulk_create_constraints_def atomic_def split: prod.splits sum.splits)
  note result = insert_constraints_result [OF this assms(2)]
  show "d' = d\<lparr>db_match_constraints := db_match_constraints d @ cs\<rparr>" by (rule conjunct1 [OF result])
  show "exclusive d'" by (rule conjunct2 [OF result])
qed

text \<open>One new row with the constraints that guard what it makes visible.\<close>

lemma pool_ok_extend:
  assumes ok: "pool_ok d\<^sub>0 d" and i: "childtype_consistent i"
    and d': "d' = d\<lparr>db_items := db_items d @ [i], db_match_constraints := db_match_constraints d @ cs\<rparr>"
    and "exclusive d'"
    and own: "\<And>coll p. suite_item i \<Longrightarrow> coll \<in> set (pools_of d' (ci_parent_collection i)) \<Longrightarrow>
      p \<in> set (pool_files d i) \<Longrightarrow> pool_row coll (ci_id i) p \<in> set cs"
    and others: "\<And>j s p. j \<in> set (db_items d) \<Longrightarrow> suite_item j \<Longrightarrow> active i \<Longrightarrow>
      ci_collection i = Some (ci_parent_collection j) \<Longrightarrow> p \<in> set (pool_files d j) \<Longrightarrow>
      pool_row (ci_parent_collection i) (ci_id j) p \<in> set cs"
  shows "pool_ok d\<^sub>0 d'"
proof -
  have base: "same_base d\<^sub>0 d'" "same_base d\<^sub>0 d" using ok by (simp_all add: pool_ok_def same_base_def d')
  have files: "pool_files d' j = pool_files d j" for j
    using pool_files_same [OF base(1)] pool_files_same [OF base(2)] by simp
  have pools: "coll \<in> set (pools_of d' s) \<Longrightarrow> coll \<in> set (pools_of d s)
      \<or> (active i \<and> ci_collection i = Some s \<and> coll = ci_parent_collection i)" for coll s
    by (auto simp: pools_of_def in_containing_archives d')
  have "guarded d'"
  proof (rule guardedI)
    fix j coll p
    assume j: "j \<in> set (db_items d')" "suite_item j" "coll \<in> set (pools_of d' (ci_parent_collection j))"
      "p \<in> set (pool_files d' j)"
    then consider "j = i" | "j \<in> set (db_items d)" by (auto simp: d')
    then show "pool_row coll (ci_id j) p \<in> set (db_match_constraints d')"
    proof cases
      case 1
      then show ?thesis using own j files by (simp add: d')
    next
      case 2
      from pools [OF j(3)] show ?thesis
      proof
        assume "coll \<in> set (pools_of d (ci_parent_collection j))"
        then show ?thesis using guardedD [of d j coll p] ok 2 j(2,4) files by (simp add: pool_ok_def d')
      next
        assume "active i \<and> ci_collection i = Some (ci_parent_collection j) \<and> coll = ci_parent_collection i"
        then show ?thesis using others [OF 2 j(2)] j(4) files by (simp add: d')
      qed
    qed
  qed
  with ok assms(4) base i show ?thesis by (simp add: pool_ok_def consistent_items_def d')
qed

lemma make_constraints_rows:
  assumes "item_pool_name i = Some (n, c)" and "ci_artifact i = Some a"
    and "p \<in> set (pool_files d i)" and "coll \<in> set (pools_of d (co_id self))"
  shows "pool_row coll (ci_id i) p \<in> set (make_constraints d self i a n c)"
  using assms by (auto simp: pool_files_def make_constraints_def pool_row_def pools_of_def)

lemma preserves_new_package:
  assumes "\<And>i. ci_data i = extra \<Longrightarrow> ci_category i = ar_category art \<Longrightarrow>
      ad_replaced_by ad = None \<Longrightarrow> ar_category art \<in> {SOURCE_PACKAGE, BINARY_PACKAGE} \<Longrightarrow>
      item_pool_name i = (case data_get extra ''component'' of
        Inl e \<Rightarrow> None | Inr v \<Rightarrow> (case py_str v of Inr c \<Rightarrow> Some (src, c) | Inl e \<Rightarrow> None))"
  shows "preserves (pool_ok d\<^sub>0)
    (bind_act (create_from_artifact ad self art name extra) (\<lambda>item.
       seq_act
         (if ad_replaced_by ad = None \<and> ar_category art \<in> {SOURCE_PACKAGE, BINARY_PACKAGE}
          then bind_act (lift_res (bind_res (data_get extra ''component'') py_str)) (\<lambda>component.
            with_db (\<lambda>d. bulk_create_constraints
              (make_constraints d self item (ar_id art) src component)))
          else ret ())
         (ret item)))"
proof (cases "ad_replaced_by ad = None \<and> ar_category art \<in> {SOURCE_PACKAGE, BINARY_PACKAGE}")
  case False
  then have "suite_item (new_item ad self ARTIFACT (ar_category art) None (Some (ar_id art)) name extra)
      \<Longrightarrow> False"
    by (auto simp: suite_item_def new_item_def active_def)
  then show ?thesis unfolding if_not_P [OF False] create_from_artifact_def
    by (intro preserves_bind preserves_insert_item preserves_seq preserves_ret)
      (auto simp: new_item_def)
next
  case True
  show ?thesis
  proof (rule preservesI)
    fix d x d'
    assume ok: "pool_ok d\<^sub>0 d" and run: "bind_act (create_from_artifact ad self art name extra) (\<lambda>item.
       seq_act
         (if ad_replaced_by ad = None \<and> ar_category art \<in> {SOURCE_PACKAGE, BINARY_PACKAGE}
          then bind_act (lift_res (bind_res (data_get extra ''component'') py_str)) (\<lambda>component.
            with_db (\<lambda>d. bulk_create_constraints
              (make_constraints d self item (ar_id art) src component)))
          else ret ())
         (ret item)) d = (Inr x, d')"
    from run obtain i d1 where new: "create_from_artifact ad self art name extra d = (Inr i, d1)"
      by (auto simp: bind_act_def split: prod.splits sum.splits)
    with run True obtain c y where c: "bind_res (data_get extra ''component'') py_str = Inr c"
      and bulk: "bulk_create_constraints (make_constraints d1 self i (ar_id art) src c) d1 = (Inr y, d')"
      by (auto simp: act_defs split: prod.splits sum.splits)
    note i = insert_item_result [OF new [unfolded create_from_artifact_def]]
    have ex: "exclusive d1" using ok by (simp add: i(3) pool_ok_def exclusive_def)
    note d' = bulk_create_result [OF bulk ex]
    have fields: "ci_data i = extra" "ci_category i = ar_category art" "ci_artifact i = Some (ar_id art)"
      "ci_parent_collection i = co_id self" "ci_collection i = None" using i(1)
      by (simp_all add: new_item_def)
    have name: "item_pool_name i = Some (src, c)"
      using assms [OF fields(1,2)] True c by (cases "data_get extra ''component''") auto
    have same: "pools_of d' s = pools_of d1 s" "pool_files d1 j = pool_files d j" for s j
      by (simp_all add: d'(1) i(3) pools_of_def containing_archives_def pool_files_def hash_digest_def
          get_file_def split: option.splits)
    show "pool_ok d\<^sub>0 d'"
    proof (rule pool_ok_extend [OF ok item_error_None [OF i(2)] _ d'(2)])
      show "d' = d\<lparr>db_items := db_items d @ [i],
          db_match_constraints := db_match_constraints d @ make_constraints d1 self i (ar_id art) src c\<rparr>"
        using d'(1) i(3) by simp
      show "pool_row coll (ci_id i) p \<in> set (make_constraints d1 self i (ar_id art) src c)"
        if "coll \<in> set (pools_of d' (ci_parent_collection i))" "p \<in> set (pool_files d i)" for coll p
        using make_constraints_rows [OF name fields(3)] that by (simp add: same fields)
    qed (simp add: fields)
  qed
qed

lemma suite_item_data_pool_name:
  assumes "suite_item_data dm art ps = Inr (extra, name, src)"
    and "ar_category art \<in> {SOURCE_PACKAGE, BINARY_PACKAGE}"
    and "ci_data i = extra" and "ci_category i = ar_category art"
  shows "item_pool_name i = (case data_get extra ''component'' of
      Inl e \<Rightarrow> None | Inr v \<Rightarrow> (case py_str v of Inr c \<Rightarrow> Some (src, c) | Inl e \<Rightarrow> None))"
proof -
  have "map_of extra (if ar_category art = SOURCE_PACKAGE then ''package'' else ''srcpkg_name'') = Some (JStr src)"
    using assms(1,2) by (auto simp: suite_item_data_def bind_res_eq_Inr artifact_category_defs split: if_splits)
  then show ?thesis
    using assms(3,4)
    by (auto simp: item_pool_name_def data_get_def split: option.splits sum.splits)
qed

lemma preserves_bind_lift:
  assumes "\<And>x. r = Inr x \<Longrightarrow> preserves I (f x)"
  shows "preserves I (bind_act (lift_res r) f)"
  using assms by (cases r) (simp_all add: preserves_def bind_act_def lift_res_def)

lemma preserves_suite_add: "preserves (pool_ok d\<^sub>0) (suite_add_artifact dm self ad art variables)"
  unfolding suite_add_artifact_def Let_def
proof (intro preserves_bind_lift preserves_if preserves_raise preserves_prod)
  fix required x a extra name src
  let ?ps = "case variables of None \<Rightarrow> [] | Some ps \<Rightarrow> ps"
  assume "suite_item_data dm art ?ps = Inr x" "x = (extra, a)" "a = (name, src)"
  then have parts: "suite_item_data dm art ?ps = Inr (extra, name, src)" by simp
  show "preserves (pool_ok d\<^sub>0) (replace_then ad self name [ARTIFACT]
      (bind_act (create_from_artifact ad self art name extra) (\<lambda>item.
         seq_act
           (if ad_replaced_by ad = None \<and> ar_category art \<in> {SOURCE_PACKAGE, BINARY_PACKAGE}
            then bind_act (lift_res (bind_res (data_get extra ''component'') py_str)) (\<lambda>component.
              with_db (\<lambda>d. bulk_create_constraints
                (make_constraints d self item (ar_id art) src component)))
            else ret ())
           (ret item))))"
    by (rule preserves_replace_then [OF _ preserves_new_package])
      (use suite_item_data_pool_name [OF parts] in auto)
qed

lemma preserves_archive_add_collection:
  "preserves (pool_ok d\<^sub>0) (archive_add_collection self ad suite)"
  unfolding archive_add_collection_def
proof (intro preserves_if preserves_raise preserves_wrap preservesI)
  fix d x d'
  assume ok: "pool_ok d\<^sub>0 d"
    and run: "bind_act (create_from_collection ad self suite (co_name suite) []) (\<lambda>item.
      seq_act (when_act (active item)
          (with_db (\<lambda>d. bulk_create_constraints (copy_constraints d self suite)))) (ret item)) d = (Inr x, d')"
  from run obtain i d1 where new: "create_from_collection ad self suite (co_name suite) [] d = (Inr i, d1)"
    by (auto simp: bind_act_def split: prod.splits sum.splits)
  note i = insert_item_result [OF new [unfolded create_from_collection_def]]
  have fields: "ci_child_type i = COLLECTION" "ci_parent_collection i = co_id self"
    "ci_collection i = Some (co_id suite)" using i(1) by (simp_all add: new_item_def)
  have ex: "exclusive d1" using ok by (simp add: i(3) pool_ok_def exclusive_def)
  show "pool_ok d\<^sub>0 d'"
  proof (cases "active i")
    case False
    then have "d' = d\<lparr>db_items := db_items d @ [i], db_match_constraints := db_match_constraints d @ []\<rparr>"
      using run new i(3) by (auto simp: act_defs)
    moreover have "exclusive (d\<lparr>db_items := db_items d @ [i], db_match_constraints := db_match_constraints d @ []\<rparr>)"
      using ok by (simp add: pool_ok_def exclusive_def)
    ultimately show ?thesis using False
      by (intro pool_ok_extend [where cs = "[]", OF ok item_error_None [OF i(2)]])
        (simp_all add: suite_item_def)
  next
    case True
    with run new obtain y where
      bulk: "bulk_create_constraints (copy_constraints d1 self suite) d1 = (Inr y, d')"
      by (auto simp: act_defs split: prod.splits sum.splits)
    note d' = bulk_create_result [OF bulk ex]
    show ?thesis
    proof (rule pool_ok_extend [OF ok item_error_None [OF i(2)] _ d'(2)])
      show "d' = d\<lparr>db_items := db_items d @ [i],
          db_match_constraints := db_match_constraints d @ copy_constraints d1 self suite\<rparr>"
        using d'(1) i(3) by simp
      fix j p
      assume j: "j \<in> set (db_items d)" "suite_item j" "p \<in> set (pool_files d j)"
        "ci_collection i = Some (ci_parent_collection j)"
      have "pool_row (co_id suite) (ci_id j) p \<in> set (db_match_constraints d)"
        using guardedD [of d j "co_id suite" p] ok j by (simp add: pool_ok_def pools_of_def fields)
      then have "(pool_row (co_id suite) (ci_id j) p)\<lparr>mc_collection := co_id self\<rparr>
          \<in> set (copy_constraints d1 self suite)"
        by (simp add: copy_constraints_def i(3))
      then show "pool_row (ci_parent_collection i) (ci_id j) p \<in> set (copy_constraints d1 self suite)"
        by (simp add: pool_row_def fields)
    qed (simp add: suite_item_def fields)
  qed
qed

section \<open>The other managers publish nothing\<close>

lemma preserves_bare: "preserves (pool_ok d\<^sub>0) (create_from_bare_data dm ad self category name extra)"
  unfolding create_from_bare_data_def
  by (intro preserves_if preserves_raise preserves_insert_item) (simp add: new_item_def suite_item_def)

lemma preserves_artifact:
  "co_category self \<noteq> SUITE \<Longrightarrow> preserves (pool_ok d\<^sub>0) (create_from_artifact ad self art name extra)"
  unfolding create_from_artifact_def
  by (intro preserves_insert_item) (simp add: new_item_def suite_item_def)

lemma preserves_let: "(\<And>x. preserves I (f x)) \<Longrightarrow> preserves I (Let x f)"
  by (simp add: Let_def)

lemmas preserves_managers = preserves_let preserves_if preserves_raise preserves_option preserves_prod
  preserves_bind_lift preserves_with_db preserves_replace_then preserves_bare preserves_artifact

lemma preserves_internal:
  "preserves (pool_ok d\<^sub>0) (internal_add_bare_data dm self ad category extra)"
  "co_category self = WORKFLOW_INTERNAL \<Longrightarrow> preserves (pool_ok d\<^sub>0) (internal_add_artifact self ad art variables)"
  unfolding internal_add_bare_data_def internal_add_artifact_def
  by (intro preserves_managers preserves_seq preserves_when preserves_remove_items_by_name preserves_wrap;
      simp add: category_defs)+

lemma preserves_environments:
  "co_category self = ENVIRONMENTS \<Longrightarrow> preserves (pool_ok d\<^sub>0) (environments_add_artifact self ad art variables)"
  unfolding environments_add_artifact_def
  by (intro preserves_managers; simp add: category_defs)

lemma preserves_build_logs:
  "preserves (pool_ok d\<^sub>0) (build_logs_add_bare_data dm self ad category extra)"
  "co_category self = PACKAGE_BUILD_LOGS \<Longrightarrow> preserves (pool_ok d\<^sub>0) (build_logs_add_artifact self ad art variables)"
  unfolding build_logs_add_bare_data_def build_logs_add_artifact_def
  by (intro preserves_managers; simp add: category_defs)+

lemma preserves_task_configuration:
  "preserves (pool_ok d\<^sub>0) (task_configuration_add_bare_data dm self ad category extra)"
  unfolding task_configuration_add_bare_data_def by (intro preserves_managers; simp)

lemma preserves_history:
  "preserves (pool_ok d\<^sub>0) (history_add_bare_data dm self ad category extra)"
  unfolding history_add_bare_data_def Let_def
proof (intro preserves_if preserves_raise preserves_option preserves_bind_lift
    preserves_bind preserves_with_db preserves_replace_then preserves_bare preserves_seq
    preserves_for_each preserves_ret preserves_remove_item)
  fix ps vs quoted_subject quoted_context wr name item keep d i
  assume "pool_ok d\<^sub>0 d"
    and "i \<in> set (filter (\<lambda>i. \<not> history_kept keep (ci_id item)
        (history_of d self category (vs ! 1) (vs ! 2)) i) (history_of d self category (vs ! 1) (vs ! 2)))"
  then have "childtype_consistent i" "ci_child_type i = BARE"
    by (auto simp: pool_ok_def consistent_items_def history_of_def)
  then show "\<not> drops_suite self i" by (simp add: drops_suite_def childtype_consistent_def)
qed simp

text \<open>An update of all rows that only makes some inactive.\<close>

lemma preserves_retire:
  assumes "\<And>i. f i = i \<or> (\<not> active (f i) \<and> (childtype_consistent i \<longrightarrow> childtype_consistent (f i)))"
    and "pool_ok d\<^sub>0 d"
  shows "pool_ok d\<^sub>0 (d\<lparr>db_items := map f (db_items d)\<rparr>)"
proof (rule pool_ok_shrink [OF assms(2)])
  fix i assume "i \<in> set (db_items (d\<lparr>db_items := map f (db_items d)\<rparr>))"
  then obtain j where j: "j \<in> set (db_items d)" "i = f j" by auto
  moreover have "childtype_consistent j" using assms(2) j(1) by (simp add: pool_ok_def consistent_items_def)
  ultimately show "childtype_consistent i \<and>
      (active i \<longrightarrow> i \<in> set (db_items d) \<or> \<not> suite_item i \<and> ci_collection i = None)"
    using assms(1) [of j] by auto
qed simp_all

lemma preserves_expire: "preserves (pool_ok d\<^sub>0) (qa_results_expire self ad exclude)"
  unfolding qa_results_expire_def Let_def
  by (intro preserves_bind_lift preserves_with_db preserves_modify preserves_retire)
    (auto simp: childtype_consistent_def active_def split: child_type.splits)

lemma preserves_qa_results:
  "preserves (pool_ok d\<^sub>0) (qa_results_add_bare_data dm self ad category extra)"
  "co_category self = QA_RESULTS \<Longrightarrow> preserves (pool_ok d\<^sub>0) (qa_results_add_artifact self ad art variables)"
  unfolding qa_results_add_bare_data_def qa_results_add_artifact_def qa_results_add_def
  by (intro preserves_managers preserves_bind preserves_seq preserves_ret preserves_expire;
      simp add: category_defs)+

lemma preserves_archive_add_artifact:
  assumes "co_category self = ARCHIVE"
  shows "preserves (pool_ok d\<^sub>0) (archive_add_artifact self ad art variables)"
  unfolding archive_add_artifact_def
  by (rule preserves_option, rule preserves_raise, rename_tac path, case_tac path)
    (auto simp: assms category_defs intro!: preserves_managers)

lemma preserves_lintian:
  "co_category self = SUITE_LINTIAN \<Longrightarrow> preserves (pool_ok d\<^sub>0) (lintian_add_artifact dm self ad art variables)"
  unfolding lintian_add_artifact_def
  by (intro preserves_managers; simp add: category_defs)

lemma preserves_add_bare_data: "preserves (pool_ok d\<^sub>0) (add_bare_data dm self ad category extra)"
  unfolding add_bare_data_def unsupported_def
  by (intro preserves_if preserves_raise preserves_internal preserves_build_logs preserves_history
      preserves_task_configuration preserves_qa_results)

lemma preserves_add_artifact: "preserves (pool_ok d\<^sub>0) (add_artifact dm self ad art variables)"
  unfolding add_artifact_def unsupported_def
  by (intro preserves_let preserves_if preserves_raise preserves_internal preserves_build_logs
      preserves_environments preserves_suite_add preserves_archive_add_artifact preserves_lintian
      preserves_qa_results) simp_all

lemma preserves_add_collection: "preserves (pool_ok d\<^sub>0) (add_collection self ad child)"
  unfolding add_collection_def unsupported_def
  by (intro preserves_if preserves_raise preserves_archive_add_collection)

section \<open>Histories of collections\<close>

text \<open>
  What requests and tasks do to collections, each call one transaction: only what
  succeeds is kept. An archive that drops a suite and gives up its constraints is
  left out.
\<close>

inductive pool_step :: "data_models \<Rightarrow> db \<Rightarrow> db \<Rightarrow> bool" for dm where
  Bare: "add_bare_data dm self ad category extra d = (Inr i, d') \<Longrightarrow> pool_step dm d d'"
| Artifact: "add_artifact dm self ad art variables d = (Inr i, d') \<Longrightarrow> pool_step dm d d'"
| Collection: "add_collection self ad child d = (Inr i, d') \<Longrightarrow> pool_step dm d d'"
| Remove: "remove_item self now user workflow item d = (Inr x, d') \<Longrightarrow> \<not> drops_suite self item \<Longrightarrow>
     pool_step dm d d'"
| FullHistory: "drop_full_history at d = (Inr x, d') \<Longrightarrow> pool_step dm d d'"
| Metadata: "drop_metadata at d = (Inr x, d') \<Longrightarrow> pool_step dm d d'"

lemma removed_before_inactive: "removed_before period d at i \<Longrightarrow> \<not> active i"
  by (auto simp: removed_before_def active_def split: option.splits)

lemma pool_ok_step: "pool_step dm d d' \<Longrightarrow> pool_ok d\<^sub>0 d \<Longrightarrow> pool_ok d\<^sub>0 d'"
proof (induction rule: pool_step.induct)
  case (FullHistory at d x d')
  then have d': "d' = d\<lparr>db_items := map (\<lambda>i. if removed_before co_full_history_retention_period d at i
      then i\<lparr>ci_artifact := None\<rparr> else i) (db_items d)\<rparr>"
    by (simp add: drop_full_history_def modify_db_def)
  show ?case unfolding d'
    by (rule preserves_retire [OF _ FullHistory(2)])
      (auto dest!: removed_before_inactive simp: active_def childtype_consistent_def split: child_type.splits)
next
  case (Metadata at d x d')
  then have d': "d' = d\<lparr>db_items := filter (\<lambda>i. \<not> removed_before total_retention d at i) (db_items d)\<rparr>"
    by (simp add: drop_metadata_def modify_db_def)
  show ?case
    by (rule pool_ok_shrink [OF Metadata(2)]) (use Metadata(2) in \<open>auto simp: d' pool_ok_def consistent_items_def\<close>)
qed (blast intro: preservesD preserves_add_bare_data preserves_add_artifact preserves_add_collection
    preserves_remove_item)+

lemma pool_ok_agree:
  assumes "pool_ok d\<^sub>0 d" and "i \<in> set (db_items d)" and "j \<in> set (db_items d)"
    and "suite_item i" and "suite_item j"
    and "coll \<in> set (pools_of d (ci_parent_collection i))" and "coll \<in> set (pools_of d (ci_parent_collection j))"
    and "(k, v) \<in> set (pool_files d i)" and "(k, w) \<in> set (pool_files d j)"
  shows "v = w"
proof -
  have "pool_row coll (ci_id i) (k, v) \<in> set (db_match_constraints d)"
    "pool_row coll (ci_id j) (k, w) \<in> set (db_match_constraints d)"
    using guardedD assms by (simp_all add: pool_ok_def)
  then have "\<not> conflicting (pool_row coll (ci_id i) (k, v)) (pool_row coll (ci_id j) (k, w))"
    using assms(1) by (auto simp: pool_ok_def exclusive_def)
  then show ?thesis by (simp add: conflicting_def)
qed

text \<open>
  C10: whatever is added to collections, replaced or removed, and whatever suite is dropped
  from its archive that may not reuse versions, two packages that are active in one suite,
  or in suites of one archive, never publish the same file of the pool with different
  contents. (When a suite that may reuse versions is dropped, the archive loses the
  constraints of the suite's packages.)
\<close>

theorem pool_files_agree:
  assumes "(pool_step dm)\<^sup>*\<^sup>* d\<^sub>0 d" and "db_items d\<^sub>0 = []" and "db_match_constraints d\<^sub>0 = []"
    and "i \<in> set (db_items d)" and "j \<in> set (db_items d)" and "suite_item i" and "suite_item j"
    and "coll \<in> set (pools_of d (ci_parent_collection i))"
    and "coll \<in> set (pools_of d (ci_parent_collection j))"
    and "(k, v) \<in> set (pool_files d i)" and "(k, w) \<in> set (pool_files d j)"
  shows "v = w"
proof -
  have "pool_ok d\<^sub>0 d\<^sub>0"
    using assms(2,3) by (simp add: pool_ok_def guarded_def exclusive_def consistent_items_def same_base_def)
  with assms(1) have "pool_ok d\<^sub>0 d"
    by (induction rule: rtranclp_induct) (auto intro: pool_ok_step)
  then show ?thesis using pool_ok_agree [of d\<^sub>0 d i j coll k v w] assms(4-) by blast
qed

section \<open>Examples\<close>

definition example_adding :: adding where
  "example_adding = \<lparr>ad_now = 10, ad_user = 1, ad_workflow = None, ad_name = None, ad_replace = False,
     ad_created_at = None, ad_replaced_by = None\<rparr>"

definition example_models :: data_models where
  "example_models = \<lparr>dm_promise = (\<lambda>_. True),
     dm_source_package = (\<lambda>ps. case map_of ps ''v'' of Some (JStr v) \<Rightarrow> Inr (''foo'', v)
                                | _ \<Rightarrow> Inl (ValueError ''v'')),
     dm_binary_package = (\<lambda>_. Inl (ValueError ''binary'')),
     dm_lintian_filenames = (\<lambda>_. Inr []), dm_version_less = (\<lambda>v w. False), dm_coerce = (\<lambda>_. None)\<rparr>"

definition example_collection :: "pk \<Rightarrow> string \<Rightarrow> string \<Rightarrow> collection" where
  "example_collection i name category =
     \<lparr>co_id = i, co_name = name, co_category = category, co_full_history_retention_period = None,
      co_metadata_only_retention_period = None, co_workspace = 1, co_retains_artifacts = RetainsAlways,
      co_data = JObj [(''may_reuse_versions'', JBool True)]\<rparr>"

definition sid :: collection where "sid = example_collection 1 ''sid'' SUITE"
definition trixie :: collection where "trixie = example_collection 2 ''trixie'' SUITE"
definition archive :: collection where "archive = example_collection 3 ''_'' ARCHIVE"

text \<open>Two versions of one source package that share a file name with different contents.\<close>

definition foo :: "pk \<Rightarrow> string \<Rightarrow> artifact" where
  "foo i version = \<lparr>ar_id = i, ar_category = SOURCE_PACKAGE, ar_workspace = 1,
     ar_data = [(''v'', JStr version)], ar_created_at = 0, ar_expiration_delay = None,
     ar_created_by = Some 1, ar_created_by_work_request = None, ar_original_artifact = None\<rparr>"

definition foo_file :: "pk \<Rightarrow> file_in_artifact" where
  "foo_file i = \<lparr>fa_id = i, fa_artifact = i, fa_path = ''foo_1.orig.tar.xz'', fa_file = i,
     fa_complete = True, fa_content_type = None\<rparr>"

definition pool_start :: db where
  "pool_start = empty_db\<lparr>db_collections := [sid, trixie, archive],
     db_artifacts := [foo 1 ''1.0'', foo 2 ''1.1''],
     db_files := [\<lparr>fi_id = 1, fi_sha256 = ''a'', fi_size = 1\<rparr>, \<lparr>fi_id = 2, fi_sha256 = ''b'', fi_size = 1\<rparr>],
     db_file_in_artifacts := [foo_file 1, foo_file 2]\<rparr>"

definition main_misc :: "dict option" where
  "main_misc = Some [(''component'', JStr ''main''), (''section'', JStr ''misc'')]"

definition suite_entry :: "pk \<Rightarrow> collection \<Rightarrow> collection_item" where
  "suite_entry i suite = (new_item example_adding archive COLLECTION SUITE (Some (co_id suite)) None
     (co_name suite) [])\<lparr>ci_id := i\<rparr>"

definition foo_entry :: "pk \<Rightarrow> collection \<Rightarrow> pk \<Rightarrow> string \<Rightarrow> collection_item" where
  "foo_entry i suite art version = (new_item example_adding suite ARTIFACT SOURCE_PACKAGE None (Some art)
     (''foo_'' @ version) [(''package'', JStr ''foo''), (''version'', JStr version),
       (''component'', JStr ''main''), (''section'', JStr ''misc'')])\<lparr>ci_id := i\<rparr>"

definition orig :: string where "orig = ''pool/main/f/foo/foo_1.orig.tar.xz''"

definition pool_db :: "collection_item list \<Rightarrow> match_constraint list \<Rightarrow> db" where
  "pool_db items rows = pool_start\<lparr>db_items := items, db_match_constraints := rows\<rparr>"

definition pool_items :: "collection_item list" where
  "pool_items = [suite_entry 1 sid, suite_entry 2 trixie, foo_entry 3 sid 1 ''1.0'', foo_entry 4 trixie 1 ''1.0'']"

definition pool_rows :: "match_constraint list" where
  "pool_rows = map (\<lambda>(c, i). pool_row c i (orig, ''sha256:61'')) [(1, 3), (3, 3), (2, 4), (3, 4)]"

lemma pool_example_1:
  "add_collection archive example_adding sid pool_start = (Inr (suite_entry 1 sid), pool_db (take 1 pool_items) [])"
  by code_simp

lemma pool_example_2:
  "add_collection archive example_adding trixie (pool_db (take 1 pool_items) [])
     = (Inr (suite_entry 2 trixie), pool_db (take 2 pool_items) [])"
  by code_simp

lemma pool_example_3:
  "add_artifact example_models sid example_adding (foo 1 ''1.0'') main_misc (pool_db (take 2 pool_items) [])
     = (Inr (foo_entry 3 sid 1 ''1.0''), pool_db (take 3 pool_items) (take 2 pool_rows))"
  by code_simp

lemma pool_example_4:
  "add_artifact example_models trixie example_adding (foo 1 ''1.0'') main_misc
       (pool_db (take 3 pool_items) (take 2 pool_rows))
     = (Inr (foo_entry 4 trixie 1 ''1.0''), pool_db pool_items pool_rows)"
  by code_simp

lemma pool_example_steps: "(pool_step example_models)\<^sup>*\<^sup>* pool_start (pool_db pool_items pool_rows)"
proof -
  note steps = pool_step.Collection [OF pool_example_1, of example_models]
    pool_step.Collection [OF pool_example_2, of example_models]
    pool_step.Artifact [OF pool_example_3] pool_step.Artifact [OF pool_example_4]
  show ?thesis
    by (rule rtranclp.rtrancl_into_rtrancl, rule rtranclp.rtrancl_into_rtrancl,
        rule rtranclp.rtrancl_into_rtrancl, rule r_into_rtranclp) (rule steps)+
qed

lemma pool_example_pools:
  "containing_archives (pool_db pool_items pool_rows) 1 = [3]"
  "containing_archives (pool_db pool_items pool_rows) 2 = [3]"
  by code_simp+

theorem pool_files_agree_witness:
  "\<exists>v w. pool_files (pool_db pool_items pool_rows) (foo_entry 3 sid 1 ''1.0'') = [(orig, v)]
     \<and> pool_files (pool_db pool_items pool_rows) (foo_entry 4 trixie 1 ''1.0'') = [(orig, w)] \<and> v = w"
proof -
  let ?d = "pool_db pool_items pool_rows" and ?i = "foo_entry 3 sid 1 ''1.0''"
    and ?j = "foo_entry 4 trixie 1 ''1.0''"
  have files: "pool_files ?d ?i = [(orig, ''sha256:61'')]" "pool_files ?d ?j = [(orig, ''sha256:61'')]"
    by code_simp+
  have start: "db_items pool_start = []" "db_match_constraints pool_start = []"
    by (simp_all add: pool_start_def empty_db_def)
  have mem: "?i \<in> set (db_items ?d)" "?j \<in> set (db_items ?d)" by (simp_all add: pool_db_def pool_items_def)
  have items: "suite_item ?i" "suite_item ?j" by code_simp+
  have parents: "ci_parent_collection ?i = 1" "ci_parent_collection ?j = 2" by code_simp+
  have pools: "3 \<in> set (pools_of ?d (ci_parent_collection ?i))"
    "3 \<in> set (pools_of ?d (ci_parent_collection ?j))"
    unfolding parents pools_of_def pool_example_pools by simp_all
  have "''sha256:61'' = ''sha256:61''"
    using pool_files_agree [OF pool_example_steps start mem items pools, of orig "''sha256:61''" "''sha256:61''"]
      files by simp
  with files show ?thesis by blast
qed

section \<open>What an archive gives up\<close>

definition dropped_entry :: collection_item where
  "dropped_entry = (suite_entry 1 sid)\<lparr>ci_removed_by_user := Some 1, ci_removed_at := Some 20\<rparr>"

text \<open>
  An archive that may reuse versions and drops a suite deletes the constraints of
  the suite itself, not only its own: a file of the pool that the suite refused before
  with other contents is now accepted, and the suite publishes both.
\<close>

theorem dropped_suite_unguarded:
  "fst (add_artifact example_models sid example_adding (foo 2 ''1.1'') main_misc (pool_db pool_items pool_rows))
     = Inl (ItemAdditionError ''match_value'')
   \<and> (\<exists>d i. remove_item archive 20 (Some 1) None (suite_entry 1 sid) (pool_db pool_items pool_rows)
          = (Inr (), d)
        \<and> i \<in> set (db_items d) \<and> suite_item i \<and> ci_parent_collection i = co_id sid
        \<and> (\<exists>j d'. add_artifact example_models sid example_adding (foo 2 ''1.1'') main_misc d = (Inr j, d')
             \<and> i \<in> set (db_items d') \<and> suite_item j \<and> ci_parent_collection j = co_id sid
             \<and> pool_files d' i = [(orig, ''sha256:61'')] \<and> pool_files d' j = [(orig, ''sha256:62'')]))"
proof
  show "fst (add_artifact example_models sid example_adding (foo 2 ''1.1'') main_misc
      (pool_db pool_items pool_rows)) = Inl (ItemAdditionError ''match_value'')" by code_simp
  let ?items = "dropped_entry # tl pool_items" and ?rows = "drop 2 pool_rows"
  let ?d = "pool_db ?items ?rows" and ?i = "foo_entry 3 sid 1 ''1.0''" and ?j = "foo_entry 5 sid 2 ''1.1''"
  let ?d' = "pool_db (?items @ [?j]) (?rows @ [pool_row 1 5 (orig, ''sha256:62'')])"
  show "\<exists>d i. remove_item archive 20 (Some 1) None (suite_entry 1 sid) (pool_db pool_items pool_rows)
          = (Inr (), d)
        \<and> i \<in> set (db_items d) \<and> suite_item i \<and> ci_parent_collection i = co_id sid
        \<and> (\<exists>j d'. add_artifact example_models sid example_adding (foo 2 ''1.1'') main_misc d = (Inr j, d')
             \<and> i \<in> set (db_items d') \<and> suite_item j \<and> ci_parent_collection j = co_id sid
             \<and> pool_files d' i = [(orig, ''sha256:61'')] \<and> pool_files d' j = [(orig, ''sha256:62'')])"
  proof (intro exI conjI)
    show "remove_item archive 20 (Some 1) None (suite_entry 1 sid) (pool_db pool_items pool_rows) = (Inr (), ?d)"
      by code_simp
    show "add_artifact example_models sid example_adding (foo 2 ''1.1'') main_misc ?d = (Inr ?j, ?d')"
      by code_simp
    show "?i \<in> set (db_items ?d)" "?i \<in> set (db_items ?d')" by (simp_all add: pool_db_def pool_items_def)
    show "suite_item ?i" "ci_parent_collection ?i = co_id sid" by code_simp+
    show "suite_item ?j" "ci_parent_collection ?j = co_id sid" by code_simp+
    show "pool_files ?d' ?i = [(orig, ''sha256:61'')]" "pool_files ?d' ?j = [(orig, ''sha256:62'')]" by code_simp+
  qed
qed

end
