(* ===== verification/Items.thy ===== *)
theory Items
  imports PoolFiles
begin

text \<open>
  What adding items does beside the pool: replacing an entry of a task
  configuration, the clean-up of the task history, and singleton collections.
\<close>

section \<open>A replaced task configuration\<close>

lemma items_named_upd:
  assumes "items_named d p n \<noteq> []" and "ci_parent_collection i = p" and "ci_name i = n"
    and "ci_child_type i = BARE"
  shows "items_named (d\<lparr>db_items := tbl_upd ci_id (ci_id i) (\<lambda>_. i) (db_items d)\<rparr>) p n \<noteq> []"
proof -
  from assms(1) obtain j where j: "j \<in> set (db_items d)" "ci_parent_collection j = p" "ci_name j = n"
    "ci_child_type j = BARE" by (auto simp: items_named_def filter_empty_conv)
  let ?f = "\<lambda>r. if ci_id r = ci_id i then i else r"
  have "?f j \<in> set (tbl_upd ci_id (ci_id i) (\<lambda>_. i) (db_items d))" using j(1) by (auto simp: tbl_upd_def)
  moreover have "ci_parent_collection (?f j) = p \<and> ci_name (?f j) = n \<and> ci_child_type (?f j) = BARE"
    using j assms(2-4) by simp
  ultimately show ?thesis by (auto simp: items_named_def filter_empty_conv)
qed

lemma removing_keeps_name:
  "preserves (\<lambda>d. items_named d (co_id self) n \<noteq> [])
     (remove_items_by_name self now n [BARE] user workflow)"
  unfolding remove_items_by_name_def
proof (intro preserves_with_db preserves_for_each)
  fix d i
  assume "i \<in> set (filter (\<lambda>i. active i \<and> ci_parent_collection i = co_id self
      \<and> ci_child_type i \<in> set [BARE] \<and> ci_name i = n) (db_items d))"
  then have i: "ci_parent_collection i = co_id self" "ci_name i = n" "ci_child_type i = BARE" by auto
  have mark: "preserves (\<lambda>d. items_named d (co_id self) n \<noteq> []) (mark_removed now user workflow i)"
    unfolding mark_removed_def save_item_def
    by (intro preserves_with_db preserves_option preserves_raise preserves_modify items_named_upd[of _ "co_id self", simplified])
      (use i in auto)
  have delete: "preserves (\<lambda>d. items_named d (co_id self) n \<noteq> []) (delete_constraints ids)" for ids
    unfolding delete_constraints_def by (intro preserves_modify) (simp add: items_named_def)
  show "preserves (\<lambda>d. items_named d (co_id self) n \<noteq> []) (remove_item self now user workflow i)"
    unfolding remove_item_def
    by (intro preserves_seq mark preserves_with_db preserves_if preserves_when delete preserves_option preserves_ret)
qed

text \<open>
  Once an entry of a task configuration has been replaced, looking its name up
  raises: the lookup also counts the entry that was removed, and nothing catches
  \<open>MultipleObjectsReturned\<close>.
\<close>

theorem replaced_configuration_ambiguous:
  assumes "task_configuration_add_bare_data dm self ad category (Some ps) d = (Inr i, d')"
    and "ad_replace ad" and "items_named d (co_id self) (ci_name i) \<noteq> []"
  shows "lookup_config_by_name (dm_coerce dm) d' (co_id self) (ci_name i)
    = Inl (MultipleObjectsReturned ''CollectionItem'')"
proof -
  obtain c d1 where c: "task_configuration_of (dm_coerce dm) ps = Inr c"
    and removed: "remove_items_by_name self (ad_now ad) (config_name c) [BARE] (Some (ad_user ad))
      (ad_workflow ad) d = (Inr (), d1)"
    and new: "wrap_integrity (create_from_bare_data dm ad self category (config_name c) ps) d1 = (Inr i, d')"
    using assms(1,2)
    by (auto simp: task_configuration_add_bare_data_def replace_then_def act_defs
        split: if_splits prod.splits sum.splits)
  from new have "create_from_bare_data dm ad self category (config_name c) ps d1 = (Inr i, d')"
    by (auto simp: wrap_integrity_def act_defs split: sum.splits prod.splits exn.splits)
  then have ins: "insert_item (new_item ad self BARE category None None (config_name c) ps) d1 = (Inr i, d')"
    by (auto simp: create_from_bare_data_def raise_def split: if_splits)
  then have i: "ci_parent_collection i = co_id self" "ci_name i = config_name c" "ci_child_type i = BARE"
    and d': "db_items d' = db_items d1 @ [i]"
    by (auto simp: insert_item_def act_defs Let_def new_item_def split: option.splits)
  have "items_named d1 (co_id self) (config_name c) \<noteq> []"
    using preservesD [OF removing_keeps_name _ removed] assms(3) by (simp add: i)
  then obtain j js where "items_named d1 (co_id self) (config_name c) = j # js" by (cases "items_named d1 (co_id self) (config_name c)") auto
  then have "items_named d' (co_id self) (ci_name i) = (j # js) @ [i]"
    by (simp add: items_named_def d' i)
  then show ?thesis by (simp add: lookup_config_by_name_def split: list.split)
qed

section \<open>Singleton collections\<close>

text \<open>
  C39: \<open>get_or_create_singleton\<close> returns a singleton with the data it is given, and
  creates it when the workspace has none. When there is one with other data it
  raises, although the collection exists: the data is part of what is looked up.
\<close>

theorem singleton_with_other_data_raises:
  assumes "category \<in> set singleton_categories"
    and "\<And>c. c \<in> set (db_collections d) \<Longrightarrow> co_name c = ''_'' \<Longrightarrow> co_category c = category \<Longrightarrow>
      co_workspace c = ws \<Longrightarrow> co_data c \<noteq> JObj extra"
  shows "fst (get_or_create_singleton category ws extra d) =
    (if \<exists>c\<in>set (db_collections d). co_name c = ''_'' \<and> co_category c = category \<and> co_workspace c = ws
     then Inl (IntegrityError ''unique_name_category_workspace'')
     else Inr (\<lparr>co_id = tbl_next co_id (db_collections d), co_name = ''_'', co_category = category,
        co_full_history_retention_period = None, co_metadata_only_retention_period = None,
        co_workspace = ws, co_retains_artifacts = RetainsAlways, co_data = JObj extra\<rparr>, True))"
proof -
  have none: "find (\<lambda>c. co_name c = ''_'' \<and> co_category c = category \<and> co_workspace c = ws
      \<and> co_data c = JObj extra) (db_collections d) = None"
    using assms(2) by (auto simp: find_None_iff)
  have fresh: "co_id c \<noteq> tbl_next co_id (db_collections d)" if "c \<in> set (db_collections d)" for c
    using tbl_next_fresh [where key = co_id, OF that] by simp
  have "category \<noteq> []" using assms(1) by (auto simp: singleton_categories_def category_defs)
  with none fresh assms(1) show ?thesis
    by (auto simp: get_or_create_singleton_def with_db_def collection_error_def list_ex_iff Let_def
        raise_def seq_act_def bind_act_def modify_db_def ret_def)
qed

section \<open>The clean-up of the task history\<close>

definition removed_now :: "adding \<Rightarrow> collection_item \<Rightarrow> collection_item" where
  "removed_now ad i = i\<lparr>ci_removed_by_user := Some (ad_user ad), ci_removed_by_workflow := ad_workflow ad,
     ci_removed_at := Some (ad_now ad)\<rparr>"

lemma ci_id_removed_now [simp]: "ci_id (removed_now ad i) = ci_id i"
  by (simp add: removed_now_def)

lemma tbl_upd_member:
  assumes "distinct (map key t)" and "x \<in> set t"
  shows "tbl_upd key (key x) (\<lambda>_. y) t = map (\<lambda>r. if r = x then y else r) t"
  using assms by (auto simp: tbl_upd_def inj_on_def distinct_map)

lemma remove_item_plain:
  assumes "remove_item self (ad_now ad) (Some (ad_user ad)) (ad_workflow ad) i d = (Inr x, d')"
    and "co_category self \<notin> {SUITE, ARCHIVE}"
  shows "db_items d' = tbl_upd ci_id (ci_id i) (\<lambda>_. removed_now ad i) (db_items d)"
  using assms
  by (auto simp: remove_item_def mark_removed_def save_item_def act_defs removed_now_def
      split: option.splits)

lemma remove_each:
  assumes "for_each xs (remove_item self (ad_now ad) (Some (ad_user ad)) (ad_workflow ad)) d = (Inr u, d')"
    and "co_category self \<notin> {SUITE, ARCHIVE}" and "distinct xs" and "set xs \<subseteq> set (db_items d)"
    and "distinct (map ci_id (db_items d))"
  shows "db_items d' = map (\<lambda>i. if i \<in> set xs then removed_now ad i else i) (db_items d)"
  using assms
proof (induction xs arbitrary: d)
  case Nil
  then show ?case by (simp add: ret_def)
next
  case (Cons x xs)
  obtain y d1 where one: "remove_item self (ad_now ad) (Some (ad_user ad)) (ad_workflow ad) x d = (Inr y, d1)"
    and rest: "for_each xs (remove_item self (ad_now ad) (Some (ad_user ad)) (ad_workflow ad)) d1 = (Inr u, d')"
    using Cons.prems(1) by (auto simp: act_defs split: prod.splits sum.splits)
  have items: "db_items d1 = map (\<lambda>i. if i = x then removed_now ad x else i) (db_items d)"
    using remove_item_plain [OF one Cons.prems(2)] tbl_upd_member [OF Cons.prems(5)] Cons.prems(4) by simp
  have ids: "map ci_id (db_items d1) = map ci_id (db_items d)" by (simp add: items)
  have inj: "i = j" if "i \<in> set (db_items d)" "j \<in> set (db_items d)" "ci_id i = ci_id j" for i j
    using Cons.prems(5) that by (auto simp: distinct_map inj_on_def)
  have "set xs \<subseteq> set (db_items d1)" using Cons.prems(3,4) by (auto simp: items image_iff)
  then have "db_items d' = map (\<lambda>i. if i \<in> set xs then removed_now ad i else i) (db_items d1)"
    using Cons.IH [OF rest Cons.prems(2)] Cons.prems(3,5) ids by simp
  moreover have "removed_now ad x \<notin> set xs"
    using Cons.prems(3,4) inj [of "removed_now ad x" x] inj by (metis ci_id_removed_now distinct.simps(2) list.set_intros(1) list.set_intros(2) subsetD)
  ultimately show ?case using Cons.prems(3) by (auto simp: items)
qed

text \<open>
  What the clean-up is meant to spare: the new entry, the last success and the last
  failure of the same subject and context, and entries with few newer ones.
\<close>

definition same_subject :: "collection_item \<Rightarrow> collection_item \<Rightarrow> bool" where
  "same_subject = same_fields [''subject'', ''context'']"

definition last_with :: "string list \<Rightarrow> collection_item list \<Rightarrow> collection_item \<Rightarrow> bool" where
  "last_with results hist i \<longleftrightarrow> has_result results i
     \<and> (\<forall>j\<in>set hist. has_result results j \<longrightarrow> same_subject i j \<longrightarrow> ci_created_at j \<le> ci_created_at i)"

definition spared :: "int \<Rightarrow> pk \<Rightarrow> collection_item list \<Rightarrow> collection_item \<Rightarrow> bool" where
  "spared keep item hist i \<longleftrightarrow> ci_id i = item
     \<or> last_with [''success''] hist i \<or> last_with [''failure'', ''error''] hist i
     \<or> int (length (filter (\<lambda>j. same_subject i j \<and> ci_created_at i < ci_created_at j) hist)) < keep"

lemma first_rank:
  assumes "i \<in> set hist"
  shows "(let rows = filter (has_result results) hist in i \<in> set rows \<and> history_rank rows i = 1)
    \<longleftrightarrow> last_with results hist i"
  using assms
  by (auto simp: Let_def history_rank_def rank_in_def last_with_def same_subject_def newer_def
      filter_empty_conv not_less)

lemma kept_iff_spared: "i \<in> set hist \<Longrightarrow> history_kept keep item hist i = spared keep item hist i"
  unfolding history_kept_def spared_def first_rank
  by (auto simp: history_rank_def rank_in_def same_subject_def newer_def)

lemma preserves_ids:
  "preserves (\<lambda>d. distinct (map ci_id (db_items d))) (save_item i)"
  "preserves (\<lambda>d. distinct (map ci_id (db_items d))) (insert_item i)"
  "preserves (\<lambda>d. distinct (map ci_id (db_items d))) (delete_constraints ids)"
proof -
  have upd: "map ci_id (tbl_upd ci_id (ci_id i) (\<lambda>_. i) t) = map ci_id t" for t
    by (auto simp: tbl_upd_def)
  show "preserves (\<lambda>d. distinct (map ci_id (db_items d))) (save_item i)"
    unfolding save_item_def
    by (intro preserves_with_db preserves_option preserves_raise preserves_modify) (simp add: upd)
  show "preserves (\<lambda>d. distinct (map ci_id (db_items d))) (delete_constraints ids)"
    unfolding delete_constraints_def by (intro preserves_modify) simp
  show "preserves (\<lambda>d. distinct (map ci_id (db_items d))) (insert_item i)"
  proof (rule preservesI)
    fix d x d'
    assume "distinct (map ci_id (db_items d))" and run: "insert_item i d = (Inr x, d')"
    moreover note insert_item_result [OF run]
    ultimately show "distinct (map ci_id (db_items d'))"
      using tbl_next_fresh [where key = ci_id and t = "db_items d"] by fastforce
  qed
qed

lemma preserves_ids_replace:
  "preserves (\<lambda>d. distinct (map ci_id (db_items d)))
     (replace_then ad self name [BARE] (create_from_bare_data dm ad self category name ps))"
  unfolding replace_then_def remove_items_by_name_def remove_item_def mark_removed_def create_from_bare_data_def
  by (intro preserves_seq preserves_when preserves_with_db preserves_for_each preserves_wrap preserves_if
      preserves_option preserves_ret preserves_raise preserves_ids)

text \<open>
  Adding an entry to the task history removes, of the entries for the same task,
  exactly those that are neither the new one, nor the last success or the last failure
  of their subject and context, nor have fewer newer entries than are to be kept; no
  other item changes. Entries that were removed before are removed again: they get
  the new time of removal.
\<close>

theorem history_clean_up:
  assumes "history_add_bare_data dm self ad category (Some ps) d = (Inr item, d')"
    and "co_category self = TASK_HISTORY" and "distinct (map ci_id (db_items d))"
  shows "\<exists>name keep d\<^sub>1 type_of_task name_of_task.
    replace_then ad self name [BARE] (create_from_bare_data dm ad self category name ps) d = (Inr item, d\<^sub>1)
    \<and> old_items_to_keep self = Inr keep
    \<and> map_of ps ''task_type'' = Some type_of_task \<and> map_of ps ''task_name'' = Some name_of_task
    \<and> (let hist = history_of d\<^sub>1 self category type_of_task name_of_task
       in db_items d' = map (\<lambda>i. if i \<in> set hist \<and> \<not> spared keep (ci_id item) hist i
                               then removed_now ad i else i) (db_items d\<^sub>1))"
proof -
  from assms(1) obtain vs name d1 keep u where
    vs: "map_res (data_get ps) [''work_request_id'', ''task_type'', ''task_name''] = Inr vs"
    and new: "replace_then ad self name [BARE] (create_from_bare_data dm ad self category name ps) d = (Inr item, d1)"
    and keep: "old_items_to_keep self = Inr keep"
    and loop: "for_each (filter (\<lambda>i. \<not> history_kept keep (ci_id item)
          (history_of d1 self category (vs ! 1) (vs ! 2)) i) (history_of d1 self category (vs ! 1) (vs ! 2)))
        (remove_item self (ad_now ad) (Some (ad_user ad)) (ad_workflow ad)) d1 = (Inr u, d')"
    by (auto simp: history_add_bare_data_def act_defs Let_def split: if_splits sum.splits prod.splits)
  have fields: "map_of ps ''task_type'' = Some (vs ! 1)" "map_of ps ''task_name'' = Some (vs ! 2)"
    using vs by (auto simp: bind_res_eq_Inr data_get_def split: option.splits)
  let ?hist = "history_of d1 self category (vs ! 1) (vs ! 2)"
  have ids: "distinct (map ci_id (db_items d1))" by (rule preservesD [OF preserves_ids_replace assms(3) new])
  then have "distinct (db_items d1)" by (simp add: distinct_map)
  then have "distinct ?hist" "set ?hist \<subseteq> set (db_items d1)" by (auto simp: history_of_def)
  then have "db_items d' = map (\<lambda>i. if i \<in> set (filter (\<lambda>i. \<not> history_kept keep (ci_id item) ?hist i) ?hist)
      then removed_now ad i else i) (db_items d1)"
    using assms(2) by (intro remove_each [OF loop _ _ _ ids]) (auto simp: category_defs)
  then have "db_items d' = map (\<lambda>i. if i \<in> set ?hist \<and> \<not> spared keep (ci_id item) ?hist i
      then removed_now ad i else i) (db_items d1)"
    by (simp add: kept_iff_spared cong: conj_cong)
  with new keep fields show ?thesis by (auto simp: Let_def)
qed

section \<open>Examples\<close>

definition configs :: collection where
  "configs = example_collection 1 ''default'' TASK_CONFIGURATION"

definition config_models :: data_models where
  "config_models = example_models\<lparr>dm_coerce := example_coerce\<rparr>"

theorem replaced_configuration_ambiguous_witness:
  "\<exists>i d'. task_configuration_add_bare_data config_models configs (example_adding\<lparr>ad_replace := True\<rparr>)
       ''debusine:task-configuration'' (Some [(''c'', JInt 1)]) example_configs = (Inr i, d')
     \<and> ci_name i = ''Worker:sbuild::''
     \<and> lookup_config_by_name example_coerce d' 1 ''Worker:sbuild::''
       = Inl (MultipleObjectsReturned ''CollectionItem'')"
proof -
  let ?ad = "example_adding\<lparr>ad_replace := True\<rparr>"
  let ?new = "new_item ?ad configs BARE ''debusine:task-configuration'' None None ''Worker:sbuild::'' [(''c'', JInt 1)]"
  let ?old = "(config_item 1 ''Worker:sbuild::'' 1)\<lparr>ci_removed_by_user := Some 1, ci_removed_at := Some 10\<rparr>"
  let ?d' = "example_configs\<lparr>db_items := ?old # tl (db_items example_configs) @ [?new\<lparr>ci_id := 4\<rparr>]\<rparr>"
  have run: "task_configuration_add_bare_data config_models configs ?ad ''debusine:task-configuration''
      (Some [(''c'', JInt 1)]) example_configs = (Inr (?new\<lparr>ci_id := 4\<rparr>), ?d')" by code_simp
  have old: "items_named example_configs (co_id configs) (ci_name (?new\<lparr>ci_id := 4\<rparr>)) \<noteq> []" by code_simp
  have name: "ci_name (?new\<lparr>ci_id := 4\<rparr>) = ''Worker:sbuild::''" "co_id configs = 1" by code_simp+
  have coerce: "dm_coerce config_models = example_coerce" by (simp add: config_models_def)
  have "lookup_config_by_name example_coerce ?d' 1 ''Worker:sbuild::''
      = Inl (MultipleObjectsReturned ''CollectionItem'')"
    using replaced_configuration_ambiguous [OF run _ old] unfolding name coerce by simp
  with run name(1) show ?thesis by blast
qed

theorem singleton_with_other_data_raises_witness:
  "fst (get_or_create_singleton ARCHIVE 1 [] pool_start) = Inl (IntegrityError ''unique_name_category_workspace'')"
proof -
  have other: "co_data c \<noteq> JObj []" if "c \<in> set (db_collections pool_start)" for c
    using that by (auto simp: pool_start_def sid_def trixie_def archive_def example_collection_def)
  have "\<exists>c\<in>set (db_collections pool_start). co_name c = ''_'' \<and> co_category c = ARCHIVE \<and> co_workspace c = 1"
    by (simp add: pool_start_def archive_def example_collection_def)
  with other show ?thesis
    using singleton_with_other_data_raises [of ARCHIVE pool_start 1 "[]"] by (simp add: singleton_categories_def)
qed

definition runs :: collection where
  "runs = (example_collection 1 ''_'' TASK_HISTORY)\<lparr>co_data := JObj [(''old_items_to_keep'', JInt 1)]\<rparr>"

definition run_data :: "int \<Rightarrow> dict" where
  "run_data n = [(''work_request_id'', JInt n), (''task_type'', JStr ''Worker''), (''task_name'', JStr ''sbuild''),
     (''result'', JStr ''success'')]"

definition run_entry :: "pk \<Rightarrow> string \<Rightarrow> time \<Rightarrow> time option \<Rightarrow> collection_item" where
  "run_entry i name created removed =
     (new_item example_adding runs BARE ''debusine:historical-task-run'' None None name (run_data (int i)))
     \<lparr>ci_id := i, ci_created_at := created, ci_removed_at := removed\<rparr>"

definition example_history :: db where
  "example_history = empty_db\<lparr>db_collections := [runs],
     db_items := [run_entry 1 ''Worker:sbuild:::1'' 1 (Some 2), run_entry 2 ''Worker:sbuild:::2'' 3 None]\<rparr>"

theorem history_clean_up_witness:
  "\<exists>item d' keep d\<^sub>1. history_add_bare_data example_models runs example_adding ''debusine:historical-task-run''
       (Some (run_data 3)) example_history = (Inr item, d')
     \<and> map ci_removed_at (db_items d') = [Some 10, Some 10, None]
     \<and> old_items_to_keep runs = Inr keep
     \<and> (let hist = history_of d\<^sub>1 runs ''debusine:historical-task-run'' (JStr ''Worker'') (JStr ''sbuild'')
        in db_items d' = map (\<lambda>i. if i \<in> set hist \<and> \<not> spared keep (ci_id item) hist i
                                then removed_now example_adding i else i) (db_items d\<^sub>1))"
proof -
  let ?items = "[removed_now example_adding (run_entry 1 ''Worker:sbuild:::1'' 1 (Some 2)),
    removed_now example_adding (run_entry 2 ''Worker:sbuild:::2'' 3 None), run_entry 3 ''Worker:sbuild:::3'' 10 None]"
  have run: "history_add_bare_data example_models runs example_adding ''debusine:historical-task-run''
      (Some (run_data 3)) example_history
      = (Inr (run_entry 3 ''Worker:sbuild:::3'' 10 None), example_history\<lparr>db_items := ?items\<rparr>)" by code_simp
  have category: "co_category runs = TASK_HISTORY" "distinct (map ci_id (db_items example_history))" by code_simp+
  have times: "map ci_removed_at ?items = [Some 10, Some 10, None]" by code_simp
  have fields: "map_of (run_data 3) ''task_type'' = Some (JStr ''Worker'')"
    "map_of (run_data 3) ''task_name'' = Some (JStr ''sbuild'')" by (simp_all add: run_data_def)
  show ?thesis using history_clean_up [OF run category] run times fields by auto
qed

end
