(* ===== verification/Artifacts.thy ===== *)
theory Artifacts
  imports Collections Hierarchy
begin

text \<open>
  Artifacts, their relations and their files (debusine/db/models/artifacts.py): who
  may see and create them, when they expire, which collections retain them, and the
  files that are still being uploaded.
\<close>

section \<open>Visibility\<close>

definition get_artifact :: "db \<Rightarrow> pk \<Rightarrow> artifact option" where
  "get_artifact d i = tbl_get ar_id i (db_artifacts d)"

definition artifact_workspace :: "db \<Rightarrow> artifact \<Rightarrow> workspace res" where
  "artifact_workspace d a =
     (case get_workspace d (ar_workspace a) of
        None \<Rightarrow> Inl (DoesNotExist ''Workspace'') | Some w \<Rightarrow> Inr w)"

definition artifacts_in_current_scope :: "db \<Rightarrow> app_context \<Rightarrow> artifact list \<Rightarrow> artifact list res" where
  "artifacts_in_current_scope d cx self = bind_res (require_scope cx) (\<lambda>s. Inr (filter (\<lambda>a.
     case get_workspace d (ar_workspace a) of None \<Rightarrow> False | Some w \<Rightarrow> ws_scope w = s) self))"

definition artifacts_in_current_workspace :: "app_context \<Rightarrow> artifact list \<Rightarrow> artifact list res" where
  "artifacts_in_current_workspace cx self =
     bind_res (require_workspace cx) (\<lambda>w. Inr (filter (\<lambda>a. ar_workspace a = w) self))"

definition artifact_can_display :: "db \<Rightarrow> app_context \<Rightarrow> artifact \<Rightarrow> permission_user \<Rightarrow> bool res" where
  "artifact_can_display d cx = permission_check ALWAYS PASS (\<lambda>self user.
     bind_res (artifact_workspace d self) (\<lambda>w. ws_can_display d cx w user)) cx"

definition artifacts_can_display ::
  "db \<Rightarrow> app_context \<Rightarrow> artifact list \<Rightarrow> permission_user \<Rightarrow> artifact list res" where
  "artifacts_can_display d cx = permission_filter ALWAYS PASS (\<lambda>self user.
     bind_res (ws_can_display_qs d cx (db_workspaces d) user)
       (\<lambda>ws. Inr (filter (\<lambda>a. ar_workspace a \<in> ws_id ` set ws) self))) cx"

definition annotate_complete :: "db \<Rightarrow> artifact list \<Rightarrow> (artifact \<times> bool) list" where
  "annotate_complete d self =
     map (\<lambda>a. (a, \<not> list_ex (\<lambda>f. fa_artifact f = ar_id a \<and> \<not> fa_complete f) (db_file_in_artifacts d))) self"

text \<open>A relation is visible when both of its ends are.\<close>

definition relation_end :: "db \<Rightarrow> pk \<Rightarrow> artifact res" where
  "relation_end d i = (case get_artifact d i of None \<Rightarrow> Inl (DoesNotExist ''Artifact'') | Some a \<Rightarrow> Inr a)"

definition relation_can_display ::
  "db \<Rightarrow> app_context \<Rightarrow> artifact_relation \<Rightarrow> permission_user \<Rightarrow> bool res" where
  "relation_can_display d cx = permission_check ALWAYS PASS (\<lambda>self user.
     bind_res (bind_res (relation_end d (rl_artifact self)) (artifact_workspace d)) (\<lambda>w.
     bind_res (ws_can_display d cx w user) (\<lambda>shown.
       if \<not> shown then Inr False
       else bind_res (bind_res (relation_end d (rl_target self)) (artifact_workspace d))
              (\<lambda>w. ws_can_display d cx w user)))) cx"

definition end_among :: "db \<Rightarrow> workspace set \<Rightarrow> pk \<Rightarrow> bool" where
  "end_among d ws i =
     (case get_artifact d i of None \<Rightarrow> False | Some a \<Rightarrow> ar_workspace a \<in> ws_id ` ws)"

definition relations_can_display ::
  "db \<Rightarrow> app_context \<Rightarrow> artifact_relation list \<Rightarrow> permission_user \<Rightarrow> artifact_relation list res" where
  "relations_can_display d cx = permission_filter ALWAYS PASS (\<lambda>self user.
     bind_res (ws_can_display_qs d cx (db_workspaces d) user)
       (\<lambda>ws. Inr (filter (\<lambda>r. end_among d (set ws) (rl_artifact r) \<and> end_among d (set ws) (rl_target r))
                    self))) cx"

definition relations_in_current_scope ::
  "db \<Rightarrow> app_context \<Rightarrow> artifact_relation list \<Rightarrow> artifact_relation list res" where
  "relations_in_current_scope d cx self = bind_res (require_scope cx) (\<lambda>s.
     let ws = set (filter (\<lambda>w. ws_scope w = s) (db_workspaces d))
     in Inr (filter (\<lambda>r. end_among d ws (rl_artifact r) \<and> end_among d ws (rl_target r)) self))"

section \<open>Expiration\<close>

text \<open>\<open>Coalesce(expiration_delay, workspace.default_expiration_delay)\<close>.\<close>

definition artifact_delay :: "db \<Rightarrow> artifact \<Rightarrow> duration option" where
  "artifact_delay d a =
     (case ar_expiration_delay a of
        Some x \<Rightarrow> Some x
      | None \<Rightarrow> map_option ws_default_expiration_delay (get_workspace d (ar_workspace a)))"

definition artifacts_not_expired :: "db \<Rightarrow> artifact list \<Rightarrow> time \<Rightarrow> artifact list" where
  "artifacts_not_expired d self at =
     filter (\<lambda>a. case artifact_delay d a of None \<Rightarrow> False | Some x \<Rightarrow> x = 0 \<or> ar_created_at a > at - x) self"

definition artifacts_expired :: "db \<Rightarrow> artifact list \<Rightarrow> time \<Rightarrow> artifact list" where
  "artifacts_expired d self at =
     filter (\<lambda>a. case artifact_delay d a of None \<Rightarrow> False | Some x \<Rightarrow> ar_created_at a \<le> at - x)
       (filter (\<lambda>a. artifact_delay d a \<noteq> Some 0) self)"

definition artifact_expiration_delay :: "db \<Rightarrow> artifact \<Rightarrow> duration res" where
  "artifact_expiration_delay d self =
     (case ar_expiration_delay self of
        Some x \<Rightarrow> Inr x
      | None \<Rightarrow> bind_res (artifact_workspace d self) (\<lambda>w. Inr (ws_default_expiration_delay w)))"

definition artifact_expire_at :: "db \<Rightarrow> artifact \<Rightarrow> time option res" where
  "artifact_expire_at d self = bind_res (artifact_expiration_delay d self) (\<lambda>delay.
     Inr (if delay = 0 then None else Some (ar_created_at self + delay)))"

definition artifact_expired :: "db \<Rightarrow> artifact \<Rightarrow> time \<Rightarrow> bool res" where
  "artifact_expired d self at = bind_res (artifact_expire_at d self) (\<lambda>t.
     Inr (case t of None \<Rightarrow> False | Some t \<Rightarrow> t \<le> at))"

text \<open>
  Retained by a collection: also through an item that was removed from it and still
  names the artifact.
\<close>

definition retaining :: "db \<Rightarrow> collection \<Rightarrow> bool" where
  "retaining d c \<longleftrightarrow>
     co_retains_artifacts c = RetainsAlways
     \<or> co_retains_artifacts c = RetainsWorkflow
       \<and> list_ex (\<lambda>w. wr_internal_collection w = Some (co_id c)
                      \<and> wr_status w \<in> {PENDING, RUNNING, BLOCKED}) (db_work_requests d)"

definition part_of_collection_with_retains_artifacts :: "db \<Rightarrow> artifact list \<Rightarrow> artifact list" where
  "part_of_collection_with_retains_artifacts d self =
     filter (\<lambda>a. list_ex (\<lambda>i. ci_artifact i = Some (ar_id a)
         \<and> (case get_collection_row d (ci_parent_collection i) of
              None \<Rightarrow> False | Some c \<Rightarrow> retaining d c)) (db_items d)) self"

section \<open>Creating artifacts\<close>

text \<open>\<open>Artifact.save\<close> of a new row (its key is assigned by the table).\<close>

definition create_artifact :: "app_context \<Rightarrow> artifact \<Rightarrow> artifact dbact" where
  "create_artifact cx self = with_db (\<lambda>d.
     bind_act (lift_res (bind_res (artifact_workspace d self)
         (\<lambda>w. ws_can_create_artifacts d cx w (cx_user cx)))) (\<lambda>allowed.
     if \<not> allowed then raise (PermissionDenied ''cannot create artifacts'')
     else
       let a = self\<lparr>ar_id := tbl_next ar_id (db_artifacts d)\<rparr>
       in seq_act (modify_db (\<lambda>d. d\<lparr>db_artifacts := db_artifacts d @ [a]\<rparr>)) (ret a)))"

definition insert_file_in_artifact :: "file_in_artifact \<Rightarrow> unit dbact" where
  "insert_file_in_artifact r = with_db (\<lambda>d.
     if list_ex (\<lambda>f. fa_artifact f = fa_artifact r \<and> fa_path f = fa_path r) (db_file_in_artifacts d)
     then raise (IntegrityError ''unique_artifact_path'')
     else modify_db (\<lambda>d. d\<lparr>db_file_in_artifacts := db_file_in_artifacts d
            @ [r\<lparr>fa_id := tbl_next fa_id (db_file_in_artifacts d)\<rparr>]\<rparr>))"

text \<open>A \<open>LocalArtifact\<close>: its files by path with their contents.\<close>

record local_artifact =
  la_category :: string
  la_data :: "(string \<times> json) list"
  la_files :: "(string \<times> bytes) list"
  la_content_types :: "(string \<times> string) list"

definition store_local_file ::
  "storage \<Rightarrow> workspace \<Rightarrow> artifact \<Rightarrow> (string \<times> string) list \<Rightarrow> string \<times> bytes \<Rightarrow> unit dbact" where
  "store_local_file st ws art content_types file =
     bind_act (from_local_path st (snd file)) (\<lambda>f. with_db (\<lambda>d.
     bind_act (lift_res (upload_file_backend d (ws_scope ws) f)) (\<lambda>store.
     bind_act (lift_res (get_entry st store f)) (\<lambda>en.
     seq_act (add_file (fs_id store) en f (snd file))
       (insert_file_in_artifact \<lparr>fa_id = 0, fa_artifact = ar_id art, fa_path = fst file, fa_file = fi_id f,
          fa_complete = True, fa_content_type = map_of content_types (fst file)\<rparr>)))))"

definition create_from_local_artifact ::
  "storage \<Rightarrow> app_context \<Rightarrow> time \<Rightarrow> local_artifact \<Rightarrow> workspace \<Rightarrow> pk option \<Rightarrow> artifact dbact" where
  "create_from_local_artifact st cx now la ws created_by_work_request =
     bind_act (create_artifact cx \<lparr>ar_id = 0, ar_category = la_category la, ar_workspace = ws_id ws,
         ar_data = la_data la, ar_created_at = now, ar_expiration_delay = None, ar_created_by = None,
         ar_created_by_work_request = created_by_work_request, ar_original_artifact = None\<rparr>) (\<lambda>a.
     seq_act (for_each (la_files la) (store_local_file st ws a (la_content_types la))) (ret a))"

section \<open>Files being uploaded\<close>

text \<open>\<open>Path(settings.DEBUSINE_UPLOAD_DIRECTORY) / path\<close>.\<close>

definition absolute_file_path :: "string \<Rightarrow> file_upload \<Rightarrow> string" where
  "absolute_file_path upload_directory self =
     (if starts_with ''/'' (fu_path self) then fu_path self else upload_directory @ ''/'' @ fu_path self)"

definition current_size :: "string \<Rightarrow> db \<Rightarrow> pk \<Rightarrow> string \<Rightarrow> nat res" where
  "current_size upload_directory d art path =
     (case find (\<lambda>f. fa_artifact f = art \<and> fa_path f = path) (db_file_in_artifacts d) of
        None \<Rightarrow> Inl (ValueError ''No FileInArtifact'')
      | Some f \<Rightarrow>
          (case find (\<lambda>u. fu_file_in_artifact u = fa_id f) (db_file_uploads d) of
             None \<Rightarrow> Inl (ValueError ''No FileUpload'')
           | Some u \<Rightarrow>
               Inr (case read_location (LocalPath (absolute_file_path upload_directory u)) d of
                      None \<Rightarrow> 0 | Some c \<Rightarrow> length c)))"

text \<open>The file on disk goes when the transaction commits.\<close>

definition delete_file_upload :: "string \<Rightarrow> file_upload \<Rightarrow> unit dbact" where
  "delete_file_upload upload_directory self = modify_db (\<lambda>d.
     d\<lparr>db_file_uploads := filter (\<lambda>u. fu_id u \<noteq> fu_id self) (db_file_uploads d),
       db_on_commit := db_on_commit d @ [Unlink (absolute_file_path upload_directory self)]\<rparr>)"

section \<open>The query and the instance agree\<close>

lemma artifacts_expired_iff:
  "a \<in> set (artifacts_expired d self at) \<longleftrightarrow> a \<in> set self \<and> artifact_expired d a at = Inr True"
  by (auto simp: artifacts_expired_def artifact_expired_def artifact_expire_at_def
      artifact_expiration_delay_def artifact_delay_def artifact_workspace_def
      split: option.splits)

lemma artifacts_not_expired_iff:
  "a \<in> set (artifacts_not_expired d self at) \<longleftrightarrow> a \<in> set self \<and> artifact_expired d a at = Inr False"
  by (auto simp: artifacts_not_expired_def artifact_expired_def artifact_expire_at_def
      artifact_expiration_delay_def artifact_delay_def artifact_workspace_def
      split: option.splits)

end
