(* ===== verification/Stores.thy ===== *)
theory Stores
  imports Files
begin

text \<open>
  Properties of the file stores: the contract of a backend entry as a locale with
  the local and the in-memory backend as interpretations, what adding and
  removing files does, the total size of a store, names on disk, and the choice
  of a store.
\<close>

section \<open>Names on disk\<close>

lemma hex_digit_code:
  assumes "n < 16"
  shows "(of_char (hex_digit n) :: nat) = (if n < 10 then 48 + n else 87 + n)"
proof -
  have "(if n < 10 then 48 + n else 87 + n) mod 256 = (if n < 10 then 48 + n else 87 + n)"
    using assms by (intro mod_less) simp
  then show ?thesis unfolding hex_digit_def of_char_of .
qed

lemma hex_digit_inj:
  assumes "m < 16" and "n < 16" and "hex_digit m = hex_digit n"
  shows "m = n"
proof -
  have "(if m < 10 then 48 + m else 87 + m) = (if n < 10 then 48 + n else 87 + n)"
    unfolding hex_digit_code [OF assms(1), symmetric] hex_digit_code [OF assms(2), symmetric]
      assms(3) ..
  then show ?thesis using assms(1,2) by (cases "m < 10"; cases "n < 10") simp_all
qed

lemma hex_digit_other:
  assumes "n < 16"
  shows "hex_digit n \<noteq> CHR ''-''" "hex_digit n \<noteq> CHR ''/''"
proof -
  have "(of_char (hex_digit n) :: nat) \<ge> 48" using hex_digit_code [OF assms] by (simp split: if_splits)
  then show "hex_digit n \<noteq> CHR ''-''" "hex_digit n \<noteq> CHR ''/''" by force+
qed

lemma hex_simps [simp]:
  "hex [] = []"
  "hex (b # bs) = hex_digit (of_char b div 16) # hex_digit (of_char b mod 16) # hex bs"
  by (simp_all add: hex_def Let_def)

lemma hex_inj: "hex xs = hex ys \<Longrightarrow> xs = ys"
proof (induction xs arbitrary: ys)
  case Nil
  then show ?case by (cases ys) simp_all
next
  case (Cons x xs)
  then obtain y zs where ys: "ys = y # zs" by (cases ys) simp_all
  from Cons.prems ys have "(of_char x :: nat) div 16 = of_char y div 16"
    and "(of_char x :: nat) mod 16 = of_char y mod 16"
    using hex_digit_inj byte_digits by auto
  then have "(of_char x :: nat) = of_char y" by (metis div_mult_mod_eq)
  then have "x = y" by simp
  with Cons ys show ?case by simp
qed

lemma hex_no_separator: "CHR ''-'' \<notin> set (hex bs)" "CHR ''/'' \<notin> set (hex bs)"
  by (induction bs) (simp_all add: hex_digit_other byte_digits hex_digit_other [symmetric])

lemma length_hex [simp]: "length (hex bs) = 2 * length bs"
  by (induction bs) simp_all

text \<open>What follows the first occurrence of a character.\<close>

lemma split_at_char:
  assumes "c \<notin> set xs" and "c \<notin> set ys" and "xs @ c # us = ys @ c # vs"
  shows "xs = ys \<and> us = vs"
  using assms
proof (induction xs arbitrary: ys)
  case Nil
  then show ?case by (cases ys) auto
next
  case (Cons x xs)
  then show ?case by (cases ys) auto
qed

lemma local_identifier_inj:
  assumes "local_identifier f = local_identifier g"
  shows "fi_sha256 f = fi_sha256 g \<and> fi_size f = fi_size g"
proof -
  let ?h = "\<lambda>f. hex (fi_sha256 f)"
  have sub: "CHR ''/'' \<notin> set (take 2 (drop k (?h f)))" for k and f :: file_row
    using hex_no_separator(2) [of "fi_sha256 f"] by (meson in_set_dropD in_set_takeD)
  have first: "CHR ''/'' \<notin> set (take 2 (?h f))" for f :: file_row
    using hex_no_separator(2) [of "fi_sha256 f"] by (meson in_set_takeD)
  have "take 2 (drop 2 (?h f)) @ CHR ''/'' # take 2 (drop 4 (?h f)) @ CHR ''/'' # ?h f
        @ CHR ''-'' # decimal (fi_size f)
      = take 2 (drop 2 (?h g)) @ CHR ''/'' # take 2 (drop 4 (?h g)) @ CHR ''/'' # ?h g
        @ CHR ''-'' # decimal (fi_size g)"
    using split_at_char [OF first first assms [unfolded local_identifier_def Let_def append_Cons append_Nil]]
    by simp
  then have "take 2 (drop 4 (?h f)) @ CHR ''/'' # ?h f @ CHR ''-'' # decimal (fi_size f)
      = take 2 (drop 4 (?h g)) @ CHR ''/'' # ?h g @ CHR ''-'' # decimal (fi_size g)"
    using split_at_char [OF sub sub] by blast
  then have "?h f @ CHR ''-'' # decimal (fi_size f) = ?h g @ CHR ''-'' # decimal (fi_size g)"
    using split_at_char [OF sub sub] by blast
  then have "?h f = ?h g \<and> decimal (fi_size f) = decimal (fi_size g)"
    using split_at_char [OF hex_no_separator(1) hex_no_separator(1)] by blast
  then show ?thesis using hex_inj decimal_inj by blast
qed

section \<open>Entries\<close>

text \<open>The tables of two databases agree: only what the backends keep differs.\<close>

definition storage_only :: "db \<Rightarrow> db \<Rightarrow> bool" where
  "storage_only d d' \<longleftrightarrow> d' = d\<lparr>db_storage := db_storage d'\<rparr>"

text \<open>
  The contract of \<open>FileBackendEntryInterface\<close> for the entry of a file: \<open>held\<close> is
  what the entry holds, \<open>elsewhere\<close> what the backends keep in other places. Contents are
  added under the hash of the file.
\<close>

locale file_entry =
  fixes hash :: "bytes \<Rightarrow> bytes" and f :: file_row and en :: entry_ops
    and held :: "db \<Rightarrow> bytes option" and elsewhere :: "db \<Rightarrow> location \<Rightarrow> bytes option"
  assumes held_storage: "db_storage d = db_storage d' \<Longrightarrow> held d = held d' \<and> elsewhere d = elsewhere d'"
    and add: "hash c = fi_sha256 f \<Longrightarrow>
      \<exists>d'. en_add en c d = (Inr (), d') \<and> held d' = Some c \<and> elsewhere d' = elsewhere d \<and> storage_only d d'"
    and same: "held d = Some c' \<Longrightarrow> en_same_contents en c d = (Inr (c' = c), d)"
    and remove: "\<exists>d'. en_remove en d = (Inr (), d') \<and> held d' = None \<and> elsewhere d' = elsewhere d
      \<and> storage_only d d'"
begin

lemma held_update [simp]: "held (insert_file_in_store x d) = held d" "held (delete_file_in_store x d) = held d"
  "elsewhere (insert_file_in_store x d) = elsewhere d" "elsewhere (delete_file_in_store x d) = elsewhere d"
  by (rule held_storage [THEN conjunct1] held_storage [THEN conjunct2],
      simp add: insert_file_in_store_def delete_file_in_store_def add_to_total_def)+

lemma held_delete_all [simp]: "held (fold delete_file_in_store xs d) = held d"
  "elsewhere (fold delete_file_in_store xs d) = elsewhere d"
  by (induction xs arbitrary: d) simp_all

end

definition location_holds :: "location \<Rightarrow> db \<Rightarrow> bytes option" where
  "location_holds l d = read_location l d"

definition kept_elsewhere :: "location \<Rightarrow> db \<Rightarrow> location \<Rightarrow> bytes option" where
  "kept_elsewhere l d k = (if k = l then None else read_location k d)"

lemma write_location_holds:
  "\<exists>d'. write_location l c d = (Inr (), d') \<and> location_holds l d' = Some c
    \<and> kept_elsewhere l d' = kept_elsewhere l d \<and> storage_only d d'"
  by (simp add: write_location_def modify_db_def location_holds_def read_location_def storage_only_def
      kept_elsewhere_def fun_eq_iff)

lemma erase_location_holds:
  "\<exists>d'. erase_location l d = (Inr (), d') \<and> location_holds l d' = None
    \<and> kept_elsewhere l d' = kept_elsewhere l d \<and> storage_only d d'"
proof -
  have "map_of (filter (\<lambda>p. fst p \<noteq> l) xs) k = (if k = l then None else map_of xs k)"
    for xs :: "(location \<times> bytes) list" and k
    by (induction xs) auto
  then show ?thesis
    by (simp add: erase_location_def modify_db_def location_holds_def read_location_def storage_only_def
        kept_elsewhere_def fun_eq_iff)
qed

lemma same_at_holds:
  "location_holds l d = Some c' \<Longrightarrow> same_at l x c d = (Inr (c' = c), d)"
  by (simp add: same_at_def location_holds_def with_db_def ret_def)

lemma holds_storage:
  "db_storage d = db_storage d' \<Longrightarrow> location_holds l d = location_holds l d'"
  "db_storage d = db_storage d' \<Longrightarrow> kept_elsewhere l d = kept_elsewhere l d'"
  by (simp_all add: location_holds_def read_location_def kept_elsewhere_def fun_eq_iff)

interpretation local: file_entry hash f "local_entry base f"
    "location_holds (LocalPath (base @ ''/'' @ local_identifier f))"
    "kept_elsewhere (LocalPath (base @ ''/'' @ local_identifier f))" for hash f base
  by unfold_locales (auto simp: local_entry_def Let_def intro: holds_storage write_location_holds
      same_at_holds erase_location_holds)

interpretation memory: file_entry "st_hash st" f "memory_entry st name f"
    "location_holds (MemoryKey name (hex (fi_sha256 f)))"
    "kept_elsewhere (MemoryKey name (hex (fi_sha256 f)))" for st f name
  by unfold_locales (auto simp: memory_entry_def Let_def intro: holds_storage write_location_holds
      same_at_holds erase_location_holds)

section \<open>Adding and removing\<close>

lemma atomic_db_ok: "m d = (Inr y, d') \<Longrightarrow> atomic_db m d = (Inr y, d')"
  by (simp add: atomic_db_def)

lemma atomic_db_raised: "m d = (Inl x, d) \<Longrightarrow> atomic_db m d = (Inl x, d)"
  by (simp add: atomic_db_def)

lemma find_in_store_None:
  "find (in_store s i) xs = None \<longleftrightarrow> filter (in_store s i) xs = []"
  by (auto simp: find_None_iff filter_empty_conv)

lemma tbl_upd_twice:
  "tbl_upd fs_id s g (tbl_upd fs_id s h t) = t"
  if "\<And>r. fs_id (h r) = fs_id r" and "\<And>r. g (h r) = r"
  using that by (simp add: tbl_upd_def comp_def) (simp add: map_idI)

lemma add_to_total_back: "add_to_total s (- n) (add_to_total s n d) = d"
  by (simp add: add_to_total_def tbl_upd_twice)

lemma delete_inserted:
  assumes "x \<notin> set (db_file_in_stores d)"
  shows "delete_file_in_store x (insert_file_in_store x d) = d"
proof -
  have size: "file_size (insert_file_in_store x d) (fx_file x) = file_size d (fx_file x)"
    by (simp add: insert_file_in_store_def add_to_total_def file_size_def get_file_def)
  have rows: "(insert_file_in_store x d)\<lparr>db_file_in_stores :=
      remove1 x (db_file_in_stores (insert_file_in_store x d))\<rparr>
    = add_to_total (fx_store x) (file_size d (fx_file x)) d"
    using assms by (simp add: insert_file_in_store_def add_to_total_def remove1_append)
  show ?thesis unfolding delete_file_in_store_def size rows add_to_total_back ..
qed

lemma storage_only_insert:
  "storage_only (insert_file_in_store x d) d' \<Longrightarrow>
     d' = (insert_file_in_store x d)\<lparr>db_storage := db_storage d'\<rparr>"
  by (simp add: storage_only_def)

lemma delete_storage:
  "delete_file_in_store x (d\<lparr>db_storage := t\<rparr>) = (delete_file_in_store x d)\<lparr>db_storage := t\<rparr>"
  by (simp add: delete_file_in_store_def add_to_total_def file_size_def get_file_def)

definition row_of :: "file_row \<Rightarrow> pk \<Rightarrow> file_in_store" where
  "row_of f store = \<lparr>fx_store = store, fx_file = fi_id f, fx_data = []\<rparr>"

context file_entry
begin

lemma add_new:
  assumes "filter (in_store store (fi_id f)) (db_file_in_stores d) = []"
    and "hash c = fi_sha256 f" and "fi_size f = length c"
  shows "\<exists>d'. add_file store en f c d = (Inr f, d') \<and> held d' = Some c \<and> elsewhere d' = elsewhere d
    \<and> storage_only (insert_file_in_store (row_of f store) d) d'"
proof -
  let ?d = "insert_file_in_store (row_of f store) d"
  have "get_or_create_file_in_store store (fi_id f) d = (Inr True, ?d)"
    using assms(1) find_in_store_None [of store "fi_id f" "db_file_in_stores d"]
    by (simp add: get_or_create_file_in_store_def act_defs row_of_def)
  moreover obtain d' where "en_add en c ?d = (Inr (), d')" "held d' = Some c" "elsewhere d' = elsewhere d"
    "storage_only ?d d'"
    using add [OF assms(2), of ?d] by auto
  ultimately show ?thesis
    using assms(3) by (intro exI [of _ d'])
      (simp add: add_file_def atomic_db_def bind_act_def seq_act_def ret_def)
qed

lemma add_again:
  assumes "find (in_store store (fi_id f)) (db_file_in_stores d) = Some x" and "fx_data x = []"
    and "held d = Some c'" and "fi_size f = length c"
  shows "add_file store en f c d
    = (if c' = c then Inr f else Inl (ValueError ''add_file contents mismatch''), d)"
  using assms same [OF assms(3), of c]
  by (simp add: add_file_def atomic_db_def bind_act_def get_or_create_file_in_store_def with_db_def
      ret_def raise_def)

lemma removed:
  "\<exists>d'. remove_file store en f d = (Inr (), d') \<and> held d' = None \<and> elsewhere d' = elsewhere d
    \<and> storage_only (fold delete_file_in_store
        (filter (in_store store (fi_id f)) (db_file_in_stores d)) d) d'"
proof -
  let ?d = "fold delete_file_in_store (filter (in_store store (fi_id f)) (db_file_in_stores d)) d"
  obtain d' where "en_remove en ?d = (Inr (), d')" "held d' = None" "elsewhere d' = elsewhere d"
    "storage_only ?d d'"
    using remove [of ?d] by auto
  then show ?thesis
    by (intro exI [of _ d'])
      (simp add: remove_file_def atomic_db_def bind_act_def seq_act_def modify_db_def)
qed

lemma roundtrip:
  assumes "filter (in_store store (fi_id f)) (db_file_in_stores d) = []"
    and "hash c = fi_sha256 f" and "fi_size f = length c"
  shows "\<exists>d1 d2. add_file store en f c d = (Inr f, d1) \<and> held d1 = Some c \<and> elsewhere d1 = elsewhere d
    \<and> (\<forall>c'. length c' = length c \<longrightarrow> add_file store en f c' d1
         = (if c' = c then Inr f else Inl (ValueError ''add_file contents mismatch''), d1))
    \<and> remove_file store en f d1 = (Inr (), d2) \<and> held d2 = None \<and> elsewhere d2 = elsewhere d
    \<and> storage_only d d2"
proof -
  let ?x = "row_of f store"
  obtain d1 where d1: "add_file store en f c d = (Inr f, d1)" "held d1 = Some c"
    "elsewhere d1 = elsewhere d" "storage_only (insert_file_in_store ?x d) d1" using add_new [OF assms] by blast
  have mine: "in_store store (fi_id f) ?x" by (simp add: in_store_def row_of_def)
  have d1_eq: "d1 = (insert_file_in_store ?x d)\<lparr>db_storage := db_storage d1\<rparr>"
    using d1(4) by (simp add: storage_only_def)
  have rows: "db_file_in_stores d1 = db_file_in_stores d @ [?x]"
    by (subst d1_eq) (simp add: insert_file_in_store_def add_to_total_def)
  have "find (in_store store (fi_id f)) (db_file_in_stores d1) = Some ?x"
    unfolding rows by (rule find_last [OF assms(1) mine])
  then have again: "add_file store en f c' d1
      = (if c = c' then Inr f else Inl (ValueError ''add_file contents mismatch''), d1)"
    if "length c' = length c" for c'
    using add_again [of store d1 ?x c c'] d1(2) assms(3) that by (simp add: row_of_def)
  have only: "filter (in_store store (fi_id f)) (db_file_in_stores d1) = [?x]"
    unfolding rows using assms(1) mine by simp
  obtain d2 where d2: "remove_file store en f d1 = (Inr (), d2)" "held d2 = None" "elsewhere d2 = elsewhere d1"
    "storage_only (delete_file_in_store ?x d1) d2"
    using removed [of store d1] unfolding only by auto
  have "?x \<notin> set (db_file_in_stores d)" using assms(1) mine by (auto simp: filter_empty_conv)
  then have "delete_file_in_store ?x d1 = d\<lparr>db_storage := db_storage d1\<rparr>"
    by (subst d1_eq) (simp add: delete_storage delete_inserted)
  with d2(4) have "storage_only d d2" by (simp add: storage_only_def)
  moreover have "\<forall>c'. length c' = length c \<longrightarrow> add_file store en f c' d1
      = (if c' = c then Inr f else Inl (ValueError ''add_file contents mismatch''), d1)"
    using again by (auto simp: eq_commute [of c])
  ultimately show ?thesis using d1(1-3) d2(1-3) by (intro exI conjI) simp_all
qed

end

text \<open>Where the contents of a file are in the two kinds of store.\<close>

definition kept_at :: "storage \<Rightarrow> file_store \<Rightarrow> file_row \<Rightarrow> location res" where
  "kept_at st fs f = (if fs_backend fs = LocalBackend
     then bind_res (local_base_directory st fs) (\<lambda>base. Inr (LocalPath (base @ ''/'' @ local_identifier f)))
     else Inr (MemoryKey (memory_name fs) (hex (fi_sha256 f))))"

text \<open>
  C26: in a local or in-memory store, a file that is added is kept as it is: its contents
  can be read at its location, adding the same contents again changes nothing, other
  contents of that length are refused with nothing changed, and removing the file takes
  the contents away from its location and restores every table, the total size of the
  store included. What is kept at other locations is not touched.
\<close>

theorem add_file_roundtrip:
  assumes "get_entry st fs f = Inr en" and "fs_backend fs \<in> {LocalBackend, MemoryBackend}"
    and "filter (in_store (fs_id fs) (fi_id f)) (db_file_in_stores d) = []"
    and "st_hash st c = fi_sha256 f" and "fi_size f = length c"
  shows "\<exists>d1 d2 l. kept_at st fs f = Inr l
    \<and> add_file (fs_id fs) en f c d = (Inr f, d1) \<and> read_location l d1 = Some c
    \<and> (\<forall>c'. length c' = length c \<longrightarrow> add_file (fs_id fs) en f c' d1
         = (if c' = c then Inr f else Inl (ValueError ''add_file contents mismatch''), d1))
    \<and> remove_file (fs_id fs) en f d1 = (Inr (), d2) \<and> read_location l d2 = None \<and> storage_only d d2
    \<and> (\<forall>k. k \<noteq> l \<longrightarrow> read_location k d1 = read_location k d \<and> read_location k d2 = read_location k d)"
proof -
  have others: "\<forall>k. k \<noteq> l \<longrightarrow> read_location k d' = read_location k d"
    if "kept_elsewhere l d' = kept_elsewhere l d" for l d'
    using fun_cong [OF that] by (metis kept_elsewhere_def)
  show ?thesis
  proof (cases "fs_backend fs")
    case LocalBackend
    then obtain base where base: "local_base_directory st fs = Inr base" "en = local_entry base f"
      using assms(1) by (auto simp: get_entry_def bind_res_eq_Inr)
    with LocalBackend have "kept_at st fs f = Inr (LocalPath (base @ ''/'' @ local_identifier f))"
      by (simp add: kept_at_def bind_res_eq_Inr)
    then show ?thesis
      using local.roundtrip [OF assms(3), of "st_hash st" c base] assms(4,5) others
      unfolding base(2) location_holds_def by blast
  next
    case MemoryBackend
    then have "en = memory_entry st (memory_name fs) f"
      "kept_at st fs f = Inr (MemoryKey (memory_name fs) (hex (fi_sha256 f)))"
      using assms(1) by (simp_all add: get_entry_def kept_at_def)
    then show ?thesis
      using memory.roundtrip [OF assms(3,4,5), of "memory_name fs"] others
      unfolding location_holds_def by blast
  qed (use assms(2) in simp_all)
qed

section \<open>The total size of a store\<close>

definition size_held :: "db \<Rightarrow> pk \<Rightarrow> int" where
  "size_held d store = sum_list (map (\<lambda>x. file_size d (fx_file x))
     (filter (\<lambda>x. fx_store x = store) (db_file_in_stores d)))"

definition totals_right :: "db \<Rightarrow> bool" where
  "totals_right d \<longleftrightarrow> (\<forall>s\<in>set (db_file_stores d). fs_total_size s = size_held d (fs_id s))"

lemma file_size_unchanged [simp]:
  "file_size (add_to_total s n d) i = file_size d i"
  "file_size (d\<lparr>db_file_in_stores := xs\<rparr>) i = file_size d i"
  "file_size (d\<lparr>db_storage := t\<rparr>) i = file_size d i"
  by (simp_all add: file_size_def get_file_def add_to_total_def)

lemma totals_storage: "totals_right (d\<lparr>db_storage := t\<rparr>) = totals_right d"
  by (simp add: totals_right_def size_held_def)

lemma totals_right_add_to_total:
  assumes "\<And>s. size_held d' s = size_held d s + (if s = store then n else 0)"
    and "db_file_stores d' = db_file_stores d" and "totals_right d"
  shows "totals_right (add_to_total store n d')"
proof -
  have "size_held (add_to_total store n d') s = size_held d' s" for s
    by (simp add: size_held_def) (simp add: add_to_total_def)
  then show ?thesis
    using assms by (auto simp: totals_right_def add_to_total_def tbl_upd_def)
qed

lemma totals_insert: "totals_right d \<Longrightarrow> totals_right (insert_file_in_store x d)"
  unfolding insert_file_in_store_def
  by (rule totals_right_add_to_total) (simp_all add: size_held_def)

lemma sum_list_remove1:
  "x \<in> set xs \<Longrightarrow> sum_list (map f (remove1 x xs)) = sum_list (map f xs) - (f x :: int)"
  by (induction xs) auto

lemma filter_remove1: "filter P (remove1 x xs) = (if P x then remove1 x (filter P xs) else filter P xs)"
  by (induction xs) auto

lemma totals_delete:
  assumes "x \<in> set (db_file_in_stores d)" and "totals_right d"
  shows "totals_right (delete_file_in_store x d)"
  unfolding delete_file_in_store_def
proof (rule totals_right_add_to_total [OF _ _ assms(2)])
  fix s
  show "size_held (d\<lparr>db_file_in_stores := remove1 x (db_file_in_stores d)\<rparr>) s
      = size_held d s + (if s = fx_store x then - file_size d (fx_file x) else 0)"
    using assms(1) by (auto simp: size_held_def filter_remove1 sum_list_remove1)
qed simp

lemma rows_delete: "db_file_in_stores (delete_file_in_store x d) = remove1 x (db_file_in_stores d)"
  by (simp add: delete_file_in_store_def add_to_total_def)

lemma totals_delete_all:
  "mset xs \<subseteq># mset (db_file_in_stores d) \<Longrightarrow> totals_right d \<Longrightarrow>
     totals_right (fold delete_file_in_store xs d)"
proof (induction xs arbitrary: d)
  case Nil
  then show ?case by simp
next
  case (Cons x xs)
  have "x \<in># mset (db_file_in_stores d)" by (rule mset_subset_eqD [OF Cons.prems(1)]) simp
  then have "x \<in> set (db_file_in_stores d)" by simp
  moreover have "mset xs \<subseteq># mset (db_file_in_stores (delete_file_in_store x d))"
    using Cons.prems(1) by (simp add: rows_delete insert_subset_eq_iff)
  ultimately show ?case using Cons totals_delete by simp
qed

text \<open>A backend entry touches nothing but its storage, whatever the backend.\<close>

definition keeps_tables :: "entry_ops \<Rightarrow> bool" where
  "keeps_tables en \<longleftrightarrow> (\<forall>d c. storage_only d (snd (en_add en c d))
     \<and> storage_only d (snd (en_same_contents en c d)) \<and> storage_only d (snd (en_remove en d)))"

lemma totals_storage_only: "storage_only d d' \<Longrightarrow> totals_right d' = totals_right d"
  unfolding storage_only_def by (erule ssubst) (rule totals_storage)

lemma ensures_totals_storage:
  "(\<And>d. storage_only d (snd (m d))) \<Longrightarrow> ensures totals_right (\<lambda>_. True) m"
  using totals_storage_only unfolding ensures_def by blast

lemma ensures_atomic_db:
  assumes "ensures totals_right Q m"
  shows "ensures totals_right Q (atomic_db m)"
  unfolding ensures_def
proof (intro allI impI)
  fix d
  assume right: "totals_right d"
  then have "totals_right (snd (m d))" "\<forall>y. fst (m d) = Inr y \<longrightarrow> Q y"
    using assms by (auto simp: ensures_def)
  then show "totals_right (snd (atomic_db m d)) \<and> (\<forall>y. fst (atomic_db m d) = Inr y \<longrightarrow> Q y)"
    using right by (auto simp: atomic_db_def totals_storage split: prod.splits sum.splits)
qed

text \<open>
  C27: the triggers keep the total size of every store equal to the sizes of the
  files it holds, through \<open>add_file\<close> and \<open>remove_file\<close>, also when they raise.
\<close>

theorem stores_keep_totals:
  assumes "keeps_tables en" and "totals_right d"
  shows "totals_right (snd (add_file store en f c d)) \<and> totals_right (snd (remove_file store en f d))"
proof -
  have "ensures totals_right (\<lambda>_. True) (en_add en c)" "ensures totals_right (\<lambda>_. True) (en_same_contents en c)"
    "ensures totals_right (\<lambda>_. True) (en_remove en)"
    using assms(1) by (auto simp: keeps_tables_def intro: ensures_totals_storage)
  note en = this
  have "ensures totals_right (\<lambda>_. True) (get_or_create_file_in_store store (fi_id f))"
    unfolding get_or_create_file_in_store_def
    by (intro ensures_with_db ensures_option ensures_if ensures_ret ensures_raise
        ensures_seq [OF ensures_modify] totals_insert) simp_all
  then have "ensures totals_right (\<lambda>_. True) (add_file store en f c)"
    unfolding add_file_def
    by (intro ensures_atomic_db ensures_if ensures_raise ensures_bind [where Q = "\<lambda>_. True"]
        ensures_seq [OF en(1)] ensures_ret en(2)) simp_all
  moreover have "ensures totals_right (\<lambda>_. True) (remove_file store en f)"
    unfolding remove_file_def
    by (intro ensures_atomic_db ensures_seq [OF ensures_modify] en(3) totals_delete_all)
      (simp_all add: multiset_filter_subset)
  ultimately show ?thesis using assms(2) by (simp add: ensures_def)
qed

section \<open>Which store a file goes to\<close>

text \<open>The links of a scope whose store accepts a file on upload.\<close>

definition accepts :: "db \<Rightarrow> pk \<Rightarrow> file_row \<Rightarrow> file_store \<times> file_store_in_scope \<Rightarrow> bool" where
  "accepts d scope f p \<longleftrightarrow> p \<in> set (scope_stores d scope)
     \<and> \<not> sx_read_only (snd p) \<and> \<not> written_only d (fst p)
     \<and> (\<forall>m. fs_max_size (fst p) = Some m \<longrightarrow> fs_total_size (fst p) + int (fi_size f) \<le> m)"

lemma hd_sort_key_least:
  "xs = sort_key k ys \<Longrightarrow> xs = x # zs \<Longrightarrow> y \<in> set ys \<Longrightarrow> k x \<le> (k y :: 'b :: linorder)"
proof -
  assume xs: "xs = sort_key k ys" "xs = x # zs" and y: "y \<in> set ys"
  have "sorted (map k (x # zs))" using xs by (metis sorted_sort_key)
  moreover have "y \<in> set (x # zs)" using xs y by (metis set_sort)
  ultimately show "k x \<le> k y" by auto
qed

lemma desc_nulls_last_le:
  "desc_nulls_last p \<le> desc_nulls_last q \<longleftrightarrow>
     (case q of None \<Rightarrow> True | Some n \<Rightarrow> (case p of None \<Rightarrow> False | Some m \<Rightarrow> n \<le> m))"
  by (auto simp: desc_nulls_last_def split: option.splits)

lemma upload_stores_accepting:
  "upload_file_stores d scope f False False
   = map fst (sort_key (\<lambda>p. desc_nulls_last (sx_upload_priority (snd p)))
       (filter (accepts d scope f) (scope_stores d scope)))"
proof -
  have eq: "filter (\<lambda>(s, x). \<not> written_only d s)
      (sort_key (\<lambda>(s, x). desc_nulls_last (sx_upload_priority x)) xs)
    = sort_key (\<lambda>p. desc_nulls_last (sx_upload_priority (snd p)))
        (filter (\<lambda>(s, x). \<not> written_only d s) xs)" for xs :: "(file_store \<times> file_store_in_scope) list"
    by (simp add: filter_sort case_prod_unfold)
  show ?thesis
    unfolding upload_file_stores_def Let_def if_False eq
    by (rule arg_cong [where f = "map fst"], rule arg_cong [where f = "sort_key _"])
      (auto simp: accepts_def within_def case_prod_unfold intro!: filter_cong split: option.splits)
qed

text \<open>
  C18: \<open>upload_file_backend\<close> picks a store of the scope that is not read-only there,
  nor write-only in any scope, and stays within its maximum size with the file, of the highest
  upload priority of all such stores; it raises only when there is none.
\<close>

theorem upload_file_backend_best:
  "case upload_file_backend d scope f of
     Inr s \<Rightarrow> (\<exists>x. accepts d scope f (s, x)
       \<and> (\<forall>p. accepts d scope f p \<longrightarrow> desc_nulls_last (sx_upload_priority x)
                                       \<le> desc_nulls_last (sx_upload_priority (snd p))))
   | Inl e \<Rightarrow> e = IndexError \<and> (\<nexists>p. accepts d scope f p)"
proof -
  let ?ok = "filter (accepts d scope f) (scope_stores d scope)"
  let ?key = "\<lambda>p. desc_nulls_last (sx_upload_priority (snd p))"
  have mem: "accepts d scope f p \<longleftrightarrow> p \<in> set ?ok" for p by (auto simp: accepts_def)
  show ?thesis
  proof (cases "sort_key ?key ?ok")
    case Nil
    then have "set ?ok = {}" by (metis set_sort set_empty)
    then have none: "\<not> accepts d scope f p" for p using mem [of p] by (metis empty_iff)
    with Nil show ?thesis by (simp add: upload_file_backend_def upload_stores_accepting none)
  next
    case (Cons p ps)
    obtain s x where p: "p = (s, x)" by (cases p)
    have "p \<in> set ?ok" using Cons by (metis list.set_intros(1) set_sort)
    then have ok: "accepts d scope f (s, x)" unfolding p by (rule mem [THEN iffD2])
    have best: "desc_nulls_last (sx_upload_priority x) \<le> ?key q" if "accepts d scope f q" for q
      using hd_sort_key_least [OF refl Cons mem [THEN iffD1, OF that]] unfolding p by simp
    have chosen: "upload_file_backend d scope f = Inr s"
      using Cons p by (simp add: upload_file_backend_def upload_stores_accepting)
    show ?thesis unfolding chosen sum.case using ok best by blast
  qed
qed

text \<open>
  Two files with different hashes or sizes have different paths in a local
  store, so removing one of them leaves what is kept of the other.
\<close>

theorem local_files_apart:
  assumes "(fi_sha256 f, fi_size f) \<noteq> (fi_sha256 g, fi_size g)"
  shows "location_holds (LocalPath (base @ ''/'' @ local_identifier g))
      (snd (remove_file store (local_entry base f) f d))
    = location_holds (LocalPath (base @ ''/'' @ local_identifier g)) d"
proof -
  have apart: "local_identifier f \<noteq> local_identifier g"
    using assms local_identifier_inj by blast
  have kept: "map_of (filter (\<lambda>p. fst p \<noteq> l) xs) k = map_of xs k" if "k \<noteq> l" for k l :: location
      and xs :: "(location \<times> bytes) list"
    using that by (induction xs) auto
  have "db_storage (fold delete_file_in_store xs d) = db_storage d" for xs and d :: db
    by (induction xs arbitrary: d) (simp_all add: delete_file_in_store_def add_to_total_def)
  then show ?thesis
    using apart kept
    by (simp add: remove_file_def atomic_db_def act_defs local_entry_def Let_def erase_location_def
        location_holds_def read_location_def)
qed

section \<open>Examples\<close>

text \<open>A hash that is not one, but that the examples can compute.\<close>

definition toy_hash :: "bytes \<Rightarrow> bytes" where
  "toy_hash c = take 3 (c @ ''abc'')"

definition example_storage :: storage where
  "example_storage = \<lparr>st_store_directory = ''/srv'', st_hash = toy_hash,
     st_remote_entry = \<lambda>fs f. Inl (NotSupportedError [])\<rparr>"

definition example_file :: file_row where
  "example_file = \<lparr>fi_id = 1, fi_sha256 = toy_hash ''data'', fi_size = 4\<rparr>"

definition example_store :: file_store where
  "example_store = \<lparr>fs_id = 1, fs_name = ''Default'', fs_backend = LocalBackend,
     fs_configuration = [], fs_instance_wide = True, fs_total_size = 0, fs_soft_max_size = None,
     fs_max_size = Some 100, fs_provider_account = None\<rparr>"

definition example_files :: db where
  "example_files = example_db\<lparr>db_files := [example_file], db_file_stores := [example_store]\<rparr>"

lemma example_entry: "get_entry example_storage example_store example_file
    = Inr (local_entry ''/srv'' example_file)"
  by (simp add: get_entry_def example_store_def example_storage_def local_base_directory_def)

lemma local_keeps_tables: "keeps_tables (local_entry base f)"
  by (auto simp: keeps_tables_def local_entry_def Let_def write_location_def erase_location_def
      same_at_def with_db_def modify_db_def storage_only_def ret_def raise_def split: option.splits)

lemma example_totals: "totals_right example_files"
  by (simp add: totals_right_def size_held_def example_files_def example_simps example_store_def)

theorem add_file_roundtrip_witness:
  "\<exists>d1 d2. add_file 1 (local_entry ''/srv'' example_file) example_file ''data'' example_files
      = (Inr example_file, d1)
    \<and> add_file 1 (local_entry ''/srv'' example_file) example_file ''DATA'' d1
      = (Inl (ValueError ''add_file contents mismatch''), d1)
    \<and> remove_file 1 (local_entry ''/srv'' example_file) example_file d1 = (Inr (), d2)
    \<and> storage_only example_files d2"
proof -
  have store: "fs_id example_store = 1" "fs_backend example_store \<in> {LocalBackend, MemoryBackend}"
    by (simp_all add: example_store_def)
  have new: "filter (in_store (fs_id example_store) (fi_id example_file))
      (db_file_in_stores example_files) = []"
    by (simp add: example_files_def example_simps)
  have hashed: "st_hash example_storage ''data'' = fi_sha256 example_file"
    "fi_size example_file = length ''data''"
    by (simp_all add: example_storage_def example_file_def)
  from add_file_roundtrip [OF example_entry store(2) new hashed] obtain d1 d2 where
    d: "add_file 1 (local_entry ''/srv'' example_file) example_file ''data'' example_files
      = (Inr example_file, d1)"
    "\<forall>c'. length c' = length ''data'' \<longrightarrow>
      add_file 1 (local_entry ''/srv'' example_file) example_file c' d1
      = (if c' = ''data'' then Inr example_file
         else Inl (ValueError ''add_file contents mismatch''), d1)"
    "remove_file 1 (local_entry ''/srv'' example_file) example_file d1 = (Inr (), d2)"
    "storage_only example_files d2"
    unfolding store(1) by blast
  from d(2) [rule_format, of "''DATA''"] d(1,3,4) show ?thesis by auto
qed

theorem stores_keep_totals_witness:
  "totals_right (snd (add_file 1 (local_entry ''/srv'' example_file) example_file ''data'' example_files))"
  using stores_keep_totals [OF local_keeps_tables example_totals] by blast

theorem local_files_apart_witness:
  "location_holds (LocalPath (''/srv/'' @ local_identifier (example_file\<lparr>fi_size := 5\<rparr>)))
      (snd (remove_file 1 (local_entry ''/srv'' example_file) example_file example_files))
    = location_holds (LocalPath (''/srv/'' @ local_identifier (example_file\<lparr>fi_size := 5\<rparr>))) example_files"
  using local_files_apart [of example_file "example_file\<lparr>fi_size := 5\<rparr>" "''/srv''" 1 example_files]
  by (simp add: example_file_def)

definition example_in_scope :: "pk \<Rightarrow> int option \<Rightarrow> file_store_in_scope" where
  "example_in_scope store priority = \<lparr>sx_scope = 1, sx_file_store = store, sx_upload_priority = priority,
     sx_download_priority = None, sx_populate = False, sx_drain = False, sx_drain_to = None,
     sx_read_only = False, sx_write_only = False, sx_soft_max_size = None\<rparr>"

definition example_stores :: db where
  "example_stores = example_files\<lparr>db_file_stores := [example_store, example_store\<lparr>fs_id := 2\<rparr>],
     db_file_stores_in_scope := [example_in_scope 1 None, example_in_scope 2 (Some 5)]\<rparr>"

theorem upload_file_backend_best_witness:
  "\<exists>s x. upload_file_backend example_stores 1 example_file = Inr s
     \<and> accepts example_stores 1 example_file (s, x)
     \<and> desc_nulls_last (sx_upload_priority x) \<le> desc_nulls_last (Some 5)"
proof -
  let ?p = "(example_store\<lparr>fs_id := 2\<rparr>, example_in_scope 2 (Some 5))"
  have run: "upload_file_backend example_stores 1 example_file = Inr (example_store\<lparr>fs_id := 2\<rparr>)"
    by code_simp
  have "?p \<in> set (scope_stores example_stores 1)" by code_simp
  then have ok: "accepts example_stores 1 example_file ?p"
    by (simp add: accepts_def written_only_def example_stores_def example_in_scope_def example_store_def example_file_def)
  from upload_file_backend_best [of example_stores 1 example_file] obtain x where
    x: "accepts example_stores 1 example_file (example_store\<lparr>fs_id := 2\<rparr>, x)"
    "\<forall>p. accepts example_stores 1 example_file p \<longrightarrow>
      desc_nulls_last (sx_upload_priority x) \<le> desc_nulls_last (sx_upload_priority (snd p))"
    unfolding run sum.case by blast
  have "desc_nulls_last (sx_upload_priority x) \<le> desc_nulls_last (Some 5)"
    using x(2) ok by (fastforce simp: example_in_scope_def)
  with run x(1) show ?thesis by blast
qed

end
