(* ===== verification/Expiry.thy ===== *)
theory Expiry
  imports Artifacts Stores
begin

text \<open>
  Deleting expired artifacts and files without an artifact
  (debusine/server/management/commands/delete_expired.py, \<open>DeleteExpiredArtifacts\<close>):
  mark and sweep over the relations, then the contents of the stores. What is
  written to the terminal is left out, but for the message about locks.
\<close>

section \<open>Mark\<close>

definition relation_edge :: "pk \<Rightarrow> artifact_relation \<Rightarrow> bool" where
  "relation_edge i r \<longleftrightarrow> rl_artifact r = i"

definition keep_ids :: "db \<Rightarrow> time \<Rightarrow> pk list" where
  "keep_ids d at =
     (let not_expired = set (artifacts_not_expired d (db_artifacts d) at);
          part_of_collection = set (part_of_collection_with_retains_artifacts d (db_artifacts d));
          start = map ar_id (filter (\<lambda>a. a \<in> not_expired \<or> a \<in> part_of_collection) (db_artifacts d))
      in cte_union rl_target relation_edge (db_artifact_relations d) start start)"

definition mark_to_keep :: "db \<Rightarrow> time \<Rightarrow> artifact list" where
  "mark_to_keep d at = filter (\<lambda>a. ar_id a \<in> set (keep_ids d at)) (db_artifacts d)"

section \<open>Sweep\<close>

text \<open>\<open>collection.manager\<close>: a category without a manager is a \<open>KeyError\<close>.\<close>

definition manager_of :: "db \<Rightarrow> pk \<Rightarrow> collection res" where
  "manager_of d i =
     (case get_collection_row d i of
        None \<Rightarrow> Inl (DoesNotExist ''Collection'')
      | Some c \<Rightarrow> if co_category c \<in> set managed_categories then Inr c
                  else Inl (KeyError (co_category c)))"

definition remove_from_parent :: "time \<Rightarrow> collection_item \<Rightarrow> unit dbact" where
  "remove_from_parent now item = with_db (\<lambda>d.
     bind_act (lift_res (manager_of d (ci_parent_collection item)))
       (\<lambda>c. remove_item c now None None item))"

definition items_of_artifact :: "db \<Rightarrow> pk \<Rightarrow> collection_item list" where
  "items_of_artifact d a = filter (\<lambda>i. ci_artifact i = Some a) (db_items d)"

definition detach_items :: "pk \<Rightarrow> unit dbact" where
  "detach_items a = with_db (\<lambda>d.
     if list_all (\<lambda>i. childtype_consistent (i\<lparr>ci_artifact := None\<rparr>)) (items_of_artifact d a)
     then modify_db (\<lambda>d. d\<lparr>db_items :=
            map (\<lambda>i. if ci_artifact i = Some a then i\<lparr>ci_artifact := None\<rparr> else i) (db_items d)\<rparr>)
     else raise (IntegrityError ''childtype_removedat_consistent''))"

definition touches :: "pk \<Rightarrow> artifact_relation \<Rightarrow> bool" where
  "touches a r \<longleftrightarrow> rl_target r = a \<or> rl_artifact r = a"

definition delete_relations :: "pk \<Rightarrow> unit dbact" where
  "delete_relations a = modify_db (\<lambda>d. d\<lparr>db_artifact_relations :=
     filter (\<lambda>r. \<not> touches a r) (db_artifact_relations d)\<rparr>)"

definition upload_of :: "db \<Rightarrow> file_in_artifact \<Rightarrow> file_upload option" where
  "upload_of d f = find (\<lambda>u. fu_file_in_artifact u = fa_id f) (db_file_uploads d)"

definition delete_file_in_artifact :: "string \<Rightarrow> file_in_artifact \<Rightarrow> unit dbact" where
  "delete_file_in_artifact upload_directory f =
     seq_act (with_db (\<lambda>d. case upload_of d f of
          None \<Rightarrow> ret () | Some u \<Rightarrow> delete_file_upload upload_directory u))
       (with_db (\<lambda>d. if upload_of d f \<noteq> None then raise (ProtectedError ''FileUpload'')
          else modify_db (\<lambda>d. d\<lparr>db_file_in_artifacts :=
                 filter (\<lambda>g. fa_id g \<noteq> fa_id f) (db_file_in_artifacts d)\<rparr>)))"

text \<open>\<open>Artifact.delete\<close>: rows that protect it, and \<open>original_artifact\<close> set to null.\<close>

definition delete_artifact_row :: "pk \<Rightarrow> unit dbact" where
  "delete_artifact_row a = with_db (\<lambda>d.
     if items_of_artifact d a \<noteq> [] \<or> list_ex (\<lambda>f. fa_artifact f = a) (db_file_in_artifacts d)
        \<or> list_ex (touches a) (db_artifact_relations d)
     then raise (ProtectedError ''Artifact'')
     else modify_db (\<lambda>d. d\<lparr>db_artifacts :=
            map (\<lambda>b. if ar_original_artifact b = Some a then b\<lparr>ar_original_artifact := None\<rparr> else b)
              (filter (\<lambda>b. ar_id b \<noteq> a) (db_artifacts d))\<rparr>))"

definition delete_artifact :: "string \<Rightarrow> time \<Rightarrow> pk \<Rightarrow> unit dbact" where
  "delete_artifact upload_directory now a =
     seq_act (with_db (\<lambda>d. for_each (items_of_artifact d a) (remove_from_parent now)))
    (seq_act (detach_items a)
    (seq_act (delete_relations a)
    (seq_act (with_db (\<lambda>d. for_each (filter (\<lambda>f. fa_artifact f = a) (db_file_in_artifacts d))
                (delete_file_in_artifact upload_directory)))
       (delete_artifact_row a))))"

definition sweep :: "bool \<Rightarrow> string \<Rightarrow> time \<Rightarrow> time \<Rightarrow> artifact list \<Rightarrow> unit dbact" where
  "sweep dry_run upload_directory at now keep = atomic (with_db (\<lambda>d.
     for_each (sort_key ar_id (filter (\<lambda>a. ar_id a \<notin> ar_id ` set keep)
                                 (artifacts_expired d (db_artifacts d) at)))
       (\<lambda>a. if dry_run then ret () else delete_artifact upload_directory now (ar_id a))))"

section \<open>Files\<close>

definition orphaned_files :: "db \<Rightarrow> file_row list" where
  "orphaned_files d = filter (\<lambda>f. fi_id f \<in> fx_file ` set (db_file_in_stores d)
       \<and> fi_id f \<notin> fa_file ` set (db_file_in_artifacts d)) (db_files d)"

definition delete_file :: "pk \<Rightarrow> unit dbact" where
  "delete_file f = with_db (\<lambda>d.
     if list_ex (\<lambda>x. fx_file x = f) (db_file_in_stores d)
        \<or> list_ex (\<lambda>x. fa_file x = f) (db_file_in_artifacts d)
     then raise (ProtectedError ''File'')
     else modify_db (\<lambda>d. d\<lparr>db_files := filter (\<lambda>g. fi_id g \<noteq> f) (db_files d)\<rparr>))"

definition remove_from_store :: "storage \<Rightarrow> file_row \<Rightarrow> file_in_store \<Rightarrow> unit dbact" where
  "remove_from_store st fileobj x = with_db (\<lambda>d.
     case get_file_store d (fx_store x) of
       None \<Rightarrow> raise (DoesNotExist ''FileStore'')
     | Some store \<Rightarrow>
         bind_act (lift_res (get_entry st store fileobj)) (\<lambda>en.
         seq_act (remove_file (fs_id store) en fileobj)
           (catch_act (delete_file (fi_id fileobj))
              (\<lambda>e. case e of ProtectedError _ \<Rightarrow> ret () | _ \<Rightarrow> raise e))))"

definition delete_from_stores :: "storage \<Rightarrow> file_row \<Rightarrow> unit dbact" where
  "delete_from_stores st fileobj = atomic_db (with_db (\<lambda>d.
     for_each (filter (\<lambda>x. fx_file x = fi_id fileobj) (db_file_in_stores d))
       (remove_from_store st fileobj)))"

definition delete_files_from_stores :: "storage \<Rightarrow> unit dbact" where
  "delete_files_from_stores st = with_db (\<lambda>d. for_each (orphaned_files d) (delete_from_stores st))"

section \<open>Transactions\<close>

text \<open>
  An outermost transaction: an exception or a rollback undoes everything but what
  the backends keep; committing runs its hooks.
\<close>

primrec run_hook :: "hook \<Rightarrow> db \<Rightarrow> db" where
  "run_hook (Unlink path) d = snd (erase_location (LocalPath path) d)"
| "run_hook ScheduleTask d = d\<lparr>db_on_commit := db_on_commit d @ [ScheduleTask]\<rparr>"
| "run_hook UpdateWorkflows d = d\<lparr>db_on_commit := db_on_commit d @ [UpdateWorkflows]\<rparr>"
| "run_hook (RunWorkflowTask i) d = d\<lparr>db_on_commit := db_on_commit d @ [RunWorkflowTask i]\<rparr>"
| "run_hook (RunServerTask i) d = d\<lparr>db_on_commit := db_on_commit d @ [RunServerTask i]\<rparr>"

definition transaction :: "bool \<Rightarrow> unit dbact \<Rightarrow> unit dbact" where
  "transaction rollback m d =
     (case m (d\<lparr>db_on_commit := []\<rparr>) of
        (Inl e, d') \<Rightarrow> (Inl e, d\<lparr>db_storage := db_storage d'\<rparr>)
      | (Inr y, d') \<Rightarrow>
          if rollback then (Inr y, d\<lparr>db_storage := db_storage d'\<rparr>)
          else (Inr y, fold run_hook (db_on_commit d') (d'\<lparr>db_on_commit := db_on_commit d\<rparr>)))"

definition delete_artifacts :: "bool \<Rightarrow> string \<Rightarrow> time \<Rightarrow> time \<Rightarrow> unit dbact" where
  "delete_artifacts dry_run upload_directory at now =
     seq_act (drop_full_history at)
    (seq_act (drop_metadata at)
       (with_db (\<lambda>d. sweep dry_run upload_directory at now (mark_to_keep d at))))"

text \<open>
  \<open>run\<close>: whether each attempt to lock the tables gets them is given; the result
  says whether the message \<open>Lock timed out ... Try again.\<close> was written.
\<close>

definition run_delete_expired_artifacts ::
  "storage \<Rightarrow> string \<Rightarrow> bool \<Rightarrow> time \<Rightarrow> time \<Rightarrow> bool \<Rightarrow> bool \<Rightarrow> bool dbact" where
  "run_delete_expired_artifacts st upload_directory dry_run at now locks_first locks_second =
     (if \<not> locks_first then ret True
      else seq_act (transaction dry_run (delete_artifacts dry_run upload_directory at now))
        (if \<not> locks_second then ret True
         else seq_act (transaction False (delete_files_from_stores st)) (ret False)))"

section \<open>The specification\<close>

text \<open>
  What it is meant to do: a garbage collector. The nodes are the artifacts, the edges
  the relations, the roots the artifacts that have not expired or are retained.
\<close>

record gc_heap =
  nodes :: "pk set"
  edges :: "(pk \<times> pk) set"
  roots :: "pk set"

definition live :: "gc_heap \<Rightarrow> pk set" where
  "live h = (edges h)\<^sup>* `` roots h"

definition collect :: "gc_heap \<Rightarrow> gc_heap" where
  "collect h = h\<lparr>nodes := nodes h \<inter> live h, edges := edges h \<inter> (live h \<times> live h)\<rparr>"

definition is_root :: "db \<Rightarrow> time \<Rightarrow> artifact \<Rightarrow> bool" where
  "is_root d at a \<longleftrightarrow> artifact_expired d a at = Inr False
     \<or> (\<exists>i\<in>set (db_items d). ci_artifact i = Some (ar_id a)
          \<and> (\<exists>c. get_collection_row d (ci_parent_collection i) = Some c \<and> retaining d c))"

definition heap_of :: "time \<Rightarrow> db \<Rightarrow> gc_heap" where
  "heap_of at d = \<lparr>nodes = ar_id ` set (db_artifacts d),
     edges = (\<lambda>r. (rl_artifact r, rl_target r)) ` set (db_artifact_relations d),
     roots = ar_id ` {a\<in>set (db_artifacts d). is_root d at a}\<rparr>"

text \<open>
  The constraints of the tables and their foreign keys, as far as artifacts go; and
  every collection with an item has a manager.
\<close>

definition items_sound :: "db \<Rightarrow> bool" where
  "items_sound d \<longleftrightarrow> distinct (map ci_id (db_items d))
     \<and> (\<forall>i\<in>set (db_items d). childtype_consistent i \<and> ci_collection i \<noteq> Some (ci_parent_collection i)
          \<and> (\<exists>c. manager_of d (ci_parent_collection i) = Inr c)
          \<and> (\<forall>a. ci_artifact i = Some a \<longrightarrow> a \<in> ar_id ` set (db_artifacts d)))"

definition files_sound :: "db \<Rightarrow> bool" where
  "files_sound d \<longleftrightarrow> distinct (map fa_id (db_file_in_artifacts d))
     \<and> distinct (map fu_file_in_artifact (db_file_uploads d))
     \<and> distinct (map fu_id (db_file_uploads d))
     \<and> (\<forall>f\<in>set (db_file_in_artifacts d). fa_artifact f \<in> ar_id ` set (db_artifacts d))
     \<and> (\<forall>u\<in>set (db_file_uploads d). fu_file_in_artifact u \<in> fa_id ` set (db_file_in_artifacts d))"

definition artifacts_sound :: "db \<Rightarrow> bool" where
  "artifacts_sound d \<longleftrightarrow> distinct (map ar_id (db_artifacts d))
     \<and> (\<forall>a\<in>set (db_artifacts d). get_workspace d (ar_workspace a) \<noteq> None
          \<and> (\<forall>b. ar_original_artifact a = Some b \<longrightarrow> b \<in> ar_id ` set (db_artifacts d)))
     \<and> (\<forall>r\<in>set (db_artifact_relations d). rl_artifact r \<in> ar_id ` set (db_artifacts d)
          \<and> rl_target r \<in> ar_id ` set (db_artifacts d))"

definition references_sound :: "db \<Rightarrow> bool" where
  "references_sound d \<longleftrightarrow> artifacts_sound d \<and> items_sound d \<and> files_sound d"

end
