(* ===== verification/Deletions.thy ===== *)
theory Deletions
  imports Expiry UserGroups
begin

text \<open>
  The other deletions of \<open>delete_expired\<close>: work requests with their internal
  collections (\<open>DeleteUnused\<close>, debusine/db/models/work_requests.py), ephemeral groups,
  workspaces (\<open>DeleteWorkspaces\<close>, debusine/db/models/workspaces.py) and tokens; with
  what Django's \<open>delete\<close> does to the rows that refer to the deleted ones.
\<close>

section \<open>Rows and the rows that refer to them\<close>

definition forget_key :: "pk set \<Rightarrow> pk option \<Rightarrow> pk option" where
  "forget_key gone k = (case k of None \<Rightarrow> None | Some i \<Rightarrow> if i \<in> gone then None else Some i)"

text \<open>Work requests: their children go with them, other references are set to null.\<close>

definition with_descendants :: "db \<Rightarrow> pk list \<Rightarrow> pk set" where
  "with_descendants d ids = set (cte_union wr_id child_edge (db_work_requests d) ids ids)"

definition forget_work_requests :: "pk set \<Rightarrow> db \<Rightarrow> db" where
  "forget_work_requests gone d = d\<lparr>
     db_work_requests := map (\<lambda>w. w\<lparr>wr_supersedes := forget_key gone (wr_supersedes w)\<rparr>)
       (filter (\<lambda>w. wr_id w \<notin> gone) (db_work_requests d)),
     db_dependencies := filter (\<lambda>p. fst p \<notin> gone \<and> snd p \<notin> gone) (db_dependencies d),
     db_artifacts := map (\<lambda>a. a\<lparr>ar_created_by_work_request := forget_key gone (ar_created_by_work_request a)\<rparr>)
       (db_artifacts d),
     db_items := map (\<lambda>i. i\<lparr>ci_created_by_workflow := forget_key gone (ci_created_by_workflow i),
                           ci_removed_by_workflow := forget_key gone (ci_removed_by_workflow i)\<rparr>)
       (db_items d)\<rparr>"

definition delete_work_requests :: "pk list \<Rightarrow> unit dbact" where
  "delete_work_requests ids = modify_db (\<lambda>d. forget_work_requests (with_descendants d ids) d)"

definition delete_items :: "(db \<Rightarrow> collection_item \<Rightarrow> bool) \<Rightarrow> unit dbact" where
  "delete_items P = modify_db (\<lambda>d. d\<lparr>db_items := filter (\<lambda>i. \<not> P d i) (db_items d)\<rparr>)"

definition collection_used :: "db \<Rightarrow> pk set \<Rightarrow> bool" where
  "collection_used d gone \<longleftrightarrow>
     list_ex (\<lambda>i. ci_parent_collection i \<in> gone \<or> (\<exists>c\<in>gone. ci_collection i = Some c)) (db_items d)
     \<or> list_ex (\<lambda>w. \<exists>c\<in>gone. wr_internal_collection w = Some c) (db_work_requests d)"

definition delete_collections :: "(db \<Rightarrow> collection \<Rightarrow> bool) \<Rightarrow> unit dbact" where
  "delete_collections P = with_db (\<lambda>d.
     let gone = co_id ` set (filter (P d) (db_collections d))
     in if collection_used d gone then raise (ProtectedError ''Collection'')
        else modify_db (\<lambda>d. d\<lparr>
          db_collections := filter (\<lambda>c. co_id c \<notin> gone) (db_collections d),
          db_match_constraints := filter (\<lambda>m. mc_collection m \<notin> gone) (db_match_constraints d)\<rparr>))"

section \<open>Work requests not in use\<close>

definition used_elsewhere :: "db \<Rightarrow> work_request \<Rightarrow> bool" where
  "used_elsewhere d w \<longleftrightarrow> list_ex (\<lambda>i.
     (ci_created_by_workflow i = Some (wr_id w) \<or> ci_removed_by_workflow i = Some (wr_id w))
     \<and> (wr_internal_collection w = None \<or> wr_internal_collection w \<noteq> Some (ci_parent_collection i)))
     (db_items d)"

text \<open>
  Both loops take out of \<open>to_delete\<close> what must be kept, until nothing is.
\<close>

function (sequential) prune :: "(pk list \<Rightarrow> work_request \<Rightarrow> bool) \<Rightarrow> work_request list \<Rightarrow> work_request list" where
  "prune must_keep to_delete =
     (let to_keep = filter (must_keep (map wr_id to_delete)) to_delete
      in if to_keep = [] then to_delete
         else prune must_keep (filter (\<lambda>w. \<not> must_keep (map wr_id to_delete) w) to_delete))"
  by pat_completeness auto

lemma length_filter_some: "filter P xs \<noteq> [] \<Longrightarrow> length (filter (\<lambda>x. \<not> P x) xs) < length xs"
  using sum_length_filter_compl [of P xs] by (cases "filter P xs") simp_all

termination prune
  by (relation "measure (\<lambda>(must_keep, to_delete). length to_delete)") (auto intro: length_filter_some)

declare prune.simps [simp del]

definition parent_kept :: "pk list \<Rightarrow> work_request \<Rightarrow> bool" where
  "parent_kept to_delete w = (case wr_parent w of None \<Rightarrow> False | Some p \<Rightarrow> p \<notin> set to_delete)"

definition child_kept :: "db \<Rightarrow> pk list \<Rightarrow> work_request \<Rightarrow> bool" where
  "child_kept d to_delete w \<longleftrightarrow> list_ex (\<lambda>c. wr_id c \<notin> set to_delete) (wr_children d (wr_id w))"

definition scan_work_requests :: "db \<Rightarrow> work_request list \<Rightarrow> work_request list" where
  "scan_work_requests d queryset =
     prune (child_kept d) (prune parent_kept (filter (\<lambda>w. \<not> used_elsewhere d w) queryset))"

definition scan_collections :: "work_request list \<Rightarrow> pk list" where
  "scan_collections work_requests = List.map_filter wr_internal_collection work_requests"

definition delete_unused :: "work_request list \<Rightarrow> unit dbact" where
  "delete_unused work_requests =
     (let collections = set (scan_collections work_requests)
      in seq_act (delete_items (\<lambda>d i. ci_parent_collection i \<in> collections))
        (seq_act (delete_work_requests (map wr_id work_requests))
           (delete_collections (\<lambda>d c. co_id c \<in> collections))))"

definition run_delete_expired_work_requests :: "bool \<Rightarrow> time \<Rightarrow> unit dbact" where
  "run_delete_expired_work_requests dry_run at = atomic (with_db (\<lambda>d.
     let to_delete = scan_work_requests d (expired d (db_work_requests d) at)
     in if to_delete \<noteq> [] \<and> \<not> dry_run then delete_unused to_delete else ret ()))"

section \<open>Ephemeral groups\<close>

definition delete_groups :: "pk set \<Rightarrow> unit dbact" where
  "delete_groups gone = modify_db (\<lambda>d. d\<lparr>
     db_groups := filter (\<lambda>g. gp_id g \<notin> gone) (db_groups d),
     db_memberships := filter (\<lambda>m. gm_group m \<notin> gone) (db_memberships d),
     db_group_audit_log := filter (\<lambda>l. gl_group l \<notin> gone) (db_group_audit_log d),
     db_scope_roles := filter (\<lambda>r. sr_group r \<notin> gone) (db_scope_roles d),
     db_workspace_roles := filter (\<lambda>r. wr_group r \<notin> gone) (db_workspace_roles d),
     db_asset_roles := filter (\<lambda>r. ao_group r \<notin> gone) (db_asset_roles d),
     db_asset_usage_roles := filter (\<lambda>r. ao_group r \<notin> gone) (db_asset_usage_roles d)\<rparr>)"

definition run_delete_expired_groups :: "bool \<Rightarrow> unit dbact" where
  "run_delete_expired_groups dry_run = atomic (with_db (\<lambda>d.
     let groups = unused_ephemeral d (db_groups d)
     in if groups \<noteq> [] \<and> \<not> dry_run then delete_groups (gp_id ` set groups) else ret ()))"

section \<open>Tokens\<close>

definition expired_tokens :: "db \<Rightarrow> time \<Rightarrow> token list" where
  "expired_tokens d at =
     filter (\<lambda>t. case tk_expire_at t of None \<Rightarrow> False | Some e \<Rightarrow> e < at) (db_tokens d)"

definition celery_or_token :: "worker \<Rightarrow> bool" where
  "celery_or_token w \<longleftrightarrow>
     wk_worker_type w = CELERY \<or> wk_activation_token w \<noteq> None \<or> wk_token w \<noteq> None"

definition delete_tokens :: "pk set \<Rightarrow> unit dbact" where
  "delete_tokens gone = with_db (\<lambda>d.
     let workers = map (\<lambda>w. w\<lparr>wk_activation_token := forget_key gone (wk_activation_token w)\<rparr>) (db_workers d)
     in if list_ex (\<lambda>w. \<exists>t\<in>gone. wk_token w = Some t) (db_workers d) then raise (ProtectedError ''Token'')
        else if list_ex (\<lambda>w. \<not> celery_or_token w) workers then raise (IntegrityError ''celery_or_token'')
        else modify_db (\<lambda>d. d\<lparr>db_workers := workers,
               db_tokens := filter (\<lambda>t. tk_id t \<notin> gone) (db_tokens d)\<rparr>))"

definition run_delete_expired_tokens :: "bool \<Rightarrow> time \<Rightarrow> unit dbact" where
  "run_delete_expired_tokens dry_run at = atomic (with_db (\<lambda>d.
     let tokens = expired_tokens d at
     in if tokens \<noteq> [] \<and> \<not> dry_run then delete_tokens (tk_id ` set tokens) else ret ()))"

section \<open>Workspaces\<close>

text \<open>
  \<open>Greatest("created_at", Max("workrequest__completed_at"))\<close>: nulls do not count.
\<close>

definition last_completion :: "db \<Rightarrow> workspace \<Rightarrow> time" where
  "last_completion d w = fold max
     (List.map_filter wr_completed_at (filter (\<lambda>r. wr_workspace r = ws_id w) (db_work_requests d)))
     (ws_created_at w)"

definition expiration_time :: "db \<Rightarrow> workspace \<Rightarrow> time option" where
  "expiration_time d w = map_option (\<lambda>delay. delay + last_completion d w) (ws_expiration_delay w)"

definition expired_workspaces :: "time \<Rightarrow> db \<Rightarrow> workspace list" where
  "expired_workspaces at d =
     filter (\<lambda>w. case expiration_time d w of None \<Rightarrow> False | Some e \<Rightarrow> e < at)
       (filter (\<lambda>w. ws_expiration_delay w \<noteq> None) (db_workspaces d))"

text \<open>
  The query sets of \<open>DeleteWorkspaces\<close> are evaluated when they are deleted; \<open>ws\<close>
  gives the keys of the workspaces in the database at that time.
\<close>

definition in_workspaces :: "pk set \<Rightarrow> db \<Rightarrow> collection_item \<Rightarrow> bool" where
  "in_workspaces ws d i \<longleftrightarrow>
     (case get_collection_row d (ci_parent_collection i) of None \<Rightarrow> False | Some c \<Rightarrow> co_workspace c \<in> ws)
     \<or> (case Option.bind (ci_artifact i) (get_artifact d) of None \<Rightarrow> False | Some a \<Rightarrow> ar_workspace a \<in> ws)
     \<or> (case Option.bind (ci_collection i) (get_collection_row d) of None \<Rightarrow> False | Some c \<Rightarrow> co_workspace c \<in> ws)"

definition artifact_in :: "pk set \<Rightarrow> db \<Rightarrow> pk \<Rightarrow> bool" where
  "artifact_in ws d i = (case get_artifact d i of None \<Rightarrow> False | Some a \<Rightarrow> ar_workspace a \<in> ws)"

definition delete_workflow_templates :: "(db \<Rightarrow> pk set) \<Rightarrow> unit dbact" where
  "delete_workflow_templates ws = modify_db (\<lambda>d.
     let gone = wt_id ` set (filter (\<lambda>t. wt_workspace t \<in> ws d) (db_workflow_templates d))
     in d\<lparr>db_workflow_templates := filter (\<lambda>t. wt_id t \<notin> gone) (db_workflow_templates d),
          db_work_requests := map (\<lambda>w. w\<lparr>wr_workflow_template := forget_key gone (wr_workflow_template w)\<rparr>)
            (db_work_requests d)\<rparr>)"

definition delete_files_in_artifacts :: "(db \<Rightarrow> pk set) \<Rightarrow> unit dbact" where
  "delete_files_in_artifacts ws = with_db (\<lambda>d.
     let gone = filter (\<lambda>f. artifact_in (ws d) d (fa_artifact f)) (db_file_in_artifacts d)
     in if list_ex (\<lambda>u. fu_file_in_artifact u \<in> fa_id ` set gone) (db_file_uploads d)
        then raise (ProtectedError ''FileUpload'')
        else modify_db (\<lambda>d. d\<lparr>db_file_in_artifacts :=
               filter (\<lambda>f. fa_id f \<notin> fa_id ` set gone) (db_file_in_artifacts d)\<rparr>))"

definition delete_relations_of :: "(db \<Rightarrow> pk set) \<Rightarrow> unit dbact" where
  "delete_relations_of ws = modify_db (\<lambda>d. d\<lparr>db_artifact_relations := filter (\<lambda>r.
     \<not> (artifact_in (ws d) d (rl_artifact r) \<or> artifact_in (ws d) d (rl_target r))) (db_artifact_relations d)\<rparr>)"

definition delete_artifacts_of :: "(db \<Rightarrow> pk set) \<Rightarrow> unit dbact" where
  "delete_artifacts_of ws = with_db (\<lambda>d.
     let gone = ar_id ` set (filter (\<lambda>a. ar_workspace a \<in> ws d) (db_artifacts d))
     in if list_ex (\<lambda>i. \<exists>a\<in>gone. ci_artifact i = Some a) (db_items d)
           \<or> list_ex (\<lambda>f. fa_artifact f \<in> gone) (db_file_in_artifacts d)
           \<or> list_ex (\<lambda>r. rl_artifact r \<in> gone \<or> rl_target r \<in> gone) (db_artifact_relations d)
        then raise (ProtectedError ''Artifact'')
        else modify_db (\<lambda>d. d\<lparr>db_artifacts :=
               map (\<lambda>a. a\<lparr>ar_original_artifact := forget_key gone (ar_original_artifact a)\<rparr>)
                 (filter (\<lambda>a. ar_id a \<notin> gone) (db_artifacts d))\<rparr>))"

definition without_asset_usages :: "pk set \<Rightarrow> db \<Rightarrow> db" where
  "without_asset_usages gone d = d\<lparr>
     db_asset_usages := filter (\<lambda>u. au_id u \<notin> gone) (db_asset_usages d),
     db_asset_usage_roles := filter (\<lambda>r. ao_resource r \<notin> gone) (db_asset_usage_roles d)\<rparr>"

definition delete_asset_usages :: "(db \<Rightarrow> pk set) \<Rightarrow> unit dbact" where
  "delete_asset_usages ws = modify_db (\<lambda>d. without_asset_usages
     (au_id ` set (filter (\<lambda>u. au_workspace u \<in> ws d) (db_asset_usages d))) d)"

definition provider_account_used :: "db \<Rightarrow> pk set \<Rightarrow> bool" where
  "provider_account_used d gone \<longleftrightarrow>
     list_ex (\<lambda>s. \<exists>a\<in>gone. fs_provider_account s = Some a) (db_file_stores d)
     \<or> list_ex (\<lambda>p. wp_provider_account p \<in> gone) (db_worker_pools d)"

definition assets_of :: "db \<Rightarrow> pk set \<Rightarrow> pk set" where
  "assets_of d ws = as_id ` set (filter (\<lambda>a. \<exists>w\<in>ws. as_workspace a = Some w) (db_assets d))"

definition delete_assets :: "(db \<Rightarrow> pk set) \<Rightarrow> unit dbact" where
  "delete_assets ws = with_db (\<lambda>d.
     let gone = assets_of d (ws d)
     in if provider_account_used d gone then raise (ProtectedError ''Asset'')
        else modify_db (\<lambda>d.
          let d = without_asset_usages (au_id ` set (filter (\<lambda>u. au_asset u \<in> gone) (db_asset_usages d))) d
          in d\<lparr>db_assets := filter (\<lambda>a. as_id a \<notin> gone) (db_assets d),
               db_asset_roles := filter (\<lambda>r. ao_resource r \<notin> gone) (db_asset_roles d)\<rparr>))"

definition delete_workspace_roles :: "(db \<Rightarrow> pk set) \<Rightarrow> unit dbact" where
  "delete_workspace_roles ws = modify_db (\<lambda>d. d\<lparr>db_workspace_roles :=
     filter (\<lambda>r. wr_resource r \<notin> ws d) (db_workspace_roles d)\<rparr>)"

definition workspace_used :: "db \<Rightarrow> pk set \<Rightarrow> bool" where
  "workspace_used d gone \<longleftrightarrow>
     list_ex (\<lambda>a. ar_workspace a \<in> gone) (db_artifacts d)
     \<or> list_ex (\<lambda>a. \<exists>w\<in>gone. as_workspace a = Some w) (db_assets d)
     \<or> list_ex (\<lambda>c. co_workspace c \<in> gone) (db_collections d)
     \<or> list_ex (\<lambda>t. wt_workspace t \<in> gone) (db_workflow_templates d)
     \<or> list_ex (\<lambda>w. wr_workspace w \<in> gone) (db_work_requests d)"

definition delete_workspace_rows :: "(db \<Rightarrow> pk set) \<Rightarrow> unit dbact" where
  "delete_workspace_rows ws = with_db (\<lambda>d.
     if workspace_used d (ws d) then raise (ProtectedError ''Workspace'')
     else modify_db (\<lambda>d.
       let gone = ws d;
           d = without_asset_usages (au_id ` set (filter (\<lambda>u. au_workspace u \<in> gone) (db_asset_usages d))) d
       in d\<lparr>db_workspaces := filter (\<lambda>w. ws_id w \<notin> gone) (db_workspaces d),
            db_workspace_chain := filter (\<lambda>c. wc_child c \<notin> gone \<and> wc_parent c \<notin> gone) (db_workspace_chain d),
            db_workspace_roles := filter (\<lambda>r. wr_resource r \<notin> gone) (db_workspace_roles d)\<rparr>))"

definition delete_workspaces :: "(db \<Rightarrow> pk set) \<Rightarrow> unit dbact" where
  "delete_workspaces ws =
     seq_act (delete_workflow_templates ws)
    (seq_act (delete_items (\<lambda>d. in_workspaces (ws d) d))
    (seq_act (with_db (\<lambda>d. delete_work_requests
        (map wr_id (filter (\<lambda>w. wr_workspace w \<in> ws d) (db_work_requests d)))))
    (seq_act (delete_collections (\<lambda>d c. co_workspace c \<in> ws d))
    (seq_act (delete_files_in_artifacts ws)
    (seq_act (delete_relations_of ws)
    (seq_act (delete_artifacts_of ws)
    (seq_act (delete_asset_usages ws)
    (seq_act (delete_assets ws)
    (seq_act (delete_workspace_roles ws)
       (delete_workspace_rows ws))))))))))"

definition run_delete_expired_workspaces :: "bool \<Rightarrow> time \<Rightarrow> unit dbact" where
  "run_delete_expired_workspaces dry_run at = atomic (with_db (\<lambda>d.
     if expired_workspaces at d \<noteq> [] \<and> \<not> dry_run
     then delete_workspaces (\<lambda>d. ws_id ` set (expired_workspaces at d)) else ret ()))"

section \<open>The command\<close>

text \<open>\<open>handle\<close>: the five deletions one after the other, each in its own transaction.\<close>

definition handle_delete_expired ::
  "storage \<Rightarrow> string \<Rightarrow> bool \<Rightarrow> time \<Rightarrow> time \<Rightarrow> bool \<Rightarrow> bool \<Rightarrow> unit dbact" where
  "handle_delete_expired st upload_directory dry_run at now locks_first locks_second =
     seq_act (run_delete_expired_work_requests dry_run at)
    (seq_act (run_delete_expired_artifacts st upload_directory dry_run at now locks_first locks_second)
    (seq_act (run_delete_expired_groups dry_run)
    (seq_act (run_delete_expired_workspaces dry_run at)
       (run_delete_expired_tokens dry_run at))))"

end
