(* ===== verification/Sweeping.thy ===== *)
theory Sweeping
  imports Expiry
begin

text \<open>
  What deleting expired artifacts does: the sweep implements the collector of
  \<open>Expiry\<close>, keeps every reference of the database sound, and leaves in the stores
  the files some artifact has; a dry run still deletes files.
\<close>

section \<open>Removing the items of an artifact\<close>

definition removed_item :: "time \<Rightarrow> collection_item \<Rightarrow> collection_item" where
  "removed_item now i = i\<lparr>ci_removed_by_user := None, ci_removed_by_workflow := None,
     ci_removed_at := Some now\<rparr>"

lemma removed_item_simps [simp]:
  "ci_id (removed_item now i) = ci_id i" "ci_artifact (removed_item now i) = ci_artifact i"
  "ci_parent_collection (removed_item now i) = ci_parent_collection i"
  "ci_collection (removed_item now i) = ci_collection i"
  by (simp_all add: removed_item_def)

lemma childtype_removed:
  "childtype_consistent i \<Longrightarrow> childtype_consistent (removed_item now i)"
  "childtype_consistent i \<Longrightarrow> ci_artifact i \<noteq> None \<Longrightarrow>
     childtype_consistent (removed_item now i\<lparr>ci_artifact := None\<rparr>)"
  by (auto simp: childtype_consistent_def removed_item_def split: child_type.splits)

lemma item_error_removed:
  assumes "childtype_consistent i" and "ci_collection i \<noteq> Some (ci_parent_collection i)"
  shows "item_error d (removed_item now i) = None"
  using childtype_removed(1) [OF assms(1)] assms(2)
  by (simp add: item_error_def active_def removed_item_def)

lemma remove_item_run:
  assumes "childtype_consistent i" and "ci_collection i \<noteq> Some (ci_parent_collection i)"
  shows "\<exists>mc. remove_item c now None None i d = (Inr (),
    d\<lparr>db_items := tbl_upd ci_id (ci_id i) (\<lambda>_. removed_item now i) (db_items d),
      db_match_constraints := mc\<rparr>)"
proof -
  let ?d = "d\<lparr>db_items := tbl_upd ci_id (ci_id i) (\<lambda>_. removed_item now i) (db_items d)\<rparr>"
  have marked: "mark_removed now None None i d = (Inr (), ?d)"
    using item_error_removed [OF assms, of d now]
    by (simp add: mark_removed_def save_item_def act_defs removed_item_def)
  have dropped: "\<exists>mc. when_act b (delete_constraints s) ?d = (Inr (), ?d\<lparr>db_match_constraints := mc\<rparr>)" for b s
    by (cases b) (auto simp: when_act_def ret_def delete_constraints_def modify_db_def
        intro: exI [where x = "db_match_constraints d"])
  have none: "\<exists>mc. ret () ?d = (Inr (), ?d\<lparr>db_match_constraints := mc\<rparr>)"
    by (auto simp: ret_def intro: exI [where x = "db_match_constraints d"])
  have rest: "\<exists>mc. (if co_category c = SUITE then when_act b (delete_constraints s)
      else if co_category c = ARCHIVE
      then (case x of None \<Rightarrow> ret () | Some y \<Rightarrow> when_act b' (delete_constraints (s' y)))
      else ret ()) ?d = (Inr (), ?d\<lparr>db_match_constraints := mc\<rparr>)" for b b' s s' and x :: "pk option"
    using dropped none by (cases "co_category c = SUITE"; cases "co_category c = ARCHIVE"; cases x)
      (simp_all del: db.simps)
  show ?thesis
    unfolding remove_item_def seq_act_def bind_act_def marked with_db_def prod.case sum.case
    by (rule rest)
qed

lemma remove_from_parents_run:
  assumes "distinct (map ci_id (db_items d))" and "distinct xs"
    and "\<forall>i\<in>set xs. i \<in> set (db_items d) \<and> childtype_consistent i
      \<and> ci_collection i \<noteq> Some (ci_parent_collection i)
      \<and> (\<exists>c. manager_of d (ci_parent_collection i) = Inr c)"
  shows "\<exists>mc. for_each xs (remove_from_parent now) d = (Inr (),
    d\<lparr>db_items := map (\<lambda>j. if j \<in> set xs then removed_item now j else j) (db_items d),
      db_match_constraints := mc\<rparr>)"
  using assms
proof (induction xs arbitrary: d)
  case Nil
  show ?case by (auto simp: ret_def intro!: exI [where x = "db_match_constraints d"])
next
  case (Cons i xs)
  from Cons.prems obtain c where c: "manager_of d (ci_parent_collection i) = Inr c" by auto
  obtain mc where one: "remove_item c now None None i d = (Inr (),
      d\<lparr>db_items := tbl_upd ci_id (ci_id i) (\<lambda>_. removed_item now i) (db_items d),
        db_match_constraints := mc\<rparr>)" (is "_ = (_, ?d1)")
    using remove_item_run [of i c now d] Cons.prems by auto
  have i: "i \<in> set (db_items d)" using Cons.prems by simp
  have items: "db_items ?d1 = map (\<lambda>j. if j = i then removed_item now i else j) (db_items d)"
    using same_id [OF Cons.prems(1) _ i] by (auto simp: tbl_upd_def intro!: map_cong)
  have ids: "map ci_id (db_items ?d1) = map ci_id (db_items d)"
    unfolding items by simp
  have kept: "x \<in> set (db_items ?d1)" if "x \<in> set xs" for x
    using that Cons.prems(2,3) unfolding items by (auto simp: image_iff)
  have managers: "manager_of ?d1 = manager_of d"
    by (simp add: fun_eq_iff manager_of_def get_collection_row_def)
  obtain mc' where rest: "for_each xs (remove_from_parent now) ?d1 = (Inr (),
      ?d1\<lparr>db_items := map (\<lambda>j. if j \<in> set xs then removed_item now j else j) (db_items ?d1),
        db_match_constraints := mc'\<rparr>)"
    using Cons.IH [of ?d1] Cons.prems kept ids managers by (simp only: distinct.simps) auto
  have fresh: "removed_item now i \<notin> set xs"
  proof
    assume "removed_item now i \<in> set xs"
    then have "removed_item now i \<in> set (db_items d)" using Cons.prems(3) by simp
    then have "removed_item now i = i" by (rule same_id [OF Cons.prems(1) _ i]) simp
    with \<open>removed_item now i \<in> set xs\<close> Cons.prems(2) show False by simp
  qed
  have "map (\<lambda>j. if j \<in> set xs then removed_item now j else j) (db_items ?d1)
      = map (\<lambda>j. if j \<in> set (i # xs) then removed_item now j else j) (db_items d)"
    unfolding items using fresh by auto
  moreover have "remove_from_parent now i d = (Inr (), ?d1)"
    using one c by (simp add: remove_from_parent_def bind_act_def with_db_def lift_res_def)
  ultimately show ?case using rest by (auto simp: seq_act_def bind_act_def)
qed

section \<open>Deleting one artifact\<close>

definition unlinks :: "string \<Rightarrow> db \<Rightarrow> file_in_artifact list \<Rightarrow> hook list" where
  "unlinks dir d fs = map (\<lambda>u. Unlink (absolute_file_path dir u)) (List.map_filter (upload_of d) fs)"

lemma upload_of_eq:
  "upload_of d f = None \<longleftrightarrow> (\<forall>u\<in>set (db_file_uploads d). fu_file_in_artifact u \<noteq> fa_id f)"
  "upload_of d f = Some u \<Longrightarrow> u \<in> set (db_file_uploads d) \<and> fu_file_in_artifact u = fa_id f"
  by (auto simp: upload_of_def find_None_iff find_Some_iff)

lemma uploads_filter_key:
  assumes "distinct (map fu_file_in_artifact us)" and "distinct (map fu_id us)" and "u \<in> set us"
  shows "filter (\<lambda>v. fu_id v \<noteq> fu_id u) us
    = filter (\<lambda>v. fu_file_in_artifact v \<noteq> fu_file_in_artifact u) us"
  using same_id [OF assms(1) _ assms(3)] same_id [OF assms(2) _ assms(3)]
  by (intro filter_cong) auto

lemma delete_file_in_artifact_run:
  assumes "distinct (map fu_file_in_artifact (db_file_uploads d))" and "distinct (map fu_id (db_file_uploads d))"
  shows "delete_file_in_artifact dir f d = (Inr (),
    d\<lparr>db_file_uploads := filter (\<lambda>u. fu_file_in_artifact u \<noteq> fa_id f) (db_file_uploads d),
      db_file_in_artifacts := filter (\<lambda>g. fa_id g \<noteq> fa_id f) (db_file_in_artifacts d),
      db_on_commit := db_on_commit d @ unlinks dir d [f]\<rparr>)"
proof (cases "upload_of d f")
  case None
  then have "filter (\<lambda>u. fu_file_in_artifact u \<noteq> fa_id f) (db_file_uploads d) = db_file_uploads d"
    using upload_of_eq(1) [of d f] by (simp add: filter_id_conv)
  with None show ?thesis
    by (simp add: delete_file_in_artifact_def act_defs unlinks_def List.map_filter_def)
next
  case (Some u)
  note u = upload_of_eq(2) [OF Some]
  have uploads: "filter (\<lambda>v. fu_id v \<noteq> fu_id u) (db_file_uploads d)
      = filter (\<lambda>v. fu_file_in_artifact v \<noteq> fa_id f) (db_file_uploads d)"
    using uploads_filter_key [OF assms, of u] u by simp
  have "upload_of (d\<lparr>db_file_uploads := filter (\<lambda>v. fu_file_in_artifact v \<noteq> fa_id f) (db_file_uploads d),
      db_on_commit := h\<rparr>) f = None" for h
    by (simp add: upload_of_eq(1))
  with Some uploads show ?thesis
    by (simp add: delete_file_in_artifact_def delete_file_upload_def act_defs unlinks_def
        List.map_filter_def)
qed

lemma delete_files_in_artifact_run:
  assumes "distinct (map fu_file_in_artifact (db_file_uploads d))" and "distinct (map fu_id (db_file_uploads d))"
    and "distinct (map fa_id fs)"
  shows "for_each fs (delete_file_in_artifact dir) d = (Inr (),
    d\<lparr>db_file_uploads := filter (\<lambda>u. fu_file_in_artifact u \<notin> fa_id ` set fs) (db_file_uploads d),
      db_file_in_artifacts := filter (\<lambda>g. fa_id g \<notin> fa_id ` set fs) (db_file_in_artifacts d),
      db_on_commit := db_on_commit d @ unlinks dir d fs\<rparr>)"
  using assms
proof (induction fs arbitrary: d)
  case Nil
  then show ?case by (simp add: ret_def unlinks_def List.map_filter_def)
next
  case (Cons f fs)
  let ?d = "d\<lparr>db_file_uploads := filter (\<lambda>u. fu_file_in_artifact u \<noteq> fa_id f) (db_file_uploads d),
      db_file_in_artifacts := filter (\<lambda>g. fa_id g \<noteq> fa_id f) (db_file_in_artifacts d),
      db_on_commit := db_on_commit d @ unlinks dir d [f]\<rparr>"
  have same: "upload_of ?d g = upload_of d g" if "g \<in> set fs" for g
  proof -
    have "fa_id g \<noteq> fa_id f"
      using Cons.prems(3) that by (metis distinct.simps(2) imageI list.set_map list.simps(9))
    then have "find (\<lambda>u. fu_file_in_artifact u = fa_id g)
        (filter (\<lambda>u. fu_file_in_artifact u \<noteq> fa_id f) us) = find (\<lambda>u. fu_file_in_artifact u = fa_id g) us"
      for us by (induction us) auto
    then show ?thesis by (simp add: upload_of_def)
  qed
  have hooks: "unlinks dir d (f # fs) = unlinks dir d [f] @ unlinks dir ?d fs"
  proof -
    have "List.map_filter (upload_of ?d) fs = List.map_filter (upload_of d) fs"
      using same by (simp add: map_filter_def cong: map_cong filter_cong)
    then show ?thesis by (simp add: unlinks_def List.map_filter_simps split: option.splits)
  qed
  have "for_each fs (delete_file_in_artifact dir) ?d = (Inr (),
      ?d\<lparr>db_file_uploads := filter (\<lambda>u. fu_file_in_artifact u \<notin> fa_id ` set fs) (db_file_uploads ?d),
        db_file_in_artifacts := filter (\<lambda>g. fa_id g \<notin> fa_id ` set fs) (db_file_in_artifacts ?d),
        db_on_commit := db_on_commit ?d @ unlinks dir ?d fs\<rparr>)"
    using Cons.prems by (intro Cons.IH) (simp_all add: distinct_map_filter)
  then show ?case
    unfolding hooks for_each.simps seq_act_def bind_act_def
      delete_file_in_artifact_run [OF Cons.prems(1,2)] prod.case sum.case
    by (simp add: conj_commute conj_left_commute)
qed

text \<open>The database without an artifact.\<close>

definition forget_artifact :: "string \<Rightarrow> time \<Rightarrow> pk \<Rightarrow> match_constraint list \<Rightarrow> db \<Rightarrow> db" where
  "forget_artifact dir now a mc d = d\<lparr>
     db_items := map (\<lambda>i. if ci_artifact i = Some a then (removed_item now i)\<lparr>ci_artifact := None\<rparr> else i)
       (db_items d),
     db_artifact_relations := filter (\<lambda>r. \<not> touches a r) (db_artifact_relations d),
     db_file_uploads := filter (\<lambda>u. fu_file_in_artifact u
         \<notin> fa_id ` set (filter (\<lambda>f. fa_artifact f = a) (db_file_in_artifacts d))) (db_file_uploads d),
     db_file_in_artifacts := filter (\<lambda>f. fa_artifact f \<noteq> a) (db_file_in_artifacts d),
     db_artifacts := map (\<lambda>b. if ar_original_artifact b = Some a then b\<lparr>ar_original_artifact := None\<rparr> else b)
       (filter (\<lambda>b. ar_id b \<noteq> a) (db_artifacts d)),
     db_match_constraints := mc,
     db_on_commit := db_on_commit d @ unlinks dir d (filter (\<lambda>f. fa_artifact f = a) (db_file_in_artifacts d))\<rparr>"

lemma delete_artifact_run:
  assumes "references_sound d"
  shows "\<exists>mc. delete_artifact dir now a d = (Inr (), forget_artifact dir now a mc d)"
proof -
  have items: "distinct (map ci_id (db_items d))"
    "\<And>i. i \<in> set (db_items d) \<Longrightarrow> childtype_consistent i \<and> ci_collection i \<noteq> Some (ci_parent_collection i)
      \<and> (\<exists>c. manager_of d (ci_parent_collection i) = Inr c)"
    using assms by (auto simp: references_sound_def items_sound_def)
  have uploads: "distinct (map fu_file_in_artifact (db_file_uploads d))"
    "distinct (map fu_id (db_file_uploads d))" and fias: "distinct (map fa_id (db_file_in_artifacts d))"
    using assms by (auto simp: references_sound_def files_sound_def)
  let ?fs = "filter (\<lambda>f. fa_artifact f = a) (db_file_in_artifacts d)"
  have distinct: "distinct (items_of_artifact d a)"
    using items(1) by (simp add: items_of_artifact_def distinct_map distinct_filter)
  obtain mc where "for_each (items_of_artifact d a) (remove_from_parent now) d = (Inr (),
      d\<lparr>db_items := map (\<lambda>j. if j \<in> set (items_of_artifact d a) then removed_item now j else j) (db_items d),
        db_match_constraints := mc\<rparr>)"
    using remove_from_parents_run [OF items(1) distinct, of now] items(2)
    by (auto simp: items_of_artifact_def)
  moreover have "map (\<lambda>j. if j \<in> set (items_of_artifact d a) then removed_item now j else j) (db_items d)
      = map (\<lambda>j. if ci_artifact j = Some a then removed_item now j else j) (db_items d)"
    by (simp add: items_of_artifact_def)
  ultimately have one: "for_each (items_of_artifact d a) (remove_from_parent now) d = (Inr (),
      d\<lparr>db_items := map (\<lambda>j. if ci_artifact j = Some a then removed_item now j else j) (db_items d),
        db_match_constraints := mc\<rparr>)" (is "_ = (_, ?d1)") by simp
  have "list_all (\<lambda>i. childtype_consistent (i\<lparr>ci_artifact := None\<rparr>)) (items_of_artifact ?d1 a)"
    using items(2) by (auto simp: items_of_artifact_def list_all_iff intro!: childtype_removed(2))
  then have two: "detach_items a ?d1 = (Inr (),
      ?d1\<lparr>db_items := map (\<lambda>i. if ci_artifact i = Some a then (removed_item now i)\<lparr>ci_artifact := None\<rparr> else i)
        (db_items d)\<rparr>)" (is "_ = (_, ?d2)")
    by (simp add: detach_items_def act_defs comp_def if_distrib cong: if_cong)
  let ?d3 = "?d2\<lparr>db_artifact_relations := filter (\<lambda>r. \<not> touches a r) (db_artifact_relations d)\<rparr>"
  have three: "delete_relations a ?d2 = (Inr (), ?d3)"
    by (simp add: delete_relations_def act_defs)
  have same: "unlinks dir ?d3 ?fs = unlinks dir d ?fs"
    by (simp add: unlinks_def upload_of_def [abs_def])
  have "fa_id ` set ?fs \<inter> fa_id ` set (filter (\<lambda>f. fa_artifact f \<noteq> a) (db_file_in_artifacts d)) = {}"
    using same_id [OF fias] by auto
  then have rest: "filter (\<lambda>g. fa_id g \<notin> fa_id ` set ?fs) (db_file_in_artifacts d)
      = filter (\<lambda>f. fa_artifact f \<noteq> a) (db_file_in_artifacts d)"
    by (intro filter_cong) auto
  have four: "for_each (filter (\<lambda>f. fa_artifact f = a) (db_file_in_artifacts ?d3))
      (delete_file_in_artifact dir) ?d3 = (Inr (),
      ?d3\<lparr>db_file_uploads := filter (\<lambda>u. fu_file_in_artifact u \<notin> fa_id ` set ?fs) (db_file_uploads d),
        db_file_in_artifacts := filter (\<lambda>f. fa_artifact f \<noteq> a) (db_file_in_artifacts d),
        db_on_commit := db_on_commit d @ unlinks dir d ?fs\<rparr>)" (is "_ = (_, ?d4)")
    using delete_files_in_artifact_run [of ?d3 ?fs dir] uploads fias
    unfolding same by (simp add: rest distinct_map_filter del: set_filter)
  have "items_of_artifact ?d4 a = []" "\<not> list_ex (\<lambda>f. fa_artifact f = a) (db_file_in_artifacts ?d4)"
    "\<not> list_ex (touches a) (db_artifact_relations ?d4)"
    by (auto simp: items_of_artifact_def list_ex_iff filter_empty_conv)
  then have five: "delete_artifact_row a ?d4 = (Inr (), forget_artifact dir now a mc d)"
    by (simp add: delete_artifact_row_def act_defs forget_artifact_def)
  have "delete_artifact dir now a d = (Inr (), forget_artifact dir now a mc d)"
    unfolding delete_artifact_def seq_act_def bind_act_def with_db_def one two three four five
      prod.case sum.case ..
  then show ?thesis by blast
qed

section \<open>References stay sound\<close>

lemma forget_fields:
  "db_workspaces (forget_artifact dir now a mc d) = db_workspaces d"
  "db_collections (forget_artifact dir now a mc d) = db_collections d"
  "db_work_requests (forget_artifact dir now a mc d) = db_work_requests d"
  by (simp_all add: forget_artifact_def)

lemma forget_same_views:
  "manager_of (forget_artifact dir now a mc d) = manager_of d"
  "get_collection_row (forget_artifact dir now a mc d) = get_collection_row d"
  "get_workspace (forget_artifact dir now a mc d) = get_workspace d"
  "retaining (forget_artifact dir now a mc d) = retaining d"
  by (simp_all add: fun_eq_iff manager_of_def get_collection_row_def get_workspace_def
      retaining_def forget_fields)

lemma forget_artifact_ids:
  "map ar_id (db_artifacts (forget_artifact dir now a mc d)) = filter (\<lambda>i. i \<noteq> a) (map ar_id (db_artifacts d))"
  by (simp add: forget_artifact_def filter_map comp_def if_distrib cong: if_cong)

lemma forget_artifact_id_set:
  "ar_id ` set (db_artifacts (forget_artifact dir now a mc d)) = ar_id ` set (db_artifacts d) - {a}"
  using arg_cong [OF forget_artifact_ids [of dir now a mc d], of set] by auto

lemma forget_sound:
  assumes "references_sound d"
  shows "references_sound (forget_artifact dir now a mc d)" (is "references_sound ?d")
proof -
  let ?clear = "\<lambda>b. if ar_original_artifact b = Some a then b\<lparr>ar_original_artifact := None\<rparr> else b"
  let ?drop = "\<lambda>i. if ci_artifact i = Some a then (removed_item now i)\<lparr>ci_artifact := None\<rparr> else i"
  have artifacts: "db_artifacts ?d = map ?clear (filter (\<lambda>b. ar_id b \<noteq> a) (db_artifacts d))"
    and items: "db_items ?d = map ?drop (db_items d)"
    by (simp_all add: forget_artifact_def)
  have sound: "artifacts_sound d" using assms by (simp add: references_sound_def)
  have "artifacts_sound ?d"
    unfolding artifacts_sound_def
  proof (intro conjI ballI allI impI)
    show "distinct (map ar_id (db_artifacts ?d))"
      using sound unfolding forget_artifact_ids artifacts_sound_def by simp
  next
    fix b
    assume "b \<in> set (db_artifacts ?d)"
    then obtain c where c: "c \<in> set (db_artifacts d)" "b = ?clear c" unfolding artifacts by auto
    then show "get_workspace ?d (ar_workspace b) \<noteq> None"
      using sound unfolding forget_same_views artifacts_sound_def by auto
    fix k
    assume "ar_original_artifact b = Some k"
    then have "k \<noteq> a" "ar_original_artifact c = Some k" using c(2) by (auto split: if_splits)
    then show "k \<in> ar_id ` set (db_artifacts ?d)"
      using sound c(1) unfolding forget_artifact_id_set artifacts_sound_def by auto
  next
    fix r
    assume "r \<in> set (db_artifact_relations ?d)"
    then have "r \<in> set (db_artifact_relations d)" "rl_artifact r \<noteq> a" "rl_target r \<noteq> a"
      by (auto simp: forget_artifact_def touches_def)
    then show "rl_artifact r \<in> ar_id ` set (db_artifacts ?d)" "rl_target r \<in> ar_id ` set (db_artifacts ?d)"
      using sound unfolding forget_artifact_id_set artifacts_sound_def by auto
  qed
  moreover have "items_sound ?d"
  proof -
    have sound: "items_sound d" using assms by (simp add: references_sound_def)
    show ?thesis
      unfolding items_sound_def
    proof (intro conjI ballI allI impI)
      have "map ci_id (map ?drop (db_items d)) = map ci_id (db_items d)" by simp
      then show "distinct (map ci_id (db_items ?d))"
        using sound unfolding items items_sound_def by (simp only:)
    next
      fix i
      assume "i \<in> set (db_items ?d)"
      then obtain j where "j \<in> set (db_items d)" and i: "i = ?drop j" unfolding items by auto
      then have j: "childtype_consistent j" "ci_collection j \<noteq> Some (ci_parent_collection j)"
        "\<exists>c. manager_of d (ci_parent_collection j) = Inr c"
        "\<And>k. ci_artifact j = Some k \<Longrightarrow> k \<in> ar_id ` set (db_artifacts d)"
        using sound by (auto simp: items_sound_def)
      show "childtype_consistent i" using i j(1) childtype_removed(2) [OF j(1), of now] by auto
      show "ci_collection i \<noteq> Some (ci_parent_collection i)" using i j(2) by simp
      show "\<exists>c. manager_of ?d (ci_parent_collection i) = Inr c"
        using i j(3) by (simp add: forget_same_views)
      show "k \<in> ar_id ` set (db_artifacts ?d)" if "ci_artifact i = Some k" for k
        using i j(4) that unfolding forget_artifact_id_set by (auto split: if_splits)
    qed
  qed
  moreover have "files_sound ?d"
  proof -
    have "x \<in> fa_id ` {f\<in>set (db_file_in_artifacts d). fa_artifact f \<noteq> a}"
      if "x \<in> fa_id ` set (db_file_in_artifacts d)"
        "x \<notin> fa_id ` {f\<in>set (db_file_in_artifacts d). fa_artifact f = a}" for x
      using that by auto
    then show ?thesis
      using assms unfolding references_sound_def files_sound_def forget_artifact_id_set
      by (auto simp: forget_artifact_def distinct_map_filter)
  qed
  ultimately show ?thesis by (simp add: references_sound_def)
qed

section \<open>The collector\<close>

definition drop_nodes :: "pk set \<Rightarrow> gc_heap \<Rightarrow> gc_heap" where
  "drop_nodes D h = \<lparr>nodes = nodes h - D, edges = edges h - (D \<times> UNIV \<union> UNIV \<times> D), roots = roots h - D\<rparr>"

lemma drop_nodes_insert: "drop_nodes D (drop_nodes {a} h) = drop_nodes (insert a D) h"
  by (auto simp: drop_nodes_def)

lemma drop_nodes_empty: "drop_nodes {} h = h"
  by (simp add: drop_nodes_def)

text \<open>Dropping nodes that no root reaches, and all the roots' leftovers, is collecting.\<close>

lemma drop_dead_nodes:
  assumes "edges h \<subseteq> nodes h \<times> nodes h" and "roots h \<subseteq> nodes h" and "D = nodes h - live h"
  shows "drop_nodes D h = collect h"
proof -
  have roots: "roots h \<subseteq> live h" by (auto simp: live_def)
  then show ?thesis using assms(1,2) unfolding assms(3) drop_nodes_def collect_def
    by (auto intro!: gc_heap.equality)
qed

lemma forget_heap:
  "heap_of at (forget_artifact dir now a mc d) = drop_nodes {a} (heap_of at d)"
proof -
  let ?d = "forget_artifact dir now a mc d"
  let ?clear = "\<lambda>b. if ar_original_artifact b = Some a then b\<lparr>ar_original_artifact := None\<rparr> else b"
  have artifacts: "set (db_artifacts ?d) = ?clear ` {b\<in>set (db_artifacts d). ar_id b \<noteq> a}"
    by (simp add: forget_artifact_def)
  have expired: "artifact_expired ?d (?clear b) at = artifact_expired d b at" for b
    by (cases "ar_expiration_delay b"; cases "get_workspace d (ar_workspace b)")
      (simp_all add: artifact_expired_def artifact_expire_at_def artifact_expiration_delay_def
        artifact_workspace_def forget_same_views)
  have ids: "ar_id (?clear b) = ar_id b" for b by simp
  have item: "(\<exists>i\<in>set (db_items ?d). ci_artifact i = Some b \<and> P (ci_parent_collection i))
      \<longleftrightarrow> (\<exists>i\<in>set (db_items d). ci_artifact i = Some b \<and> P (ci_parent_collection i))" if "b \<noteq> a" for b P
    using that by (auto simp: forget_artifact_def split: if_splits)
  have root: "is_root ?d at (?clear b) \<longleftrightarrow> is_root d at b" if "ar_id b \<noteq> a" for b
    using item [OF that, of "\<lambda>p. \<exists>c. get_collection_row d p = Some c \<and> retaining d c"]
    by (simp only: is_root_def expired ids forget_same_views)
  have "ar_id ` {b\<in>set (db_artifacts ?d). is_root ?d at b}
      = ar_id ` {b\<in>set (db_artifacts d). is_root d at b} - {a}"
  proof -
    have "{b\<in>set (db_artifacts ?d). is_root ?d at b}
        = ?clear ` {b\<in>set (db_artifacts d). ar_id b \<noteq> a \<and> is_root d at b}"
      unfolding artifacts using root by blast
    then have "ar_id ` {b\<in>set (db_artifacts ?d). is_root ?d at b}
        = ar_id ` {b\<in>set (db_artifacts d). ar_id b \<noteq> a \<and> is_root d at b}"
      by (simp only: image_image ids)
    then show ?thesis by auto
  qed
  moreover have "(\<lambda>r. (rl_artifact r, rl_target r)) ` set (db_artifact_relations ?d)
      = (\<lambda>r. (rl_artifact r, rl_target r)) ` set (db_artifact_relations d) - ({a} \<times> UNIV \<union> UNIV \<times> {a})"
    by (auto simp: forget_artifact_def touches_def)
  ultimately show ?thesis
    by (simp add: heap_of_def drop_nodes_def forget_artifact_id_set)
qed

text \<open>The contents of the stores wait for the second transaction.\<close>

definition files_kept :: "db \<Rightarrow> db \<Rightarrow> bool" where
  "files_kept d d' \<longleftrightarrow> db_files d' = db_files d \<and> db_file_in_stores d' = db_file_in_stores d
     \<and> db_file_stores d' = db_file_stores d \<and> set (db_file_in_artifacts d') \<subseteq> set (db_file_in_artifacts d)"

lemma files_kept_refl: "files_kept d d"
  by (simp add: files_kept_def)

lemma files_kept_trans: "files_kept d d' \<Longrightarrow> files_kept d' d'' \<Longrightarrow> files_kept d d''"
  by (auto simp: files_kept_def)

lemma forget_files_kept: "files_kept d (forget_artifact dir now a mc d)"
  by (simp add: files_kept_def forget_artifact_def)

lemma delete_artifacts_run:
  assumes "references_sound d"
  shows "\<exists>d'. for_each as (\<lambda>a. delete_artifact dir now (ar_id a)) d = (Inr (), d')
    \<and> references_sound d' \<and> files_kept d d' \<and> heap_of at d' = drop_nodes (ar_id ` set as) (heap_of at d)"
  using assms
proof (induction as arbitrary: d)
  case Nil
  then show ?case by (simp add: ret_def drop_nodes_empty files_kept_refl)
next
  case (Cons a as)
  obtain mc where one: "delete_artifact dir now (ar_id a) d = (Inr (), forget_artifact dir now (ar_id a) mc d)"
    using delete_artifact_run [OF Cons.prems] by blast
  from Cons.IH [OF forget_sound [OF Cons.prems, of dir now "ar_id a" mc]] one show ?case
    by (auto simp: seq_act_def bind_act_def forget_heap drop_nodes_insert
        intro: files_kept_trans [OF forget_files_kept])
qed

text \<open>The ids kept by the mark phase are those the roots reach.\<close>

lemma relation_steps:
  "row_step rl_target relation_edge (db_artifact_relations d) = (\<lambda>i j. (i, j) \<in> edges (heap_of at d))"
  by (auto simp: fun_eq_iff row_step_def relation_edge_def heap_of_def)

lemma live_reached: "{j. \<exists>i\<in>roots h. (\<lambda>i j. (i, j) \<in> edges h)\<^sup>*\<^sup>* i j} = live h"
proof -
  have "(\<lambda>i j. (i, j) \<in> r)\<^sup>*\<^sup>* i j \<longleftrightarrow> (i, j) \<in> r\<^sup>*" for r :: "(pk \<times> pk) set" and i j
    by (simp add: rtrancl_def)
  then show ?thesis unfolding live_def Image_def by presburger
qed

lemma set_keep_ids: "set (keep_ids d at) = live (heap_of at d)"
proof -
  have roots: "set (map ar_id (filter (\<lambda>a. a \<in> set (artifacts_not_expired d (db_artifacts d) at)
      \<or> a \<in> set (part_of_collection_with_retains_artifacts d (db_artifacts d))) (db_artifacts d)))
    = roots (heap_of at d)"
  proof -
    have "(a \<in> set (artifacts_not_expired d (db_artifacts d) at)
        \<or> a \<in> set (part_of_collection_with_retains_artifacts d (db_artifacts d))) \<longleftrightarrow> is_root d at a"
      if "a \<in> set (db_artifacts d)" for a
      using that by (auto simp: artifacts_not_expired_iff is_root_def list_ex_iff
          part_of_collection_with_retains_artifacts_def split: option.splits)
    then show ?thesis by (auto simp: heap_of_def)
  qed
  have "set (keep_ids d at) = {j. \<exists>i\<in>roots (heap_of at d). (\<lambda>i j. (i, j) \<in> edges (heap_of at d))\<^sup>*\<^sup>* i j}"
    unfolding keep_ids_def Let_def set_cte_union roots relation_steps [of d at] ..
  also have "\<dots> = live (heap_of at d)" by (rule live_reached)
  finally show ?thesis .
qed

lemma sound_delay: "references_sound d \<Longrightarrow> a \<in> set (db_artifacts d) \<Longrightarrow>
    (\<exists>b. artifact_expired d a at = Inr b)"
  by (auto simp: references_sound_def artifacts_sound_def artifact_expired_def artifact_expire_at_def
      artifact_expiration_delay_def artifact_workspace_def split: option.splits)

lemma swept_ids:
  assumes "references_sound d"
  shows "ar_id ` set (sort_key ar_id (filter (\<lambda>a. ar_id a \<notin> ar_id ` set (mark_to_keep d at))
      (artifacts_expired d (db_artifacts d) at)))
    = nodes (heap_of at d) - live (heap_of at d)"
proof -
  have kept: "ar_id a \<in> ar_id ` set (mark_to_keep d at) \<longleftrightarrow> ar_id a \<in> live (heap_of at d)"
    if "a \<in> set (db_artifacts d)" for a
    using that by (auto simp: mark_to_keep_def set_keep_ids)
  have "roots (heap_of at d) \<subseteq> live (heap_of at d)" by (auto simp: live_def)
  then have root: "ar_id a \<in> live (heap_of at d)" if "a \<in> set (db_artifacts d)" "artifact_expired d a at = Inr False" for a
    using that by (auto simp: heap_of_def is_root_def)
  have "a \<in> set (artifacts_expired d (db_artifacts d) at) \<and> ar_id a \<notin> ar_id ` set (mark_to_keep d at)
      \<longleftrightarrow> a \<in> set (db_artifacts d) \<and> ar_id a \<notin> live (heap_of at d)" for a
  proof (cases "a \<in> set (db_artifacts d)")
    case True
    then obtain b where "artifact_expired d a at = Inr b" using sound_delay [OF assms] by blast
    with True root [OF True] kept [OF True] show ?thesis
      by (cases b) (simp_all add: artifacts_expired_iff)
  next
    case False
    then show ?thesis by (simp add: artifacts_expired_iff)
  qed
  then have "set (filter (\<lambda>a. ar_id a \<notin> ar_id ` set (mark_to_keep d at))
      (artifacts_expired d (db_artifacts d) at)) = {a\<in>set (db_artifacts d). ar_id a \<notin> live (heap_of at d)}"
    by auto
  then show ?thesis unfolding set_sort by (auto simp: heap_of_def)
qed

lemma heap_closed:
  assumes "references_sound d"
  shows "edges (heap_of at d) \<subseteq> nodes (heap_of at d) \<times> nodes (heap_of at d)"
    and "roots (heap_of at d) \<subseteq> nodes (heap_of at d)"
  using assms by (auto simp: heap_of_def references_sound_def artifacts_sound_def)

lemma sweep_run:
  assumes "references_sound d"
  shows "\<exists>d'. sweep False dir at now (mark_to_keep d at) d = (Inr (), d')
    \<and> references_sound d' \<and> files_kept d d' \<and> heap_of at d' = collect (heap_of at d)"
proof -
  let ?as = "sort_key ar_id (filter (\<lambda>a. ar_id a \<notin> ar_id ` set (mark_to_keep d at))
      (artifacts_expired d (db_artifacts d) at))"
  obtain d' where d': "for_each ?as (\<lambda>a. delete_artifact dir now (ar_id a)) d = (Inr (), d')"
    "references_sound d'" "files_kept d d'" "heap_of at d' = drop_nodes (ar_id ` set ?as) (heap_of at d)"
    using delete_artifacts_run [OF assms] by blast
  have "drop_nodes (ar_id ` set ?as) (heap_of at d) = collect (heap_of at d)"
    unfolding swept_ids [OF assms] by (rule drop_dead_nodes [OF heap_closed [OF assms] refl])
  then show ?thesis using d' by (simp add: sweep_def atomic_def with_db_def)
qed

section \<open>The first transaction\<close>

text \<open>What retention leaves of the items before the mark phase.\<close>

definition after_retention :: "time \<Rightarrow> db \<Rightarrow> db" where
  "after_retention at d = snd (seq_act (drop_full_history at) (drop_metadata at) d)"

lemma removed_before_removed: "removed_before p d at i \<Longrightarrow> ci_removed_at i \<noteq> None"
  by (auto simp: removed_before_def split: option.splits)

lemma items_sound_map:
  assumes "items_sound d" and "\<And>i. i \<in> set (db_items d) \<Longrightarrow>
      f i = i \<or> (ci_removed_at i \<noteq> None \<and> f i = i\<lparr>ci_artifact := None\<rparr>)"
  shows "items_sound (d\<lparr>db_items := map f (db_items d)\<rparr>)"
proof -
  have same: "manager_of (d\<lparr>db_items := xs\<rparr>) = manager_of d" for xs
    by (simp add: fun_eq_iff manager_of_def get_collection_row_def)
  have "ci_id (f i) = ci_id i" if "i \<in> set (db_items d)" for i
    using assms(2) [OF that] by auto
  then have ids: "map ci_id (map f (db_items d)) = map ci_id (db_items d)"
    unfolding map_map by (intro map_cong) auto
  have kept: "childtype_consistent (f i)" if "i \<in> set (db_items d)" "childtype_consistent i" for i
    using assms(2) [OF that(1)] that(2)
    by (auto simp: childtype_consistent_def split: child_type.splits)
  show ?thesis
    unfolding items_sound_def same
  proof (intro conjI ballI allI impI)
    show "distinct (map ci_id (db_items (d\<lparr>db_items := map f (db_items d)\<rparr>)))"
      using assms(1) ids by (simp add: items_sound_def del: map_map)
  next
    fix i
    assume "i \<in> set (db_items (d\<lparr>db_items := map f (db_items d)\<rparr>))"
    then obtain j where j: "j \<in> set (db_items d)" "i = f j" by auto
    with assms(1) have sound: "childtype_consistent j" "ci_collection j \<noteq> Some (ci_parent_collection j)"
      "\<exists>c. manager_of d (ci_parent_collection j) = Inr c"
      "\<And>k. ci_artifact j = Some k \<Longrightarrow> k \<in> ar_id ` set (db_artifacts d)"
      by (auto simp: items_sound_def)
    show "childtype_consistent i" using kept [OF j(1) sound(1)] j(2) by simp
    show "ci_collection i \<noteq> Some (ci_parent_collection i)" "\<exists>c. manager_of d (ci_parent_collection i) = Inr c"
      using assms(2) [OF j(1)] j(2) sound(2,3) by auto
    show "k \<in> ar_id ` set (db_artifacts (d\<lparr>db_items := map f (db_items d)\<rparr>))" if "ci_artifact i = Some k" for k
      using assms(2) [OF j(1)] j(2) sound(4) that by auto
  qed
qed

lemma after_retention_run:
  assumes "references_sound d"
  shows "drop_full_history at d = (Inr (), snd (drop_full_history at d))"
    and "drop_metadata at (snd (drop_full_history at d)) = (Inr (), after_retention at d)"
    and "references_sound (after_retention at d)" and "files_kept d (after_retention at d)"
proof -
  show "drop_full_history at d = (Inr (), snd (drop_full_history at d))"
    and run: "drop_metadata at (snd (drop_full_history at d)) = (Inr (), after_retention at d)"
    by (simp_all add: after_retention_def drop_full_history_def drop_metadata_def act_defs)
  let ?d = "snd (drop_full_history at d)"
  let ?f = "\<lambda>i. if removed_before co_full_history_retention_period d at i then i\<lparr>ci_artifact := None\<rparr> else i"
  have d1: "?d = d\<lparr>db_items := map ?f (db_items d)\<rparr>"
    by (simp add: drop_full_history_def modify_db_def)
  have items: "items_sound ?d"
    unfolding d1 using assms by (intro items_sound_map) (auto simp: references_sound_def dest: removed_before_removed)
  have d2: "after_retention at d = ?d\<lparr>db_items := filter (\<lambda>i. \<not> removed_before total_retention ?d at i) (db_items ?d)\<rparr>"
    using run by (simp add: drop_metadata_def modify_db_def)
  have "items_sound (after_retention at d)"
    using items unfolding d2
    by (auto simp: items_sound_def distinct_map_filter manager_of_def get_collection_row_def)
  moreover have "artifacts_sound (after_retention at d)" "files_sound (after_retention at d)"
    using assms unfolding d2 d1
    by (auto simp: references_sound_def artifacts_sound_def files_sound_def get_workspace_def)
  ultimately show "references_sound (after_retention at d)" by (simp add: references_sound_def)
  show "files_kept d (after_retention at d)" unfolding d2 d1 by (simp add: files_kept_def)
qed

lemma delete_artifacts_transaction_run:
  assumes "references_sound d"
  shows "\<exists>d'. delete_artifacts False dir at now d = (Inr (), d') \<and> references_sound d'
    \<and> files_kept d d' \<and> heap_of at d' = collect (heap_of at (after_retention at d))"
proof -
  obtain d1 where "drop_full_history at d = (Inr (), d1)" "drop_metadata at d1 = (Inr (), after_retention at d)"
    using after_retention_run(1,2) [OF assms] by blast
  then show ?thesis
    using sweep_run [OF after_retention_run(3) [OF assms], of dir at now at]
      files_kept_trans [OF after_retention_run(4) [OF assms, of at]]
    by (auto simp: delete_artifacts_def seq_act_def bind_act_def with_db_def)
qed

section \<open>Hooks\<close>

text \<open>What a commit leaves of the tables: everything.\<close>

definition tables_of :: "db \<Rightarrow> db" where
  "tables_of d = d\<lparr>db_storage := [], db_on_commit := []\<rparr>"

lemma tables_run_hook [simp]: "tables_of (run_hook h d) = tables_of d"
  by (cases h) (simp_all add: tables_of_def erase_location_def modify_db_def)

lemma tables_run_hooks [simp]: "tables_of (fold run_hook hs d) = tables_of d"
  by (induction hs arbitrary: d) simp_all

lemma sound_tables: "references_sound (tables_of d) = references_sound d"
  by (simp add: references_sound_def artifacts_sound_def items_sound_def files_sound_def tables_of_def
      manager_of_def get_collection_row_def get_workspace_def)

lemma views_tables:
  "artifact_expired (tables_of d) = artifact_expired d" "retaining (tables_of d) = retaining d"
  "get_collection_row (tables_of d) = get_collection_row d"
proof -
  have "artifact_workspace (tables_of d) = artifact_workspace d"
    by (simp add: fun_eq_iff artifact_workspace_def get_workspace_def tables_of_def)
  then show "artifact_expired (tables_of d) = artifact_expired d"
    unfolding artifact_expired_def [abs_def] artifact_expire_at_def artifact_expiration_delay_def
    by (rule arg_cong)
qed (simp_all add: fun_eq_iff retaining_def get_collection_row_def tables_of_def)

lemma heap_tables: "heap_of at (tables_of d) = heap_of at d"
  by (simp add: heap_of_def is_root_def views_tables) (simp add: tables_of_def)

lemma removed_before_collections:
  "db_collections d = db_collections d' \<Longrightarrow> removed_before p d = removed_before p d'"
  by (intro ext) (simp add: removed_before_def get_collection_row_def split: option.split)

lemma retention_tables: "after_retention at (tables_of d) = tables_of (after_retention at d)"
proof -
  have same: "removed_before p (d\<lparr>db_storage := s, db_on_commit := h, db_items := xs\<rparr>) = removed_before p d"
    "removed_before p (d\<lparr>db_items := xs\<rparr>) = removed_before p d"
    "removed_before p (d\<lparr>db_storage := s, db_on_commit := h\<rparr>) = removed_before p d" for p s h xs
    by (rule removed_before_collections, simp)+
  show ?thesis
    by (simp add: after_retention_def drop_full_history_def drop_metadata_def act_defs tables_of_def same)
qed

lemma same_tables:
  assumes "tables_of d = tables_of d'"
  shows "references_sound d = references_sound d'" and "heap_of at d = heap_of at d'"
    and "heap_of at (after_retention at d) = heap_of at (after_retention at d')"
  using assms sound_tables heap_tables retention_tables by metis+

lemma delete_artifacts_committed:
  assumes "references_sound d"
  shows "\<exists>d'. transaction False (delete_artifacts False dir at now) d = (Inr (), d')
    \<and> files_kept d d' \<and> references_sound d' \<and> heap_of at d' = collect (heap_of at (after_retention at d))"
proof -
  have start: "tables_of (d\<lparr>db_on_commit := []\<rparr>) = tables_of d" by (simp add: tables_of_def)
  then have "references_sound (d\<lparr>db_on_commit := []\<rparr>)" using assms same_tables(1) by blast
  from delete_artifacts_transaction_run [OF this, of dir at now] obtain d' where
    d': "delete_artifacts False dir at now (d\<lparr>db_on_commit := []\<rparr>) = (Inr (), d')" "references_sound d'"
      "files_kept (d\<lparr>db_on_commit := []\<rparr>) d'" "heap_of at d' = collect (heap_of at (after_retention at d))"
    unfolding same_tables(3) [OF start] by blast
  let ?last = "fold run_hook (db_on_commit d') (d'\<lparr>db_on_commit := db_on_commit d\<rparr>)"
  have tables: "tables_of ?last = tables_of d'" unfolding tables_run_hooks by (simp add: tables_of_def)
  have "transaction False (delete_artifacts False dir at now) d = (Inr (), ?last)"
    using d'(1) by (simp add: transaction_def)
  moreover have "files_kept d ?last"
  proof -
    have "files_kept d (d'\<lparr>db_on_commit := db_on_commit d\<rparr>)" using d'(3) by (simp add: files_kept_def)
    moreover have "files_kept x (fold run_hook hs x)" for x hs
    proof (induction hs arbitrary: x)
      case (Cons h hs)
      have "files_kept x (run_hook h x)"
        by (cases h) (simp_all add: files_kept_def erase_location_def modify_db_def)
      from files_kept_trans [OF this Cons.IH] show ?case by simp
    qed (simp add: files_kept_refl)
    ultimately show ?thesis by (rule files_kept_trans)
  qed
  ultimately show ?thesis using d'(2,4) same_tables(1,2) [OF tables] by simp
qed


section \<open>Files without an artifact\<close>

text \<open>
  Removing a file from an entry succeeds and touches its storage only: so it is for
  the local and the in-memory backend.
\<close>

definition removable :: "entry_ops \<Rightarrow> bool" where
  "removable en \<longleftrightarrow> (\<forall>d. \<exists>d'. en_remove en d = (Inr (), d') \<and> storage_only d d')"

lemma removable_entries: "removable (local_entry base f)" "removable (memory_entry st name f)"
  using local.remove memory.remove unfolding removable_def by blast+

definition stores_remove :: "storage \<Rightarrow> db \<Rightarrow> bool" where
  "stores_remove st d \<longleftrightarrow> (\<forall>s\<in>set (db_file_stores d). \<forall>n f.
     \<exists>en. get_entry st (s\<lparr>fs_total_size := n\<rparr>) f = Inr en \<and> removable en)"

text \<open>The rows of files: keys are unique, and what they refer to is there.\<close>

definition stored_sound :: "db \<Rightarrow> bool" where
  "stored_sound d \<longleftrightarrow>
     (\<forall>x\<in>set (db_file_in_stores d). fx_file x \<in> fi_id ` set (db_files d)
        \<and> fx_store x \<in> fs_id ` set (db_file_stores d))
     \<and> (\<forall>f\<in>set (db_file_in_artifacts d). fa_file f \<in> fi_id ` set (db_files d))"

lemma delete_file_in_store_fields:
  "db_files (delete_file_in_store x d) = db_files d"
  "db_file_in_artifacts (delete_file_in_store x d) = db_file_in_artifacts d"
  "\<exists>g. db_file_stores (delete_file_in_store x d) = map (\<lambda>s. s\<lparr>fs_total_size := g s\<rparr>) (db_file_stores d)"
proof -
  have "db_file_stores (delete_file_in_store x d) = map (\<lambda>s. s\<lparr>fs_total_size :=
      (if fs_id s = fx_store x then fs_total_size s + (- file_size d (fx_file x)) else fs_total_size s)\<rparr>)
      (db_file_stores d)"
    by (simp add: delete_file_in_store_def add_to_total_def tbl_upd_def)
  then show "\<exists>g. db_file_stores (delete_file_in_store x d)
      = map (\<lambda>s. s\<lparr>fs_total_size := g s\<rparr>) (db_file_stores d)"
    by (intro exI [where x = "\<lambda>s. if fs_id s = fx_store x
      then fs_total_size s + (- file_size d (fx_file x)) else fs_total_size s"])
qed (simp_all add: delete_file_in_store_def add_to_total_def)

text \<open>Two databases that differ in the totals of their stores only.\<close>

definition same_stores :: "db \<Rightarrow> db \<Rightarrow> bool" where
  "same_stores d d' \<longleftrightarrow> map (\<lambda>s. s\<lparr>fs_total_size := 0\<rparr>) (db_file_stores d)
     = map (\<lambda>s. s\<lparr>fs_total_size := 0\<rparr>) (db_file_stores d')"

lemma same_stores_trans: "same_stores d d' \<Longrightarrow> same_stores d' d'' \<Longrightarrow> same_stores d d''"
  by (simp add: same_stores_def)

lemma same_stores_delete: "same_stores d (delete_file_in_store x d)"
  using delete_file_in_store_fields(3) [of x d] by (auto simp: same_stores_def comp_def)

lemma delete_rows_fields:
  "db_files (fold delete_file_in_store xs d) = db_files d"
  "db_file_in_artifacts (fold delete_file_in_store xs d) = db_file_in_artifacts d"
  "same_stores d (fold delete_file_in_store xs d)"
  "db_file_in_stores (fold delete_file_in_store xs d) = fold remove1 xs (db_file_in_stores d)"
proof (induction xs arbitrary: d)
  case Nil
  { case 3 then show ?case by (simp add: same_stores_def) }
next
  case (Cons x xs)
  { case 3 show ?case using Cons.IH(3) same_stores_delete same_stores_trans by (simp, blast) }
qed (simp_all add: delete_file_in_store_fields rows_delete)

lemma fold_remove1_filter: "fold remove1 (filter P xs) xs = filter (\<lambda>x. \<not> P x) xs"
proof -
  have step: "fold remove1 ys (x # xs) = x # fold remove1 ys xs" if "x \<notin> set ys" for ys and x :: 'a and xs
    using that by (induction ys arbitrary: xs) auto
  show ?thesis
    by (induction xs) (auto simp: step)
qed

lemma same_stores_mem:
  assumes "same_stores d d'" and "s \<in> set (db_file_stores d')"
  obtains t where "t \<in> set (db_file_stores d)" "s = t\<lparr>fs_total_size := fs_total_size s\<rparr>"
proof -
  have "s\<lparr>fs_total_size := 0\<rparr> \<in> set (map (\<lambda>s. s\<lparr>fs_total_size := 0\<rparr>) (db_file_stores d))"
    using assms unfolding same_stores_def by auto
  then obtain t where "t \<in> set (db_file_stores d)" "s\<lparr>fs_total_size := 0\<rparr> = t\<lparr>fs_total_size := 0\<rparr>"
    by auto
  then have "(s\<lparr>fs_total_size := 0\<rparr>)\<lparr>fs_total_size := fs_total_size s\<rparr>
      = (t\<lparr>fs_total_size := 0\<rparr>)\<lparr>fs_total_size := fs_total_size s\<rparr>" by simp
  then have "s = t\<lparr>fs_total_size := fs_total_size s\<rparr>" by simp
  with \<open>t \<in> set (db_file_stores d)\<close> show thesis by (rule that)
qed

lemma same_stores_keep:
  assumes "same_stores d d'"
  shows "stores_remove st d \<Longrightarrow> stores_remove st d'"
    and "fs_id ` set (db_file_stores d') = fs_id ` set (db_file_stores d)"
proof -
  show "stores_remove st d'" if ok: "stores_remove st d"
    unfolding stores_remove_def
  proof (intro ballI allI)
    fix s n f
    assume "s \<in> set (db_file_stores d')"
    then obtain t where t: "t \<in> set (db_file_stores d)" "s = t\<lparr>fs_total_size := fs_total_size s\<rparr>"
      by (rule same_stores_mem [OF assms])
    have "s\<lparr>fs_total_size := n\<rparr> = t\<lparr>fs_total_size := n\<rparr>" by (subst t(2)) simp
    then show "\<exists>en. get_entry st (s\<lparr>fs_total_size := n\<rparr>) f = Inr en \<and> removable en"
      using ok t(1) unfolding stores_remove_def by simp
  qed
  have "fs_id ` set (db_file_stores d) = fs_id ` set (map (\<lambda>s. s\<lparr>fs_total_size := 0\<rparr>) (db_file_stores d))"
    for d :: db by (simp add: image_image)
  then show "fs_id ` set (db_file_stores d') = fs_id ` set (db_file_stores d)"
    using assms unfolding same_stores_def by metis
qed

lemma remove_file_run:
  assumes "removable en"
  shows "\<exists>d'. remove_file store en f d = (Inr (), d')
    \<and> db_file_in_stores d' = filter (\<lambda>x. \<not> in_store store (fi_id f) x) (db_file_in_stores d)
    \<and> db_files d' = db_files d \<and> db_file_in_artifacts d' = db_file_in_artifacts d \<and> same_stores d d'"
proof -
  let ?d = "fold delete_file_in_store (filter (in_store store (fi_id f)) (db_file_in_stores d)) d"
  obtain d' where d': "en_remove en ?d = (Inr (), d')" "storage_only ?d d'"
    using assms unfolding removable_def by blast
  then have "db_file_in_stores d' = db_file_in_stores ?d" "db_files d' = db_files ?d"
    "db_file_in_artifacts d' = db_file_in_artifacts ?d" "db_file_stores d' = db_file_stores ?d"
    unfolding storage_only_def by (metis db.select_convs db.surjective db.update_convs(29))+
  then show ?thesis
    using d'(1) delete_rows_fields(3) [of d "filter (in_store store (fi_id f)) (db_file_in_stores d)"]
    by (simp add: remove_file_def atomic_db_def act_defs fold_remove1_filter same_stores_def
        delete_rows_fields(1,2,4))
qed

lemma remove_from_store_run:
  assumes "stores_remove st d" and "fx_store x \<in> fs_id ` set (db_file_stores d)"
    and "fi_id f \<notin> fa_file ` set (db_file_in_artifacts d)"
  defines "rest \<equiv> filter (\<lambda>y. \<not> in_store (fx_store x) (fi_id f) y) (db_file_in_stores d)"
  shows "\<exists>d'. remove_from_store st f x d = (Inr (), d') \<and> db_file_in_stores d' = rest
    \<and> db_files d' = (if fi_id f \<in> fx_file ` set rest then db_files d
                     else filter (\<lambda>g. fi_id g \<noteq> fi_id f) (db_files d))
    \<and> db_file_in_artifacts d' = db_file_in_artifacts d \<and> same_stores d d'"
proof -
  have "get_file_store d (fx_store x) \<noteq> None"
    using assms(2) by (auto simp: get_file_store_def tbl_get_None)
  then obtain s where s: "get_file_store d (fx_store x) = Some s" by blast
  then have "s \<in> set (db_file_stores d)" "fs_id s = fx_store x"
    by (auto simp: get_file_store_def dest: tbl_get_mem tbl_get_key)
  then obtain en where en: "get_entry st s f = Inr en" "removable en"
    using assms(1) unfolding stores_remove_def
    by (metis file_store.surjective file_store.update_convs(6))
  obtain d1 where d1: "remove_file (fs_id s) en f d = (Inr (), d1)" "db_file_in_stores d1 = rest"
    "db_files d1 = db_files d" "db_file_in_artifacts d1 = db_file_in_artifacts d" "same_stores d d1"
    using remove_file_run [OF en(2), of "fs_id s" f d] \<open>fs_id s = fx_store x\<close> unfolding rest_def by auto
  have unused: "\<not> list_ex (\<lambda>y. fa_file y = fi_id f) (db_file_in_artifacts d1)"
    using assms(3) unfolding list_ex_iff d1(4) by (metis image_eqI)
  have kept: "list_ex (\<lambda>y. fx_file y = fi_id f) (db_file_in_stores d1) \<longleftrightarrow> fi_id f \<in> fx_file ` set rest"
    unfolding list_ex_iff d1(2) by (metis image_iff)
  let ?last = "if fi_id f \<in> fx_file ` set rest then d1
    else d1\<lparr>db_files := filter (\<lambda>g. fi_id g \<noteq> fi_id f) (db_files d1)\<rparr>"
  have "catch_act (delete_file (fi_id f)) (\<lambda>e. case e of ProtectedError _ \<Rightarrow> ret () | _ \<Rightarrow> raise e) d1
      = (Inr (), ?last)"
    using unused kept by (simp add: delete_file_def act_defs)
  then have "remove_from_store st f x d = (Inr (), ?last)"
    using s en(1) d1(1) by (simp add: remove_from_store_def with_db_def bind_act_def lift_res_def seq_act_def)
  then show ?thesis using d1 by (auto simp: same_stores_def)
qed

lemma remove_from_stores_run:
  assumes "stores_remove st d" and "\<forall>x\<in>set xs. fx_store x \<in> fs_id ` set (db_file_stores d)"
    and "fi_id f \<notin> fa_file ` set (db_file_in_artifacts d)" and "xs \<noteq> []"
  defines "rest \<equiv> filter (\<lambda>y. \<not> (fx_file y = fi_id f \<and> fx_store y \<in> fx_store ` set xs)) (db_file_in_stores d)"
  shows "\<exists>d'. for_each xs (remove_from_store st f) d = (Inr (), d') \<and> db_file_in_stores d' = rest
    \<and> (fi_id f \<notin> fx_file ` set rest \<longrightarrow>
         db_files d' = filter (\<lambda>g. fi_id g \<noteq> fi_id f) (db_files d))
    \<and> db_file_in_artifacts d' = db_file_in_artifacts d \<and> same_stores d d'"
  using assms(1-4) unfolding rest_def
proof (induction xs arbitrary: d)
  case Nil
  then show ?case by simp
next
  case (Cons x xs)
  let ?rest = "filter (\<lambda>y. \<not> in_store (fx_store x) (fi_id f) y) (db_file_in_stores d)"
  obtain d1 where d1: "remove_from_store st f x d = (Inr (), d1)" "db_file_in_stores d1 = ?rest"
    "db_files d1 = (if fi_id f \<in> fx_file ` set ?rest then db_files d
      else filter (\<lambda>g. fi_id g \<noteq> fi_id f) (db_files d))"
    "db_file_in_artifacts d1 = db_file_in_artifacts d" "same_stores d d1"
    using remove_from_store_run [OF Cons.prems(1), of x f] Cons.prems(2,3) by auto
  have rests: "filter (\<lambda>y. \<not> (fx_file y = fi_id f \<and> fx_store y \<in> fx_store ` set xs)) ?rest
      = filter (\<lambda>y. \<not> (fx_file y = fi_id f \<and> fx_store y \<in> fx_store ` set (x # xs))) (db_file_in_stores d)"
    unfolding filter_filter by (rule filter_cong) (auto simp: in_store_def)
  show ?case
  proof (cases "xs = []")
    case True
    have "?rest = filter (\<lambda>y. \<not> (fx_file y = fi_id f \<and> fx_store y \<in> fx_store ` set (x # xs))) (db_file_in_stores d)"
      using True by (intro filter_cong) (auto simp: in_store_def)
    with d1 show ?thesis by (simp add: True seq_act_def bind_act_def ret_def)
  next
    case False
    have "\<exists>d'. for_each xs (remove_from_store st f) d1 = (Inr (), d')
      \<and> db_file_in_stores d' = filter (\<lambda>y. \<not> (fx_file y = fi_id f \<and> fx_store y \<in> fx_store ` set xs)) ?rest
      \<and> (fi_id f \<notin> fx_file ` set (filter (\<lambda>y. \<not> (fx_file y = fi_id f \<and> fx_store y \<in> fx_store ` set xs)) ?rest)
           \<longrightarrow> db_files d' = filter (\<lambda>g. fi_id g \<noteq> fi_id f) (db_files d1))
      \<and> db_file_in_artifacts d' = db_file_in_artifacts d \<and> same_stores d1 d'"
      using Cons.IH [of d1] same_stores_keep [OF d1(5)] Cons.prems False unfolding d1(2,4) by auto
    then obtain d' where d': "for_each xs (remove_from_store st f) d1 = (Inr (), d')"
      "db_file_in_stores d' = filter (\<lambda>y. \<not> (fx_file y = fi_id f \<and> fx_store y \<in> fx_store ` set xs)) ?rest"
      "fi_id f \<notin> fx_file ` set (filter (\<lambda>y. \<not> (fx_file y = fi_id f \<and> fx_store y \<in> fx_store ` set xs)) ?rest)
           \<longrightarrow> db_files d' = filter (\<lambda>g. fi_id g \<noteq> fi_id f) (db_files d1)"
      "db_file_in_artifacts d' = db_file_in_artifacts d" "same_stores d1 d'" by blast
    have files: "filter (\<lambda>g. fi_id g \<noteq> fi_id f) (db_files d1) = filter (\<lambda>g. fi_id g \<noteq> fi_id f) (db_files d)"
      unfolding d1(3) by simp
    have "for_each (x # xs) (remove_from_store st f) d = (Inr (), d')"
      using d1(1) d'(1) by (simp add: seq_act_def bind_act_def)
    then show ?thesis
      using d'(2-4) same_stores_trans [OF d1(5) d'(5)] unfolding rests files by blast
  qed
qed

lemma delete_from_stores_run:
  assumes "stores_remove st d" and "\<forall>x\<in>set (db_file_in_stores d). fx_store x \<in> fs_id ` set (db_file_stores d)"
    and "fi_id f \<notin> fa_file ` set (db_file_in_artifacts d)" and "fi_id f \<in> fx_file ` set (db_file_in_stores d)"
  shows "\<exists>d'. delete_from_stores st f d = (Inr (), d')
    \<and> db_file_in_stores d' = filter (\<lambda>y. fx_file y \<noteq> fi_id f) (db_file_in_stores d)
    \<and> db_files d' = filter (\<lambda>g. fi_id g \<noteq> fi_id f) (db_files d)
    \<and> db_file_in_artifacts d' = db_file_in_artifacts d \<and> same_stores d d'"
proof -
  let ?xs = "filter (\<lambda>x. fx_file x = fi_id f) (db_file_in_stores d)"
  have some: "?xs \<noteq> []" using assms(4) by (auto simp: filter_empty_conv)
  have rest: "filter (\<lambda>y. \<not> (fx_file y = fi_id f \<and> fx_store y \<in> fx_store ` set ?xs)) (db_file_in_stores d)
      = filter (\<lambda>y. fx_file y \<noteq> fi_id f) (db_file_in_stores d)"
    by (rule filter_cong) auto
  obtain d' where d': "for_each ?xs (remove_from_store st f) d = (Inr (), d')"
    "db_file_in_stores d' = filter (\<lambda>y. fx_file y \<noteq> fi_id f) (db_file_in_stores d)"
    "db_files d' = filter (\<lambda>g. fi_id g \<noteq> fi_id f) (db_files d)"
    "db_file_in_artifacts d' = db_file_in_artifacts d" "same_stores d d'"
    using remove_from_stores_run [OF assms(1) _ assms(3) some] assms(2) unfolding rest by auto
  then show ?thesis by (simp add: delete_from_stores_def atomic_db_def with_db_def)
qed

lemma delete_from_all_stores_run:
  assumes "stores_remove st d" and "\<forall>x\<in>set (db_file_in_stores d). fx_store x \<in> fs_id ` set (db_file_stores d)"
    and "\<forall>f\<in>set fs. fi_id f \<notin> fa_file ` set (db_file_in_artifacts d)
      \<and> fi_id f \<in> fx_file ` set (db_file_in_stores d)" and "distinct (map fi_id fs)"
  shows "\<exists>d'. for_each fs (delete_from_stores st) d = (Inr (), d')
    \<and> db_file_in_stores d' = filter (\<lambda>y. fx_file y \<notin> fi_id ` set fs) (db_file_in_stores d)
    \<and> db_files d' = filter (\<lambda>g. fi_id g \<notin> fi_id ` set fs) (db_files d)
    \<and> db_file_in_artifacts d' = db_file_in_artifacts d \<and> same_stores d d'"
  using assms
proof (induction fs arbitrary: d)
  case Nil
  then show ?case by (simp add: ret_def same_stores_def)
next
  case (Cons f fs)
  obtain d1 where d1: "delete_from_stores st f d = (Inr (), d1)"
    "db_file_in_stores d1 = filter (\<lambda>y. fx_file y \<noteq> fi_id f) (db_file_in_stores d)"
    "db_files d1 = filter (\<lambda>g. fi_id g \<noteq> fi_id f) (db_files d)"
    "db_file_in_artifacts d1 = db_file_in_artifacts d" "same_stores d d1"
    using delete_from_stores_run [OF Cons.prems(1,2), of f] Cons.prems(3) by auto
  have "fi_id g \<noteq> fi_id f" if "g \<in> set fs" for g
    using Cons.prems(4) that by (metis distinct.simps(2) imageI list.set_map list.simps(9))
  then have others: "fi_id g \<in> fx_file ` set (db_file_in_stores d1)" if "g \<in> set fs" for g
    using Cons.prems(3) that unfolding d1(2) by fastforce
  have "\<exists>d'. for_each fs (delete_from_stores st) d1 = (Inr (), d')
    \<and> db_file_in_stores d' = filter (\<lambda>y. fx_file y \<notin> fi_id ` set fs) (db_file_in_stores d1)
    \<and> db_files d' = filter (\<lambda>g. fi_id g \<notin> fi_id ` set fs) (db_files d1)
    \<and> db_file_in_artifacts d' = db_file_in_artifacts d1 \<and> same_stores d1 d'"
  proof (rule Cons.IH)
    show "stores_remove st d1" by (rule same_stores_keep(1) [OF d1(5) Cons.prems(1)])
    show "\<forall>x\<in>set (db_file_in_stores d1). fx_store x \<in> fs_id ` set (db_file_stores d1)"
      using Cons.prems(2) unfolding same_stores_keep(2) [OF d1(5)] d1(2) by simp
    show "\<forall>f\<in>set fs. fi_id f \<notin> fa_file ` set (db_file_in_artifacts d1)
        \<and> fi_id f \<in> fx_file ` set (db_file_in_stores d1)"
      using Cons.prems(3) others unfolding d1(4) by simp
    show "distinct (map fi_id fs)" using Cons.prems(4) by simp
  qed
  then obtain d' where d': "for_each fs (delete_from_stores st) d1 = (Inr (), d')"
    "db_file_in_stores d' = filter (\<lambda>y. fx_file y \<notin> fi_id ` set fs) (db_file_in_stores d1)"
    "db_files d' = filter (\<lambda>g. fi_id g \<notin> fi_id ` set fs) (db_files d1)"
    "db_file_in_artifacts d' = db_file_in_artifacts d1" "same_stores d1 d'" by blast
  have "for_each (f # fs) (delete_from_stores st) d = (Inr (), d')"
    using d1(1) d'(1) by (simp add: seq_act_def bind_act_def)
  then show ?case
    using d'(2-4) d1(2-4) same_stores_trans [OF d1(5) d'(5)] by (auto intro!: filter_cong)
qed

definition file_tables_of :: "db \<Rightarrow> file_row list \<times> file_in_store list \<times> file_in_artifact list" where
  "file_tables_of d = (db_files d, db_file_in_stores d, db_file_in_artifacts d)"

lemma file_tables_run_hooks [simp]: "file_tables_of (fold run_hook hs d) = file_tables_of d"
proof (induction hs arbitrary: d)
  case (Cons h hs)
  have "file_tables_of (run_hook h d) = file_tables_of d"
    by (cases h) (simp_all add: file_tables_of_def erase_location_def modify_db_def)
  with Cons show ?case by simp
qed simp

lemma delete_files_run:
  assumes "stores_remove st d" and "stored_sound d" and "distinct (map fi_id (db_files d))"
  shows "\<exists>d'. transaction False (delete_files_from_stores st) d = (Inr (), d')
    \<and> db_file_in_stores d' = filter (\<lambda>x. fx_file x \<in> fa_file ` set (db_file_in_artifacts d)) (db_file_in_stores d)
    \<and> db_files d' = filter (\<lambda>f. fi_id f \<notin> fx_file ` set (db_file_in_stores d)
        \<or> fi_id f \<in> fa_file ` set (db_file_in_artifacts d)) (db_files d)
    \<and> db_file_in_artifacts d' = db_file_in_artifacts d"
proof -
  let ?d = "d\<lparr>db_on_commit := []\<rparr>"
  have orphans: "orphaned_files ?d = orphaned_files d" by (simp add: orphaned_files_def)
  have "\<exists>d'. for_each (orphaned_files d) (delete_from_stores st) ?d = (Inr (), d')
    \<and> db_file_in_stores d' = filter (\<lambda>y. fx_file y \<notin> fi_id ` set (orphaned_files d)) (db_file_in_stores ?d)
    \<and> db_files d' = filter (\<lambda>g. fi_id g \<notin> fi_id ` set (orphaned_files d)) (db_files ?d)
    \<and> db_file_in_artifacts d' = db_file_in_artifacts ?d \<and> same_stores ?d d'"
  proof (rule delete_from_all_stores_run)
    show "stores_remove st ?d" using assms(1) by (simp add: stores_remove_def)
    show "\<forall>x\<in>set (db_file_in_stores ?d). fx_store x \<in> fs_id ` set (db_file_stores ?d)"
      using assms(2) by (simp add: stored_sound_def)
    show "distinct (map fi_id (orphaned_files d))"
      using assms(3) by (simp add: orphaned_files_def distinct_map_filter)
  qed (auto simp: orphaned_files_def)
  then obtain d' where d': "for_each (orphaned_files d) (delete_from_stores st) ?d = (Inr (), d')"
    "db_file_in_stores d' = filter (\<lambda>y. fx_file y \<notin> fi_id ` set (orphaned_files d)) (db_file_in_stores d)"
    "db_files d' = filter (\<lambda>g. fi_id g \<notin> fi_id ` set (orphaned_files d)) (db_files d)"
    "db_file_in_artifacts d' = db_file_in_artifacts d" by auto
  have ids: "fi_id ` set (orphaned_files d) = {i \<in> fi_id ` set (db_files d).
      i \<in> fx_file ` set (db_file_in_stores d) \<and> i \<notin> fa_file ` set (db_file_in_artifacts d)}"
    by (auto simp: orphaned_files_def)
  have stores: "db_file_in_stores d'
      = filter (\<lambda>x. fx_file x \<in> fa_file ` set (db_file_in_artifacts d)) (db_file_in_stores d)"
    unfolding d'(2) ids using assms(2) by (intro filter_cong) (auto simp: stored_sound_def)
  have files: "db_files d' = filter (\<lambda>f. fi_id f \<notin> fx_file ` set (db_file_in_stores d)
        \<or> fi_id f \<in> fa_file ` set (db_file_in_artifacts d)) (db_files d)"
    unfolding d'(3) ids by (intro filter_cong) auto
  let ?last = "fold run_hook (db_on_commit d') (d'\<lparr>db_on_commit := db_on_commit d\<rparr>)"
  have run: "transaction False (delete_files_from_stores st) d = (Inr (), ?last)"
    using d'(1) by (simp add: transaction_def delete_files_from_stores_def with_db_def orphans)
  have "file_tables_of ?last = file_tables_of (d'\<lparr>db_on_commit := db_on_commit d\<rparr>)"
    by (rule file_tables_run_hooks)
  then have "db_file_in_stores ?last = db_file_in_stores d'" "db_files ?last = db_files d'"
    "db_file_in_artifacts ?last = db_file_in_artifacts d'" by (simp_all add: file_tables_of_def)
  then show ?thesis using run stores files d'(4) by auto
qed

text \<open>
  C12: after \<open>delete_expired\<close> has run on artifacts, no store holds a file that no
  artifact has, every other file is still where it was, and what was collected is
  collected; nothing raises when the backends can remove files.
\<close>

theorem delete_expired_leaves_files_of_artifacts:
  assumes "references_sound d" and "stores_remove st d" and "stored_sound d"
    and "distinct (map fi_id (db_files d))"
  shows "\<exists>d1 d'. transaction False (delete_artifacts False dir at now) d = (Inr (), d1)
    \<and> run_delete_expired_artifacts st dir False at now True True d = (Inr False, d')
    \<and> db_file_in_stores d' = filter (\<lambda>x. fx_file x \<in> fa_file ` set (db_file_in_artifacts d1)) (db_file_in_stores d)
    \<and> db_file_in_artifacts d' = db_file_in_artifacts d1"
proof -
  obtain d1 where d1: "transaction False (delete_artifacts False dir at now) d = (Inr (), d1)" "files_kept d d1"
    using delete_artifacts_committed [OF assms(1), of dir at now] by blast
  have "stores_remove st d1" "distinct (map fi_id (db_files d1))" "stored_sound d1"
    using d1(2) assms(2-4) by (auto simp: files_kept_def stores_remove_def stored_sound_def)
  from delete_files_run [OF this(1,3,2)] d1 show ?thesis
    by (auto simp: run_delete_expired_artifacts_def seq_act_def bind_act_def ret_def files_kept_def)
qed

lemma dry_sweep: "sweep True dir at now keep d = (Inr (), d)"
proof -
  have "for_each xs (\<lambda>a. ret ()) d = (Inr (), d)" for xs :: "artifact list" and d :: db
    by (induction xs) (simp_all add: ret_def seq_act_def bind_act_def)
  then show ?thesis by (simp add: sweep_def atomic_def with_db_def)
qed

text \<open>
  C37: a dry run of \<open>delete_expired\<close> undoes what it did to artifacts, and then deletes
  the files no artifact has from the stores and the database all the same.
\<close>

theorem dry_run_deletes_files:
  assumes "stores_remove st d" and "stored_sound d" and "distinct (map fi_id (db_files d))"
  shows "\<exists>d'. run_delete_expired_artifacts st dir True at now True True d = (Inr False, d')
    \<and> transaction True (delete_artifacts True dir at now) d = (Inr (), d)
    \<and> set (db_files d') = set (db_files d) - set (orphaned_files d)"
proof -
  have "db_storage (snd (delete_artifacts True dir at now d)) = db_storage d
      \<and> fst (delete_artifacts True dir at now d) = Inr ()" for d
    by (simp add: delete_artifacts_def dry_sweep drop_full_history_def drop_metadata_def
        seq_act_def bind_act_def with_db_def modify_db_def)
  then have dry: "transaction True (delete_artifacts True dir at now) d = (Inr (), d)"
    by (simp add: transaction_def case_prod_unfold split: sum.split)
  obtain d' where "transaction False (delete_files_from_stores st) d = (Inr (), d')"
    "db_files d' = filter (\<lambda>f. fi_id f \<notin> fx_file ` set (db_file_in_stores d)
        \<or> fi_id f \<in> fa_file ` set (db_file_in_artifacts d)) (db_files d)"
    using delete_files_run [OF assms] by blast
  then show ?thesis using dry
    by (auto simp: run_delete_expired_artifacts_def seq_act_def bind_act_def ret_def orphaned_files_def)
qed

section \<open>Examples\<close>

text \<open>
  Artifact 1 does not expire and refers to 2, which has expired; 3 has expired, has
  a file, and is in a collection that does not retain it.
\<close>

definition example_artifact :: "pk \<Rightarrow> duration option \<Rightarrow> artifact" where
  "example_artifact i delay = \<lparr>ar_id = i, ar_category = ''debusine:test'', ar_workspace = 1, ar_data = [],
     ar_created_at = 0, ar_expiration_delay = delay, ar_created_by = None,
     ar_created_by_work_request = None, ar_original_artifact = None\<rparr>"

definition example_holder :: collection where
  "example_holder = \<lparr>co_id = 1, co_name = ''c'', co_category = WORKFLOW_INTERNAL,
     co_full_history_retention_period = None, co_metadata_only_retention_period = None,
     co_workspace = 1, co_retains_artifacts = RetainsNever, co_data = JObj []\<rparr>"

definition example_held :: collection_item where
  "example_held = \<lparr>ci_id = 1, ci_name = ''i'', ci_child_type = ARTIFACT, ci_category = ''debusine:test'',
     ci_parent_collection = 1, ci_parent_category = WORKFLOW_INTERNAL, ci_collection = None,
     ci_artifact = Some 3, ci_data = [], ci_created_at = 0, ci_created_by_user = 1,
     ci_created_by_workflow = None, ci_removed_at = None, ci_removed_by_user = None,
     ci_removed_by_workflow = None\<rparr>"

definition example_gc :: db where
  "example_gc = example_files\<lparr>
     db_artifacts := [example_artifact 1 None, example_artifact 2 (Some 10), example_artifact 3 (Some 10)],
     db_artifact_relations := [\<lparr>rl_artifact = 1, rl_target = 2, rl_type = EXTENDS\<rparr>],
     db_collections := [example_holder], db_items := [example_held],
     db_file_in_artifacts := [\<lparr>fa_id = 1, fa_artifact = 3, fa_path = ''data'', fa_file = 1,
       fa_complete = True, fa_content_type = None\<rparr>],
     db_file_in_stores := [\<lparr>fx_store = 1, fx_file = 1, fx_data = []\<rparr>]\<rparr>"

lemma example_gc_fields:
  "db_artifacts example_gc = [example_artifact 1 None, example_artifact 2 (Some 10), example_artifact 3 (Some 10)]"
  "db_artifact_relations example_gc = [\<lparr>rl_artifact = 1, rl_target = 2, rl_type = EXTENDS\<rparr>]"
  "db_collections example_gc = [example_holder]" "db_items example_gc = [example_held]"
  "db_file_in_artifacts example_gc = [\<lparr>fa_id = 1, fa_artifact = 3, fa_path = ''data'', fa_file = 1,
       fa_complete = True, fa_content_type = None\<rparr>]"
  "db_file_in_stores example_gc = [\<lparr>fx_store = 1, fx_file = 1, fx_data = []\<rparr>]"
  "db_file_uploads example_gc = []" "db_files example_gc = [example_file]"
  "db_file_stores example_gc = [example_store]" "db_workspaces example_gc = [example_ws]"
  by (simp_all add: example_gc_def example_files_def example_simps)

lemma example_gc_sound: "references_sound example_gc"
  by (simp add: references_sound_def artifacts_sound_def items_sound_def files_sound_def example_gc_fields
      example_artifact_def example_held_def example_holder_def manager_of_def get_collection_row_def
      get_workspace_def example_ws_def childtype_consistent_def managed_categories_def)

lemma example_stored_sound: "stored_sound example_gc"
  by (simp add: stored_sound_def example_gc_fields example_file_def example_store_def)

lemma example_stores_remove: "stores_remove example_storage d" if "db_file_stores d = [example_store]"
proof -
  have "get_entry example_storage (example_store\<lparr>fs_total_size := n\<rparr>) f = Inr (local_entry ''/srv'' f)" for n f
    by (simp add: get_entry_def example_store_def example_storage_def local_base_directory_def)
  then show ?thesis using that by (simp add: stores_remove_def removable_entries)
qed

lemma example_gc_files: "distinct (map fi_id (db_files example_gc))"
  by (simp add: example_gc_fields)


theorem delete_expired_leaves_files_of_artifacts_witness:
  "\<exists>d'. run_delete_expired_artifacts example_storage ''/up'' False 100 101 True True example_gc = (Inr False, d')
    \<and> db_file_in_stores d' = filter (\<lambda>x. fx_file x \<in> fa_file ` set (db_file_in_artifacts d'))
        (db_file_in_stores example_gc)"
  using delete_expired_leaves_files_of_artifacts [OF example_gc_sound example_stores_remove
      example_stored_sound example_gc_files, of "''/up''" 100 101]
  by (auto simp: example_gc_fields)

text \<open>The file of the third artifact, had that artifact been deleted before.\<close>

definition example_orphan :: db where
  "example_orphan = example_gc\<lparr>db_file_in_artifacts := []\<rparr>"

theorem dry_run_deletes_files_witness:
  "\<exists>d'. run_delete_expired_artifacts example_storage ''/up'' True 100 101 True True example_orphan
      = (Inr False, d')
    \<and> transaction True (delete_artifacts True ''/up'' 100 101) example_orphan = (Inr (), example_orphan)
    \<and> example_file \<in> set (db_files example_orphan) \<and> db_files d' = []"
proof -
  have orphan: "stores_remove example_storage example_orphan" "stored_sound example_orphan"
    "distinct (map fi_id (db_files example_orphan))"
    using example_stored_sound
    by (auto simp: example_orphan_def example_gc_fields stored_sound_def intro: example_stores_remove)
  have "set (orphaned_files example_orphan) = {example_file}" "db_files example_orphan = [example_file]"
    by (auto simp: orphaned_files_def example_orphan_def example_gc_fields example_file_def)
  then show ?thesis using dry_run_deletes_files [OF orphan, of "''/up''" 100 101] by auto
qed

end
