(* ===== verification/Cleanup.thy ===== *)
theory Cleanup
  imports Deletions Sweeping Progress
begin

text \<open>
  What the other deletions of \<open>delete_expired\<close> do: which work requests go, what a
  workspace takes with it, and tokens that make the command fail.
\<close>

section \<open>Which work requests are deleted\<close>









text \<open>So deleting them takes nothing else along.\<close>

lemma no_other_descendants:
  assumes "\<forall>w\<in>set ws. \<forall>c\<in>set (db_work_requests d). wr_parent c = Some (wr_id w) \<longrightarrow> wr_id c \<in> wr_id ` set ws"
  shows "with_descendants d (map wr_id ws) = wr_id ` set ws"
proof -
  have "j \<in> wr_id ` set ws" if "(row_step wr_id child_edge (db_work_requests d))\<^sup>*\<^sup>* i j" "i \<in> wr_id ` set ws" for i j
    using that by (induction rule: rtranclp_induct) (use assms in \<open>auto simp: row_step_def child_edge_def\<close>)
  then show ?thesis by (auto simp: with_descendants_def set_cte_union)
qed





section \<open>Tokens\<close>

text \<open>
  C40: a worker that has not used its activation token before it expired makes the
  deletion of expired tokens raise, every time, and no token is ever deleted.
\<close>

theorem expired_activation_token_stops_deletion:
  assumes "w \<in> set (db_workers d)" and "wk_worker_type w \<noteq> CELERY" and "wk_token w = None"
    and "wk_activation_token w = Some (tk_id t)" and "t \<in> set (db_tokens d)"
    and "tk_expire_at t = Some e" and "e < at"
  shows "\<exists>x. run_delete_expired_tokens False at d = (Inl x, d)"
proof -
  have t: "t \<in> set (expired_tokens d at)" using assms(5-7) by (simp add: expired_tokens_def)
  let ?gone = "tk_id ` set (expired_tokens d at)"
  have "\<not> celery_or_token (w\<lparr>wk_activation_token := forget_key ?gone (wk_activation_token w)\<rparr>)"
    using assms(2-4) t by (simp add: celery_or_token_def forget_key_def)
  then have "list_ex (\<lambda>w. \<not> celery_or_token w)
      (map (\<lambda>w. w\<lparr>wk_activation_token := forget_key ?gone (wk_activation_token w)\<rparr>) (db_workers d))"
    using assms(1) by (auto simp: list_ex_iff)
  moreover have "expired_tokens d at \<noteq> []" using t by auto
  ultimately show ?thesis
    by (simp add: run_delete_expired_tokens_def atomic_def with_db_def Let_def delete_tokens_def raise_def)
qed

section \<open>Workspaces\<close>

text \<open>What belongs to other workspaces, and refers to nothing in the ones that go.\<close>

definition workspaces_closed :: "db \<Rightarrow> pk set \<Rightarrow> bool" where
  "workspaces_closed d W \<longleftrightarrow>
     (\<forall>c\<in>set (db_work_requests d). \<forall>w\<in>set (db_work_requests d).
        wr_parent c = Some (wr_id w) \<longrightarrow> wr_workspace w \<in> W \<longrightarrow> wr_workspace c \<in> W)
     \<and> (\<forall>w\<in>set (db_work_requests d). \<forall>c\<in>set (db_collections d).
        wr_internal_collection w = Some (co_id c) \<longrightarrow> co_workspace c \<in> W \<longrightarrow> wr_workspace w \<in> W)
     \<and> (\<forall>f\<in>set (db_file_in_artifacts d). artifact_in W d (fa_artifact f) \<longrightarrow>
        fa_id f \<notin> fu_file_in_artifact ` set (db_file_uploads d))"

definition unique_keys :: "db \<Rightarrow> bool" where
  "unique_keys d \<longleftrightarrow> distinct (map wr_id (db_work_requests d)) \<and> distinct (map co_id (db_collections d))
     \<and> distinct (map ar_id (db_artifacts d)) \<and> distinct (map fa_id (db_file_in_artifacts d))"

lemma tbl_get_same:
  assumes "distinct (map key t)" and "r \<in> set t"
  shows "tbl_get key (key r) t = Some r"
  using assms tbl_get_iff by metis

lemma requests_with_descendants:
  assumes "workspaces_closed d W" and "distinct (map wr_id (db_work_requests d))"
  shows "with_descendants d (map wr_id (filter (\<lambda>w. wr_workspace w \<in> W) (db_work_requests d)))
    = wr_id ` {w\<in>set (db_work_requests d). wr_workspace w \<in> W}"
proof -
  let ?ws = "filter (\<lambda>w. wr_workspace w \<in> W) (db_work_requests d)"
  have "\<forall>w\<in>set ?ws. \<forall>c\<in>set (db_work_requests d). wr_parent c = Some (wr_id w) \<longrightarrow> wr_id c \<in> wr_id ` set ?ws"
    using assms(1) by (auto simp: workspaces_closed_def)
  from no_other_descendants [OF this] show ?thesis by simp
qed

text \<open>The deletions one after the other, for a fixed set of workspaces.\<close>

lemma delete_workspaces_run:
  assumes "workspaces_closed d W" and "unique_keys d"
  shows "if provider_account_used d (assets_of d W)
    then \<exists>d'. delete_workspaces (\<lambda>_. W) d = (Inl (ProtectedError ''Asset''), d')
    else \<exists>d'. delete_workspaces (\<lambda>_. W) d = (Inr (), d')
    \<and> db_workspaces d' = filter (\<lambda>w. ws_id w \<notin> W) (db_workspaces d)
    \<and> map wr_id (db_work_requests d') = map wr_id (filter (\<lambda>w. wr_workspace w \<notin> W) (db_work_requests d))
    \<and> db_collections d' = filter (\<lambda>c. co_workspace c \<notin> W) (db_collections d)
    \<and> map ar_id (db_artifacts d') = map ar_id (filter (\<lambda>a. ar_workspace a \<notin> W) (db_artifacts d))
    \<and> map ci_id (db_items d') = map ci_id (filter (\<lambda>i. \<not> in_workspaces W d i) (db_items d))
    \<and> db_file_in_artifacts d' = filter (\<lambda>f. \<not> artifact_in W d (fa_artifact f)) (db_file_in_artifacts d)
    \<and> db_files d' = db_files d \<and> db_file_in_stores d' = db_file_in_stores d"
proof -
  have keys: "distinct (map wr_id (db_work_requests d))" "distinct (map co_id (db_collections d))"
    "distinct (map ar_id (db_artifacts d))" "distinct (map fa_id (db_file_in_artifacts d))"
    using assms(2) by (simp_all add: unique_keys_def)
  have closed: "workspaces_closed d W" by (rule assms(1))
  define d1 where "d1 = snd (delete_workflow_templates (\<lambda>_. W) d)"
  have run1: "delete_workflow_templates (\<lambda>_. W) d = (Inr (), d1)"
    by (simp add: d1_def delete_workflow_templates_def modify_db_def)
  obtain f where f: "\<And>w. wr_id (f w) = wr_id w \<and> wr_workspace (f w) = wr_workspace w
      \<and> wr_parent (f w) = wr_parent w \<and> wr_internal_collection (f w) = wr_internal_collection w"
    and requests1: "db_work_requests d1 = map f (db_work_requests d)"
  proof
    let ?gone = "wt_id ` set (filter (\<lambda>t. wt_workspace t \<in> W) (db_workflow_templates d))"
    let ?f = "\<lambda>w. w\<lparr>wr_workflow_template := forget_key ?gone (wr_workflow_template w)\<rparr>"
    show "wr_id (?f w) = wr_id w \<and> wr_workspace (?f w) = wr_workspace w
      \<and> wr_parent (?f w) = wr_parent w \<and> wr_internal_collection (?f w) = wr_internal_collection w" for w
      by simp
    show "db_work_requests d1 = map ?f (db_work_requests d)"
      by (simp add: d1_def delete_workflow_templates_def modify_db_def Let_def)
  qed
  have templates1: "wt_workspace t \<notin> W" if "t \<in> set (db_workflow_templates d1)" for t
    using that by (auto simp: d1_def delete_workflow_templates_def modify_db_def Let_def)
  have same1: "db_items d1 = db_items d" "db_collections d1 = db_collections d"
    "db_artifacts d1 = db_artifacts d" "db_file_in_artifacts d1 = db_file_in_artifacts d"
    "db_file_uploads d1 = db_file_uploads d" "db_workspaces d1 = db_workspaces d"
    "db_files d1 = db_files d" "db_file_in_stores d1 = db_file_in_stores d"
    by (simp_all add: d1_def delete_workflow_templates_def modify_db_def Let_def)
  define d2 where "d2 = d1\<lparr>db_items := filter (\<lambda>i. \<not> in_workspaces W d i) (db_items d)\<rparr>"
  have "in_workspaces W d1 = in_workspaces W d"
    by (simp add: fun_eq_iff in_workspaces_def get_collection_row_def [abs_def] get_artifact_def [abs_def] same1)
  then have run2: "delete_items (\<lambda>d. in_workspaces W d) d1 = (Inr (), d2)"
    by (simp add: delete_items_def modify_db_def d2_def same1)
  let ?gone = "wr_id ` {w\<in>set (db_work_requests d). wr_workspace w \<in> W}"
  have "with_descendants d2 (map wr_id (filter (\<lambda>w. wr_workspace w \<in> W) (db_work_requests d2)))
      = wr_id ` {w\<in>set (db_work_requests d2). wr_workspace w \<in> W}"
  proof (rule requests_with_descendants)
    show "distinct (map wr_id (db_work_requests d2))"
      using keys(1) f by (simp add: d2_def requests1 comp_def)
    have "artifact_in W d2 = artifact_in W d"
      by (simp add: fun_eq_iff artifact_in_def get_artifact_def d2_def same1)
    then show "workspaces_closed d2 W"
      using closed f by (simp add: workspaces_closed_def d2_def requests1 same1)
  qed
  also have "{w\<in>set (db_work_requests d2). wr_workspace w \<in> W} = f ` {w\<in>set (db_work_requests d). wr_workspace w \<in> W}"
    using f by (auto simp: d2_def requests1)
  also have "wr_id ` f ` {w\<in>set (db_work_requests d). wr_workspace w \<in> W} = ?gone"
    using f by (simp add: image_image)
  finally have gone: "with_descendants d2 (map wr_id (filter (\<lambda>w. wr_workspace w \<in> W) (db_work_requests d2))) = ?gone" .
  define d3 where "d3 = forget_work_requests ?gone d2"
  have run3: "with_db (\<lambda>d. delete_work_requests (map wr_id (filter (\<lambda>w. wr_workspace w \<in> W)
      (db_work_requests d)))) d2 = (Inr (), d3)"
    by (simp add: with_db_def delete_work_requests_def modify_db_def gone d3_def)
  have kept3: "wr_workspace w \<notin> W \<and> (\<exists>v\<in>set (db_work_requests d).
      wr_id w = wr_id v \<and> wr_workspace w = wr_workspace v \<and> wr_internal_collection w = wr_internal_collection v)"
    if "w \<in> set (db_work_requests d3)" for w
    using that f by (auto simp: d3_def forget_work_requests_def d2_def requests1)
  have requests3: "map wr_id (db_work_requests d3) = map wr_id (filter (\<lambda>w. wr_workspace w \<notin> W) (db_work_requests d))"
  proof -
    have "map wr_id (db_work_requests d3) = filter (\<lambda>i. i \<notin> ?gone) (map wr_id (db_work_requests d))"
      using f by (simp add: d3_def forget_work_requests_def d2_def requests1 comp_def filter_map)
    also have "\<dots> = map wr_id (filter (\<lambda>w. wr_id w \<notin> ?gone) (db_work_requests d))"
      by (simp add: filter_map comp_def)
    also have "filter (\<lambda>w. wr_id w \<notin> ?gone) (db_work_requests d) = filter (\<lambda>w. wr_workspace w \<notin> W) (db_work_requests d)"
      using same_id [OF keys(1)] by (intro filter_cong) auto
    finally show ?thesis .
  qed
  have items3: "map ci_id (db_items d3) = map ci_id (filter (\<lambda>i. \<not> in_workspaces W d i) (db_items d))"
    "\<And>i. i \<in> set (db_items d3) \<Longrightarrow> \<exists>j\<in>set (db_items d). \<not> in_workspaces W d j
      \<and> ci_parent_collection i = ci_parent_collection j \<and> ci_collection i = ci_collection j \<and> ci_artifact i = ci_artifact j"
    by (auto simp: d3_def forget_work_requests_def d2_def comp_def)
  obtain g where g: "\<And>a. ar_id (g a) = ar_id a \<and> ar_workspace (g a) = ar_workspace a"
    and artifacts3: "db_artifacts d3 = map g (db_artifacts d)"
  proof
    let ?g = "\<lambda>a. a\<lparr>ar_created_by_work_request := forget_key ?gone (ar_created_by_work_request a)\<rparr>"
    show "ar_id (?g a) = ar_id a \<and> ar_workspace (?g a) = ar_workspace a" for a by simp
    show "db_artifacts d3 = map ?g (db_artifacts d)"
      by (simp add: d3_def forget_work_requests_def d2_def same1)
  qed
  have same3: "db_collections d3 = db_collections d" "db_file_in_artifacts d3 = db_file_in_artifacts d"
    "db_file_uploads d3 = db_file_uploads d" "db_workspaces d3 = db_workspaces d" "db_files d3 = db_files d"
    "db_file_in_stores d3 = db_file_in_stores d" "db_workflow_templates d3 = db_workflow_templates d1"
    by (simp_all add: d3_def forget_work_requests_def d2_def same1)
  let ?colls = "co_id ` set (filter (\<lambda>c. co_workspace c \<in> W) (db_collections d3))"
  have in_W: "in_workspaces W d i" if "c \<in> set (db_collections d)" "co_workspace c \<in> W"
    "ci_parent_collection i = co_id c \<or> ci_collection i = Some (co_id c)" for i c
    using that tbl_get_same [OF keys(2) that(1)] by (auto simp: in_workspaces_def get_collection_row_def)
  have "\<not> collection_used d3 ?colls"
  proof -
    have "\<not> (ci_parent_collection i \<in> ?colls \<or> (\<exists>c\<in>?colls. ci_collection i = Some c))"
      if "i \<in> set (db_items d3)" for i
      using items3(2) [OF that] in_W by (auto simp: same3)
    moreover have "wr_internal_collection w \<noteq> Some c" if w: "w \<in> set (db_work_requests d3)" and "c \<in> ?colls" for w c
      using kept3 [OF w] that(2) closed by (auto simp: workspaces_closed_def same3)
    ultimately show ?thesis by (auto simp: collection_used_def list_ex_iff)
  qed
  define d4 where "d4 = d3\<lparr>db_collections := filter (\<lambda>c. co_id c \<notin> ?colls) (db_collections d3),
      db_match_constraints := filter (\<lambda>m. mc_collection m \<notin> ?colls) (db_match_constraints d3)\<rparr>"
  have run4: "delete_collections (\<lambda>d c. co_workspace c \<in> W) d3 = (Inr (), d4)"
    using \<open>\<not> collection_used d3 ?colls\<close>
    by (simp add: delete_collections_def with_db_def Let_def modify_db_def d4_def)
  have collections4: "db_collections d4 = filter (\<lambda>c. co_workspace c \<notin> W) (db_collections d)"
    using same_id [OF keys(2)] by (auto simp: d4_def same3 intro!: filter_cong)
  have artifact_in: "artifact_in W d' = artifact_in W d" if "db_artifacts d' = map g (db_artifacts d)" for d'
  proof -
    have "tbl_get ar_id i (map g xs) = map_option g (tbl_get ar_id i xs)" for i xs
      using g by (induction xs) auto
    then show ?thesis using that g by (auto simp: fun_eq_iff artifact_in_def get_artifact_def split: option.splits)
  qed
  have artifacts4: "db_artifacts d4 = map g (db_artifacts d)" by (simp add: d4_def artifacts3)
  have same4: "db_items d4 = db_items d3" "db_work_requests d4 = db_work_requests d3"
    "db_file_in_artifacts d4 = db_file_in_artifacts d" "db_file_uploads d4 = db_file_uploads d"
    "db_workspaces d4 = db_workspaces d" "db_files d4 = db_files d"
    "db_file_in_stores d4 = db_file_in_stores d" "db_workflow_templates d4 = db_workflow_templates d1"
    by (simp_all add: d4_def same3)
  define d5 where "d5 = d4\<lparr>db_file_in_artifacts :=
      filter (\<lambda>f. \<not> artifact_in W d (fa_artifact f)) (db_file_in_artifacts d)\<rparr>"
  have run5: "delete_files_in_artifacts (\<lambda>_. W) d4 = (Inr (), d5)"
  proof -
    let ?files = "filter (\<lambda>f. artifact_in W d (fa_artifact f)) (db_file_in_artifacts d)"
    have "\<not> list_ex (\<lambda>u. fu_file_in_artifact u \<in> fa_id ` set ?files) (db_file_uploads d)"
    proof
      assume "list_ex (\<lambda>u. fu_file_in_artifact u \<in> fa_id ` set ?files) (db_file_uploads d)"
      then obtain u f where "u \<in> set (db_file_uploads d)" "f \<in> set ?files" "fu_file_in_artifact u = fa_id f"
        unfolding list_ex_iff by blast
      then have "fa_id f \<in> fu_file_in_artifact ` set (db_file_uploads d)" by (metis imageI)
      with \<open>f \<in> set ?files\<close> closed show False by (auto simp: workspaces_closed_def)
    qed
    moreover have "filter (\<lambda>f. fa_id f \<notin> fa_id ` set ?files) (db_file_in_artifacts d)
        = filter (\<lambda>f. \<not> artifact_in W d (fa_artifact f)) (db_file_in_artifacts d)"
      using same_id [OF keys(4)] by (intro filter_cong) auto
    ultimately show ?thesis
      by (simp add: delete_files_in_artifacts_def with_db_def Let_def modify_db_def same4 d5_def
          artifact_in [OF artifacts4] del: set_filter)
  qed
  define d6 where "d6 = d5\<lparr>db_artifact_relations := filter (\<lambda>r. \<not> (artifact_in W d (rl_artifact r)
      \<or> artifact_in W d (rl_target r))) (db_artifact_relations d5)\<rparr>"
  have artifacts5: "db_artifacts d5 = map g (db_artifacts d)" by (simp add: d5_def artifacts4)
  have run6: "delete_relations_of (\<lambda>_. W) d5 = (Inr (), d6)"
    by (simp add: delete_relations_of_def modify_db_def d6_def artifact_in [OF artifacts5])
  let ?arts = "ar_id ` set (filter (\<lambda>a. ar_workspace a \<in> W) (db_artifacts d6))"
  have artifacts6: "db_artifacts d6 = map g (db_artifacts d)" by (simp add: d6_def artifacts5)
  have arts: "?arts = ar_id ` {a\<in>set (db_artifacts d). ar_workspace a \<in> W}"
  proof -
    have "set (filter (\<lambda>a. ar_workspace a \<in> W) (db_artifacts d6)) = g ` {a\<in>set (db_artifacts d). ar_workspace a \<in> W}"
      using g by (auto simp: artifacts6)
    then show ?thesis using g by (simp add: image_image)
  qed
  have row: "artifact_in W d i" if "i \<in> ?arts" for i
    using that tbl_get_same [OF keys(3)] unfolding arts by (auto simp: artifact_in_def get_artifact_def)
  have unused: "\<not> list_ex (\<lambda>i. \<exists>a\<in>?arts. ci_artifact i = Some a) (db_items d6)"
    "\<not> list_ex (\<lambda>f. fa_artifact f \<in> ?arts) (db_file_in_artifacts d6)"
    "\<not> list_ex (\<lambda>r. rl_artifact r \<in> ?arts \<or> rl_target r \<in> ?arts) (db_artifact_relations d6)"
  proof -
    have "ci_artifact i \<noteq> Some a" if i: "i \<in> set (db_items d6)" and a: "a \<in> ?arts" for i a
    proof
      assume "ci_artifact i = Some a"
      moreover obtain j where "\<not> in_workspaces W d j" "ci_artifact i = ci_artifact j"
        using items3(2) [of i] i by (auto simp: d6_def d5_def same4)
      ultimately show False using row [OF a] by (auto simp: in_workspaces_def artifact_in_def split: option.splits)
    qed
    then show "\<not> list_ex (\<lambda>i. \<exists>a\<in>?arts. ci_artifact i = Some a) (db_items d6)" by (auto simp: list_ex_iff)
    show "\<not> list_ex (\<lambda>f. fa_artifact f \<in> ?arts) (db_file_in_artifacts d6)"
      using row unfolding list_ex_iff by (auto simp: d6_def d5_def)
    show "\<not> list_ex (\<lambda>r. rl_artifact r \<in> ?arts \<or> rl_target r \<in> ?arts) (db_artifact_relations d6)"
      using row unfolding list_ex_iff by (auto simp: d6_def)
  qed
  define d7 where "d7 = d6\<lparr>db_artifacts := map (\<lambda>a. a\<lparr>ar_original_artifact := forget_key ?arts (ar_original_artifact a)\<rparr>)
      (filter (\<lambda>a. ar_id a \<notin> ?arts) (db_artifacts d6))\<rparr>"
  have run7: "delete_artifacts_of (\<lambda>_. W) d6 = (Inr (), d7)"
    using unused by (simp add: delete_artifacts_of_def with_db_def Let_def modify_db_def d7_def del: set_filter)
  have artifacts7: "map ar_id (db_artifacts d7) = map ar_id (filter (\<lambda>a. ar_workspace a \<notin> W) (db_artifacts d))"
    "\<And>a. a \<in> set (db_artifacts d7) \<Longrightarrow> ar_workspace a \<notin> W"
  proof -
    have "map ar_id (db_artifacts d7) = filter (\<lambda>i. i \<notin> ?arts) (map ar_id (db_artifacts d))"
      using g by (simp add: d7_def artifacts6 comp_def filter_map del: set_filter)
    also have "\<dots> = map ar_id (filter (\<lambda>a. ar_id a \<notin> ?arts) (db_artifacts d))"
      by (simp add: filter_map comp_def)
    also have "filter (\<lambda>a. ar_id a \<notin> ?arts) (db_artifacts d) = filter (\<lambda>a. ar_workspace a \<notin> W) (db_artifacts d)"
      unfolding arts using same_id [OF keys(3)] by (intro filter_cong) auto
    finally show "map ar_id (db_artifacts d7) = map ar_id (filter (\<lambda>a. ar_workspace a \<notin> W) (db_artifacts d))" .
    show "ar_workspace a \<notin> W" if "a \<in> set (db_artifacts d7)" for a
      using that by (auto simp: d7_def)
  qed
  define d8 where "d8 = snd (delete_asset_usages (\<lambda>_. W) d7)"
  have run8: "delete_asset_usages (\<lambda>_. W) d7 = (Inr (), d8)"
    by (simp add: d8_def delete_asset_usages_def modify_db_def)
  have accounts8: "provider_account_used d8 (assets_of d8 W) = provider_account_used d (assets_of d W)"
  proof -
    have "(db_assets d8, db_file_stores d8, db_worker_pools d8) = (db_assets d7, db_file_stores d7, db_worker_pools d7)"
      by (simp add: d8_def delete_asset_usages_def modify_db_def without_asset_usages_def)
    also have "\<dots> = (db_assets d3, db_file_stores d3, db_worker_pools d3)" by (simp add: d7_def d6_def d5_def d4_def)
    also have "\<dots> = (db_assets d, db_file_stores d, db_worker_pools d)"
      by (simp add: d3_def forget_work_requests_def d2_def d1_def delete_workflow_templates_def modify_db_def Let_def)
    finally show ?thesis by (simp add: provider_account_used_def assets_of_def)
  qed
  show ?thesis
  proof (cases "provider_account_used d (assets_of d W)")
    case True
    then have "delete_assets (\<lambda>_. W) d8 = (Inl (ProtectedError ''Asset''), d8)"
      using accounts8 by (simp add: delete_assets_def with_db_def raise_def)
    then have "delete_workspaces (\<lambda>_. W) d = (Inl (ProtectedError ''Asset''), d8)"
      unfolding delete_workspaces_def
      by (simp only: seq_act_def bind_act_def run1 run2 run3 run4 run5 run6 run7 run8 prod.case sum.case)
    with True show ?thesis by auto
  next
    case False
  then have free8: "\<not> provider_account_used d8 (assets_of d8 W)" using accounts8 by simp
  define d10 where "d10 = snd (delete_workspace_roles (\<lambda>_. W) (snd (delete_assets (\<lambda>_. W) d8)))"
  have run9: "seq_act (delete_assets (\<lambda>_. W)) (seq_act (delete_workspace_roles (\<lambda>_. W)) m) d8 = m d10"
    for m :: "unit dbact"
  proof -
    have "fst (delete_assets (\<lambda>_. W) d8) = Inr ()"
      using free8 by (simp add: delete_assets_def with_db_def modify_db_def Let_def)
    then show ?thesis
      by (cases "delete_assets (\<lambda>_. W) d8")
        (simp add: d10_def delete_workspace_roles_def seq_act_def bind_act_def modify_db_def)
  qed
  have same10: "db_artifacts d10 = db_artifacts d7" "db_collections d10 = db_collections d4"
    "db_workflow_templates d10 = db_workflow_templates d1" "db_work_requests d10 = db_work_requests d3"
    "db_items d10 = db_items d3" "db_file_in_artifacts d10 = db_file_in_artifacts d5"
    "db_workspaces d10 = db_workspaces d" "db_files d10 = db_files d" "db_file_in_stores d10 = db_file_in_stores d"
    using free8 by (simp_all add: d10_def delete_assets_def delete_workspace_roles_def with_db_def
        modify_db_def Let_def) (simp_all add: d8_def delete_asset_usages_def modify_db_def
        without_asset_usages_def d7_def d6_def d5_def same4)
  have assets10: "as_workspace a \<noteq> Some w" if "a \<in> set (db_assets d10)" "w \<in> W" for a w
    using that free8 by (auto simp: d10_def delete_assets_def delete_workspace_roles_def with_db_def
        modify_db_def Let_def without_asset_usages_def assets_of_def)
  have "\<not> workspace_used d10 W"
    using artifacts7(2) assets10 templates1 kept3
    by (auto simp: workspace_used_def list_ex_iff same10 collections4)
  then obtain d' where run11: "delete_workspace_rows (\<lambda>_. W) d10 = (Inr (), d')"
    "db_workspaces d' = filter (\<lambda>w. ws_id w \<notin> W) (db_workspaces d)"
    "db_work_requests d' = db_work_requests d3" "db_collections d' = db_collections d4"
    "db_artifacts d' = db_artifacts d7" "db_items d' = db_items d3"
    "db_file_in_artifacts d' = db_file_in_artifacts d5" "db_files d' = db_files d"
    "db_file_in_stores d' = db_file_in_stores d"
    by (simp add: delete_workspace_rows_def with_db_def modify_db_def Let_def without_asset_usages_def same10)
  have "delete_workspaces (\<lambda>_. W) d = (Inr (), d')"
    unfolding delete_workspaces_def
    by (simp only: seq_act_def bind_act_def run1 run2 run3 run4 run5 run6 run7 run8 prod.case sum.case
        run9 [unfolded seq_act_def bind_act_def] run11(1))
  with False show ?thesis
    using run11(2-) requests3 collections4 artifacts7(1) items3(1) by (auto simp: d5_def)
  qed
qed

text \<open>
  The query for the workspaces finds the same ones throughout: without its work
  requests a workspace has expired all the more.
\<close>

definition expired_ids :: "time \<Rightarrow> db \<Rightarrow> pk set" where
  "expired_ids at d = ws_id ` set (expired_workspaces at d)"

definition completions :: "db \<Rightarrow> (pk \<times> time option) list" where
  "completions d = map (\<lambda>r. (wr_workspace r, wr_completed_at r)) (db_work_requests d)"

lemma last_completion_alt:
  "last_completion d w = fold max (List.map_filter snd (filter (\<lambda>p. fst p = ws_id w) (completions d))) (ws_created_at w)"
  by (simp add: last_completion_def completions_def filter_map List.map_filter_def comp_def)

lemma expired_ids_same:
  assumes "db_workspaces d' = db_workspaces d" and "completions d' = completions d"
  shows "expired_ids at d' = expired_ids at d"
proof -
  have "expiration_time d' = expiration_time d"
    by (simp add: fun_eq_iff expiration_time_def last_completion_alt assms)
  then show ?thesis by (simp add: expired_ids_def expired_workspaces_def assms)
qed

lemma fold_max_start: "m \<le> fold max xs (m :: int)"
  by (induction xs arbitrary: m) (auto intro: order_trans [OF max.cobounded2])

lemma expired_ids_without_requests:
  assumes "db_workspaces d' = db_workspaces d" and "W = expired_ids at d" and "distinct (map ws_id (db_workspaces d))"
    and "completions d' = filter (\<lambda>p. fst p \<notin> W) (completions d)"
  shows "expired_ids at d' = W"
proof -
  have others: "last_completion d' w = last_completion d w" if "ws_id w \<notin> W" for w
  proof -
    have "filter (\<lambda>p. fst p = ws_id w) (completions d') = filter (\<lambda>p. fst p = ws_id w) (completions d)"
      unfolding assms(4) filter_filter using that by (intro filter_cong) auto
    then show ?thesis by (simp add: last_completion_alt)
  qed
  have gone: "last_completion d' w \<le> last_completion d w" if "ws_id w \<in> W" for w
  proof -
    have "filter (\<lambda>p. fst p = ws_id w) (completions d') = []"
      unfolding assms(4) filter_filter using that by (auto simp: filter_empty_conv)
    then show ?thesis using fold_max_start by (simp add: last_completion_alt List.map_filter_simps)
  qed
  have "w \<in> set (expired_workspaces at d') \<longleftrightarrow> w \<in> set (expired_workspaces at d)"
    if "w \<in> set (db_workspaces d)" for w
  proof (cases "ws_id w \<in> W")
    case True
    then obtain v where "v \<in> set (expired_workspaces at d)" "ws_id v = ws_id w"
      unfolding assms(2) expired_ids_def by auto
    moreover from this have "v = w"
      using same_id [OF assms(3) _ that] by (auto simp: expired_workspaces_def)
    ultimately have "w \<in> set (expired_workspaces at d)" by simp
    with gone [OF True] that assms(1) show ?thesis
      by (auto simp: expired_workspaces_def expiration_time_def split: option.splits)
  next
    case False
    then show ?thesis
      using others [OF False] assms(1)
      by (simp add: expired_workspaces_def expiration_time_def split: option.split)
  qed
  then have "set (expired_workspaces at d') = set (expired_workspaces at d)"
    using assms(1) by (auto simp: expired_workspaces_def)
  then show ?thesis by (simp add: expired_ids_def assms(2))
qed

lemma seq_same:
  assumes "a d = b d" and "\<And>x d'. b d = (Inr x, d') \<Longrightarrow> m d' = k d'"
  shows "seq_act a m d = seq_act b k d"
proof -
  obtain r d' where run: "b d = (r, d')" by (rule prod.exhaust)
  show ?thesis
  proof (cases r)
    case (Inl e)
    then show ?thesis by (simp add: seq_act_def bind_act_def assms(1) run)
  next
    case (Inr x)
    then have "m d' = k d'" using assms(2) run by blast
    then show ?thesis by (simp add: seq_act_def bind_act_def assms(1) run Inr)
  qed
qed

definition steady :: "time \<Rightarrow> pk set \<Rightarrow> db \<Rightarrow> bool" where
  "steady at W d \<longleftrightarrow> expired_ids at d = W"

lemma steady_same: "steady at W d \<Longrightarrow> db_workspaces d' = db_workspaces d \<Longrightarrow> completions d' = completions d \<Longrightarrow>
    steady at W d'"
  unfolding steady_def using expired_ids_same by metis

lemmas workspace_steps = delete_workflow_templates_def delete_items_def delete_collections_def
  delete_files_in_artifacts_def delete_relations_of_def delete_artifacts_of_def delete_asset_usages_def
  delete_assets_def delete_workspace_roles_def delete_workspace_rows_def

lemma steady_steps:
  assumes "steady at W d"
  shows "delete_workflow_templates (expired_ids at) d = delete_workflow_templates (\<lambda>_. W) d"
    and "delete_items (\<lambda>d. in_workspaces (expired_ids at d) d) d = delete_items (\<lambda>d. in_workspaces W d) d"
    and "delete_collections (\<lambda>d c. co_workspace c \<in> expired_ids at d) d = delete_collections (\<lambda>d c. co_workspace c \<in> W) d"
    and "delete_files_in_artifacts (expired_ids at) d = delete_files_in_artifacts (\<lambda>_. W) d"
    and "delete_relations_of (expired_ids at) d = delete_relations_of (\<lambda>_. W) d"
    and "delete_artifacts_of (expired_ids at) d = delete_artifacts_of (\<lambda>_. W) d"
    and "delete_asset_usages (expired_ids at) d = delete_asset_usages (\<lambda>_. W) d"
    and "delete_assets (expired_ids at) d = delete_assets (\<lambda>_. W) d"
    and "delete_workspace_roles (expired_ids at) d = delete_workspace_roles (\<lambda>_. W) d"
    and "delete_workspace_rows (expired_ids at) d = delete_workspace_rows (\<lambda>_. W) d"
  using assms by (simp_all add: steady_def workspace_steps modify_db_def with_db_def Let_def)

lemma steady_kept:
  assumes "steady at W d"
  shows "delete_workflow_templates (\<lambda>_. W) d = (Inr x, d') \<Longrightarrow> steady at W d'"
    and "delete_items P d = (Inr x, d') \<Longrightarrow> steady at W d'"
    and "delete_collections Q d = (Inr x, d') \<Longrightarrow> steady at W d'"
    and "delete_files_in_artifacts (\<lambda>_. W) d = (Inr x, d') \<Longrightarrow> steady at W d'"
    and "delete_relations_of (\<lambda>_. W) d = (Inr x, d') \<Longrightarrow> steady at W d'"
    and "delete_artifacts_of (\<lambda>_. W) d = (Inr x, d') \<Longrightarrow> steady at W d'"
    and "delete_asset_usages (\<lambda>_. W) d = (Inr x, d') \<Longrightarrow> steady at W d'"
    and "delete_assets (\<lambda>_. W) d = (Inr x, d') \<Longrightarrow> steady at W d'"
    and "delete_workspace_roles (\<lambda>_. W) d = (Inr x, d') \<Longrightarrow> steady at W d'"
  using steady_same [OF assms]
  by (auto simp: workspace_steps modify_db_def with_db_def Let_def raise_def completions_def comp_def
      without_asset_usages_def split: if_splits)

lemma seq_steady:
  assumes "\<And>d. steady at W d \<Longrightarrow> a d = b d" and "\<And>d x d'. steady at W d \<Longrightarrow> b d = (Inr x, d') \<Longrightarrow> steady at W d'"
    and "\<And>d. steady at W d \<Longrightarrow> m d = k d" and "steady at W d"
  shows "seq_act a m d = seq_act b k d"
proof (rule seq_same)
  show "a d = b d" by (rule assms(1) [OF assms(4)])
  fix x d'
  assume "b d = (Inr x, d')"
  then have "steady at W d'" by (rule assms(2) [OF assms(4)])
  then show "m d' = k d'" by (rule assms(3))
qed

lemma steady_requests:
  assumes "steady at W d" and "workspaces_closed d W" and "distinct (map wr_id (db_work_requests d))"
    and "distinct (map ws_id (db_workspaces d))"
    and "with_db (\<lambda>d. delete_work_requests (map wr_id (filter (\<lambda>w. wr_workspace w \<in> W) (db_work_requests d)))) d
      = (Inr x, d')"
  shows "steady at W d'"
proof -
  let ?gone = "wr_id ` {w\<in>set (db_work_requests d). wr_workspace w \<in> W}"
  have d': "d' = forget_work_requests ?gone d"
    using assms(5) by (simp add: with_db_def delete_work_requests_def modify_db_def
        requests_with_descendants [OF assms(2,3)])
  have "filter (\<lambda>w. wr_id w \<notin> ?gone) (db_work_requests d) = filter (\<lambda>w. wr_workspace w \<notin> W) (db_work_requests d)"
    using same_id [OF assms(3)] by (intro filter_cong) auto
  then have "completions d' = filter (\<lambda>p. fst p \<notin> W) (completions d)"
    by (simp add: d' completions_def forget_work_requests_def comp_def filter_map)
  moreover have "db_workspaces d' = db_workspaces d" by (simp add: d' forget_work_requests_def)
  ultimately show ?thesis
    using expired_ids_without_requests [of d' d W at] assms(1,4) by (simp add: steady_def)
qed

lemma delete_workspaces_steady:
  assumes "steady at W d" and "workspaces_closed d W" and "unique_keys d" and "distinct (map ws_id (db_workspaces d))"
  shows "delete_workspaces (expired_ids at) d = delete_workspaces (\<lambda>_. W) d"
proof -
  let ?m = "seq_act (delete_collections (\<lambda>d c. co_workspace c \<in> expired_ids at d))
      (seq_act (delete_files_in_artifacts (expired_ids at)) (seq_act (delete_relations_of (expired_ids at))
      (seq_act (delete_artifacts_of (expired_ids at)) (seq_act (delete_asset_usages (expired_ids at))
      (seq_act (delete_assets (expired_ids at)) (seq_act (delete_workspace_roles (expired_ids at))
        (delete_workspace_rows (expired_ids at))))))))"
  let ?k = "seq_act (delete_collections (\<lambda>d c. co_workspace c \<in> W))
      (seq_act (delete_files_in_artifacts (\<lambda>_. W)) (seq_act (delete_relations_of (\<lambda>_. W))
      (seq_act (delete_artifacts_of (\<lambda>_. W)) (seq_act (delete_asset_usages (\<lambda>_. W))
      (seq_act (delete_assets (\<lambda>_. W)) (seq_act (delete_workspace_roles (\<lambda>_. W))
        (delete_workspace_rows (\<lambda>_. W))))))))"
  let ?requests = "\<lambda>ws. with_db (\<lambda>d. delete_work_requests (map wr_id (filter (\<lambda>w. wr_workspace w \<in> ws d)
      (db_work_requests d))))"
  have tail: "?m d = ?k d" if "steady at W d" for d
    using that
    by (intro seq_steady [OF steady_steps(3) steady_kept(3)] seq_steady [OF steady_steps(4) steady_kept(4)]
        seq_steady [OF steady_steps(5) steady_kept(5)] seq_steady [OF steady_steps(6) steady_kept(6)]
        seq_steady [OF steady_steps(7) steady_kept(7)] seq_steady [OF steady_steps(8) steady_kept(8)]
        seq_steady [OF steady_steps(9) steady_kept(9)] steady_steps(10))
  have second: "seq_act (delete_items (\<lambda>d. in_workspaces (expired_ids at d) d)) m d'
      = seq_act (delete_items (\<lambda>d. in_workspaces W d)) k d'"
    if "steady at W d'" "\<And>d2. d2 = d'\<lparr>db_items := db_items d2\<rparr> \<Longrightarrow> steady at W d2 \<Longrightarrow> m d2 = k d2" for m k :: "unit dbact" and d'
  proof (rule seq_same)
    show "delete_items (\<lambda>d. in_workspaces (expired_ids at d) d) d' = delete_items (\<lambda>d. in_workspaces W d) d'"
      by (rule steady_steps(2) [OF that(1)])
    fix x d2
    assume run: "delete_items (\<lambda>d. in_workspaces W d) d' = (Inr x, d2)"
    then have "d2 = d'\<lparr>db_items := db_items d2\<rparr>" by (auto simp: delete_items_def modify_db_def)
    then show "m d2 = k d2" by (rule that(2)) (rule steady_kept(2) [OF that(1) run])
  qed
  show ?thesis
    unfolding delete_workspaces_def
  proof (rule seq_same)
    show "delete_workflow_templates (expired_ids at) d = delete_workflow_templates (\<lambda>_. W) d"
      by (rule steady_steps(1) [OF assms(1)])
    fix x d1
    assume run1: "delete_workflow_templates (\<lambda>_. W) d = (Inr x, d1)"
    have steady1: "steady at W d1" by (rule steady_kept(1) [OF assms(1) run1])
    show "seq_act (delete_items (\<lambda>d. in_workspaces (expired_ids at d) d)) (seq_act (?requests (expired_ids at)) ?m) d1
        = seq_act (delete_items (\<lambda>d. in_workspaces W d)) (seq_act (?requests (\<lambda>_. W)) ?k) d1"
    proof (rule second [OF steady1], rule seq_same)
      fix d2
      assume d2: "d2 = d1\<lparr>db_items := db_items d2\<rparr>" and steady2: "steady at W d2"
      show "?requests (expired_ids at) d2 = ?requests (\<lambda>_. W) d2"
        using steady2 by (simp add: with_db_def steady_def)
      fix y d3
      assume run3: "?requests (\<lambda>_. W) d2 = (Inr y, d3)"
      have fields: "db_work_requests d2 = db_work_requests d1" "db_collections d2 = db_collections d1"
        "db_file_in_artifacts d2 = db_file_in_artifacts d1" "db_file_uploads d2 = db_file_uploads d1"
        "db_workspaces d2 = db_workspaces d1" "db_artifacts d2 = db_artifacts d1"
        by (subst d2, simp)+
      have "workspaces_closed d2 W" "distinct (map wr_id (db_work_requests d2))" "distinct (map ws_id (db_workspaces d2))"
        using assms(2-4) run1
        by (auto simp: workspaces_closed_def unique_keys_def fields artifact_in_def [abs_def] get_artifact_def
            delete_workflow_templates_def modify_db_def Let_def comp_def)
      then have "steady at W d3" by (rule steady_requests [OF steady2 _ _ _ run3])
      then show "?m d3 = ?k d3"
        by (rule tail)
    qed
  qed
qed

text \<open>
  C15: when no other workspace has children of the work requests in the expired ones or
  work requests whose internal collections are there, and no upload to their artifacts is
  pending, deleting expired workspaces raises and changes nothing if a file store or a pool
  of workers has one of their assets as its account; otherwise it deletes, with the
  workspaces, exactly their work requests, collections, artifacts, the files in those
  artifacts, and every item of a collection that one of these is part of, and leaves the
  contents of the stores for the next run. The query for the expired workspaces is
  evaluated again at each of the eleven steps.
\<close>

theorem expired_workspaces_deleted:
  fixes d :: db and at :: time
  defines "W \<equiv> expired_ids at d"
  assumes "workspaces_closed d W" and "unique_keys d" and "distinct (map ws_id (db_workspaces d))"
  shows "if provider_account_used d (assets_of d W)
    then run_delete_expired_workspaces False at d = (Inl (ProtectedError ''Asset''), d)
    else \<exists>d'. run_delete_expired_workspaces False at d = (Inr (), d')
    \<and> db_workspaces d' = filter (\<lambda>w. ws_id w \<notin> W) (db_workspaces d)
    \<and> map wr_id (db_work_requests d') = map wr_id (filter (\<lambda>w. wr_workspace w \<notin> W) (db_work_requests d))
    \<and> db_collections d' = filter (\<lambda>c. co_workspace c \<notin> W) (db_collections d)
    \<and> map ar_id (db_artifacts d') = map ar_id (filter (\<lambda>a. ar_workspace a \<notin> W) (db_artifacts d))
    \<and> map ci_id (db_items d') = map ci_id (filter (\<lambda>i. \<not> in_workspaces W d i) (db_items d))
    \<and> db_file_in_artifacts d' = filter (\<lambda>f. \<not> artifact_in W d (fa_artifact f)) (db_file_in_artifacts d)
    \<and> db_files d' = db_files d \<and> db_file_in_stores d' = db_file_in_stores d"
proof (cases "expired_workspaces at d = []")
  case True
  then have "W = {}" by (simp add: W_def expired_ids_def)
  moreover have "\<not> in_workspaces {} d i" "\<not> artifact_in {} d j" for i j
    by (auto simp: in_workspaces_def artifact_in_def split: option.splits)
  moreover have "run_delete_expired_workspaces False at d = (Inr (), d)"
    using True by (simp add: run_delete_expired_workspaces_def atomic_def with_db_def ret_def)
  moreover have "\<not> provider_account_used d (assets_of d {})"
    by (simp add: provider_account_used_def assets_of_def list_ex_iff)
  ultimately show ?thesis by simp
next
  case False
  have "steady at W d" by (simp add: steady_def W_def)
  then have "delete_workspaces (expired_ids at) d = delete_workspaces (\<lambda>_. W) d"
    using assms(2-4) by (rule delete_workspaces_steady)
  then have "run_delete_expired_workspaces False at d = atomic (delete_workspaces (\<lambda>_. W)) d"
    using False by (simp add: run_delete_expired_workspaces_def atomic_def with_db_def expired_ids_def [abs_def])
  then show ?thesis using delete_workspaces_run [OF assms(2,3)] by (auto simp: atomic_def)
qed

section \<open>Examples\<close>



theorem expired_activation_token_stops_deletion_witness:
  "\<exists>x. run_delete_expired_tokens False 100 (example_db\<lparr>
      db_workers := [example_worker\<lparr>wk_worker_type := EXTERNAL, wk_activation_token := Some 1\<rparr>],
      db_tokens := [\<lparr>tk_id = 1, tk_hash = [], tk_user = None, tk_enabled = True, tk_last_seen_at = None, tk_expire_at = Some 90\<rparr>]\<rparr>) = (Inl x, example_db\<lparr>
      db_workers := [example_worker\<lparr>wk_worker_type := EXTERNAL, wk_activation_token := Some 1\<rparr>],
      db_tokens := [\<lparr>tk_id = 1, tk_hash = [], tk_user = None, tk_enabled = True, tk_last_seen_at = None, tk_expire_at = Some 90\<rparr>]\<rparr>)"
  by (rule expired_activation_token_stops_deletion
      [where w = "example_worker\<lparr>wk_worker_type := EXTERNAL, wk_activation_token := Some 1\<rparr>"
        and t = "\<lparr>tk_id = 1, tk_hash = [], tk_user = None, tk_enabled = True, tk_last_seen_at = None, tk_expire_at = Some 90\<rparr>" and e = 90])
    (simp_all add: example_worker_def)

definition example_expired :: db where
  "example_expired = example_gc\<lparr>db_workspaces := [example_ws\<lparr>ws_expiration_delay := Some 10\<rparr>]\<rparr>"

theorem expired_workspaces_deleted_witness:
  "\<exists>d'. run_delete_expired_workspaces False 100 example_expired = (Inr (), d')
    \<and> db_workspaces d' = [] \<and> db_artifacts d' = [] \<and> db_items d' = [] \<and> db_file_in_artifacts d' = []
    \<and> db_file_in_stores d' = db_file_in_stores example_gc"
proof -
  have W: "expired_ids 100 example_expired = {1}" by code_simp
  have fields: "db_work_requests example_expired = []" "db_artifacts example_expired = db_artifacts example_gc"
    "db_collections example_expired = [example_holder]" "db_file_uploads example_expired = []"
    "db_items example_expired = [example_held]" "db_file_in_artifacts example_expired = db_file_in_artifacts example_gc"
    "db_workspaces example_expired = [example_ws\<lparr>ws_expiration_delay := Some 10\<rparr>]"
    "db_file_in_stores example_expired = db_file_in_stores example_gc"
    by (simp_all add: example_expired_def example_gc_def example_files_def example_simps)
  have "workspaces_closed example_expired {1}" "unique_keys example_expired"
    "distinct (map ws_id (db_workspaces example_expired))"
    by (simp_all add: workspaces_closed_def unique_keys_def fields example_gc_fields example_artifact_def)
  moreover have "in_workspaces {1} example_expired example_held"
    by (simp add: in_workspaces_def get_collection_row_def fields example_held_def example_holder_def)
  moreover have "artifact_in {1} example_expired 3"
    by (simp add: artifact_in_def get_artifact_def fields example_gc_fields example_artifact_def)
  moreover have "\<not> provider_account_used example_expired (assets_of example_expired {1})" by code_simp
  ultimately show ?thesis
    using expired_workspaces_deleted [where d = example_expired and at = 100, unfolded W]
    by (auto simp: fields example_gc_fields example_artifact_def example_ws_def)
qed

end
