(* ===== verification/Lookups.thy ===== *)
theory Lookups
  imports Managers Artifacts Inheritance Workers
begin

text \<open>
  Lookups of items in collections: the syntax of lookup strings
  (debusine/tasks/models.py), the queries that each collection manager understands
  (\<open>do_lookup\<close> and \<open>do_lookup_filter\<close>, debusine/server/collections), and the
  resolution of single, dictionary and multiple lookups
  (debusine/server/collections/lookup.py).
\<close>

section \<open>Strings\<close>

text \<open>\<open>str.split\<close> at a character.\<close>

fun split_at :: "char \<Rightarrow> string \<Rightarrow> string list" where
  "split_at sep [] = [[]]"
| "split_at sep (c # cs) =
     (if c = sep then [] # split_at sep cs
      else (case split_at sep cs of [] \<Rightarrow> [[c]] | w # ws \<Rightarrow> (c # w) # ws))"

definition build_lookup_string_segments :: "string list \<Rightarrow> string" where
  "build_lookup_string_segments segments = join_with ''/'' segments"

definition parse_lookup_string_segments :: "string \<Rightarrow> string list" where
  "parse_lookup_string_segments lookup = split_at (CHR ''/'') lookup"

definition build_key_value_lookup_segment :: "string \<Rightarrow> (string \<times> string) list \<Rightarrow> string" where
  "build_key_value_lookup_segment lookup_type filters =
     lookup_type @ '':'' @ join_with '':'' (map (\<lambda>(key, value). key @ ''='' @ value) filters)"

text \<open>\<open>dict(item.split("=", 1) for item in items)\<close>.\<close>

primrec parse_pairs :: "string list \<Rightarrow> (string \<times> string) list \<Rightarrow> (string \<times> string) list res" where
  "parse_pairs [] d = Inr d"
| "parse_pairs (item # items) d =
     (if CHR ''='' \<notin> set item then Inl (ValueError ''dictionary update sequence element has length 1'')
      else
        let key = takeWhile (\<lambda>c. c \<noteq> CHR ''='') item
        in parse_pairs items (dict_set key (drop (Suc (length key)) item) d))"

definition parse_key_value_lookup_segment :: "string \<Rightarrow> (string \<times> (string \<times> string) list) res" where
  "parse_key_value_lookup_segment segment =
     (case split_at (CHR '':'') segment of
        [] \<Rightarrow> Inl (ValueError ''not enough values to unpack'')
      | lookup_type # filters_segments \<Rightarrow>
          bind_res (parse_pairs filters_segments []) (\<lambda>filters. Inr (lookup_type, filters)))"

text \<open>
  \<open>(.+?)SEP...\<close> (or \<open>(.*?)\<close>, not \<open>required\<close>): the shortest group after which the
  rest of the pattern matches.
\<close>

fun lazy_until :: "bool \<Rightarrow> char \<Rightarrow> (string \<Rightarrow> 'a option) \<Rightarrow> string \<Rightarrow> (string \<times> 'a) option" where
  "lazy_until required sep rest [] = None"
| "lazy_until required sep rest (c # cs) =
     (case (if c = sep \<and> \<not> required then rest cs else None) of
        Some r \<Rightarrow> Some ([], r)
      | None \<Rightarrow> if c = CHR 0x0A then None
                else map_option (\<lambda>(t, r). (c # t, r)) (lazy_until False sep rest cs))"

text \<open>\<open>(.*)$\<close>.\<close>

definition dot_star :: "string \<Rightarrow> string option" where
  "dot_star s =
     (let t = takeWhile (\<lambda>c. c \<noteq> CHR 0x0A) s in if at_dollar (drop (length t) s) then Some t else None)"

text \<open>\<open>urllib.parse.unquote\<close> on the bytes of a string.\<close>

definition hex_value :: "char \<Rightarrow> nat option" where
  "hex_value c =
     (let n = of_char c :: nat
      in if 48 \<le> n \<and> n \<le> 57 then Some (n - 48)
         else if 65 \<le> n \<and> n \<le> 70 then Some (n - 55)
         else if 97 \<le> n \<and> n \<le> 102 then Some (n - 87)
         else None)"

fun unquote :: "string \<Rightarrow> string" where
  "unquote (c # a # b # s) =
     (if c = CHR ''%'' then
        (case (hex_value a, hex_value b) of
           (Some m, Some n) \<Rightarrow> char_of (16 * m + n) # unquote s
         | _ \<Rightarrow> c # unquote (a # b # s))
      else c # unquote (a # b # s))"
| "unquote (c # s) = c # unquote s"
| "unquote [] = []"

section \<open>What the managers look up\<close>

text \<open>
  \<open>latest(...)\<close>: the item with the greatest key; among equal keys, which the database
  may return in any order, the last of the table.
\<close>

definition latest_by :: "('a \<Rightarrow> 'k :: linorder) \<Rightarrow> 'a list \<Rightarrow> 'a option" where
  "latest_by key xs = (case sort_key key xs of [] \<Rightarrow> None | ys \<Rightarrow> Some (last ys))"

definition active_in :: "db \<Rightarrow> pk \<Rightarrow> collection_item list" where
  "active_in d parent = filter (\<lambda>i. active i \<and> ci_parent_collection i = parent) (db_items d)"

definition has_data :: "string \<Rightarrow> json \<Rightarrow> collection_item \<Rightarrow> bool" where
  "has_data key v i \<longleftrightarrow> map_of (ci_data i) key = Some v"

definition has_text :: "string \<Rightarrow> string \<Rightarrow> collection_item \<Rightarrow> bool" where
  "has_text key v i \<longleftrightarrow> field_text i key = Some (JStr v)"

definition unexpected_lookup :: "string \<Rightarrow> exn" where
  "unexpected_lookup query = LookupError (''Unexpected lookup format: '' @ query)"

definition when_given :: "(string \<times> string) list \<Rightarrow> string \<Rightarrow> (string \<Rightarrow> bool) \<Rightarrow> bool" where
  "when_given filters key P = (case map_of filters key of None \<Rightarrow> True | Some v \<Rightarrow> P v)"

definition environments_lookup :: "db \<Rightarrow> collection \<Rightarrow> string \<Rightarrow> collection_item option res" where
  "environments_lookup d self query =
     (case Option.bind (after_prefix ''match:'' query) dot_plus of
        None \<Rightarrow> Inl (unexpected_lookup query)
      | Some filters_string \<Rightarrow>
          bind_res (parse_pairs (split_at (CHR '':'') filters_string) []) (\<lambda>filters.
          Inr (latest_by ci_created_at (filter (\<lambda>i. ci_child_type i = ARTIFACT
            \<and> (map_of filters ''format'' = Some ''tarball'' \<longrightarrow> ci_category i = ''debian:system-tarball'')
            \<and> (map_of filters ''format'' = Some ''image'' \<longrightarrow> ci_category i = ''debian:system-image'')
            \<and> when_given filters ''codename'' (\<lambda>v. has_data ''codename'' (JStr v) i)
            \<and> when_given filters ''architecture'' (\<lambda>v. has_data ''architecture'' (JStr v) i)
            \<and> when_given filters ''variant'' (\<lambda>v. has_data ''variant'' (if v = [] then JNull else JStr v) i)
            \<and> when_given filters ''backend'' (\<lambda>v. has_data ''backend'' (JStr v) i))
            (active_in d (co_id self))))))"

text \<open>The four queries for packages of suites and archives.\<close>

definition is_source :: "string \<Rightarrow> collection_item \<Rightarrow> bool" where
  "is_source name i \<longleftrightarrow> ci_category i = SOURCE_PACKAGE \<and> has_text ''package'' name i"

definition is_binary :: "string \<Rightarrow> string \<Rightarrow> collection_item \<Rightarrow> bool" where
  "is_binary name arch i \<longleftrightarrow> ci_category i = BINARY_PACKAGE \<and> has_text ''package'' name i
     \<and> (has_text ''architecture'' arch i \<or> has_text ''architecture'' ''all'' i)"

definition package_query :: "string \<Rightarrow> (collection_item \<Rightarrow> bool) option" where
  "package_query query =
     (case Option.bind (after_prefix ''source:'' query) dot_plus of
        Some name \<Rightarrow> Some (is_source name)
      | None \<Rightarrow>
     (case Option.bind (after_prefix ''source-version:'' query) (lazy_until True (CHR ''_'') dot_plus) of
        Some (name, version) \<Rightarrow> Some (\<lambda>i. is_source name i \<and> has_text ''version'' version i)
      | None \<Rightarrow>
     (case Option.bind (after_prefix ''binary:'' query) (lazy_until True (CHR ''_'') dot_plus) of
        Some (name, arch) \<Rightarrow> Some (is_binary name arch)
      | None \<Rightarrow>
     (case Option.bind (after_prefix ''binary-version:'' query)
             (lazy_until True (CHR ''_'') (lazy_until True (CHR ''_'') dot_plus)) of
        Some (name, version, arch) \<Rightarrow> Some (\<lambda>i. is_binary name arch i \<and> has_text ''version'' version i)
      | None \<Rightarrow> None))))"

definition is_index :: "string \<Rightarrow> collection_item \<Rightarrow> bool" where
  "is_index path i \<longleftrightarrow> ci_category i = REPOSITORY_INDEX \<and> has_text ''path'' path i"

definition item_version :: "collection_item \<Rightarrow> string res" where
  "item_version i =
     (case map_of (ci_data i) ''version'' of
        None \<Rightarrow> Inl (KeyError ''version'')
      | Some (JStr v) \<Rightarrow> Inr v
      | Some _ \<Rightarrow> Inl (ValueError ''Invalid version string''))"

text \<open>\<open>sorted(items, key=...)[-1]\<close>: no other is greater, the last of those.\<close>

definition last_greatest :: "(string \<Rightarrow> string \<Rightarrow> bool) \<Rightarrow> (string \<times> 'a) list \<Rightarrow> 'a option" where
  "last_greatest lower xs = map_option snd
     (fold (\<lambda>x best. case best of None \<Rightarrow> Some x
        | Some y \<Rightarrow> if lower (fst x) (fst y) then Some y else Some x) xs None)"

definition highest_version :: "data_models \<Rightarrow> collection_item list \<Rightarrow> collection_item option res" where
  "highest_version dm items =
     bind_res (map_res item_version items) (\<lambda>vs. Inr (last_greatest (dm_version_less dm) (zip vs items)))"

definition last_item :: "'a list \<Rightarrow> 'a option" where
  "last_item xs = (if xs = [] then None else Some (last xs))"

definition suite_lookup ::
  "data_models \<Rightarrow> db \<Rightarrow> collection \<Rightarrow> string \<Rightarrow> collection_item option res" where
  "suite_lookup dm d self query =
     (let items = filter (\<lambda>i. ci_child_type i = ARTIFACT) (active_in d (co_id self))
      in case package_query query of
           Some P \<Rightarrow> highest_version dm (filter P items)
         | None \<Rightarrow>
             (case Option.bind (after_prefix ''index:'' query) dot_plus of
                Some path \<Rightarrow> Inr (last_item (filter (is_index path) items))
              | None \<Rightarrow> Inl (unexpected_lookup query)))"

definition suites_of :: "db \<Rightarrow> collection \<Rightarrow> string option \<Rightarrow> pk list" where
  "suites_of d self name = List.map_filter ci_collection
     (filter (\<lambda>i. ci_child_type i = COLLECTION \<and> ci_category i = SUITE
                  \<and> (case name of None \<Rightarrow> True | Some n \<Rightarrow> ci_name i = n)) (active_in d (co_id self)))"

definition artifacts_in_suites :: "db \<Rightarrow> pk list \<Rightarrow> collection_item list" where
  "artifacts_in_suites d suites = filter (\<lambda>i. active i \<and> ci_child_type i = ARTIFACT
     \<and> ci_parent_collection i \<in> set suites) (db_items d)"

text \<open>\<open>^index:dists/([^/]+)/(.+)$\<close>.\<close>

definition suite_index_query :: "string \<Rightarrow> (string \<times> string) option" where
  "suite_index_query query = Option.bind (after_prefix ''index:dists/'' query) (\<lambda>s.
     let suite = takeWhile (\<lambda>c. c \<noteq> CHR ''/'') s
     in if suite = [] then None
        else Option.bind (after_prefix ''/'' (drop (length suite) s))
               (\<lambda>s. map_option (\<lambda>path. (suite, path)) (dot_plus s)))"

definition archive_lookup ::
  "data_models \<Rightarrow> db \<Rightarrow> collection \<Rightarrow> string \<Rightarrow> collection_item option res" where
  "archive_lookup dm d self query =
     (case package_query query of
        Some P \<Rightarrow> highest_version dm (filter P (artifacts_in_suites d (suites_of d self None)))
      | None \<Rightarrow>
     (case suite_index_query query of
        Some (suite, path) \<Rightarrow>
          Inr (last_item (filter (is_index path) (artifacts_in_suites d (suites_of d self (Some suite)))))
      | None \<Rightarrow>
     (case Option.bind (after_prefix ''index:'' query) dot_plus of
        Some path \<Rightarrow> Inr (last_item (filter (\<lambda>i. ci_child_type i = ARTIFACT \<and> is_index path i)
                            (active_in d (co_id self))))
      | None \<Rightarrow> Inl (unexpected_lookup query))))"

definition lintian_lookup :: "db \<Rightarrow> collection \<Rightarrow> string \<Rightarrow> collection_item option res" where
  "lintian_lookup d self query =
     (let items = filter (\<lambda>i. ci_child_type i = ARTIFACT \<and> ci_category i = ''debian:lintian'')
            (active_in d (co_id self))
      in case Option.bind (after_prefix ''latest:'' query) (lazy_until True (CHR ''_'') dot_plus) of
           Some (name, arch) \<Rightarrow> Inr (latest_by ci_created_at (filter (\<lambda>i.
             has_data ''package'' (JStr name) i \<and> has_data ''architecture'' (JStr arch) i) items))
         | None \<Rightarrow>
        (case Option.bind (after_prefix ''version:'' query)
                (lazy_until True (CHR ''_'') (lazy_until True (CHR ''_'') dot_plus)) of
           Some (name, version, arch) \<Rightarrow> Inr (latest_by ci_created_at (filter (\<lambda>i.
             has_data ''package'' (JStr name) i \<and> has_data ''version'' (JStr version) i
             \<and> has_data ''architecture'' (JStr arch) i) items))
         | None \<Rightarrow> Inl (unexpected_lookup query)))"

text \<open>
  \<open>^latest:([^_]+)_([^_]+)_([^_]+)$\<close>: exactly three parts, none of them empty. The
  order by timestamp has null first when it is descending.
\<close>

definition timestamp_key :: "collection_item \<Rightarrow> bool \<times> int" where
  "timestamp_key i = (case map_of (ci_data i) ''timestamp'' of Some (JInt n) \<Rightarrow> (False, n) | _ \<Rightarrow> (True, 0))"

definition qa_results_lookup :: "db \<Rightarrow> collection \<Rightarrow> string \<Rightarrow> collection_item option res" where
  "qa_results_lookup d self query =
     (case map_option (split_at (CHR ''_'')) (after_prefix ''latest:'' query) of
        Some [task_name, package, architecture] \<Rightarrow>
          if task_name = [] \<or> package = [] \<or> architecture = [] then Inl (unexpected_lookup query)
          else Inr (latest_by (\<lambda>i. (timestamp_key i, ci_created_at i)) (filter (\<lambda>i.
            has_data ''task_name'' (JStr task_name) i \<and> has_data ''package'' (JStr package) i
            \<and> has_data ''architecture'' (JStr architecture) i) (active_in d (co_id self))))
      | _ \<Rightarrow> Inl (unexpected_lookup query))"

text \<open>\<open>^(last-entry|last-success|last-failure):(.+?):(.+?):(.*?):(.*)$\<close>.\<close>

definition history_query :: "string \<Rightarrow> (string \<times> string \<times> string \<times> string \<times> string) option" where
  "history_query query =
     (let kind = takeWhile (\<lambda>c. c \<noteq> CHR '':'') query
      in if kind \<in> set [''last-entry'', ''last-success'', ''last-failure'']
         then map_option (\<lambda>r. (kind, r)) (Option.bind (after_prefix (kind @ '':'') query)
           (lazy_until True (CHR '':'') (lazy_until True (CHR '':'') (lazy_until False (CHR '':'') dot_star))))
         else None)"

definition text_or_empty :: "string \<Rightarrow> collection_item \<Rightarrow> json" where
  "text_or_empty key i = (case field_text i key of None \<Rightarrow> JStr [] | Some v \<Rightarrow> v)"

definition history_lookup :: "db \<Rightarrow> collection \<Rightarrow> string \<Rightarrow> collection_item option res" where
  "history_lookup d self query =
     (case history_query query of
        None \<Rightarrow> Inl (unexpected_lookup query)
      | Some (kind, task_type, task_name, subject, context) \<Rightarrow>
          Inr (latest_by ci_created_at (filter (\<lambda>i. ci_child_type i = BARE
            \<and> has_data ''task_type'' (JStr task_type) i \<and> has_data ''task_name'' (JStr task_name) i
            \<and> text_or_empty ''subject'' i = JStr (unquote subject)
            \<and> text_or_empty ''context'' i = JStr (unquote context)
            \<and> (kind = ''last-success'' \<longrightarrow> has_data ''result'' (JStr ''success'') i)
            \<and> (kind = ''last-failure'' \<longrightarrow> has_data ''result'' (JStr ''failure'') i
                 \<or> has_data ''result'' (JStr ''error'') i))
            (active_in d (co_id self)))))"

text \<open>\<open>collection.manager.lookup\<close>.\<close>

definition do_lookup :: "data_models \<Rightarrow> db \<Rightarrow> collection \<Rightarrow> string \<Rightarrow> collection_item option res" where
  "do_lookup dm d self query =
     (if co_category self = ENVIRONMENTS then environments_lookup d self query
      else if co_category self = SUITE then suite_lookup dm d self query
      else if co_category self = ARCHIVE then archive_lookup dm d self query
      else if co_category self = SUITE_LINTIAN then lintian_lookup d self query
      else if co_category self = QA_RESULTS then qa_results_lookup d self query
      else if co_category self = TASK_HISTORY then history_lookup d self query
      else Inl (unexpected_lookup query))"

definition manager_lookup :: "data_models \<Rightarrow> db \<Rightarrow> collection \<Rightarrow> string \<Rightarrow> collection_item option res" where
  "manager_lookup dm d self query =
     (if co_category self \<notin> set managed_categories then Inl (KeyError (co_category self))
      else case lookup_by_name d self query of Some r \<Rightarrow> r | None \<Rightarrow> do_lookup dm d self query)"

section \<open>Lookups\<close>

datatype single_lookup = LookupInt int | LookupStr string

datatype lookup_child_type =
  LookupBare | LookupArtifact | LookupArtifactOrPromise | LookupCollection | LookupAny

datatype matcher_kind = Contains | Endswith | Exact | Startswith

datatype lookup_value = ValueSingle single_lookup | ValueMultiple "lookup_alternative list"
  and lookup_alternative =
    AlternativeSingle single_lookup
  | LookupDict single_lookup lookup_child_type "string option" "(matcher_kind \<times> json) option"
      "(string \<times> matcher_kind \<times> json) list" "(string \<times> lookup_value) list"

record lookup_result =
  lr_result_type :: child_type
  lr_parent_collection_lookup :: "string option"
  lr_collection_item :: "collection_item option"
  lr_artifact :: "artifact option"
  lr_collection :: "collection option"

text \<open>Where and for whom a lookup is made.\<close>

record looking =
  lk_context :: app_context
  lk_user :: permission_user
  lk_workspace :: pk
  lk_workflow_root :: "work_request option"

definition int_str :: "int \<Rightarrow> string" where
  "int_str n = (if n < 0 then ''-'' @ decimal (nat (- n)) else decimal (nat n))"

definition normalize_lookup_segments ::
  "single_lookup \<Rightarrow> string option \<Rightarrow> lookup_child_type \<Rightarrow> string list res" where
  "normalize_lookup_segments lookup default_category expect_type =
     bind_res
       (case lookup of
          LookupInt n \<Rightarrow>
            if expect_type = LookupArtifact \<or> expect_type = LookupArtifactOrPromise
            then Inr (int_str n @ ''@artifacts'')
            else if expect_type = LookupCollection then Inr (int_str n @ ''@collections'')
            else Inl (LookupError ''Integer lookups only work in contexts that expect an artifact or a collection'')
        | LookupStr s \<Rightarrow> Inr s)
       (\<lambda>lookup.
          if lookup = [] then Inl (LookupError ''Empty lookup'')
          else
            case parse_lookup_string_segments lookup of
              [] \<Rightarrow> Inl IndexError
            | first_segment # segments \<Rightarrow>
                if CHR ''@'' \<notin> set first_segment then
                  (case default_category of
                     Some category \<Rightarrow> Inr ((first_segment @ ''@'' @ category) # segments)
                   | None \<Rightarrow> Inl (LookupError ''does not specify a category''))
                else Inr (first_segment # segments))"

text \<open>\<open>^([0-9]+)@artifacts$\<close> and the like.\<close>

definition numbered :: "string \<Rightarrow> string \<Rightarrow> nat option" where
  "numbered suffix lookup =
     (let ds = takeWhile is_ascii_digit lookup
      in if ds = [] then None
         else Option.bind (after_prefix suffix (drop (length ds) lookup))
                (\<lambda>r. if at_dollar r then Some (nat (digits_value ds)) else None))"

text \<open>\<open>lookup.rsplit("@", 1)\<close>.\<close>

definition rsplit_at :: "char \<Rightarrow> string \<Rightarrow> string \<times> string" where
  "rsplit_at sep s =
     (let last = rev (takeWhile (\<lambda>c. c \<noteq> sep) (rev s))
      in (take (length s - Suc (length last)) s, last))"

definition hidden :: "string \<Rightarrow> 'a res \<Rightarrow> 'a res" where
  "hidden lookup r =
     (case r of Inl (DoesNotExist _) \<Rightarrow> Inl (KeyError lookup) | Inl e \<Rightarrow> Inl e | Inr x \<Rightarrow> Inr x)"

definition visible_row :: "db \<Rightarrow> looking \<Rightarrow> ('r \<Rightarrow> pk) \<Rightarrow> 'r option \<Rightarrow> 'r res" where
  "visible_row d lk workspace_of found =
     bind_res (ws_can_display_qs d (lk_context lk) (db_workspaces d) (lk_user lk)) (\<lambda>workspaces.
     case found of
       Some r \<Rightarrow> if workspace_of r \<in> ws_id ` set workspaces then Inr r else Inl (DoesNotExist [])
     | None \<Rightarrow> Inl (DoesNotExist []))"

definition artifact_result :: "artifact \<Rightarrow> lookup_result" where
  "artifact_result a = \<lparr>lr_result_type = ARTIFACT, lr_parent_collection_lookup = None,
     lr_collection_item = None, lr_artifact = Some a, lr_collection = None\<rparr>"

definition collection_result :: "collection \<Rightarrow> lookup_result" where
  "collection_result c = \<lparr>lr_result_type = COLLECTION, lr_parent_collection_lookup = None,
     lr_collection_item = None, lr_artifact = None, lr_collection = Some c\<rparr>"

definition lookup_single_first :: "db \<Rightarrow> looking \<Rightarrow> string \<Rightarrow> lookup_result res" where
  "lookup_single_first d lk lookup = hidden lookup
     (case numbered ''@artifacts'' lookup of
        Some n \<Rightarrow> bind_res (visible_row d lk ar_workspace (get_artifact d n)) (\<lambda>a. Inr (artifact_result a))
      | None \<Rightarrow>
     (case numbered ''@collections'' lookup of
        Some n \<Rightarrow> bind_res (visible_row d lk co_workspace (get_collection_row d n)) (\<lambda>c. Inr (collection_result c))
      | None \<Rightarrow>
          bind_res
            (if lookup = ''internal@collections'' then
               (case lk_workflow_root lk of
                  None \<Rightarrow> Inl (LookupError ''only valid in the context of a workflow'')
                | Some root \<Rightarrow> Inr (''workflow-'' @ decimal (wr_id root), WORKFLOW_INTERNAL))
             else if CHR ''@'' \<in> set lookup then Inr (rsplit_at (CHR ''@'') lookup)
             else Inl (AssertionError []))
            (\<lambda>(name, category).
               bind_res (get_collection d (lk_context lk) (lk_user lk) category name (lk_workspace lk))
                 (\<lambda>c. Inr (collection_result c)))))"

text \<open>The result for an item: its artifact and its collection are fetched.\<close>

definition item_result :: "db \<Rightarrow> string \<Rightarrow> collection_item \<Rightarrow> lookup_result" where
  "item_result d container_name item = \<lparr>lr_result_type = ci_child_type item,
     lr_parent_collection_lookup = Some container_name, lr_collection_item = Some item,
     lr_artifact = Option.bind (ci_artifact item) (get_artifact d),
     lr_collection = Option.bind (ci_collection item) (get_collection_row d)\<rparr>"

definition named_segment :: "string \<Rightarrow> string" where
  "named_segment segment = (if CHR '':'' \<in> set segment then segment else ''name:'' @ segment)"

definition resolve_segment ::
  "data_models \<Rightarrow> db \<Rightarrow> string list \<Rightarrow> lookup_result \<Rightarrow> string \<Rightarrow> lookup_result res" where
  "resolve_segment dm d before result segment =
     (let container_name = build_lookup_string_segments before
      in if lr_result_type result \<noteq> COLLECTION
         then Inl (LookupError ''instead of expected collection'')
         else case lr_collection result of
           None \<Rightarrow> Inl (AssertionError [])
         | Some container \<Rightarrow>
             bind_res (manager_lookup dm d container (named_segment segment)) (\<lambda>item.
             case item of
               None \<Rightarrow> Inl (KeyError segment)
             | Some item \<Rightarrow> Inr (item_result d container_name item)))"

primrec resolve_segments ::
  "data_models \<Rightarrow> db \<Rightarrow> string list \<Rightarrow> lookup_result \<Rightarrow> string list \<Rightarrow> lookup_result res" where
  "resolve_segments dm d before result [] = Inr result"
| "resolve_segments dm d before result (segment # segments) =
     bind_res (resolve_segment dm d before result segment)
       (\<lambda>result. resolve_segments dm d (before @ [segment]) result segments)"

definition expected_result_types :: "lookup_child_type \<Rightarrow> child_type list" where
  "expected_result_types expect_type =
     (case expect_type of
        LookupBare \<Rightarrow> [BARE] | LookupArtifact \<Rightarrow> [ARTIFACT]
      | LookupArtifactOrPromise \<Rightarrow> [ARTIFACT, BARE] | LookupCollection \<Rightarrow> [COLLECTION]
      | LookupAny \<Rightarrow> [BARE, ARTIFACT, COLLECTION])"

definition lookup_single ::
  "data_models \<Rightarrow> db \<Rightarrow> looking \<Rightarrow> string option \<Rightarrow> lookup_child_type \<Rightarrow> single_lookup \<Rightarrow>
     lookup_result res" where
  "lookup_single dm d lk default_category expect_type lookup =
     bind_res (normalize_lookup_segments lookup default_category expect_type) (\<lambda>segments.
     bind_res (lookup_single_first d lk (hd segments)) (\<lambda>result.
     bind_res (resolve_segments dm d [hd segments] result (tl segments)) (\<lambda>result.
       if lr_result_type result \<in> set (expected_result_types expect_type) then Inr result
       else Inl (LookupError ''is of type instead of expected''))))"

section \<open>Dictionary and multiple lookups\<close>

text \<open>
  A condition of Django on a text: \<open>exact\<close> with \<open>None\<close> asks for null, other values
  are converted with \<open>str\<close>. The text of a container does not match.
\<close>

definition matcher :: "matcher_kind \<times> json \<Rightarrow> (string option \<Rightarrow> bool) res" where
  "matcher m =
     (case m of (kind, value) \<Rightarrow>
        if value = JNull then
          (if kind = Exact then Inr (\<lambda>text. text = None)
           else Inl (ValueError ''Cannot use None as a query value''))
        else bind_res (py_str value) (\<lambda>v. Inr (\<lambda>text. case text of None \<Rightarrow> False | Some t \<Rightarrow>
          (case kind of
             Exact \<Rightarrow> t = v
           | Startswith \<Rightarrow> starts_with v t
           | Endswith \<Rightarrow> starts_with (rev v) (rev t)
           | Contains \<Rightarrow> list_ex (\<lambda>n. starts_with v (drop n t)) [0..<Suc (length t)]))))"

definition data_text :: "string \<Rightarrow> collection_item \<Rightarrow> string option" where
  "data_text key i = (case field_text i key of Some (JStr s) \<Rightarrow> Some s | _ \<Rightarrow> None)"

primrec apply_matchers ::
  "(string \<times> matcher_kind \<times> json) list \<Rightarrow> collection_item list \<Rightarrow> collection_item list res" where
  "apply_matchers [] matching = Inr matching"
| "apply_matchers (m # ms) matching =
     bind_res (matcher (snd m)) (\<lambda>P. apply_matchers ms (filter (\<lambda>i. P (data_text (fst m) i)) matching))"

definition dict_allowed :: "lookup_child_type \<Rightarrow> lookup_child_type \<Rightarrow> bool" where
  "dict_allowed expect_type child_type \<longleftrightarrow> expect_type = LookupAny \<or> expect_type = child_type
     \<or> expect_type = LookupArtifactOrPromise \<and> child_type \<in> {LookupArtifact, LookupBare}"

definition child_type_condition :: "lookup_child_type \<Rightarrow> collection_item \<Rightarrow> bool" where
  "child_type_condition child_type i =
     (case child_type of
        LookupBare \<Rightarrow> ci_child_type i = BARE
      | LookupArtifact \<Rightarrow> ci_child_type i = ARTIFACT
      | LookupArtifactOrPromise \<Rightarrow> ci_child_type i = ARTIFACT
          \<or> ci_child_type i = BARE \<and> ci_category i = ''debusine:promise''
      | LookupCollection \<Rightarrow> ci_child_type i = COLLECTION
      | LookupAny \<Rightarrow> True)"

text \<open>The conditions of a dictionary lookup but for those that look other things up.\<close>

definition dict_items ::
  "db \<Rightarrow> collection \<Rightarrow> lookup_child_type \<Rightarrow> string option \<Rightarrow> (matcher_kind \<times> json) option \<Rightarrow>
     (string \<times> matcher_kind \<times> json) list \<Rightarrow> collection_item list res" where
  "dict_items d c child_type category name_matcher data_matchers =
     (let matching = filter (\<lambda>i. child_type_condition child_type i
            \<and> (case category of None \<Rightarrow> True | Some k \<Rightarrow> ci_category i = k)) (active_in d (co_id c))
      in bind_res (case name_matcher of None \<Rightarrow> Inr (\<lambda>_. True) | Some m \<Rightarrow> matcher m) (\<lambda>P.
         apply_matchers data_matchers (filter (\<lambda>i. P (Some (ci_name i))) matching)))"

definition dict_collection ::
  "data_models \<Rightarrow> db \<Rightarrow> looking \<Rightarrow> string option \<Rightarrow> lookup_child_type \<Rightarrow> single_lookup \<Rightarrow>
     lookup_child_type \<Rightarrow> (string \<times> collection) res" where
  "dict_collection dm d lk default_category expect_type coll child_type =
     (if \<not> dict_allowed expect_type child_type then Inl (LookupError ''Only lookups for type'')
      else
        bind_res (normalize_lookup_segments coll default_category LookupCollection) (\<lambda>segments.
        bind_res (lookup_single dm d lk default_category LookupCollection coll) (\<lambda>result.
        case lr_collection result of
          None \<Rightarrow> Inl (AttributeError ''manager'')
        | Some c \<Rightarrow> Inr (build_lookup_string_segments segments, c))))"

definition dict_results :: "db \<Rightarrow> string \<Rightarrow> collection_item list \<Rightarrow> lookup_result list" where
  "dict_results d parent_collection_lookup matching =
     map (item_result d parent_collection_lookup) (sort_key ci_id matching)"

text \<open>\<open>In(Cast("data__work_request_id", IntegerField()), work_request_ids)\<close>.\<close>

definition of_work_requests :: "pk list \<Rightarrow> collection_item \<Rightarrow> bool" where
  "of_work_requests ids i =
     (case map_of (ci_data i) ''work_request_id'' of Some (JInt n) \<Rightarrow> n \<in> int ` set ids | _ \<Rightarrow> False)"

definition creators :: "lookup_result list \<Rightarrow> pk list" where
  "creators items =
     List.map_filter (\<lambda>r. Option.bind (lr_artifact r) ar_created_by_work_request) items"

definition same_workflow_ids :: "db \<Rightarrow> pk list \<Rightarrow> pk list" where
  "same_workflow_ids d ids = map wr_id (filter (\<lambda>w.
     case wr_parent w of None \<Rightarrow> False
     | Some p \<Rightarrow> list_ex (\<lambda>c. wr_parent c = Some p \<and> wr_id c \<in> set ids) (db_work_requests d))
     (db_work_requests d))"

text \<open>
  \<open>manager.lookup_filter\<close>: which keys a manager knows, and the condition once the
  items that the filter names are looked up.
\<close>

definition filter_known :: "collection \<Rightarrow> string \<Rightarrow> bool res" where
  "filter_known self key =
     (if co_category self \<notin> set managed_categories then Inl (KeyError (co_category self))
      else if co_category self = PACKAGE_BUILD_LOGS \<and> key = ''same_work_request''
              \<or> co_category self = TASK_HISTORY \<and> key \<in> set [''same_work_request'', ''same_workflow'']
           then Inr True
      else Inl (LookupError (''Unexpected lookup filter format: '' @ key)))"

definition filter_condition :: "db \<Rightarrow> string \<Rightarrow> lookup_result list \<Rightarrow> collection_item \<Rightarrow> bool" where
  "filter_condition d key items =
     (let work_request_ids = creators items
      in of_work_requests (if key = ''same_workflow'' then same_workflow_ids d work_request_ids
                           else work_request_ids))"

fun lookup_value_results ::
    "data_models \<Rightarrow> db \<Rightarrow> looking \<Rightarrow> lookup_value \<Rightarrow> lookup_result list res"
  and lookup_multiple ::
    "data_models \<Rightarrow> db \<Rightarrow> looking \<Rightarrow> string option \<Rightarrow> lookup_child_type \<Rightarrow> lookup_alternative list \<Rightarrow>
       lookup_result list res"
  and lookup_alternative_results ::
    "data_models \<Rightarrow> db \<Rightarrow> looking \<Rightarrow> string option \<Rightarrow> lookup_child_type \<Rightarrow> lookup_alternative \<Rightarrow>
       lookup_result list res"
  and apply_lookup_filters ::
    "data_models \<Rightarrow> db \<Rightarrow> looking \<Rightarrow> collection \<Rightarrow> (string \<times> lookup_value) list \<Rightarrow>
       collection_item list \<Rightarrow> collection_item list res"
where
  "lookup_value_results dm d lk (ValueSingle s) =
     bind_res (lookup_single dm d lk None LookupAny s) (\<lambda>r. Inr [r])"
| "lookup_value_results dm d lk (ValueMultiple alternatives) =
     lookup_multiple dm d lk None LookupAny alternatives"
| "lookup_multiple dm d lk default_category expect_type [] = Inr []"
| "lookup_multiple dm d lk default_category expect_type (a # as) =
     bind_res (lookup_alternative_results dm d lk default_category expect_type a) (\<lambda>rs.
     bind_res (lookup_multiple dm d lk default_category expect_type as) (\<lambda>rs'. Inr (rs @ rs')))"
| "lookup_alternative_results dm d lk default_category expect_type (AlternativeSingle s) =
     bind_res (lookup_single dm d lk default_category expect_type s) (\<lambda>r. Inr [r])"
| "lookup_alternative_results dm d lk default_category expect_type
       (LookupDict coll child_type category name_matcher data_matchers lookup_filters) =
     bind_res (dict_collection dm d lk default_category expect_type coll child_type) (\<lambda>(parent, c).
     bind_res (dict_items d c child_type category name_matcher data_matchers) (\<lambda>matching.
     bind_res (apply_lookup_filters dm d lk c lookup_filters matching) (\<lambda>matching.
     Inr (dict_results d parent matching))))"
| "apply_lookup_filters dm d lk c [] matching = Inr matching"
| "apply_lookup_filters dm d lk c ((key, value) # fs) matching =
     bind_res (filter_known c key) (\<lambda>_.
     bind_res (lookup_value_results dm d lk value) (\<lambda>items.
     apply_lookup_filters dm d lk c fs (filter (filter_condition d key items) matching)))"

section \<open>Reconstructing a lookup\<close>

definition reconstruct_lookup :: "lookup_result \<Rightarrow> work_request option \<Rightarrow> string res" where
  "reconstruct_lookup result root_workflow =
     (case (lr_parent_collection_lookup result, lr_collection_item result) of
        (Some parent, Some item) \<Rightarrow> Inr (parent @ ''/name:'' @ ci_name item)
      | _ \<Rightarrow>
          (case lr_artifact result of
             Some a \<Rightarrow> Inr (decimal (ar_id a) @ ''@artifacts'')
           | None \<Rightarrow>
               (case lr_collection result of
                  None \<Rightarrow> Inl (AssertionError [])
                | Some c \<Rightarrow>
                    (case root_workflow of
                       Some root \<Rightarrow> if wr_internal_collection root = Some (co_id c)
                         then Inr ''internal@collections'' else Inr (decimal (co_id c) @ ''@collections'')
                     | None \<Rightarrow> Inr (decimal (co_id c) @ ''@collections'')))))"

end
