(* ===== verification/Resolving.thy ===== *)
theory Resolving
  imports Lookups
begin

text \<open>
  Properties of lookups: the segments of a lookup string are read back as they were
  built, the lookup that \<open>reconstruct_lookup\<close> makes of a result resolves to that result,
  and what a lookup returns was visible to its user.
\<close>

section \<open>Segments\<close>

lemma split_at_nonempty [simp]: "split_at sep s \<noteq> []"
  by (induction s) (auto split: list.split)

lemma split_at_plain: "sep \<notin> set s \<Longrightarrow> split_at sep s = [s]"
  by (induction s) auto

lemma split_at_append: "split_at sep (x @ sep # y) = split_at sep x @ split_at sep y"
proof (induction x)
  case (Cons c x)
  then show ?case by (cases "split_at sep x") auto
qed simp

lemma split_at_pieces: "w \<in> set (split_at sep s) \<Longrightarrow> sep \<notin> set w"
proof (induction s arbitrary: w)
  case (Cons c s)
  then show ?case by (cases "split_at sep s") (auto split: if_splits)
qed simp

lemma split_at_parts: "split_at sep s = w # ws \<Longrightarrow> sep \<notin> set w \<and> (\<forall>v\<in>set ws. sep \<notin> set v)"
  using split_at_pieces [of _ sep s] by (metis list.set_intros)

lemma join_with_Cons: "join_with sep (x # xs) = (if xs = [] then x else x @ sep @ join_with sep xs)"
  by (cases xs) simp_all

lemma split_at_join:
  "xs \<noteq> [] \<Longrightarrow> \<forall>x\<in>set xs. sep \<notin> set x \<Longrightarrow> split_at sep (join_with [sep] xs) = xs"
proof (induction xs)
  case (Cons x xs)
  then show ?case by (auto simp: join_with_Cons split_at_plain split_at_append)
qed simp

lemma join_split_at: "join_with [sep] (split_at sep s) = s"
proof (induction s)
  case (Cons c s)
  then show ?case
    by (cases "split_at sep s") (auto simp: join_with_Cons split: if_splits)
qed simp

lemma set_join_with: "set (join_with sep xs) \<subseteq> set sep \<union> \<Union> (set ` set xs)"
  by (induction sep xs rule: join_with.induct) auto

lemma parse_build: "segments \<noteq> [] \<Longrightarrow> \<forall>s\<in>set segments. CHR ''/'' \<notin> set s \<Longrightarrow>
    parse_lookup_string_segments (build_lookup_string_segments segments) = segments"
  by (simp add: parse_lookup_string_segments_def build_lookup_string_segments_def split_at_join)

lemma dict_set_fresh: "k \<notin> fst ` set d \<Longrightarrow> dict_set k v d = d @ [(k, v)]"
  by (induction d) auto

lemma parse_pairs_built:
  assumes "\<forall>(k, v)\<in>set fs. CHR ''='' \<notin> set k" and "distinct (map fst (d @ fs))"
  shows "parse_pairs (map (\<lambda>(k, v). k @ ''='' @ v) fs) d = Inr (d @ fs)"
  using assms
proof (induction fs arbitrary: d)
  case (Cons f fs)
  obtain k v where f: "f = (k, v)" by (cases f)
  have k: "takeWhile (\<lambda>c. c \<noteq> CHR ''='') (k @ ''='' @ v) = k"
    using Cons.prems(1) f by (auto simp: takeWhile_append)
  have fresh: "dict_set k v d = d @ [(k, v)]"
    using Cons.prems(2) f by (auto intro: dict_set_fresh)
  from Cons.IH [of "d @ [(k, v)]"] Cons.prems f k fresh show ?case by (auto simp: Let_def)
qed simp

text \<open>
  A segment of filters is read back as the kind of lookup and the filters it was
  built of, when there is at least one filter and none of their parts holds the
  characters that separate them; the segments of a lookup are read back likewise.
\<close>

theorem key_value_segments_roundtrip:
  assumes "CHR '':'' \<notin> set lookup_type" and "filters \<noteq> []" and "distinct (map fst filters)"
    and "\<forall>(k, v)\<in>set filters. CHR ''='' \<notin> set k \<and> CHR '':'' \<notin> set k \<and> CHR '':'' \<notin> set v
           \<and> CHR ''/'' \<notin> set k \<and> CHR ''/'' \<notin> set v"
    and "CHR ''/'' \<notin> set lookup_type" and "CHR ''/'' \<notin> set container"
  shows "map_res parse_key_value_lookup_segment (drop 1 (parse_lookup_string_segments
      (build_lookup_string_segments [container, build_key_value_lookup_segment lookup_type filters])))
    = Inr [(lookup_type, filters)]"
proof -
  let ?items = "map (\<lambda>(k, v). k @ ''='' @ v) filters"
  have pieces: "split_at (CHR '':'') (join_with '':'' ?items) = ?items"
    using assms(2,4) by (intro split_at_join) auto
  have pairs: "parse_pairs ?items [] = Inr filters"
    using parse_pairs_built [of filters "[]"] assms(3,4) by fastforce
  have built: "parse_key_value_lookup_segment (build_key_value_lookup_segment lookup_type filters)
      = Inr (lookup_type, filters)"
    using assms(1) pieces pairs
    by (simp add: parse_key_value_lookup_segment_def build_key_value_lookup_segment_def
        split_at_append [of "CHR '':''" lookup_type, simplified] split_at_plain)
  have "CHR ''/'' \<notin> set (join_with '':'' ?items)"
    using assms(4) set_join_with [of "'':''" ?items] by auto
  then have "CHR ''/'' \<notin> set (build_key_value_lookup_segment lookup_type filters)"
    using assms(5) by (simp add: build_key_value_lookup_segment_def)
  with built assms(6) show ?thesis by (simp add: parse_build)
qed

theorem key_value_segments_roundtrip_witness:
  "map_res parse_key_value_lookup_segment (drop 1 (parse_lookup_string_segments
      (build_lookup_string_segments [''debian@debian:environments'',
         build_key_value_lookup_segment ''match'' [(''codename'', ''sid''), (''format'', ''tarball'')]])))
    = Inr [(''match'', [(''codename'', ''sid''), (''format'', ''tarball'')])]"
  by (rule key_value_segments_roundtrip) simp_all

section \<open>What a lookup finds\<close>

lemma latest_by_member: "latest_by key xs = Some x \<Longrightarrow> x \<in> set xs"
proof (cases "sort_key key xs")
  case (Cons y ys)
  assume "latest_by key xs = Some x"
  with Cons have "x = last (sort_key key xs)" by (simp add: latest_by_def)
  with Cons show ?thesis by (metis last_in_set list.discI set_sort)
qed (simp add: latest_by_def)

lemma last_item_member: "last_item xs = Some x \<Longrightarrow> x \<in> set xs"
  by (auto simp: last_item_def split: if_splits)

lemma last_greatest_member:
  assumes "last_greatest lower xs = Some y"
  shows "y \<in> snd ` set xs"
proof -
  let ?f = "\<lambda>x best. case best of None \<Rightarrow> Some x
        | Some y \<Rightarrow> if lower (fst x) (fst y) then Some y else Some x"
  have "fold ?f xs b = Some z \<Longrightarrow> z \<in> set xs \<or> b = Some z" for b z
    by (induction xs arbitrary: b) (fastforce split: option.splits if_splits)+
  from this [of None] assms show ?thesis by (auto simp: last_greatest_def) force
qed

lemma highest_version_member: "highest_version dm xs = Inr (Some x) \<Longrightarrow> x \<in> set xs"
  by (auto simp: highest_version_def bind_res_eq_Inr dest!: last_greatest_member dest: set_zip_rightD)

lemmas lookup_members = latest_by_member last_item_member highest_version_member

text \<open>The active items of a collection, and for an archive those of its suites.\<close>

definition own_items :: "db \<Rightarrow> collection \<Rightarrow> collection_item set" where
  "own_items d c = {i \<in> set (db_items d). active i \<and> (ci_parent_collection i = co_id c
     \<or> co_category c = ARCHIVE \<and> ci_parent_collection i \<in> set (suites_of d c None))}"

lemma suites_of_named: "s \<in> set (suites_of d c name) \<Longrightarrow> s \<in> set (suites_of d c None)"
  by (auto simp: suites_of_def List.map_filter_def split: option.splits)

lemma manager_lookup_active: "manager_lookup dm d c query = Inr (Some i) \<Longrightarrow> i \<in> own_items d c"
  by (auto simp: manager_lookup_def do_lookup_def lookup_by_name_def environments_lookup_def
      suite_lookup_def archive_lookup_def lintian_lookup_def qa_results_lookup_def history_lookup_def
      active_in_def artifacts_in_suites_def own_items_def bind_res_eq_Inr Let_def
      filter_eq_Cons_iff ARCHIVE_def SUITE_def ENVIRONMENTS_def SUITE_LINTIAN_def QA_RESULTS_def
      TASK_HISTORY_def
      split: option.splits if_splits list.splits prod.splits dest!: lookup_members suites_of_named)

section \<open>Reconstructed lookups\<close>

lemma resolve_segments_snoc:
  "resolve_segments dm d before r (xs @ [y]) =
     bind_res (resolve_segments dm d before r xs) (\<lambda>r'. resolve_segment dm d (before @ xs) r' y)"
proof (induction xs arbitrary: before r)
  case Nil
  then show ?case by (cases "resolve_segment dm d before r y") simp_all
next
  case (Cons x xs)
  then show ?case by (cases "resolve_segment dm d before r x") simp_all
qed

lemma decimal_nonempty [simp]: "decimal n \<noteq> []"
  by (subst decimal.simps) simp

lemma decimal_digits: "c \<in> set (decimal n) \<Longrightarrow> is_ascii_digit c"
proof (induction n rule: decimal.induct)
  case (1 n)
  have "is_ascii_digit (char_of (48 + m))" if "m < 10" for m :: nat
    using that by (simp add: is_ascii_digit_def of_char_of)
  moreover have "decimal n = (if n < 10 then [char_of (48 + n)] else decimal (n div 10) @ [char_of (48 + n mod 10)])"
    by (rule decimal.simps)
  ultimately show ?case using 1 by (auto split: if_splits)
qed

lemma takeWhile_digits_decimal: "takeWhile is_ascii_digit (decimal n @ CHR ''@'' # s) = decimal n"
  by (simp add: takeWhile_append decimal_digits) (simp add: is_ascii_digit_def)

lemma numbered_decimal:
  "numbered (''@'' @ kind) (decimal n @ ''@'' @ kind) = Some n"
  using decimal_nonempty [of n]
  by (simp add: numbered_def takeWhile_digits_decimal after_prefix_def starts_with_def at_dollar_def
      digits_value_decimal Let_def)

lemma name_query: "CHR 0x0A \<notin> set name \<Longrightarrow> name \<noteq> [] \<Longrightarrow>
    Option.bind (after_prefix ''name:'' (''name:'' @ name)) dot_plus = Some name"
proof -
  assume name: "CHR 0x0A \<notin> set name" "name \<noteq> []"
  then have t: "takeWhile (\<lambda>c. c \<noteq> CHR 0x0A) name = name" by (auto simp: takeWhile_eq_all_conv)
  have "dot_plus name = Some name" unfolding dot_plus_def t by (simp add: name at_dollar_def)
  then show ?thesis by (simp add: after_prefix_def starts_with_def)
qed

lemma filter_key_unique: "distinct (map k t) \<Longrightarrow> i \<in> set t \<Longrightarrow> filter (\<lambda>j. k j = k i) t = [i]"
proof (induction t)
  case (Cons a t)
  show ?case
  proof (cases "a = i")
    case True
    with Cons.prems have "\<forall>j\<in>set t. k j \<noteq> k i" by (metis distinct.simps(2) image_eqI list.set_map list.simps(9))
    with True show ?thesis by simp
  next
    case False
    with Cons show ?thesis by auto
  qed
qed simp

lemma active_names_unique:
  assumes "distinct (map (\<lambda>i. (ci_parent_collection i, ci_name i)) (filter active (db_items d)))"
    and i: "i \<in> set (db_items d)" "active i"
  shows "filter (\<lambda>j. ci_parent_collection j = ci_parent_collection i \<and> active j \<and> ci_name j = ci_name i)
    (db_items d) = [i]"
  using filter_key_unique [where k = "\<lambda>i. (ci_parent_collection i, ci_name i)", OF assms(1), of i] i
  by (simp add: conj_commute conj_left_commute)

lemma lookup_item_by_name:
  assumes "distinct (map (\<lambda>i. (ci_parent_collection i, ci_name i)) (filter active (db_items d)))"
    and "i \<in> own_items d c" "ci_parent_collection i = co_id c" "co_category c \<in> set managed_categories"
    and "CHR 0x0A \<notin> set (ci_name i)" "ci_name i \<noteq> []"
  shows "manager_lookup dm d c (''name:'' @ ci_name i) = Inr (Some i)"
  using active_names_unique [OF assms(1), of i] name_query [of "ci_name i"] assms
  by (simp add: manager_lookup_def lookup_by_name_def own_items_def)

lemma join_with_snoc: "xs \<noteq> [] \<Longrightarrow> join_with sep (xs @ [y]) = join_with sep xs @ sep @ y"
  by (induction xs) (auto simp: join_with_Cons)

lemma normalized_segments:
  assumes "normalize_lookup_segments lookup default_category expect_type = Inr segments"
    and "\<forall>c\<in>set_option default_category. CHR ''/'' \<notin> set c"
  shows "segments \<noteq> []" "CHR ''@'' \<in> set (hd segments)" "\<forall>s\<in>set segments. CHR ''/'' \<notin> set s"
  using assms
  by (auto simp: normalize_lookup_segments_def parse_lookup_string_segments_def bind_res_eq_Inr
      split: if_splits list.splits option.splits dest!: split_at_parts)

lemma normalize_built:
  assumes "segments \<noteq> []" "CHR ''@'' \<in> set (hd segments)" "\<forall>s\<in>set segments. CHR ''/'' \<notin> set s"
  shows "normalize_lookup_segments (LookupStr (build_lookup_string_segments segments)) dc et = Inr segments"
  using assms parse_build [of segments]
  by (cases segments)
     (auto simp: normalize_lookup_segments_def build_lookup_string_segments_def join_with_Cons)

lemma first_result:
  assumes "lookup_single_first d lk s = Inr r"
  shows "lr_parent_collection_lookup r = None \<and> lr_collection_item r = None
    \<and> ((\<exists>a. r = artifact_result a) \<or> (\<exists>c. r = collection_result c))"
  using assms unfolding lookup_single_first_def hidden_def
  by (auto simp: bind_res_eq_Inr artifact_result_def collection_result_def split_def
      split: option.splits if_splits sum.splits exn.splits)

lemma resolve_segment_item:
  assumes "resolve_segment dm d before r' y = Inr r"
  obtains c item where "lr_result_type r' = COLLECTION" "lr_collection r' = Some c"
    "manager_lookup dm d c (named_segment y) = Inr (Some item)"
    "r = item_result d (build_lookup_string_segments before) item"
  using assms that
  by (auto simp: resolve_segment_def bind_res_eq_Inr Let_def split: if_splits option.splits)

lemma lookup_single_resolved:
  "normalize_lookup_segments lookup dc et = Inr segments \<Longrightarrow>
   lookup_single dm d lk dc et lookup = Inr r \<longleftrightarrow>
     (\<exists>r0. lookup_single_first d lk (hd segments) = Inr r0
        \<and> resolve_segments dm d [hd segments] r0 (tl segments) = Inr r
        \<and> lr_result_type r \<in> set (expected_result_types et))"
  by (auto simp: lookup_single_def bind_res_eq_Inr)

lemma chain_rows_visible:
  assumes "chain_cte n d visible start = Some out" "\<forall>r\<in>set start. fst r \<in> set visible" "r \<in> set out"
  shows "fst r \<in> set visible"
proof -
  from set_chain_cte [OF assms(1)] assms(3) obtain s
    where s: "s \<in> set start" "(chain_edge d visible)\<^sup>*\<^sup>* s r" by blast
  from s(2) show ?thesis using s(1) assms(2)
    by (induction rule: rtranclp_induct) (auto simp: chain_children_def elim: chain_edge.cases)
qed

lemma earliest_member:
  assumes "earliest rows = Inr c"
  shows "c \<in> snd ` set rows"
proof (cases "sort_key fst rows")
  case (Cons r rs)
  then have "r \<in> set rows" by (metis list.set_intros(1) set_sort)
  moreover from assms Cons have "snd r = c" by (simp add: earliest_def)
  ultimately show ?thesis by blast
qed (use assms in \<open>simp add: earliest_def\<close>)

lemma get_collection_visible:
  assumes found: "get_collection d cx user category name i = Inr c"
  obtains kept where "ws_can_display_qs d cx (db_workspaces d) user = Inr kept"
    "c \<in> set (db_collections d)" "co_workspace c \<in> ws_id ` set kept"
    "co_category c = category" "co_name c = name"
proof -
  from found obtain kept where kept: "ws_can_display_qs d cx (db_workspaces d) user = Inr kept"
    by (auto simp: get_collection_def bind_res_eq_Inr)
  let ?start = "if i \<in> set (map ws_id kept) then [(i, [], [i])] else []"
  let ?rows = "\<lambda>chain. concat (map (\<lambda>(i, path_order, path). map (\<lambda>c. (path_order, c))
      (filter (\<lambda>c. co_workspace c = i \<and> co_category c = category \<and> co_name c = name)
        (db_collections d))) chain)"
  have "(case chain_cte (Suc (length kept)) d (map ws_id kept) ?start of
      None \<Rightarrow> Inl OutOfFuel | Some chain \<Rightarrow> earliest (?rows chain)) = Inr c"
    using found by (simp only: get_collection_def kept bind_res_simps Let_def length_map)
  then obtain out where out: "chain_cte (Suc (length kept)) d (map ws_id kept) ?start = Some out"
    and c: "earliest (?rows out) = Inr c" by (cases "chain_cte (Suc (length kept)) d (map ws_id kept) ?start") simp_all
  from earliest_member [OF c] obtain r where r: "r \<in> set out" "co_workspace c = fst r"
      "c \<in> set (db_collections d)" "co_category c = category" "co_name c = name" by auto
  with chain_rows_visible [OF out _ r(1)] have "co_workspace c \<in> ws_id ` set kept" by auto
  with kept r that show thesis by blast
qed

section \<open>Lookups stay within what the user may see\<close>

text \<open>
  What a lookup may lead to: artifacts and collections of the workspaces the user may
  display, and from a collection its active items, in whichever workspace what they
  hold is.
\<close>

inductive reachable_result :: "db \<Rightarrow> pk set \<Rightarrow> lookup_result \<Rightarrow> bool" for d displayed where
  reach_artifact: "a \<in> set (db_artifacts d) \<Longrightarrow> ar_workspace a \<in> displayed \<Longrightarrow>
     reachable_result d displayed (artifact_result a)"
| reach_collection: "c \<in> set (db_collections d) \<Longrightarrow> co_workspace c \<in> displayed \<Longrightarrow>
     reachable_result d displayed (collection_result c)"
| reach_item: "reachable_result d displayed r \<Longrightarrow> lr_collection r = Some c \<Longrightarrow> i \<in> own_items d c \<Longrightarrow>
     reachable_result d displayed (item_result d container_name i)"

definition displayed_to :: "db \<Rightarrow> looking \<Rightarrow> pk set" where
  "displayed_to d lk = (case ws_can_display_qs d (lk_context lk) (db_workspaces d) (lk_user lk) of
     Inl _ \<Rightarrow> {} | Inr kept \<Rightarrow> ws_id ` set kept)"

lemma visible_row_reachable:
  "visible_row d lk workspace_of found = Inr r \<Longrightarrow> found = Some r \<and> workspace_of r \<in> displayed_to d lk"
  by (auto simp: visible_row_def displayed_to_def bind_res_eq_Inr split: option.splits if_splits)

lemma hidden_Inr [simp]: "hidden s r = Inr x \<longleftrightarrow> r = Inr x"
  by (auto simp: hidden_def split: sum.splits exn.splits)

lemma first_reachable:
  assumes "lookup_single_first d lk s = Inr r"
  shows "reachable_result d (displayed_to d lk) r"
proof -
  from assms consider (artifact) n a where "visible_row d lk ar_workspace (get_artifact d n) = Inr a"
      "r = artifact_result a"
    | (collection) n c where "visible_row d lk co_workspace (get_collection_row d n) = Inr c"
      "r = collection_result c"
    | (named) category name c where
      "get_collection d (lk_context lk) (lk_user lk) category name (lk_workspace lk) = Inr c"
      "r = collection_result c"
    unfolding lookup_single_first_def hidden_Inr
    by (auto simp: bind_res_eq_Inr split_def split: option.splits if_splits)
  then show ?thesis
  proof cases
    case artifact
    then show ?thesis
      by (auto dest!: visible_row_reachable intro: reach_artifact tbl_get_mem simp: get_artifact_def)
  next
    case collection
    then show ?thesis
      by (auto dest!: visible_row_reachable intro: reach_collection tbl_get_mem simp: get_collection_row_def)
  next
    case named
    then show ?thesis
      by (auto elim!: get_collection_visible intro!: reach_collection simp: displayed_to_def)
  qed
qed

lemma segments_reachable:
  "resolve_segments dm d before r segments = Inr r' \<Longrightarrow> reachable_result d D r \<Longrightarrow>
     reachable_result d D r'"
proof (induction segments arbitrary: before r)
  case (Cons s segments)
  then show ?case
    by (auto simp: bind_res_eq_Inr elim!: resolve_segment_item intro: reach_item manager_lookup_active)
qed simp

lemma lookup_single_reachable:
  assumes "lookup_single dm d lk dc et lookup = Inr r"
  shows "reachable_result d (displayed_to d lk) r \<and> lr_result_type r \<in> set (expected_result_types et)"
  using assms by (auto simp: lookup_single_def bind_res_eq_Inr
      split: if_splits dest!: first_reachable intro: segments_reachable)

lemma apply_matchers_subset: "apply_matchers ms xs = Inr ys \<Longrightarrow> set ys \<subseteq> set xs"
  by (induction ms arbitrary: xs) (fastforce simp: bind_res_eq_Inr)+

lemma apply_lookup_filters_subset: "apply_lookup_filters dm d lk c fs xs = Inr ys \<Longrightarrow> set ys \<subseteq> set xs"
  by (induction fs arbitrary: xs) (fastforce simp: bind_res_eq_Inr)+

lemma dict_items_found:
  assumes "dict_items d c child_type category nm dms = Inr xs" and "i \<in> set xs"
  shows "i \<in> own_items d c \<and> child_type_condition child_type i"
proof -
  from assms(1) obtain ys where "apply_matchers dms ys = Inr xs"
      "set ys \<subseteq> {i \<in> set (active_in d (co_id c)). child_type_condition child_type i}"
    by (fastforce simp: dict_items_def bind_res_eq_Inr Let_def)
  with apply_matchers_subset [of dms ys xs] assms(2) show ?thesis
    by (auto simp: own_items_def active_in_def)
qed

lemma dict_collection_found:
  assumes "dict_collection dm d lk dc et coll child_type = Inr (parent, c)"
  shows "(\<exists>r. reachable_result d (displayed_to d lk) r \<and> lr_collection r = Some c)
    \<and> (\<forall>i. child_type_condition child_type i \<longrightarrow> ci_child_type i \<in> set (expected_result_types et))"
proof -
  from assms obtain r where r: "lookup_single dm d lk dc LookupCollection coll = Inr r"
      "lr_collection r = Some c" and allowed: "dict_allowed et child_type"
    by (auto simp: dict_collection_def bind_res_eq_Inr split: if_splits option.splits)
  have "ci_child_type i \<in> set (expected_result_types et)" if "child_type_condition child_type i" for i
    using that allowed by (cases "ci_child_type i"; cases et; cases child_type)
      (auto simp: dict_allowed_def child_type_condition_def expected_result_types_def)
  with lookup_single_reachable [OF r(1)] r(2) show ?thesis by blast
qed

lemma item_result_simps [simp]:
  "lr_result_type (item_result d p i) = ci_child_type i"
  "lr_collection_item (item_result d p i) = Some i"
  "lr_parent_collection_lookup (item_result d p i) = Some p"
  by (simp_all add: item_result_def)

lemma alternative_reachable:
  assumes "lookup_alternative_results dm d lk dc et a = Inr rs" and "r \<in> set rs"
  shows "reachable_result d (displayed_to d lk) r \<and> lr_result_type r \<in> set (expected_result_types et)"
proof (cases a)
  case (AlternativeSingle s)
  with assms lookup_single_reachable show ?thesis by (auto simp: bind_res_eq_Inr)
next
  case (LookupDict coll child_type category nm dms fs)
  with assms(1) obtain parent c xs ys
    where c: "dict_collection dm d lk dc et coll child_type = Inr (parent, c)"
      and xs: "dict_items d c child_type category nm dms = Inr xs"
      and ys: "apply_lookup_filters dm d lk c fs xs = Inr ys" "rs = dict_results d parent ys"
    by (auto simp: bind_res_eq_Inr)
  with assms(2) obtain i where "i \<in> set ys" "r = item_result d parent i"
    by (auto simp: dict_results_def)
  with dict_items_found [OF xs, of i] dict_collection_found [OF c] apply_lookup_filters_subset [OF ys(1)]
  show ?thesis by (auto intro: reach_item)
qed

text \<open>
  C22: What looking up several items at once returns is of a type that was asked for, and
  was reached from an artifact or a collection of a workspace that the user may display,
  through the active items of collections only.
\<close>

theorem lookup_multiple_reachable:
  assumes "lookup_multiple dm d lk dc et alternatives = Inr rs" and "r \<in> set rs"
  shows "reachable_result d (displayed_to d lk) r \<and> lr_result_type r \<in> set (expected_result_types et)"
  using assms
proof (induction alternatives arbitrary: rs)
  case (Cons a alternatives)
  then show ?case by (auto simp: bind_res_eq_Inr dest: alternative_reachable)
qed simp

section \<open>A reconstructed lookup leads to the same result\<close>

lemma lookup_single_built:
  assumes "segments \<noteq> []" "CHR ''@'' \<in> set (hd segments)" "\<forall>s\<in>set segments. CHR ''/'' \<notin> set s"
    and "lookup_single_first d lk (hd segments) = Inr r0"
    and "resolve_segments dm d [hd segments] r0 (tl segments) = Inr r"
    and "lr_result_type r \<in> set (expected_result_types et)"
  shows "lookup_single dm d lk dc et (LookupStr (build_lookup_string_segments segments)) = Inr r"
  using lookup_single_resolved [OF normalize_built [OF assms(1-3)]] assms(4-6) by blast

lemma name_segment: "named_segment (''name:'' @ s) = ''name:'' @ s"
  by (simp add: named_segment_def)

lemma manager_lookup_managed:
  "manager_lookup dm d c query = Inr x \<Longrightarrow> co_category c \<in> set managed_categories"
  by (simp add: manager_lookup_def split: if_splits)

lemma lookup_single_item:
  assumes found: "lookup_single dm d lk dc et lookup = Inr r"
    and dc: "\<forall>c\<in>set_option dc. CHR ''/'' \<notin> set c"
    and item: "lr_collection_item r = Some item" "lr_parent_collection_lookup r = Some parent"
  obtains before r0 r' c where "before \<noteq> []" "CHR ''@'' \<in> set (hd before)"
    "\<forall>s\<in>set before. CHR ''/'' \<notin> set s" "lookup_single_first d lk (hd before) = Inr r0"
    "resolve_segments dm d [hd before] r0 (tl before) = Inr r'"
    "lr_result_type r' = COLLECTION" "lr_collection r' = Some c" "item \<in> own_items d c"
    "co_category c \<in> set managed_categories"
    "parent = build_lookup_string_segments before" "r = item_result d parent item"
proof -
  from found obtain segments where n: "normalize_lookup_segments lookup dc et = Inr segments"
    by (auto simp: lookup_single_def bind_res_eq_Inr)
  note segments = normalized_segments [OF n dc]
  from found lookup_single_resolved [OF n] obtain r0
    where r0: "lookup_single_first d lk (hd segments) = Inr r0"
      "resolve_segments dm d [hd segments] r0 (tl segments) = Inr r" by blast
  from segments(1) obtain s0 ss where s0: "segments = s0 # ss" by (cases segments) auto
  have "ss \<noteq> []" using first_result [OF r0(1)] r0(2) item(1) s0 by auto
  then obtain xs y where ss: "ss = xs @ [y]" by (metis rev_exhaust)
  from r0(2) obtain r' where r': "resolve_segments dm d [s0] r0 xs = Inr r'"
      "resolve_segment dm d (s0 # xs) r' y = Inr r"
    by (auto simp: s0 ss resolve_segments_snoc bind_res_eq_Inr)
  from r'(2) show thesis
  proof (rule resolve_segment_item)
    fix c i assume "lr_result_type r' = COLLECTION" "lr_collection r' = Some c"
      "manager_lookup dm d c (named_segment y) = Inr (Some i)"
      "r = item_result d (build_lookup_string_segments (s0 # xs)) i"
    with that [of "s0 # xs" r0 r' c] r0(1) r'(1) segments item show thesis
      by (auto simp: s0 ss dest: manager_lookup_active manager_lookup_managed)
  qed
qed

text \<open>The name of an item can be written in a lookup.\<close>

definition plain_name :: "string \<Rightarrow> bool" where
  "plain_name name \<longleftrightarrow> name \<noteq> [] \<and> CHR ''/'' \<notin> set name \<and> CHR 0x0A \<notin> set name"

definition unique_active_names :: "db \<Rightarrow> bool" where
  "unique_active_names d \<longleftrightarrow>
     distinct (map (\<lambda>i. (ci_parent_collection i, ci_name i)) (filter active (db_items d)))"

lemma reconstructed_item_resolves:
  assumes found: "lookup_single dm d lk dc et lookup = Inr r"
    and dc: "\<forall>c\<in>set_option dc. CHR ''/'' \<notin> set c"
    and item: "lr_collection_item r = Some item" "lr_parent_collection_lookup r = Some parent"
    and name: "plain_name (ci_name item)" and unique: "unique_active_names d"
    and container: "lookup_single dm d lk dc LookupCollection (LookupStr parent) = Inr p"
      "lr_collection p = Some c" "ci_parent_collection item = co_id c"
  shows "lookup_single dm d lk dc et (LookupStr (parent @ ''/name:'' @ ci_name item)) = Inr r"
  using lookup_single_item [OF found dc item]
proof cases
  case (1 before r0 r' c')
  have "lookup_single dm d lk dc LookupCollection (LookupStr parent) = Inr r'"
    unfolding 1(10) using 1 by (intro lookup_single_built) (auto simp: expected_result_types_def)
  with container 1(7) have c': "c' = c" by simp
  let ?seg = "''name:'' @ ci_name item"
  have "manager_lookup dm d c (named_segment ?seg) = Inr (Some item)"
    unfolding name_segment using 1(8,9) name unique container(3)
    by (intro lookup_item_by_name) (simp_all add: c' plain_name_def unique_active_names_def)
  then have "resolve_segment dm d before r' ?seg = Inr r"
    using 1(6,7) unfolding 1(11)
    by (simp add: resolve_segment_def c' Let_def 1(10))
  moreover have "before = hd before # tl before" using 1(1) by simp
  ultimately have last: "resolve_segments dm d [hd before] r0 (tl before @ [?seg]) = Inr r"
    using 1(5) by (simp add: resolve_segments_snoc)
  from found have "lr_result_type r \<in> set (expected_result_types et)"
    using lookup_single_reachable by blast
  with lookup_single_built [of "before @ [?seg]" d lk r0 dm r et dc] 1(1-4) last name
  have "lookup_single dm d lk dc et (LookupStr (build_lookup_string_segments (before @ [?seg]))) = Inr r"
    by (auto simp: plain_name_def)
  then show ?thesis
    using 1(1,10) by (simp add: build_lookup_string_segments_def join_with_snoc)
qed

lemma visible_row_found:
  "workspace_of r \<in> displayed_to d lk \<Longrightarrow> visible_row d lk workspace_of (Some r) = Inr r"
  by (auto simp: displayed_to_def visible_row_def split: sum.splits)

lemma numbered_collections: "numbered ''@artifacts'' (decimal n @ ''@collections'') = None"
  by (simp add: numbered_def takeWhile_digits_decimal after_prefix_def starts_with_def)

lemma first_artifact: "lookup_single_first d lk (decimal n @ ''@artifacts'') = Inr r \<longleftrightarrow>
    bind_res (visible_row d lk ar_workspace (get_artifact d n)) (\<lambda>a. Inr (artifact_result a)) = Inr r"
  unfolding lookup_single_first_def hidden_Inr numbered_decimal [of "''artifacts''", simplified] by simp

lemma first_collection: "lookup_single_first d lk (decimal n @ ''@collections'') = Inr r \<longleftrightarrow>
    bind_res (visible_row d lk co_workspace (get_collection_row d n)) (\<lambda>c. Inr (collection_result c)) = Inr r"
  unfolding lookup_single_first_def hidden_Inr numbered_decimal [of "''collections''", simplified]
    numbered_collections by simp

lemma decimal_plain [simp]: "CHR ''/'' \<notin> set (decimal n)" "CHR ''@'' \<notin> set (decimal n)"
  by (auto dest!: decimal_digits simp: is_ascii_digit_def)

lemma reconstructed_object_resolves:
  assumes found: "lookup_single dm d lk dc et lookup = Inr r"
    and first: "lr_collection_item r = None"
    and keys: "distinct (map ar_id (db_artifacts d))" "distinct (map co_id (db_collections d))"
    and s: "reconstruct_lookup r None = Inr s"
  shows "lookup_single dm d lk dc et (LookupStr s) = Inr r"
proof -
  from found obtain segments where n: "normalize_lookup_segments lookup dc et = Inr segments"
    by (auto simp: lookup_single_def bind_res_eq_Inr)
  from found lookup_single_resolved [OF n] obtain r0
    where r0: "lookup_single_first d lk (hd segments) = Inr r0"
      "resolve_segments dm d [hd segments] r0 (tl segments) = Inr r"
      "lr_result_type r \<in> set (expected_result_types et)" by blast
  have "r = r0" using r0(2) first
    by (cases "tl segments" rule: rev_cases)
       (auto simp: resolve_segments_snoc bind_res_eq_Inr elim!: resolve_segment_item)
  have "lookup_single_first d lk s = Inr r \<and> CHR ''@'' \<in> set s \<and> CHR ''/'' \<notin> set s"
    using first_reachable [OF r0(1)] r0(1) first s unfolding \<open>r = r0\<close> [symmetric]
  proof (cases rule: reachable_result.cases)
    case (reach_artifact a)
    with keys(1) have "get_artifact d (ar_id a) = Some a" by (simp add: get_artifact_def tbl_get_iff)
    with reach_artifact s show ?thesis
      by (auto simp: first_artifact visible_row_found reconstruct_lookup_def artifact_result_def)
  next
    case (reach_collection c)
    with keys(2) have "get_collection_row d (co_id c) = Some c"
      by (simp add: get_collection_row_def tbl_get_iff)
    with reach_collection s show ?thesis
      by (auto simp: first_collection visible_row_found reconstruct_lookup_def collection_result_def)
  qed simp
  with lookup_single_built [of "[s]" d lk r dm r et dc] r0(3) show ?thesis
    by (simp add: build_lookup_string_segments_def)
qed

text \<open>
  C23: The lookup that is reconstructed from the result of a lookup leads to that
  result again, in the same context: by the id of an artifact or a collection that was
  named directly, and by its name for an item, when its name can be written in a lookup
  (it has no slash, and no newline) and it is an item of the collection that the rest of
  the lookup names.
\<close>

theorem reconstructed_lookup_resolves:
  assumes found: "lookup_single dm d lk dc et lookup = Inr r"
    and dc: "\<forall>c\<in>set_option dc. CHR ''/'' \<notin> set c"
    and keys: "distinct (map ar_id (db_artifacts d))" "distinct (map co_id (db_collections d))"
      "unique_active_names d"
    and s: "reconstruct_lookup r root = Inr s"
    and item: "case (lr_collection_item r, lr_parent_collection_lookup r) of
        (Some item, Some parent) \<Rightarrow> plain_name (ci_name item)
          \<and> (\<exists>p c. lookup_single dm d lk dc LookupCollection (LookupStr parent) = Inr p
               \<and> lr_collection p = Some c \<and> ci_parent_collection item = co_id c)
      | _ \<Rightarrow> root = None"
  shows "lookup_single dm d lk dc et (LookupStr s) = Inr r"
proof (cases "lr_collection_item r")
  case None
  with item have "root = None" by simp
  with reconstructed_object_resolves [OF found None keys(1,2)] s show ?thesis by simp
next
  case (Some i)
  from lookup_single_reachable [OF found] have "reachable_result d (displayed_to d lk) r" by simp
  then have "lr_parent_collection_lookup r \<noteq> None"
    using Some by cases (simp_all add: artifact_result_def collection_result_def)
  then obtain parent where parent: "lr_parent_collection_lookup r = Some parent" by blast
  from s Some parent have "s = parent @ ''/name:'' @ ci_name i" by (simp add: reconstruct_lookup_def)
  moreover from item obtain p c where "plain_name (ci_name i)"
      "lookup_single dm d lk dc LookupCollection (LookupStr parent) = Inr p"
      "lr_collection p = Some c" "ci_parent_collection i = co_id c"
    unfolding Some parent by auto
  ultimately show ?thesis using reconstructed_item_resolves [OF found dc Some parent _ keys(3)] by simp
qed

text \<open>An archive with a suite with a source package.\<close>

definition shop_collection :: "pk \<Rightarrow> string \<Rightarrow> string \<Rightarrow> collection" where
  "shop_collection i name category = \<lparr>co_id = i, co_name = name, co_category = category,
     co_full_history_retention_period = None, co_metadata_only_retention_period = None,
     co_workspace = 1, co_retains_artifacts = RetainsAlways, co_data = JObj []\<rparr>"

definition shop_item :: "pk \<Rightarrow> string \<Rightarrow> child_type \<Rightarrow> string \<Rightarrow> pk \<Rightarrow> string \<Rightarrow> collection_item" where
  "shop_item i name type category parent parent_category = \<lparr>ci_id = i, ci_name = name,
     ci_child_type = type, ci_category = category, ci_parent_collection = parent,
     ci_parent_category = parent_category,
     ci_collection = (if type = COLLECTION then Some 2 else None),
     ci_artifact = (if type = ARTIFACT then Some 1 else None),
     ci_data = [(''package'', JStr ''hello''), (''version'', JStr ''2.10''), (''architecture'', JStr ''amd64'')],
     ci_created_at = 0, ci_created_by_user = 1, ci_created_by_workflow = None, ci_removed_at = None,
     ci_removed_by_user = None, ci_removed_by_workflow = None\<rparr>"

definition shop_db :: db where
  "shop_db = inherit_db\<lparr>
     db_collections := [shop_collection 1 ''deb'' ARCHIVE, shop_collection 2 ''sid'' SUITE],
     db_items := [shop_item 1 ''sid'' COLLECTION SUITE 1 ARCHIVE,
       shop_item 2 ''hello_2.10'' ARTIFACT SOURCE_PACKAGE 2 SUITE,
       shop_item 3 ''hello_2.10_amd64'' ARTIFACT BINARY_PACKAGE 2 SUITE]\<rparr>"

definition shop_looking :: looking where
  "shop_looking = \<lparr>lk_context = initial_context, lk_user = AnonymousUser, lk_workspace = 1,
     lk_workflow_root = None\<rparr>"

definition shop_models :: data_models where
  "shop_models = \<lparr>dm_promise = (\<lambda>_. True), dm_source_package = (\<lambda>_. Inl (KeyError [])),
     dm_binary_package = (\<lambda>_. Inl (KeyError [])), dm_lintian_filenames = (\<lambda>_. Inr []),
     dm_version_less = (\<lambda>v w. False), dm_coerce = (\<lambda>_. None)\<rparr>"

lemma shop_finds: "lookup_single shop_models shop_db shop_looking None LookupAny (LookupStr ''sid@debian:suite/source:hello'')
  = Inr (item_result shop_db ''sid@debian:suite'' (shop_item 2 ''hello_2.10'' ARTIFACT SOURCE_PACKAGE 2 SUITE))"
  by code_simp

theorem reconstructed_lookup_resolves_witness:
  "lookup_single shop_models shop_db shop_looking None LookupAny (LookupStr ''sid@debian:suite/name:hello_2.10'')
  = Inr (item_result shop_db ''sid@debian:suite'' (shop_item 2 ''hello_2.10'' ARTIFACT SOURCE_PACKAGE 2 SUITE))"
proof (rule reconstructed_lookup_resolves [OF shop_finds, where root = None])
  have "lookup_single shop_models shop_db shop_looking None LookupCollection (LookupStr ''sid@debian:suite'')
    = Inr (collection_result (shop_collection 2 ''sid'' SUITE))" by code_simp
  then show "case (lr_collection_item (item_result shop_db ''sid@debian:suite''
        (shop_item 2 ''hello_2.10'' ARTIFACT SOURCE_PACKAGE 2 SUITE)),
      lr_parent_collection_lookup (item_result shop_db ''sid@debian:suite''
        (shop_item 2 ''hello_2.10'' ARTIFACT SOURCE_PACKAGE 2 SUITE))) of
      (Some item, Some parent) \<Rightarrow> plain_name (ci_name item)
        \<and> (\<exists>p c. lookup_single shop_models shop_db shop_looking None LookupCollection (LookupStr parent) = Inr p
               \<and> lr_collection p = Some c \<and> ci_parent_collection item = co_id c)
    | _ \<Rightarrow> None = (None :: work_request option)"
    by (simp add: shop_item_def plain_name_def collection_result_def shop_collection_def)
qed (simp_all add: reconstruct_lookup_def shop_db_def inherit_db_def empty_db_def shop_collection_def
       shop_item_def unique_active_names_def active_def)

text \<open>
  An archive finds the packages of its suites, but the lookup reconstructed
  from such a result asks the archive for an item of that name, which it has not: for a
  source package of the only suite of an archive the reconstructed lookup raises
  \<open>KeyError\<close>.
\<close>

theorem archive_lookup_not_reconstructed:
  "\<exists>r. lookup_single shop_models shop_db shop_looking None LookupAny (LookupStr ''deb@debian:archive/source:hello'')
      = Inr r
    \<and> reconstruct_lookup r None = Inr ''deb@debian:archive/name:hello_2.10''
    \<and> lookup_single shop_models shop_db shop_looking None LookupAny
        (LookupStr ''deb@debian:archive/name:hello_2.10'') = Inl (KeyError ''name:hello_2.10'')"
proof -
  have "lookup_single shop_models shop_db shop_looking None LookupAny
      (LookupStr ''deb@debian:archive/source:hello'')
    = Inr (item_result shop_db ''deb@debian:archive'' (shop_item 2 ''hello_2.10'' ARTIFACT SOURCE_PACKAGE 2 SUITE))"
    by code_simp
  moreover have "reconstruct_lookup (item_result shop_db ''deb@debian:archive''
      (shop_item 2 ''hello_2.10'' ARTIFACT SOURCE_PACKAGE 2 SUITE)) None = Inr ''deb@debian:archive/name:hello_2.10''"
    by code_simp
  moreover have "lookup_single shop_models shop_db shop_looking None LookupAny
        (LookupStr ''deb@debian:archive/name:hello_2.10'') = Inl (KeyError ''name:hello_2.10'')"
    by code_simp
  ultimately show ?thesis by blast
qed

definition shop_alternatives :: "lookup_alternative list" where
  "shop_alternatives = [AlternativeSingle (LookupStr ''sid@debian:suite/binary:hello_amd64''),
     LookupDict (LookupStr ''deb@debian:archive/sid'') LookupArtifact (Some SOURCE_PACKAGE)
       (Some (Startswith, JStr ''hello'')) [(''version'', Exact, JStr ''2.10'')] []]"

theorem lookup_multiple_reachable_witness:
  "let r = item_result shop_db ''deb@debian:archive/sid'' (shop_item 2 ''hello_2.10'' ARTIFACT SOURCE_PACKAGE 2 SUITE)
   in reachable_result shop_db (displayed_to shop_db shop_looking) r
     \<and> lr_result_type r \<in> set (expected_result_types LookupArtifact)"
proof -
  have "lookup_multiple shop_models shop_db shop_looking None LookupArtifact shop_alternatives =
    Inr [item_result shop_db ''sid@debian:suite'' (shop_item 3 ''hello_2.10_amd64'' ARTIFACT BINARY_PACKAGE 2 SUITE),
      item_result shop_db ''deb@debian:archive/sid'' (shop_item 2 ''hello_2.10'' ARTIFACT SOURCE_PACKAGE 2 SUITE)]"
    by code_simp
  then show ?thesis unfolding Let_def by (rule lookup_multiple_reachable) simp
qed

section \<open>Looking up what was quoted\<close>

lemma hex_value_upper: "n < 16 \<Longrightarrow> hex_value (upper_digit n) = Some n"
  using upper_digit_code [of n] by (auto simp: hex_value_def Let_def)

lemma unquote_other: "c \<noteq> CHR ''%'' \<Longrightarrow> unquote (c # s) = c # unquote s"
  by (cases "(c # s)" rule: unquote.cases) auto

lemma unquote_quote_append: "unquote (quote s @ t) = s @ unquote t"
proof (induction s)
  case (Cons c s)
  have "char_of (16 * (of_char c div 16) + of_char c mod 16 :: nat) = c" by simp
  then show ?case using Cons byte_digits [of c]
    by (cases c rule: quote_char_cases) (simp_all add: unquote_other hex_value_upper)
qed simp

lemma unquote_quote: "unquote (quote s) = s"
  using unquote_quote_append [of s "[]"] by simp

lemma lazy_until_plain: "sep \<notin> set s \<Longrightarrow> CHR 0x0A \<notin> set s \<Longrightarrow> required \<longrightarrow> s \<noteq> [] \<Longrightarrow>
    rest t = Some r \<Longrightarrow> lazy_until required sep rest (s @ sep # t) = Some (s, r)"
proof (induction s arbitrary: required)
  case (Cons c s)
  then show ?case by (auto split: option.splits)
qed simp

lemma quote_no_newline: "CHR 0x0A \<notin> set (quote s)"
proof -
  have digit: "upper_digit n \<noteq> CHR 0x0A" if "n < 16" for n
    using upper_digit_code [OF that] by (auto split: if_splits)
  have "CHR 0x0A \<notin> set (quote_char c)" for c
    using digit [OF byte_digits(1) [of c]] digit [OF byte_digits(2) [of c]]
    by (auto simp: quote_char_def is_ascii_alpha_def is_ascii_digit_def)
  then show ?thesis by (auto simp: quote_def)
qed

lemma dot_star_plain: "CHR 0x0A \<notin> set s \<Longrightarrow> dot_star s = Some s"
proof -
  assume "CHR 0x0A \<notin> set s"
  then have t: "takeWhile (\<lambda>c. c \<noteq> CHR 0x0A) s = s" by (auto simp: takeWhile_eq_all_conv)
  show ?thesis unfolding dot_star_def t by (simp add: at_dollar_def)
qed

definition history_entry :: "string \<Rightarrow> string \<Rightarrow> string \<Rightarrow> string \<Rightarrow> string \<Rightarrow> collection_item \<Rightarrow> bool" where
  "history_entry kind task_type task_name subject context i \<longleftrightarrow> ci_child_type i = BARE
     \<and> has_data ''task_type'' (JStr task_type) i \<and> has_data ''task_name'' (JStr task_name) i
     \<and> text_or_empty ''subject'' i = JStr subject \<and> text_or_empty ''context'' i = JStr context
     \<and> (kind = ''last-success'' \<longrightarrow> has_data ''result'' (JStr ''success'') i)
     \<and> (kind = ''last-failure'' \<longrightarrow> has_data ''result'' (JStr ''failure'') i \<or> has_data ''result'' (JStr ''error'') i)"

text \<open>
  A query of the task history whose subject and context were quoted is read back as
  it was meant, whatever the subject and the context are: it finds the latest active
  entry of that task, with that subject and context, and with the kind of result that was asked for.
\<close>

theorem history_lookup_finds:
  assumes "kind \<in> {''last-entry'', ''last-success'', ''last-failure''}"
    and "task_type \<noteq> []" "CHR '':'' \<notin> set task_type" "CHR 0x0A \<notin> set task_type"
    and "task_name \<noteq> []" "CHR '':'' \<notin> set task_name" "CHR 0x0A \<notin> set task_name"
  shows "history_lookup d self
      (kind @ '':'' @ task_type @ '':'' @ task_name @ '':'' @ quote subject @ '':'' @ quote context)
    = Inr (latest_by ci_created_at
        (filter (history_entry kind task_type task_name subject context) (active_in d (co_id self))))"
proof -
  have kind: "takeWhile (\<lambda>c. c \<noteq> CHR '':'') (kind @ '':'' @ s) = kind" for s
    using assms(1) by auto
  have "history_query (kind @ '':'' @ task_type @ '':'' @ task_name @ '':'' @ quote subject @ '':'' @ quote context)
    = Some (kind, task_type, task_name, quote subject, quote context)"
    unfolding history_query_def Let_def kind using assms
    by (auto simp: after_prefix_def starts_with_def lazy_until_plain quote_no_colon quote_no_newline dot_star_plain)
  then show ?thesis
    by (simp add: history_lookup_def unquote_quote history_entry_def [abs_def])
qed

definition shop_history :: db where
  "shop_history = inherit_db\<lparr>
     db_collections := [shop_collection 1 ''_'' TASK_HISTORY],
     db_items := [(shop_item 1 ''a'' BARE ''debusine:historical-task-run'' 1 TASK_HISTORY)\<lparr>ci_data :=
         [(''task_type'', JStr ''Worker''), (''task_name'', JStr ''sbuild''), (''subject'', JStr ''a:b%''),
          (''result'', JStr ''error'')], ci_created_at := 5\<rparr>,
       (shop_item 2 ''b'' BARE ''debusine:historical-task-run'' 1 TASK_HISTORY)\<lparr>ci_data :=
         [(''task_type'', JStr ''Worker''), (''task_name'', JStr ''sbuild''), (''subject'', JStr ''a:b%''),
          (''result'', JStr ''success'')], ci_created_at := 7\<rparr>]\<rparr>"

theorem history_lookup_finds_witness:
  "(case history_lookup shop_history (shop_collection 1 ''_'' TASK_HISTORY)
      ''last-failure:Worker:sbuild:a%3Ab%25:'' of Inr (Some i) \<Rightarrow> ci_id i = 1 | _ \<Rightarrow> False)"
proof -
  have q: "''last-failure'' @ '':'' @ ''Worker'' @ '':'' @ ''sbuild'' @ '':'' @ quote ''a:b%'' @ '':'' @ quote []
      = ''last-failure:Worker:sbuild:a%3Ab%25:''"
    by code_simp
  have "latest_by ci_created_at (filter (history_entry ''last-failure'' ''Worker'' ''sbuild'' ''a:b%'' [])
      (active_in shop_history (co_id (shop_collection 1 ''_'' TASK_HISTORY)))) = Some (hd (db_items shop_history))"
    by code_simp
  with history_lookup_finds [of "''last-failure''" "''Worker''" "''sbuild''" shop_history
      "shop_collection 1 ''_'' TASK_HISTORY" "''a:b%''" "[]", unfolded q]
  show ?thesis by (simp add: shop_history_def shop_item_def)
qed

end
