(* ===== verification/Vacuum.thy ===== *)
theory Vacuum
  imports Expiry "HOL-Library.List_Lexorder" "HOL-Library.Char_ord"
begin

text \<open>
  Maintenance of the storage (debusine/server/management/commands/vacuum_storage.py):
  files that no row refers to, the policies that populate and drain stores and keep
  their sizes within limits, and artifacts that were never completed.
\<close>

section \<open>Settings and backends\<close>

text \<open>
  The options and settings of the command; which locations and which paths of the upload
  directory were modified more than a day ago; and the backends that talk to remote
  services: the contents of a file there, and the clean-up and the entries of a store.
\<close>

record vacuum =
  vc_storage :: storage
  vc_dry_run :: bool
  vc_one_day_ago :: time
  vc_old :: "location \<Rightarrow> bool"
  vc_upload_directory :: string
  vc_remote_copy :: "file_store \<Rightarrow> file_row \<Rightarrow> bytes dbact"
  vc_remote_delete :: "file_store \<Rightarrow> unit dbact"
  vc_remote_missing :: "file_store \<Rightarrow> db \<Rightarrow> nat"

text \<open>\<open>get_temporary_local_path\<close>: what is read from a store.\<close>

definition read_or_raise :: "location \<Rightarrow> exn \<Rightarrow> bytes dbact" where
  "read_or_raise l e = with_db (\<lambda>d. case read_location l d of None \<Rightarrow> raise e | Some c \<Rightarrow> ret c)"

definition temporary_copy :: "vacuum \<Rightarrow> file_store \<Rightarrow> file_row \<Rightarrow> bytes dbact" where
  "temporary_copy vc store fileobj =
     (case fs_backend store of
        LocalBackend \<Rightarrow>
          bind_act (lift_res (local_base_directory (vc_storage vc) store)) (\<lambda>base.
            read_or_raise (LocalPath (base @ ''/'' @ local_identifier fileobj))
              (FileNotFoundError (local_identifier fileobj)))
      | MemoryBackend \<Rightarrow>
          read_or_raise (MemoryKey (memory_name store) (hex (fi_sha256 fileobj)))
            (KeyError (hex (fi_sha256 fileobj)))
      | _ \<Rightarrow> vc_remote_copy vc store fileobj)"

section \<open>Files that no row refers to\<close>

definition in_directory :: "string \<Rightarrow> location \<Rightarrow> bool" where
  "in_directory base l = (case l of LocalPath p \<Rightarrow> starts_with (base @ ''/'') p | MemoryKey _ _ \<Rightarrow> False)"

text \<open>\<open>os.walk\<close> of the base directory of a local store.\<close>

definition local_entries :: "string \<Rightarrow> db \<Rightarrow> location list" where
  "local_entries base d = filter (in_directory base) (map fst (db_storage d))"

definition entries_from_files_in_file_store_db :: "string \<Rightarrow> file_store \<Rightarrow> db \<Rightarrow> location list" where
  "entries_from_files_in_file_store_db base store d =
     List.map_filter (\<lambda>x. map_option (\<lambda>f. LocalPath (base @ ''/'' @ local_identifier f)) (get_file d (fx_file x)))
       (filter (\<lambda>x. fx_store x = fs_id store) (db_file_in_stores d))"

definition delete_unreferenced_in :: "vacuum \<Rightarrow> file_store \<Rightarrow> unit dbact" where
  "delete_unreferenced_in vc store =
     (if fs_backend store = LocalBackend then
        bind_act (lift_res (local_base_directory (vc_storage vc) store)) (\<lambda>base. with_db (\<lambda>d.
          let established_entries_in_storage = filter (vc_old vc) (local_entries base d);
              entries_in_db = entries_from_files_in_file_store_db base store d;
              entries_to_delete = filter (\<lambda>l. l \<notin> set entries_in_db) established_entries_in_storage
          in for_each entries_to_delete (\<lambda>l. if vc_dry_run vc then ret () else erase_location l)))
      else if fs_backend store = S3 then (if vc_dry_run vc then ret () else vc_remote_delete vc store)
      else ret ())"

definition delete_unreferenced_files :: "vacuum \<Rightarrow> unit dbact" where
  "delete_unreferenced_files vc = with_db (\<lambda>d. for_each (db_file_stores d) (delete_unreferenced_in vc))"

section \<open>Copying and draining one file\<close>

definition copy_file :: "vacuum \<Rightarrow> file_store \<Rightarrow> file_store \<Rightarrow> file_row \<Rightarrow> bool \<Rightarrow> unit dbact" where
  "copy_file vc source target fileobj move =
     (if vc_dry_run vc then ret ()
      else
        bind_act (lift_res (get_entry (vc_storage vc) source fileobj)) (\<lambda>source_entry.
        bind_act (lift_res (get_entry (vc_storage vc) target fileobj)) (\<lambda>target_entry.
        bind_act (temporary_copy vc source fileobj) (\<lambda>contents.
        bind_act (add_file (fs_id target) target_entry fileobj contents) (\<lambda>_.
          if move then remove_file (fs_id source) source_entry fileobj else ret ())))))"

definition remove_from :: "vacuum \<Rightarrow> file_store \<Rightarrow> file_row \<Rightarrow> unit dbact" where
  "remove_from vc store fileobj =
     (if vc_dry_run vc then ret ()
      else bind_act (lift_res (get_entry (vc_storage vc) store fileobj))
             (\<lambda>en. remove_file (fs_id store) en fileobj))"

definition other_than :: "file_store \<Rightarrow> file_store list \<Rightarrow> file_store list" where
  "other_than store = filter (\<lambda>s. fs_id s \<noteq> fs_id store)"

definition drain_file ::
  "vacuum \<Rightarrow> pk \<Rightarrow> file_store_in_scope \<Rightarrow> file_store \<Rightarrow> file_row \<Rightarrow> bool dbact" where
  "drain_file vc scope policies store fileobj = with_db (\<lambda>d.
     if other_than store (download_file_stores d scope fileobj) \<noteq> []
     then seq_act (remove_from vc store fileobj) (ret True)
     else
       let upload_stores = other_than store (upload_file_stores d scope fileobj True False);
           upload_stores = (case sx_drain_to policies of None \<Rightarrow> upload_stores
                            | Some name \<Rightarrow> filter (\<lambda>s. fs_name s = name) upload_stores)
       in case upload_stores of
            [] \<Rightarrow> ret False
          | upload_store # _ \<Rightarrow> seq_act (copy_file vc store upload_store fileobj True) (ret True))"

section \<open>Policies\<close>

text \<open>
  One transaction per row of a query that was made before the loop; what a row does says
  how to go on, and whether to stop.
\<close>

primrec visit_each :: "('x \<Rightarrow> 's \<Rightarrow> ('s \<times> bool) dbact) \<Rightarrow> 'x list \<Rightarrow> 's \<Rightarrow> 's dbact" where
  "visit_each step [] acc = ret acc"
| "visit_each step (x # xs) acc =
     bind_act (atomic_db (step x acc)) (\<lambda>(acc, stop). if stop then ret acc else visit_each step xs acc)"

text \<open>\<open>refresh_from_db\<close>: a file that is gone is left out.\<close>

definition if_still_there :: "file_row \<Rightarrow> 's \<Rightarrow> (file_row \<Rightarrow> ('s \<times> bool) dbact) \<Rightarrow> ('s \<times> bool) dbact" where
  "if_still_there fileobj acc k = with_db (\<lambda>d.
     case get_file d (fi_id fileobj) of None \<Rightarrow> ret (acc, False) | Some f \<Rightarrow> k f)"

definition artifact_scope :: "db \<Rightarrow> artifact \<Rightarrow> pk option" where
  "artifact_scope d a = map_option ws_scope (get_workspace d (ar_workspace a))"

definition artifacts_with_file :: "db \<Rightarrow> pk \<Rightarrow> pk \<Rightarrow> artifact list" where
  "artifacts_with_file d scope f = filter (\<lambda>a. artifact_scope d a = Some scope
     \<and> list_ex (\<lambda>x. fa_artifact x = ar_id a \<and> fa_file x = f) (db_file_in_artifacts d)) (db_artifacts d)"

definition file_in :: "db \<Rightarrow> file_store \<Rightarrow> file_row \<Rightarrow> bool" where
  "file_in d store f = list_ex (in_store (fs_id store) (fi_id f)) (db_file_in_stores d)"

definition files_in_scope :: "db \<Rightarrow> pk \<Rightarrow> file_row list" where
  "files_in_scope d scope = sort_key fi_sha256
     (filter (\<lambda>f. artifacts_with_file d scope (fi_id f) \<noteq> []) (db_files d))"

text \<open>
  The subquery of \<open>_apply_populate_policy\<close>: stores of any scope, one row for each link.
\<close>

definition populate_sources :: "db \<Rightarrow> file_store \<Rightarrow> file_row \<Rightarrow> (file_store \<times> int option \<times> int option) list" where
  "populate_sources d store f = concat (map (\<lambda>s.
     case filter (\<lambda>x. sx_file_store x = fs_id s) (db_file_stores_in_scope d) of
       [] \<Rightarrow> [(s, None, None)]
     | links \<Rightarrow> map (\<lambda>x. (s, sx_download_priority x, sx_upload_priority x)) links)
     (filter (\<lambda>s. \<not> written_only d s \<and> file_in d s f) (other_than store (db_file_stores d))))"

definition download_store :: "db \<Rightarrow> file_store \<Rightarrow> file_row \<Rightarrow> file_store option" where
  "download_store d store f =
     (case sort_key (\<lambda>(s, dp, up). (desc_nulls_last dp, desc_nulls_last up)) (populate_sources d store f) of
        [] \<Rightarrow> None | (s, _) # _ \<Rightarrow> Some s)"

definition populate_file ::
  "vacuum \<Rightarrow> pk \<Rightarrow> file_store \<Rightarrow> file_row \<times> file_store option \<Rightarrow> bool \<Rightarrow> (bool \<times> bool) dbact" where
  "populate_file vc scope store = (\<lambda>(fileobj, source) ok.
     if_still_there fileobj ok (\<lambda>f. with_db (\<lambda>d.
       case source of
         None \<Rightarrow> ret (False, False)
       | Some source \<Rightarrow>
           if fs_id store \<notin> fs_id ` set (upload_file_stores d scope f True True) then ret (False, True)
           else seq_act (copy_file vc source store f False) (ret (ok, False)))))"

definition populate_store :: "vacuum \<Rightarrow> pk \<Rightarrow> file_store \<times> file_store_in_scope \<Rightarrow> bool \<Rightarrow> bool dbact" where
  "populate_store vc scope = (\<lambda>(store, policies) ok. with_db (\<lambda>d.
     if sx_drain policies \<or> sx_read_only policies then raise (AssertionError [])
     else visit_each (populate_file vc scope store)
            (map (\<lambda>f. (f, download_store d store f))
              (filter (\<lambda>f. \<not> file_in d store f) (files_in_scope d scope))) ok))"

primrec for_stores ::
  "(file_store \<times> file_store_in_scope \<Rightarrow> bool \<Rightarrow> bool dbact) \<Rightarrow>
     (file_store \<times> file_store_in_scope) list \<Rightarrow> bool \<Rightarrow> bool dbact" where
  "for_stores f [] ok = ret ok"
| "for_stores f (s # ss) ok = bind_act (f s ok) (for_stores f ss)"

definition stores_with :: "db \<Rightarrow> pk \<Rightarrow> (file_store \<times> file_store_in_scope \<Rightarrow> bool) \<Rightarrow>
    (file_store \<times> file_store_in_scope) list" where
  "stores_with d scope P = sort_key (\<lambda>(s, x). fs_id s) (filter P (scope_stores d scope))"

definition apply_populate_policy :: "vacuum \<Rightarrow> pk \<Rightarrow> bool dbact" where
  "apply_populate_policy vc scope = with_db (\<lambda>d.
     for_stores (populate_store vc scope) (stores_with d scope (\<lambda>(s, x). sx_populate x)) True)"

definition drain_visit ::
  "vacuum \<Rightarrow> pk \<Rightarrow> file_store \<times> file_store_in_scope \<Rightarrow> file_row \<Rightarrow> bool \<Rightarrow> (bool \<times> bool) dbact" where
  "drain_visit vc scope = (\<lambda>(store, policies) fileobj ok.
     if_still_there fileobj ok (\<lambda>f.
       bind_act (drain_file vc scope policies store f) (\<lambda>drained. ret (ok \<and> drained, False))))"

definition drain_store :: "vacuum \<Rightarrow> pk \<Rightarrow> file_store \<times> file_store_in_scope \<Rightarrow> bool \<Rightarrow> bool dbact" where
  "drain_store vc scope = (\<lambda>(store, policies) ok. with_db (\<lambda>d.
     if sx_populate policies then raise (AssertionError [])
     else visit_each (drain_visit vc scope (store, policies))
            (filter (file_in d store) (files_in_scope d scope)) ok))"

definition apply_drain_policy :: "vacuum \<Rightarrow> pk \<Rightarrow> bool dbact" where
  "apply_drain_policy vc scope = with_db (\<lambda>d.
     for_stores (drain_store vc scope) (stores_with d scope (\<lambda>(s, x). sx_drain x)) True)"

section \<open>Limits\<close>

definition limits :: "file_store \<Rightarrow> int list" where
  "limits store = List.map_filter id [fs_soft_max_size store, fs_max_size store]"

definition over_limit :: "file_store \<Rightarrow> bool" where
  "over_limit store \<longleftrightarrow> list_ex (\<lambda>limit. limit < fs_total_size store) (limits store)"

definition size_to_drain :: "file_store \<Rightarrow> int" where
  "size_to_drain store = Max (set (map (\<lambda>limit. fs_total_size store - limit) (limits store)))"

text \<open>
  \<open>distinct().order_by("artifact__created_at", ...)\<close>: the column of the order belongs to
  the row, so a file is there once for every creation time of its artifacts.
\<close>

definition oldest_first :: "db \<Rightarrow> pk \<Rightarrow> file_store \<Rightarrow> (time \<times> file_row) list" where
  "oldest_first d scope store =
     sort_key (\<lambda>(created_at, f). (created_at, - int (fi_size f), fi_sha256 f))
       (concat (map (\<lambda>f. map (\<lambda>created_at. (created_at, f))
            (remdups (map ar_created_at (artifacts_with_file d scope (fi_id f)))))
          (filter (file_in d store) (db_files d))))"

definition limit_visit ::
  "vacuum \<Rightarrow> pk \<Rightarrow> file_store \<times> file_store_in_scope \<Rightarrow> time \<times> file_row \<Rightarrow> bool \<times> int \<Rightarrow>
     ((bool \<times> int) \<times> bool) dbact" where
  "limit_visit vc scope = (\<lambda>(store, policies) (_, fileobj) (ok, left).
     if_still_there fileobj (ok, left) (\<lambda>f.
       bind_act (drain_file vc scope policies store f) (\<lambda>drained.
         if drained then ret ((ok, left - int (fi_size f)), left - int (fi_size f) \<le> 0)
         else ret ((False, left), False))))"

definition limit_store :: "vacuum \<Rightarrow> pk \<Rightarrow> file_store \<times> file_store_in_scope \<Rightarrow> bool \<Rightarrow> bool dbact" where
  "limit_store vc scope = (\<lambda>(store, policies) ok.
     if sx_drain policies \<and> vc_dry_run vc then ret ok
     else with_db (\<lambda>d. bind_act
       (visit_each (limit_visit vc scope (store, policies)) (oldest_first d scope store)
          (ok, size_to_drain store))
       (\<lambda>(ok, _). ret ok)))"

definition apply_max_size_limits :: "vacuum \<Rightarrow> pk \<Rightarrow> bool dbact" where
  "apply_max_size_limits vc scope = with_db (\<lambda>d.
     for_stores (limit_store vc scope) (stores_with d scope (\<lambda>(s, x). over_limit s)) True)"

primrec policies_of_scopes :: "vacuum \<Rightarrow> pk list \<Rightarrow> bool \<Rightarrow> bool dbact" where
  "policies_of_scopes vc [] ok = ret ok"
| "policies_of_scopes vc (scope # scopes) ok =
     bind_act (apply_populate_policy vc scope) (\<lambda>populated.
     bind_act (apply_drain_policy vc scope) (\<lambda>drained.
     bind_act (apply_max_size_limits vc scope) (\<lambda>limited.
       policies_of_scopes vc scopes (ok \<and> populated \<and> drained \<and> limited))))"

definition apply_storage_policies :: "vacuum \<Rightarrow> bool dbact" where
  "apply_storage_policies vc = with_db (\<lambda>d. policies_of_scopes vc (sort (map sc_id (db_scopes d))) True)"

section \<open>Artifacts that were not completed\<close>

definition complete_artifact :: "db \<Rightarrow> artifact \<Rightarrow> bool" where
  "complete_artifact d a = list_all (\<lambda>f. fa_artifact f = ar_id a \<longrightarrow> fa_complete f) (db_file_in_artifacts d)"

definition incomplete_old_artifacts :: "vacuum \<Rightarrow> db \<Rightarrow> artifact list" where
  "incomplete_old_artifacts vc d = sort_key ar_id
     (filter (\<lambda>a. ar_created_at a < vc_one_day_ago vc \<and> \<not> complete_artifact d a
        \<and> items_of_artifact d (ar_id a) = []) (db_artifacts d))"

definition delete_incomplete_artifact :: "vacuum \<Rightarrow> artifact \<Rightarrow> unit dbact" where
  "delete_incomplete_artifact vc a =
     (if vc_dry_run vc then ret ()
      else seq_act (with_db (\<lambda>d. for_each (filter (\<lambda>f. fa_artifact f = ar_id a) (db_file_in_artifacts d))
                     (delete_file_in_artifact (vc_upload_directory vc))))
             (delete_artifact_row (ar_id a)))"

text \<open>The relations are deleted before the rows are fetched, dry run or not.\<close>

definition delete_relations_of_all :: "pk list \<Rightarrow> unit dbact" where
  "delete_relations_of_all ids = modify_db (\<lambda>d. d\<lparr>db_artifact_relations :=
     filter (\<lambda>r. rl_artifact r \<notin> set ids \<and> rl_target r \<notin> set ids) (db_artifact_relations d)\<rparr>)"

definition delete_incomplete_old_artifacts :: "vacuum \<Rightarrow> unit dbact" where
  "delete_incomplete_old_artifacts vc =
     seq_act (with_db (\<lambda>d. delete_relations_of_all (map ar_id (incomplete_old_artifacts vc d))))
       (with_db (\<lambda>d. for_each (incomplete_old_artifacts vc d) (delete_incomplete_artifact vc)))"

section \<open>The upload directory, reports and the command\<close>

definition upload_paths :: "vacuum \<Rightarrow> db \<Rightarrow> location list" where
  "upload_paths vc d = map (\<lambda>u. LocalPath (absolute_file_path (vc_upload_directory vc) u)) (db_file_uploads d)"

definition delete_orphan_files_from_upload_directory :: "vacuum \<Rightarrow> unit dbact" where
  "delete_orphan_files_from_upload_directory vc = with_db (\<lambda>d.
     for_each (filter (\<lambda>l. vc_old vc l \<and> l \<notin> set (upload_paths vc d))
                (local_entries (vc_upload_directory vc) d))
       (\<lambda>l. if vc_dry_run vc then ret () else erase_location l))"

definition missing_in_store :: "vacuum \<Rightarrow> db \<Rightarrow> file_store \<Rightarrow> nat res" where
  "missing_in_store vc d store =
     (case fs_backend store of
        LocalBackend \<Rightarrow>
          bind_res (local_base_directory (vc_storage vc) store) (\<lambda>base. Inr (card
            (set (entries_from_files_in_file_store_db base store d) - set (local_entries base d))))
      | MemoryBackend \<Rightarrow> Inr (card
          (set (List.map_filter (\<lambda>x. map_option (\<lambda>f. MemoryKey (memory_name store) (hex (fi_sha256 f)))
               (get_file d (fx_file x))) (filter (\<lambda>x. fx_store x = fs_id store) (db_file_in_stores d)))
           - set (map fst (db_storage d))))
      | _ \<Rightarrow> Inr (vc_remote_missing vc store d))"

primrec present_in :: "vacuum \<Rightarrow> db \<Rightarrow> file_store list \<Rightarrow> bool res" where
  "present_in vc d [] = Inr True"
| "present_in vc d (store # stores) =
     bind_res (missing_in_store vc d store) (\<lambda>missing.
     bind_res (present_in vc d stores) (\<lambda>ok. Inr (missing = 0 \<and> ok)))"

definition no_missing_files_in_stores :: "vacuum \<Rightarrow> db \<Rightarrow> bool res" where
  "no_missing_files_in_stores vc d = present_in vc d (sort_key fs_id (db_file_stores d))"

definition no_missing_uploads :: "vacuum \<Rightarrow> db \<Rightarrow> bool" where
  "no_missing_uploads vc d \<longleftrightarrow>
     set (upload_paths vc d) \<subseteq> set (local_entries (vc_upload_directory vc) d)"

text \<open>The exit status of \<open>handle\<close>, as whether something is left to be corrected.\<close>

definition handle_vacuum_storage :: "vacuum \<Rightarrow> bool dbact" where
  "handle_vacuum_storage vc =
     seq_act (transaction False (delete_unreferenced_files vc))
    (bind_act (apply_storage_policies vc) (\<lambda>storage_policies_correct.
     seq_act (transaction False (delete_incomplete_old_artifacts vc))
    (seq_act (transaction False (delete_orphan_files_from_upload_directory vc))
       (with_db (\<lambda>d.
          bind_act (lift_res (no_missing_files_in_stores vc d)) (\<lambda>missing_files_from_stores_correct.
            ret (\<not> storage_policies_correct \<or> \<not> missing_files_from_stores_correct
                 \<or> \<not> no_missing_uploads vc d)))))))"

end
