(* ===== verification/Vacuuming.thy ===== *)
theory Vacuuming
  imports Vacuum
begin

text \<open>
  What storage maintenance does: a file that a scope can download stays so while the
  policies are applied, unless another scope drains a store that they share; what draining
  achieves; and what the clean-up of unreferenced files and incomplete artifacts touches.
\<close>

section \<open>What moves a file\<close>

text \<open>
  The links between scopes and stores, the stores, the artifacts and their files stay; where
  files are changes.
\<close>

definition same_stores :: "db \<Rightarrow> db \<Rightarrow> bool" where
  "same_stores d d' \<longleftrightarrow> db_file_stores_in_scope d' = db_file_stores_in_scope d
     \<and> map fs_id (db_file_stores d') = map fs_id (db_file_stores d)
     \<and> db_files d' = db_files d \<and> db_artifacts d' = db_artifacts d
     \<and> db_file_in_artifacts d' = db_file_in_artifacts d \<and> db_workspaces d' = db_workspaces d"

lemma same_stores_refl [simp]: "same_stores d d"
  by (simp add: same_stores_def)

lemma same_stores_chain: "same_stores d d' \<Longrightarrow> same_stores d' d'' \<Longrightarrow> same_stores d d''"
  by (simp add: same_stores_def)

lemma same_stores_add_total: "same_stores d (add_to_total s n d)"
  by (simp add: same_stores_def add_to_total_def tbl_upd_def comp_def if_distrib cong: if_cong)

lemma same_stores_simps [simp]:
  "same_stores d (insert_file_in_store x d)" "same_stores d (delete_file_in_store x d)"
  "same_stores d (d\<lparr>db_storage := t\<rparr>)"
  using same_stores_add_total [of "d\<lparr>db_file_in_stores := db_file_in_stores d @ [x]\<rparr>"]
    same_stores_add_total [of "d\<lparr>db_file_in_stores := remove1 x (db_file_in_stores d)\<rparr>"]
  by (simp_all add: same_stores_def insert_file_in_store_def delete_file_in_store_def)

lemma same_stores_delete_all: "same_stores d (fold delete_file_in_store xs d)"
  by (induction xs arbitrary: d) (auto intro: same_stores_chain [OF same_stores_simps(2)])

lemma storage_only_rows: "storage_only d d' \<Longrightarrow> same_stores d d' \<and> db_file_in_stores d' = db_file_in_stores d"
  unfolding storage_only_def by (erule ssubst) (simp add: same_stores_def)

lemma rows_delete_all:
  "db_file_in_stores (fold delete_file_in_store xs d) = fold remove1 xs (db_file_in_stores d)"
  by (induction xs arbitrary: d) (simp_all add: rows_delete)

lemma remove_all_filter: "mset (fold remove1 (filter P xs) ys) = mset ys - mset (filter P xs)"
proof -
  have "mset (fold remove1 zs ys) = mset ys - mset zs" for zs
    by (induction zs arbitrary: ys) simp_all
  then show ?thesis .
qed

lemma remaining_rows:
  "set (db_file_in_stores (fold delete_file_in_store (filter P (db_file_in_stores d)) d))
    = {x \<in> set (db_file_in_stores d). \<not> P x}"
proof -
  let ?rows = "db_file_in_stores d"
  have "mset ?rows - mset (filter P ?rows) = mset (filter (\<lambda>x. \<not> P x) ?rows)"
    by (metis (no_types) add_diff_cancel_left' mset_filter multiset_partition)
  then have "mset (fold remove1 (filter P ?rows) ?rows) = mset (filter (\<lambda>x. \<not> P x) ?rows)"
    by (simp add: remove_all_filter)
  then show ?thesis unfolding rows_delete_all by (metis mset_eq_setD set_filter)
qed

lemma atomic_db_cases:
  assumes "atomic_db m d = (r, d')"
  obtains (returns) y where "r = Inr y" "m d = (Inr y, d')"
    | (raises) e t where "r = Inl e" "d' = d\<lparr>db_storage := t\<rparr>"
  using assms by (auto simp: atomic_db_def split: prod.splits sum.splits)

lemma remove_file_effect:
  assumes "keeps_tables en" and "remove_file store en f d = (r, d')"
  shows "same_stores d d'
    \<and> (set (db_file_in_stores d') = (if r = Inr () then {x \<in> set (db_file_in_stores d). \<not> in_store store (fi_id f) x}
         else set (db_file_in_stores d)))"
  using assms(2) unfolding remove_file_def
proof (cases rule: atomic_db_cases)
  case (returns y)
  let ?d = "fold delete_file_in_store (filter (in_store store (fi_id f)) (db_file_in_stores d)) d"
  from returns have "en_remove en ?d = (Inr y, d')"
    by (simp add: seq_act_def bind_act_def modify_db_def)
  then have "storage_only ?d d'" using assms(1) unfolding keeps_tables_def by (metis snd_conv)
  with storage_only_rows [OF this] returns(1) remaining_rows show ?thesis
    by (auto intro: same_stores_chain [OF same_stores_delete_all])
qed simp

lemma add_file_effect:
  assumes "keeps_tables en" and "add_file store en f c d = (r, d')"
  shows "same_stores d d' \<and> set (db_file_in_stores d) \<subseteq> set (db_file_in_stores d')
    \<and> set (db_file_in_stores d') \<subseteq> set (db_file_in_stores d) \<union> Collect (in_store store (fi_id f))
    \<and> (\<forall>y. r = Inr y \<longrightarrow> (\<exists>x\<in>set (db_file_in_stores d'). in_store store (fi_id f) x))"
  using assms(2) unfolding add_file_def
proof (cases rule: atomic_db_cases)
  case (returns y)
  then obtain created d1 where c: "get_or_create_file_in_store store (fi_id f) d = (Inr created, d1)"
    and rest: "(if created then seq_act (en_add en c) (ret f) else bind_act (en_same_contents en c)
        (\<lambda>same. if same then ret f else raise (ValueError ''add_file contents mismatch''))) d1 = (Inr y, d')"
    by (auto simp: bind_act_def raise_def split: if_splits prod.splits sum.splits)
  have "storage_only d1 (snd (en_add en c d1))" "storage_only d1 (snd (en_same_contents en c d1))"
    using assms(1) by (simp_all add: keeps_tables_def)
  then have "storage_only d1 d'"
    using rest by (auto simp: seq_act_def bind_act_def ret_def raise_def split: if_splits prod.splits sum.splits)
  note d1 = storage_only_rows [OF this]
  have "same_stores d d1 \<and> set (db_file_in_stores d) \<subseteq> set (db_file_in_stores d1)
      \<and> set (db_file_in_stores d1) \<subseteq> set (db_file_in_stores d) \<union> Collect (in_store store (fi_id f))
      \<and> (\<exists>x\<in>set (db_file_in_stores d1). in_store store (fi_id f) x)"
    using c unfolding get_or_create_file_in_store_def
    by (auto simp: with_db_def ret_def raise_def seq_act_def bind_act_def modify_db_def
        insert_file_in_store_def add_to_total_def in_store_def same_stores_def tbl_upd_def comp_def
        if_distrib find_Some_iff split: option.splits if_splits cong: if_cong)
  with d1 show ?thesis by (auto intro: same_stores_chain)
qed simp

text \<open>The backends change nothing but what they store.\<close>

definition backends_keep_tables :: "vacuum \<Rightarrow> bool" where
  "backends_keep_tables vc \<longleftrightarrow>
     (\<forall>store f en. get_entry (vc_storage vc) store f = Inr en \<longrightarrow> keeps_tables en)
     \<and> (\<forall>store f d. storage_only d (snd (vc_remote_copy vc store f d)))"

lemma storage_only_refl [simp]: "storage_only d d"
  by (simp add: storage_only_def)

lemma temporary_copy_storage:
  "backends_keep_tables vc \<Longrightarrow> storage_only d (snd (temporary_copy vc store f d))"
  by (auto simp: temporary_copy_def backends_keep_tables_def bind_act_def lift_res_def read_or_raise_def
      with_db_def raise_def ret_def split: backend_choice.split sum.split option.split)

definition has_row :: "db \<Rightarrow> pk \<Rightarrow> pk \<Rightarrow> bool" where
  "has_row d store f \<longleftrightarrow> (\<exists>x\<in>set (db_file_in_stores d). in_store store f x)"

text \<open>All a move takes away is the row of one file in one store.\<close>

definition takes_at_most :: "pk \<Rightarrow> pk \<Rightarrow> db \<Rightarrow> db \<Rightarrow> bool" where
  "takes_at_most store f d d' \<longleftrightarrow> same_stores d d'
     \<and> (\<forall>s g. has_row d s g \<longrightarrow> has_row d' s g \<or> (s = store \<and> g = f))"

lemma takes_at_most_more:
  "same_stores d d' \<Longrightarrow> set (db_file_in_stores d) \<subseteq> set (db_file_in_stores d') \<Longrightarrow> takes_at_most s f d d'"
  by (auto simp: takes_at_most_def has_row_def)

lemma takes_at_most_trans: "takes_at_most s f d d' \<Longrightarrow> takes_at_most s f d' d'' \<Longrightarrow> takes_at_most s f d d''"
  unfolding takes_at_most_def by (blast intro: same_stores_chain)

lemma remove_file_takes:
  assumes "keeps_tables en" and "remove_file store en f d = (r, d')"
  shows "takes_at_most store (fi_id f) d d' \<and> (r = Inr () \<longrightarrow> \<not> has_row d' store (fi_id f))"
  using remove_file_effect [OF assms] by (auto simp: takes_at_most_def has_row_def in_store_def split: if_splits)

lemma copy_file_effect:
  assumes ok: "backends_keep_tables vc" and run: "copy_file vc source target f move d = (r, d')"
    and apart: "fs_id source \<noteq> fs_id target"
  shows "takes_at_most (fs_id source) (fi_id f) d d'
    \<and> (\<not> move \<longrightarrow> (\<forall>s g. has_row d s g \<longrightarrow> has_row d' s g))
    \<and> (\<forall>s g. has_row d' s g \<longrightarrow> has_row d s g \<or> s = fs_id target)
    \<and> (r = Inr () \<and> \<not> vc_dry_run vc \<longrightarrow> has_row d' (fs_id target) (fi_id f)
         \<and> (move \<longrightarrow> \<not> has_row d' (fs_id source) (fi_id f)))
    \<and> (has_row d (fs_id source) (fi_id f) \<and> \<not> has_row d' (fs_id source) (fi_id f)
         \<longrightarrow> has_row d' (fs_id target) (fi_id f))
    \<and> (vc_dry_run vc \<longrightarrow> d' = d)"
proof -
  let ?st = "vc_storage vc"
  from run consider "d' = d" "r = Inr () \<longrightarrow> vc_dry_run vc"
    | (copies) se te c d1 q d2 where "\<not> vc_dry_run vc" "get_entry ?st source f = Inr se" "get_entry ?st target f = Inr te"
        "temporary_copy vc source f d = (Inr c, d1)" "add_file (fs_id target) te f c d1 = (q, d2)"
        "(case q of Inl e \<Rightarrow> (Inl e, d2) | Inr _ \<Rightarrow> (if move then remove_file (fs_id source) se f else ret ()) d2) = (r, d')"
    | (unread) e d1 where "\<not> vc_dry_run vc" "temporary_copy vc source f d = (Inl e, d1)" "r = Inl e" "d' = d1"
    by (auto simp: copy_file_def bind_act_def lift_res_def ret_def split: if_splits prod.splits sum.splits)
  then show ?thesis
  proof cases
    case 1
    then show ?thesis by (auto intro: takes_at_most_more)
  next
    case unread
    from temporary_copy_storage [OF ok, of d source f] unread have "storage_only d d'" by simp
    from storage_only_rows [OF this] unread show ?thesis
      by (auto intro: takes_at_most_more simp: has_row_def)
  next
    case copies
    from temporary_copy_storage [OF ok, of d source f] copies have "storage_only d d1" by simp
    note d1 = storage_only_rows [OF this]
    from ok copies have keeps: "keeps_tables se" "keeps_tables te" by (auto simp: backends_keep_tables_def)
    note d2 = add_file_effect [OF keeps(2) copies(5)]
    have more: "takes_at_most (fs_id source) (fi_id f) d d2"
      using d1 d2 by (auto intro!: takes_at_most_more intro: same_stores_chain)
    have origin: "has_row d2 s g \<longrightarrow> has_row d s g \<or> s = fs_id target" for s g
      using d1 d2 by (auto simp: has_row_def in_store_def)
    show ?thesis
    proof (cases "\<exists>y. q = Inr y \<and> move")
      case False
      with copies(6) have "d' = d2" "r = Inr () \<longrightarrow> (\<exists>y. q = Inr y)" by (auto simp: ret_def split: sum.splits)
      with more origin d1 d2 False copies(1) show ?thesis by (auto simp: has_row_def)
    next
      case True
      then obtain y where y: "q = Inr y" "move" by blast
      with copies(6) have rm: "remove_file (fs_id source) se f d2 = (r, d')" by simp
      from remove_file_takes [OF keeps(1) rm] remove_file_effect [OF keeps(1) rm]
      have rest: "takes_at_most (fs_id source) (fi_id f) d2 d'"
        "r = Inr () \<longrightarrow> \<not> has_row d' (fs_id source) (fi_id f)"
        "\<And>s g. has_row d' s g \<Longrightarrow> has_row d2 s g"
        by (auto simp: has_row_def split: if_splits)
      have "takes_at_most (fs_id source) (fi_id f) d d'" using more rest(1) by (rule takes_at_most_trans)
      moreover have "has_row d2 (fs_id target) (fi_id f)" using d2 y by (auto simp: has_row_def)
      then have "has_row d' (fs_id target) (fi_id f)"
        using rest(1) apart unfolding takes_at_most_def by metis
      moreover have "has_row d' s g \<longrightarrow> has_row d s g \<or> s = fs_id target" for s g
        using rest(3) origin by blast
      ultimately show ?thesis using rest(2) y copies(1) by blast
    qed
  qed
qed

section \<open>What a scope can download\<close>

lemma get_file_store_known: "get_file_store d i \<noteq> None \<longleftrightarrow> i \<in> fs_id ` set (db_file_stores d)"
  by (auto simp: get_file_store_def tbl_get_None)

lemma scope_stores_mem:
  "(s, x) \<in> set (scope_stores d scope) \<longleftrightarrow> x \<in> set (db_file_stores_in_scope d) \<and> sx_scope x = scope
     \<and> get_file_store d (sx_file_store x) = Some s"
  by (force simp: scope_stores_def List.map_filter_def image_iff)

lemma scope_store_key: "(s, x) \<in> set (scope_stores d scope) \<Longrightarrow> fs_id s = sx_file_store x"
  by (auto simp: scope_stores_mem get_file_store_def dest: tbl_get_key)

text \<open>The stores of a scope that are read.\<close>

definition read_stores :: "db \<Rightarrow> pk \<Rightarrow> pk set" where
  "read_stores d scope = {sx_file_store x | x. x \<in> set (db_file_stores_in_scope d) \<and> sx_scope x = scope
     \<and> \<not> sx_write_only x \<and> sx_file_store x \<in> fs_id ` set (db_file_stores d)}"

lemma read_stores_same: "same_stores d d' \<Longrightarrow> read_stores d' scope = read_stores d scope"
  unfolding read_stores_def same_stores_def by (metis (no_types) list.set_map)

lemma download_stores_ids:
  "fs_id ` set (download_file_stores d scope f) = {s \<in> read_stores d scope. has_row d s (fi_id f)}"
proof -
  have "fs_id ` set (download_file_stores d scope f) = fs_id ` fst ` {(s, x) \<in> set (scope_stores d scope).
      \<not> sx_write_only x \<and> has_row d (fs_id s) (fi_id f)}"
    by (auto simp: download_file_stores_def has_row_def list_ex_iff Let_def)
  also have "\<dots> = {s \<in> read_stores d scope. has_row d s (fi_id f)}"
  proof (intro equalityI subsetI)
    fix i assume "i \<in> fs_id ` fst ` {(s, x) \<in> set (scope_stores d scope).
      \<not> sx_write_only x \<and> has_row d (fs_id s) (fi_id f)}"
    then obtain s x where x: "(s, x) \<in> set (scope_stores d scope)" "\<not> sx_write_only x"
      "has_row d (fs_id s) (fi_id f)" "i = fs_id s" by auto
    with scope_store_key [OF x(1)] get_file_store_known [of d i]
    show "i \<in> {s \<in> read_stores d scope. has_row d s (fi_id f)}"
      by (auto simp: read_stores_def scope_stores_mem)
  next
    fix i assume i: "i \<in> {s \<in> read_stores d scope. has_row d s (fi_id f)}"
    then obtain x where x: "x \<in> set (db_file_stores_in_scope d)" "sx_scope x = scope" "\<not> sx_write_only x"
      "sx_file_store x = i" "i \<in> fs_id ` set (db_file_stores d)" by (auto simp: read_stores_def)
    then obtain s where s: "get_file_store d i = Some s" using get_file_store_known [of d i] by blast
    with x have "(s, x) \<in> set (scope_stores d scope)" by (simp add: scope_stores_mem)
    moreover from scope_store_key [OF this] x have "fs_id s = i" by simp
    ultimately have "(s, x) \<in> {(s, x) \<in> set (scope_stores d scope).
      \<not> sx_write_only x \<and> has_row d (fs_id s) (fi_id f)}" "fs_id s = i" using x i by simp_all
    then show "i \<in> fs_id ` fst ` {(s, x) \<in> set (scope_stores d scope).
      \<not> sx_write_only x \<and> has_row d (fs_id s) (fi_id f)}" by (metis (no_types, lifting) fst_conv image_eqI)
  qed
  finally show ?thesis .
qed

lemma upload_stores_read:
  assumes "s \<in> set (upload_file_stores d scope f True False)"
  shows "fs_id s \<in> read_stores d scope"
proof -
  from assms obtain x where x: "(s, x) \<in> set (scope_stores d scope)" "\<not> written_only d s"
    by (auto simp: upload_file_stores_def Let_def)
  then have "\<not> sx_write_only x"
    using scope_store_key [OF x(1)] by (auto simp: written_only_def list_ex_iff scope_stores_mem)
  with x(1) scope_store_key [OF x(1)] get_file_store_known [of d "sx_file_store x"] show ?thesis
    by (auto simp: read_stores_def scope_stores_mem)
qed

lemma drain_file_effect:
  assumes ok: "backends_keep_tables vc" and run: "drain_file vc scope policies store f d = (r, d')"
  shows "takes_at_most (fs_id store) (fi_id f) d d'
    \<and> (\<forall>s g. has_row d' s g \<longrightarrow> has_row d s g
         \<or> s \<noteq> fs_id store \<and> (\<exists>u. u \<in> set (upload_file_stores d scope f True False) \<and> fs_id u = s))
    \<and> (has_row d (fs_id store) (fi_id f) \<and> \<not> has_row d' (fs_id store) (fi_id f) \<longrightarrow>
         (\<exists>u\<in>read_stores d scope. u \<noteq> fs_id store \<and> has_row d' u (fi_id f)))
    \<and> (r = Inr True \<and> \<not> vc_dry_run vc \<longrightarrow> \<not> has_row d' (fs_id store) (fi_id f))
    \<and> (vc_dry_run vc \<longrightarrow> d' = d)"
proof (cases "other_than store (download_file_stores d scope f)")
  case (Cons s ss)
  then have "s \<in> set (other_than store (download_file_stores d scope f))" by simp
  then have s: "s \<in> set (download_file_stores d scope f)" "fs_id s \<noteq> fs_id store"
    by (simp_all add: other_than_def)
  with download_stores_ids [of d scope f] have s': "fs_id s \<in> read_stores d scope" "has_row d (fs_id s) (fi_id f)"
    by auto
  from run Cons consider "d' = d" "r = Inr True \<longrightarrow> vc_dry_run vc"
    | (removes) en q where "\<not> vc_dry_run vc" "get_entry (vc_storage vc) store f = Inr en"
        "remove_file (fs_id store) en f d = (q, d')" "r = Inr True \<longrightarrow> q = Inr ()"
    by (auto simp: drain_file_def with_db_def remove_from_def seq_act_def bind_act_def lift_res_def ret_def
        split: if_splits prod.splits sum.splits)
  then show ?thesis
  proof cases
    case 1
    then show ?thesis by (auto intro: takes_at_most_more)
  next
    case removes
    with ok have keeps: "keeps_tables en" by (auto simp: backends_keep_tables_def)
    note e = remove_file_takes [OF keeps removes(3)] remove_file_effect [OF keeps removes(3)]
    then have "has_row d' s g \<longrightarrow> has_row d s g" for s g by (auto simp: has_row_def split: if_splits)
    moreover from e(1) s s' have "has_row d' (fs_id s) (fi_id f)" unfolding takes_at_most_def by metis
    ultimately show ?thesis using e(1) removes s s' by blast
  qed
next
  case Nil
  let ?us = "case sx_drain_to policies of None \<Rightarrow> other_than store (upload_file_stores d scope f True False)
    | Some name \<Rightarrow> filter (\<lambda>s. fs_name s = name) (other_than store (upload_file_stores d scope f True False))"
  show ?thesis
  proof (cases ?us)
    case empty: Nil
    with Nil run have "d' = d" "r = Inr False" by (simp_all add: drain_file_def with_db_def Let_def ret_def)
    then show ?thesis by (auto intro: takes_at_most_more)
  next
    case (Cons u us)
    then have "u \<in> set ?us" by simp
    then have u: "u \<in> set (upload_file_stores d scope f True False)" "fs_id store \<noteq> fs_id u"
      by (auto simp: other_than_def split: option.splits)
    from run Nil Cons obtain q where q: "copy_file vc store u f True d = (q, d')" "r = Inr True \<longrightarrow> q = Inr ()"
      by (auto simp: drain_file_def with_db_def Let_def seq_act_def bind_act_def ret_def
          split: prod.splits sum.splits)
    note c = copy_file_effect [OF ok q(1) u(2)]
    from c q(2) u upload_stores_read [OF u(1)] show ?thesis by metis
  qed
qed

section \<open>Downloads through the policies\<close>

definition unshared :: "db \<Rightarrow> pk \<Rightarrow> bool" where
  "unshared d t \<longleftrightarrow> (\<forall>x\<in>set (db_file_stores_in_scope d). \<forall>y\<in>set (db_file_stores_in_scope d).
     sx_scope x = t \<and> sx_file_store y = sx_file_store x \<longrightarrow> sx_scope y = t)"

definition available :: "db \<Rightarrow> pk \<Rightarrow> pk \<Rightarrow> db \<Rightarrow> bool" where
  "available d0 t f d \<longleftrightarrow> same_stores d0 d \<and> (\<exists>s\<in>read_stores d0 t. has_row d s f)"

definition linked_to :: "db \<Rightarrow> pk \<Rightarrow> file_store \<Rightarrow> bool" where
  "linked_to d0 scope store \<longleftrightarrow>
     (\<exists>x\<in>set (db_file_stores_in_scope d0). sx_scope x = scope \<and> sx_file_store x = fs_id store)"

lemma drain_keeps_available:
  assumes ok: "backends_keep_tables vc" and t: "unshared d0 t" and l: "linked_to d0 scope store"
  shows "ensures (available d0 t f) (\<lambda>_. True) (drain_file vc scope policies store g)"
  unfolding ensures_def
proof (intro allI impI conjI)
  fix d
  assume I: "available d0 t f d"
  obtain r d' where run: "drain_file vc scope policies store g d = (r, d')" by fastforce
  note e = drain_file_effect [OF ok run]
  from I have same: "same_stores d0 d" by (simp add: available_def)
  from I obtain s where s: "s \<in> read_stores d0 t" "has_row d s f" by (auto simp: available_def)
  have "\<exists>u\<in>read_stores d0 t. has_row d' u f"
  proof (cases "has_row d' s f")
    case False
    with e s have gone: "s = fs_id store" "f = fi_id g" by (auto simp: takes_at_most_def)
    from s(1) gone obtain x where "x \<in> set (db_file_stores_in_scope d0)" "sx_scope x = t"
      "sx_file_store x = fs_id store" by (auto simp: read_stores_def)
    moreover from l obtain y where "y \<in> set (db_file_stores_in_scope d0)" "sx_scope y = scope"
      "sx_file_store y = fs_id store" by (auto simp: linked_to_def)
    ultimately have "scope = t" using t unfolding unshared_def by metis
    have "has_row d (fs_id store) (fi_id g)" "\<not> has_row d' (fs_id store) (fi_id g)"
      using s(2) False gone by simp_all
    with e have "\<exists>u\<in>read_stores d scope. has_row d' u (fi_id g)" by meson
    with \<open>scope = t\<close> gone read_stores_same [OF same] show ?thesis by simp
  qed (use s in blast)
  moreover from e have "same_stores d d'" by (simp add: takes_at_most_def)
  with same have "same_stores d0 d'" by (rule same_stores_chain)
  ultimately show "available d0 t f (snd (drain_file vc scope policies store g d))"
    by (simp add: run available_def)
qed simp

lemma copy_keeps_available:
  assumes "backends_keep_tables vc" and "fs_id source \<noteq> fs_id target"
  shows "ensures (available d0 t f) (\<lambda>_. True) (copy_file vc source target g False)"
  unfolding ensures_def
proof (intro allI impI conjI)
  fix d
  assume I: "available d0 t f d"
  obtain r d' where run: "copy_file vc source target g False d = (r, d')" by fastforce
  note e = copy_file_effect [OF assms(1) run assms(2)]
  then have "same_stores d d'" by (simp add: takes_at_most_def)
  with I have "same_stores d0 d'" by (auto simp: available_def intro: same_stores_chain)
  moreover from e have "\<forall>s. has_row d s f \<longrightarrow> has_row d' s f" by simp
  ultimately show "available d0 t f (snd (copy_file vc source target g False d))" using I
    by (auto simp: run available_def)
qed simp

lemma available_storage [simp]: "available d0 t f (d\<lparr>db_storage := s\<rparr>) = available d0 t f d"
  by (simp add: available_def same_stores_def has_row_def)

lemma ensures_atomic_available:
  assumes "ensures (available d0 t f) Q m"
  shows "ensures (available d0 t f) Q (atomic_db m)"
  unfolding ensures_def
proof (intro allI impI)
  fix d
  assume I: "available d0 t f d"
  with assms have "available d0 t f (snd (m d))" "\<forall>y. fst (m d) = Inr y \<longrightarrow> Q y"
    by (auto simp: ensures_def)
  with I show "available d0 t f (snd (atomic_db m d)) \<and> (\<forall>y. fst (atomic_db m d) = Inr y \<longrightarrow> Q y)"
    by (auto simp: atomic_db_def split: prod.splits sum.splits)
qed

lemma ensures_if_still_there:
  assumes "\<And>g. ensures I (\<lambda>_. True) (k g)"
  shows "ensures I (\<lambda>_. True) (if_still_there fileobj acc k)"
  unfolding if_still_there_def
  by (rule ensures_with_db) (auto intro: ensures_ret assms split: option.split)

lemma ensures_visit_each:
  assumes "\<And>x acc. x \<in> set xs \<Longrightarrow> ensures (available d0 t f) (\<lambda>_. True) (step x acc)"
  shows "ensures (available d0 t f) (\<lambda>_. True) (visit_each step xs acc)"
  using assms
proof (induction xs arbitrary: acc)
  case (Cons x xs)
  have "ensures (available d0 t f) (\<lambda>_. True) (atomic_db (step x acc))"
    by (rule ensures_atomic_available) (simp add: Cons.prems)
  moreover have "ensures (available d0 t f) (\<lambda>_. True) (visit_each step xs acc)" for acc
    by (rule Cons.IH) (simp add: Cons.prems)
  ultimately show ?case unfolding visit_each.simps
    by (intro ensures_bind [where Q = "\<lambda>_. True"] ensures_prod ensures_if ensures_ret) auto
qed (simp add: ensures_ret)

lemma ensures_for_stores:
  assumes "\<And>s ok. s \<in> set ss \<Longrightarrow> ensures I (\<lambda>_. True) (step s ok)"
  shows "ensures I (\<lambda>_. True) (for_stores step ss ok)"
  using assms
proof (induction ss arbitrary: ok)
  case (Cons s ss)
  then show ?case unfolding for_stores.simps by (intro ensures_bind [where Q = "\<lambda>_. True"]) auto
qed (simp add: ensures_ret)

lemma stores_with_linked:
  "(s, x) \<in> set (stores_with d scope P) \<Longrightarrow> same_stores d0 d \<Longrightarrow> linked_to d0 scope s"
proof -
  assume "(s, x) \<in> set (stores_with d scope P)" and same: "same_stores d0 d"
  then have x: "(s, x) \<in> set (scope_stores d scope)" by (simp add: stores_with_def)
  with scope_store_key [OF x] same show ?thesis
    by (auto simp: linked_to_def scope_stores_mem same_stores_def intro!: bexI [of _ x])
qed

lemma available_same: "available d0 t f d \<Longrightarrow> same_stores d0 d"
  by (simp add: available_def)

lemma download_store_other:
  "download_store d store g = Some s \<Longrightarrow> fs_id s \<noteq> fs_id store"
proof -
  assume found: "download_store d store g = Some s"
  let ?k = "\<lambda>(s, dp, up). (desc_nulls_last dp, desc_nulls_last up)"
  from found obtain p rest where "sort_key ?k (populate_sources d store g) = (s, p) # rest"
    by (auto simp: download_store_def split: list.splits)
  then have "(s, p) \<in> set (populate_sources d store g)" by (metis list.set_intros(1) set_sort)
  moreover have "s = s'" if "(s, p) \<in> set (case filter P xs of [] \<Rightarrow> [(s', None, None)]
      | links \<Rightarrow> map (\<lambda>x. (s', sx_download_priority x, sx_upload_priority x)) links)" for s' P xs
    using that by (cases "filter P xs") auto
  ultimately have "s \<in> set (other_than store (db_file_stores d))"
    unfolding populate_sources_def set_concat set_map by fastforce
  then show ?thesis by (simp add: other_than_def)
qed

lemma populate_keeps_available:
  assumes "backends_keep_tables vc"
  shows "ensures (available d0 t f) (\<lambda>_. True) (apply_populate_policy vc scope)"
proof -
  have "ensures (available d0 t f) (\<lambda>_. True) (populate_file vc scope store (g, download_store d store g) ok)"
    for d store g ok
    unfolding populate_file_def prod.case
    by (intro ensures_if_still_there ensures_with_db ensures_option ensures_ret ensures_if
        ensures_seq [OF copy_keeps_available [OF assms]] download_store_other) auto
  then have "ensures (available d0 t f) (\<lambda>_. True) (populate_store vc scope s ok)" for s ok
    unfolding populate_store_def
    by (cases s) (auto intro!: ensures_with_db ensures_raise ensures_visit_each)
  then show ?thesis unfolding apply_populate_policy_def
    by (intro ensures_with_db ensures_for_stores)
qed

lemma drain_policy_keeps_available:
  assumes "backends_keep_tables vc" and "unshared d0 t"
  shows "ensures (available d0 t f) (\<lambda>_. True) (apply_drain_policy vc scope)"
  unfolding apply_drain_policy_def
proof (intro ensures_with_db ensures_for_stores)
  fix d s ok
  assume "available d0 t f d" "s \<in> set (stores_with d scope (\<lambda>(s, x). sx_drain x))"
  then have "linked_to d0 scope (fst s)" by (metis available_same prod.collapse stores_with_linked)
  then show "ensures (available d0 t f) (\<lambda>_. True) (drain_store vc scope s ok)"
    unfolding drain_store_def drain_visit_def
    by (cases s) (auto intro!: ensures_with_db ensures_raise ensures_visit_each ensures_if_still_there
        ensures_bind [OF drain_keeps_available [OF assms]] ensures_ret)
qed

lemma limits_keep_available:
  assumes "backends_keep_tables vc" and "unshared d0 t"
  shows "ensures (available d0 t f) (\<lambda>_. True) (apply_max_size_limits vc scope)"
  unfolding apply_max_size_limits_def
proof (intro ensures_with_db ensures_for_stores)
  fix d s ok
  assume "available d0 t f d" "s \<in> set (stores_with d scope (\<lambda>(s, x). over_limit s))"
  then have "linked_to d0 scope (fst s)" by (metis available_same prod.collapse stores_with_linked)
  then have "ensures (available d0 t f) (\<lambda>_. True) (limit_visit vc scope s x acc)" for x acc
    unfolding limit_visit_def
    by (cases s; cases x; cases acc) (auto intro!: ensures_if_still_there
        ensures_bind [OF drain_keeps_available [OF assms]] ensures_ret)
  then show "ensures (available d0 t f) (\<lambda>_. True) (limit_store vc scope s ok)"
    unfolding limit_store_def
    by (cases s) (auto intro!: ensures_with_db ensures_ret ensures_bind [OF ensures_visit_each])
qed

lemma policies_keep_available:
  assumes "backends_keep_tables vc" and "unshared d0 t"
  shows "ensures (available d0 t f) (\<lambda>_. True) (policies_of_scopes vc scopes ok)"
proof (induction scopes arbitrary: ok)
  case (Cons scope scopes)
  then show ?case unfolding policies_of_scopes.simps
    by (intro ensures_bind [OF populate_keeps_available [OF assms(1)]]
        ensures_bind [OF drain_policy_keeps_available [OF assms]]
        ensures_bind [OF limits_keep_available [OF assms]])
qed (simp add: ensures_ret)

lemma available_iff: "available d t (fi_id f) d' \<longleftrightarrow>
    same_stores d d' \<and> download_file_stores d' t f \<noteq> []"
proof -
  have "download_file_stores d' t f \<noteq> [] \<longleftrightarrow> fs_id ` set (download_file_stores d' t f) \<noteq> {}" by simp
  then show ?thesis unfolding available_def download_stores_ids
    using read_stores_same [of d d' t] by auto
qed

text \<open>
  C16: Whatever storage maintenance moves, copies or removes to follow the policies of all
  scopes, and wherever it raises, a file that could be downloaded in a scope can still
  be downloaded there, as long as that scope shares none of its stores with another and
  the backends do not write to the tables.
\<close>

theorem policies_keep_downloads:
  assumes "backends_keep_tables vc" and "unshared d t" and "download_file_stores d t f \<noteq> []"
  shows "download_file_stores (snd (apply_storage_policies vc d)) t f \<noteq> []"
proof -
  have "ensures (available d t (fi_id f)) (\<lambda>_. True) (apply_storage_policies vc)"
    unfolding apply_storage_policies_def
    by (intro ensures_with_db policies_keep_available assms)
  moreover have "available d t (fi_id f) d" using assms(3) by (simp add: available_iff)
  ultimately show ?thesis by (auto simp: ensures_def available_iff)
qed

section \<open>What draining achieves\<close>

text \<open>The stores of a scope that take new files.\<close>

definition writable_stores :: "db \<Rightarrow> pk \<Rightarrow> pk set" where
  "writable_stores d scope = {sx_file_store x | x. x \<in> set (db_file_stores_in_scope d) \<and> sx_scope x = scope
     \<and> \<not> sx_read_only x}"

lemma scope_links_eval [code]:
  "read_stores d scope = set (map sx_file_store (filter (\<lambda>x. sx_scope x = scope \<and> \<not> sx_write_only x
     \<and> sx_file_store x \<in> fs_id ` set (db_file_stores d)) (db_file_stores_in_scope d)))"
  "writable_stores d scope = set (map sx_file_store (filter (\<lambda>x. sx_scope x = scope \<and> \<not> sx_read_only x)
     (db_file_stores_in_scope d)))"
  by (auto simp: read_stores_def writable_stores_def)

lemma upload_stores_writable:
  assumes "s \<in> set (upload_file_stores d scope f soft wo)"
  shows "fs_id s \<in> writable_stores d scope"
proof -
  from assms obtain x where x: "(s, x) \<in> set (scope_stores d scope)" "\<not> sx_read_only x"
    by (auto simp: upload_file_stores_def Let_def split: if_splits)
  with scope_store_key [OF x(1)] show ?thesis by (auto simp: writable_stores_def scope_stores_mem)
qed

lemma same_stores_queries:
  assumes "same_stores d d'"
  shows "writable_stores d' scope = writable_stores d scope" "files_in_scope d' scope = files_in_scope d scope"
    "get_file d' i = get_file d i"
  using assms
  by (simp_all add: same_stores_def writable_stores_def files_in_scope_def artifacts_with_file_def
      artifact_scope_def [abs_def] get_workspace_def get_file_def)

text \<open>Rows only come into stores that take new files.\<close>

definition adds_within :: "pk set \<Rightarrow> db \<Rightarrow> db \<Rightarrow> bool" where
  "adds_within W d d' \<longleftrightarrow> same_stores d d' \<and> (\<forall>s g. has_row d' s g \<longrightarrow> has_row d s g \<or> s \<in> W)"

lemma adds_within_refl [simp]: "adds_within W d d"
  by (simp add: adds_within_def)

lemma adds_within_trans: "adds_within W d d' \<Longrightarrow> adds_within W d' d'' \<Longrightarrow> adds_within W d d''"
  unfolding adds_within_def by (blast intro: same_stores_chain)

lemma drain_visit_result:
  assumes ok: "backends_keep_tables vc" "\<not> vc_dry_run vc" and known: "get_file d (fi_id f) \<noteq> None"
    and run: "atomic_db (drain_visit vc scope (store, policies) f all_ok) d = (Inr (all_ok', stop), d')"
  shows "\<not> stop \<and> adds_within (writable_stores d scope - {fs_id store}) d d'
    \<and> (all_ok' \<longrightarrow> all_ok \<and> \<not> has_row d' (fs_id store) (fi_id f))"
proof -
  from known obtain g where g: "get_file d (fi_id f) = Some g" "fi_id g = fi_id f"
    by (auto simp: get_file_def dest: tbl_get_key)
  from run g have "bind_act (drain_file vc scope policies store g)
      (\<lambda>drained. ret (all_ok \<and> drained, False)) d = (Inr (all_ok', stop), d')"
    by (auto simp: drain_visit_def if_still_there_def with_db_def elim!: atomic_db_cases)
  then obtain drained where q: "drain_file vc scope policies store g d = (Inr drained, d')"
    "all_ok' = (all_ok \<and> drained)" "\<not> stop"
    by (auto simp: bind_act_def ret_def split: prod.splits sum.splits)
  note e = drain_file_effect [OF ok(1) q(1)]
  have "has_row d s h \<or> s \<in> writable_stores d scope - {fs_id store}" if "has_row d' s h" for s h
    using e [THEN conjunct2, THEN conjunct1, rule_format, OF that] by (auto dest: upload_stores_writable)
  moreover have "same_stores d d'" using e by (simp add: takes_at_most_def)
  ultimately have "adds_within (writable_stores d scope - {fs_id store}) d d'" by (simp add: adds_within_def)
  moreover have "drained \<longrightarrow> \<not> has_row d' (fs_id store) (fi_id f)"
    using e q(1) ok(2) g(2) by auto
  ultimately show ?thesis using q(2,3) by simp
qed

lemma visit_each_drained:
  assumes ok: "backends_keep_tables vc" "\<not> vc_dry_run vc"
  shows "visit_each (drain_visit vc scope (store, policies)) fs all_ok d = (Inr all_ok', d') \<Longrightarrow>
    \<forall>f\<in>set fs. get_file d (fi_id f) \<noteq> None \<Longrightarrow>
    adds_within (writable_stores d scope - {fs_id store}) d d'
    \<and> (all_ok' \<longrightarrow> all_ok \<and> (\<forall>f\<in>set fs. \<not> has_row d' (fs_id store) (fi_id f)))"
proof (induction fs arbitrary: all_ok d)
  case Nil
  then show ?case by (simp add: ret_def)
next
  case (Cons f fs)
  from Cons.prems(1) obtain all_ok1 stop d1 where
    step: "atomic_db (drain_visit vc scope (store, policies) f all_ok) d = (Inr (all_ok1, stop), d1)"
    and rest: "(if stop then ret all_ok1 else visit_each (drain_visit vc scope (store, policies)) fs all_ok1) d1
      = (Inr all_ok', d')"
    by (auto simp: bind_act_def split: prod.splits sum.splits)
  note r = drain_visit_result [OF ok _ step]
  have one: "\<not> stop" "adds_within (writable_stores d scope - {fs_id store}) d d1"
    "all_ok1 \<longrightarrow> all_ok \<and> \<not> has_row d1 (fs_id store) (fi_id f)"
    using r Cons.prems(2) by simp_all
  then have same: "same_stores d d1" by (simp add: adds_within_def)
  from Cons.IH [of all_ok1 d1] rest one(1) Cons.prems(2) same_stores_queries [OF same]
  have "adds_within (writable_stores d scope - {fs_id store}) d1 d'"
    "all_ok' \<longrightarrow> all_ok1 \<and> (\<forall>f\<in>set fs. \<not> has_row d' (fs_id store) (fi_id f))" by simp_all
  moreover from this(1) one(3) have "all_ok1 \<longrightarrow> \<not> has_row d' (fs_id store) (fi_id f)"
    by (auto simp: adds_within_def)
  ultimately show ?case using one by (auto intro: adds_within_trans)
qed

lemma files_in_scope_known: "f \<in> set (files_in_scope d scope) \<Longrightarrow> get_file d (fi_id f) \<noteq> None"
  by (auto simp: files_in_scope_def get_file_def tbl_get_None)

lemma file_in_row: "file_in d store f \<longleftrightarrow> has_row d (fs_id store) (fi_id f)"
  by (simp add: file_in_def has_row_def list_ex_iff)

lemma drain_store_result:
  assumes ok: "backends_keep_tables vc" "\<not> vc_dry_run vc"
    and run: "drain_store vc scope (store, policies) all_ok d = (Inr all_ok', d')"
  shows "adds_within (writable_stores d scope - {fs_id store}) d d'
    \<and> (all_ok' \<longrightarrow> all_ok \<and> (\<forall>f\<in>set (files_in_scope d scope). \<not> file_in d' store f))"
proof -
  let ?fs = "filter (file_in d store) (files_in_scope d scope)"
  from run have "visit_each (drain_visit vc scope (store, policies)) ?fs all_ok d = (Inr all_ok', d')"
    by (auto simp: drain_store_def with_db_def raise_def split: if_splits)
  from visit_each_drained [OF ok this] files_in_scope_known [of _ d scope]
  have r: "adds_within (writable_stores d scope - {fs_id store}) d d'"
    "all_ok' \<longrightarrow> all_ok \<and> (\<forall>f\<in>set ?fs. \<not> has_row d' (fs_id store) (fi_id f))" by auto
  have "\<not> file_in d' store f" if "all_ok'" "f \<in> set (files_in_scope d scope)" for f
  proof (cases "file_in d store f")
    case False
    with r(1) show ?thesis unfolding file_in_row adds_within_def by blast
  qed (use that r(2) in \<open>simp add: file_in_row\<close>)
  with r show ?thesis by blast
qed

lemma for_stores_drained:
  assumes ok: "backends_keep_tables vc" "\<not> vc_dry_run vc"
  shows "for_stores (drain_store vc scope) ss all_ok d = (Inr True, d') \<Longrightarrow>
    \<forall>(s, x)\<in>set ss. fs_id s \<notin> writable_stores d scope \<Longrightarrow>
    all_ok \<and> adds_within (writable_stores d scope) d d'
    \<and> (\<forall>(s, x)\<in>set ss. \<forall>f\<in>set (files_in_scope d scope). \<not> file_in d' s f)"
proof (induction ss arbitrary: all_ok d)
  case Nil
  then show ?case by (simp add: ret_def)
next
  case (Cons p ss)
  obtain s x where p: "p = (s, x)" by (cases p)
  from Cons.prems(1) obtain ok1 d1 where step: "drain_store vc scope (s, x) all_ok d = (Inr ok1, d1)"
    and rest: "for_stores (drain_store vc scope) ss ok1 d1 = (Inr True, d')"
    by (auto simp: p bind_act_def split: prod.splits sum.splits)
  note r = drain_store_result [OF ok step]
  then have same: "same_stores d d1" by (simp add: adds_within_def)
  note q = same_stores_queries [OF same]
  from Cons.IH [OF rest] Cons.prems(2) q have ih: "ok1" "adds_within (writable_stores d scope) d1 d'"
    "\<forall>(s, x)\<in>set ss. \<forall>f\<in>set (files_in_scope d scope). \<not> file_in d' s f" by auto
  have within: "adds_within (writable_stores d scope) d d1" using r by (auto simp: adds_within_def)
  have "\<not> file_in d' s f" if "f \<in> set (files_in_scope d scope)" for f
    using r ih(1,2) that Cons.prems(2) p unfolding file_in_row adds_within_def by fastforce
  with ih within r show ?case by (auto simp: p intro: adds_within_trans)
qed

text \<open>
  C17: When the drain policy of a scope reports success outside a dry run, and the stores it
  drains take no new files (they are read-only in the scope), none of them holds a file of
  the scope any more, and files have come into stores of the scope that take new files only.
\<close>

theorem drained_stores_emptied:
  assumes "backends_keep_tables vc" and "\<not> vc_dry_run vc"
    and read_only: "\<forall>x\<in>set (db_file_stores_in_scope d). sx_scope x = scope \<and> sx_drain x \<longrightarrow>
      sx_file_store x \<notin> writable_stores d scope"
    and run: "apply_drain_policy vc scope d = (Inr True, d')"
  shows "adds_within (writable_stores d scope) d d'
    \<and> (\<forall>(s, x)\<in>set (scope_stores d scope). sx_drain x \<longrightarrow>
         (\<forall>f\<in>set (files_in_scope d scope). \<not> file_in d' s f))"
proof -
  let ?ss = "stores_with d scope (\<lambda>(s, x). sx_drain x)"
  have mem: "(s, x) \<in> set ?ss \<longleftrightarrow> (s, x) \<in> set (scope_stores d scope) \<and> sx_drain x" for s x
    by (simp add: stores_with_def)
  have "\<forall>(s, x)\<in>set ?ss. fs_id s \<notin> writable_stores d scope"
    using read_only scope_store_key [of _ _ d scope] by (fastforce simp: mem scope_stores_mem)
  from for_stores_drained [OF assms(1,2) _ this] run show ?thesis
    by (fastforce simp: apply_drain_policy_def with_db_def mem)
qed

text \<open>
  C38: Files are shared between scopes by their contents, but draining only asks whether
  the scope that drains can still download them: when another scope has a file in the
  drained store only, and reads no store that the files may be moved to, it cannot
  download the file any more.
\<close>

theorem draining_starves_other_scope:
  assumes "backends_keep_tables vc" and "\<not> vc_dry_run vc"
    and "\<forall>x\<in>set (db_file_stores_in_scope d). sx_scope x = scope \<and> sx_drain x \<longrightarrow>
      sx_file_store x \<notin> writable_stores d scope"
    and "apply_drain_policy vc scope d = (Inr True, d')"
    and f: "f \<in> set (files_in_scope d scope)"
    and store: "(store, x) \<in> set (scope_stores d scope)" "sx_drain x"
    and only: "\<forall>s\<in>read_stores d t. has_row d s (fi_id f) \<longrightarrow> s = fs_id store"
    and other: "read_stores d t \<inter> writable_stores d scope = {}"
  shows "download_file_stores d' t f = []"
proof -
  from drained_stores_emptied [OF assms(1-4)] f store
  have d': "adds_within (writable_stores d scope) d d'" "\<not> has_row d' (fs_id store) (fi_id f)"
    by (auto simp: file_in_row)
  then have "{s \<in> read_stores d t. has_row d' s (fi_id f)} = {}"
    using only other by (auto simp: adds_within_def)
  then have "fs_id ` set (download_file_stores d' t f) = {}"
    using download_stores_ids [of d' t f] read_stores_same [of d d' t] d'(1) by (simp add: adds_within_def)
  then show ?thesis by simp
qed

section \<open>Draining a store that is shared\<close>

definition vac_scope :: "pk \<Rightarrow> scope" where "vac_scope i = \<lparr>sc_id = i, sc_name = ''s''\<rparr>"

definition vac_ws :: "pk \<Rightarrow> workspace" where
  "vac_ws i = \<lparr>ws_id = i, ws_name = ''w'', ws_public = True, ws_default_expiration_delay = 0,
     ws_scope = i, ws_created_at = 0, ws_expiration_delay = None\<rparr>"

definition vac_artifact :: "pk \<Rightarrow> pk \<Rightarrow> time \<Rightarrow> artifact" where
  "vac_artifact i w at = \<lparr>ar_id = i, ar_category = ''debusine:test'', ar_workspace = w, ar_data = [],
     ar_created_at = at, ar_expiration_delay = None, ar_created_by = None,
     ar_created_by_work_request = None, ar_original_artifact = None\<rparr>"

definition vac_file :: "pk \<Rightarrow> pk \<Rightarrow> pk \<Rightarrow> bool \<Rightarrow> file_in_artifact" where
  "vac_file i a f complete = \<lparr>fa_id = i, fa_artifact = a, fa_path = ''data'', fa_file = f,
     fa_complete = complete, fa_content_type = None\<rparr>"

definition vac_store :: "pk \<Rightarrow> string \<Rightarrow> int \<Rightarrow> file_store" where
  "vac_store i dir held = \<lparr>fs_id = i, fs_name = dir, fs_backend = MemoryBackend,
     fs_configuration = [(''name'', JStr dir)], fs_instance_wide = True,
     fs_total_size = held, fs_soft_max_size = None, fs_max_size = None, fs_provider_account = None\<rparr>"

definition vac_link :: "pk \<Rightarrow> pk \<Rightarrow> bool \<Rightarrow> file_store_in_scope" where
  "vac_link scope store drain = \<lparr>sx_scope = scope, sx_file_store = store, sx_upload_priority = None,
     sx_download_priority = None, sx_populate = False, sx_drain = drain, sx_drain_to = None,
     sx_read_only = drain, sx_write_only = False, sx_soft_max_size = None\<rparr>"

definition vac_key :: "string \<Rightarrow> file_row \<Rightarrow> location" where
  "vac_key dir f = MemoryKey dir (hex (fi_sha256 f))"

definition vac_options :: "bool \<Rightarrow> vacuum" where
  "vac_options dry_run = \<lparr>vc_storage = example_storage, vc_dry_run = dry_run, vc_one_day_ago = 100,
     vc_old = (\<lambda>_. True), vc_upload_directory = ''/up'',
     vc_remote_copy = (\<lambda>s f. raise (NotSupportedError [])), vc_remote_delete = (\<lambda>s. ret ()),
     vc_remote_missing = (\<lambda>s d. 0)\<rparr>"

text \<open>Two scopes with a file in common; the first drains its first store into its second.\<close>

definition vac_db :: "file_store_in_scope list \<Rightarrow> db" where
  "vac_db links = empty_db\<lparr>db_scopes := [vac_scope 1, vac_scope 2],
     db_workspaces := [vac_ws 1, vac_ws 2],
     db_artifacts := [vac_artifact 1 1 0, vac_artifact 2 2 0],
     db_files := [example_file], db_file_in_artifacts := [vac_file 1 1 1 True, vac_file 2 2 1 True],
     db_file_stores := [vac_store 1 ''a'' 4, vac_store 2 ''b'' 0],
     db_file_in_stores := [\<lparr>fx_store = 1, fx_file = 1, fx_data = []\<rparr>],
     db_file_stores_in_scope := links,
     db_storage := [(vac_key ''a'' example_file, ''data'')]\<rparr>"

definition vac_shared :: db where
  "vac_shared = vac_db [vac_link 1 1 True, vac_link 1 2 False, vac_link 2 1 False]"

lemma memory_entry_keeps_tables: "keeps_tables (memory_entry st name f)"
  by (auto simp: keeps_tables_def memory_entry_def Let_def write_location_def erase_location_def
      same_at_def with_db_def modify_db_def storage_only_def ret_def raise_def split: option.splits)

lemma vac_options_keep: "backends_keep_tables (vac_options dry_run)"
  by (auto simp: backends_keep_tables_def vac_options_def example_storage_def get_entry_def bind_res_eq_Inr
      raise_def local_keeps_tables memory_entry_keeps_tables split: backend_choice.splits)

lemmas act_eval = with_db_def bind_act_def seq_act_def ret_def raise_def lift_res_def modify_db_def atomic_db_def
lemmas vac_simps = vac_db_def vac_link_def vac_store_def vac_options_def vac_file_def vac_artifact_def vac_ws_def vac_scope_def vac_key_def empty_db_def example_storage_def example_file_def
lemmas copy_eval = copy_file_def get_entry_def temporary_copy_def read_or_raise_def read_location_def memory_name_def memory_entry_def
  add_file_def remove_file_def get_or_create_file_in_store_def act_eval in_store_def Let_def toy_hash_def
  write_location_def erase_location_def insert_file_in_store_def delete_file_in_store_def add_to_total_def tbl_upd_def file_size_def get_file_def remove_from_def
lemmas policy_eval = apply_storage_policies_def apply_populate_policy_def apply_drain_policy_def apply_max_size_limits_def
  stores_with_def scope_stores_def get_file_store_def List.map_filter_def over_limit_def limits_def drain_store_def drain_visit_def
  if_still_there_def drain_file_def download_file_stores_def upload_file_stores_def other_than_def file_in_def files_in_scope_def
  artifacts_with_file_def artifact_scope_def get_workspace_def within_def desc_nulls_last_def written_only_def

definition vac_moved :: "db \<Rightarrow> db" where
  "vac_moved d = d\<lparr>db_file_stores := [vac_store 1 ''a'' 0, vac_store 2 ''b'' 4],
      db_file_in_stores := [\<lparr>fx_store = 2, fx_file = 1, fx_data = []\<rparr>],
      db_storage := [(vac_key ''b'' example_file, ''data'')]\<rparr>"

lemma vac_shared_run: "apply_drain_policy (vac_options False) 1 vac_shared = (Inr True, vac_moved vac_shared)"
  by (simp add: vac_shared_def vac_moved_def vac_simps copy_eval policy_eval)

lemma vac_shared_read_only: "\<forall>x\<in>set (db_file_stores_in_scope vac_shared). sx_scope x = 1 \<and> sx_drain x \<longrightarrow>
    sx_file_store x \<notin> writable_stores vac_shared 1"
  by (simp add: scope_links_eval(2) vac_shared_def vac_simps)

lemma vac_shared_stores: "(vac_store 1 ''a'' 4, vac_link 1 1 True) \<in> set (scope_stores vac_shared 1)"
  "sx_drain (vac_link 1 1 True)" "example_file \<in> set (files_in_scope vac_shared 1)"
  by (simp_all add: vac_shared_def vac_simps policy_eval)

theorem drained_stores_emptied_witness:
  "adds_within (writable_stores vac_shared 1) vac_shared (vac_moved vac_shared)
    \<and> \<not> file_in (vac_moved vac_shared) (vac_store 1 ''a'' 4) example_file"
proof -
  have "\<not> vc_dry_run (vac_options False)" by (simp add: vac_options_def)
  from drained_stores_emptied [OF vac_options_keep this vac_shared_read_only vac_shared_run]
    vac_shared_stores show ?thesis by fast
qed

theorem draining_starves_other_scope_witness:
  "download_file_stores (vac_moved vac_shared) 2 example_file = []"
proof -
  have "\<not> vc_dry_run (vac_options False)" by (simp add: vac_options_def)
  moreover have "read_stores vac_shared 2 \<inter> writable_stores vac_shared 1 = {}"
    "\<forall>s\<in>read_stores vac_shared 2. has_row vac_shared s (fi_id example_file) \<longrightarrow> s = fs_id (vac_store 1 ''a'' 4)"
    by (simp_all add: scope_links_eval has_row_def vac_shared_def vac_simps)
  ultimately show ?thesis
    using draining_starves_other_scope [OF vac_options_keep _ vac_shared_read_only vac_shared_run
      vac_shared_stores(3,1,2)] by blast
qed

text \<open>The same store, when no other scope has it.\<close>

definition vac_own :: db where
  "vac_own = vac_db [vac_link 1 1 True, vac_link 1 2 False]"

theorem policies_keep_downloads_witness:
  "download_file_stores (snd (apply_storage_policies (vac_options False) vac_own)) 1 example_file \<noteq> []"
proof (rule policies_keep_downloads [OF vac_options_keep])
  show "unshared vac_own 1" by (simp add: unshared_def vac_own_def vac_simps)
  show "download_file_stores vac_own 1 example_file \<noteq> []"
    by (simp add: vac_own_def vac_simps policy_eval in_store_def Let_def)
qed

section \<open>Limits\<close>

text \<open>
  A store four bytes over its limit with two files of three bytes, of which the older is in
  two artifacts.
\<close>

definition vac_small :: "pk \<Rightarrow> string \<Rightarrow> file_row" where
  "vac_small i h = \<lparr>fi_id = i, fi_sha256 = h, fi_size = 3\<rparr>"

definition vac_full :: db where
  "vac_full = (vac_db [vac_link 1 1 False, vac_link 1 2 False])\<lparr>
     db_artifacts := [vac_artifact 1 1 0, vac_artifact 2 1 5, vac_artifact 3 1 9],
     db_files := [vac_small 1 ''abc'', vac_small 2 ''def''],
     db_file_in_artifacts := [vac_file 1 1 1 True, vac_file 2 2 1 True, vac_file 3 3 2 True],
     db_file_stores := [(vac_store 1 ''a'' 6)\<lparr>fs_soft_max_size := Some 2\<rparr>, vac_store 2 ''b'' 0],
     db_file_in_stores := [\<lparr>fx_store = 1, fx_file = 1, fx_data = []\<rparr>, \<lparr>fx_store = 1, fx_file = 2, fx_data = []\<rparr>],
     db_storage := [(vac_key ''a'' (vac_small 1 ''abc''), ''abc''), (vac_key ''a'' (vac_small 2 ''def''), ''def'')]\<rparr>"

text \<open>
  A file is visited once for each time at which an artifact with it was created, and
  its size is counted each time: the limits of a store of two files of three bytes, of
  which two bytes may stay, are reported as applied when three are still there.
\<close>

theorem limit_counts_files_twice:
  "fst (apply_max_size_limits (vac_options False) 1 vac_full) = Inr True
    \<and> map fs_total_size (db_file_stores (snd (apply_max_size_limits (vac_options False) 1 vac_full))) = [3, 3]"
  by (simp add: vac_full_def vac_small_def vac_simps copy_eval policy_eval limit_store_def limit_visit_def
      oldest_first_def size_to_drain_def)

end
