(* ===== verification/Orphans.thy ===== *)
theory Orphans
  imports Vacuuming
begin

text \<open>
  What the clean-up of the stores erases and what it keeps, and the clean-up of artifacts
  that were never completed.
\<close>

section \<open>Files that no row refers to\<close>

text \<open>The base directory of a store on the local disk.\<close>

definition local_base :: "vacuum \<Rightarrow> file_store \<Rightarrow> string option" where
  "local_base vc s = (if fs_backend s = LocalBackend
     then (case local_base_directory (vc_storage vc) s of Inr b \<Rightarrow> Some b | Inl _ \<Rightarrow> None) else None)"

definition unreferenced_in :: "vacuum \<Rightarrow> db \<Rightarrow> location \<Rightarrow> file_store \<Rightarrow> bool" where
  "unreferenced_in vc d l s \<longleftrightarrow> (case local_base vc s of None \<Rightarrow> False | Some b \<Rightarrow>
     vc_old vc l \<and> in_directory b l \<and> l \<notin> set (entries_from_files_in_file_store_db b s d))"

definition referenced :: "vacuum \<Rightarrow> db \<Rightarrow> location \<Rightarrow> bool" where
  "referenced vc d l \<longleftrightarrow> (\<exists>s\<in>set (db_file_stores d). case local_base vc s of None \<Rightarrow> False
     | Some b \<Rightarrow> l \<in> set (entries_from_files_in_file_store_db b s d))"

text \<open>No base directory is in another one.\<close>

definition bases_apart :: "vacuum \<Rightarrow> db \<Rightarrow> bool" where
  "bases_apart vc d \<longleftrightarrow> (\<forall>s\<in>set (db_file_stores d). \<forall>t\<in>set (db_file_stores d). \<forall>b c.
     local_base vc s = Some b \<longrightarrow> local_base vc t = Some c \<longrightarrow>
     starts_with (b @ ''/'') (c @ ''/'') \<longrightarrow> s = t)"

definition keep_locations :: "(location \<Rightarrow> bool) \<Rightarrow> db \<Rightarrow> db" where
  "keep_locations P d = d\<lparr>db_storage := filter (\<lambda>p. P (fst p)) (db_storage d)\<rparr>"

lemma keep_locations_simps [simp]:
  "keep_locations (\<lambda>_. True) d = d"
  "keep_locations Q (keep_locations P d) = keep_locations (\<lambda>l. P l \<and> Q l) d"
  "db_file_stores (keep_locations P d) = db_file_stores d"
  "entries_from_files_in_file_store_db b s (keep_locations P d) = entries_from_files_in_file_store_db b s d"
  "unreferenced_in vc (keep_locations P d) l s = unreferenced_in vc d l s"
  by (simp_all add: keep_locations_def entries_from_files_in_file_store_db_def unreferenced_in_def get_file_def
      conj_commute cong: conj_cong option.case_cong)

lemma keep_locations_cong:
  "(\<And>l. l \<in> fst ` set (db_storage d) \<Longrightarrow> P l = Q l) \<Longrightarrow> keep_locations P d = keep_locations Q d"
  by (auto simp: keep_locations_def intro!: arg_cong [of _ _ "\<lambda>s. db_storage_update (\<lambda>_. s) d"] filter_cong)

lemma read_keep_locations:
  "read_location l (keep_locations P d) = (if P l then read_location l d else None)"
  by (simp add: read_location_def keep_locations_def map_of_filter)

lemma erase_each: "for_each ls erase_location d = (Inr (), keep_locations (\<lambda>l. l \<notin> set ls) d)"
  by (induction ls arbitrary: d)
    (simp_all add: ret_def seq_act_def bind_act_def erase_location_def modify_db_def keep_locations_def conj_commute)

text \<open>
  Of the local disk only the files that \<open>P\<close> allows are left, with their contents, and the
  tables are as before.
\<close>

definition leaves_only :: "(location \<Rightarrow> bool) \<Rightarrow> db \<Rightarrow> db \<Rightarrow> bool" where
  "leaves_only P d d' \<longleftrightarrow> storage_only d d' \<and> (\<forall>p. read_location (LocalPath p) d'
     = (if P (LocalPath p) then read_location (LocalPath p) d else None))"

text \<open>Deleting from an S3 bucket does not touch the tables and the local disk.\<close>

definition remote_elsewhere :: "vacuum \<Rightarrow> bool" where
  "remote_elsewhere vc \<longleftrightarrow> (\<forall>s d. leaves_only (\<lambda>_. True) d (snd (vc_remote_delete vc s d)))"

lemma leaves_only_refl [simp]: "leaves_only (\<lambda>_. True) d d"
  by (simp add: leaves_only_def storage_only_def)

lemma leaves_only_keep: "leaves_only P d (keep_locations P d)"
  by (simp add: leaves_only_def read_keep_locations) (simp add: storage_only_def keep_locations_def)

lemma leaves_only_trans:
  assumes "leaves_only P d d1" and "leaves_only Q d1 d'"
  shows "leaves_only (\<lambda>l. P l \<and> Q l) d d'"
proof -
  have d1: "d1 = d\<lparr>db_storage := db_storage d1\<rparr>" and d': "d' = d1\<lparr>db_storage := db_storage d'\<rparr>"
    using assms by (simp_all add: leaves_only_def storage_only_def)
  have "d1\<lparr>db_storage := x\<rparr> = d\<lparr>db_storage := x\<rparr>" for x
    using arg_cong [where f = "\<lambda>r. r\<lparr>db_storage := x\<rparr>", OF d1] by simp
  with d' have "d' = d\<lparr>db_storage := db_storage d'\<rparr>" by simp
  with assms show ?thesis by (auto simp: leaves_only_def storage_only_def)
qed

lemma leaves_only_unreferenced:
  assumes "leaves_only P d d1"
  shows "unreferenced_in vc d1 = unreferenced_in vc d"
proof -
  have d1: "d1 = d\<lparr>db_storage := db_storage d1\<rparr>" using assms by (simp add: leaves_only_def storage_only_def)
  have "entries_from_files_in_file_store_db b s d1 = entries_from_files_in_file_store_db b s d" for b s
    by (subst d1) (simp add: entries_from_files_in_file_store_db_def get_file_def)
  then show ?thesis by (simp add: fun_eq_iff unreferenced_in_def cong: option.case_cong)
qed

lemma delete_unreferenced_in_result:
  assumes remote: "remote_elsewhere vc"
    and run: "delete_unreferenced_in vc s d = (Inr (), d')"
  shows "leaves_only (\<lambda>l. vc_dry_run vc \<or> \<not> unreferenced_in vc d l s) d d'"
proof (cases "local_base vc s")
  case None
  from remote have "leaves_only (\<lambda>_. True) d (snd (vc_remote_delete vc s d))"
    unfolding remote_elsewhere_def by blast
  with None run show ?thesis
    by (auto simp: delete_unreferenced_in_def local_base_def unreferenced_in_def bind_act_def lift_res_def
        ret_def raise_def split: if_splits sum.splits)
next
  case (Some b)
  then have s: "fs_backend s = LocalBackend" "local_base_directory (vc_storage vc) s = Inr b"
    by (auto simp: local_base_def split: if_splits sum.splits)
  have dry: "for_each xs (\<lambda>_. ret ()) d = (Inr (), d)" for xs :: "location list"
    by (induction xs) (simp_all add: ret_def seq_act_def bind_act_def)
  show ?thesis
  proof (cases "vc_dry_run vc")
    case True
    with run s dry show ?thesis
      by (simp add: delete_unreferenced_in_def bind_act_def lift_res_def ret_def [of b] with_db_def Let_def)
  next
    case False
    with run s have "d' = keep_locations (\<lambda>l. l \<notin> set (filter (\<lambda>l. l \<notin> set
        (entries_from_files_in_file_store_db b s d)) (filter (vc_old vc) (local_entries b d)))) d"
      by (simp add: delete_unreferenced_in_def bind_act_def lift_res_def ret_def with_db_def Let_def erase_each)
    also have "\<dots> = keep_locations (\<lambda>l. vc_dry_run vc \<or> \<not> unreferenced_in vc d l s) d"
      using False Some by (intro keep_locations_cong) (auto simp: unreferenced_in_def local_entries_def)
    finally show ?thesis by (simp only: leaves_only_keep)
  qed
qed

lemma delete_unreferenced_each:
  assumes remote: "remote_elsewhere vc"
  shows "for_each ss (delete_unreferenced_in vc) d = (Inr (), d') \<Longrightarrow>
    leaves_only (\<lambda>l. vc_dry_run vc \<or> (\<forall>s\<in>set ss. \<not> unreferenced_in vc d l s)) d d'"
proof (induction ss arbitrary: d)
  case Nil
  then show ?case by (simp add: ret_def)
next
  case (Cons s ss)
  then obtain d1 where step: "delete_unreferenced_in vc s d = (Inr (), d1)"
    and rest: "for_each ss (delete_unreferenced_in vc) d1 = (Inr (), d')"
    by (auto simp: seq_act_def bind_act_def split: prod.splits sum.splits)
  note first = delete_unreferenced_in_result [OF remote step]
  have "leaves_only (\<lambda>l. (vc_dry_run vc \<or> \<not> unreferenced_in vc d l s)
      \<and> (vc_dry_run vc \<or> (\<forall>s\<in>set ss. \<not> unreferenced_in vc d l s))) d d'"
    using leaves_only_trans [OF first Cons.IH [OF rest]] by (simp only: leaves_only_unreferenced [OF first])
  then show ?case by (simp add: disj_conj_distribL [symmetric])
qed

lemma entries_in_directory: "l \<in> set (entries_from_files_in_file_store_db b s d) \<Longrightarrow> in_directory b l"
  by (auto simp: entries_from_files_in_file_store_db_def map_filter_def in_directory_def starts_with_def)

lemma in_both_directories:
  "in_directory b l \<Longrightarrow> in_directory c l \<Longrightarrow> starts_with (b @ ''/'') (c @ ''/'') \<or> starts_with (c @ ''/'') (b @ ''/'')"
  by (auto simp: in_directory_def starts_with_def simp del: take_append split: location.splits)
    (metis append_take_drop_id linorder_linear take_append take_take min.absorb1)

lemma referenced_kept:
  assumes "bases_apart vc d" and "referenced vc d l" and "s \<in> set (db_file_stores d)"
  shows "\<not> unreferenced_in vc d l s"
proof
  assume "unreferenced_in vc d l s"
  then obtain b where b: "local_base vc s = Some b" "in_directory b l"
    "l \<notin> set (entries_from_files_in_file_store_db b s d)"
    by (auto simp: unreferenced_in_def split: option.splits)
  from assms(2) obtain t c where t: "t \<in> set (db_file_stores d)" "local_base vc t = Some c"
    "l \<in> set (entries_from_files_in_file_store_db c t d)"
    by (auto simp: referenced_def split: option.splits)
  then have "s = t"
    using assms(1,3) b in_both_directories [OF b(2) entries_in_directory [OF t(3)]]
    unfolding bases_apart_def by blast
  with b t show False by simp
qed

lemma referenced_local: "referenced vc d l \<Longrightarrow> \<exists>p. l = LocalPath p"
  by (auto simp: referenced_def entries_from_files_in_file_store_db_def map_filter_def split: option.splits)

text \<open>
  C18: When no base directory of a local store is in another one and deleting from S3 touches
  neither the tables nor the local disk, the clean-up of the stores, unless it is a dry run or raises,
  keeps every file of the local stores that rows refer to where it was, with the same
  contents, whatever its age; in the directory of a local store nothing else is left that is
  older than a day; and no table has changed.
\<close>

theorem clean_up_keeps_referenced:
  assumes remote: "remote_elsewhere vc" and apart: "bases_apart vc d"
    and run: "delete_unreferenced_files vc d = (Inr (), d')" and wet: "\<not> vc_dry_run vc"
  shows "(\<forall>l. referenced vc d l \<longrightarrow> read_location l d' = read_location l d)
    \<and> (\<forall>l s b. s \<in> set (db_file_stores d) \<and> local_base vc s = Some b \<and> in_directory b l \<and> vc_old vc l
         \<and> \<not> referenced vc d l \<longrightarrow> read_location l d' = None)
    \<and> d' = d\<lparr>db_storage := db_storage d'\<rparr>"
proof (intro conjI allI impI)
  from delete_unreferenced_each [OF remote, of "db_file_stores d" d d'] run wet
  have left: "leaves_only (\<lambda>l. \<forall>s\<in>set (db_file_stores d). \<not> unreferenced_in vc d l s) d d'"
    by (simp add: delete_unreferenced_files_def with_db_def)
  fix l
  show "read_location l d' = read_location l d" if r: "referenced vc d l"
  proof -
    obtain p where "l = LocalPath p" using referenced_local [OF r] by blast
    with left referenced_kept [OF apart r] show ?thesis by (simp add: leaves_only_def)
  qed
  show "read_location l d' = None" if l: "s \<in> set (db_file_stores d) \<and> local_base vc s = Some b
      \<and> in_directory b l \<and> vc_old vc l \<and> \<not> referenced vc d l" for s b
  proof -
    from l have "unreferenced_in vc d l s"
      by (force simp: unreferenced_in_def referenced_def split: option.splits)
    moreover obtain p where "l = LocalPath p" using l by (cases l) (simp_all add: in_directory_def)
    ultimately show ?thesis using left l by (auto simp: leaves_only_def)
  qed
  show "d' = d\<lparr>db_storage := db_storage d'\<rparr>" using left by (simp add: leaves_only_def storage_only_def)
qed

section \<open>Artifacts that were never completed\<close>

text \<open>
  C39: A dry run says that it makes no changes and keeps the artifacts that were never
  completed, but it deletes every relation from or to one of them.
\<close>

theorem dry_run_deletes_relations:
  assumes "vc_dry_run vc"
  shows "delete_incomplete_old_artifacts vc d = (Inr (), d\<lparr>db_artifact_relations := filter
    (\<lambda>r. \<forall>a\<in>set (incomplete_old_artifacts vc d). rl_artifact r \<noteq> ar_id a \<and> rl_target r \<noteq> ar_id a)
    (db_artifact_relations d)\<rparr>)"
proof -
  have "for_each as (delete_incomplete_artifact vc) d = (Inr (), d)" for as d
    using assms by (induction as) (simp_all add: delete_incomplete_artifact_def ret_def seq_act_def bind_act_def)
  then show ?thesis
    by (auto simp: delete_incomplete_old_artifacts_def delete_relations_of_all_def seq_act_def bind_act_def
        with_db_def modify_db_def intro!: arg_cong [of _ _ "\<lambda>r. db_artifact_relations_update (\<lambda>_. r) d"] filter_cong)
qed

section \<open>Examples\<close>

text \<open>
  Two stores on the local disk; the first holds the file, and something else that no row
  refers to. The first of two artifacts was never completed, and the second one extends it.
\<close>

definition vac_local :: "pk \<Rightarrow> string \<Rightarrow> file_store" where
  "vac_local i dir = (vac_store i dir 0)\<lparr>fs_backend := LocalBackend,
     fs_configuration := [(''base_directory'', JStr dir)]\<rparr>"

definition vac_stray :: location where "vac_stray = LocalPath ''/a/stray''"

definition vac_kept :: location where
  "vac_kept = LocalPath (''/a/'' @ local_identifier example_file)"

definition vac_relation :: artifact_relation where
  "vac_relation = \<lparr>rl_artifact = 2, rl_target = 1, rl_type = EXTENDS\<rparr>"

definition vac_littered :: db where
  "vac_littered = (vac_db [])\<lparr>
     db_file_stores := [vac_local 1 ''/a'', vac_local 2 ''/b''],
     db_file_in_artifacts := [vac_file 1 1 1 False, vac_file 2 2 1 True],
     db_artifact_relations := [vac_relation],
     db_storage := [(vac_stray, ''x''), (vac_kept, ''data'')]\<rparr>"

lemma vac_littered_fields:
  "db_file_stores vac_littered = [vac_local 1 ''/a'', vac_local 2 ''/b'']"
  "db_storage vac_littered = [(vac_stray, ''x''), (vac_kept, ''data'')]"
  "db_artifact_relations vac_littered = [vac_relation]"
  by (simp_all add: vac_littered_def)

lemma vac_local_base: "local_base (vac_options dry_run) (vac_local i dir) = Some dir"
  by (simp add: local_base_def vac_local_def local_base_directory_def vac_store_def)

lemma vac_entries:
  "entries_from_files_in_file_store_db dir (vac_local i dir) vac_littered =
     (if i = 1 then [LocalPath (dir @ ''/'' @ local_identifier example_file)] else [])"
  by (auto simp: entries_from_files_in_file_store_db_def map_filter_def vac_local_def vac_littered_def vac_simps get_file_def)

theorem clean_up_keeps_referenced_witness:
  "read_location vac_kept (snd (delete_unreferenced_files (vac_options False) vac_littered)) = Some ''data''
    \<and> read_location vac_stray (snd (delete_unreferenced_files (vac_options False) vac_littered)) = None"
proof -
  let ?d' = "snd (delete_unreferenced_files (vac_options False) vac_littered)"
  have remote: "remote_elsewhere (vac_options False)" and wet: "\<not> vc_dry_run (vac_options False)"
    by (simp_all add: remote_elsewhere_def vac_options_def ret_def)
  have apart: "bases_apart (vac_options False) vac_littered"
    by (auto simp: bases_apart_def vac_littered_fields vac_local_base starts_with_def)
  have run: "delete_unreferenced_files (vac_options False) vac_littered = (Inr (), ?d')"
    by (simp add: delete_unreferenced_files_def delete_unreferenced_in_def vac_littered_fields vac_local_def
        vac_store_def local_base_directory_def act_eval Let_def erase_each vac_options_def)
  have stray: "vac_stray \<noteq> vac_kept"
    by (simp add: vac_stray_def vac_kept_def local_identifier_def Let_def hex_def hex_digit_def
        example_file_def toy_hash_def)
  then have "referenced (vac_options False) vac_littered vac_kept"
    "\<not> referenced (vac_options False) vac_littered vac_stray"
    by (simp_all add: referenced_def vac_littered_fields vac_local_base vac_entries vac_kept_def vac_stray_def)
  moreover have "vac_local 1 ''/a'' \<in> set (db_file_stores vac_littered)" "in_directory ''/a'' vac_stray"
    "vc_old (vac_options False) vac_stray"
    by (simp_all add: vac_littered_fields vac_stray_def in_directory_def starts_with_def vac_options_def)
  ultimately have "read_location vac_kept ?d' = read_location vac_kept vac_littered"
    "read_location vac_stray ?d' = None"
    using clean_up_keeps_referenced [OF remote apart run wet] vac_local_base by blast+
  with stray show ?thesis by (simp add: read_location_def vac_littered_fields)
qed

theorem dry_run_deletes_relations_witness:
  "db_artifact_relations vac_littered = [vac_relation]
    \<and> db_artifact_relations (snd (delete_incomplete_old_artifacts (vac_options True) vac_littered)) = []"
proof -
  have "vc_dry_run (vac_options True)" by (simp add: vac_options_def)
  moreover have "incomplete_old_artifacts (vac_options True) vac_littered = [vac_artifact 1 1 0]"
    by (simp add: incomplete_old_artifacts_def complete_artifact_def items_of_artifact_def vac_littered_def vac_simps)
  ultimately show ?thesis
    using dry_run_deletes_relations [of "vac_options True" vac_littered]
    by (simp add: vac_littered_fields vac_relation_def vac_artifact_def)
qed

end
