(* ===== verification/Orchestration.thy ===== *)
theory Orchestration
  imports Lifecycle Lookups
begin

text \<open>
  The infrastructure of workflows (debusine/server/workflows/base.py): the children a
  workflow makes sure to have, the artifacts they promise and require, and the run of an
  orchestrator with what it records about failures.
\<close>

section \<open>Methods of an orchestrator\<close>

text \<open>
  An orchestrator works on the instance of its workflow and on the database; when it raises,
  both are left as they were when the operation that raised began.
\<close>

type_synonym 'a flow = "(inst \<times> db, 'a) act"

definition here :: "(inst \<Rightarrow> db \<Rightarrow> 'a flow) \<Rightarrow> 'a flow" where
  "here f = (\<lambda>(self, d). f self d (self, d))"

definition on_self :: "(inst \<Rightarrow> (inst \<times> 'a) dbact) \<Rightarrow> 'a flow" where
  "on_self m = (\<lambda>(self, d). case m self d of
     (Inl x, d') \<Rightarrow> (Inl x, (self, d')) | (Inr (self', y), d') \<Rightarrow> (Inr y, (self', d')))"

definition on_db :: "'a dbact \<Rightarrow> 'a flow" where
  "on_db m = (\<lambda>(self, d). case m d of (r, d') \<Rightarrow> (r, (self, d')))"

text \<open>What a class of workflows defines: its dynamic data, \<open>populate\<close> and its callbacks.\<close>

record orchestrator =
  oc_compute_dynamic_data :: "db \<Rightarrow> work_request \<Rightarrow> (string \<times> json) list res"
  oc_populate :: "unit flow"
  oc_method :: "string \<Rightarrow> unit flow option"

section \<open>Children\<close>

text \<open>Equality of JSON objects, whatever the order of their keys.\<close>

definition same_object :: "(string \<times> json) list \<Rightarrow> (string \<times> json) list \<Rightarrow> bool" where
  "same_object a b \<longleftrightarrow> list_all (\<lambda>k. map_of a k = map_of b k) (map fst a @ map fst b)"

definition matching_children ::
  "db \<Rightarrow> pk \<Rightarrow> task_type \<Rightarrow> string \<Rightarrow> ((string \<times> json) list \<Rightarrow> bool) \<Rightarrow> workflow_data \<Rightarrow>
     work_request list" where
  "matching_children d self task_type task_name data_ok workflow_data = filter (\<lambda>c. data_ok (wr_task_data c)
     \<and> wr_task_name c = task_name \<and> wr_workflow_data c = workflow_data \<and> wr_task_type c = task_type)
     (wr_children d self)"

definition work_request_ensure_child ::
  "env \<Rightarrow> calls \<Rightarrow> task_type \<Rightarrow> string \<Rightarrow> (string \<times> json) list \<Rightarrow>
     ((string \<times> json) list \<Rightarrow> bool) option \<Rightarrow> workflow_data \<Rightarrow> int \<Rightarrow> inst flow" where
  "work_request_ensure_child e rc task_type task_name task_data task_data_filter workflow_data
       relative_priority = here (\<lambda>self d.
     let data_ok = (case task_data_filter of None \<Rightarrow> (\<lambda>data. same_object data task_data) | Some P \<Rightarrow> P)
     in case matching_children d (wr_id (row self)) task_type task_name data_ok workflow_data of
          [] \<Rightarrow> on_self (\<lambda>self. create_child e rc self task_name
                  (if task_type = WORKFLOW then PENDING else BLOCKED) task_type task_data
                  (Some workflow_data) None relative_priority)
        | [c] \<Rightarrow> ret (set_parent self (fresh c))
        | _ \<Rightarrow> raise (MultipleObjectsReturned ''WorkRequest''))"

definition append_reaction :: "event_name \<Rightarrow> event_reaction \<Rightarrow> event_reactions \<Rightarrow> event_reactions" where
  "append_reaction event a r = (case event of
     On_creation \<Rightarrow> r\<lparr>er_on_creation := er_on_creation r @ [a]\<rparr>
   | On_unblock \<Rightarrow> r\<lparr>er_on_unblock := er_on_unblock r @ [a]\<rparr>
   | On_assignment \<Rightarrow> r\<lparr>er_on_assignment := er_on_assignment r @ [a]\<rparr>
   | On_success \<Rightarrow> r\<lparr>er_on_success := er_on_success r @ [a]\<rparr>
   | On_failure \<Rightarrow> r\<lparr>er_on_failure := er_on_failure r @ [a]\<rparr>)"

definition add_event_reaction :: "env \<Rightarrow> calls \<Rightarrow> event_name \<Rightarrow> event_reaction \<Rightarrow> inst \<Rightarrow> inst dbact" where
  "add_event_reaction e rc event a self =
     (if a \<in> set (event_actions event (wr_event_reactions (row self))) then ret self
      else save e rc (upd (\<lambda>r. r\<lparr>wr_event_reactions := append_reaction event a (wr_event_reactions r)\<rparr>) self))"

section \<open>Artifacts provided and required\<close>

text \<open>The arguments of a lookup made for a work request.\<close>

definition looking_for :: "env \<Rightarrow> inst \<Rightarrow> inst option \<Rightarrow> looking" where
  "looking_for e self root = \<lparr>lk_context = env_context e, lk_user = AuthUser (wr_created_by (row self)),
     lk_workspace = wr_workspace (row self), lk_workflow_root = map_option row root\<rparr>"

definition promise_fields :: "inst \<Rightarrow> inst \<Rightarrow> string \<Rightarrow> (string \<times> json) list \<Rightarrow> (string \<times> json) list" where
  "promise_fields work_request parent category data = dict_update
     [(''promise_work_request_id'', JInt (int (wr_id (row work_request)))),
      (''promise_workflow_id'', JInt (int (wr_id (row parent)))),
      (''promise_category'', JStr category)] data"

definition promise_artifact ::
  "env \<Rightarrow> data_models \<Rightarrow> inst option \<Rightarrow> inst \<Rightarrow> string \<Rightarrow> string \<Rightarrow> (string \<times> json) list \<Rightarrow>
     inst \<Rightarrow> inst dbact" where
  "promise_artifact e dm root parent category name data work_request = with_db (\<lambda>d.
     case lookup_single dm d (looking_for e work_request root) None LookupArtifactOrPromise
            (LookupStr (''internal@collections/name:'' @ name)) of
       Inr _ \<Rightarrow> ret work_request
     | Inl x \<Rightarrow>
         if is_key_error x then process_update_collection_with_data e
           [ActionUpdateCollectionWithData ''internal@collections'' ''debusine:promise'' (Some name)
              (promise_fields work_request parent category data) None] work_request
         else raise x)"

definition provides_artifact ::
  "env \<Rightarrow> data_models \<Rightarrow> calls \<Rightarrow> inst \<Rightarrow> string \<Rightarrow> string \<Rightarrow> (string \<times> json) list \<Rightarrow>
     (string \<times> json) list \<Rightarrow> inst dbact" where
  "provides_artifact e dm rc work_request category name data artifact_filters =
     (if CHR ''/'' \<in> set name then raise (ValueError ''Collection item name may not contain a slash'')
      else if list_ex (\<lambda>(key, _). starts_with ''promise_'' key) data
      then raise (ValueError ''Field name starting with promise_ is not allowed'')
      else
        bind_act (parent_of work_request) (\<lambda>(work_request, parent). case parent of
          None \<Rightarrow> raise (AssertionError [])
        | Some parent \<Rightarrow>
            bind_act (workflow_root work_request) (\<lambda>(work_request, root).
            bind_act (promise_artifact e dm root parent category name data work_request) (\<lambda>work_request.
            add_event_reaction e rc On_success
              (ActionUpdateCollectionWithArtifacts ''internal@collections'' (Some name) data
                 (dict_update artifact_filters [(''category'', JStr category)]) None) work_request))))"

definition lookup_any ::
  "data_models \<Rightarrow> db \<Rightarrow> looking \<Rightarrow> lookup_child_type \<Rightarrow> lookup_value \<Rightarrow> Lookups.lookup_result list res" where
  "lookup_any dm d lk expect_type lookup = (case lookup of
     ValueMultiple alternatives \<Rightarrow> lookup_multiple dm d lk None expect_type alternatives
   | ValueSingle s \<Rightarrow> bind_res (lookup_single dm d lk None expect_type s) (\<lambda>r. Inr [r]))"

definition promised_by :: "Lookups.lookup_result \<Rightarrow> json option option" where
  "promised_by r = (case lr_collection_item r of None \<Rightarrow> None
     | Some i \<Rightarrow> if ci_child_type i = BARE \<and> ci_category i = ''debusine:promise''
                 then Some (map_of (ci_data i) ''promise_work_request_id'') else None)"

primrec depend_on_promises :: "env \<Rightarrow> calls \<Rightarrow> Lookups.lookup_result list \<Rightarrow> inst \<Rightarrow> inst dbact" where
  "depend_on_promises e rc [] work_request = ret work_request"
| "depend_on_promises e rc (r # results) work_request =
     (case promised_by r of
        None \<Rightarrow> depend_on_promises e rc results work_request
      | Some None \<Rightarrow> raise (KeyError ''promise_work_request_id'')
      | Some (Some (JInt i)) \<Rightarrow> with_db (\<lambda>d. case if i < 0 then None else get_wr d (nat i) of
            None \<Rightarrow> raise (DoesNotExist ''WorkRequest'')
          | Some dependency \<Rightarrow>
              bind_act (add_dependency e rc work_request (fresh dependency)) (\<lambda>(work_request, _).
                depend_on_promises e rc results work_request))
      | Some (Some _) \<Rightarrow> raise (ValueError ''Field id expected a number''))"

definition requires_artifact ::
  "env \<Rightarrow> data_models \<Rightarrow> calls \<Rightarrow> inst \<Rightarrow> lookup_value \<Rightarrow> inst dbact" where
  "requires_artifact e dm rc work_request lookup =
     bind_act (workflow_root work_request) (\<lambda>(work_request, root). with_db (\<lambda>d.
       bind_act (lift_res (lookup_any dm d (looking_for e work_request root) LookupArtifactOrPromise lookup))
         (\<lambda>results. depend_on_promises e rc results work_request)))"

definition lookup_singleton_collection ::
  "env \<Rightarrow> data_models \<Rightarrow> string \<Rightarrow> collection flow" where
  "lookup_singleton_collection e dm category = on_self (\<lambda>self.
     bind_act (workflow_root self) (\<lambda>(self, root). with_db (\<lambda>d.
       bind_act (lift_res (lookup_single dm d (looking_for e self root) None LookupCollection
                   (LookupStr (''_@'' @ category)))) (\<lambda>result.
         case lr_collection result of
           None \<Rightarrow> raise (AttributeError ''collection'') | Some c \<Rightarrow> ret (self, c)))))"

section \<open>Running an orchestrator\<close>

definition from_name :: "env \<Rightarrow> inst \<Rightarrow> unit res" where
  "from_name e workflow =
     (if \<not> env_task_exists e WORKFLOW (wr_task_name (row workflow))
      then Inl (ValueError ''not a registered task name'')
      else if \<not> env_task_config_ok e WORKFLOW (wr_task_name (row workflow))
        (used_task_data (row workflow))
      then Inl (TaskConfigError []) else Inr ())"

text \<open>\<open>get_task\<close>: a callback has the orchestrator of the workflow around it.\<close>

definition get_task :: "env \<Rightarrow> unit flow" where
  "get_task e = here (\<lambda>self _.
     if wr_task_type (row self) = WORKFLOW then lift_res (from_name e self)
     else on_self (\<lambda>self. bind_act (parent_of self) (\<lambda>(self, parent). case parent of
            None \<Rightarrow> raise (InternalTaskError ''Workflow callback is not contained in a workflow'')
          | Some workflow \<Rightarrow>
              if wr_task_type (row workflow) \<noteq> WORKFLOW then raise (AssertionError [])
              else seq_act (lift_res (from_name e workflow)) (ret (self, ())))))"

definition is_workflow_callback :: "work_request \<Rightarrow> bool" where
  "is_workflow_callback r \<longleftrightarrow> wr_task_type r = INTERNAL \<and> wr_task_name r = ''workflow''"

text \<open>\<open>orchestrator.work_request\<close>: the instance itself, or the parent it has cached.\<close>

definition on_parent :: "'a flow \<Rightarrow> 'a flow" where
  "on_parent m = (\<lambda>(self, d). case cached_parent self of
     None \<Rightarrow> (Inl (AssertionError []), (self, d))
   | Some p \<Rightarrow> (case m (p, d) of (r, (p', d')) \<Rightarrow> (r, (set_parent p' self, d'))))"

definition failing :: "string \<Rightarrow> string \<Rightarrow> 'a flow \<Rightarrow> 'a flow" where
  "failing message code m = catch_act m (\<lambda>_. raise (WorkflowRunError message code))"

definition configure_failing :: "'a flow \<Rightarrow> 'a flow" where
  "configure_failing m = catch_act m (\<lambda>x. case x of
     InternalTaskError s \<Rightarrow> raise (WorkflowRunError s ''configure-failed'')
   | TaskConfigError s \<Rightarrow> raise (WorkflowRunError ''Failed to configure'' ''configure-failed'')
   | _ \<Rightarrow> raise x)"

definition ensure_dynamic_data :: "env \<Rightarrow> calls \<Rightarrow> orchestrator \<Rightarrow> unit flow" where
  "ensure_dynamic_data e rc oc = here (\<lambda>self d.
     if wr_dynamic_task_data (row self) \<noteq> None then ret ()
     else bind_act (lift_res (oc_compute_dynamic_data oc d (row self))) (\<lambda>data.
       on_self (\<lambda>self. bind_act (save e rc (upd (\<lambda>r. r\<lparr>wr_dynamic_task_data := Some data\<rparr>) self))
         (\<lambda>self. ret (self, ())))))"

definition method_name :: "string \<Rightarrow> string" where
  "method_name step = ''callback_'' @ map (\<lambda>c. if c = CHR ''-'' then CHR ''_'' else c) step"

definition callback :: "orchestrator \<Rightarrow> work_request \<Rightarrow> unit flow" where
  "callback oc work_request = (case wd_step (wr_workflow_data work_request) of
     None \<Rightarrow> raise (NotImplementedError ''Workflow callback called without setting step'')
   | Some step \<Rightarrow>
       (case oc_method oc (method_name step) of
          None \<Rightarrow> raise (NotImplementedError ''Unhandled workflow callback step'')
        | Some m \<Rightarrow> m))"

definition completed_with ::
  "calls \<Rightarrow> result \<Rightarrow> output_data option \<Rightarrow> unit flow" where
  "completed_with rc result out = on_self (\<lambda>self.
     bind_act (rc (MarkCompleted self result out)) (\<lambda>(_, self). ret (self, ())))"

text \<open>The part of \<open>orchestrate_workflow\<close> inside its \<open>try\<close>; \<open>classes\<close> are the orchestrators.\<close>

definition orchestrate_body :: "env \<Rightarrow> calls \<Rightarrow> (string \<Rightarrow> orchestrator) \<Rightarrow> unit flow" where
  "orchestrate_body e rc classes = here (\<lambda>self _.
     if is_workflow_callback (row self) then
       seq_act (configure_failing (get_task e))
      (seq_act (on_parent (here (\<lambda>workflow _. let oc = classes (wr_task_name (row workflow)) in
          seq_act (failing ''Failed to compute dynamic data'' ''dynamic-data-failed'' (ensure_dynamic_data e rc oc))
            (failing ''Orchestrator failed'' ''orchestrator-failed'' (callback oc (row self))))))
         (completed_with rc SUCCESS None))
     else if wr_task_type (row self) = WORKFLOW then
       let oc = classes (wr_task_name (row self)) in
       seq_act (configure_failing (get_task e))
      (seq_act (failing ''Failed to compute dynamic data'' ''dynamic-data-failed'' (ensure_dynamic_data e rc oc))
      (here (\<lambda>self _.
         if wr_status (row self) \<notin> {RUNNING, COMPLETED, ABORTED}
         then raise (WorkflowRunError ''Work request is not running'' ''wrong-status'')
         else
           seq_act (failing ''Orchestrator failed'' ''orchestrator-failed'' (oc_populate oc))
             (here (\<lambda>self d.
                if wr_children d (wr_id (row self)) \<noteq> [] then on_db (unblock_workflow_children rc self)
                else completed_with rc SUCCESS None)))))
     else raise (WorkflowRunError ''Does not have a workflow orchestrator'' ''configure-failed''))"

definition run_error_output :: "string \<Rightarrow> string \<Rightarrow> output_data" where
  "run_error_output message code = empty_output_data\<lparr>od_errors := Some (Some [(message, code)])\<rparr>"

definition orchestrate_workflow :: "env \<Rightarrow> calls \<Rightarrow> (string \<Rightarrow> orchestrator) \<Rightarrow> unit flow" where
  "orchestrate_workflow e rc classes = catch_act (orchestrate_body e rc classes) (\<lambda>x. case x of
     WorkflowRunError message code \<Rightarrow>
       seq_act (completed_with rc ERROR (Some (run_error_output message code))) (raise x)
   | _ \<Rightarrow> raise x)"

text \<open>\<open>run_workflow_task\<close>, in its transaction (the hooks run after it): whether it answers True, or what it raises.\<close>

definition run_workflow_task :: "env \<Rightarrow> calls \<Rightarrow> (string \<Rightarrow> orchestrator) \<Rightarrow> pk \<Rightarrow> bool dbact" where
  "run_workflow_task e rc classes work_request_id = atomic (with_db (\<lambda>d.
     case get_wr d work_request_id of
       None \<Rightarrow> raise (DoesNotExist ''WorkRequest'')
     | Some r \<Rightarrow>
         if wr_task_type r = WORKFLOW \<and> \<not> is_workflow_root r
         then bind_act (rc (MarkCompleted (fresh r) ERROR
                (Some (run_error_output ''Must be populated by its parent workflow instead'' ''non-root-workflow''))))
              (\<lambda>_. ret False)
         else (\<lambda>d. case orchestrate_workflow e rc classes (fresh r, d) of
                 (Inr _, (_, d')) \<Rightarrow> (Inr True, d')
               | (Inl (WorkflowRunError _ _), (_, d')) \<Rightarrow> (Inr False, d')
               | (Inl x, (_, d')) \<Rightarrow> (Inl x, d'))))"

end
