(* ===== verification/WorkflowUtils.thy ===== *)
theory WorkflowUtils
  imports Orchestration "HOL-Library.List_Lexorder" "HOL-Library.Char_ord"
begin

text \<open>
  What the orchestrators share (debusine/server/workflows/workflow_utils.py), and the search
  for an environment (\<open>get_environment\<close>, debusine/tasks/_task.py). The data of an artifact are
  read as they are stored: the pydantic models have checked them before.
\<close>

section \<open>Strings\<close>

definition is_space :: "char \<Rightarrow> bool" where
  "is_space c = (let n = of_char c :: nat in (9 \<le> n \<and> n \<le> 13) \<or> (28 \<le> n \<and> n \<le> 32))"

text \<open>\<open>str.split()\<close>.\<close>

primrec split_when :: "(char \<Rightarrow> bool) \<Rightarrow> string \<Rightarrow> string list" where
  "split_when P [] = [[]]"
| "split_when P (c # cs) =
     (if P c then [] # split_when P cs
      else (case split_when P cs of [] \<Rightarrow> [[c]] | w # ws \<Rightarrow> (c # w) # ws))"

definition split_spaces :: "string \<Rightarrow> string list" where
  "split_spaces s = filter (\<lambda>w. w \<noteq> []) (split_when is_space s)"

definition rstrip :: "string \<Rightarrow> string" where
  "rstrip s = rev (dropWhile is_space (rev s))"

text \<open>\<open>re.split(r"\s*,\s*", s)\<close>.\<close>

fun split_commas :: "string list \<Rightarrow> string list" where
  "split_commas [] = []"
| "split_commas [s] = [s]"
| "split_commas (s # t # ss) = rstrip s # split_commas (dropWhile is_space t # ss)"

section \<open>Lookups of an orchestrator\<close>

text \<open>A lookup with the workspace, the user and the root of the workflow.\<close>

definition looked_up :: "env \<Rightarrow> (looking \<Rightarrow> db \<Rightarrow> 'a res) \<Rightarrow> 'a flow" where
  "looked_up e f = on_self (\<lambda>self. bind_act (workflow_root self) (\<lambda>(self, root). with_db (\<lambda>d.
     bind_act (lift_res (f (looking_for e self root) d)) (\<lambda>x. ret (self, x)))))"

definition lookup_artifact ::
  "data_models \<Rightarrow> string option \<Rightarrow> single_lookup \<Rightarrow> looking \<Rightarrow> db \<Rightarrow> artifact res" where
  "lookup_artifact dm default_category lookup lk d =
     bind_res (lookup_single dm d lk default_category LookupArtifact lookup) (\<lambda>r.
       case lr_artifact r of None \<Rightarrow> Inl (AttributeError ''artifact'') | Some a \<Rightarrow> Inr a)"

definition UPLOAD :: string where "UPLOAD = ''debian:upload''"
definition BINARY_PACKAGES :: string where "BINARY_PACKAGES = ''debian:binary-packages''"
definition PACKAGE_BUILD_LOG :: string where "PACKAGE_BUILD_LOG = ''debian:package-build-log''"

definition is_promise :: "Lookups.lookup_result \<Rightarrow> bool" where
  "is_promise r \<longleftrightarrow> lr_result_type r = BARE
     \<and> (case lr_collection_item r of None \<Rightarrow> False | Some i \<Rightarrow> ci_category i = ''debusine:promise'')"

definition text_field :: "exn \<Rightarrow> (string \<times> json) list \<Rightarrow> string \<Rightarrow> string res" where
  "text_field e data key = (case map_of data key of Some (JStr s) \<Rightarrow> Inr s | _ \<Rightarrow> Inl e)"

definition lookup_result_artifact_category :: "Lookups.lookup_result \<Rightarrow> string res" where
  "lookup_result_artifact_category r =
     (case (lr_result_type r, lr_artifact r, lr_collection_item r) of
        (ARTIFACT, Some a, _) \<Rightarrow> Inr (ar_category a)
      | (_, _, Some i) \<Rightarrow> if is_promise r then text_field (ValueError ''promise'') (ci_data i) ''promise_category''
                          else Inl (ValueError ''Cannot determine artifact category'')
      | _ \<Rightarrow> Inl (ValueError ''Cannot determine artifact category''))"

text \<open>A field of the object that a field holds (\<open>deb_fields\<close>, \<open>changes_fields\<close>).\<close>

definition inner_field :: "(string \<times> json) list \<Rightarrow> string \<Rightarrow> string \<Rightarrow> json option" where
  "inner_field data key field = (case map_of data key of Some (JObj m) \<Rightarrow> map_of m field | _ \<Rightarrow> None)"

definition text_or_error :: "string \<Rightarrow> json option \<Rightarrow> string res" where
  "text_or_error message v = (case v of Some (JStr s) \<Rightarrow> Inr s | _ \<Rightarrow> Inl (ValueError message))"

definition lookup_result_architecture :: "Lookups.lookup_result \<Rightarrow> string res" where
  "lookup_result_architecture r = bind_res
     (case (lr_artifact r, lr_collection_item r) of
        (Some a, _) \<Rightarrow>
          if ar_category a = BINARY_PACKAGES \<or> ar_category a = PACKAGE_BUILD_LOG
          then Inr (map_of (ar_data a) ''architecture'')
          else if ar_category a = BINARY_PACKAGE then Inr (inner_field (ar_data a) ''deb_fields'' ''Architecture'')
          else if ar_category a = UPLOAD then Inr (inner_field (ar_data a) ''changes_fields'' ''Architecture'')
          else Inl ArtifactHasNoArchitecture
      | (None, Some i) \<Rightarrow> Inr (map_of (ci_data i) ''architecture'')
      | (None, None) \<Rightarrow> Inl (ValueError ''Unexpected result''))
     (text_or_error ''Cannot determine architecture for lookup result'')"

definition lookup_result_binary_package_name :: "Lookups.lookup_result \<Rightarrow> string res" where
  "lookup_result_binary_package_name r = bind_res
     (case (lr_artifact r, lr_collection_item r) of
        (Some a, _) \<Rightarrow>
          if ar_category a = BINARY_PACKAGE then Inr (inner_field (ar_data a) ''deb_fields'' ''Package'')
          else Inl ArtifactHasNoBinaryPackageName
      | (None, Some i) \<Rightarrow> Inr (map_of (ci_data i) ''binary_package_name'')
      | (None, None) \<Rightarrow> Inl (ValueError ''Unexpected result''))
     (text_or_error ''Cannot determine binary package name for lookup result'')"

primrec architectures_of :: "Lookups.lookup_result list \<Rightarrow> string list res" where
  "architectures_of [] = Inr []"
| "architectures_of (r # rs) = bind_res (lookup_result_architecture r) (\<lambda>a.
     bind_res (architectures_of rs) (\<lambda>as. Inr (a # as)))"

primrec relevant_lookups ::
  "work_request option \<Rightarrow> string list \<Rightarrow> Lookups.lookup_result list \<Rightarrow> string list res" where
  "relevant_lookups root architectures [] = Inr []"
| "relevant_lookups root architectures (r # rs) =
     bind_res (lookup_result_architecture r) (\<lambda>arch_in_lookup.
     bind_res (if arch_in_lookup \<in> set architectures
               then bind_res (reconstruct_lookup r root) (\<lambda>l. Inr [l]) else Inr []) (\<lambda>l.
     bind_res (relevant_lookups root architectures rs) (\<lambda>ls. Inr (l @ ls))))"

definition filter_artifact_lookup_by_arch ::
  "env \<Rightarrow> data_models \<Rightarrow> lookup_alternative list \<Rightarrow> string list \<Rightarrow> lookup_alternative list flow" where
  "filter_artifact_lookup_by_arch e dm lookup architectures = looked_up e (\<lambda>lk d.
     bind_res (lookup_multiple dm d lk None LookupArtifactOrPromise lookup) (\<lambda>results.
     bind_res (relevant_lookups (lk_workflow_root lk) architectures results) (\<lambda>relevant.
       Inr (map (\<lambda>l. AlternativeSingle (LookupStr l)) (sort relevant)))))"

definition get_architectures ::
  "env \<Rightarrow> data_models \<Rightarrow> lookup_alternative list \<Rightarrow> string set flow" where
  "get_architectures e dm lookup = looked_up e (\<lambda>lk d.
     bind_res (lookup_multiple dm d lk None LookupArtifactOrPromise lookup) (\<lambda>results.
     bind_res (architectures_of results) (\<lambda>as. Inr (set as))))"

section \<open>Source packages\<close>

definition ensure_artifact_categories :: "string \<Rightarrow> string list \<Rightarrow> unit res" where
  "ensure_artifact_categories category expected =
     (if category \<in> set expected then Inr () else Inl (TaskConfigError ''unexpected artifact category''))"

definition follow_artifact_relation ::
  "db \<Rightarrow> artifact \<Rightarrow> relation_type \<Rightarrow> string \<Rightarrow> artifact res" where
  "follow_artifact_relation d a relation category =
     (case List.map_filter (\<lambda>r. if rl_artifact r = ar_id a \<and> rl_type r = relation
             then (case get_artifact d (rl_target r) of
                     Some t \<Rightarrow> if ar_category t = category then Some t else None | None \<Rightarrow> None)
             else None) (db_artifact_relations d) of
        [t] \<Rightarrow> Inr t
      | [] \<Rightarrow> Inl (TaskConfigError ''Unable to find an artifact of category'')
      | _ \<Rightarrow> Inl (TaskConfigError ''Multiple artifacts of category found''))"

definition locate_debian_source_package :: "db \<Rightarrow> artifact \<Rightarrow> artifact res" where
  "locate_debian_source_package d a =
     bind_res (ensure_artifact_categories (ar_category a) [SOURCE_PACKAGE, UPLOAD]) (\<lambda>_.
       if ar_category a = SOURCE_PACKAGE then Inr a
       else follow_artifact_relation d a EXTENDS SOURCE_PACKAGE)"

text \<open>\<open>source_package\<close>, which is computed once for an orchestrator, and its data.\<close>

definition source_package :: "env \<Rightarrow> data_models \<Rightarrow> single_lookup \<Rightarrow> artifact flow" where
  "source_package e dm lookup = looked_up e (\<lambda>lk d.
     bind_res (lookup_artifact dm None lookup lk d) (locate_debian_source_package d))"

record source_data =
  sp_name :: string
  sp_version :: string
  sp_dsc_fields :: "(string \<times> json) list"

definition source_package_data :: "env \<Rightarrow> data_models \<Rightarrow> single_lookup \<Rightarrow> source_data flow" where
  "source_package_data e dm lookup = bind_act (source_package e dm lookup) (\<lambda>a.
     bind_act (lift_res (text_field (ValueError ''name'') (ar_data a) ''name'')) (\<lambda>name.
     bind_act (lift_res (text_field (ValueError ''version'') (ar_data a) ''version'')) (\<lambda>version.
       case map_of (ar_data a) ''dsc_fields'' of
         Some (JObj dsc) \<Rightarrow> ret \<lparr>sp_name = name, sp_version = version, sp_dsc_fields = dsc\<rparr>
       | _ \<Rightarrow> raise (ValueError ''dsc_fields''))))"

definition locate_debian_source_package_lookup ::
  "env \<Rightarrow> data_models \<Rightarrow> single_lookup \<Rightarrow> single_lookup flow" where
  "locate_debian_source_package_lookup e dm lookup = looked_up e (\<lambda>lk d.
     bind_res (lookup_artifact dm None lookup lk d) (\<lambda>a.
       if ar_category a = UPLOAD
       then bind_res (locate_debian_source_package d a) (\<lambda>s. Inr (LookupStr (decimal (ar_id s) @ ''@artifacts'')))
       else bind_res (ensure_artifact_categories (ar_category a) [SOURCE_PACKAGE]) (\<lambda>_. Inr lookup)))"

definition get_source_package_name :: "artifact \<Rightarrow> string res" where
  "get_source_package_name a =
     (if ar_category a = SOURCE_PACKAGE then text_field (ValueError ''name'') (ar_data a) ''name''
      else if ar_category a = UPLOAD then
        (case inner_field (ar_data a) ''changes_fields'' ''Source'' of
           Some (JStr s) \<Rightarrow> Inr s | _ \<Rightarrow> Inl (KeyError ''Source''))
      else if ar_category a = BINARY_PACKAGE \<or> ar_category a = BINARY_PACKAGES
      then text_field (ValueError ''srcpkg_name'') (ar_data a) ''srcpkg_name''
      else if ar_category a = PACKAGE_BUILD_LOG then text_field (ValueError ''source'') (ar_data a) ''source''
      else Inl (AssertionError []))"

definition result_source_names :: "string list \<Rightarrow> Lookups.lookup_result \<Rightarrow> string list res" where
  "result_source_names expected r =
     (case (lr_result_type r, lr_artifact r, lr_collection_item r) of
        (ARTIFACT, Some a, _) \<Rightarrow>
          bind_res (ensure_artifact_categories (ar_category a) expected) (\<lambda>_.
          bind_res (get_source_package_name a) (\<lambda>n. Inr [n]))
      | (BARE, _, Some i) \<Rightarrow>
          bind_res (text_field (KeyError ''promise_category'') (ci_data i) ''promise_category'') (\<lambda>category.
          bind_res (ensure_artifact_categories category expected) (\<lambda>_.
            Inr (case map_of (ci_data i) ''source_package_name'' of Some (JStr n) \<Rightarrow> [n] | _ \<Rightarrow> [])))
      | _ \<Rightarrow> Inl (AssertionError []))"

primrec source_names_of :: "string list \<Rightarrow> Lookups.lookup_result list \<Rightarrow> string list res" where
  "source_names_of expected [] = Inr []"
| "source_names_of expected (r # rs) = bind_res (result_source_names expected r) (\<lambda>ns.
     bind_res (source_names_of expected rs) (\<lambda>ms. Inr (ns @ ms)))"

definition get_source_package_names :: "Lookups.lookup_result list \<Rightarrow> string list \<Rightarrow> string list res" where
  "get_source_package_names results expected =
     bind_res (source_names_of expected results) (\<lambda>ns. Inr (sort (remdups ns)))"

section \<open>Environments\<close>

datatype image_category = Tarball | Image

text \<open>\<open>executor_class(backend).image_category\<close>.\<close>

definition executor_image_category :: "string \<Rightarrow> image_category res" where
  "executor_image_category backend =
     (if backend = ''unshare'' \<or> backend = ''incus-lxc'' then Inr Tarball
      else if backend = ''incus-vm'' \<or> backend = ''qemu'' then Inr Image
      else Inl (NotImplementedError backend))"

definition setdefault :: "string \<Rightarrow> string option \<Rightarrow> (string \<times> string) list \<Rightarrow> (string \<times> string) list" where
  "setdefault key v filters =
     (case v of None \<Rightarrow> filters | Some v \<Rightarrow> if map_of filters key = None then filters @ [(key, v)] else filters)"

definition environment_lookups ::
  "single_lookup \<Rightarrow> string option \<Rightarrow> string \<Rightarrow> string option \<Rightarrow> single_lookup list res" where
  "environment_lookups lookup architecture backend try_variant =
     (case lookup of
        LookupInt _ \<Rightarrow> Inr [lookup]
      | LookupStr s \<Rightarrow>
          (case parse_lookup_string_segments s of
             [first, second] \<Rightarrow> bind_res (parse_key_value_lookup_segment second) (\<lambda>(lookup_type, filters).
               if lookup_type \<noteq> ''match'' then Inr [lookup]
               else bind_res (executor_image_category backend) (\<lambda>category.
                 let filters = setdefault ''architecture'' architecture filters;
                     filters = setdefault ''format''
                       (Some (case category of Tarball \<Rightarrow> ''tarball'' | Image \<Rightarrow> ''image'')) filters;
                     filters = setdefault ''backend'' (Some backend) filters;
                     build = (\<lambda>filters. LookupStr (build_lookup_string_segments
                       [first, build_key_value_lookup_segment lookup_type filters]))
                 in Inr (case try_variant of
                      Some variant \<Rightarrow> if map_of filters ''variant'' = None
                        then [build (filters @ [(''variant'', variant)]), build (filters @ [(''variant'', [])])]
                        else [build filters]
                    | None \<Rightarrow> [build filters])))
           | _ \<Rightarrow> Inr [lookup]))"

primrec first_environment :: "(single_lookup \<Rightarrow> 'a res) \<Rightarrow> single_lookup list \<Rightarrow> 'a res" where
  "first_environment look [] = Inl IndexError"
| "first_environment look (l # ls) =
     (if ls = [] then look l
      else case look l of Inl (KeyError _) \<Rightarrow> first_environment look ls | r \<Rightarrow> r)"

definition get_environment ::
  "env \<Rightarrow> data_models \<Rightarrow> single_lookup \<Rightarrow> string option \<Rightarrow> string \<Rightarrow> string option \<Rightarrow> string option \<Rightarrow>
     artifact flow" where
  "get_environment e dm lookup architecture backend default_category try_variant = looked_up e (\<lambda>lk d.
     bind_res (environment_lookups lookup architecture backend try_variant)
       (first_environment (\<lambda>l. lookup_artifact dm default_category l lk d)))"

definition get_available_architectures ::
  "env \<Rightarrow> data_models \<Rightarrow> string \<Rightarrow> string \<Rightarrow> json option set flow" where
  "get_available_architectures e dm vendor codename = looked_up e (\<lambda>lk d.
     bind_res (lookup_multiple dm d lk (Some ENVIRONMENTS) LookupArtifact
       [LookupDict (LookupStr vendor) LookupArtifact None None [(''codename'', Exact, JStr codename)] []]) (\<lambda>results.
       let architectures = List.map_filter (\<lambda>r. map_option (\<lambda>a. map_of (ar_data a) ''architecture'') (lr_artifact r))
             results
       in if architectures = [] then Inl (TaskConfigError ''Unable to find any environments'')
          else Inr (insert (Some (JStr ''all'')) (set architectures))))"

definition configure_for_overlay_suite ::
  "env \<Rightarrow> data_models \<Rightarrow> json option \<Rightarrow> string \<Rightarrow> string \<Rightarrow> single_lookup \<Rightarrow> string \<Rightarrow> string \<Rightarrow> string \<Rightarrow>
     json option flow" where
  "configure_for_overlay_suite e dm extra_repositories vendor codename environment backend architecture
       try_variant =
     (if \<not> (vendor = ''debian'' \<and> codename = ''experimental'') then ret extra_repositories
      else bind_act (get_environment e dm environment (Some architecture) backend (Some ENVIRONMENTS) (Some try_variant))
        (\<lambda>a. if ar_category a \<noteq> ''debian:system-tarball'' \<and> ar_category a \<noteq> ''debian:system-image''
             then raise (AssertionError [])
             else case (map_of (ar_data a) ''mirror'', map_of (ar_data a) ''components'') of
               (Some mirror, Some components) \<Rightarrow> ret (Some (JList
                 ((case extra_repositories of Some (JList l) \<Rightarrow> l | _ \<Rightarrow> [])
                  @ [JObj [(''url'', mirror), (''suite'', JStr codename), (''components'', components)]])))
             | _ \<Rightarrow> raise (ValueError ''environment'')))"

end
