(* ===== verification/SbuildWorkflow.thy ===== *)
theory SbuildWorkflow
  imports WorkflowUtils
begin

text \<open>
  The workflow that builds a source package (debusine/server/workflows/sbuild.py): one sbuild
  request for each architecture that both the workflow and the package want.
\<close>

text \<open>The fields of the input and of the repositories are JSON, as they end up in the task data.\<close>

record sbuild_workflow_data =
  sb_prefix :: string
  sb_input :: "(string \<times> json) list"
  sb_source_artifact :: single_lookup
  sb_target_distribution :: string
  sb_backend :: string
  sb_architectures :: "string list"
  sb_arch_all_host_architecture :: string
  sb_environment_variant :: "string option"
  sb_extra_repositories :: "json option"
  sb_binnmu :: "json option"
  sb_build_profiles :: "json option"
  sb_retry_delays :: "string list option"
  sb_signing_template_names :: "(string \<times> string list) list"

text \<open>What the orchestrator works with; \<open>matches\<close> is dpkg's table of architecture wildcards.\<close>

record sbuild_orchestrator =
  so_env :: env
  so_models :: data_models
  so_calls :: calls
  so_matches :: "string \<Rightarrow> string \<Rightarrow> bool"
  so_data :: sbuild_workflow_data

definition sb_source_data :: "sbuild_orchestrator \<Rightarrow> source_data flow" where
  "sb_source_data so = source_package_data (so_env so) (so_models so) (sb_source_artifact (so_data so))"

definition dsc_text :: "source_data \<Rightarrow> string \<Rightarrow> string" where
  "dsc_text sp key = (case map_of (sp_dsc_fields sp) key of Some (JStr s) \<Rightarrow> s | _ \<Rightarrow> [])"

definition binary_names :: "sbuild_orchestrator \<Rightarrow> string list flow" where
  "binary_names so = bind_act (sb_source_data so) (\<lambda>sp. ret (split_commas (split_at (CHR '','') (dsc_text sp ''Binary''))))"

definition builds_on :: "(string \<Rightarrow> string \<Rightarrow> bool) \<Rightarrow> string \<Rightarrow> string \<Rightarrow> bool" where
  "builds_on matches workflow_arch package_arch =
     (if workflow_arch = ''all'' then package_arch = ''all'' else matches workflow_arch package_arch)"

definition architectures_to_build ::
  "(string \<Rightarrow> string \<Rightarrow> bool) \<Rightarrow> string list \<Rightarrow> string list \<Rightarrow> string list" where
  "architectures_to_build matches workflow_arches package_arches =
     remdups (filter (\<lambda>w. list_ex (builds_on matches w) package_arches) workflow_arches)"

definition sb_architectures_of :: "sbuild_orchestrator \<Rightarrow> string list flow" where
  "sb_architectures_of so = bind_act (sb_source_data so) (\<lambda>sp.
     let package_arches = split_spaces (dsc_text sp ''Architecture'');
         architectures = architectures_to_build (so_matches so) (sb_architectures (so_data so)) package_arches
     in if package_arches = [] then raise (WorkflowValidationError ''package architecture list is empty'')
        else if architectures = []
        then raise (WorkflowValidationError ''None of the workflow architectures are supported by this package'')
        else ret architectures)"

definition get_host_architecture :: "sbuild_workflow_data \<Rightarrow> string \<Rightarrow> string" where
  "get_host_architecture data architecture =
     (if architecture = ''all'' then sb_arch_all_host_architecture data else architecture)"

text \<open>\<open>target_distribution.split(":", 1)\<close>, which fails to unpack without a colon.\<close>

definition vendor_codename :: "sbuild_workflow_data \<Rightarrow> (string \<times> string) res" where
  "vendor_codename data =
     (let t = sb_target_distribution data; vendor = takeWhile (\<lambda>c. c \<noteq> CHR '':'') t
      in if CHR '':'' \<notin> set t then Inl (ValueError ''not enough values to unpack'')
         else Inr (vendor, drop (Suc (length vendor)) t))"

definition get_environment_lookup :: "sbuild_workflow_data \<Rightarrow> string res" where
  "get_environment_lookup data = bind_res (vendor_codename data) (\<lambda>(vendor, codename).
     Inr (vendor @ ''/match:codename='' @ codename
       @ (case sb_environment_variant data of None \<Rightarrow> [] | Some v \<Rightarrow> if v = [] then [] else '':variant='' @ v)))"

definition sb_get_environment :: "sbuild_orchestrator \<Rightarrow> string \<Rightarrow> artifact flow" where
  "sb_get_environment so architecture = bind_act (lift_res (get_environment_lookup (so_data so))) (\<lambda>lookup.
     catch_act
       (get_environment (so_env so) (so_models so) (LookupStr lookup)
          (Some (get_host_architecture (so_data so) architecture))
          (if sb_backend (so_data so) = ''auto'' then ''unshare'' else sb_backend (so_data so))
          (Some ENVIRONMENTS) (Some ''sbuild''))
       (\<lambda>x. if is_key_error x then raise (WorkflowValidationError ''environment not found'') else raise x))"

primrec each_environment :: "sbuild_orchestrator \<Rightarrow> string list \<Rightarrow> unit flow" where
  "each_environment so [] = ret ()"
| "each_environment so (a # as) = bind_act (sb_get_environment so a) (\<lambda>_. each_environment so as)"

definition sb_validate_input :: "sbuild_orchestrator \<Rightarrow> unit flow" where
  "sb_validate_input so =
     (if CHR '':'' \<notin> set (sb_target_distribution (so_data so))
      then raise (WorkflowValidationError ''target_distribution must be in vendor:codename format'')
      else bind_act (sb_architectures_of so) (each_environment so))"

definition sb_build_dynamic_data :: "sbuild_orchestrator \<Rightarrow> (string \<times> json) list flow" where
  "sb_build_dynamic_data so = bind_act (sb_source_data so) (\<lambda>sp.
     ret [(''subject'', JStr (sp_name sp)), (''parameter_summary'', JStr (sp_name sp @ ''_'' @ sp_version sp))])"

section \<open>Populating\<close>

definition lookup_json :: "single_lookup \<Rightarrow> json" where
  "lookup_json l = (case l of LookupInt i \<Rightarrow> JInt i | LookupStr s \<Rightarrow> JStr s)"

definition or_null :: "json option \<Rightarrow> json" where
  "or_null v = (case v of None \<Rightarrow> JNull | Some v \<Rightarrow> v)"

text \<open>\<open>SbuildData(...)\<close>, whose validator refuses a binNMU of architecture-independent packages.\<close>

definition sbuild_task_data ::
  "sbuild_workflow_data \<Rightarrow> single_lookup \<Rightarrow> string \<Rightarrow> string \<Rightarrow> json option \<Rightarrow> bool \<Rightarrow> (string \<times> json) list res" where
  "sbuild_task_data data source_artifact architecture environment extra_repositories experimental =
     (if sb_binnmu data \<noteq> None \<and> architecture = ''all''
      then Inl (ValueError ''Cannot build architecture-independent packages in a binNMU'')
      else Inr
       [(''input'', JObj (dict_set ''source_artifact'' (lookup_json source_artifact) (sb_input data))),
        (''host_architecture'', JStr (get_host_architecture data architecture)),
        (''environment'', JStr environment),
        (''backend'', JStr (sb_backend data)),
        (''build_components'', JList [JStr (if architecture = ''all'' then ''all'' else ''any'')]),
        (''build_profiles'', or_null (sb_build_profiles data)),
        (''extra_repositories'', or_null extra_repositories),
        (''binnmu'', or_null (sb_binnmu data)),
        (''build_dep_resolver'', if experimental then JStr ''aspcud'' else JNull),
        (''aspcud_criteria'', if experimental
           then JStr ''-count(down),-count(changed,APT-Release:=/experimental/),-removed,-changed,-new''
           else JNull)])"

definition names_json :: "string list \<Rightarrow> json" where
  "names_json ns = JList (map JStr ns)"

text \<open>
  The reactions that record a build in the collection of build logs, if there is one. The key
  of the collection, an integer in the code, is written as the lookup by key it stands for.
\<close>

definition record_build_logs :: "sbuild_orchestrator \<Rightarrow> string \<Rightarrow> string \<Rightarrow> string \<Rightarrow> inst \<Rightarrow> inst flow" where
  "record_build_logs so vendor codename host_architecture wr =
     bind_act (catch_act (bind_act (lookup_singleton_collection (so_env so) (so_models so) PACKAGE_BUILD_LOGS)
         (\<lambda>c. ret (Some (co_id c)))) (\<lambda>x. if is_key_error x then ret None else raise x)) (\<lambda>collection.
       case collection of
         None \<Rightarrow> ret wr
       | Some c \<Rightarrow> bind_act (sb_source_data so) (\<lambda>sp.
           let variables = [(''work_request_id'', JInt (int (wr_id (row wr)))), (''vendor'', JStr vendor),
                 (''codename'', JStr codename), (''architecture'', JStr host_architecture),
                 (''srcpkg_name'', JStr (sp_name sp)), (''srcpkg_version'', JStr (sp_version sp))]
           in on_db (bind_act (add_event_reaction (so_env so) (so_calls so) On_creation
                  (ActionUpdateCollectionWithData (decimal c @ ''@collections'') PACKAGE_BUILD_LOG None variables None) wr) (\<lambda>wr.
                add_event_reaction (so_env so) (so_calls so) On_success
                  (ActionUpdateCollectionWithArtifacts (decimal c @ ''@collections'') None variables
                     [(''category'', JStr PACKAGE_BUILD_LOG)] None) wr))))"

primrec provide_templates :: "sbuild_orchestrator \<Rightarrow> string \<Rightarrow> string list \<Rightarrow> inst \<Rightarrow> inst dbact" where
  "provide_templates so architecture [] wr = ret wr"
| "provide_templates so architecture (name # names) wr =
     bind_act (provides_artifact (so_env so) (so_models so) (so_calls so) wr BINARY_PACKAGE
         (sb_prefix (so_data so) @ ''signing-template-'' @ architecture @ ''-'' @ name)
         [(''architecture'', JStr architecture), (''binary_package_name'', JStr name)]
         [(''data__deb_fields__Package'', JStr name)])
       (provide_templates so architecture names)"

text \<open>The reactions of a build: what it provides, where it is recorded and when it is retried.\<close>

definition describe_build :: "sbuild_orchestrator \<Rightarrow> string \<Rightarrow> string \<Rightarrow> string \<Rightarrow> artifact \<Rightarrow> inst \<Rightarrow> unit flow" where
  "describe_build so vendor codename architecture source_artifact wr =
     (let data = so_data so; e = so_env so; dm = so_models so; rc = so_calls so
      in bind_act (binary_names so) (\<lambda>names.
         bind_act (lift_res (get_source_package_name source_artifact)) (\<lambda>source_name.
         bind_act (on_db (provides_artifact e dm rc wr UPLOAD (sb_prefix data @ ''build-'' @ architecture)
           [(''binary_names'', names_json names), (''architecture'', JStr architecture),
            (''source_package_name'', JStr source_name)] [])) (\<lambda>wr.
         bind_act (on_db (provides_artifact e dm rc wr PACKAGE_BUILD_LOG
           (sb_prefix data @ ''buildlog-'' @ architecture) [(''architecture'', JStr architecture)] [])) (\<lambda>wr.
         bind_act (record_build_logs so vendor codename (get_host_architecture data architecture) wr) (\<lambda>wr.
         bind_act (on_db (case sb_retry_delays data of None \<Rightarrow> ret wr
           | Some delays \<Rightarrow> add_event_reaction e rc On_failure (ActionRetryWithDelays delays) wr)) (\<lambda>wr.
         bind_act (on_db (provide_templates so architecture
           (case map_of (sb_signing_template_names data) architecture of None \<Rightarrow> [] | Some ns \<Rightarrow> ns) wr))
           (\<lambda>_. ret ()))))))))"

definition populate_single :: "sbuild_orchestrator \<Rightarrow> string \<Rightarrow> string \<Rightarrow> unit flow" where
  "populate_single so environment architecture =
     (let data = so_data so; e = so_env so; dm = so_models so
      in bind_act (locate_debian_source_package_lookup e dm (sb_source_artifact data)) (\<lambda>source_lookup.
         bind_act (looked_up e (\<lambda>lk d. lookup_artifact dm None source_lookup lk d)) (\<lambda>source_artifact.
         if ar_category source_artifact \<noteq> SOURCE_PACKAGE then raise (AssertionError [])
         else
           bind_act (lift_res (vendor_codename data)) (\<lambda>(vendor, codename).
           bind_act (configure_for_overlay_suite e dm (sb_extra_repositories data) vendor codename
             (LookupStr environment) (sb_backend data) (get_host_architecture data architecture) ''sbuild'')
             (\<lambda>extra_repositories.
           bind_act (lift_res (sbuild_task_data data source_lookup architecture environment extra_repositories
             (vendor = ''debian'' \<and> codename = ''experimental''))) (\<lambda>task_data.
           bind_act (work_request_ensure_child e (so_calls so) WORKER ''sbuild'' task_data None
             (default_workflow_data\<lparr>wd_display_name := Some (''Build '' @ architecture),
                wd_step := Some (''build-'' @ architecture)\<rparr>) 0)
             (describe_build so vendor codename architecture source_artifact)))))))"

definition child_architecture :: "(string \<times> json) list \<Rightarrow> string res" where
  "child_architecture task_data =
     (case map_of task_data ''build_components'' of
        None \<Rightarrow> Inl (KeyError ''build_components'')
      | Some c \<Rightarrow> if c = JList [JStr ''all''] then Inr ''all''
                  else text_field (KeyError ''host_architecture'') task_data ''host_architecture'')"

primrec child_architectures :: "work_request list \<Rightarrow> string list res" where
  "child_architectures [] = Inr []"
| "child_architectures (c # cs) = bind_res (child_architecture (wr_task_data c)) (\<lambda>a.
     bind_res (child_architectures cs) (\<lambda>as. Inr (a # as)))"

primrec populate_each :: "sbuild_orchestrator \<Rightarrow> string list \<Rightarrow> unit flow" where
  "populate_each so [] = ret ()"
| "populate_each so (a # as) =
     bind_act (lift_res (get_environment_lookup (so_data so))) (\<lambda>environment.
       seq_act (populate_single so environment a) (populate_each so as))"

definition sb_populate :: "sbuild_orchestrator \<Rightarrow> unit flow" where
  "sb_populate so = here (\<lambda>self d.
     bind_act (lift_res (child_architectures (wr_children d (wr_id (row self))))) (\<lambda>existing.
     bind_act (sb_architectures_of so) (\<lambda>architectures.
       if \<not> set existing \<subseteq> set architectures then raise (AssertionError [])
       else populate_each so (sort (filter (\<lambda>a. a \<notin> set existing) architectures)))))"

end
