(* ===== verification/Orchestrating.thy ===== *)
theory Orchestrating
  imports Orchestration Progress
begin

text \<open>
  When a workflow makes sure to have a child, it has it once: asked again, it finds what it
  created, unless the child inherited a task configuration or was retried.
\<close>

section \<open>Creating a child\<close>

lemma parent_of_row: "parent_of i d = (Inr (j, q), d') \<Longrightarrow> d' = d \<and> row j = row i"
  by (auto simp: parent_of_def act_defs set_parent_def split: option.splits)

lemma load_root_row: "load_root n i d = (Inr (j, q), d') \<Longrightarrow> d' = d \<and> row j = row i"
proof (induction n arbitrary: i j q d d')
  case (Suc n)
  then obtain k p d1 where p: "parent_of i d = (Inr (k, p), d1)"
    by (auto simp: bind_act_def split: prod.splits sum.splits)
  with Suc show ?case
    by (cases p) (auto simp: bind_act_def ret_def set_parent_def split: prod.splits sum.splits
        dest!: parent_of_row)
qed (simp add: raise_def)

lemma workflow_root_row: "workflow_root i d = (Inr (j, q), d') \<Longrightarrow> d' = d \<and> row j = row i"
  by (auto simp: workflow_root_def bind_act_def with_db_def ret_def split: if_splits prod.splits sum.splits
      simp del: load_root.simps dest!: load_root_row)

lemma creation_reactions:
  assumes "base_tasks e" and "event_actions On_creation (wr_event_reactions (row i)) = []"
    and run: "process_event_reactions e rc i On_creation d = (Inr (b, j), d')"
  shows "d' = d \<and> row j = row i"
proof -
  from run show ?thesis
    by (auto simp: process_event_reactions_def Let_def no_creation_actions [OF assms(1,2)]
        process_skip_if_lookup_result_changed_def process_record_in_task_history_def
        when_act_def with_db_def bind_act_def seq_act_def ret_def
        split: prod.splits sum.splits dest!: workflow_root_row)
qed

definition new_child :: "env \<Rightarrow> inst \<Rightarrow> db \<Rightarrow> string \<Rightarrow> status \<Rightarrow> task_type \<Rightarrow> (string \<times> json) list \<Rightarrow>
    workflow_data \<Rightarrow> int \<Rightarrow> work_request" where
  "new_child e self d task_name status task_type task_data workflow_data relative_priority =
     (blank_row (wr_workspace (row self)) (wr_created_by (row self)))
        \<lparr>wr_id := tbl_next wr_id (db_work_requests d), wr_created_at := env_now e,
         wr_parent := Some (wr_id (row self)), wr_status := status, wr_task_type := task_type,
         wr_task_name := task_name, wr_task_data := child_task_data (row self) task_data,
         wr_priority_base := priority_effective (row self) + relative_priority,
         wr_workflow_data := workflow_data, wr_event_reactions := no_event_reactions\<rparr>"

lemma new_child_simps [simp]:
  "wr_id (new_child e self d n s t x w p) = tbl_next wr_id (db_work_requests d)"
  "wr_parent (new_child e self d n s t x w p) = Some (wr_id (row self))"
  "wr_task_name (new_child e self d n s t x w p) = n" "wr_task_type (new_child e self d n s t x w p) = t"
  "wr_status (new_child e self d n s t x w p) = s"
  "wr_task_data (new_child e self d n s t x w p) = child_task_data (row self) x"
  "wr_workflow_data (new_child e self d n s t x w p) = w"
  by (simp_all add: new_child_def)

lemma saved_unfold: "save_wr (env_auto e) r d = (Inr (), saved e r d)"
  by (simp add: save_wr_def act_defs saved_def)

lemma saved_requests:
  "get_wr d (wr_id r) = None \<Longrightarrow> db_work_requests (saved e r d) = db_work_requests d @ [r]"
  "get_wr d (wr_id r) \<noteq> None \<Longrightarrow> db_work_requests (saved e r d) =
     map (\<lambda>q. if wr_id q = wr_id r then r else q) (db_work_requests d)"
  by (simp add: saved_def put_wr_def) (simp add: saved_def put_wr_rows)

definition known_workflow :: "inst \<Rightarrow> db \<Rightarrow> bool" where
  "known_workflow self d \<longleftrightarrow> wr_id (row self) \<noteq> 0 \<and> get_wr d (wr_id (row self)) \<noteq> None
     \<and> wr_parent (row self) \<noteq> Some (wr_id (row self))"

text \<open>Saving a workflow instance may take back what happened to its row, but it stays no child of itself.\<close>

lemma create_child_effect:
  assumes calm: "base_tasks e" and self: "known_workflow self d"
    and run: "create_child e (run (Suc n) e) self name st t data (Some wd) None prio d = (Inr (self', child), d')"
  shows "row child = new_child e self d name st t data wd prio
    \<and> (\<exists>s. row self' = (row self)\<lparr>wr_workflow_runtime_status := s\<rparr>)
    \<and> db_work_requests d' = map (\<lambda>q. if wr_id q = wr_id (row self) then row self' else q)
        (db_work_requests d @ [row child])"
proof -
  let ?r = "(new_child e self d name st t data wd prio)\<lparr>wr_id := 0, wr_created_at := 0\<rparr>"
  let ?c = "new_child e self d name st t data wd prio"
  have blank: "(blank_row (wr_workspace (row self)) (wr_created_by (row self)))
      \<lparr>wr_parent := Some (wr_id (row self)), wr_status := st, wr_task_type := t, wr_task_name := name,
       wr_task_data := child_task_data (row self) data,
       wr_priority_base := priority_effective (row self) + prio, wr_workflow_data := wd,
       wr_event_reactions := no_event_reactions\<rparr> = ?r"
    by (simp add: new_child_def blank_row_def)
  have id0: "wr_id ?r = 0" by simp
  from run obtain c d1 where first: "save e (run (Suc n) e) (Inst ?r (Some self)) d = (Inr c, d1)"
    and rest: "seq_act (lift_res (clean e (row c))) (with_db (\<lambda>d.
        bind_act (lift_res (compute_workflow_runtime_status d (row self))) (\<lambda>s.
        bind_act (save e (run (Suc n) e) (upd (\<lambda>r. r\<lparr>wr_workflow_runtime_status := Some s\<rparr>) self))
          (\<lambda>self. ret (self, set_parent self c))))) d1 = (Inr (self', child), d')"
    by (auto simp: create_child_def blank Let_def raise_def bind_act_def split: if_splits prod.splits sum.splits)
  from first obtain b j d2 where reactions: "process_event_reactions e (run n e) (Inst ?r (Some self)) On_creation d
      = (Inr (b, j), d2)"
    and inserted: "(if wr_id (row j) = 0 then insert_wr e j
        else seq_act (save_wr (env_auto e) (row j)) (ret j)) d2 = (Inr c, d1)"
    unfolding save_def inst.sel if_P [OF id0] run.simps handle_def call.case bind_act_def [where f = "\<lambda>(_, self). _ self"]
    by (auto split: prod.splits sum.splits)
  have "event_actions On_creation (wr_event_reactions ?r) = []"
    by (simp add: event_actions_def new_child_def no_event_reactions_def)
  with creation_reactions [OF calm _ reactions] have "d2 = d" "row j = ?r" by simp_all
  with inserted id0 have "c = upd (\<lambda>r. r\<lparr>wr_id := tbl_next wr_id (db_work_requests d), wr_created_at := env_now e\<rparr>) j"
    "d1 = saved e (row c) d"
    by (auto simp: insert_wr_def with_db_def Let_def seq_act_def bind_act_def saved_unfold ret_def)
  moreover from this \<open>row j = ?r\<close> have "row c = ?c" by (simp add: upd_def new_child_def)
  ultimately have c: "row c = ?c" "d1 = saved e ?c d" by simp_all
  have fresh: "get_wr d (wr_id ?c) = None" by (simp add: get_wr_def tbl_get_next)
  note d1 = saved_requests(1) [OF this, of e, folded c(2)]
  have ids: "wr_id (row self) \<noteq> wr_id ?c" using fresh self by (auto simp: known_workflow_def)
  have known: "get_wr d1 (wr_id (row self)) \<noteq> None"
    using self by (simp add: get_wr_def d1 known_workflow_def tbl_get_append split: option.splits)
  from rest obtain s where "self' = upd (\<lambda>r. r\<lparr>wr_workflow_runtime_status := Some s\<rparr>) self"
    "child = set_parent self' c" "d' = saved e (row self') d1"
    using self by (auto simp: act_defs save_known upd_def known_workflow_def split: sum.splits)
  with c d1 known saved_requests(2) [of d1 "row self'" e] show ?thesis
    by (auto simp: upd_def set_parent_def)
qed

section \<open>Asking twice\<close>

definition matches_child ::
  "pk \<Rightarrow> task_type \<Rightarrow> string \<Rightarrow> ((string \<times> json) list \<Rightarrow> bool) \<Rightarrow> workflow_data \<Rightarrow> work_request \<Rightarrow> bool" where
  "matches_child self t name ok wd c \<longleftrightarrow> wr_parent c = Some self \<and> ok (wr_task_data c) \<and> wr_task_name c = name
     \<and> wr_workflow_data c = wd \<and> wr_task_type c = t"

lemma matching_children_sorted:
  "matching_children d self t name ok wd = sort_key wr_id (filter (matches_child self t name ok wd) (db_work_requests d))"
proof -
  have "filter P (filter Q xs) = filter (\<lambda>c. Q c \<and> P c) xs" for P Q and xs :: "work_request list" by simp
  then show ?thesis
    by (simp add: matching_children_def wr_children_def objects_def filter_sort matches_child_def [abs_def])
qed

lemma children_count: "length (wr_children d i) = length (filter (\<lambda>r. wr_parent r = Some i) (db_work_requests d))"
  by (simp add: wr_children_def objects_def filter_sort)

text \<open>What a filter on the children of a workflow finds after one more was created.\<close>

lemma filter_after_creation:
  assumes rows: "db_work_requests d' = map (\<lambda>q. if wr_id q = wr_id (row self) then row self' else q)
      (db_work_requests d @ [c])"
    and apart: "wr_id c \<noteq> wr_id (row self)" and self: "known_workflow self d"
    and self': "row self' = (row self)\<lparr>wr_workflow_runtime_status := s\<rparr>"
    and kids: "\<And>r. P r \<Longrightarrow> wr_parent r = Some (wr_id (row self))"
    and tree: "\<And>q. q \<in> set (db_work_requests d) \<Longrightarrow> wr_id q = wr_id (row self) \<Longrightarrow> \<not> P q"
  shows "filter P (db_work_requests d') = filter P (db_work_requests d @ [c])"
proof -
  have "\<not> P (row self')" using kids [of "row self'"] self self' by (auto simp: known_workflow_def)
  then have "filter P (map (\<lambda>q. if wr_id q = wr_id (row self) then row self' else q) xs) = filter P xs"
    if "\<And>q. q \<in> set xs \<Longrightarrow> wr_id q = wr_id (row self) \<Longrightarrow> \<not> P q" for xs
    using that by (induction xs) auto
  with tree apart show ?thesis by (simp add: rows)
qed

lemma known_workflow_after:
  assumes "db_work_requests d' = map (\<lambda>q. if wr_id q = wr_id (row self) then row self' else q)
      (db_work_requests d @ [c])"
    and "row self' = (row self)\<lparr>wr_workflow_runtime_status := s\<rparr>" and "known_workflow self d"
  shows "known_workflow self' d'"
proof -
  from assms(3) obtain q where "q \<in> set (db_work_requests d)" "wr_id q = wr_id (row self)"
    by (auto simp: known_workflow_def get_wr_def tbl_get_None)
  then have "row self' \<in> set (db_work_requests d')" unfolding assms(1) by force
  then have "get_wr d' (wr_id (row self')) \<noteq> None" by (auto simp: get_wr_def tbl_get_None)
  with assms(2,3) show ?thesis by (simp add: known_workflow_def)
qed

definition no_own_child :: "inst \<Rightarrow> db \<Rightarrow> bool" where
  "no_own_child self d \<longleftrightarrow> (\<forall>q\<in>set (db_work_requests d). wr_id q = wr_id (row self) \<longrightarrow>
     wr_parent q \<noteq> Some (wr_id (row self)))"

lemma ensure_child_creates:
  assumes calm: "base_tasks e" and self: "known_workflow self d" "no_own_child self d"
    and none: "matching_children d (wr_id (row self)) t name
        (case flt of None \<Rightarrow> (\<lambda>x. same_object x data) | Some P \<Rightarrow> P) wd = []"
    and run: "work_request_ensure_child e (run (Suc n) e) t name data flt wd prio (self, d)
      = (Inr child, (self', d'))"
  shows "\<exists>st s. row child = new_child e self d name st t data wd prio
    \<and> row self' = (row self)\<lparr>wr_workflow_runtime_status := s\<rparr> \<and> known_workflow self' d' \<and> no_own_child self' d'
    \<and> (\<forall>P. (\<forall>r. P r \<longrightarrow> wr_parent r = Some (wr_id (row self))) \<longrightarrow>
         filter P (db_work_requests d') = filter P (db_work_requests d @ [row child]))"
proof -
  let ?st = "if t = WORKFLOW then PENDING else BLOCKED"
  from run none have "create_child e (run (Suc n) e) self name ?st t data (Some wd) None prio d
      = (Inr (self', child), d')"
    by (auto simp: work_request_ensure_child_def here_def Let_def on_self_def split: prod.splits sum.splits)
  from create_child_effect [OF calm self(1) this] obtain s where r:
    "row child = new_child e self d name ?st t data wd prio" "row self' = (row self)\<lparr>wr_workflow_runtime_status := s\<rparr>"
    "db_work_requests d' = map (\<lambda>q. if wr_id q = wr_id (row self) then row self' else q)
        (db_work_requests d @ [row child])" by blast
  have fresh: "wr_id (row child) \<noteq> wr_id (row self)"
    using self(1) tbl_get_next [of wr_id "db_work_requests d"] r(1) by (auto simp: known_workflow_def get_wr_def)
  have "no_own_child self' d'"
    using self fresh r(2,3) by (auto simp: no_own_child_def known_workflow_def)
  moreover note known_workflow_after [OF r(3,2) self(1)]
  moreover have "filter P (db_work_requests d') = filter P (db_work_requests d @ [row child])"
    if "\<forall>r. P r \<longrightarrow> wr_parent r = Some (wr_id (row self))" for P
    using that self(2) by (intro filter_after_creation [OF r(3) fresh self(1) r(2)]) (auto simp: no_own_child_def)
  ultimately show ?thesis using r(1,2) by blast
qed

text \<open>
  C19: A workflow that makes sure to have a child has it once, however often it asks: the
  second time it finds the request of the first time and writes nothing, when the task
  data pass the filter that was given, or when no task configuration is inherited. (The
  workflow is a row of the database and not its own child; tasks have the reactions of
  \<open>BaseTask\<close>.)
\<close>

theorem ensure_child_once:
  assumes calm: "base_tasks e" and self: "known_workflow self d" "no_own_child self d"
    and found: "case flt of Some P \<Rightarrow> P (child_task_data (row self) data)
      | None \<Rightarrow> child_task_data (row self) data = data"
    and once: "work_request_ensure_child e (run (Suc n) e) t name data flt wd prio (self, d)
      = (Inr child, (self', d'))"
  shows "work_request_ensure_child e (run (Suc n) e) t name data flt wd prio (self', d')
      = (Inr (set_parent self' (fresh (row child))), (self', d'))
    \<and> matches_child (wr_id (row self)) t name (case flt of None \<Rightarrow> (\<lambda>x. same_object x data) | Some P \<Rightarrow> P) wd
        (row child)
    \<and> length (wr_children d' (wr_id (row self))) \<le> Suc (length (wr_children d (wr_id (row self))))"
proof -
  let ?ok = "case flt of None \<Rightarrow> (\<lambda>x. same_object x data) | Some P \<Rightarrow> P"
  let ?kids = "\<lambda>d. matching_children d (wr_id (row self)) t name ?ok wd"
  have ok: "?ok (child_task_data (row self) data)"
    using found by (cases flt) (auto simp: same_object_def list_all_iff)
  show ?thesis
  proof (cases "?kids d")
    case Nil
    from ensure_child_creates [OF calm self Nil once] obtain st s where r:
      "row child = new_child e self d name st t data wd prio"
      "row self' = (row self)\<lparr>wr_workflow_runtime_status := s\<rparr>"
      "\<forall>P. (\<forall>r. P r \<longrightarrow> wr_parent r = Some (wr_id (row self))) \<longrightarrow>
         filter P (db_work_requests d') = filter P (db_work_requests d @ [row child])" by blast
    have m: "matches_child (wr_id (row self)) t name ?ok wd (row child)"
      using ok by (simp add: matches_child_def r(1))
    have "filter (matches_child (wr_id (row self)) t name ?ok wd) (db_work_requests d') = [row child]"
      using r(3)[rule_format, of "matches_child (wr_id (row self)) t name ?ok wd"] Nil m
      by (simp add: matching_children_sorted matches_child_def [abs_def] sort_key_const [of "[]"] flip: length_0_conv)
    then have "?kids d' = [row child]" by (simp add: matching_children_sorted)
    moreover have "length (wr_children d' (wr_id (row self))) = Suc (length (wr_children d (wr_id (row self))))"
      using r(3)[rule_format, of "\<lambda>q. wr_parent q = Some (wr_id (row self))"] by (simp add: children_count r(1))
    ultimately show ?thesis using m
      by (simp add: work_request_ensure_child_def here_def Let_def r(2) ret_def)
  next
    case (Cons c cs)
    with once have "cs = []" "child = set_parent self (fresh c)" "self' = self" "d' = d"
      by (auto simp: work_request_ensure_child_def here_def Let_def ret_def raise_def split: list.splits)
    moreover have "matches_child (wr_id (row self)) t name ?ok wd c"
      using Cons set_sort [of wr_id "filter (matches_child (wr_id (row self)) t name ?ok wd) (db_work_requests d)"]
      by (auto simp: matching_children_sorted)
    ultimately show ?thesis using once by (simp add: set_parent_def fresh_def)
  qed
qed

section \<open>When a child is not found again\<close>

lemma created_children:
  assumes "base_tasks e" and "known_workflow self d" "no_own_child self d"
    and "matching_children d (wr_id (row self)) t name
        (case flt of None \<Rightarrow> (\<lambda>x. same_object x data) | Some P \<Rightarrow> P) wd = []"
    and "work_request_ensure_child e (run (Suc n) e) t name data flt wd prio (self, d)
      = (Inr child, (self', d'))"
  shows "length (wr_children d' (wr_id (row self))) = Suc (length (wr_children d (wr_id (row self))))
    \<and> wr_id (row child) = tbl_next wr_id (db_work_requests d)"
proof -
  from ensure_child_creates [OF assms] obtain st where r: "row child = new_child e self d name st t data wd prio"
    "\<forall>P. (\<forall>r. P r \<longrightarrow> wr_parent r = Some (wr_id (row self))) \<longrightarrow>
         filter P (db_work_requests d') = filter P (db_work_requests d @ [row child])" by blast
  from r(2)[rule_format, of "\<lambda>q. wr_parent q = Some (wr_id (row self))"] r(1) show ?thesis
    by (simp add: children_count)
qed

text \<open>
  C33: \<open>create_child\<close> passes the task configuration of the workflow on to the child, but the
  search for an existing child compares the task data without it: a workflow that sets one
  and asks twice for a child that had no match, with task data without a configuration of
  their own, has two more children when both calls return. (Tasks have the reactions of
  \<open>BaseTask\<close>.)
\<close>

theorem inherited_configuration_duplicates:
  assumes calm: "base_tasks e" and self: "known_workflow self d" "no_own_child self d"
    and conf: "map_of data ''task_configuration'' = None"
      "map_of (wr_task_data (row self)) ''task_configuration'' = Some c" "json_truthy c"
    and none: "matching_children d (wr_id (row self)) t name (\<lambda>x. same_object x data) wd = []"
    and once: "work_request_ensure_child e (run (Suc n) e) t name data None wd prio (self, d)
      = (Inr child, (self', d'))"
    and twice: "work_request_ensure_child e (run (Suc n) e) t name data None wd prio (self', d')
      = (Inr child', (self'', d''))"
  shows "wr_id (row child') \<noteq> wr_id (row child)
    \<and> length (wr_children d'' (wr_id (row self))) = length (wr_children d (wr_id (row self))) + 2"
proof -
  let ?ok = "\<lambda>x. same_object x data"
  note creates = ensure_child_creates [where flt = None and data = data, OF calm]
  from creates [OF self _ once] none obtain st s where r:
    "row child = new_child e self d name st t data wd prio"
    "row self' = (row self)\<lparr>wr_workflow_runtime_status := s\<rparr>" "known_workflow self' d'" "no_own_child self' d'"
    "\<forall>P. (\<forall>r. P r \<longrightarrow> wr_parent r = Some (wr_id (row self))) \<longrightarrow>
         filter P (db_work_requests d') = filter P (db_work_requests d @ [row child])" by auto
  have "map_of (child_task_data (row self) data) ''task_configuration'' = Some c"
    "''task_configuration'' \<in> fst ` set (child_task_data (row self) data)"
    using conf by (simp_all add: child_task_data_def keys_dict_set map_of_dict_set)
  then have other: "\<not> same_object (child_task_data (row self) data) data"
    using conf(1) by (force simp: same_object_def list_all_iff)
  have none': "matching_children d' (wr_id (row self')) t name ?ok wd = []"
    using none other r(5)[rule_format, of "matches_child (wr_id (row self)) t name ?ok wd"]
    by (simp add: matching_children_sorted matches_child_def [abs_def] r(1,2) flip: length_0_conv)
  note made = created_children [where flt = None and data = data, OF calm]
  from made [OF self _ once] none have first: "length (wr_children d' (wr_id (row self)))
      = Suc (length (wr_children d (wr_id (row self))))" by simp
  from made [OF r(3,4) _ twice] none' r(2) have second: "length (wr_children d'' (wr_id (row self)))
      = Suc (length (wr_children d' (wr_id (row self))))" "wr_id (row child') = tbl_next wr_id (db_work_requests d')"
    by simp_all
  have "row child \<in> set (filter (\<lambda>q. wr_parent q = Some (wr_id (row self))) (db_work_requests d'))"
    using r(5)[rule_format, of "\<lambda>q. wr_parent q = Some (wr_id (row self))"] by (simp add: r(1))
  then have "wr_id (row child) < tbl_next wr_id (db_work_requests d')"
    by (auto intro: tbl_next_fresh)
  with first second show ?thesis by simp
qed

text \<open>
  Retrying a workflow writes the count of retries into its workflow data, also when it
  is back to zero; the workflow around it, populated again, does not find it there any
  more and creates another one.
\<close>

theorem retried_child_duplicated:
  assumes calm: "base_tasks e" and self: "known_workflow self d" "no_own_child self d"
    and retried: "\<forall>q\<in>set (wr_children d (wr_id (row self))). wr_task_name q = name \<longrightarrow> (\<exists>reason q0. q = count_retry reason q0)"
    and wd: "\<not> wd_retry_counted wd"
    and run: "work_request_ensure_child e (run (Suc n) e) t name data flt wd prio (self, d)
      = (Inr child, (self', d'))"
  shows "length (wr_children d' (wr_id (row self))) = Suc (length (wr_children d (wr_id (row self))))
    \<and> wr_id (row child) \<notin> wr_id ` set (wr_children d (wr_id (row self)))"
proof -
  have "q \<notin> set (matching_children d (wr_id (row self)) t name ok wd)" for q ok
    using retried wd by (fastforce simp: matching_children_def count_retry_def)
  then have "matching_children d (wr_id (row self)) t name ok wd = []" for ok
    using last_in_set by blast
  from created_children [OF calm self this run] show ?thesis
    by (fastforce simp: wr_children_def objects_def dest: tbl_next_fresh [where key = wr_id])
qed

section \<open>Failures\<close>

text \<open>
  C20: When the orchestrator of a running root workflow that can be configured raises
  anything at all and leaves it running in a database with nothing left to do, the task that
  runs it answers False instead of raising, the workflow is terminated, and again nothing is
  left to do. The conditions on event reactions and collections are the ones for completing
  a request.
\<close>

theorem orchestrator_failure_recorded:
  assumes calm: "calm_env e" and r: "get_wr d i = Some r" "wr_task_type r = WORKFLOW" "wr_parent r = None"
      "wr_status r = RUNNING" "wr_dynamic_task_data r \<noteq> None"
    and configured: "from_name e (fresh r) = Inr ()"
    and raises: "oc_populate (classes (wr_task_name r)) (fresh r, d) = (Inl x, (fresh r', d1))"
    and r': "r' \<in> set (db_work_requests d1)" "wr_status r' = RUNNING"
    and d1: "calm_db d1" "settled d1" "cascade_fuel d1 \<le> n"
  shows "\<exists>d'. run_workflow_task e (run n e) classes i d = (Inr False, d')
    \<and> evolves d1 d' \<and> calm_db d' \<and> settled d'
    \<and> (\<forall>q\<in>set (db_work_requests d'). wr_id q = wr_id r' \<longrightarrow> is_terminated q)"
proof -
  let ?message = "''Orchestrator failed''" and ?code = "''orchestrator-failed''"
  have body: "orchestrate_body e (run n e) classes (fresh r, d)
      = (Inl (WorkflowRunError ?message ?code), (fresh r', d1))"
    using r configured raises
    by (simp add: orchestrate_body_def here_def is_workflow_callback_def fresh_def seq_act_def bind_act_def Let_def
        configure_failing_def catch_act_def get_task_def lift_res_def failing_def ensure_dynamic_data_def ret_def raise_def)
  from completing_settles [OF calm d1(1,2) r'(1) _ d1(3), of ERROR "Some (run_error_output ?message ?code)"]
  obtain j d' where ended: "run n e (MarkCompleted (fresh r') ERROR (Some (run_error_output ?message ?code))) d1
      = (Inr (True, j), d')"
    and d': "evolves d1 d'" "calm_db d'" "settled d'"
      "\<forall>q\<in>set (db_work_requests d'). wr_id q = wr_id r' \<longrightarrow> is_terminated q"
    using r'(2) by auto
  have "run_workflow_task e (run n e) classes i d = (Inr False, d')"
    using r body ended
    by (simp add: run_workflow_task_def atomic_def with_db_def is_workflow_root_def is_workflow_def orchestrate_workflow_def
        catch_act_def seq_act_def bind_act_def completed_with_def on_self_def ret_def raise_def)
  with d' show ?thesis by blast
qed

section \<open>Examples\<close>

definition example_child_data :: workflow_data where
  "example_child_data = default_workflow_data\<lparr>wd_step := Some ''build''\<rparr>"

text \<open>A workflow whose task data name a task configuration, and one with a child that was retried.\<close>

definition example_flow :: "(string \<times> json) list \<Rightarrow> inst" where
  "example_flow data = fresh ((new_work_request 1 7)\<lparr>wr_task_type := WORKFLOW, wr_status := RUNNING,
     wr_task_data := data\<rparr>)"

definition example_flows :: "(string \<times> json) list \<Rightarrow> work_request list \<Rightarrow> db" where
  "example_flows data rows = example_db\<lparr>db_work_requests := row (example_flow data) # rows\<rparr>"

definition example_retried :: work_request where
  "example_retried = count_retry MANUAL_RETRY ((new_work_request 2 7)\<lparr>wr_task_type := WORKFLOW,
     wr_parent := Some 1, wr_workflow_data := example_child_data\<rparr>)"

definition example_ensure :: "task_type \<Rightarrow> inst \<times> db \<Rightarrow> inst res \<times> inst \<times> db" where
  "example_ensure t = work_request_ensure_child example_env (run (Suc 0) example_env) t ''noop''
     [(''x'', JInt 1)] None example_child_data 0"

lemma example_known: "\<forall>q\<in>set rows. wr_id q \<noteq> 1 \<Longrightarrow> known_workflow (example_flow data) (example_flows data rows)
    \<and> no_own_child (example_flow data) (example_flows data rows)"
  by (auto simp: known_workflow_def no_own_child_def example_flow_def example_flows_def fresh_def new_work_request_def
      get_wr_def)

definition example_conf :: "(string \<times> json) list" where
  "example_conf = [(''task_configuration'', JStr ''c'')]"

theorem ensure_child_once_witness:
  "\<exists>c s d. example_ensure WORKER (example_flow [], example_flows [] []) = (Inr c, (s, d))
    \<and> fst (example_ensure WORKER (s, d)) = Inr (set_parent s (fresh (row c)))
    \<and> length (wr_children d 1) \<le> 1"
proof -
  have "case example_ensure WORKER (example_flow [], example_flows [] []) of (Inl x, _) \<Rightarrow> False
      | (Inr c, _) \<Rightarrow> True"
    "length (wr_children (example_flows [] []) 1) = 0"
    by code_simp+
  then obtain c s d where run: "example_ensure WORKER (example_flow [], example_flows [] []) = (Inr c, (s, d))"
    by (auto split: prod.splits sum.splits)
  have id: "wr_id (row (example_flow [])) = 1"
    "child_task_data (row (example_flow [])) [(''x'', JInt 1)] = [(''x'', JInt 1)]"
    by (simp_all add: example_flow_def fresh_def new_work_request_def child_task_data_def)
  from ensure_child_once [OF example_base_tasks _ _ _ run[unfolded example_ensure_def]]
    example_known [of "[]" "[]"] run id \<open>length _ = 0\<close>
  show ?thesis by (auto simp: example_ensure_def)
qed

theorem inherited_configuration_duplicates_witness:
  "\<exists>c s d c' s' d'. example_ensure WORKER (example_flow example_conf, example_flows example_conf []) = (Inr c, (s, d))
    \<and> example_ensure WORKER (s, d) = (Inr c', (s', d')) \<and> wr_id (row c') \<noteq> wr_id (row c)
    \<and> length (wr_children d' 1) = length (wr_children (example_flows example_conf []) 1) + 2"
proof -
  have "case example_ensure WORKER (example_flow example_conf, example_flows example_conf []) of (Inl x, _) \<Rightarrow> False
      | (Inr c, (s, d)) \<Rightarrow> (case example_ensure WORKER (s, d) of (Inl x, _) \<Rightarrow> False | (Inr _, _) \<Rightarrow> True)"
    by code_simp
  then obtain c s d c' s' d' where runs:
    "example_ensure WORKER (example_flow example_conf, example_flows example_conf []) = (Inr c, (s, d))"
    "example_ensure WORKER (s, d) = (Inr c', (s', d'))"
    by (auto split: prod.splits sum.splits)
  have facts: "wr_id (row (example_flow example_conf)) = 1"
    "map_of [(''x'', JInt 1)] ''task_configuration'' = None"
    "map_of (wr_task_data (row (example_flow example_conf))) ''task_configuration'' = Some (JStr ''c'')"
    "json_truthy (JStr ''c'')"
    by (simp_all add: example_flow_def fresh_def example_conf_def new_work_request_def)
  have "matching_children (example_flows example_conf []) (wr_id (row (example_flow example_conf))) WORKER ''noop''
      (\<lambda>x. same_object x [(''x'', JInt 1)]) example_child_data = []"
    by (simp add: matching_children_sorted example_flows_def example_flow_def fresh_def new_work_request_def
        matches_child_def)
  from inherited_configuration_duplicates [OF example_base_tasks _ _ facts(2-4) this
      runs(1)[unfolded example_ensure_def] runs(2)[unfolded example_ensure_def]]
    example_known [of "[]" example_conf] runs facts(1)
  show ?thesis by auto
qed

theorem retried_child_duplicated_witness:
  "\<exists>c s d. example_ensure WORKFLOW (example_flow [], example_flows [] [example_retried]) = (Inr c, (s, d))
    \<and> length (wr_children d 1) = 2"
proof -
  have "case example_ensure WORKFLOW (example_flow [], example_flows [] [example_retried]) of (Inl x, _) \<Rightarrow> False
      | (Inr c, _) \<Rightarrow> True"
    by code_simp
  then obtain c s d where run: "example_ensure WORKFLOW (example_flow [], example_flows [] [example_retried])
      = (Inr c, (s, d))"
    by (auto split: prod.splits sum.splits)
  have facts: "wr_id (row (example_flow [])) = 1" "\<not> wd_retry_counted example_child_data"
    "wr_children (example_flows [] [example_retried]) 1 = [example_retried]" "wr_id example_retried \<noteq> 1"
    by (simp_all add: example_flow_def fresh_def new_work_request_def example_child_data_def default_workflow_data_def
        wr_children_def objects_def example_flows_def example_retried_def count_retry_def)
  have retried: "\<forall>q\<in>set (wr_children (example_flows [] [example_retried]) (wr_id (row (example_flow [])))).
      wr_task_name q = ''noop'' \<longrightarrow> (\<exists>reason q0. q = count_retry reason q0)"
    unfolding facts(1,3) by (auto simp: example_retried_def)
  from retried_child_duplicated [OF example_base_tasks _ _ retried facts(2) run[unfolded example_ensure_def]]
    example_known [of "[example_retried]" "[]"] facts run
  show ?thesis by auto
qed

text \<open>A root workflow alone, whose orchestrator raises.\<close>

definition example_broken :: work_request where
  "example_broken = (new_work_request 1 7)\<lparr>wr_task_type := WORKFLOW, wr_status := RUNNING,
     wr_dynamic_task_data := Some []\<rparr>"

definition example_classes :: "string \<Rightarrow> orchestrator" where
  "example_classes name = \<lparr>oc_compute_dynamic_data = (\<lambda>d r. Inr []), oc_populate = raise (KeyError []),
     oc_method = (\<lambda>m. None)\<rparr>"

definition example_broken_db :: db where
  "example_broken_db = example_db\<lparr>db_work_requests := [example_broken]\<rparr>"

theorem orchestrator_failure_recorded_witness:
  "\<exists>d'. run_workflow_task example_env (run 99 example_env) example_classes 1 example_broken_db = (Inr False, d')
    \<and> list_all is_terminated (db_work_requests d')"
proof -
  have r: "get_wr example_broken_db 1 = Some example_broken" "wr_task_type example_broken = WORKFLOW"
    "wr_parent example_broken = None" "wr_status example_broken = RUNNING" "wr_dynamic_task_data example_broken \<noteq> None"
    "from_name example_env (fresh example_broken) = Inr ()"
    "oc_populate (example_classes (wr_task_name example_broken)) (fresh example_broken, example_broken_db)
      = (Inl (KeyError []), (fresh example_broken, example_broken_db))"
    "example_broken \<in> set (db_work_requests example_broken_db)"
    by (simp_all add: example_broken_db_def example_broken_def get_wr_def new_work_request_def from_name_def example_env_def
        example_classes_def raise_def)
  have calm: "calm_db example_broken_db"
    by (simp add: calm_db_def tree_ok_def rows_all_def refs_ok_def example_row_calm example_broken_db_def
        example_broken_def new_work_request_def example_simps get_workspace_def tbl_get_def)
  have settled: "settled example_broken_db"
    by (simp add: settled_def example_broken_db_def example_broken_def new_work_request_def wr_dependencies_def
        wr_children_def objects_def can_be_automatically_unblocked_qs_def can_be_unblocked_qs_def
        unblockable_def has_children_in_progress_def failed_def is_terminated_def)
  have fuel: "cascade_fuel example_broken_db \<le> 99"
    by (simp add: example_broken_db_def cascade_fuel_def)
  from orchestrator_failure_recorded [where classes = example_classes and r = example_broken,
      OF example_calm_env r(1-7,8,4) calm settled fuel] obtain d' where
    d': "run_workflow_task example_env (run 99 example_env) example_classes 1 example_broken_db = (Inr False, d')"
      "evolves example_broken_db d'" "\<forall>q\<in>set (db_work_requests d'). wr_id q = wr_id example_broken \<longrightarrow> is_terminated q"
    by blast
  have "wr_id ` set (db_work_requests d') = {1}"
    using arg_cong [OF evolves_ids [OF d'(2)], of set]
    by (simp add: example_broken_db_def example_broken_def new_work_request_def)
  with d' show ?thesis
    by (auto simp: list_all_iff example_broken_def new_work_request_def)
qed

end
