(* ===== verification/Building.thy ===== *)
theory Building
  imports SbuildWorkflow Orchestrating
begin

text \<open>
  The sbuild workflow builds a package once for each architecture, however often it is
  populated.
\<close>

section \<open>Steps that create no request\<close>

lemma bind_act_Inr: "bind_act m f s = (Inr y, t) \<longleftrightarrow> (\<exists>x u. m s = (Inr x, u) \<and> f x u = (Inr y, t))"
  by (auto simp: bind_act_def split: prod.splits sum.splits)

text \<open>What counts of a row here: its key, its workflow and its task data.\<close>

definition outline :: "work_request \<Rightarrow> pk \<times> pk option \<times> (string \<times> json) list" where
  "outline r = (wr_id r, wr_parent r, wr_task_data r)"

definition outlines :: "db \<Rightarrow> (pk \<times> pk option \<times> (string \<times> json) list) list" where
  "outlines d = map outline (db_work_requests d)"

definition on_record :: "inst \<Rightarrow> db \<Rightarrow> bool" where
  "on_record i d \<longleftrightarrow> wr_id (row i) \<noteq> 0 \<and> outline (row i) \<in> set (outlines d) \<and> distinct (map fst (outlines d))"

lemma on_record_step: "on_record i d \<Longrightarrow> outlines d' = outlines d \<Longrightarrow> outline (row j) = outline (row i) \<Longrightarrow> on_record j d'"
  by (simp add: on_record_def outline_def)

lemma outlines_ids: "map fst (outlines d) = map wr_id (db_work_requests d)"
  by (simp add: outlines_def outline_def)

lemma on_record_get: "on_record i d \<Longrightarrow> get_wr d (wr_id (row i)) \<noteq> None"
  by (auto simp: on_record_def outlines_def outline_def get_wr_def tbl_get_None)

lemma on_record_unique:
  assumes "on_record i d" and "q \<in> set (db_work_requests d)" and "wr_id q = wr_id (row i)"
  shows "outline q = outline (row i)"
proof -
  from assms(1) obtain p where p: "p \<in> set (db_work_requests d)" "outline p = outline (row i)"
    by (auto simp: on_record_def outlines_def)
  have inj: "inj_on wr_id (set (db_work_requests d))"
    using assms(1) by (simp add: on_record_def outlines_ids distinct_map)
  have "wr_id p = wr_id (row i)" using p(2) by (simp add: outline_def)
  with inj_onD [OF inj _ assms(2) p(1)] assms(3) p(2) show ?thesis by simp
qed

lemma saved_outlines:
  assumes "on_record i d"
  shows "outlines (saved e (row i) d) = outlines d"
  using saved_requests(2) [OF on_record_get [OF assms]] on_record_unique [OF assms]
  by (auto simp: outlines_def)

lemma add_event_reaction_steady:
  assumes "on_record i d" and "add_event_reaction e rc ev a i d = (Inr j, d')"
  shows "outlines d' = outlines d \<and> outline (row j) = outline (row i)"
proof -
  let ?i = "upd (\<lambda>r. r\<lparr>wr_event_reactions := append_reaction ev a (wr_event_reactions r)\<rparr>) i"
  have o: "outline (row ?i) = outline (row i)" by (simp add: outline_def upd_def)
  then have known: "on_record ?i d" using on_record_step [OF assms(1) refl] by simp
  then have "save e rc ?i d = (Inr ?i, saved e (row ?i) d)" by (intro save_known) (simp add: on_record_def)
  then show ?thesis
    using assms(2) saved_outlines [OF known, of e] o
    by (auto simp: add_event_reaction_def ret_def split: if_splits)
qed

lemma update_target_steady:
  assumes "\<And>c. leaves_requests (k c)" and "update_target e l i k d = (Inr j, d')"
  shows "outlines d' = outlines d \<and> row j = row i"
  using assms(2) assms(1)[unfolded leaves_requests_def, rule_format]
  by (auto simp: update_target_def bind_act_def with_db_def seq_act_def lift_res_def ret_def raise_def outlines_def
      split: prod.splits sum.splits option.splits if_splits dest!: workflow_root_row)
    (metis snd_conv)+

lemma update_with_data_steady:
  assumes "adds_items_only e"
    and "process_update_collection_with_data e [ActionUpdateCollectionWithData l c n data t] i d = (Inr j, d')"
  shows "outlines d' = outlines d \<and> row j = row i"
proof -
  have "leaves_requests (bind_act (lift_res (item_name e n data)) (\<lambda>name. catch_act
      (env_add_bare_data e k c u w data name True t) log_item_error))" for k u w
    using assms(1)
    by (auto simp: leaves_requests_def adds_items_only_def bind_act_def lift_res_def catch_act_def log_item_error_def
        ret_def raise_def split: sum.splits prod.splits) (metis snd_conv)+
  from update_target_steady [OF this] assms(2) show ?thesis
    by (auto simp: bind_act_def ret_def split: prod.splits sum.splits)
qed

lemma promise_artifact_steady:
  assumes "adds_items_only e" and "promise_artifact e dm root p category name data i d = (Inr j, d')"
  shows "outlines d' = outlines d \<and> row j = row i"
proof (cases "lookup_single dm d (looking_for e i root) None LookupArtifactOrPromise
    (LookupStr (''internal@collections/name:'' @ name))")
  case (Inl x)
  show ?thesis
  proof (cases "is_key_error x")
    case True
    with Inl assms(2) have "process_update_collection_with_data e
        [ActionUpdateCollectionWithData ''internal@collections'' ''debusine:promise'' (Some name)
           (promise_fields i p category data) None] i d = (Inr j, d')"
      by (simp only: promise_artifact_def with_db_def sum.case if_True)
    then show ?thesis by (rule update_with_data_steady [OF assms(1)])
  qed (use Inl assms(2) in \<open>simp add: promise_artifact_def with_db_def raise_def\<close>)
qed (use assms(2) in \<open>simp add: promise_artifact_def with_db_def ret_def\<close>)

lemma provides_artifact_steady:
  assumes env: "adds_items_only e" and i: "on_record i d"
    and run: "provides_artifact e dm rc i category name data filters d = (Inr j, d')"
  shows "outlines d' = outlines d \<and> outline (row j) = outline (row i)"
proof -
  from run obtain i1 p d1 i2 root d2 i3 d3 where steps:
    "parent_of i d = (Inr (i1, Some p), d1)" "workflow_root i1 d1 = (Inr (i2, root), d2)"
    "promise_artifact e dm root p category name data i2 d2 = (Inr i3, d3)"
    "add_event_reaction e rc On_success
      (ActionUpdateCollectionWithArtifacts ''internal@collections'' (Some name) data
         (dict_update filters [(''category'', JStr category)]) None) i3 d3 = (Inr j, d')"
    unfolding provides_artifact_def
    by (auto simp: bind_act_Inr raise_def split: if_splits option.splits)
  have same: "d1 = d" "row i1 = row i" "d2 = d1" "row i2 = row i1"
    using parent_of_row [OF steps(1)] workflow_root_row [OF steps(2)] by simp_all
  have mid: "outlines d3 = outlines d2 \<and> row i3 = row i2" by (rule promise_artifact_steady [OF env steps(3)])
  with same have "on_record i3 d3" by (intro on_record_step [OF i]) simp_all
  from add_event_reaction_steady [OF this steps(4)] mid same show ?thesis by simp
qed

section \<open>Steps of the orchestrator\<close>

lemma parent_of_db: "snd (parent_of i d) = d"
  by (simp add: parent_of_def act_defs split: option.split)

lemma load_root_db: "snd (load_root n i d) = d"
proof (induction n arbitrary: i d)
  case (Suc n)
  show ?case
    using parent_of_db [of i d] Suc
    by (auto simp: bind_act_def ret_def split: prod.splits sum.splits option.splits) (metis snd_conv)+
qed (simp add: raise_def)

lemma workflow_root_db: "snd (workflow_root i d) = d"
  using load_root_db [of "Suc (length (db_work_requests d))" i d]
  by (auto simp: workflow_root_def with_db_def bind_act_def ret_def simp del: load_root.simps
      split: prod.splits sum.splits)

text \<open>A step that changes no request and no column of the workflow, whether it raises or not.\<close>

definition leaves_rows :: "'a flow \<Rightarrow> bool" where
  "leaves_rows m \<longleftrightarrow> (\<forall>self d r self' d'. m (self, d) = (r, (self', d')) \<longrightarrow> d' = d \<and> row self' = row self)"

lemma leaves_rowsD: "leaves_rows m \<Longrightarrow> m (self, d) = (r, (self', d')) \<Longrightarrow> d' = d \<and> row self' = row self"
  unfolding leaves_rows_def by blast

named_theorems leaving

lemma leaves_rows_ret [leaving]: "leaves_rows (ret x)"
  by (simp add: leaves_rows_def ret_def)

lemma leaves_rows_raise [leaving]: "leaves_rows (raise x)"
  by (simp add: leaves_rows_def raise_def)

lemma leaves_rows_lift [leaving]: "leaves_rows (lift_res r)"
  by (simp add: leaves_rows_def lift_res_def)

lemma leaves_rows_bind [leaving]:
  assumes "leaves_rows m" and "\<And>x. leaves_rows (f x)"
  shows "leaves_rows (bind_act m f)"
  unfolding leaves_rows_def
proof (intro allI impI)
  fix self d r self' d'
  obtain q s1 d1 where m: "m (self, d) = (q, (s1, d1))" by (metis prod_cases3)
  assume run: "bind_act m f (self, d) = (r, (self', d'))"
  show "d' = d \<and> row self' = row self"
  proof (cases q)
    case (Inr x)
    with run m have "f x (s1, d1) = (r, (self', d'))" by (simp add: bind_act_def)
    from leaves_rowsD [OF assms(2) this] leaves_rowsD [OF assms(1) m] show ?thesis by simp
  qed (use run m leaves_rowsD [OF assms(1) m] in \<open>auto simp: bind_act_def\<close>)
qed

lemma leaves_rows_catch [leaving]:
  assumes "leaves_rows m" and "\<And>x. leaves_rows (h x)"
  shows "leaves_rows (catch_act m h)"
  unfolding leaves_rows_def
proof (intro allI impI)
  fix self d r self' d'
  obtain q s1 d1 where m: "m (self, d) = (q, (s1, d1))" by (metis prod_cases3)
  assume run: "catch_act m h (self, d) = (r, (self', d'))"
  show "d' = d \<and> row self' = row self"
  proof (cases q)
    case (Inl x)
    with run m have "h x (s1, d1) = (r, (self', d'))" by (simp add: catch_act_def)
    from leaves_rowsD [OF assms(2) this] leaves_rowsD [OF assms(1) m] show ?thesis by simp
  qed (use run m leaves_rowsD [OF assms(1) m] in \<open>auto simp: catch_act_def\<close>)
qed

lemma leaves_rows_if [leaving]: "leaves_rows m \<Longrightarrow> leaves_rows k \<Longrightarrow> leaves_rows (if b then m else k)"
  by simp

lemma leaves_rows_option [leaving]:
  "leaves_rows m \<Longrightarrow> (\<And>x. leaves_rows (f x)) \<Longrightarrow> leaves_rows (case x of None \<Rightarrow> m | Some x \<Rightarrow> f x)"
  by (cases x) simp_all

lemma leaves_rows_looked_up [leaving]: "leaves_rows (looked_up e f)"
  unfolding leaves_rows_def
proof (intro allI impI)
  fix self d r self' d'
  assume run: "looked_up e f (self, d) = (r, (self', d'))"
  obtain q d1 where root: "workflow_root self d = (q, d1)" by fastforce
  with workflow_root_db [of self d] have "d1 = d" by simp
  with run root workflow_root_row [of self d] show "d' = d \<and> row self' = row self"
    by (cases q) (auto simp: looked_up_def on_self_def bind_act_def with_db_def lift_res_def ret_def
        split: sum.splits)
qed

lemma leaves_rows_singleton [leaving]: "leaves_rows (lookup_singleton_collection e dm category)"
  unfolding leaves_rows_def
proof (intro allI impI)
  fix self d r self' d'
  assume run: "lookup_singleton_collection e dm category (self, d) = (r, (self', d'))"
  obtain q d1 where root: "workflow_root self d = (q, d1)" by fastforce
  with workflow_root_db [of self d] have "d1 = d" by simp
  with run root workflow_root_row [of self d] show "d' = d \<and> row self' = row self"
    by (cases q) (auto simp: lookup_singleton_collection_def on_self_def bind_act_def with_db_def lift_res_def
        ret_def raise_def split: sum.splits option.splits)
qed

lemma leaves_rows_source [leaving]: "leaves_rows (source_package_data e dm l)"
  unfolding source_package_data_def source_package_def
  by (intro leaving) (auto intro!: leaving split: option.split json.split)

lemma leaves_rows_sb_source [leaving]: "leaves_rows (sb_source_data so)"
  unfolding sb_source_data_def by (intro leaving)

lemma leaves_rows_overlay [leaving]:
  "leaves_rows (configure_for_overlay_suite e dm x vendor codename environment backend architecture variant)"
  unfolding configure_for_overlay_suite_def get_environment_def by (auto intro!: leaving split: option.split)

lemma leaves_rows_binary_names [leaving]: "leaves_rows (binary_names so)"
  unfolding binary_names_def sb_source_data_def by (intro leaving)

lemma leaves_rows_architectures [leaving]: "leaves_rows (sb_architectures_of so)"
  unfolding sb_architectures_of_def sb_source_data_def Let_def by (intro leaving)

lemma leaves_rows_locate [leaving]: "leaves_rows (locate_debian_source_package_lookup e dm l)"
  unfolding locate_debian_source_package_lookup_def by (intro leaving)

section \<open>One build\<close>

lemma on_db_run: "on_db m (self, d) = (r, (self', d')) \<longleftrightarrow> m d = (r, d') \<and> self' = self"
  by (auto simp: on_db_def split: prod.splits)

lemma record_build_logs_steady:
  assumes "on_record wr d" and "record_build_logs so vendor codename host wr (self, d) = (Inr wr', (self', d'))"
  shows "outlines d' = outlines d \<and> outline (row wr') = outline (row wr) \<and> row self' = row self"
proof -
  let ?find = "catch_act (bind_act (lookup_singleton_collection (so_env so) (so_models so) PACKAGE_BUILD_LOGS)
      (\<lambda>c. ret (Some (co_id c)))) (\<lambda>x. if is_key_error x then ret None else raise x)"
  from assms(2) obtain c s1 d1 where f: "?find (self, d) = (Inr c, (s1, d1))"
    and rest: "c = None \<longrightarrow> wr' = wr \<and> self' = s1 \<and> d' = d1"
      "c \<noteq> None \<longrightarrow> (\<exists>sp s2 d2 vars l1 l2 w1 d3. sb_source_data so (s1, d1) = (Inr sp, (s2, d2)) \<and> self' = s2 \<and>
        add_event_reaction (so_env so) (so_calls so) On_creation
          (ActionUpdateCollectionWithData l1 PACKAGE_BUILD_LOG None vars None) wr d2 = (Inr w1, d3) \<and>
        add_event_reaction (so_env so) (so_calls so) On_success
          (ActionUpdateCollectionWithArtifacts l2 None vars [(''category'', JStr PACKAGE_BUILD_LOG)] None) w1 d3
          = (Inr wr', d'))"
    by (auto simp: record_build_logs_def bind_act_Inr ret_def Let_def on_db_run split: option.splits) blast+
  have same: "d1 = d" "row s1 = row self"
  proof -
    have "leaves_rows ?find" by (intro leaving)
    from leaves_rowsD [OF this f] show "d1 = d" "row s1 = row self" by simp_all
  qed
  show ?thesis
  proof (cases c)
    case (Some c)
    with rest obtain sp s2 d2 vars l1 l2 w1 d3 where r: "sb_source_data so (s1, d1) = (Inr sp, (s2, d2))" "self' = s2"
      "add_event_reaction (so_env so) (so_calls so) On_creation
        (ActionUpdateCollectionWithData l1 PACKAGE_BUILD_LOG None vars None) wr d2 = (Inr w1, d3)"
      "add_event_reaction (so_env so) (so_calls so) On_success
        (ActionUpdateCollectionWithArtifacts l2 None vars [(''category'', JStr PACKAGE_BUILD_LOG)] None) w1 d3
        = (Inr wr', d')" by blast
    have "d2 = d1" "row s2 = row s1" using leaves_rowsD [OF leaves_rows_sb_source r(1)] by simp_all
    then have known: "on_record wr d2" using assms(1) same by simp
    note first = add_event_reaction_steady [OF this r(3)]
    then have "on_record w1 d3" by (intro on_record_step [OF known]) simp_all
    from add_event_reaction_steady [OF this r(4)] first r(2) same \<open>d2 = d1\<close> \<open>row s2 = row s1\<close> show ?thesis by simp
  qed (use rest same in simp)
qed

lemma provide_templates_steady:
  assumes "adds_items_only (so_env so)"
  shows "on_record wr d \<Longrightarrow> provide_templates so a names wr d = (Inr wr', d') \<Longrightarrow>
    outlines d' = outlines d \<and> outline (row wr') = outline (row wr)"
proof (induction names arbitrary: wr d)
  case Nil
  then show ?case by (simp add: ret_def)
next
  case (Cons name names)
  then obtain w1 d1 where r: "provides_artifact (so_env so) (so_models so) (so_calls so) wr BINARY_PACKAGE
      (sb_prefix (so_data so) @ ''signing-template-'' @ a @ ''-'' @ name)
      [(''architecture'', JStr a), (''binary_package_name'', JStr name)]
      [(''data__deb_fields__Package'', JStr name)] d = (Inr w1, d1)"
    "provide_templates so a names w1 d1 = (Inr wr', d')"
    by (auto simp: bind_act_Inr)
  note p = provides_artifact_steady [OF assms Cons.prems(1) r(1)]
  then have "on_record w1 d1" by (intro on_record_step [OF Cons.prems(1)]) simp_all
  from Cons.IH [OF this r(2)] p show ?case by simp
qed

lemma describe_build_steady:
  assumes env: "adds_items_only (so_env so)" and wr: "on_record wr d"
    and run: "describe_build so vendor codename a src wr (self, d) = (Inr (), (self', d'))"
  shows "outlines d' = outlines d \<and> row self' = row self"
proof -
  let ?e = "so_env so" and ?dm = "so_models so" and ?rc = "so_calls so" and ?data = "so_data so"
  from run obtain names s1 d1 n w2 d2 w3 d3 w4 s4 d4 w5 d5 w6 where r:
    "binary_names so (self, d) = (Inr names, (s1, d1))"
    "provides_artifact ?e ?dm ?rc wr UPLOAD (sb_prefix ?data @ ''build-'' @ a)
       [(''binary_names'', names_json names), (''architecture'', JStr a), (''source_package_name'', JStr n)] [] d1
       = (Inr w2, d2)"
    "provides_artifact ?e ?dm ?rc w2 PACKAGE_BUILD_LOG (sb_prefix ?data @ ''buildlog-'' @ a)
       [(''architecture'', JStr a)] [] d2 = (Inr w3, d3)"
    "record_build_logs so vendor codename (get_host_architecture ?data a) w3 (s1, d3) = (Inr w4, (s4, d4))"
    "(case sb_retry_delays ?data of None \<Rightarrow> ret w4
      | Some delays \<Rightarrow> add_event_reaction ?e ?rc On_failure (ActionRetryWithDelays delays) w4) d4 = (Inr w5, d5)"
    "provide_templates so a (case map_of (sb_signing_template_names ?data) a of None \<Rightarrow> [] | Some ns \<Rightarrow> ns) w5 d5
      = (Inr w6, d')" "self' = s4"
    by (auto simp: describe_build_def Let_def bind_act_Inr on_db_run lift_res_def ret_def)
  have s1: "d1 = d" "row s1 = row self" using leaves_rowsD [OF leaves_rows_binary_names r(1)] by simp_all
  with wr have k1: "on_record wr d1" by simp
  note p2 = provides_artifact_steady [OF env this r(2)]
  then have k2: "on_record w2 d2" by (intro on_record_step [OF k1]) simp_all
  note p3 = provides_artifact_steady [OF env this r(3)]
  then have k3: "on_record w3 d3" by (intro on_record_step [OF k2]) simp_all
  note p4 = record_build_logs_steady [OF this r(4)]
  then have k4: "on_record w4 d4" by (intro on_record_step [OF k3]) simp_all
  have p5: "outlines d5 = outlines d4 \<and> outline (row w5) = outline (row w4)"
    using r(5) add_event_reaction_steady [OF k4] by (auto simp: ret_def split: option.splits)
  then have k5: "on_record w5 d5" by (intro on_record_step [OF k4]) simp_all
  note p6 = provide_templates_steady [OF env this r(6)]
  from s1 p2 p3 p4 p5 p6 r(7) show ?thesis by simp
qed

section \<open>The architectures of the children\<close>

definition builds_of :: "db \<Rightarrow> pk \<Rightarrow> (exn + string) multiset" where
  "builds_of d i = image_mset (\<lambda>(_, _, data). child_architecture data)
     (mset (filter (\<lambda>(_, p, _). p = Some i) (outlines d)))"

lemma builds_of_children: "builds_of d i = image_mset (\<lambda>c. child_architecture (wr_task_data c)) (mset (wr_children d i))"
proof -
  have "filter (\<lambda>(_, p, _). p = Some i) (map outline rs) = map outline (filter (\<lambda>r. wr_parent r = Some i) rs)" for rs
    by (induction rs) (auto simp: outline_def)
  then show ?thesis
    by (simp add: builds_of_def outlines_def wr_children_def objects_def filter_sort outline_def image_mset.compositionality
        comp_def)
qed

lemma child_architectures_Inr:
  "child_architectures cs = Inr as \<longleftrightarrow> map (\<lambda>c. child_architecture (wr_task_data c)) cs = map Inr as"
  by (induction cs arbitrary: as) (auto simp: bind_res_eq_Inr Cons_eq_map_conv)

lemma builds_of_Inr:
  "child_architectures (wr_children d i) = Inr as \<Longrightarrow> builds_of d i = image_mset Inr (mset as)"
  by (simp add: child_architectures_Inr builds_of_children flip: mset_map)

lemma child_architectures_exist:
  assumes "builds_of d i = image_mset Inr M"
  shows "\<exists>as. child_architectures (wr_children d i) = Inr as \<and> mset as = M"
proof -
  let ?xs = "map (\<lambda>c. child_architecture (wr_task_data c)) (wr_children d i)"
  have xs: "mset ?xs = image_mset Inr M" using assms by (simp add: builds_of_children)
  define as where "as = map projr ?xs"
  have "x = Inr (projr x)" if "x \<in> set ?xs" for x
  proof -
    from that have "x \<in># image_mset Inr M" using xs by (metis set_mset_mset)
    then show ?thesis by auto
  qed
  then have "map (Inr \<circ> projr) ?xs = ?xs" by (intro map_idI) simp
  then have "?xs = map Inr as" by (simp only: as_def map_map comp_assoc)
  moreover from this have "image_mset projr (image_mset (Inr :: string \<Rightarrow> exn + string) (mset as))
      = image_mset projr (image_mset (Inr :: string \<Rightarrow> exn + string) M)"
    using xs by (simp only: mset_map)
  then have "mset as = M" by (simp add: image_mset.compositionality comp_def)
  ultimately show ?thesis by (auto simp: child_architectures_Inr)
qed

lemma same_object_lookup: "same_object a b \<Longrightarrow> map_of a k = map_of b k"
proof (cases "k \<in> fst ` set a \<union> fst ` set b")
  case False
  then show ?thesis by (simp add: map_of_eq_None_iff [THEN iffD2])
qed (auto simp: same_object_def list_all_iff)

lemma child_architecture_cong:
  "map_of a ''build_components'' = map_of b ''build_components'' \<Longrightarrow>
   map_of a ''host_architecture'' = map_of b ''host_architecture'' \<Longrightarrow> child_architecture a = child_architecture b"
  by (simp add: child_architecture_def text_field_def split: option.split)

lemma built_architecture:
  assumes "sbuild_task_data data l a environment x b = Inr td"
  shows "child_architecture td = Inr a" "child_architecture (child_task_data r td) = Inr a"
proof -
  show "child_architecture td = Inr a"
    using assms by (auto simp: sbuild_task_data_def child_architecture_def text_field_def get_host_architecture_def
        split: if_splits)
  moreover have "child_architecture (child_task_data r td) = child_architecture td"
    by (rule child_architecture_cong) (auto simp: child_task_data_def map_of_dict_set split: option.split)
  ultimately show "child_architecture (child_task_data r td) = Inr a" by simp
qed

section \<open>One request for each architecture\<close>

definition root_instance :: "inst \<Rightarrow> db \<Rightarrow> bool" where
  "root_instance self d \<longleftrightarrow> on_record self d \<and> wr_parent (row self) \<noteq> Some (wr_id (row self))"

lemma root_instance_known:
  assumes "root_instance self d"
  shows "known_workflow self d" "no_own_child self d"
proof -
  show "known_workflow self d"
    using assms on_record_get by (simp add: root_instance_def known_workflow_def on_record_def)
  have "outline q = outline (row self)" if "q \<in> set (db_work_requests d)" "wr_id q = wr_id (row self)" for q
    using assms that by (intro on_record_unique) (simp_all add: root_instance_def)
  then show "no_own_child self d"
    using assms by (auto simp: no_own_child_def root_instance_def outline_def)
qed

lemma created_outlines:
  assumes "base_tasks e" and self: "root_instance self d"
    and run: "create_child e (run (Suc n) e) self name st t data (Some wd) None prio d = (Inr (self', child), d')"
  shows "outlines d' = outlines d @ [outline (row child)] \<and> on_record child d' \<and> root_instance self' d'
    \<and> outline (row self') = outline (row self)
    \<and> wr_parent (row child) = Some (wr_id (row self)) \<and> wr_task_data (row child) = child_task_data (row self) data"
proof -
  from create_child_effect [OF assms(1) root_instance_known(1) [OF self] run] obtain s where r:
    "row child = new_child e self d name st t data wd prio" "row self' = (row self)\<lparr>wr_workflow_runtime_status := s\<rparr>"
    "db_work_requests d' = map (\<lambda>q. if wr_id q = wr_id (row self) then row self' else q)
       (db_work_requests d @ [row child])" by blast
  have o: "outline (row self') = outline (row self)" by (simp add: r(2) outline_def)
  have fresh: "wr_id (row child) \<notin> set (map wr_id (db_work_requests d))"
    using tbl_get_next [of wr_id "db_work_requests d"] by (auto simp: r(1) tbl_get_None)
  have key: "outline q = outline (row self)" if "q \<in> set (db_work_requests d)" "wr_id q = wr_id (row self)" for q
    using self that by (intro on_record_unique) (simp_all add: root_instance_def)
  have "wr_id (row self) \<in> set (map wr_id (db_work_requests d))"
    using self by (auto simp: root_instance_def on_record_def outlines_def outline_def)
  with fresh have "wr_id (row child) \<noteq> wr_id (row self)" by auto
  with key o have rows: "outlines d' = outlines d @ [outline (row child)]"
    by (auto simp: outlines_def r(3))
  have "distinct (map fst (outlines d'))"
    using self fresh by (simp add: rows root_instance_def on_record_def outlines_ids) (simp add: outline_def)
  then have "on_record child d'" "root_instance self' d'"
    using self rows o by (auto simp: on_record_def root_instance_def r(1) outline_def tbl_next_def)
  with rows o show ?thesis by (simp add: r(1))
qed

lemma no_child_matches:
  assumes "Inr a \<notin># builds_of d i" and "child_architecture data = Inr a"
  shows "matching_children d i t name (\<lambda>x. same_object x data) wd = []"
proof -
  have "\<not> same_object (wr_task_data c) data" if "c \<in> set (wr_children d i)" for c
    using that assms child_architecture_cong [of "wr_task_data c" data] same_object_lookup [of "wr_task_data c" data]
    by (force simp: builds_of_children)
  then show ?thesis by (auto simp: matching_children_def filter_empty_conv)
qed

lemma populate_single_adds:
  assumes env: "adds_items_only (so_env so)" "base_tasks (so_env so)" "so_calls so = run (Suc n) (so_env so)"
    and self: "root_instance self d" and new: "Inr a \<notin># builds_of d (wr_id (row self))"
    and run: "populate_single so environment a (self, d) = (Inr (), (self', d'))"
  shows "root_instance self' d' \<and> wr_id (row self') = wr_id (row self)
    \<and> builds_of d' (wr_id (row self)) = add_mset (Inr a) (builds_of d (wr_id (row self)))"
proof -
  let ?e = "so_env so" and ?data = "so_data so"
  from run obtain l s1 d1 src s2 d2 vendor codename x s3 d3 td wr s4 d4 where r:
    "locate_debian_source_package_lookup ?e (so_models so) (sb_source_artifact ?data) (self, d) = (Inr l, (s1, d1))"
    "looked_up ?e (\<lambda>lk d. lookup_artifact (so_models so) None l lk d) (s1, d1) = (Inr src, (s2, d2))"
    "configure_for_overlay_suite ?e (so_models so) (sb_extra_repositories ?data) vendor codename
       (LookupStr environment) (sb_backend ?data) (get_host_architecture ?data a) ''sbuild'' (s2, d2) = (Inr x, (s3, d3))"
    "sbuild_task_data ?data l a environment x (vendor = ''debian'' \<and> codename = ''experimental'') = Inr td"
    "work_request_ensure_child ?e (so_calls so) WORKER ''sbuild'' td None
       (default_workflow_data\<lparr>wd_display_name := Some (''Build '' @ a), wd_step := Some (''build-'' @ a)\<rparr>) 0
       (s3, d3) = (Inr wr, (s4, d4))"
    "describe_build so vendor codename a src wr (s4, d4) = (Inr (), (self', d'))"
    unfolding populate_single_def
    by (auto simp: Let_def bind_act_Inr lift_res_def raise_def split: if_splits prod.splits)
  have same: "d3 = d" "row s3 = row self"
    using leaves_rowsD [OF leaves_rows_locate r(1)] leaves_rowsD [OF leaves_rows_looked_up r(2)]
      leaves_rowsD [OF leaves_rows_overlay r(3)] by simp_all
  then have s3: "root_instance s3 d3" using self by (simp add: root_instance_def on_record_def)
  from no_child_matches [OF new built_architecture(1) [OF r(4)]] same
  have "matching_children d3 (wr_id (row s3)) WORKER ''sbuild'' (\<lambda>x. same_object x td) wd = []" for wd by simp
  with r(5) have created: "create_child ?e (run (Suc n) ?e) s3 ''sbuild'' BLOCKED WORKER td
      (Some (default_workflow_data\<lparr>wd_display_name := Some (''Build '' @ a), wd_step := Some (''build-'' @ a)\<rparr>))
      None 0 d3 = (Inr (s4, wr), d4)"
    by (auto simp: work_request_ensure_child_def here_def Let_def on_self_def env(3) split: prod.splits sum.splits)
  note c = created_outlines [OF env(2) s3 created]
  from describe_build_steady [OF env(1) _ r(6)] c have rest: "outlines d' = outlines d4" "row self' = row s4"
    by auto
  have "builds_of d' (wr_id (row self)) = add_mset (Inr a) (builds_of d (wr_id (row self)))"
    using c rest same built_architecture(2) [OF r(4)] by (simp add: builds_of_def outline_def)
  moreover from c have "root_instance s4 d4" by blast
  then have "root_instance self' d'" unfolding root_instance_def on_record_def rest .
  moreover have "wr_id (row self') = wr_id (row self)" using c rest same by (simp add: outline_def)
  ultimately show ?thesis by blast
qed

lemma populate_each_adds:
  assumes env: "adds_items_only (so_env so)" "base_tasks (so_env so)" "so_calls so = run (Suc n) (so_env so)"
  shows "root_instance self d \<Longrightarrow> distinct as \<Longrightarrow> \<forall>a\<in>set as. Inr a \<notin># builds_of d (wr_id (row self)) \<Longrightarrow>
    populate_each so as (self, d) = (Inr (), (self', d')) \<Longrightarrow>
    root_instance self' d' \<and> wr_id (row self') = wr_id (row self)
    \<and> builds_of d' (wr_id (row self)) = image_mset Inr (mset as) + builds_of d (wr_id (row self))"
proof (induction as arbitrary: self d)
  case Nil
  then show ?case by (simp add: ret_def)
next
  case (Cons a as)
  then obtain environment s1 d1 where r: "populate_single so environment a (self, d) = (Inr (), (s1, d1))"
    "populate_each so as (s1, d1) = (Inr (), (self', d'))"
    by (auto simp: bind_act_Inr seq_act_def lift_res_def)
  have new: "Inr a \<notin># builds_of d (wr_id (row self))" using Cons.prems(3) by simp
  note p = populate_single_adds [OF env Cons.prems(1) new r(1)]
  moreover have "root_instance self' d' \<and> wr_id (row self') = wr_id (row s1)
      \<and> builds_of d' (wr_id (row s1)) = image_mset Inr (mset as) + builds_of d1 (wr_id (row s1))"
    using p Cons.prems(2,3) by (intro Cons.IH [OF _ _ _ r(2)]) auto
  ultimately show ?case by simp
qed

text \<open>
  C21: A sbuild workflow, none of whose children build for the same architecture, has exactly
  one request for each architecture to build after it was populated, whether it had some of
  them before or not. Populating it again, while the architectures to build stay the same,
  succeeds and changes neither the database nor the row of the workflow. (Adding to
  collections adds only items; tasks have the reactions of \<open>BaseTask\<close>.)
\<close>

theorem sbuild_once_per_architecture:
  assumes env: "adds_items_only (so_env so)" "base_tasks (so_env so)" "so_calls so = run (Suc n) (so_env so)"
    and self: "root_instance self d"
    and archs: "sb_architectures_of so (self, d) = (Inr architectures, s)"
    and existing: "child_architectures (wr_children d (wr_id (row self))) = Inr existing" "distinct existing"
    and once: "sb_populate so (self, d) = (Inr (), (self', d'))"
    and again: "sb_architectures_of so (self', d') = (Inr architectures, s')"
  shows "(\<exists>as. child_architectures (wr_children d' (wr_id (row self))) = Inr as \<and> distinct as
      \<and> set as = set architectures)
    \<and> (\<exists>t. sb_populate so (self', d') = (Inr (), (t, d')) \<and> row t = row self')"
proof -
  let ?i = "wr_id (row self)" and ?new = "sort (filter (\<lambda>a. a \<notin> set existing) architectures)"
  obtain s1 d1 where s: "s = (s1, d1)" by (cases s)
  with leaves_rowsD [OF leaves_rows_architectures archs[unfolded s]] have same: "d1 = d" "row s1 = row self" by simp_all
  from once existing archs s have subset: "set existing \<subseteq> set architectures"
    and each: "populate_each so ?new (s1, d1) = (Inr (), (self', d'))"
    by (auto simp: sb_populate_def here_def bind_act_Inr lift_res_def raise_def split: if_splits)
  have distinct: "distinct architectures"
    using archs by (auto simp: sb_architectures_of_def bind_act_Inr Let_def raise_def ret_def
        architectures_to_build_def split: if_splits)
  have builds: "builds_of d ?i = image_mset Inr (mset existing)" by (rule builds_of_Inr [OF existing(1)])
  have s1: "root_instance s1 d1" using self same by (simp add: root_instance_def on_record_def)
  have "wr_id (row self') = ?i \<and> builds_of d' ?i = image_mset Inr (mset ?new + mset existing)"
    using populate_each_adds [OF env s1 _ _ each] distinct same builds by auto
  with child_architectures_exist obtain as where as: "wr_id (row self') = ?i"
    "child_architectures (wr_children d' ?i) = Inr as" "mset as = mset ?new + mset existing" by blast
  have "mset as = mset (?new @ existing)" using as(3) by simp
  then have "set as = set (?new @ existing)" "distinct as = distinct (?new @ existing)"
    by (metis set_mset_mset, metis mset_eq_imp_distinct_iff)
  with distinct existing(2) subset have all: "set as = set architectures" "distinct as" by auto
  then have none: "sort (filter (\<lambda>a. a \<notin> set as) architectures) = []" by (simp add: filter_False)
  have "sb_populate so (self', d') = (Inr (), s')"
    using as(1,2) again all(1) none
    by (simp add: sb_populate_def here_def bind_act_def lift_res_def ret_def)
  moreover obtain t where "s' = (t, d')" "row t = row self'"
    using leaves_rowsD [OF leaves_rows_architectures, of so self' d'] again by (cases s') fastforce
  ultimately show ?thesis using as(2) all by auto
qed

section \<open>An example\<close>

definition example_source :: artifact where
  "example_source = \<lparr>ar_id = 5, ar_category = SOURCE_PACKAGE, ar_workspace = 1,
     ar_data = [(''name'', JStr ''hello''), (''version'', JStr ''1''),
       (''dsc_fields'', JObj [(''Architecture'', JStr ''any all''), (''Binary'', JStr ''hello'')])],
     ar_created_at = 0, ar_expiration_delay = None, ar_created_by = None,
     ar_created_by_work_request = None, ar_original_artifact = None\<rparr>"

definition example_build_models :: data_models where
  "example_build_models = \<lparr>dm_promise = \<lambda>_. True, dm_source_package = \<lambda>_. Inl (ValueError []),
     dm_binary_package = \<lambda>_. Inl (ValueError []), dm_lintian_filenames = \<lambda>_. Inl (ValueError []),
     dm_version_less = \<lambda>_ _. False, dm_coerce = \<lambda>_. None\<rparr>"

definition example_sbuild :: sbuild_orchestrator where
  "example_sbuild = \<lparr>so_env = example_env, so_models = example_build_models, so_calls = run (Suc 0) example_env,
     so_matches = \<lambda>a p. p = ''any'',
     so_data = \<lparr>sb_prefix = [], sb_input = [], sb_source_artifact = LookupStr ''5@artifacts'',
       sb_target_distribution = ''debian:sid'', sb_backend = ''auto'', sb_architectures = [''amd64'', ''all''],
       sb_arch_all_host_architecture = ''amd64'', sb_environment_variant = None, sb_extra_repositories = None,
       sb_binnmu = None, sb_build_profiles = None, sb_retry_delays = None, sb_signing_template_names = []\<rparr>\<rparr>"

definition example_sbuild_db :: db where
  "example_sbuild_db = (example_flows [] [])\<lparr>db_artifacts := [example_source]\<rparr>"

definition example_populated :: "unit res \<times> inst \<times> db" where
  "example_populated = sb_populate example_sbuild (example_flow [], example_sbuild_db)"

lemma example_sbuild_runs:
  "fst (sb_architectures_of example_sbuild (example_flow [], example_sbuild_db)) = Inr [''amd64'', ''all'']"
  "child_architectures (wr_children example_sbuild_db (wr_id (row (example_flow [])))) = Inr []"
  "fst example_populated = Inr ()"
  "fst (sb_architectures_of example_sbuild (snd example_populated)) = Inr [''amd64'', ''all'']"
  by code_simp+

theorem sbuild_once_per_architecture_witness:
  "\<exists>s d as s'. sb_populate example_sbuild (example_flow [], example_sbuild_db) = (Inr (), (s, d))
    \<and> child_architectures (wr_children d 1) = Inr as \<and> set as = {''amd64'', ''all''} \<and> distinct as
    \<and> sb_populate example_sbuild (s, d) = (Inr (), (s', d))"
proof -
  from example_sbuild_runs(1,3,4) obtain t s d t' where r:
    "sb_architectures_of example_sbuild (example_flow [], example_sbuild_db) = (Inr [''amd64'', ''all''], t)"
    "sb_populate example_sbuild (example_flow [], example_sbuild_db) = (Inr (), (s, d))"
    "sb_architectures_of example_sbuild (s, d) = (Inr [''amd64'', ''all''], t')"
    by (metis example_populated_def prod.collapse snd_conv)
  have e: "so_env example_sbuild = example_env" "so_calls example_sbuild = run (Suc 0) example_env"
    by (simp_all add: example_sbuild_def)
  have "root_instance (example_flow []) example_sbuild_db"
    by (simp add: root_instance_def on_record_def outlines_def outline_def example_flow_def example_sbuild_db_def
        example_flows_def fresh_def new_work_request_def)
  from sbuild_once_per_architecture [OF _ _ _ this r(1) example_sbuild_runs(2) _ r(2,3), unfolded e,
      OF _ example_base_tasks refl] example_env_ok [of "\<lambda>_. True"] r(2)
  show ?thesis by (auto simp: env_ok_def example_flow_def fresh_def new_work_request_def)
qed

end
