(* ===== verification/Requests.thy ===== *)
theory Requests
  imports WorkerPools UserGroups
begin

text \<open>
  How a request to the API is served: the middlewares that find its scope and check its token
  (debusine/server/middlewares), the permission classes (server/views/rest.py), the base class
  of the views (server/views/base.py) and the handler of exceptions (server/exceptions.py).
\<close>

section \<open>Servers, requests and responses\<close>

text \<open>
  The settings and what the server has from Django: which accounts are active, are superusers
  or have the permission \<open>manage_workrequest_priorities\<close>. \<open>sv_hash\<close> is the SHA-256 of a key,
  \<open>sv_compute_dynamic_data\<close> what \<open>get_task().compute_dynamic_data\<close> raises or answers.
\<close>

record server =
  sv_env :: env
  sv_fuel :: nat
  sv_sched :: sched
  sv_slugify :: "string \<Rightarrow> string"
  sv_hash :: "string \<Rightarrow> string"
  sv_default_scope :: string
  sv_default_workspace :: string
  sv_is_active :: "pk \<Rightarrow> bool"
  sv_is_superuser :: "pk \<Rightarrow> bool"
  sv_may_manage_priorities :: "pk \<Rightarrow> bool"
  sv_compute_dynamic_data :: "db \<Rightarrow> work_request \<Rightarrow> (string \<times> json) list res"

record http_request =
  hr_path :: string
  hr_scope_header :: "string option"
  hr_token :: "string option" \<comment> \<open>the key in the header\<close>
  hr_user :: permission_user \<comment> \<open>from the session\<close>
  hr_get :: bool \<comment> \<open>the method is GET\<close>

datatype 'b response = Response nat "'b option" | Problem nat string

text \<open>The life cycle and the scheduler within a request, whose context they use.\<close>

definition env_of :: "server \<Rightarrow> app_context \<Rightarrow> env" where
  "env_of sv cx = (sv_env sv)\<lparr>env_context := cx\<rparr>"

definition calls_of :: "server \<Rightarrow> app_context \<Rightarrow> calls" where
  "calls_of sv cx = run (sv_fuel sv) (env_of sv cx)"

definition sched_of :: "server \<Rightarrow> app_context \<Rightarrow> sched" where
  "sched_of sv cx = (sv_sched sv)\<lparr>sc_env := env_of sv cx\<rparr>"

section \<open>Exceptions\<close>

text \<open>
  The status and title of the answer to an exception, and whether the transaction of the
  request is rolled back: the REST framework does it for the exceptions it knows, which are
  its own and Django's \<open>PermissionDenied\<close>; after an error of the database PostgreSQL does.
  Any other exception is answered like the others and the transaction is committed.
\<close>

definition is_database_error :: "exn \<Rightarrow> bool" where
  "is_database_error x = (case x of IntegrityError _ \<Rightarrow> True | DataError _ \<Rightarrow> True | _ \<Rightarrow> False)"

definition rolls_back :: "exn \<Rightarrow> bool" where
  "rolls_back x = (case x of DebusineAPIException _ _ \<Rightarrow> True | APIException _ _ \<Rightarrow> True
     | PermissionDenied _ \<Rightarrow> True | _ \<Rightarrow> is_database_error x)"

definition problem_of :: "exn \<Rightarrow> 'b response" where
  "problem_of x = (case x of
     DebusineAPIException status title \<Rightarrow> Problem status title
   | APIException status _ \<Rightarrow> Problem status ''Error''
   | PermissionDenied _ \<Rightarrow> Problem 403 ''Error''
   | _ \<Rightarrow> Problem 400 ''Error'')"

text \<open>A view in the transaction of its request (\<open>ATOMIC_REQUESTS\<close>).\<close>

definition answer :: "'b response dbact \<Rightarrow> 'b response dbact" where
  "answer view d = (case view d of
     (Inr r, d') \<Rightarrow> (Inr r, d')
   | (Inl x, d') \<Rightarrow> if x = OutOfFuel then (Inl x, d')
                    else if rolls_back x then (Inr (problem_of x), d)
                    else (Inr (problem_of x), d'))"

section \<open>Scopes\<close>

definition reserved_scope_names :: "string list" where
  "reserved_scope_names = [''accounts'', ''admin'', ''api'', ''api-auth'', ''artifact'',
     ''task-status'', ''user'', ''workers'', ''work-request'', ''workspace'']"

definition is_valid_scope_name :: "string \<Rightarrow> bool" where
  "is_valid_scope_name value \<longleftrightarrow> value \<notin> set reserved_scope_names
     \<and> (case value of [] \<Rightarrow> False
        | c # cs \<Rightarrow> is_ascii_alpha c \<and> at_dollar (dropWhile is_name_char cs))"

text \<open>The first component of the path, \<open>^/([^/]+)(/|$)\<close>.\<close>

definition path_prefix :: "string \<Rightarrow> string option" where
  "path_prefix path = (case path of
     [] \<Rightarrow> None
   | c # cs \<Rightarrow> let name = takeWhile (\<lambda>c. c \<noteq> CHR ''/'') cs
               in if c = CHR ''/'' \<and> name \<noteq> [] then Some name else None)"

definition scope_name_of :: "server \<Rightarrow> http_request \<Rightarrow> string" where
  "scope_name_of sv rq =
     (let found = (case path_prefix (hr_path rq) of
            None \<Rightarrow> None
          | Some p \<Rightarrow> if p = ''api'' then hr_scope_header rq
                      else if is_valid_scope_name p then Some p else None)
      in case found of None \<Rightarrow> sv_default_scope sv | Some name \<Rightarrow> name)"

definition named_scope :: "db \<Rightarrow> string \<Rightarrow> scope option" where
  "named_scope d name = find (\<lambda>s. sc_name s = name) (db_scopes d)"

section \<open>Tokens\<close>

definition put_token :: "token \<Rightarrow> db \<Rightarrow> db" where
  "put_token t d = d\<lparr>db_tokens := tbl_upd tk_id (tk_id t) (\<lambda>_. t) (db_tokens d)\<rparr>"

definition token_of_hash :: "db \<Rightarrow> string \<Rightarrow> token option" where
  "token_of_hash d h = find (\<lambda>t. tk_hash t = h) (db_tokens d)"

text \<open>\<open>expire_at__lt\<close>: a token without a time of expiry is kept.\<close>

definition get_token_or_none :: "server \<Rightarrow> db \<Rightarrow> string \<Rightarrow> token option" where
  "get_token_or_none sv d key = find (\<lambda>t. tk_hash t = sv_hash sv key
     \<and> (case tk_expire_at t of None \<Rightarrow> True | Some e \<Rightarrow> \<not> e < env_now (sv_env sv))) (db_tokens d)"

definition worker_of_token :: "db \<Rightarrow> pk \<Rightarrow> worker option" where
  "worker_of_token d t = find (\<lambda>w. wk_token w = Some t) (db_workers d)"

definition activating_worker :: "db \<Rightarrow> pk \<Rightarrow> worker option" where
  "activating_worker d t = find (\<lambda>w. wk_activation_token w = Some t) (db_workers d)"

definition get_worker_by_token_key_or_none :: "server \<Rightarrow> db \<Rightarrow> string \<Rightarrow> worker option" where
  "get_worker_by_token_key_or_none sv d key =
     Option.bind (token_of_hash d (sv_hash sv key)) (\<lambda>t. worker_of_token d (tk_id t))"

text \<open>The token of the header, marked as seen, if it may be used.\<close>

definition validate_and_cache_token :: "server \<Rightarrow> http_request \<Rightarrow> token option dbact" where
  "validate_and_cache_token sv rq = with_db (\<lambda>d.
     case Option.bind (hr_token rq) (get_token_or_none sv d) of
       None \<Rightarrow> ret None
     | Some t \<Rightarrow>
         let t = t\<lparr>tk_last_seen_at := Some (env_now (sv_env sv))\<rparr>
         in seq_act (modify_db (put_token t)) (ret (if tk_enabled t then Some t else None)))"

text \<open>
  The context of a request with its token, or the reason to refuse it. The session of a user
  and the token of a user exclude each other, and a worker is not a user.
\<close>

definition set_user_or_refuse ::
  "db \<Rightarrow> permission_user \<Rightarrow> app_context \<Rightarrow> token option \<Rightarrow> string + app_context \<times> token option" where
  "set_user_or_refuse d user cx auth = (case set_user d user cx of
     Inl (ContextConsistencyError message) \<Rightarrow> Inl message
   | Inl _ \<Rightarrow> Inl []
   | Inr cx \<Rightarrow> Inr (cx, auth))"

definition authorize ::
  "server \<Rightarrow> http_request \<Rightarrow> app_context \<Rightarrow> (string + app_context \<times> token option) dbact" where
  "authorize sv rq cx = bind_act (validate_and_cache_token sv rq) (\<lambda>token. with_db (\<lambda>d.
     case token of
       None \<Rightarrow> ret (set_user_or_refuse d (hr_user rq) cx None)
     | Some t \<Rightarrow>
         (case worker_of_token d (tk_id t) of
            Some w \<Rightarrow> bind_act (lift_res (set_worker_token t cx)) (\<lambda>cx.
              ret (if tk_user t \<noteq> None then Inl ''a token cannot be both a user and a worker token''
                   else Inr (cx, token)))
          | None \<Rightarrow>
              (case tk_user t of
                 Some u \<Rightarrow> ret
                   (if is_authenticated (hr_user rq)
                    then Inl ''cannot use both Django and user token authentication''
                    else if \<not> sv_is_active sv u then Inl ''user token has an inactive user''
                    else set_user_or_refuse d (AuthUser u) cx token)
               | None \<Rightarrow> ret (set_user_or_refuse d (hr_user rq) cx token)))))"

section \<open>Views\<close>

text \<open>A view sees the context and \<open>request.auth\<close>, the token of the request.\<close>

type_synonym 'b view = "app_context \<Rightarrow> token option \<Rightarrow> 'b response dbact"

definition serve :: "server \<Rightarrow> http_request \<Rightarrow> 'b view \<Rightarrow> 'b response dbact" where
  "serve sv rq view = with_db (\<lambda>d.
     case named_scope d (scope_name_of sv rq) of
       None \<Rightarrow> ret (Problem 404 ''Not Found'')
     | Some s \<Rightarrow> bind_act (lift_res (set_scope (sc_id s) (reset_context (env_context (sv_env sv))))) (\<lambda>cx.
         bind_act (authorize sv rq cx) (\<lambda>authorized. case authorized of
           Inl reason \<Rightarrow> ret (Problem 403 reason)
         | Inr (cx, auth) \<Rightarrow> answer (view cx auth))))"

definition is_token_authenticated :: "token option \<Rightarrow> bool" where
  "is_token_authenticated auth = (case auth of None \<Rightarrow> False | Some t \<Rightarrow> tk_enabled t)"

definition is_token_user_authenticated :: "token option \<Rightarrow> bool" where
  "is_token_user_authenticated auth =
     (case auth of None \<Rightarrow> False | Some t \<Rightarrow> tk_enabled t \<and> tk_user t \<noteq> None)"

definition is_worker_authenticated :: "db \<Rightarrow> token option \<Rightarrow> bool" where
  "is_worker_authenticated d auth \<longleftrightarrow> is_token_authenticated auth
     \<and> (case auth of None \<Rightarrow> False | Some t \<Rightarrow> worker_of_token d (tk_id t) \<noteq> None)"

text \<open>A view that checks its permission classes first.\<close>

definition permitted :: "(db \<Rightarrow> token option \<Rightarrow> bool) \<Rightarrow> 'b view \<Rightarrow> 'b view" where
  "permitted allowed view cx auth = with_db (\<lambda>d.
     if allowed d auth then view cx auth else raise (APIException 403 ''permission denied''))"

definition api_enforce :: "app_context \<Rightarrow> (permission_user \<Rightarrow> bool res) \<Rightarrow> unit res" where
  "api_enforce cx predicate = bind_res (predicate (cx_user cx)) (\<lambda>allowed.
     if allowed then Inr () else Inl (DebusineAPIException 403 ''permission denied''))"

definition workspace_not_found :: exn where
  "workspace_not_found = DebusineAPIException 404 ''Workspace not found''"

definition set_current_or_404 ::
  "db \<Rightarrow> workspace_role list option \<Rightarrow> workspace \<Rightarrow> app_context \<Rightarrow> app_context res" where
  "set_current_or_404 d user_roles w cx = (case set_current d user_roles w cx of
     Inl (ContextConsistencyError _) \<Rightarrow> Inl workspace_not_found | r \<Rightarrow> r)"

text \<open>\<open>set_current_workspace\<close> with the name of a workspace.\<close>

definition set_current_named :: "db \<Rightarrow> string \<Rightarrow> app_context \<Rightarrow> app_context res" where
  "set_current_named d name cx = bind_res (require_scope cx) (\<lambda>scope.
     bind_res (if cx_worker_token cx \<noteq> None then Inr NoUser else require_user cx) (\<lambda>user.
       case find (\<lambda>w. ws_scope w = scope \<and> ws_name w = name) (db_workspaces d) of
         None \<Rightarrow> Inl workspace_not_found
       | Some w \<Rightarrow> set_current_or_404 d
           (if is_authenticated user then Some (ws_get_group_roles d user w) else None) w cx))"

text \<open>
  \<open>GetOrCreateAPIView.create\<close>: the existing object with status 200, or a new one with 201;
  \<open>existing\<close> answers \<open>DoesNotExist\<close> when there is none.
\<close>

definition get_or_create :: "(db \<Rightarrow> 'a res) \<Rightarrow> 'a dbact \<Rightarrow> 'a response dbact" where
  "get_or_create existing create = with_db (\<lambda>d. case existing d of
     Inr x \<Rightarrow> ret (Response 200 (Some x))
   | Inl (DoesNotExist _) \<Rightarrow> bind_act create (\<lambda>x. ret (Response 201 (Some x)))
   | Inl e \<Rightarrow> raise e)"

end
