(* ===== verification/WorkerApi.thy ===== *)
theory WorkerApi
  imports Requests
begin

text \<open>
  The protocol of the workers (debusine/server/views/workers.py): they register, ask for a
  work request, report its result and describe themselves.
\<close>

section \<open>Registering\<close>

text \<open>The data of \<open>WorkerRegisterSerializer\<close>, whose strings are trimmed when they get here.\<close>

record registration =
  rg_token :: string
  rg_fqdn :: string
  rg_worker_type :: worker_type

definition registration_valid :: "registration \<Rightarrow> bool" where
  "registration_valid rg \<longleftrightarrow> rg_token rg \<noteq> [] \<and> length (rg_token rg) \<le> 64
     \<and> rg_fqdn rg \<noteq> [] \<and> length (rg_fqdn rg) \<le> 400"

definition get_or_create_token :: "string \<Rightarrow> token dbact" where
  "get_or_create_token h = with_db (\<lambda>d. case token_of_hash d h of
     Some t \<Rightarrow> ret t
   | None \<Rightarrow> let t = \<lparr>tk_id = tbl_next tk_id (db_tokens d), tk_hash = h, tk_user = None, tk_enabled = False,
                       tk_last_seen_at = None, tk_expire_at = None\<rparr>
             in seq_act (modify_db (\<lambda>d. d\<lparr>db_tokens := db_tokens d @ [t]\<rparr>)) (ret t))"

text \<open>\<open>save\<close> of a worker whose tokens changed: both columns are unique.\<close>

definition save_worker_tokens :: "sched \<Rightarrow> calls \<Rightarrow> worker \<Rightarrow> unit dbact" where
  "save_worker_tokens sc rc w = with_db (\<lambda>d.
     if list_ex (\<lambda>v. wk_id v \<noteq> wk_id w \<and> shares_token w v) (db_workers d)
     then raise (IntegrityError ''token'') else save_worker sc rc w)"

definition activate :: "server \<Rightarrow> app_context \<Rightarrow> token \<Rightarrow> worker \<Rightarrow> token \<Rightarrow> unit dbact" where
  "activate sv cx activation_token w token =
     seq_act (save_worker_tokens (sched_of sv cx) (calls_of sv cx)
                (w\<lparr>wk_activation_token := None, wk_token := Some (tk_id token)\<rparr>))
     (seq_act (modify_db (put_token (token\<lparr>tk_enabled := True\<rparr>)))
       (delete_token (tk_id activation_token)))"

definition register :: "server \<Rightarrow> registration \<Rightarrow> unit view" where
  "register sv rg cx auth =
     (if \<not> registration_valid rg then raise (DebusineAPIException 400 ''Cannot deserialize worker'')
      else bind_act (get_or_create_token (sv_hash sv (rg_token rg))) (\<lambda>token. with_db (\<lambda>d.
        seq_act
          (case Option.bind auth (\<lambda>t. map_option (Pair t) (activating_worker d (tk_id t))) of
             Some (activation_token, w) \<Rightarrow> activate sv cx activation_token w token
           | None \<Rightarrow> bind_act (worker_from_fqdn (sv_fuel sv) (sched_of sv cx) (calls_of sv cx) (sv_slugify sv)
                (rg_fqdn rg) (Some (tk_id token)) None (rg_worker_type rg) None) (\<lambda>_. ret ()))
          (ret (Response 201 None)))))"

section \<open>Work requests for workers\<close>

definition worker_permitted :: "'b view \<Rightarrow> 'b view" where
  "worker_permitted = permitted is_worker_authenticated"

definition as_worker :: "server \<Rightarrow> http_request \<Rightarrow> (worker \<Rightarrow> 'b response dbact) \<Rightarrow> 'b response dbact" where
  "as_worker sv rq f = with_db (\<lambda>d.
     case Option.bind (hr_token rq) (get_worker_by_token_key_or_none sv d) of
       None \<Rightarrow> raise (AssertionError []) | Some w \<Rightarrow> f w)"

text \<open>A request that the server thinks is running on a worker that asks for work.\<close>

definition retry_previous :: "calls \<Rightarrow> app_context \<Rightarrow> work_request \<Rightarrow> unit dbact" where
  "retry_previous rc cx r = bind_act (rc (MarkAborted (fresh r) None)) (\<lambda>(_, running).
     catch_act (bind_act (rc (Retry cx running WORKER_FAILED)) (\<lambda>_. ret ()))
       (\<lambda>x. if is_cannot_retry x then ret () else raise x))"

text \<open>What a worker sees of a request: the configured task data, if there are any.\<close>

definition for_worker :: "work_request \<Rightarrow> work_request" where
  "for_worker r = (case wr_configured_task_data r of
     None \<Rightarrow> r | Some data \<Rightarrow> if data = [] then r else r\<lparr>wr_task_data := data\<rparr>)"

text \<open>The answer of \<open>mark_running\<close> is not looked at.\<close>

definition hand_out :: "env \<Rightarrow> calls \<Rightarrow> worker \<Rightarrow> work_request response dbact" where
  "hand_out e rc worker = with_db (\<lambda>d.
     bind_act (lift_res (pending (objects d) False (Some (wk_id worker)))) (\<lambda>requests.
       case requests of
         [] \<Rightarrow> ret (Response 204 None)
       | r # _ \<Rightarrow> bind_act (mark_running e rc (fresh r)) (\<lambda>_. ret (Response 200 (Some (for_worker r))))))"

definition get_next_work_request :: "server \<Rightarrow> http_request \<Rightarrow> work_request view" where
  "get_next_work_request sv rq = worker_permitted (\<lambda>cx auth. as_worker sv rq (\<lambda>worker. with_db (\<lambda>d.
     seq_act (for_each (running (objects d) (Some (wk_id worker))) (retry_previous (calls_of sv cx) cx))
       (hand_out (env_of sv cx) (calls_of sv cx) worker))))"

text \<open>
  The report of a worker: \<open>None\<close> when \<open>WorkRequestCompletedSerializer\<close> refuses it, for instance
  because there is no result in it.
\<close>

definition update_work_request_as_completed ::
  "server \<Rightarrow> http_request \<Rightarrow> pk \<Rightarrow> (result \<times> output_data option) option \<Rightarrow> unit view" where
  "update_work_request_as_completed sv rq work_request_id report = worker_permitted (\<lambda>cx auth.
     as_worker sv rq (\<lambda>worker. with_db (\<lambda>d.
       case get_wr d work_request_id of
         None \<Rightarrow> raise (DebusineAPIException 404 ''Work request not found'')
       | Some r \<Rightarrow>
           if wr_worker r \<noteq> Some (wk_id worker)
           then raise (DebusineAPIException 401 ''Invalid worker to update the work request'')
           else (case report of
             None \<Rightarrow> raise (DebusineAPIException 400 ''Cannot change work request as completed'')
           | Some (result, output) \<Rightarrow>
               bind_act (calls_of sv cx (MarkCompleted (fresh r) result output))
                 (\<lambda>_. ret (Response 200 None))))))"

definition update_worker_dynamic_metadata ::
  "server \<Rightarrow> http_request \<Rightarrow> (string \<times> json) list \<Rightarrow> unit view" where
  "update_worker_dynamic_metadata sv rq data = worker_permitted (\<lambda>cx auth. as_worker sv rq (\<lambda>worker.
     seq_act (set_dynamic_metadata (sched_of sv cx) (calls_of sv cx) worker data)
       (ret (Response 204 None))))"

end
