(* ===== verification/Sessions.thy ===== *)
theory Sessions
  imports WorkerApi Scheduling
begin

text \<open>
  The connection of a worker (\<open>WorkerConsumer\<close>, debusine/server/consumers.py, with the
  notifications of server/notifications.py), the worker's side of it (debusine/worker/_worker.py)
  and the commands that enable and disable workers (server/management/commands/worker.py).
\<close>

section \<open>The consumer\<close>

datatype ws_message =
    Connected
  | Work_request_available
  | Request_dynamic_metadata
  | Connection_rejected string "string option" \<comment> \<open>the reason and its code\<close>
  | Connection_closed string

datatype channel_event = Work_request_assigned | Worker_disabled

text \<open>
  \<open>scope["token"]\<close> of a connection: any token that is not expired, even a disabled one, marked
  as seen; the token of a worker goes into the context.
\<close>

definition connection_token :: "server \<Rightarrow> string option \<Rightarrow> app_context \<Rightarrow> (app_context \<times> token option) dbact" where
  "connection_token sv key cx = with_db (\<lambda>d.
     case Option.bind key (get_token_or_none sv d) of
       None \<Rightarrow> ret (cx, None)
     | Some t \<Rightarrow>
         let t = t\<lparr>tk_last_seen_at := Some (env_now (sv_env sv))\<rparr>
         in seq_act (modify_db (put_token t))
              (if tk_enabled t \<and> worker_of_token d (tk_id t) \<noteq> None
               then bind_act (lift_res (set_worker_token t cx)) (\<lambda>cx. ret (cx, Some t))
               else ret (cx, Some t)))"

text \<open>
  \<open>connect\<close>, in the steps between which other parts of the server run: the checks, joining the
  group of the token, marking the worker as connected, and the first messages.
\<close>

definition accept :: "db \<Rightarrow> token option \<Rightarrow> ws_message + worker" where
  "accept d token =
     (if \<not> is_worker_authenticated d token
      then Inl (Connection_rejected ''No token header, token not associated to a worker or not enabled''
             (Some ''TOKEN_DISABLED''))
      else case Option.bind token (\<lambda>t. worker_of_token d (tk_id t)) of
        None \<Rightarrow> Inl (Connection_rejected [] None) | Some w \<Rightarrow> Inr w)"

definition group_unavailable :: ws_message where
  "group_unavailable = Connection_rejected ''Service unavailable'' None"

definition first_messages :: "db \<Rightarrow> worker \<Rightarrow> ws_message list" where
  "first_messages d w = Connected # (if is_busy d w then [Work_request_available] else [])"

text \<open>\<open>worker\<close> is the row that \<open>accept\<close> read.\<close>

definition connect ::
  "server \<Rightarrow> app_context \<Rightarrow> bool \<Rightarrow> token option \<Rightarrow> (pk option \<times> ws_message list) dbact" where
  "connect sv cx group_available token = with_db (\<lambda>d.
     case accept d token of
       Inl rejected \<Rightarrow> ret (None, [rejected])
     | Inr w \<Rightarrow>
         if \<not> group_available then ret (Some (wk_id w), [group_unavailable])
         else seq_act (mark_connected (sched_of sv cx) (calls_of sv cx) w)
                (with_db (\<lambda>d. ret (Some (wk_id w), first_messages d w))))"

definition handle_event :: "channel_event \<Rightarrow> ws_message" where
  "handle_event ev = (case ev of
     Work_request_assigned \<Rightarrow> Work_request_available
   | Worker_disabled \<Rightarrow> Connection_closed ''TOKEN_DISABLED'')"

text \<open>The worker is read again before it is saved.\<close>

definition disconnect :: "server \<Rightarrow> app_context \<Rightarrow> pk \<Rightarrow> unit dbact" where
  "disconnect sv cx worker = with_db (\<lambda>d. case get_worker d worker of
     None \<Rightarrow> raise (DoesNotExist ''Worker'')
   | Some w \<Rightarrow> mark_disconnected (sched_of sv cx) (calls_of sv cx) w)"

section \<open>Clients that wait for completed requests\<close>

text \<open>
  \<open>OnWorkRequestCompletedConsumer\<close>: \<open>None\<close> means all workspaces. The names of workspaces are
  looked up in all scopes, and the last row with a name wins.
\<close>

definition names_to_ids :: "db \<Rightarrow> string list \<Rightarrow> string \<Rightarrow> pk option" where
  "names_to_ids d names = map_of (rev (map (\<lambda>w. (ws_name w, ws_id w))
     (filter (\<lambda>w. ws_name w \<in> set names) (db_workspaces d))))"

definition workspaces_from_query :: "db \<Rightarrow> string list option \<Rightarrow> pk list option res" where
  "workspaces_from_query d names = (case names of
     None \<Rightarrow> Inr None
   | Some names \<Rightarrow> if \<forall>n\<in>set names. names_to_ids d names n \<noteq> None
       then Inr (Some (remdups (List.map_filter (names_to_ids d names) names)))
       else Inl (DoesNotExist ''Workspace''))"

text \<open>A request that completed at the given time is left out when it is the only one.\<close>

definition pending_completions :: "db \<Rightarrow> time \<Rightarrow> work_request list" where
  "pending_completions d since =
     (let on_last = length (filter (\<lambda>r. wr_completed_at r = Some since) (objects d));
          later = (\<lambda>r. case wr_completed_at r of None \<Rightarrow> False
                    | Some t \<Rightarrow> if on_last = 1 then since < t else since \<le> t)
      in sort_key (by_time wr_completed_at) (filter later (objects d)))"

definition sent_to_client :: "pk list option \<Rightarrow> work_request list \<Rightarrow> work_request list" where
  "sent_to_client workspaces_only rs = filter (\<lambda>r. case workspaces_only of
     None \<Rightarrow> True | Some ws \<Rightarrow> wr_workspace r \<in> set ws) rs"

text \<open>What a client is sent when it connects; \<open>None\<close> when it is rejected.\<close>

definition connect_client ::
  "token option \<Rightarrow> string list option \<Rightarrow> time option \<Rightarrow> db \<Rightarrow> (pk list option \<times> work_request list) option" where
  "connect_client token names since d =
     (if \<not> is_token_user_authenticated token then None
      else case workspaces_from_query d names of
        Inl _ \<Rightarrow> None
      | Inr only \<Rightarrow> Some (only, sent_to_client only
          (case since of None \<Rightarrow> [] | Some t \<Rightarrow> pending_completions d t)))"

section \<open>Notifications\<close>

text \<open>Which of the messages go to the group of a worker's token.\<close>

definition event_for :: "db \<Rightarrow> worker \<Rightarrow> message \<Rightarrow> channel_event list" where
  "event_for d w m = (case m of
     WorkRequestAssigned i \<Rightarrow> (case get_wr d i of
         None \<Rightarrow> []
       | Some r \<Rightarrow> if wr_worker r = Some (wk_id w) \<and> wk_token w \<noteq> None then [Work_request_assigned] else [])
   | WorkerDisabled t \<Rightarrow> if wk_token w = Some t then [Worker_disabled] else []
   | _ \<Rightarrow> [])"

definition notified :: "worker \<Rightarrow> db \<Rightarrow> db \<Rightarrow> channel_event list" where
  "notified w d d' = concat (map (event_for d' w) (drop (length (db_messages d)) (db_messages d')))"

section \<open>Commands\<close>

text \<open>The commands end with an exit code.\<close>

definition find_worker :: "server \<Rightarrow> db \<Rightarrow> string \<Rightarrow> worker_type \<Rightarrow> nat + worker" where
  "find_worker sv d name_or_token t =
     (case (case get_worker_or_none d name_or_token of
              None \<Rightarrow> get_worker_by_token_key_or_none sv d name_or_token | Some w \<Rightarrow> Some w) of
        None \<Rightarrow> Inl 3
      | Some w \<Rightarrow> if wk_worker_type w \<noteq> t then Inl 4 else Inr w)"

definition with_worker ::
  "server \<Rightarrow> string \<Rightarrow> worker_type \<Rightarrow> (worker \<Rightarrow> pk \<Rightarrow> unit dbact) \<Rightarrow> nat dbact" where
  "with_worker sv name_or_token t f = with_db (\<lambda>d. case find_worker sv d name_or_token t of
     Inl code \<Rightarrow> ret code
   | Inr w \<Rightarrow> (case wk_token w of
       None \<Rightarrow> raise (AssertionError []) | Some k \<Rightarrow> seq_act (f w k) (ret 0)))"

definition enable_token :: "pk \<Rightarrow> unit dbact" where
  "enable_token t = modify_db (\<lambda>d. d\<lparr>db_tokens := tbl_upd tk_id t (\<lambda>r. r\<lparr>tk_enabled := True\<rparr>) (db_tokens d)\<rparr>)"

definition worker_enable :: "server \<Rightarrow> string \<Rightarrow> worker_type \<Rightarrow> nat dbact" where
  "worker_enable sv name_or_token t = with_worker sv name_or_token t (\<lambda>w k. enable_token k)"

definition de_assign_all :: "env \<Rightarrow> calls \<Rightarrow> worker \<Rightarrow> unit dbact" where
  "de_assign_all e rc w = with_db (\<lambda>d.
     for_each (active_work_requests d (wk_id w))
       (\<lambda>r. bind_act (de_assign_worker e rc (fresh r)) (\<lambda>_. ret ())))"

definition worker_disable :: "server \<Rightarrow> app_context \<Rightarrow> string \<Rightarrow> worker_type \<Rightarrow> nat dbact" where
  "worker_disable sv cx name_or_token t = with_worker sv name_or_token t (\<lambda>w k.
     atomic (seq_act (disable_token k) (de_assign_all (env_of sv cx) (calls_of sv cx) w)))"

text \<open>\<open>handle_create\<close>, which prints the key of the activation token.\<close>

definition worker_create :: "server \<Rightarrow> app_context \<Rightarrow> string \<Rightarrow> worker_type \<Rightarrow> pk dbact" where
  "worker_create sv cx fqdn t = bind_act (create_worker_activation (env_of sv cx)) (\<lambda>k.
     bind_act (worker_from_fqdn (sv_fuel sv) (sched_of sv cx) (calls_of sv cx) (sv_slugify sv)
       fqdn None (Some k) t None) (\<lambda>_. ret k))"

section \<open>A session, step by step\<close>

text \<open>
  One worker and its connection. Transactions are isolated: until one commits, the others and
  the consumer read the database before it, but its notifications are sent at once. A worker
  that is told that work is available asks for it, unless it is working already.
\<close>

datatype phase = Accepted | Grouped | Marked | Ready

record session =
  ss_db :: db
  ss_open :: "db option" \<comment> \<open>what the transaction in progress will commit\<close>
  ss_phase :: phase
  ss_channel :: "channel_event list"
  ss_wire :: "ws_message list"
  ss_working :: bool

definition joined :: "session \<Rightarrow> bool" where
  "joined s \<longleftrightarrow> ss_phase s \<noteq> Accepted"

text \<open>What the transaction \<open>d'\<close>, begun on \<open>d\<close>, sends to the group.\<close>

definition notify :: "worker \<Rightarrow> db \<Rightarrow> db \<Rightarrow> session \<Rightarrow> session" where
  "notify w d d' s = s\<lparr>ss_channel := ss_channel s @ (if joined s then notified w d d' else [])\<rparr>"

inductive session_step :: "server \<Rightarrow> http_request \<Rightarrow> app_context \<Rightarrow> token \<Rightarrow> worker \<Rightarrow> session \<Rightarrow> session \<Rightarrow> bool"
  for sv rq cx t w where
  group_add: "ss_phase s = Accepted \<Longrightarrow> session_step sv rq cx t w s (s\<lparr>ss_phase := Grouped\<rparr>)"
| mark: "ss_phase s = Grouped \<Longrightarrow> ss_open s = None \<Longrightarrow>
    mark_connected (sched_of sv cx) (calls_of sv cx) w (ss_db s) = (Inr (), d') \<Longrightarrow>
    session_step sv rq cx t w s (notify w (ss_db s) d' (s\<lparr>ss_phase := Marked, ss_db := d'\<rparr>))"
| ready: "ss_phase s = Marked \<Longrightarrow>
    session_step sv rq cx t w s (s\<lparr>ss_phase := Ready, ss_wire := ss_wire s @ first_messages (ss_db s) w\<rparr>)"
| begin_schedule: "ss_open s = None \<Longrightarrow>
    schedule_for_worker (sched_of sv cx) (calls_of sv cx) w (ss_db s) = (Inr assigned, d') \<Longrightarrow>
    session_step sv rq cx t w s (notify w (ss_db s) d' (s\<lparr>ss_open := Some d'\<rparr>))"
| commit: "ss_open s = Some d' \<Longrightarrow>
    session_step sv rq cx t w s (s\<lparr>ss_db := d', ss_open := None\<rparr>)"
| forward: "ss_phase s = Ready \<Longrightarrow> ss_channel s = ev # evs \<Longrightarrow>
    session_step sv rq cx t w s (s\<lparr>ss_channel := evs, ss_wire := ss_wire s @ [handle_event ev]\<rparr>)"
| read: "ss_wire s = m # ms \<Longrightarrow> m \<noteq> Work_request_available \<Longrightarrow>
    session_step sv rq cx t w s (s\<lparr>ss_wire := ms\<rparr>)"
| fetch: "ss_wire s = Work_request_available # ms \<Longrightarrow> \<not> ss_working s \<Longrightarrow>
    answer (get_next_work_request sv rq cx (Some t)) (ss_db s) = (Inr (Response status body), d') \<Longrightarrow>
    ss_open s = None \<or> d' = ss_db s \<Longrightarrow>
    session_step sv rq cx t w s (s\<lparr>ss_wire := ms, ss_db := d', ss_working := (body \<noteq> None)\<rparr>)"

definition session_steps :: "server \<Rightarrow> http_request \<Rightarrow> app_context \<Rightarrow> token \<Rightarrow> worker \<Rightarrow> session \<Rightarrow> session \<Rightarrow> bool" where
  "session_steps sv rq cx t w = (session_step sv rq cx t w)\<^sup>*\<^sup>*"

end
