(* ===== verification/WorkRequestApi.thy ===== *)
theory WorkRequestApi
  imports Requests Lookups
begin

text \<open>
  The views of work requests (debusine/server/views/work_requests.py): listing, creating,
  changing, retrying, aborting and unblocking them, and the signature of an upload that an
  \<open>ExternalDebsign\<close> task waits for.
\<close>

section \<open>Finding requests\<close>

text \<open>The query set of the views, with \<open>CanDisplayFilterBackend\<close>.\<close>

definition displayed :: "app_context \<Rightarrow> db \<Rightarrow> work_request list res" where
  "displayed cx d = bind_res (in_current_scope d cx (objects d)) (\<lambda>rs. wr_can_display_qs d cx rs (cx_user cx))"

definition get_object :: "app_context \<Rightarrow> pk \<Rightarrow> db \<Rightarrow> work_request res" where
  "get_object cx i d = bind_res (displayed cx d) (\<lambda>rs.
     case find (\<lambda>r. wr_id r = i) rs of None \<Rightarrow> Inl (APIException 404 ''not found'') | Some r \<Rightarrow> Inr r)"

text \<open>A view of one object: \<open>allowed\<close> are its permission classes.\<close>

definition with_object ::
  "app_context \<Rightarrow> pk \<Rightarrow> (work_request \<Rightarrow> 'b response dbact) \<Rightarrow> 'b response dbact" where
  "with_object cx i f = with_db (\<lambda>d. bind_act (lift_res (get_object cx i d)) f)"

definition user_permitted :: "'b view \<Rightarrow> 'b view" where
  "user_permitted = permitted (\<lambda>d. is_token_user_authenticated)"

definition token_user :: "token option \<Rightarrow> pk res" where
  "token_user auth = (case Option.bind auth tk_user of None \<Rightarrow> Inl (AssertionError []) | Some u \<Rightarrow> Inr u)"

section \<open>Listing and creating\<close>

definition readers_permitted :: "http_request \<Rightarrow> 'b view \<Rightarrow> 'b view" where
  "readers_permitted rq = permitted (\<lambda>d auth.
     is_token_user_authenticated auth \<or> is_worker_authenticated d auth \<and> hr_get rq)"

text \<open>All pages of the list, the latest request first.\<close>

definition list_work_requests :: "http_request \<Rightarrow> work_request list view" where
  "list_work_requests rq = readers_permitted rq (\<lambda>cx auth. with_db (\<lambda>d.
     bind_act (lift_res (displayed cx d)) (\<lambda>rs. ret (Response 200 (Some (sort_key (\<lambda>r. - wr_created_at r) rs))))))"

definition get_work_request :: "http_request \<Rightarrow> pk \<Rightarrow> work_request view" where
  "get_work_request rq i = readers_permitted rq (\<lambda>cx auth. with_object cx i (\<lambda>r. ret (Response 200 (Some r))))"

text \<open>The data of a new request; \<open>None\<close> for a workspace that is not given.\<close>

record new_request =
  nr_task_name :: string
  nr_task_data :: "(string \<times> json) list"
  nr_event_reactions :: event_reactions
  nr_workspace :: "string option"
  nr_other_fields :: "string list"

definition all_reactions :: "event_reactions \<Rightarrow> event_reaction list" where
  "all_reactions r = er_on_creation r @ er_on_unblock r @ er_on_assignment r @ er_on_success r @ er_on_failure r"

definition find_workspace :: "server \<Rightarrow> app_context \<Rightarrow> db \<Rightarrow> string option \<Rightarrow> workspace res" where
  "find_workspace sv cx d name = bind_res (require_scope cx) (\<lambda>scope.
     let named = (\<lambda>n. find (\<lambda>w. ws_scope w = scope \<and> ws_name w = n) (db_workspaces d))
     in case name of
          Some n \<Rightarrow> (case named n of None \<Rightarrow> Inl workspace_not_found | Some w \<Rightarrow> Inr w)
        | None \<Rightarrow> (case named (sv_default_workspace sv) of
            None \<Rightarrow> Inl (DebusineAPIException 400 ''Cannot deserialize work request'') | Some w \<Rightarrow> Inr w))"

definition validate_new_request :: "server \<Rightarrow> app_context \<Rightarrow> db \<Rightarrow> new_request \<Rightarrow> workspace res" where
  "validate_new_request sv cx d nr =
     (if nr_task_name nr = [] \<or> 100 < length (nr_task_name nr) \<or> nr_other_fields nr \<noteq> []
      then Inl (DebusineAPIException 400 ''Cannot deserialize work request'')
      else find_workspace sv cx d (nr_workspace nr))"

definition channel_of :: "event_reaction \<Rightarrow> string option" where
  "channel_of a = (case a of ActionSendNotification c \<Rightarrow> Some c | _ \<Rightarrow> None)"

definition check_reactions :: "server \<Rightarrow> event_reaction list \<Rightarrow> unit res" where
  "check_reactions sv actions =
     (if \<not> list_all is_notification actions then Inl (DebusineAPIException 400 ''Invalid event_reactions'')
      else if \<not> set (List.map_filter channel_of actions) \<subseteq> set (env_channels (sv_env sv))
      then Inl (DebusineAPIException 400 ''Non-existing channels'')
      else Inr ())"

definition validate_task_name :: "server \<Rightarrow> string \<Rightarrow> bool \<Rightarrow> task_type res" where
  "validate_task_name sv task_name is_superuser =
     (case find (\<lambda>t. env_task_exists (sv_env sv) t task_name) (WORKER # (if is_superuser then [SERVER] else [])) of
        Some t \<Rightarrow> Inr t
      | None \<Rightarrow> Inl (DebusineAPIException 400 ''Cannot create work request: task name is not registered''))"

definition insert_request ::
  "server \<Rightarrow> app_context \<Rightarrow> new_request \<Rightarrow> workspace \<Rightarrow> pk \<Rightarrow> task_type \<Rightarrow> work_request response dbact" where
  "insert_request sv cx nr w user t =
     bind_act (save (env_of sv cx) (calls_of sv cx) (fresh ((blank_row (ws_id w) user)
         \<lparr>wr_task_type := t, wr_task_name := nr_task_name nr, wr_task_data := nr_task_data nr,
          wr_event_reactions := nr_event_reactions nr\<rparr>))) (\<lambda>i. with_db (\<lambda>d.
       case sv_compute_dynamic_data sv d (row i) of
         Inl x \<Rightarrow> raise (DebusineAPIException 400 ''Cannot create work request: error computing dynamic data'')
       | Inr _ \<Rightarrow> (case get_wr d (wr_id (row i)) of
           None \<Rightarrow> raise (DoesNotExist ''WorkRequest'') | Some r \<Rightarrow> ret (Response 200 (Some r)))))"

definition create_work_request :: "server \<Rightarrow> http_request \<Rightarrow> new_request \<Rightarrow> work_request view" where
  "create_work_request sv rq nr = readers_permitted rq (\<lambda>cx auth. with_db (\<lambda>d.
     bind_act (lift_res (token_user auth)) (\<lambda>user.
     bind_act (lift_res (validate_new_request sv cx d nr)) (\<lambda>w.
     bind_act (lift_res (set_current_or_404 d None w cx)) (\<lambda>cx.
     seq_act (lift_res (api_enforce cx (ws_can_create_work_requests d cx w)))
     (seq_act (lift_res (check_reactions sv (all_reactions (nr_event_reactions nr))))
     (bind_act (lift_res (validate_task_name sv (nr_task_name nr) (sv_is_superuser sv user)))
       (insert_request sv cx nr w user))))))))"

section \<open>Changing a request\<close>

text \<open>The fields of a change that are not \<open>priority_adjustment\<close> are refused; columns have 32 bits.\<close>

record request_update =
  ru_priority_adjustment :: "int option"
  ru_other_fields :: "string list"

definition update_valid :: "request_update \<Rightarrow> bool" where
  "update_valid ru \<longleftrightarrow> ru_other_fields ru = [] \<and> (case ru_priority_adjustment ru of
     None \<Rightarrow> True | Some p \<Rightarrow> - (2 ^ 31) \<le> p \<and> p < 2 ^ 31)"

definition may_adjust :: "server \<Rightarrow> app_context \<Rightarrow> pk \<Rightarrow> pk \<Rightarrow> int \<Rightarrow> db \<Rightarrow> unit res" where
  "may_adjust sv cx user i priority_adjustment d =
     (let denied = Inl (DebusineAPIException 403 ''You are not permitted to set priority adjustments'')
      in if sv_may_manage_priorities sv user then Inr ()
         else if priority_adjustment \<le> 0
         then bind_res (get_object cx i d) (\<lambda>r. if wr_created_by r = user then Inr () else denied)
         else denied)"

definition patch_work_request :: "server \<Rightarrow> http_request \<Rightarrow> pk \<Rightarrow> request_update \<Rightarrow> work_request view" where
  "patch_work_request sv rq i ru = readers_permitted rq (\<lambda>cx auth.
     if \<not> update_valid ru then raise (DebusineAPIException 400 ''Cannot deserialize work request update'')
     else with_db (\<lambda>d.
       seq_act (lift_res (case ru_priority_adjustment ru of
           None \<Rightarrow> Inr ()
         | Some p \<Rightarrow> bind_res (token_user auth) (\<lambda>user. may_adjust sv cx user i p d)))
         (with_object cx i (\<lambda>r.
            bind_act (save (env_of sv cx) (calls_of sv cx) (upd (\<lambda>r. r\<lparr>wr_priority_adjustment :=
              (case ru_priority_adjustment ru of None \<Rightarrow> wr_priority_adjustment r | Some p \<Rightarrow> p)\<rparr>) (fresh r)))
            (\<lambda>i. ret (Response 200 (Some (row i))))))))"

definition retry_view :: "server \<Rightarrow> pk \<Rightarrow> work_request view" where
  "retry_view sv i = user_permitted (\<lambda>cx auth. with_object cx i (\<lambda>r.
     bind_act (catch_act (calls_of sv cx (Retry cx (fresh r) MANUAL_RETRY))
       (\<lambda>x. if is_cannot_retry x then raise (DebusineAPIException 400 ''Cannot retry work request'') else raise x))
       (\<lambda>(_, retried). ret (Response 200 (Some (row retried))))))"

definition abort_view :: "server \<Rightarrow> pk \<Rightarrow> work_request view" where
  "abort_view sv i = user_permitted (\<lambda>cx auth. with_object cx i (\<lambda>r.
     seq_act (catch_act (abort (env_of sv cx) (calls_of sv cx) cx (fresh r))
       (\<lambda>x. if is_cannot_abort x then raise (DebusineAPIException 400 ''Cannot abort work request'') else raise x))
       (with_db (\<lambda>d. case get_wr d i of
          None \<Rightarrow> raise (DoesNotExist ''WorkRequest'') | Some r \<Rightarrow> ret (Response 200 (Some r))))))"

text \<open>\<open>WorkRequestUnblockSerializer\<close>: blank notes are refused, and so is a review that says nothing.\<close>

definition unblock_valid :: "string option \<Rightarrow> unblock_action option \<Rightarrow> bool" where
  "unblock_valid notes action \<longleftrightarrow> (notes \<noteq> None \<or> action \<noteq> None)
     \<and> (case notes of None \<Rightarrow> True | Some n \<Rightarrow> n \<noteq> [] \<and> length n \<le> 65536)"

text \<open>The answer shows the instance, which the model of the review does not return.\<close>

definition unblock_view :: "server \<Rightarrow> pk \<Rightarrow> string option \<Rightarrow> unblock_action option \<Rightarrow> work_request view" where
  "unblock_view sv i notes action = user_permitted (\<lambda>cx auth. with_object cx i (\<lambda>r. with_db (\<lambda>d.
     case get_workspace d (wr_workspace r) of
       None \<Rightarrow> raise (DoesNotExist ''Workspace'')
     | Some w \<Rightarrow>
         bind_act (lift_res (set_current_or_404 d None w cx)) (\<lambda>cx.
         seq_act (lift_res (api_enforce cx (wr_can_unblock d cx r)))
         (if \<not> unblock_valid notes action
          then raise (DebusineAPIException 400 ''Cannot deserialize work request unblock'')
          else bind_act (lift_res (token_user auth)) (\<lambda>user.
            seq_act (catch_act (review_manual_unblock (env_of sv cx) (calls_of sv cx) cx (fresh r) user notes action)
                (\<lambda>x. case x of CannotUnblock message \<Rightarrow> raise (DebusineAPIException 400 message) | _ \<Rightarrow> raise x))
              (ret (Response 200 None))))))))"

section \<open>External signatures\<close>

definition externally_signed :: "app_context \<Rightarrow> pk \<Rightarrow> db \<Rightarrow> work_request res" where
  "externally_signed cx i d = bind_res (get_object cx i d) (\<lambda>r.
     if wr_task_type r \<noteq> WAIT \<or> wr_task_name r \<noteq> ''externaldebsign''
     then Inl (APIException 400 ''Expected work request to be Wait/ExternalDebsign'')
     else if wr_status r \<noteq> RUNNING then Inl (APIException 400 ''Work request is not running'')
     else Inr r)"

definition check_creator :: "token option \<Rightarrow> work_request \<Rightarrow> unit res" where
  "check_creator auth r = (if Option.bind auth tk_user \<noteq> Some (wr_created_by r)
     then Inl (APIException 403 ''Only the user who created the work request can provide a signature'')
     else Inr ())"

text \<open>Path and digest of the files of an artifact.\<close>

definition files_of :: "db \<Rightarrow> pk \<Rightarrow> (string \<times> bytes) list" where
  "files_of d a = List.map_filter (\<lambda>fa. if fa_artifact fa \<noteq> a then None
     else map_option (\<lambda>f. (fa_path fa, fi_sha256 f)) (tbl_get fi_id (fa_file fa) (db_files d)))
     (db_file_in_artifacts d)"

definition ends_in :: "string \<Rightarrow> string \<Rightarrow> bool" where
  "ends_in suffix path \<longleftrightarrow> length suffix \<le> length path \<and> drop (length path - length suffix) path = suffix"

definition check_signed :: "(string \<times> bytes) list \<Rightarrow> (string \<times> bytes) list \<Rightarrow> unit res" where
  "check_signed unsigned_files signed_files =
     (let changed = filter (\<lambda>p. map_of unsigned_files p \<noteq> map_of signed_files p) (map fst signed_files)
      in if \<not> set (map fst signed_files) \<subseteq> set (map fst unsigned_files)
         then Inl (APIException 400 ''Signed upload adds extra files when compared to unsigned upload'')
         else if \<not> list_ex (ends_in ''.changes'') changed
         then Inl (APIException 400 ''Signed upload does not change the .changes file'')
         else if \<not> list_all (\<lambda>p. ends_in ''.changes'' p \<or> ends_in ''.dsc'' p \<or> ends_in ''.buildinfo'' p) changed
         then Inl (APIException 400 ''Signed upload changes more than .changes/.dsc/.buildinfo'')
         else Inr ())"

definition signed_artifact :: "db \<Rightarrow> pk \<Rightarrow> artifact res" where
  "signed_artifact d i = (case get_artifact d i of
     Some a \<Rightarrow> if ar_category a \<noteq> ''debian:upload'' \<or> ar_created_by_work_request a \<noteq> None
               then Inl (DebusineAPIException 400 ''Cannot deserialize work request'') else Inr a
   | None \<Rightarrow> Inl (DebusineAPIException 400 ''Cannot deserialize work request''))"

text \<open>The \<open>unsigned_id\<close> of the dynamic data, computed anew.\<close>

definition unsigned_artifact :: "server \<Rightarrow> db \<Rightarrow> work_request \<Rightarrow> artifact res" where
  "unsigned_artifact sv d r = (case sv_compute_dynamic_data sv d r of
     Inl _ \<Rightarrow> Inl (APIException 400 ''Cannot process task data'')
   | Inr data \<Rightarrow> (case map_of data ''unsigned_id'' of
       Some (JInt i) \<Rightarrow> (case if i < 0 then None else get_artifact d (nat i) of
         None \<Rightarrow> Inl (DoesNotExist ''Artifact'') | Some a \<Rightarrow> Inr a)
     | _ \<Rightarrow> Inl (ValueError ''unsigned_id'')))"

definition put_artifact :: "artifact \<Rightarrow> db \<Rightarrow> db" where
  "put_artifact a d = d\<lparr>db_artifacts := tbl_upd ar_id (ar_id a) (\<lambda>_. a) (db_artifacts d)\<rparr>"

definition record_signature :: "artifact \<Rightarrow> artifact \<Rightarrow> work_request \<Rightarrow> db \<Rightarrow> db" where
  "record_signature signed unsigned r d = put_artifact (signed\<lparr>ar_created_by_work_request := Some (wr_id r)\<rparr>)
     (d\<lparr>db_artifact_relations := db_artifact_relations d
        @ [\<lparr>rl_artifact = ar_id signed, rl_target = ar_id unsigned, rl_type = RELATES_TO\<rparr>]\<rparr>)"

definition provide_signature :: "server \<Rightarrow> pk \<Rightarrow> pk \<Rightarrow> work_request view" where
  "provide_signature sv i signed_id = user_permitted (\<lambda>cx auth. with_db (\<lambda>d.
     bind_act (lift_res (bind_res (get_object cx i d) (check_creator auth))) (\<lambda>_.
     bind_act (lift_res (externally_signed cx i d)) (\<lambda>r.
     bind_act (lift_res (signed_artifact d signed_id)) (\<lambda>signed.
     bind_act (lift_res (unsigned_artifact sv d r)) (\<lambda>unsigned.
     seq_act (lift_res (check_signed (files_of d (ar_id unsigned)) (files_of d (ar_id signed))))
     (seq_act (modify_db (record_signature signed unsigned r))
     (bind_act (calls_of sv cx (MarkCompleted (fresh r) SUCCESS None)) (\<lambda>(_, i).
       ret (Response 200 (Some (row i))))))))))))"

definition signature_view :: "pk \<Rightarrow> work_request view" where
  "signature_view i = user_permitted (\<lambda>cx auth. with_db (\<lambda>d.
     bind_act (lift_res (externally_signed cx i d)) (\<lambda>r. ret (Response 200 (Some r)))))"

end
