(* ===== verification/Serving.thy ===== *)
theory Serving
  imports Sessions WorkRequestApi Orchestrating Progress Pools
begin

text \<open>
  What the API guarantees: the context of a request, who may report the result of a work
  request, which one a worker is given, and where the server and its workers miss each other.
\<close>

section \<open>The context of a request\<close>

lemma reset_initial [simp]: "reset_context cx = initial_context"
  by (simp add: reset_context_def initial_context_def)

lemma set_user_or_refuse_Inr:
  assumes "set_user_or_refuse d user cx auth = Inr (cx', auth')"
  shows "set_user d user cx = Inr cx' \<and> auth' = auth"
  using assms by (auto simp: set_user_or_refuse_def split: sum.splits exn.splits)

lemma set_user_fields: "set_user d u cx = Inr cx' \<Longrightarrow> cx_user cx' = u \<and> cx_worker_token cx' = cx_worker_token cx"
  by (auto simp: set_user_def split: option.splits if_splits)

lemma validate_token:
  assumes "validate_and_cache_token sv rq d = (Inr token, d')"
  shows "case token of None \<Rightarrow> True | Some t \<Rightarrow> tk_enabled t \<and> t \<in> set (db_tokens d')
    \<and> (\<exists>key. hr_token rq = Some key \<and> tk_hash t = sv_hash sv key)
    \<and> (case tk_expire_at t of None \<Rightarrow> True | Some e \<Rightarrow> env_now (sv_env sv) \<le> e)"
proof (cases token)
  case (Some t)
  from assms Some obtain key s where s: "hr_token rq = Some key" "get_token_or_none sv d key = Some s"
    "t = s\<lparr>tk_last_seen_at := Some (env_now (sv_env sv))\<rparr>" "tk_enabled t" "d' = put_token t d"
    by (cases "Option.bind (hr_token rq) (get_token_or_none sv d)")
      (auto simp: validate_and_cache_token_def act_defs Let_def Option.bind_eq_Some_conv split: if_splits)
  from s(2) have "s \<in> set (db_tokens d)" "tk_hash s = sv_hash sv key"
    "case tk_expire_at s of None \<Rightarrow> True | Some e \<Rightarrow> env_now (sv_env sv) \<le> e"
    by (auto simp: get_token_or_none_def find_Some_iff not_less split: option.splits)
  with s Some show ?thesis by (force simp: put_token_def tbl_upd_def)
qed simp

text \<open>
  C7: After the scope was set and the session gave a user, perhaps an anonymous one, the
  context in which a view runs is one the setters of the context build, so the checks and the
  filters of permissions agree in it. It has a user or the token of a worker but not both; the
  token of the request is enabled, not expired and the one of the header, and the user of
  the context is that of the session or of the token.
\<close>

theorem served_context_reachable:
  assumes "set_scope s initial_context = Inr cx" and "hr_user rq \<noteq> NoUser"
    and "authorize sv rq cx d = (Inr (Inr (cx', auth)), d')"
  shows "ctx_reachable d' cx' \<and> (cx_user cx' = NoUser \<longleftrightarrow> cx_worker_token cx' \<noteq> None)
    \<and> (case auth of
         None \<Rightarrow> cx_user cx' = hr_user rq
       | Some t \<Rightarrow> tk_enabled t \<and> t \<in> set (db_tokens d')
           \<and> (\<exists>key. hr_token rq = Some key \<and> tk_hash t = sv_hash sv key)
           \<and> (case tk_expire_at t of None \<Rightarrow> True | Some e \<Rightarrow> env_now (sv_env sv) \<le> e)
           \<and> (cx_worker_token cx' = Some (tk_id t) \<or> cx_user cx' = hr_user rq
              \<or> tk_user t \<noteq> None \<and> cx_user cx' = AuthUser (the (tk_user t))))"
proof -
  have cx: "cx_user cx = NoUser" "cx_worker_token cx = None"
    using assms(1) by (auto simp: set_scope_def initial_context_def split: if_splits option.splits)
  have start: "ctx_reachable d' cx" by (rule ctx_reachable.scope [OF ctx_reachable.initial assms(1)])
  from assms(3) obtain token where v: "validate_and_cache_token sv rq d = (Inr token, d')"
    and a: "(case token of
         None \<Rightarrow> set_user_or_refuse d' (hr_user rq) cx None = Inr (cx', auth)
       | Some t \<Rightarrow> (case worker_of_token d' (tk_id t) of
            Some w \<Rightarrow> set_worker_token t cx = Inr cx' \<and> auth = token
          | None \<Rightarrow> (case tk_user t of
                 Some u \<Rightarrow> set_user_or_refuse d' (AuthUser u) cx token = Inr (cx', auth)
               | None \<Rightarrow> set_user_or_refuse d' (hr_user rq) cx token = Inr (cx', auth))))"
    by (auto simp: authorize_def act_defs split: prod.splits sum.splits option.splits if_splits)
  show ?thesis
  proof (cases "\<exists>t w. token = Some t \<and> worker_of_token d' (tk_id t) = Some w")
    case True
    with a obtain t where t: "token = Some t" "auth = Some t" "set_worker_token t cx = Inr cx'" by auto
    then have "cx_worker_token cx' = Some (tk_id t)" "cx_user cx' = NoUser"
      using cx by (auto simp: set_worker_token_def split: if_splits)
    with t v validate_token [OF v] ctx_reachable.token [OF start t(3)] show ?thesis by simp
  next
    case False
    with a obtain u where u: "set_user_or_refuse d' u cx token = Inr (cx', auth)"
      "u = hr_user rq \<or> (\<exists>t. token = Some t \<and> tk_user t \<noteq> None \<and> u = AuthUser (the (tk_user t)))"
      "token = None \<longrightarrow> u = hr_user rq"
      by (cases token) (auto split: option.splits)
    from set_user_or_refuse_Inr [OF u(1)] have set: "set_user d' u cx = Inr cx'" "auth = token" by auto
    have "u \<noteq> NoUser" using u(2) assms(2) by auto
    then have "ctx_reachable d' cx'" using ctx_reachable.user [OF start _ set(1)] by simp
    with set set_user_fields [OF set(1)] u(2,3) cx \<open>u \<noteq> NoUser\<close> validate_token [OF v] show ?thesis
      by (cases token) auto
  qed
qed

section \<open>Reporting results\<close>

lemma answer_permitted: "\<not> P d auth \<Longrightarrow> answer (permitted P view cx auth) d = (Inr (Problem 403 ''Error''), d)"
  by (simp add: answer_def permitted_def act_defs rolls_back_def problem_of_def)

text \<open>
  C5: Only the worker that a request is assigned to can report its result: any other report is
  refused and changes nothing. Its own report, with a result in it, completes the request when it is
  pending or running, and settles everything that depends on it. The conditions on the
  database, the fuel, event reactions and collections are the ones for completing a request.
\<close>

theorem result_from_assignee_only:
  assumes env: "calm_env (env_of sv cx)" and d: "calm_db d" "settled d"
    and r: "get_wr d i = Some r" and fuel: "cascade_fuel d \<le> sv_fuel sv" and res: "result \<noteq> NONE"
  shows "if is_worker_authenticated d auth \<and> wr_worker r \<noteq> None
        \<and> wr_worker r = map_option wk_id (Option.bind (hr_token rq) (get_worker_by_token_key_or_none sv d))
    then \<exists>d'. answer (update_work_request_as_completed sv rq i (Some (result, out)) cx auth) d
          = (Inr (Response 200 None), d')
        \<and> evolves d d' \<and> settled d'
        \<and> (wr_status r \<in> {PENDING, RUNNING} \<longrightarrow>
            (\<forall>q\<in>set (db_work_requests d'). wr_id q = i \<longrightarrow> is_terminated q))
    else \<exists>status title. answer (update_work_request_as_completed sv rq i (Some (result, out)) cx auth) d
          = (Inr (Problem status title), d)"
proof -
  let ?w = "Option.bind (hr_token rq) (get_worker_by_token_key_or_none sv d)"
  from r have mem: "r \<in> set (db_work_requests d)" "wr_id r = i"
    by (auto simp: get_wr_def dest: tbl_get_mem tbl_get_key)
  from completing_settles [OF env d mem(1) res fuel] obtain b j d' where
    run: "calls_of sv cx (MarkCompleted (fresh r) result out) d = (Inr (b, j), d')"
    and d': "evolves d d'" "settled d'" "wr_status r \<in> {PENDING, RUNNING} \<longrightarrow>
        (\<forall>q\<in>set (db_work_requests d'). wr_id q = i \<longrightarrow> is_terminated q)"
    unfolding calls_of_def mem(2) by blast
  note view = answer_def update_work_request_as_completed_def worker_permitted_def permitted_def
    as_worker_def act_defs rolls_back_def problem_of_def
  show ?thesis
  proof (cases "is_worker_authenticated d auth")
    case False
    then show ?thesis by (simp add: update_work_request_as_completed_def worker_permitted_def answer_permitted)
  next
    case True
    show ?thesis
    proof (cases ?w)
      case None
      with True show ?thesis by (cases "wr_worker r") (simp_all add: view)
    next
      case (Some w)
      show ?thesis
      proof (cases "wr_worker r = Some (wk_id w)")
        case assignee: True
        with True Some r run have "answer (update_work_request_as_completed sv rq i (Some (result, out)) cx auth) d
            = (Inr (Response 200 None), d')" by (simp add: view)
        with d' True Some assignee show ?thesis by auto
      next
        case False
        with True Some r show ?thesis by (auto simp: view)
      qed
    qed
  qed
qed

section \<open>Handing out work\<close>

text \<open>The table after a request was started; every other row is as before.\<close>

definition started :: "time \<Rightarrow> bool \<Rightarrow> work_request \<Rightarrow> work_request list \<Rightarrow> work_request list" where
  "started now b r rows = map (\<lambda>q. if wr_id q = wr_id r
     then r\<lparr>wr_started_at := Some now, wr_status := RUNNING, wr_workflows_need_update := b\<rparr> else q) rows"

lemma saved_twice:
  assumes "get_wr d (wr_id r) \<noteq> None" and "wr_id r' = wr_id r"
  shows "db_work_requests (saved e r' (saved e' r d)) = map (\<lambda>q. if wr_id q = wr_id r then r' else q) (db_work_requests d)"
proof -
  have "get_wr (saved e' r d) (wr_id r') \<noteq> None"
    using assms saved_requests(2) [OF assms(1), of e'] by (auto simp: get_wr_def tbl_get_None)
  from saved_requests(2) [OF this, of e] saved_requests(2) [OF assms(1), of e'] assms(2)
  show ?thesis by (auto simp: comp_def)
qed

lemma mark_running_starts:
  assumes "calm_db d" and "r \<in> set (db_work_requests d)" and "wr_status r = PENDING"
    and "wr_worker r = Some w" and "get_worker d w = Some worker"
    and "length (running (objects d) (Some w)) < wk_concurrency worker"
  shows "\<exists>j d' b. mark_running e rc (fresh r) d = (Inr (True, j), d')
    \<and> db_work_requests d' = started (env_now e) b r (db_work_requests d)"
proof -
  let ?r = "r\<lparr>wr_started_at := Some (env_now e), wr_status := RUNNING\<rparr>" and ?i = "\<lambda>p. Inst (r\<lparr>wr_started_at := Some (env_now e), wr_status := RUNNING\<rparr>) p"
  have tree: "tree_ok d" and id: "wr_id r \<noteq> 0"
    using assms(1,2) by (auto simp: calm_db_def rows_all_def refs_ok_def)
  have found: "get_wr d (wr_id ?r) \<noteq> None" using assms(2) by (auto simp: get_wr_def tbl_get_None)
  have rows: "db_work_requests (saved e ?r d) = map (\<lambda>q. if wr_id q = wr_id r then ?r else q) (db_work_requests d)"
    using saved_requests(2) [OF found] by simp
  have save: "save e rc (?i None) d = (Inr (?i None), saved e ?r d)" using save_known [of "?i None"] id by simp
  have "\<exists>j d' b. schedule_workflow_update e rc (?i None) (saved e ?r d) = (Inr j, d')
    \<and> db_work_requests d' = started (env_now e) b r (db_work_requests d)"
  proof (cases "wr_parent r")
    case None
    then have "schedule_workflow_update e rc (?i None) (saved e ?r d) = (Inr (?i None), saved e ?r d)"
      by (simp add: schedule_workflow_update_def parent_of_def act_defs)
    moreover have "db_work_requests (saved e ?r d) = started (env_now e) (wr_workflows_need_update r) r (db_work_requests d)"
      by (simp add: rows started_def)
    ultimately show ?thesis by blast
  next
    case (Some k)
    then have "k \<in> wr_id ` set (db_work_requests d)" using tree assms(2) by (auto simp: tree_ok_def)
    moreover have "map wr_id (db_work_requests (saved e ?r d)) = map wr_id (db_work_requests d)" by (simp add: rows)
    ultimately have "k \<in> wr_id ` set (db_work_requests (saved e ?r d))" by (metis set_map)
    then obtain p where p: "get_wr (saved e ?r d) k = Some p"
      by (cases "get_wr (saved e ?r d) k") (auto simp: get_wr_def tbl_get_None)
    let ?u = "?r\<lparr>wr_workflows_need_update := True\<rparr>"
    have "schedule_workflow_update e rc (?i None) (saved e ?r d)
        = (Inr (Inst ?u (Some (fresh p))), add_hook UpdateWorkflows (saved e ?u (saved e ?r d)))"
      using Some p id by (simp add: schedule_workflow_update_def parent_of_def act_defs set_parent_def upd_def save_known)
    moreover have "db_work_requests (saved e ?u (saved e ?r d)) = started (env_now e) True r (db_work_requests d)"
      using saved_twice [OF found, of ?u] by (simp add: started_def)
    ultimately show ?thesis by auto
  qed
  then show ?thesis using assms(3-6) save
    by (auto simp: mark_running_def fresh_def upd_def with_db_def Let_def bind_act_def ret_def)
qed

lemma worker_of_key:
  assumes "Option.bind key (get_worker_by_token_key_or_none sv d) = Some w"
    and "distinct (map wk_id (db_workers d))"
  shows "get_worker d (wk_id w) = Some w"
proof -
  have "w \<in> set (db_workers d)"
    using assms(1) by (auto simp: get_worker_by_token_key_or_none_def worker_of_token_def
        Option.bind_eq_Some_conv find_Some_iff)
  with tbl_get_iff [OF assms(2), of "wk_id w" w] show ?thesis by (simp add: get_worker_def)
qed

text \<open>
  C6: A worker that asks for work, may run some and has none running gets the pending request
  assigned to it that has the highest priority, and that request is running from then on; when
  there is none it is told so and nothing changes. (Workers have keys of their own;
  workers and workspaces of requests exist, and their reactions are as for completing one.)
\<close>

theorem next_request_first:
  assumes "calm_db d" and "distinct (map wk_id (db_workers d))"
    and "is_worker_authenticated d auth"
    and w: "Option.bind (hr_token rq) (get_worker_by_token_key_or_none sv d) = Some w"
    and idle: "running (objects d) (Some (wk_id w)) = []" and "0 < wk_concurrency w"
  shows "\<exists>qs. pending (objects d) False (Some (wk_id w)) = Inr qs
    \<and> (case qs of
         [] \<Rightarrow> answer (get_next_work_request sv rq cx auth) d = (Inr (Response 204 None), d)
       | r # _ \<Rightarrow> \<exists>d'. answer (get_next_work_request sv rq cx auth) d = (Inr (Response 200 (Some (for_worker r))), d')
           \<and> (\<exists>b. db_work_requests d' = started (env_now (sv_env sv)) b r (db_work_requests d))
           \<and> (\<forall>q\<in>set (db_work_requests d). wr_status q = PENDING \<and> wr_worker q = Some (wk_id w)
                \<longrightarrow> priority_effective q \<le> priority_effective r))"
proof -
  let ?key = "\<lambda>r. (- (wr_priority_base r + wr_priority_adjustment r), wr_created_at r)"
  let ?qs = "filter (\<lambda>r. wr_worker r = Some (wk_id w)) (filter (\<lambda>r. wr_status r = PENDING) (objects d))"
  note view = answer_def get_next_work_request_def worker_permitted_def permitted_def as_worker_def
    hand_out_def act_defs
  have p: "pending (objects d) False (Some (wk_id w)) = Inr (sort_key ?key ?qs)"
    by (simp add: pending_def)
  show ?thesis
  proof (cases "sort_key ?key ?qs")
    case Nil
    then have "answer (get_next_work_request sv rq cx auth) d = (Inr (Response 204 None), d)"
      using assms(3) w idle p[unfolded Nil] by (simp add: view)
    then show ?thesis unfolding p[unfolded Nil] by simp
  next
    case (Cons r rs)
    from arg_cong [OF Cons, of set] have "set (r # rs) = set ?qs" by (simp only: set_sort)
    then have r: "r \<in> set (db_work_requests d)" "wr_status r = PENDING" "wr_worker r = Some (wk_id w)"
      by (auto simp: objects_def)
    have room: "length (running (objects d) (Some (wk_id w))) < wk_concurrency w" using idle assms(6) by simp
    have now: "env_now (env_of sv cx) = env_now (sv_env sv)" by (simp add: env_of_def)
    from mark_running_starts [OF assms(1) r worker_of_key [OF w assms(2)] room, of "env_of sv cx" "calls_of sv cx"]
    obtain j d' b where run: "mark_running (env_of sv cx) (calls_of sv cx) (fresh r) d = (Inr (True, j), d')"
      "db_work_requests d' = started (env_now (sv_env sv)) b r (db_work_requests d)" unfolding now by blast
    have "sorted (map ?key (r # rs))" unfolding Cons [symmetric] by (rule sorted_sort_key)
    then have "?key r \<le> ?key q" if "q \<in> set ?qs" for q
      using that \<open>set (r # rs) = set ?qs\<close> by (cases "q = r") auto
    then have "priority_effective q \<le> priority_effective r"
      if "q \<in> set (db_work_requests d)" "wr_status q = PENDING" "wr_worker q = Some (wk_id w)" for q
      using that by (fastforce simp: priority_effective_def less_eq_prod_def objects_def)
    moreover have "answer (get_next_work_request sv rq cx auth) d = (Inr (Response 200 (Some (for_worker r))), d')"
      using assms(3) w idle p[unfolded Cons] run(1) by (simp add: view)
    ultimately show ?thesis unfolding p[unfolded Cons] using run(2) by auto
  qed
qed

section \<open>Workers that are gone\<close>

lemma get_put_worker:
  "wk_id w = i \<Longrightarrow> get_worker d i \<noteq> None \<Longrightarrow> get_worker (put_worker w d) i = Some w"
  "wk_id w = i \<Longrightarrow> get_worker d i \<noteq> None \<Longrightarrow> get_worker (put_worker w d) k = None \<longleftrightarrow> get_worker d k = None"
proof -
  have 1: "tbl_get wk_id (wk_id w) ws \<noteq> None \<Longrightarrow> tbl_get wk_id (wk_id w) (tbl_upd wk_id (wk_id w) (\<lambda>_. w) ws) = Some w" for ws
    by (induction ws) (auto simp: tbl_upd_def split: if_splits)
  have 2: "tbl_get wk_id (wk_id w) ws \<noteq> None \<Longrightarrow>
      tbl_get wk_id k (tbl_upd wk_id (wk_id w) (\<lambda>_. w) ws) = None \<longleftrightarrow> tbl_get wk_id k ws = None" for ws k
  proof -
    have "map wk_id (tbl_upd wk_id (wk_id w) (\<lambda>_. w) ws) = map wk_id ws" by (simp add: tbl_upd_def)
    then have "wk_id ` set (tbl_upd wk_id (wk_id w) (\<lambda>_. w) ws) = wk_id ` set ws" by (metis set_map)
    moreover have none: "tbl_get wk_id k t = None \<longleftrightarrow> k \<notin> wk_id ` set t" for t by (auto simp: tbl_get_None)
    ultimately show ?thesis by (simp only: none)
  qed
  show "wk_id w = i \<Longrightarrow> get_worker d i \<noteq> None \<Longrightarrow> get_worker (put_worker w d) i = Some w"
    "wk_id w = i \<Longrightarrow> get_worker d i \<noteq> None \<Longrightarrow> get_worker (put_worker w d) k = None \<longleftrightarrow> get_worker d k = None"
    using 1 2 by (auto simp: get_worker_def put_worker_def)
qed

lemma put_worker_same [simp]:
  "db_work_requests (put_worker w d) = db_work_requests d" "objects (put_worker w d) = objects d"
  "db_workspaces (put_worker w d) = db_workspaces d" "db_tokens (put_worker w d) = db_tokens d"
  by (simp_all add: put_worker_def objects_def)

lemma put_worker_calm:
  assumes "calm_db d" and "get_worker d (wk_id w) \<noteq> None"
  shows "calm_db (put_worker w d)"
proof -
  have "refs_ok (put_worker w d) r = refs_ok d r" for r
    using get_put_worker(2) [OF refl assms(2)] by (auto simp: refs_ok_def get_workspace_def)
  with assms(1) show ?thesis by (simp add: calm_db_def tree_ok_def rows_all_def)
qed

text \<open>
  C36: Saving a worker calls the scheduler for it, whether it is connected or not: when an idle
  worker disconnects and some pending request could run on it, the first of these requests is
  assigned to the worker that is gone. (The task of every candidate can be made and configured, no other transaction
  holds the worker, and event reactions and collections are as for completing a request.)
\<close>

theorem disconnected_worker_gets_work:
  assumes env: "calm_env (env_of sv cx)" "configures (env_of sv cx)" "env_auto (sv_env sv)" "sv_fuel sv = Suc n"
    and d: "calm_db d" "get_worker d (wk_id w) = Some w"
    and room: "\<not> is_at_capacity d w" "\<not> sc_worker_locked (sv_sched sv) (wk_id w)"
    and qs: "worker_candidates (sched_of sv cx) d w = Inr qs"
    and task: "\<forall>q\<in>set qs. sc_get_task (sv_sched sv) (put_worker (w\<lparr>wk_connected_at := None\<rparr>) d) q
        (w\<lparr>wk_connected_at := None\<rparr>) = Inr (can_run_on q)"
    and first: "find (takes (sched_of sv cx) can_run_on w) qs = Some r"
  shows "\<exists>d'. disconnect sv cx (wk_id w) d = (Inr (), d')
    \<and> get_worker d' (wk_id w) = Some (w\<lparr>wk_connected_at := None\<rparr>)
    \<and> (\<exists>q\<in>set (db_work_requests d'). wr_id q = wr_id r \<and> wr_status q = PENDING \<and> wr_worker q = Some (wk_id w))"
proof -
  let ?w = "w\<lparr>wk_connected_at := None\<rparr>" and ?sc = "sched_of sv cx"
  let ?d = "put_worker ?w d"
  have found: "get_worker ?d (wk_id ?w) = Some ?w" using get_put_worker(1) [of ?w "wk_id w" d] d(2) by simp
  have calm: "calm_db ?d" using put_worker_calm [of d ?w] d by simp
  have meta: "metadata ?w = metadata w" by (simp add: metadata_def)
  have same: "takes ?sc can_run_on ?w = takes ?sc can_run_on w" by (simp add: takes_def meta fun_eq_iff)
  have e: "sc_env ?sc = env_of sv cx" by (simp add: sched_of_def)
  have qs': "worker_candidates ?sc ?d ?w = Inr qs" using qs by (simp add: worker_candidates_def meta)
  have possible: "possible_to_schedule_for_worker ?sc ?d ?w = Inr True"
    using room found by (simp add: possible_to_schedule_for_worker_def is_at_capacity_def running_or_pending_def
        sched_of_def)
  note cand = candidates_sorted(2) [OF qs']
  have ok: "\<forall>q\<in>set qs. q \<in> set (db_work_requests ?d) \<and> wr_worker q = None \<and> sc_get_task ?sc ?d q ?w = Inr (can_run_on q)"
    using cand task by (simp add: sched_of_def)
  have "get_worker ?d (wk_id ?w) \<noteq> None" using found by simp
  from try_candidates_first [OF env(1)[folded e] env(2)[folded e] calm this ok, of n] obtain i d' c y where t:
    "try_candidates ?sc (calls_of sv cx) ?w qs ?d = (Inr (Some i), d')"
    "row i = r\<lparr>wr_configured_task_data := c, wr_dynamic_task_data := y, wr_worker := Some (wk_id w)\<rparr>"
    "db_work_requests d' = map (\<lambda>x. if wr_id x = wr_id r then row i else x) (db_work_requests ?d)"
    "db_workers d' = db_workers ?d"
    unfolding same first calls_of_def env(4) e by auto
  have "schedule_for_worker ?sc (calls_of sv cx) ?w ?d = (Inr (Some i), d')"
    using possible qs' t(1) by (simp add: schedule_for_worker_def atomic_def with_db_def bind_act_def lift_res_def)
  then have "disconnect sv cx (wk_id w) d = (Inr (), d')"
    using d(2) env(3)
    by (simp add: disconnect_def mark_disconnected_def save_worker_def worker_changed_def act_defs sched_of_def env_of_def)
  moreover have "get_worker d' (wk_id w) = Some ?w" using found t(4) by (simp add: get_worker_def)
  moreover have "row i \<in> set (db_work_requests d')" "wr_id (row i) = wr_id r" "wr_status (row i) = PENDING"
    "wr_worker (row i) = Some (wk_id w)"
    using t(2,3) cand find_Some_mem [OF first] by (auto simp: image_iff)
  ultimately show ?thesis by blast
qed

section \<open>Notifications before the commit\<close>

definition waiting :: "session \<Rightarrow> bool" where
  "waiting s \<longleftrightarrow> ss_phase s = Ready \<and> ss_channel s = [] \<and> ss_wire s = [] \<and> \<not> ss_working s"

lemma at_capacity_schedules_nothing:
  assumes "is_at_capacity d w"
  shows "schedule_for_worker sc rc w d = (Inr None, d)"
  using assms by (simp add: schedule_for_worker_def possible_to_schedule_for_worker_def atomic_def act_defs)

text \<open>A worker that waits although it has as much to do as it can take will wait for ever.\<close>

lemma waits_for_ever:
  assumes "session_steps sv rq cx t w s s'"
    and "waiting s" and "is_at_capacity (ss_db s) w" and "ss_open s = None \<or> ss_open s = Some (ss_db s)"
  shows "waiting s' \<and> ss_db s' = ss_db s \<and> (ss_open s' = None \<or> ss_open s' = Some (ss_db s))"
  using assms(1) unfolding session_steps_def
proof (induction rule: rtranclp_induct)
  case base
  then show ?case using assms by simp
next
  case (step x y)
  have none: "notified w d d = []" for d by (simp add: notified_def)
  from step(2) step.IH show ?case
    by cases (auto simp: waiting_def notify_def none at_capacity_schedules_nothing assms(3))
qed

text \<open>
  C35: The server tells a worker that a request was assigned to it before the transaction that
  assigns it commits. When an idle worker that runs one request at a time asks at once, it
  finds nothing to do; the request is assigned to it then, and however the session goes on
  (the scheduler tries to give it more, messages are read), nobody tells it again and it waits,
  until it connects anew or the request is taken from it.
\<close>

theorem assignment_notice_lost:
  assumes s: "waiting s" "ss_open s = None" "is_worker_authenticated (ss_db s) (Some t)"
    and w: "Option.bind (hr_token rq) (get_worker_by_token_key_or_none sv (ss_db s)) = Some w"
    and idle: "active_work_requests (ss_db s) (wk_id w) = []" "wk_concurrency w = 1"
    and assign: "schedule_for_worker (sched_of sv cx) (calls_of sv cx) w (ss_db s) = (Inr assigned, d')"
    and told: "notified w (ss_db s) d' = [Work_request_assigned]"
    and r: "r \<in> set (db_work_requests d')" "wr_worker r = Some (wk_id w)" "wr_status r = PENDING"
  shows "\<exists>s'. session_steps sv rq cx t w s s' \<and> ss_db s' = d' \<and> ss_open s' = None \<and> waiting s'
    \<and> (\<forall>s''. session_steps sv rq cx t w s' s'' \<longrightarrow> waiting s'' \<and> ss_db s'' = d')"
proof -
  let ?step = "session_step sv rq cx t w"
  define s1 where "s1 = notify w (ss_db s) d' (s\<lparr>ss_open := Some d'\<rparr>)"
  define s2 where "s2 = s1\<lparr>ss_channel := [], ss_wire := [Work_request_available]\<rparr>"
  define s3 where "s3 = s2\<lparr>ss_wire := [], ss_db := ss_db s, ss_working := False\<rparr>"
  define s4 where "s4 = s3\<lparr>ss_db := d', ss_open := None\<rparr>"
  have s1: "ss_phase s1 = Ready" "ss_channel s1 = [Work_request_assigned]" "ss_wire s1 = []" "ss_open s1 = Some d'"
    "ss_db s1 = ss_db s" "\<not> ss_working s1"
    using s(1) told by (simp_all add: s1_def notify_def joined_def waiting_def)
  have none: "filter (\<lambda>q. wr_status q = PENDING \<and> wr_worker q = Some (wk_id w)) (objects (ss_db s)) = []"
    using idle(1) by (auto simp: active_work_requests_def filter_empty_conv)
  have "running (objects (ss_db s)) (Some (wk_id w)) = []"
    using idle(1) by (auto simp: running_def active_work_requests_def filter_empty_conv)
  moreover have "pending (objects (ss_db s)) False (Some (wk_id w)) = Inr []" using none by (simp add: pending_def)
  ultimately have no_content: "answer (get_next_work_request sv rq cx (Some t)) (ss_db s) = (Inr (Response 204 None), ss_db s)"
    using s(3) w
    by (simp add: answer_def get_next_work_request_def worker_permitted_def permitted_def as_worker_def
        hand_out_def act_defs)
  have 1: "?step s s1" unfolding s1_def by (rule session_step.begin_schedule [OF s(2) assign])
  have "?step s1 (s1\<lparr>ss_channel := [], ss_wire := ss_wire s1 @ [handle_event Work_request_assigned]\<rparr>)"
    by (rule session_step.forward [OF s1(1,2)])
  then have 2: "?step s1 s2" by (simp add: s2_def s1 handle_event_def)
  have s2: "ss_wire s2 = [Work_request_available]" "\<not> ss_working s2" "ss_db s2 = ss_db s" by (simp_all add: s2_def s1)
  have "?step s2 (s2\<lparr>ss_wire := [], ss_db := ss_db s, ss_working := ((None :: work_request option) \<noteq> None)\<rparr>)"
    using session_step.fetch [OF s2(1,2) no_content [folded s2(3)]] by (simp add: s2(3))
  then have 3: "?step s2 s3" by (simp add: s3_def s2_def s1)
  have "?step s3 (s3\<lparr>ss_db := d', ss_open := None\<rparr>)"
    by (rule session_step.commit) (simp add: s3_def s2_def s1)
  then have 4: "?step s3 s4" by (simp add: s4_def)
  from 1 2 3 4 have steps: "session_steps sv rq cx t w s s4"
    unfolding session_steps_def by (meson converse_rtranclp_into_rtranclp rtranclp.rtrancl_refl)
  have wait: "waiting s4" by (simp add: waiting_def s4_def s3_def s2_def s1)
  have "r \<in> set (running_or_pending d' w)" using r by (simp add: running_or_pending_def objects_def)
  then have "is_at_capacity d' w" using idle(2) by (cases "running_or_pending d' w") (auto simp: is_at_capacity_def)
  then have "\<forall>s''. session_steps sv rq cx t w s4 s'' \<longrightarrow> waiting s'' \<and> ss_db s'' = d'"
    using waits_for_ever [OF _ wait] by (simp add: s4_def)
  with steps wait show ?thesis by (intro exI [of _ s4]) (simp add: s4_def)
qed

section \<open>Examples\<close>

definition example_server :: "nat \<Rightarrow> server" where
  "example_server n = \<lparr>sv_env = example_env, sv_fuel = n, sv_sched = example_sched, sv_slugify = \<lambda>s. s,
     sv_hash = \<lambda>s. s, sv_default_scope = ''debian'', sv_default_workspace = ''System'',
     sv_is_active = \<lambda>u. True, sv_is_superuser = \<lambda>u. False, sv_may_manage_priorities = \<lambda>u. False,
     sv_compute_dynamic_data = \<lambda>d r. Inr []\<rparr>"

definition example_token :: token where
  "example_token = \<lparr>tk_id = 1, tk_hash = ''key'', tk_user = None, tk_enabled = True,
     tk_last_seen_at = None, tk_expire_at = None\<rparr>"

definition example_external :: worker where
  "example_external = example_worker\<lparr>wk_token := Some 1, wk_worker_type := EXTERNAL\<rparr>"

definition example_request :: http_request where
  "example_request = \<lparr>hr_path = ''/api/1.0/'', hr_scope_header = None, hr_token = Some ''key'',
     hr_user = AnonymousUser, hr_get = True\<rparr>"

definition served :: "work_request list \<Rightarrow> db" where
  "served rows = example_db\<lparr>db_workers := [example_external], db_tokens := [example_token],
     db_work_requests := rows\<rparr>"

lemmas served_simps = served_def example_server_def example_external_def example_worker_def
  example_token_def example_request_def env_of_def sched_of_def example_sched_def

lemma example_serves:
  "calm_env (env_of (example_server n) cx)" "configures (env_of (example_server n) cx)"
  "env_auto (sv_env (example_server n))"
proof -
  have "env_configure (env_of (example_server n) cx) d w r = Inr (r\<lparr>wr_configured_task_data := wr_configured_task_data r,
      wr_dynamic_task_data := wr_dynamic_task_data r\<rparr>)" for d w r
    by (simp add: env_of_def example_server_def example_env_def)
  then show "configures (env_of (example_server n) cx)" unfolding configures_def by blast
  show "calm_env (env_of (example_server n) cx)"
    by (simp add: env_of_def example_server_def calm_env_def base_tasks_def collections_answer_def example_env_def
        harmless_def ret_def is_lookup_error_def)
qed (simp_all add: example_server_def example_env_def)

lemmas served_calm_simps = calm_db_def tree_ok_def rows_all_def refs_ok_def example_row_calm served_simps
  new_work_request_def example_simps get_workspace_def get_worker_def tbl_get_def

lemma served_worker:
  "Option.bind (hr_token example_request) (get_worker_by_token_key_or_none (example_server n) (served rows))
     = Some example_external"
  "get_worker (served rows) (wk_id example_external) = Some example_external"
  "is_worker_authenticated (served rows) (Some example_token)" "wk_id example_external = 1"
  "distinct (map wk_id (db_workers (served rows)))" "wk_concurrency example_external = 1"
  by (simp_all add: served_simps get_worker_by_token_key_or_none_def token_of_hash_def worker_of_token_def
      get_worker_def is_worker_authenticated_def is_token_authenticated_def)

text \<open>A worker asks with its key: the context has its token and no user.\<close>

theorem served_context_reachable_witness:
  "\<exists>cx' auth d'. authorize (example_server 1) example_request (initial_context\<lparr>cx_scope := Some 1\<rparr>) (served [])
      = (Inr (Inr (cx', auth)), d') \<and> ctx_reachable d' cx' \<and> cx_worker_token cx' = Some 1 \<and> cx_user cx' = NoUser"
proof -
  let ?run = "authorize (example_server 1) example_request (initial_context\<lparr>cx_scope := Some 1\<rparr>) (served [])"
  have "set_scope 1 initial_context = Inr (initial_context\<lparr>cx_scope := Some 1\<rparr>)"
    by (simp add: set_scope_def initial_context_def)
  moreover have "hr_user example_request \<noteq> NoUser" by (simp add: example_request_def)
  moreover obtain cx' d' where "?run = (Inr (Inr (cx', Some (example_token\<lparr>tk_last_seen_at := Some 100\<rparr>))), d')"
    "cx_worker_token cx' = Some 1"
    by (simp add: authorize_def validate_and_cache_token_def get_token_or_none_def worker_of_token_def put_token_def
        set_worker_token_def act_defs served_simps example_env_def initial_context_def example_simps Let_def tbl_upd_def)
  ultimately show ?thesis using served_context_reachable by (metis option.simps(3))
qed

text \<open>The worker with the request 5 reports its result; without a token nobody can.\<close>

definition example_running :: work_request where
  "example_running = (new_work_request 5 7)\<lparr>wr_worker := Some 1, wr_status := RUNNING\<rparr>"

definition example_context :: app_context where
  "example_context = initial_context\<lparr>cx_scope := Some 1, cx_worker_token := Some 1\<rparr>"

theorem result_from_assignee_only_witness:
  "(\<exists>d'. answer (update_work_request_as_completed (example_server 12) example_request 5 (Some (SUCCESS, None))
        example_context (Some example_token)) (served [example_running]) = (Inr (Response 200 None), d')
      \<and> (\<forall>q\<in>set (db_work_requests d'). wr_id q = 5 \<longrightarrow> is_terminated q))
    \<and> (\<exists>status title. answer (update_work_request_as_completed (example_server 12) example_request 5
        (Some (SUCCESS, None)) example_context None) (served [example_running])
      = (Inr (Problem status title), served [example_running]))"
proof -
  let ?d = "served [example_running]"
  have env: "calm_env (env_of (example_server 12) example_context)" by (rule example_serves)
  have calm: "calm_db ?d" by (simp add: example_running_def served_calm_simps)
  have settled: "settled ?d"
    by (simp add: settled_def served_def example_running_def new_work_request_def wr_dependencies_def
        wr_children_def objects_def can_be_automatically_unblocked_qs_def can_be_unblocked_qs_def
        unblockable_def has_children_in_progress_def failed_def is_terminated_def)
  have r: "get_wr ?d 5 = Some example_running"
    by (simp add: get_wr_def served_def example_running_def new_work_request_def tbl_get_def)
  have fuel: "cascade_fuel ?d \<le> sv_fuel (example_server 12)"
    by (simp add: cascade_fuel_def served_def example_server_def)
  have assigned: "wr_worker example_running = Some 1" "wr_status example_running = RUNNING"
    by (simp_all add: example_running_def)
  have nobody: "\<not> is_worker_authenticated ?d None" by (simp add: is_worker_authenticated_def is_token_authenticated_def)
  note only = result_from_assignee_only [OF env calm settled r fuel, of SUCCESS _ example_request None]
  from only [of "Some example_token"] only [of None] show ?thesis
    by (auto simp: served_worker assigned nobody)
qed

theorem next_request_first_witness:
  "\<exists>r d'. answer (get_next_work_request (example_server 12) example_request example_context (Some example_token))
      (served [example_running\<lparr>wr_status := PENDING\<rparr>]) = (Inr (Response 200 (Some r)), d') \<and> wr_id r = 5
    \<and> map wr_status (db_work_requests d') = [RUNNING]"
proof -
  let ?r = "example_running\<lparr>wr_status := PENDING\<rparr>"
  let ?d = "served [?r]"
  have calm: "calm_db ?d" by (simp add: example_running_def served_calm_simps)
  have idle: "running (objects ?d) (Some (wk_id example_external)) = []" and room: "0 < wk_concurrency example_external"
    and mine: "pending (objects ?d) False (Some (wk_id example_external)) = Inr [?r]"
    by (simp_all add: running_def pending_def objects_def served_simps example_running_def new_work_request_def)
  have seen: "wr_id (for_worker ?r) = 5"
    by (simp add: for_worker_def example_running_def new_work_request_def)
  have rows: "db_work_requests ?d = [?r]" by (simp add: served_def)
  from next_request_first [where cx = example_context and sv = "example_server 12", OF calm served_worker(5,3,1) idle room] mine seen
  show ?thesis by (auto simp: started_def rows)
qed

theorem disconnected_worker_gets_work_witness:
  "\<exists>d'. disconnect (example_server 1) example_context 1 (served [new_work_request 5 7]) = (Inr (), d')
    \<and> (\<exists>q\<in>set (db_work_requests d'). wr_id q = 5 \<and> wr_worker q = Some 1)"
proof -
  let ?sv = "example_server 1" and ?d = "served [new_work_request 5 7]"
  have fuel: "sv_fuel ?sv = Suc 0" by (simp add: example_server_def)
  have calm: "calm_db ?d" by (simp add: served_calm_simps)
  have room: "\<not> is_at_capacity ?d example_external" "\<not> sc_worker_locked (sv_sched ?sv) (wk_id example_external)"
    by (simp_all add: is_at_capacity_def running_or_pending_def running_def objects_def new_work_request_def served_simps)
  have qs: "worker_candidates (sched_of ?sv example_context) ?d example_external = Inr [new_work_request 5 7]"
    by (simp add: worker_candidates_def pending_def objects_def allowed_tasks_def not_denied_tasks_def metadata_def
        dict_update_def new_work_request_def assignable_type_def served_simps)
  have task: "\<forall>q\<in>set [new_work_request 5 7]. sc_get_task (sv_sched ?sv)
      (put_worker (example_external\<lparr>wk_connected_at := None\<rparr>) ?d) q (example_external\<lparr>wk_connected_at := None\<rparr>)
      = Inr ((\<lambda>q m. True) q)"
    by (simp add: served_simps)
  have first: "find (takes (sched_of ?sv example_context) (\<lambda>q m. True) example_external) [new_work_request 5 7]
      = Some (new_work_request 5 7)"
    by (simp add: takes_def served_simps new_work_request_def)
  from disconnected_worker_gets_work [OF example_serves fuel calm served_worker(2) room qs task first] show ?thesis
    by (auto simp: served_worker(4) new_work_request_def)
qed

definition example_session :: session where
  "example_session = \<lparr>ss_db = served [new_work_request 5 7], ss_open = None, ss_phase = Ready, ss_channel = [],
     ss_wire = [], ss_working = False\<rparr>"

theorem assignment_notice_lost_witness:
  "\<exists>s'. session_steps (example_server 1) example_request example_context example_token example_external
      example_session s' \<and> (\<forall>s''. session_steps (example_server 1) example_request example_context example_token
        example_external s' s'' \<longrightarrow> waiting s'')"
proof -
  let ?sv = "example_server 1" and ?d = "served [new_work_request 5 7]"
  let ?run = "schedule_for_worker (sched_of ?sv example_context) (calls_of ?sv example_context) example_external ?d"
  have db: "ss_db example_session = ?d" by (simp add: example_session_def)
  have start: "waiting example_session" "ss_open example_session = None"
    by (simp_all add: waiting_def example_session_def)
  have idle: "active_work_requests ?d (wk_id example_external) = []"
    by (simp add: active_work_requests_def objects_def served_simps new_work_request_def)
  have run: "case fst ?run of Inl _ \<Rightarrow> False | Inr _ \<Rightarrow> True" by code_simp
  then obtain i where ran: "?run = (Inr i, snd ?run)" by (cases ?run) (auto split: sum.splits)
  have told: "notified example_external ?d (snd ?run) = [Work_request_assigned]" by code_simp
  have "list_ex (\<lambda>r. wr_worker r = Some 1 \<and> wr_status r = PENDING) (db_work_requests (snd ?run))" by code_simp
  then obtain r where r: "r \<in> set (db_work_requests (snd ?run))" "wr_worker r = Some (wk_id example_external)"
    "wr_status r = PENDING" by (auto simp: list_ex_iff served_worker(4))
  from assignment_notice_lost [of example_session example_token example_request ?sv example_external, unfolded db,
      OF start served_worker(3,1) idle served_worker(6) ran told r] show ?thesis by blast
qed

end
