(* ===== verification/Spec2Isabelle.thy ===== *)
theory Spec2Isabelle
  imports Inheritance Hierarchy Settling Scheduling Allocation UserGroups PoolFiles Items Cleanup Resolving Orphans Building
    Serving
begin

text \<open>
  A verification library for the server of Debusine, which runs the work requests of
  Debian workflows on a fleet of workers and keeps what they produce. File names are
  relative to src/debusine.

  The program. A scope holds workspaces, and who may do what in them follows from the
  roles of groups of users. Work requests form a tree of workflows and, across it, a graph
  of dependencies. A request is blocked, pending, running, completed or aborted; what ends
  unblocks or aborts what depends on it and finishes the workflow it belongs to. The
  scheduler gives pending requests to workers, and provisioning launches and terminates
  the workers of cloud pools. Tasks read and write artifacts, whose files are in file
  stores, and artifacts are in collections, which are found by lookups along the
  inheritance chain of the workspaces. Everything but the unused expires and is deleted.

  How the model is built. The database is one record of tables (\<open>db\<close>), a table the list
  of its rows in the order of their insertion. A method that writes is an action
  (\<open>Prelude\<close>): a function from the database to a result or an exception and the
  database it leaves, so that an exception keeps the writes made before it unless
  \<open>atomic\<close> undoes them. A method of a Django instance works on the instance and not on the
  row: \<open>inst\<close> has the row as it was read and the parent it has cached, and \<open>save\<close> writes
  every column, as Django does. Query sets are functions that filter tables; the
  recursive queries are their rounds (\<open>cte_union\<close>, \<open>chain_cte\<close>). Exceptions are the
  constructors of \<open>exn\<close>; their messages are abbreviated. Strings are lists of bytes, times
  and durations are whole numbers, and JSON is the datatype \<open>json\<close>.

  The theories, in the order of their imports:

  \<^item> \<open>Prelude\<close>: exceptions, actions with their invariants (\<open>ensures\<close>), tables, dictionaries.
  \<^item> \<open>Database\<close>: rows, choices and the database (db/models/*.py, artifacts/models.py,
    tasks/models.py, server/workflows/models.py).
  \<^item> \<open>Permissions\<close>, \<open>Roles\<close>, \<open>Workspaces\<close>: the decorators of db/models/permissions.py, the
    application context (db/context.py), the roles, and who holds them (scopes.py,
    workspaces.py). The checks of single rows and the filters of query sets agree; locale
    \<open>predicate_pair\<close> states it once.
  \<^item> \<open>Inheritance\<close>: \<open>set_inheritance\<close>, \<open>get_collection\<close> and \<open>list_accessible_collections\<close>; the
    recursive query finds what the depth-first generator meets first.
  \<^item> \<open>WorkRequests\<close>, \<open>Hierarchy\<close>, \<open>Lifecycle\<close>: the query sets of db/models/work_requests.py, the
    tree of workflows and its summaries, and every method that changes a request.
    \<open>Invariants\<close> keeps every row consistent through each of them, \<open>Cascade\<close> and \<open>Settling\<close> show
    that what a completed or aborted request sets in motion ends, and in which state;
    \<open>Progress\<close> is about concurrency and templates.
  \<^item> \<open>Workers\<close>, \<open>Scheduler\<close>, \<open>WorkerPools\<close>, \<open>Provisioning\<close>: db/models/workers.py and
    worker_pools.py, server/scheduler.py and provisioning.py. \<open>Scheduling\<close>, \<open>Pools\<close> and
    \<open>Allocation\<close> have their properties; the cloud provider is the locale
    \<open>worker_pool_interface\<close>, interpreted by the dummy provider.
  \<^item> \<open>Files\<close>, \<open>Stores\<close>: db/models/files.py, the stores of a scope and server/file_backend; a
    backend is a locale, interpreted by the local and the in-memory one.
  \<^item> \<open>UserGroups\<close>: groups, memberships and their audit log (db/models/auth.py).
  \<^item> \<open>TaskConfig\<close>: the entries of task configurations, and how they are combined and applied.
  \<^item> \<open>Collections\<close>, \<open>Managers\<close>, \<open>Items\<close>, \<open>PoolFiles\<close>: collections and their items, and the
    managers of server/collections; the files of a pool mean the same in every suite.
  \<^item> \<open>Lookups\<close>, \<open>Resolving\<close>: server/collections/lookup.py and the queries of the managers.
  \<^item> \<open>Artifacts\<close>, \<open>Expiry\<close>, \<open>Sweeping\<close>: db/models/artifacts.py and the collector of
    server/management/commands/delete_expired.py, as a refinement of the deletion of
    what the retained artifacts do not reach.
  \<^item> \<open>Deletions\<close>, \<open>Cleanup\<close>: the other deletions of that command; a workspace cannot go while
    one of its assets is the account of a file store or of a pool of workers.
  \<^item> \<open>Vacuum\<close>, \<open>Vacuuming\<close>, \<open>Orphans\<close>: server/management/commands/vacuum_storage.py, which
    populates and drains file stores and erases what no row refers to. What can be
    downloaded stays so (\<open>available\<close>, kept by every step), unless stores are shared.
  \<^item> \<open>Orchestration\<close>, \<open>Orchestrating\<close>: server/workflows/base.py and celery.py: the children
    that a workflow makes sure to have, and what becomes of it when its orchestrator fails.
  \<^item> \<open>WorkflowUtils\<close>, \<open>SbuildWorkflow\<close>, \<open>Building\<close>: server/workflows/workflow_utils.py and
    sbuild.py: one build request for each architecture, with what it promises.
  \<^item> \<open>Requests\<close>, \<open>WorkerApi\<close>: how the API serves a request (server/middlewares,
    server/exceptions.py, server/views/base.py, rest.py) and the protocol of the workers
    (server/views/workers.py). \<open>WorkRequestApi\<close>: server/views/work_requests.py. \<open>Sessions\<close>: the
    connections of workers and clients (server/consumers.py, server/notifications.py,
    worker/_worker.py, server/management/commands/worker.py), a session of a worker as a
    relation of steps. \<open>Serving\<close> has their properties.

  What is a parameter. Code that is not in the repository, and code whose result the
  components only pass on, is an argument: \<open>env\<close> has the task and workflow classes, the
  lookups and the callbacks of the life cycle and the settings that decide whether saving
  schedules; \<open>sched\<close> the locks and the results of Celery; \<open>provider\<close> the cloud;
  \<open>storage\<close> the store directory, the hash and the remote backends; \<open>data_models\<close> the pydantic
  models of artifacts and the order of Debian versions; \<open>coercion\<close> the conversion of
  fields; \<open>vacuum\<close> the options of the clean-up and the remote stores;
  \<open>sbuild_orchestrator\<close> dpkg's table of architecture wildcards; \<open>server\<close> the accounts of
  Django and the hash of keys. The clock is an argument and stands still during one operation.

  Bounds. The cascade of the life cycle is mutually recursive through the database; it
  takes the recursive calls as an argument and \<open>run\<close> ties the knot a given number of times.
  \<open>cascade_fuel\<close>, quadratic in the number of requests, is enough when tasks have the event
  reactions of \<open>BaseTask\<close>, those of requests neither skip requests nor retry them with a delay,
  and collections answer or fail with errors of items and lookups without touching work
  requests (\<open>calm_env\<close> and \<open>calm_db\<close> in \<open>Cascade\<close>). The recursive query of the inheritance chain needs one round more
  than there are visible workspaces (\<open>chain_cte_enough\<close>). The loops that look for a free
  name have as much fuel as there are names in use and one more; \<open>OutOfFuel\<close> is never
  an outcome of the theorems that say an operation returns.

  Simplifications. The results of \<open>latest\<close> among equal keys follow the order of the
  table. A transaction that PostgreSQL has marked as broken after an \<open>IntegrityError\<close>
  that was caught is not told from a sound one. \<open>scheduling_disabled\<close> is an environment
  whose saves do not queue the scheduler. The month in which limits are counted begins
  at a given time. Timestamps in JSON are numbers, and the string of a JSON
  container is not computed (\<open>NotSupportedError\<close>). A comparison with JSON of another
  type than the column of a query casts it to fails in the database; here it is false.
  What is written to the terminal and to logs is left out.

  Not modelled: the clients, the worker daemon but its reaction to messages, the tasks and
  their executors, the signing service, the web interface, most serializers, single sign on, the remote clouds and
  backends, and the management commands that only call methods that are modelled. They
  are input and output around the state that is modelled here, or run other programs.
\<close>

end
